(* ===== verification/Prelude.thy ===== *)
theory Prelude
  imports Complex_Main "HOL-Library.Word" "HOL-Library.Multiset"
begin

text \<open>
  What every other theory of the development uses: the types that stand for C values, the
  outcome type for undefined behaviour, the constants of \<^verbatim>\<open>inc/servmark.h\<close>, the named
  collections of proof rules and a few generic lemmas about lists and folds.

  A C \<^verbatim>\<open>double\<close> is a \<open>real\<close>: rounding is not modelled, and a computation that divides by zero
  (so that the C value is a NaN or an infinity) is the value \<open>None\<close> of an option.
  A C \<^verbatim>\<open>int\<close> is an \<open>int\<close>, cut to 32 bits where the source converts to it; array
  indices and counts that the code keeps non-negative are \<open>nat\<close>; \<^verbatim>\<open>uint64_t\<close> is a word.
\<close>

named_theorems loop_simps \<open>equations that turn the loops of the model into library functions\<close>
named_theorems invar_intros \<open>preservation rules of the component invariants\<close>

subsection \<open>Undefined behaviour as a value\<close>

text \<open>
  Most functions of the program return an \<^verbatim>\<open>int\<close> status, which the model returns as it is.
  Where the C text has undefined behaviour on some inputs (a write past an array, a read of a
  value never written, a bad shift, a signed overflow, the use of a null pointer), the model returns \<open>Undef\<close> with the reason.
\<close>

datatype ub = OobWrite | OobRead | UninitRead | BadShift | IntOverflow | NullDeref

datatype 'a outcome = Ret 'a | Undef ub

fun out_bind :: "'a outcome \<Rightarrow> ('a \<Rightarrow> 'b outcome) \<Rightarrow> 'b outcome" where
  "out_bind (Ret x) f = f x"
| "out_bind (Undef u) f = Undef u"

fun is_ret :: "'a outcome \<Rightarrow> bool" where
  "is_ret (Ret x) \<longleftrightarrow> True"
| "is_ret (Undef u) \<longleftrightarrow> False"

lemma is_ret_iff: "is_ret x \<longleftrightarrow> (\<exists>y. x = Ret y)"
  by (cases x) auto

lemma out_bind_eq_Ret: "out_bind x f = Ret z \<longleftrightarrow> (\<exists>y. x = Ret y \<and> f y = Ret z)"
  by (cases x) auto

subsection \<open>inc/servmark.h: the constants of the program\<close>

definition SSB_MAX_ITERATIONS :: int where "SSB_MAX_ITERATIONS = 31"
definition SSB_MIN_ITERATIONS :: int where "SSB_MIN_ITERATIONS = 5"
definition SSB_CONVERGENCE_TARGET :: real where "SSB_CONVERGENCE_TARGET = 2 / 100"
definition SSB_MIN_RUNTIME_SEC :: int where "SSB_MIN_RUNTIME_SEC = 10"
definition SSB_MAX_RUNTIME_SEC :: int where "SSB_MAX_RUNTIME_SEC = 180"
definition SSB_COOLDOWN_SEC :: int where "SSB_COOLDOWN_SEC = 30"
definition SSB_CV_STABLE :: real where "SSB_CV_STABLE = 2 / 100"
definition SSB_CV_MODERATE :: real where "SSB_CV_MODERATE = 5 / 100"
definition SSB_CV_HIGH :: real where "SSB_CV_HIGH = 10 / 100"
definition SSB_BOOTSTRAP_RESAMPLES :: nat where "SSB_BOOTSTRAP_RESAMPLES = 10000"

lemmas ssb_consts = SSB_MAX_ITERATIONS_def SSB_MIN_ITERATIONS_def SSB_CONVERGENCE_TARGET_def
  SSB_MIN_RUNTIME_SEC_def SSB_MAX_RUNTIME_SEC_def SSB_COOLDOWN_SEC_def SSB_CV_STABLE_def
  SSB_CV_MODERATE_def SSB_CV_HIGH_def

text \<open>\<open>SSB_NUM_CPUS\<close>: the value of \<^verbatim>\<open>sysconf(_SC_NPROCESSORS_ONLN)\<close> is the parameter \<open>n\<close>.\<close>

definition SSB_NUM_CPUS :: "int \<Rightarrow> int" where
  "SSB_NUM_CPUS n = (if n > 0 then n else 1)"

lemma SSB_NUM_CPUS_pos: "1 \<le> SSB_NUM_CPUS n"
  by (simp add: SSB_NUM_CPUS_def)

subsection \<open>Accumulating loops\<close>

text \<open>A loop \<open>for (i = 0; i < n; i++) acc += f(v[i])\<close> is a left fold.\<close>

definition loop_sum :: "('a \<Rightarrow> real) \<Rightarrow> 'a list \<Rightarrow> real" where
  "loop_sum f xs = foldl (\<lambda>acc x. acc + f x) 0 xs"

lemma foldl_add_from: "foldl (\<lambda>acc x. acc + f x) (a :: real) xs = a + (\<Sum>x \<leftarrow> xs. f x)"
  by (induction xs arbitrary: a) auto

lemma loop_sum_eq [loop_simps]: "loop_sum f xs = (\<Sum>x \<leftarrow> xs. f x)"
  by (simp add: loop_sum_def foldl_add_from)

subsection \<open>Lists\<close>

lemma sum_list_ge_card:
  fixes f :: "'a \<Rightarrow> real"
  shows "(\<And>x. x \<in> set xs \<Longrightarrow> c \<le> f x) \<Longrightarrow> real (length xs) * c \<le> (\<Sum>x \<leftarrow> xs. f x)"
  by (induction xs) (auto simp: algebra_simps add_mono)

lemma sum_list_le_card:
  fixes f :: "'a \<Rightarrow> real"
  shows "(\<And>x. x \<in> set xs \<Longrightarrow> f x \<le> c) \<Longrightarrow> (\<Sum>x \<leftarrow> xs. f x) \<le> real (length xs) * c"
  by (induction xs) (auto simp: algebra_simps add_mono)

end
