(* ===== verification/Registry.thy ===== *)
theory Registry
  imports Prelude
begin

text \<open>
  \<^verbatim>\<open>inc/benchmark.h\<close> and \<^verbatim>\<open>src/core/benchmark.c\<close>: the benchmark descriptor and the global table
  the load-time constructors fill. Function pointers of a descriptor are the names of the C
  functions; \<^verbatim>\<open>NULL\<close> is \<open>None\<close>.
\<close>

subsection \<open>inc/benchmark.h: measurements and descriptors\<close>

record measurement_t =
  primary_metric :: real
  wall_seconds :: real
  cpu_seconds :: real
  instructions :: int
  cycles :: int
  cache_misses :: int

record benchmark_t =
  bm_name :: string
  bm_category :: string
  bm_description :: string
  bm_tier :: int
  bm_primary_metric_name :: string
  bm_higher_is_better :: bool
  bm_min_iterations :: int
  bm_max_iterations :: int
  bm_convergence_target :: real
  bm_min_runtime_sec :: int
  bm_max_runtime_sec :: int
  bm_cooldown_required :: bool
  bm_init :: string
  bm_warmup :: "string option"
  bm_measure :: string
  bm_cleanup :: string
  bm_num_threads :: int

subsection \<open>src/core/benchmark.c: the static table\<close>

definition MAX_BENCHMARKS :: nat where "MAX_BENCHMARKS = 128"

text \<open>\<open>slots\<close> is the static array \<^verbatim>\<open>_benchmarks\<close> (all \<^verbatim>\<open>NULL\<close> at start),
  \<open>benchmark_count\<close> is \<^verbatim>\<open>_benchmark_count\<close>.\<close>

record registry =
  slots :: "benchmark_t option list"
  benchmark_count :: nat

definition registry_init :: registry where
  "registry_init = \<lparr>slots = replicate MAX_BENCHMARKS None, benchmark_count = 0\<rparr>"

definition benchmark_register :: "benchmark_t \<Rightarrow> registry \<Rightarrow> int \<times> registry" where
  "benchmark_register bench r =
     (if benchmark_count r \<ge> MAX_BENCHMARKS then (-1, r)
      else (0, r\<lparr>slots := (slots r)[benchmark_count r := Some bench],
                 benchmark_count := benchmark_count r + 1\<rparr>))"

text \<open>The entries a caller reads through the returned table: index 0 to count - 1.\<close>

definition entries :: "registry \<Rightarrow> benchmark_t option list" where
  "entries r = take (benchmark_count r) (slots r)"

text \<open>\<open>args_ok\<close>: every out-pointer is non-\<^verbatim>\<open>NULL\<close>. The outputs are \<open>None\<close> when not written.\<close>

definition benchmark_get_all ::
    "registry \<Rightarrow> bool \<Rightarrow> int \<times> (benchmark_t option list \<times> int) option" where
  "benchmark_get_all r args_ok =
     (if \<not> args_ok then (-1, None)
      else (0, Some (entries r, int (benchmark_count r))))"

text \<open>The filter loop shared by the two queries: \<open>filtered[n++] = _benchmarks[i]\<close>.\<close>

fun filter_loop :: "(benchmark_t \<Rightarrow> bool) \<Rightarrow> benchmark_t option list \<Rightarrow> benchmark_t list
    \<Rightarrow> benchmark_t list" where
  "filter_loop P [] filtered = filtered"
| "filter_loop P (None # bs) filtered = filter_loop P bs filtered"
| "filter_loop P (Some b # bs) filtered =
     filter_loop P bs (if P b then filtered @ [b] else filtered)"

definition benchmark_get_by_category ::
    "registry \<Rightarrow> string option \<Rightarrow> bool \<Rightarrow> bool \<Rightarrow> int \<times> (benchmark_t list option \<times> int) option" where
  "benchmark_get_by_category r category args_ok calloc_ok =
     (case category of
        None \<Rightarrow> (-1, None)
      | Some cat \<Rightarrow>
          if \<not> args_ok then (-1, None)
          else if \<not> calloc_ok then (-1, Some (None, 0))
          else let filtered = filter_loop (\<lambda>b. bm_category b = cat) (entries r) []
               in (0, Some (Some filtered, int (length filtered))))"

definition benchmark_get_by_tier ::
    "registry \<Rightarrow> int \<Rightarrow> bool \<Rightarrow> bool \<Rightarrow> int \<times> (benchmark_t list option \<times> int) option" where
  "benchmark_get_by_tier r tier args_ok calloc_ok =
     (if \<not> args_ok then (-1, None)
      else if \<not> calloc_ok then (-1, Some (None, 0))
      else let filtered = filter_loop (\<lambda>b. bm_tier b = tier) (entries r) []
           in (0, Some (Some filtered, int (length filtered))))"

subsection \<open>The interface: a bounded append-only table\<close>

text \<open>What the constructors and the readers rely on: a full table refuses, a table with room
  appends at the end, and the table reads back as a list.\<close>

locale bounded_table =
  fixes empty :: 's
    and add :: "'a \<Rightarrow> 's \<Rightarrow> int \<times> 's"
    and list_of :: "'s \<Rightarrow> 'a list"
    and invar :: "'s \<Rightarrow> bool"
    and capacity :: nat
  assumes empty_list: "list_of empty = []"
    and empty_invar: "invar empty"
    and add_room: "invar s \<Longrightarrow> length (list_of s) < capacity \<Longrightarrow>
      fst (add x s) = 0 \<and> list_of (snd (add x s)) = list_of s @ [x]"
    and add_full: "invar s \<Longrightarrow> capacity \<le> length (list_of s) \<Longrightarrow> add x s = (-1, s)"
    and add_invar: "invar s \<Longrightarrow> invar (snd (add x s))"
begin

definition add_all :: "'a list \<Rightarrow> 's \<Rightarrow> 's" where
  "add_all xs s = foldl (\<lambda>s x. snd (add x s)) s xs"

lemma add_all_invar: "invar s \<Longrightarrow> invar (add_all xs s)"
  unfolding add_all_def by (induction xs arbitrary: s) (auto simp: add_invar)

lemma list_of_add:
  "invar s \<Longrightarrow> length (list_of s) \<le> capacity \<Longrightarrow>
   list_of (snd (add x s)) = take capacity (list_of s @ [x])"
  by (cases "length (list_of s) < capacity") (auto simp: add_room add_full)

lemma list_of_add_all_from:
  "invar s \<Longrightarrow> length (list_of s) \<le> capacity \<Longrightarrow>
   list_of (add_all xs s) = take capacity (list_of s @ xs)"
proof (induction xs arbitrary: s)
  case Nil
  then show ?case by (simp add: add_all_def)
next
  case (Cons x xs)
  let ?s = "snd (add x s)"
  have l: "list_of ?s = take capacity (list_of s @ [x])"
    using Cons.prems by (rule list_of_add)
  have "list_of (add_all xs ?s) = take capacity (list_of ?s @ xs)"
    by (rule Cons.IH) (simp_all add: Cons.prems add_invar l, use Cons.prems(2) in linarith)
  moreover have "add_all (x # xs) s = add_all xs ?s" by (simp add: add_all_def)
  moreover have "take capacity (take capacity (list_of s @ [x]) @ xs)
      = take capacity (list_of s @ x # xs)"
    using Cons.prems(2) by (cases "length (list_of s) < capacity") auto
  ultimately show ?case by (simp add: l)
qed

lemma list_of_add_all: "list_of (add_all xs empty) = take capacity xs"
  using list_of_add_all_from [of empty xs] by (simp add: empty_list empty_invar)

end

subsection \<open>The table of benchmark.c implements it\<close>

definition registry_invar :: "registry \<Rightarrow> bool" where
  "registry_invar r \<longleftrightarrow> length (slots r) = MAX_BENCHMARKS \<and> benchmark_count r \<le> MAX_BENCHMARKS \<and>
     None \<notin> set (entries r)"

definition registered :: "registry \<Rightarrow> benchmark_t list" where
  "registered r = map the (entries r)"

lemma length_registered: "registry_invar r \<Longrightarrow> length (registered r) = benchmark_count r"
  by (simp add: registry_invar_def registered_def entries_def)

lemma entries_register:
  assumes "registry_invar r" "benchmark_count r < MAX_BENCHMARKS"
  shows "entries (snd (benchmark_register b r)) = entries r @ [Some b]"
  using assms
  by (simp add: registry_invar_def benchmark_register_def entries_def take_Suc_conv_app_nth)

lemma register_invar [invar_intros]:
  assumes "registry_invar r"
  shows "registry_invar (snd (benchmark_register b r))"
proof (cases "benchmark_count r < MAX_BENCHMARKS")
  case True
  have "None \<notin> set (entries (snd (benchmark_register b r)))"
    using assms True by (simp add: entries_register registry_invar_def)
  then show ?thesis
    using assms True by (auto simp: registry_invar_def benchmark_register_def)
next
  case False
  with assms show ?thesis by (simp add: benchmark_register_def)
qed

interpretation reg: bounded_table registry_init benchmark_register registered registry_invar
    MAX_BENCHMARKS
proof unfold_locales
  show "registered registry_init = []"
    by (simp add: registered_def entries_def registry_init_def)
  show "registry_invar registry_init"
    by (simp add: registry_invar_def entries_def registry_init_def)
next
  fix s x assume s: "registry_invar s" and "length (registered s) < MAX_BENCHMARKS"
  then have "benchmark_count s < MAX_BENCHMARKS" by (simp add: length_registered)
  with s show "fst (benchmark_register x s) = 0 \<and>
      registered (snd (benchmark_register x s)) = registered s @ [x]"
    by (simp add: registered_def entries_register) (simp add: benchmark_register_def)
next
  fix s x assume "registry_invar s" and "MAX_BENCHMARKS \<le> length (registered s)"
  then show "benchmark_register x s = (-1, s)"
    by (simp add: length_registered benchmark_register_def)
next
  fix s x assume "registry_invar s"
  then show "registry_invar (snd (benchmark_register x s))" by (rule register_invar)
qed

text \<open>The state after the constructors have run, in link order.\<close>

definition register_all :: "benchmark_t list \<Rightarrow> registry" where
  "register_all bs = foldl (\<lambda>r b. snd (benchmark_register b r)) registry_init bs"

lemma register_all_add_all: "register_all bs = reg.add_all bs registry_init"
  by (simp add: register_all_def reg.add_all_def)

lemma registered_register_all: "registered (register_all bs) = take MAX_BENCHMARKS bs"
  by (simp add: register_all_add_all reg.list_of_add_all)

lemma register_all_invar: "registry_invar (register_all bs)"
  by (simp add: register_all_add_all reg.add_all_invar reg.empty_invar)

lemma filter_loop_eq [loop_simps]:
  "None \<notin> set es \<Longrightarrow> filter_loop P es acc = acc @ filter P (map the es)"
  by (induction P es acc rule: filter_loop.induct) auto

lemma entries_Some: "registry_invar r \<Longrightarrow> entries r = map Some (registered r)"
  unfolding registry_invar_def registered_def
  by (auto intro!: nth_equalityI) (metis in_set_conv_nth option.collapse nth_mem)

text \<open>
  After the constructors have registered the benchmarks \<open>bs\<close>, the category query returns
  exactly the registered ones of that category, in registration order, with their number; only
  what lies past the 128th registration is lost.
\<close>

theorem by_category_exact:
  "benchmark_get_by_category (register_all bs) (Some cat) True True =
     (let found = filter (\<lambda>b. bm_category b = cat) (take MAX_BENCHMARKS bs)
      in (0, Some (Some found, int (length found))))"
  using register_all_invar [of bs]
  by (simp add: benchmark_get_by_category_def filter_loop_eq registry_invar_def
      Let_def registered_def [symmetric] registered_register_all)

end
