(* ===== verification/Catalog.thy ===== *)
theory Catalog
  imports Registry
begin

text \<open>
  The benchmarks: one descriptor per file of \<^verbatim>\<open>src/benchmarks\<close>, as its
  \<^verbatim>\<open>benchmark_t bench_...\<close> initialiser gives it, and the list the constructors of
  \<^verbatim>\<open>SSB_BENCHMARK_REGISTER\<close> register (in the order \<^verbatim>\<open>CMakeLists.txt\<close> links the modules; the
  theorems use it up to order only). The lemmas check the catalog against the registry's
  capacity, the harness's buffers and the categories of the scoring table.
\<close>

subsection \<open>src/src/benchmarks/compute\<close>

definition bench_int_hash :: benchmark_t where
  "bench_int_hash = \<lparr>
     bm_name = ''int-hash'', bm_category = ''C1'',
     bm_description = ''64-bit integer hash table insert/lookup/delete'',
     bm_tier = 1, bm_primary_metric_name = ''ops/sec'',
     bm_higher_is_better = True,
     bm_min_iterations = SSB_MIN_ITERATIONS, bm_max_iterations = SSB_MAX_ITERATIONS,
     bm_convergence_target = SSB_CONVERGENCE_TARGET,
     bm_min_runtime_sec = SSB_MIN_RUNTIME_SEC, bm_max_runtime_sec = SSB_MAX_RUNTIME_SEC,
     bm_cooldown_required = True,
     bm_init = ''int_hash_init'', bm_warmup = Some ''int_hash_warmup'',
     bm_measure = ''int_hash_measure'', bm_cleanup = ''int_hash_cleanup'',
     bm_num_threads = 1\<rparr>"

definition bench_int_sort :: benchmark_t where
  "bench_int_sort = \<lparr>
     bm_name = ''int-sort'', bm_category = ''C1'',
     bm_description = ''64-bit integer LSD radix sort 10M elements (pre-alloc work buf)'',
     bm_tier = 1, bm_primary_metric_name = ''elements/sec'',
     bm_higher_is_better = True,
     bm_min_iterations = SSB_MIN_ITERATIONS, bm_max_iterations = SSB_MAX_ITERATIONS,
     bm_convergence_target = SSB_CONVERGENCE_TARGET,
     bm_min_runtime_sec = SSB_MIN_RUNTIME_SEC, bm_max_runtime_sec = SSB_MAX_RUNTIME_SEC,
     bm_cooldown_required = True,
     bm_init = ''int_sort_init'', bm_warmup = Some ''int_sort_warmup'',
     bm_measure = ''int_sort_measure'', bm_cleanup = ''int_sort_cleanup'',
     bm_num_threads = 1\<rparr>"

definition bench_int_parse :: benchmark_t where
  "bench_int_parse = \<lparr>
     bm_name = ''int-parse'', bm_category = ''C1'',
     bm_description = ''Integer string parsing (Dhrystone integer ALU modernized)'',
     bm_tier = 1, bm_primary_metric_name = ''items/sec'',
     bm_higher_is_better = True,
     bm_min_iterations = SSB_MIN_ITERATIONS, bm_max_iterations = SSB_MAX_ITERATIONS,
     bm_convergence_target = SSB_CONVERGENCE_TARGET,
     bm_min_runtime_sec = SSB_MIN_RUNTIME_SEC, bm_max_runtime_sec = SSB_MAX_RUNTIME_SEC,
     bm_cooldown_required = True,
     bm_init = ''int_parse_init'', bm_warmup = Some ''int_parse_warmup'',
     bm_measure = ''int_parse_measure'', bm_cleanup = ''int_parse_cleanup'',
     bm_num_threads = 1\<rparr>"

definition bench_int_regex :: benchmark_t where
  "bench_int_regex = \<lparr>
     bm_name = ''int-substr'', bm_category = ''C1'',
     bm_description = ''Naive substring search on 2MB log text (branch stress test)'',
     bm_tier = 1, bm_primary_metric_name = ''byte-scans/sec'',
     bm_higher_is_better = True,
     bm_min_iterations = SSB_MIN_ITERATIONS, bm_max_iterations = SSB_MAX_ITERATIONS,
     bm_convergence_target = SSB_CONVERGENCE_TARGET,
     bm_min_runtime_sec = SSB_MIN_RUNTIME_SEC, bm_max_runtime_sec = SSB_MAX_RUNTIME_SEC,
     bm_cooldown_required = True,
     bm_init = ''int_regex_init'', bm_warmup = Some ''int_regex_warmup'',
     bm_measure = ''int_regex_measure'', bm_cleanup = ''int_regex_cleanup'',
     bm_num_threads = 1\<rparr>"

definition bench_fp_gemm :: benchmark_t where
  "bench_fp_gemm = \<lparr>
     bm_name = ''fp-gemm'', bm_category = ''C2'',
     bm_description = ''DGEMM matrix multiply N=512 (Whetstone modernized)'',
     bm_tier = 1, bm_primary_metric_name = ''FLOPS'',
     bm_higher_is_better = True,
     bm_min_iterations = SSB_MIN_ITERATIONS, bm_max_iterations = SSB_MAX_ITERATIONS,
     bm_convergence_target = SSB_CONVERGENCE_TARGET,
     bm_min_runtime_sec = SSB_MIN_RUNTIME_SEC, bm_max_runtime_sec = SSB_MAX_RUNTIME_SEC,
     bm_cooldown_required = True,
     bm_init = ''fp_gemm_init'', bm_warmup = Some ''fp_gemm_warmup'',
     bm_measure = ''fp_gemm_measure'', bm_cleanup = ''fp_gemm_cleanup'',
     bm_num_threads = 1\<rparr>"

definition bench_fp_fft :: benchmark_t where
  "bench_fp_fft = \<lparr>
     bm_name = ''fp-fft'', bm_category = ''C2'',
     bm_description = ''Radix-2 FFT N=2048 (pre-allocated work buffers, no heap in timed path)'',
     bm_tier = 1, bm_primary_metric_name = ''FLOPS'',
     bm_higher_is_better = True,
     bm_min_iterations = SSB_MIN_ITERATIONS, bm_max_iterations = SSB_MAX_ITERATIONS,
     bm_convergence_target = SSB_CONVERGENCE_TARGET,
     bm_min_runtime_sec = SSB_MIN_RUNTIME_SEC, bm_max_runtime_sec = SSB_MAX_RUNTIME_SEC,
     bm_cooldown_required = True,
     bm_init = ''fp_fft_init'', bm_warmup = Some ''fp_fft_warmup'',
     bm_measure = ''fp_fft_measure'', bm_cleanup = ''fp_fft_cleanup'',
     bm_num_threads = 1\<rparr>"

definition bench_fp_conv :: benchmark_t where
  "bench_fp_conv = \<lparr>
     bm_name = ''fp-conv'', bm_category = ''C2'',
     bm_description = ''3x3 convolution 128x128 (output-verified, Whetstone modernized)'',
     bm_tier = 1, bm_primary_metric_name = ''FLOPS'',
     bm_higher_is_better = True,
     bm_min_iterations = SSB_MIN_ITERATIONS, bm_max_iterations = SSB_MAX_ITERATIONS,
     bm_convergence_target = SSB_CONVERGENCE_TARGET,
     bm_min_runtime_sec = SSB_MIN_RUNTIME_SEC, bm_max_runtime_sec = SSB_MAX_RUNTIME_SEC,
     bm_cooldown_required = True,
     bm_init = ''fp_conv_init'', bm_warmup = Some ''fp_conv_warmup'',
     bm_measure = ''fp_conv_measure'', bm_cleanup = ''fp_conv_cleanup'',
     bm_num_threads = 1\<rparr>"

definition bench_fp_distance :: benchmark_t where
  "bench_fp_distance = \<lparr>
     bm_name = ''fp-distance'', bm_category = ''C2'',
     bm_description = ''Vector dot product + cosine distance dim=768 (ML embedding ops)'',
     bm_tier = 1, bm_primary_metric_name = ''FLOPS'',
     bm_higher_is_better = True,
     bm_min_iterations = SSB_MIN_ITERATIONS, bm_max_iterations = SSB_MAX_ITERATIONS,
     bm_convergence_target = SSB_CONVERGENCE_TARGET,
     bm_min_runtime_sec = SSB_MIN_RUNTIME_SEC, bm_max_runtime_sec = SSB_MAX_RUNTIME_SEC,
     bm_cooldown_required = True,
     bm_init = ''fp_distance_init'', bm_warmup = Some ''fp_distance_warmup'',
     bm_measure = ''fp_distance_measure'', bm_cleanup = ''fp_distance_cleanup'',
     bm_num_threads = 1\<rparr>"

definition bench_fp_ray :: benchmark_t where
  "bench_fp_ray = \<lparr>
     bm_name = ''fp-ray'', bm_category = ''C2'',
     bm_description = ''Ray-triangle intersection (Moller-Trumbore)'',
     bm_tier = 1, bm_primary_metric_name = ''intersect/sec'',
     bm_higher_is_better = True,
     bm_min_iterations = SSB_MIN_ITERATIONS, bm_max_iterations = SSB_MAX_ITERATIONS,
     bm_convergence_target = SSB_CONVERGENCE_TARGET,
     bm_min_runtime_sec = SSB_MIN_RUNTIME_SEC, bm_max_runtime_sec = SSB_MAX_RUNTIME_SEC,
     bm_cooldown_required = True,
     bm_init = ''fp_ray_init'', bm_warmup = Some ''fp_ray_warmup'',
     bm_measure = ''fp_ray_measure'', bm_cleanup = ''fp_ray_cleanup'',
     bm_num_threads = 1\<rparr>"

definition compute_benchmarks :: "benchmark_t list" where
  "compute_benchmarks = [
     bench_int_hash,
     bench_int_sort,
     bench_int_parse,
     bench_int_regex,
     bench_fp_gemm,
     bench_fp_fft,
     bench_fp_conv,
     bench_fp_distance,
     bench_fp_ray]"

subsection \<open>src/src/benchmarks/crypto\<close>

definition bench_crypto_zstd :: benchmark_t where
  "bench_crypto_zstd = \<lparr>
     bm_name = ''crypto-zstd'', bm_category = ''C3'',
     bm_description = ''zstd compress level 3 64MB (DRAM-bound at >L3 on all arches. HW CRC32 on x86/ARM64, SW on RISC-V)'',
     bm_tier = 1, bm_primary_metric_name = ''bytes/sec'',
     bm_higher_is_better = True,
     bm_min_iterations = SSB_MIN_ITERATIONS, bm_max_iterations = SSB_MAX_ITERATIONS,
     bm_convergence_target = SSB_CONVERGENCE_TARGET,
     bm_min_runtime_sec = SSB_MIN_RUNTIME_SEC, bm_max_runtime_sec = SSB_MAX_RUNTIME_SEC,
     bm_cooldown_required = True,
     bm_init = ''crypto_zstd_init'', bm_warmup = Some ''crypto_zstd_warmup'',
     bm_measure = ''crypto_zstd_measure'', bm_cleanup = ''crypto_zstd_cleanup'',
     bm_num_threads = 1\<rparr>"

definition bench_crypto_aes :: benchmark_t where
  "bench_crypto_aes = \<lparr>
     bm_name = ''crypto-aes'', bm_category = ''C3'',
     bm_description = ''AES-256-GCM encrypt throughput (HW-accel: AES-NI x86, ARMv8 Crypto ARM64, SW-only RISC-V)'',
     bm_tier = 1, bm_primary_metric_name = ''bytes/sec'',
     bm_higher_is_better = True,
     bm_min_iterations = SSB_MIN_ITERATIONS, bm_max_iterations = SSB_MAX_ITERATIONS,
     bm_convergence_target = SSB_CONVERGENCE_TARGET,
     bm_min_runtime_sec = SSB_MIN_RUNTIME_SEC, bm_max_runtime_sec = SSB_MAX_RUNTIME_SEC,
     bm_cooldown_required = True,
     bm_init = ''crypto_aes_init'', bm_warmup = Some ''crypto_aes_warmup'',
     bm_measure = ''crypto_aes_measure'', bm_cleanup = ''crypto_aes_cleanup'',
     bm_num_threads = 1\<rparr>"

definition bench_crypto_hash :: benchmark_t where
  "bench_crypto_hash = \<lparr>
     bm_name = ''crypto-hash'', bm_category = ''C3'',
     bm_description = ''SHA-256 hash 256MB (HW: SHA-NI x86, ARMv8 Crypto ARM64, SW RISC-V. May be DRAM-bound)'',
     bm_tier = 1, bm_primary_metric_name = ''bytes/sec'',
     bm_higher_is_better = True,
     bm_min_iterations = SSB_MIN_ITERATIONS, bm_max_iterations = SSB_MAX_ITERATIONS,
     bm_convergence_target = SSB_CONVERGENCE_TARGET,
     bm_min_runtime_sec = SSB_MIN_RUNTIME_SEC, bm_max_runtime_sec = SSB_MAX_RUNTIME_SEC,
     bm_cooldown_required = True,
     bm_init = ''crypto_hash_init'', bm_warmup = Some ''crypto_hash_warmup'',
     bm_measure = ''crypto_hash_measure'', bm_cleanup = ''crypto_hash_cleanup'',
     bm_num_threads = 1\<rparr>"

definition bench_crypto_rsa :: benchmark_t where
  "bench_crypto_rsa = \<lparr>
     bm_name = ''crypto-rsa'', bm_category = ''C3'',
     bm_description = ''RSA-2048 SHA-256 sign throughput (PKCS#1 v1.5. HW-accel on x86/ARM64, SW on RISC-V)'',
     bm_tier = 1, bm_primary_metric_name = ''signatures/sec'',
     bm_higher_is_better = True,
     bm_min_iterations = SSB_MIN_ITERATIONS, bm_max_iterations = SSB_MAX_ITERATIONS,
     bm_convergence_target = SSB_CONVERGENCE_TARGET,
     bm_min_runtime_sec = SSB_MIN_RUNTIME_SEC, bm_max_runtime_sec = SSB_MAX_RUNTIME_SEC,
     bm_cooldown_required = True,
     bm_init = ''crypto_rsa_init'', bm_warmup = Some ''crypto_rsa_warmup'',
     bm_measure = ''crypto_rsa_measure'', bm_cleanup = ''crypto_rsa_cleanup'',
     bm_num_threads = 1\<rparr>"

definition bench_crypto_ed25519_sign :: benchmark_t where
  "bench_crypto_ed25519_sign = \<lparr>
     bm_name = ''crypto-ed25519-sign'', bm_category = ''C3'',
     bm_description = ''Ed25519 signature throughput (SSH/WireGuard/TLS 1.3 standard)'',
     bm_tier = 1, bm_primary_metric_name = ''signatures/sec'',
     bm_higher_is_better = True,
     bm_min_iterations = SSB_MIN_ITERATIONS, bm_max_iterations = SSB_MAX_ITERATIONS,
     bm_convergence_target = SSB_CONVERGENCE_TARGET,
     bm_min_runtime_sec = SSB_MIN_RUNTIME_SEC, bm_max_runtime_sec = SSB_MAX_RUNTIME_SEC,
     bm_cooldown_required = True,
     bm_init = ''crypto_ed25519_sign_init'', bm_warmup = Some ''crypto_ed25519_sign_warmup'',
     bm_measure = ''crypto_ed25519_sign_measure'', bm_cleanup = ''crypto_ed25519_sign_cleanup'',
     bm_num_threads = 1\<rparr>"

definition bench_crypto_x25519_ecdh :: benchmark_t where
  "bench_crypto_x25519_ecdh = \<lparr>
     bm_name = ''crypto-x25519-ecdh'', bm_category = ''C3'',
     bm_description = ''X25519 ECDH key exchange (TLS 1.3 handshake bottleneck, ~90% connections)'',
     bm_tier = 1, bm_primary_metric_name = ''exchanges/sec'',
     bm_higher_is_better = True,
     bm_min_iterations = SSB_MIN_ITERATIONS, bm_max_iterations = SSB_MAX_ITERATIONS,
     bm_convergence_target = SSB_CONVERGENCE_TARGET,
     bm_min_runtime_sec = SSB_MIN_RUNTIME_SEC, bm_max_runtime_sec = SSB_MAX_RUNTIME_SEC,
     bm_cooldown_required = True,
     bm_init = ''crypto_x25519_ecdh_init'', bm_warmup = Some ''crypto_x25519_ecdh_warmup'',
     bm_measure = ''crypto_x25519_ecdh_measure'', bm_cleanup = ''crypto_x25519_ecdh_cleanup'',
     bm_num_threads = 1\<rparr>"

definition bench_crypto_chacha20_poly1305 :: benchmark_t where
  "bench_crypto_chacha20_poly1305 = \<lparr>
     bm_name = ''crypto-chacha20-poly1305'', bm_category = ''C3'',
     bm_description = ''ChaCha20-Poly1305 AEAD encrypt (ARM/WireGuard/QUIC cipher. HW-accel x86/ARM64/S390x)'',
     bm_tier = 1, bm_primary_metric_name = ''bytes/sec'',
     bm_higher_is_better = True,
     bm_min_iterations = SSB_MIN_ITERATIONS, bm_max_iterations = SSB_MAX_ITERATIONS,
     bm_convergence_target = SSB_CONVERGENCE_TARGET,
     bm_min_runtime_sec = SSB_MIN_RUNTIME_SEC, bm_max_runtime_sec = SSB_MAX_RUNTIME_SEC,
     bm_cooldown_required = True,
     bm_init = ''crypto_chacha20_poly1305_init'', bm_warmup = Some ''crypto_chacha20_poly1305_warmup'',
     bm_measure = ''crypto_chacha20_poly1305_measure'', bm_cleanup = ''crypto_chacha20_poly1305_cleanup'',
     bm_num_threads = 1\<rparr>"

definition bench_crypto_ecdsa_p256_sign :: benchmark_t where
  "bench_crypto_ecdsa_p256_sign = \<lparr>
     bm_name = ''crypto-ecdsa-p256-sign'', bm_category = ''C3'',
     bm_description = ''ECDSA P-256 SHA-256 signing (FIPS-compliant, AWS KMS default)'',
     bm_tier = 1, bm_primary_metric_name = ''signatures/sec'',
     bm_higher_is_better = True,
     bm_min_iterations = SSB_MIN_ITERATIONS, bm_max_iterations = SSB_MAX_ITERATIONS,
     bm_convergence_target = SSB_CONVERGENCE_TARGET,
     bm_min_runtime_sec = SSB_MIN_RUNTIME_SEC, bm_max_runtime_sec = SSB_MAX_RUNTIME_SEC,
     bm_cooldown_required = True,
     bm_init = ''crypto_ecdsa_p256_sign_init'', bm_warmup = Some ''crypto_ecdsa_p256_sign_warmup'',
     bm_measure = ''crypto_ecdsa_p256_sign_measure'', bm_cleanup = ''crypto_ecdsa_p256_sign_cleanup'',
     bm_num_threads = 1\<rparr>"

definition bench_crypto_sm2_sign :: benchmark_t where
  "bench_crypto_sm2_sign = \<lparr>
     bm_name = ''crypto-sm2-sign'', bm_category = ''C3'',
     bm_description = ''SM2 SM3 signature (GM/T 0003, China banking/e-government standard)'',
     bm_tier = 2, bm_primary_metric_name = ''signatures/sec'',
     bm_higher_is_better = True,
     bm_min_iterations = SSB_MIN_ITERATIONS, bm_max_iterations = SSB_MAX_ITERATIONS,
     bm_convergence_target = SSB_CONVERGENCE_TARGET,
     bm_min_runtime_sec = SSB_MIN_RUNTIME_SEC, bm_max_runtime_sec = SSB_MAX_RUNTIME_SEC,
     bm_cooldown_required = True,
     bm_init = ''crypto_sm2_sign_init'', bm_warmup = Some ''crypto_sm2_sign_warmup'',
     bm_measure = ''crypto_sm2_sign_measure'', bm_cleanup = ''crypto_sm2_sign_cleanup'',
     bm_num_threads = 1\<rparr>"

definition bench_crypto_sm3 :: benchmark_t where
  "bench_crypto_sm3 = \<lparr>
     bm_name = ''crypto-sm3'', bm_category = ''C3'',
     bm_description = ''SM3 hash 256MB (GM/T 0004, China integrity standard)'',
     bm_tier = 2, bm_primary_metric_name = ''bytes/sec'',
     bm_higher_is_better = True,
     bm_min_iterations = SSB_MIN_ITERATIONS, bm_max_iterations = SSB_MAX_ITERATIONS,
     bm_convergence_target = SSB_CONVERGENCE_TARGET,
     bm_min_runtime_sec = SSB_MIN_RUNTIME_SEC, bm_max_runtime_sec = SSB_MAX_RUNTIME_SEC,
     bm_cooldown_required = True,
     bm_init = ''crypto_sm3_init'', bm_warmup = Some ''crypto_sm3_warmup'',
     bm_measure = ''crypto_sm3_measure'', bm_cleanup = ''crypto_sm3_cleanup'',
     bm_num_threads = 1\<rparr>"

definition bench_crypto_sm4 :: benchmark_t where
  "bench_crypto_sm4 = \<lparr>
     bm_name = ''crypto-sm4'', bm_category = ''C3'',
     bm_description = ''SM4 CTR encrypt (GM/T 0002, China cipher standard)'',
     bm_tier = 2, bm_primary_metric_name = ''bytes/sec'',
     bm_higher_is_better = True,
     bm_min_iterations = SSB_MIN_ITERATIONS, bm_max_iterations = SSB_MAX_ITERATIONS,
     bm_convergence_target = SSB_CONVERGENCE_TARGET,
     bm_min_runtime_sec = SSB_MIN_RUNTIME_SEC, bm_max_runtime_sec = SSB_MAX_RUNTIME_SEC,
     bm_cooldown_required = True,
     bm_init = ''crypto_sm4_init'', bm_warmup = Some ''crypto_sm4_warmup'',
     bm_measure = ''crypto_sm4_measure'', bm_cleanup = ''crypto_sm4_cleanup'',
     bm_num_threads = 1\<rparr>"

definition bench_crypto_aes_gcm_decrypt :: benchmark_t where
  "bench_crypto_aes_gcm_decrypt = \<lparr>
     bm_name = ''crypto-aes-gcm-decrypt'', bm_category = ''C3'',
     bm_description = ''AES-256-GCM decrypt + tag verify (cf. encrypt. AES-NI+CLMUL x86, ARMv8 CE ARM)'',
     bm_tier = 2, bm_primary_metric_name = ''bytes/sec'',
     bm_higher_is_better = True,
     bm_min_iterations = SSB_MIN_ITERATIONS, bm_max_iterations = SSB_MAX_ITERATIONS,
     bm_convergence_target = SSB_CONVERGENCE_TARGET,
     bm_min_runtime_sec = SSB_MIN_RUNTIME_SEC, bm_max_runtime_sec = SSB_MAX_RUNTIME_SEC,
     bm_cooldown_required = True,
     bm_init = ''crypto_aes_gcm_decrypt_init'', bm_warmup = Some ''crypto_aes_gcm_decrypt_warmup'',
     bm_measure = ''crypto_aes_gcm_decrypt_measure'', bm_cleanup = ''crypto_aes_gcm_decrypt_cleanup'',
     bm_num_threads = 1\<rparr>"

definition bench_crypto_rsa_verify :: benchmark_t where
  "bench_crypto_rsa_verify = \<lparr>
     bm_name = ''crypto-rsa-verify'', bm_category = ''C3'',
     bm_description = ''RSA-2048 SHA-256 verify (TLS cert chain, ~100x faster than sign)'',
     bm_tier = 2, bm_primary_metric_name = ''verifications/sec'',
     bm_higher_is_better = True,
     bm_min_iterations = SSB_MIN_ITERATIONS, bm_max_iterations = SSB_MAX_ITERATIONS,
     bm_convergence_target = SSB_CONVERGENCE_TARGET,
     bm_min_runtime_sec = SSB_MIN_RUNTIME_SEC, bm_max_runtime_sec = SSB_MAX_RUNTIME_SEC,
     bm_cooldown_required = True,
     bm_init = ''crypto_rsa_verify_init'', bm_warmup = Some ''crypto_rsa_verify_warmup'',
     bm_measure = ''crypto_rsa_verify_measure'', bm_cleanup = ''crypto_rsa_verify_cleanup'',
     bm_num_threads = 1\<rparr>"

definition bench_crypto_ecdsa_p256_verify :: benchmark_t where
  "bench_crypto_ecdsa_p256_verify = \<lparr>
     bm_name = ''crypto-ecdsa-p256-verify'', bm_category = ''C3'',
     bm_description = ''ECDSA P-256 SHA-256 verify (TLS cert chain, nistz256 optimized)'',
     bm_tier = 2, bm_primary_metric_name = ''verifications/sec'',
     bm_higher_is_better = True,
     bm_min_iterations = SSB_MIN_ITERATIONS, bm_max_iterations = SSB_MAX_ITERATIONS,
     bm_convergence_target = SSB_CONVERGENCE_TARGET,
     bm_min_runtime_sec = SSB_MIN_RUNTIME_SEC, bm_max_runtime_sec = SSB_MAX_RUNTIME_SEC,
     bm_cooldown_required = True,
     bm_init = ''crypto_ecdsa_p256_verify_init'', bm_warmup = Some ''crypto_ecdsa_p256_verify_warmup'',
     bm_measure = ''crypto_ecdsa_p256_verify_measure'', bm_cleanup = ''crypto_ecdsa_p256_verify_cleanup'',
     bm_num_threads = 1\<rparr>"

definition bench_crypto_hash_l2 :: benchmark_t where
  "bench_crypto_hash_l2 = \<lparr>
     bm_name = ''crypto-hash-l2'', bm_category = ''C3'',
     bm_description = ''SHA-256 1MB L2-resident hash (pure crypto engine, cf. 256MB crypto-hash DRAM-bound)'',
     bm_tier = 2, bm_primary_metric_name = ''bytes/sec'',
     bm_higher_is_better = True,
     bm_min_iterations = SSB_MIN_ITERATIONS, bm_max_iterations = SSB_MAX_ITERATIONS,
     bm_convergence_target = SSB_CONVERGENCE_TARGET,
     bm_min_runtime_sec = SSB_MIN_RUNTIME_SEC, bm_max_runtime_sec = SSB_MAX_RUNTIME_SEC,
     bm_cooldown_required = True,
     bm_init = ''crypto_hash_l2_init'', bm_warmup = Some ''crypto_hash_l2_warmup'',
     bm_measure = ''crypto_hash_l2_measure'', bm_cleanup = ''crypto_hash_l2_cleanup'',
     bm_num_threads = 1\<rparr>"

definition crypto_benchmarks :: "benchmark_t list" where
  "crypto_benchmarks = [
     bench_crypto_zstd,
     bench_crypto_aes,
     bench_crypto_hash,
     bench_crypto_rsa,
     bench_crypto_ed25519_sign,
     bench_crypto_x25519_ecdh,
     bench_crypto_chacha20_poly1305,
     bench_crypto_ecdsa_p256_sign,
     bench_crypto_sm2_sign,
     bench_crypto_sm3,
     bench_crypto_sm4,
     bench_crypto_aes_gcm_decrypt,
     bench_crypto_rsa_verify,
     bench_crypto_ecdsa_p256_verify,
     bench_crypto_hash_l2]"

subsection \<open>src/src/benchmarks/memory\<close>

definition bench_mem_latency :: benchmark_t where
  "bench_mem_latency = \<lparr>
     bm_name = ''mem-latency'', bm_category = ''C4'',
     bm_description = ''Multi-level pointer chase latency (8KB-256MB, runtime CLS stride)'',
     bm_tier = 1, bm_primary_metric_name = ''ns/chase'',
     bm_higher_is_better = False,
     bm_min_iterations = SSB_MIN_ITERATIONS, bm_max_iterations = SSB_MAX_ITERATIONS,
     bm_convergence_target = SSB_CONVERGENCE_TARGET,
     bm_min_runtime_sec = SSB_MIN_RUNTIME_SEC, bm_max_runtime_sec = SSB_MAX_RUNTIME_SEC,
     bm_cooldown_required = True,
     bm_init = ''mem_latency_init'', bm_warmup = Some ''mem_latency_warmup'',
     bm_measure = ''mem_latency_measure'', bm_cleanup = ''mem_latency_cleanup'',
     bm_num_threads = 1\<rparr>"

definition bench_mem_bandwidth :: benchmark_t where
  "bench_mem_bandwidth = \<lparr>
     bm_name = ''mem-bandwidth'', bm_category = ''C4'',
     bm_description = ''Sequential memory read bandwidth 256MB'',
     bm_tier = 1, bm_primary_metric_name = ''bytes/sec'',
     bm_higher_is_better = True,
     bm_min_iterations = SSB_MIN_ITERATIONS, bm_max_iterations = SSB_MAX_ITERATIONS,
     bm_convergence_target = SSB_CONVERGENCE_TARGET,
     bm_min_runtime_sec = SSB_MIN_RUNTIME_SEC, bm_max_runtime_sec = SSB_MAX_RUNTIME_SEC,
     bm_cooldown_required = True,
     bm_init = ''mem_bandwidth_init'', bm_warmup = Some ''mem_bandwidth_warmup'',
     bm_measure = ''mem_bandwidth_measure'', bm_cleanup = ''mem_bandwidth_cleanup'',
     bm_num_threads = 1\<rparr>"

definition bench_mem_stream :: benchmark_t where
  "bench_mem_stream = \<lparr>
     bm_name = ''mem-stream'', bm_category = ''C4'',
     bm_description = ''STREAM Triad (auto-scaled to NCPU threads)'',
     bm_tier = 1, bm_primary_metric_name = ''bytes/sec'',
     bm_higher_is_better = True,
     bm_min_iterations = SSB_MIN_ITERATIONS, bm_max_iterations = SSB_MAX_ITERATIONS,
     bm_convergence_target = SSB_CONVERGENCE_TARGET,
     bm_min_runtime_sec = SSB_MIN_RUNTIME_SEC, bm_max_runtime_sec = SSB_MAX_RUNTIME_SEC,
     bm_cooldown_required = True,
     bm_init = ''mem_stream_init'', bm_warmup = Some ''mem_stream_warmup'',
     bm_measure = ''mem_stream_measure'', bm_cleanup = ''mem_stream_cleanup'',
     bm_num_threads = (-1)\<rparr>"

definition bench_mem_random :: benchmark_t where
  "bench_mem_random = \<lparr>
     bm_name = ''mem-random'', bm_category = ''C4'',
     bm_description = ''Random access latency 32MB (L3 on modern servers, not DRAM)'',
     bm_tier = 1, bm_primary_metric_name = ''ns/access'',
     bm_higher_is_better = False,
     bm_min_iterations = SSB_MIN_ITERATIONS, bm_max_iterations = SSB_MAX_ITERATIONS,
     bm_convergence_target = SSB_CONVERGENCE_TARGET,
     bm_min_runtime_sec = SSB_MIN_RUNTIME_SEC, bm_max_runtime_sec = SSB_MAX_RUNTIME_SEC,
     bm_cooldown_required = True,
     bm_init = ''mem_random_init'', bm_warmup = Some ''mem_random_warmup'',
     bm_measure = ''mem_random_measure'', bm_cleanup = ''mem_random_cleanup'',
     bm_num_threads = 1\<rparr>"

definition bench_numa_latency :: benchmark_t where
  "bench_numa_latency = \<lparr>
     bm_name = ''numa-latency'', bm_category = ''C5'',
     bm_description = ''NUMA node 0 local memory latency (runtime CLS stride)'',
     bm_tier = 1, bm_primary_metric_name = ''ns/chase'',
     bm_higher_is_better = False,
     bm_min_iterations = SSB_MIN_ITERATIONS, bm_max_iterations = SSB_MAX_ITERATIONS,
     bm_convergence_target = SSB_CONVERGENCE_TARGET,
     bm_min_runtime_sec = SSB_MIN_RUNTIME_SEC, bm_max_runtime_sec = SSB_MAX_RUNTIME_SEC,
     bm_cooldown_required = True,
     bm_init = ''numa_latency_init'', bm_warmup = Some ''numa_latency_warmup'',
     bm_measure = ''numa_latency_measure'', bm_cleanup = ''numa_latency_cleanup'',
     bm_num_threads = 1\<rparr>"

definition bench_numa_bandwidth :: benchmark_t where
  "bench_numa_bandwidth = \<lparr>
     bm_name = ''numa-bandwidth'', bm_category = ''C5'',
     bm_description = ''NUMA remote node read bandwidth (per-thread node pinning)'',
     bm_tier = 1, bm_primary_metric_name = ''bytes/sec'',
     bm_higher_is_better = True,
     bm_min_iterations = SSB_MIN_ITERATIONS, bm_max_iterations = SSB_MAX_ITERATIONS,
     bm_convergence_target = SSB_CONVERGENCE_TARGET,
     bm_min_runtime_sec = SSB_MIN_RUNTIME_SEC, bm_max_runtime_sec = SSB_MAX_RUNTIME_SEC,
     bm_cooldown_required = True,
     bm_init = ''numa_bandwidth_init'', bm_warmup = Some ''numa_bandwidth_warmup'',
     bm_measure = ''numa_bandwidth_measure'', bm_cleanup = ''numa_bandwidth_cleanup'',
     bm_num_threads = (-1)\<rparr>"

definition bench_numa_false_sharing :: benchmark_t where
  "bench_numa_false_sharing = \<lparr>
     bm_name = ''numa-false-sharing'', bm_category = ''C5'',
     bm_description = ''False sharing ratio: same vs different cache line atomic throughput (runtime CLS)'',
     bm_tier = 1, bm_primary_metric_name = ''ratio'',
     bm_higher_is_better = True,
     bm_min_iterations = SSB_MIN_ITERATIONS, bm_max_iterations = SSB_MAX_ITERATIONS,
     bm_convergence_target = SSB_CONVERGENCE_TARGET,
     bm_min_runtime_sec = SSB_MIN_RUNTIME_SEC, bm_max_runtime_sec = SSB_MAX_RUNTIME_SEC,
     bm_cooldown_required = True,
     bm_init = ''numa_false_sharing_init'', bm_warmup = Some ''numa_false_sharing_warmup'',
     bm_measure = ''numa_false_sharing_measure'', bm_cleanup = ''numa_false_sharing_cleanup'',
     bm_num_threads = (-1)\<rparr>"

definition bench_numa_migration :: benchmark_t where
  "bench_numa_migration = \<lparr>
     bm_name = ''numa-migration'', bm_category = ''C5'',
     bm_description = ''NUMA page migration throughput (runtime page size)'',
     bm_tier = 1, bm_primary_metric_name = ''migrations/sec'',
     bm_higher_is_better = True,
     bm_min_iterations = SSB_MIN_ITERATIONS, bm_max_iterations = SSB_MAX_ITERATIONS,
     bm_convergence_target = SSB_CONVERGENCE_TARGET,
     bm_min_runtime_sec = SSB_MIN_RUNTIME_SEC, bm_max_runtime_sec = SSB_MAX_RUNTIME_SEC,
     bm_cooldown_required = True,
     bm_init = ''numa_migration_init'', bm_warmup = Some ''numa_migration_warmup'',
     bm_measure = ''numa_migration_measure'', bm_cleanup = ''numa_migration_cleanup'',
     bm_num_threads = 1\<rparr>"

definition memory_benchmarks :: "benchmark_t list" where
  "memory_benchmarks = [
     bench_mem_latency,
     bench_mem_bandwidth,
     bench_mem_stream,
     bench_mem_random,
     bench_numa_latency,
     bench_numa_bandwidth,
     bench_numa_false_sharing,
     bench_numa_migration]"

subsection \<open>src/src/benchmarks/os\<close>

definition bench_proc_fork_exec :: benchmark_t where
  "bench_proc_fork_exec = \<lparr>
     bm_name = ''proc-fork-exec'', bm_category = ''C6'',
     bm_description = ''fork+exec+wait loop (UnixBench Process Creation exact equivalent)'',
     bm_tier = 1, bm_primary_metric_name = ''us/call'',
     bm_higher_is_better = False,
     bm_min_iterations = SSB_MIN_ITERATIONS, bm_max_iterations = SSB_MAX_ITERATIONS,
     bm_convergence_target = SSB_CONVERGENCE_TARGET,
     bm_min_runtime_sec = SSB_MIN_RUNTIME_SEC, bm_max_runtime_sec = SSB_MAX_RUNTIME_SEC,
     bm_cooldown_required = False,
     bm_init = ''proc_fork_exec_init'', bm_warmup = Some ''proc_fork_exec_warmup'',
     bm_measure = ''proc_fork_exec_measure'', bm_cleanup = ''proc_fork_exec_cleanup'',
     bm_num_threads = 1\<rparr>"

definition bench_proc_pthread :: benchmark_t where
  "bench_proc_pthread = \<lparr>
     bm_name = ''proc-pthread'', bm_category = ''C6'',
     bm_description = ''pthread create/join latency (sequential, includes stack mmap/munmap)'',
     bm_tier = 1, bm_primary_metric_name = ''us/thread'',
     bm_higher_is_better = False,
     bm_min_iterations = SSB_MIN_ITERATIONS, bm_max_iterations = SSB_MAX_ITERATIONS,
     bm_convergence_target = SSB_CONVERGENCE_TARGET,
     bm_min_runtime_sec = SSB_MIN_RUNTIME_SEC, bm_max_runtime_sec = SSB_MAX_RUNTIME_SEC,
     bm_cooldown_required = False,
     bm_init = ''proc_pthread_init'', bm_warmup = Some ''proc_pthread_warmup'',
     bm_measure = ''proc_pthread_measure'', bm_cleanup = ''proc_pthread_cleanup'',
     bm_num_threads = 1\<rparr>"

definition bench_proc_mmap :: benchmark_t where
  "bench_proc_mmap = \<lparr>
     bm_name = ''proc-mmap'', bm_category = ''C6'',
     bm_description = ''mmap/munmap anonymous page latency (MAP_POPULATE, VMA create/destroy only)'',
     bm_tier = 1, bm_primary_metric_name = ''us/op'',
     bm_higher_is_better = False,
     bm_min_iterations = SSB_MIN_ITERATIONS, bm_max_iterations = SSB_MAX_ITERATIONS,
     bm_convergence_target = SSB_CONVERGENCE_TARGET,
     bm_min_runtime_sec = SSB_MIN_RUNTIME_SEC, bm_max_runtime_sec = SSB_MAX_RUNTIME_SEC,
     bm_cooldown_required = False,
     bm_init = ''proc_mmap_init'', bm_warmup = Some ''proc_mmap_warmup'',
     bm_measure = ''proc_mmap_measure'', bm_cleanup = ''proc_mmap_cleanup'',
     bm_num_threads = 1\<rparr>"

definition bench_cswitch_pipe :: benchmark_t where
  "bench_cswitch_pipe = \<lparr>
     bm_name = ''cswitch-pipe-ping'', bm_category = ''C8'',
     bm_description = ''Pipe-based context switching (UnixBench Pipe Ctx Switch exact equivalent)'',
     bm_tier = 1, bm_primary_metric_name = ''switches/sec'',
     bm_higher_is_better = True,
     bm_min_iterations = SSB_MIN_ITERATIONS, bm_max_iterations = SSB_MAX_ITERATIONS,
     bm_convergence_target = SSB_CONVERGENCE_TARGET,
     bm_min_runtime_sec = SSB_MIN_RUNTIME_SEC, bm_max_runtime_sec = SSB_MAX_RUNTIME_SEC,
     bm_cooldown_required = False,
     bm_init = ''cswitch_pipe_init'', bm_warmup = Some ''cswitch_pipe_warmup'',
     bm_measure = ''cswitch_pipe_measure'', bm_cleanup = ''cswitch_pipe_cleanup'',
     bm_num_threads = 2\<rparr>"

definition bench_cswitch_futex :: benchmark_t where
  "bench_cswitch_futex = \<lparr>
     bm_name = ''cswitch-futex'', bm_category = ''C8'',
     bm_description = ''Futex-based context switching (futex wait/wake ping-pong)'',
     bm_tier = 1, bm_primary_metric_name = ''switches/sec'',
     bm_higher_is_better = True,
     bm_min_iterations = SSB_MIN_ITERATIONS, bm_max_iterations = SSB_MAX_ITERATIONS,
     bm_convergence_target = SSB_CONVERGENCE_TARGET,
     bm_min_runtime_sec = SSB_MIN_RUNTIME_SEC, bm_max_runtime_sec = SSB_MAX_RUNTIME_SEC,
     bm_cooldown_required = False,
     bm_init = ''cswitch_futex_init'', bm_warmup = Some ''cswitch_futex_warmup'',
     bm_measure = ''cswitch_futex_measure'', bm_cleanup = ''cswitch_futex_cleanup'',
     bm_num_threads = 2\<rparr>"

definition bench_cswitch_smt :: benchmark_t where
  "bench_cswitch_smt = \<lparr>
     bm_name = ''cswitch-smt'', bm_category = ''C8'',
     bm_description = ''SMT cache line bouncing (2 threads, shared cache line, relaxed atomics)'',
     bm_tier = 1, bm_primary_metric_name = ''ops/sec'',
     bm_higher_is_better = True,
     bm_min_iterations = SSB_MIN_ITERATIONS, bm_max_iterations = SSB_MAX_ITERATIONS,
     bm_convergence_target = SSB_CONVERGENCE_TARGET,
     bm_min_runtime_sec = SSB_MIN_RUNTIME_SEC, bm_max_runtime_sec = SSB_MAX_RUNTIME_SEC,
     bm_cooldown_required = False,
     bm_init = ''cswitch_smt_init'', bm_warmup = Some ''cswitch_smt_warmup'',
     bm_measure = ''cswitch_smt_measure'', bm_cleanup = ''cswitch_smt_cleanup'',
     bm_num_threads = 2\<rparr>"

definition bench_script_shell :: benchmark_t where
  "bench_script_shell = \<lparr>
     bm_name = ''script-shell'', bm_category = ''C9'',
     bm_description = ''Shell script throughput (fork+exec /bin/sh + sed + arithmetic loop)'',
     bm_tier = 1, bm_primary_metric_name = ''scripts/sec'',
     bm_higher_is_better = True,
     bm_min_iterations = SSB_MIN_ITERATIONS, bm_max_iterations = SSB_MAX_ITERATIONS,
     bm_convergence_target = SSB_CONVERGENCE_TARGET,
     bm_min_runtime_sec = SSB_MIN_RUNTIME_SEC, bm_max_runtime_sec = SSB_MAX_RUNTIME_SEC,
     bm_cooldown_required = False,
     bm_init = ''script_shell_init'', bm_warmup = Some ''script_shell_warmup'',
     bm_measure = ''script_shell_measure'', bm_cleanup = ''script_shell_cleanup'',
     bm_num_threads = 1\<rparr>"

definition bench_script_python :: benchmark_t where
  "bench_script_python = \<lparr>
     bm_name = ''script-python'', bm_category = ''C9'',
     bm_description = ''Python script throughput (fork+exec+JSON serialize/deserialize, py3 startup)'',
     bm_tier = 1, bm_primary_metric_name = ''scripts/sec'',
     bm_higher_is_better = True,
     bm_min_iterations = SSB_MIN_ITERATIONS, bm_max_iterations = SSB_MAX_ITERATIONS,
     bm_convergence_target = SSB_CONVERGENCE_TARGET,
     bm_min_runtime_sec = SSB_MIN_RUNTIME_SEC, bm_max_runtime_sec = SSB_MAX_RUNTIME_SEC,
     bm_cooldown_required = False,
     bm_init = ''script_python_init'', bm_warmup = Some ''script_python_warmup'',
     bm_measure = ''script_python_measure'', bm_cleanup = ''script_python_cleanup'',
     bm_num_threads = 1\<rparr>"

definition bench_syscall_getpid :: benchmark_t where
  "bench_syscall_getpid = \<lparr>
     bm_name = ''syscall-getpid'', bm_category = ''C12'',
     bm_description = ''getpid() system call overhead (UnixBench exact equivalent, ns/call)'',
     bm_tier = 1, bm_primary_metric_name = ''ns/call'',
     bm_higher_is_better = False,
     bm_min_iterations = SSB_MIN_ITERATIONS, bm_max_iterations = SSB_MAX_ITERATIONS,
     bm_convergence_target = SSB_CONVERGENCE_TARGET,
     bm_min_runtime_sec = SSB_MIN_RUNTIME_SEC, bm_max_runtime_sec = SSB_MAX_RUNTIME_SEC,
     bm_cooldown_required = False,
     bm_init = ''syscall_getpid_init'', bm_warmup = Some ''syscall_getpid_warmup'',
     bm_measure = ''syscall_getpid_measure'', bm_cleanup = ''syscall_getpid_cleanup'',
     bm_num_threads = 1\<rparr>"

definition bench_syscall_vdso :: benchmark_t where
  "bench_syscall_vdso = \<lparr>
     bm_name = ''syscall-vdso'', bm_category = ''C12'',
     bm_description = ''vDSO clock_gettime (userspace fast path, ns/call '' @ [CHR 0xE2, CHR 0x80, CHR 0x94] @ '' matches syscall-getpid units)'',
     bm_tier = 1, bm_primary_metric_name = ''ns/call'',
     bm_higher_is_better = False,
     bm_min_iterations = SSB_MIN_ITERATIONS, bm_max_iterations = SSB_MAX_ITERATIONS,
     bm_convergence_target = SSB_CONVERGENCE_TARGET,
     bm_min_runtime_sec = SSB_MIN_RUNTIME_SEC, bm_max_runtime_sec = SSB_MAX_RUNTIME_SEC,
     bm_cooldown_required = False,
     bm_init = ''syscall_vdso_init'', bm_warmup = Some ''syscall_vdso_warmup'',
     bm_measure = ''syscall_vdso_measure'', bm_cleanup = ''syscall_vdso_cleanup'',
     bm_num_threads = 1\<rparr>"

definition bench_syscall_uring :: benchmark_t where
  "bench_syscall_uring = \<lparr>
     bm_name = ''syscall-raw'', bm_category = ''C12'',
     bm_description = ''Raw syscall(SYS_getpid) baseline (glibc vs vDSO comparison, arch-neutral)'',
     bm_tier = 2, bm_primary_metric_name = ''calls/sec'',
     bm_higher_is_better = True,
     bm_min_iterations = SSB_MIN_ITERATIONS, bm_max_iterations = SSB_MAX_ITERATIONS,
     bm_convergence_target = SSB_CONVERGENCE_TARGET,
     bm_min_runtime_sec = SSB_MIN_RUNTIME_SEC, bm_max_runtime_sec = SSB_MAX_RUNTIME_SEC,
     bm_cooldown_required = False,
     bm_init = ''syscall_uring_init'', bm_warmup = Some ''syscall_uring_warmup'',
     bm_measure = ''syscall_uring_measure'', bm_cleanup = ''syscall_uring_cleanup'',
     bm_num_threads = 1\<rparr>"

definition os_benchmarks :: "benchmark_t list" where
  "os_benchmarks = [
     bench_proc_fork_exec,
     bench_proc_pthread,
     bench_proc_mmap,
     bench_cswitch_pipe,
     bench_cswitch_futex,
     bench_cswitch_smt,
     bench_script_shell,
     bench_script_python,
     bench_syscall_getpid,
     bench_syscall_vdso,
     bench_syscall_uring]"

subsection \<open>src/src/benchmarks/sync\<close>

definition bench_sync_mutex :: benchmark_t where
  "bench_sync_mutex = \<lparr>
     bm_name = ''sync-mutex'', bm_category = ''C7'',
     bm_description = ''pthread_mutex lock/unlock contention (auto-scaled threads)'',
     bm_tier = 1, bm_primary_metric_name = ''ops/sec'',
     bm_higher_is_better = True,
     bm_min_iterations = SSB_MIN_ITERATIONS, bm_max_iterations = SSB_MAX_ITERATIONS,
     bm_convergence_target = SSB_CONVERGENCE_TARGET,
     bm_min_runtime_sec = SSB_MIN_RUNTIME_SEC, bm_max_runtime_sec = SSB_MAX_RUNTIME_SEC,
     bm_cooldown_required = True,
     bm_init = ''sync_mutex_init'', bm_warmup = Some ''sync_mutex_warmup'',
     bm_measure = ''sync_mutex_measure'', bm_cleanup = ''sync_mutex_cleanup'',
     bm_num_threads = (-1)\<rparr>"

definition bench_sync_spinlock :: benchmark_t where
  "bench_sync_spinlock = \<lparr>
     bm_name = ''sync-spinlock'', bm_category = ''C7'',
     bm_description = ''pthread_spinlock lock/unlock contention (auto-scaled threads)'',
     bm_tier = 1, bm_primary_metric_name = ''ops/sec'',
     bm_higher_is_better = True,
     bm_min_iterations = SSB_MIN_ITERATIONS, bm_max_iterations = SSB_MAX_ITERATIONS,
     bm_convergence_target = SSB_CONVERGENCE_TARGET,
     bm_min_runtime_sec = SSB_MIN_RUNTIME_SEC, bm_max_runtime_sec = SSB_MAX_RUNTIME_SEC,
     bm_cooldown_required = True,
     bm_init = ''sync_spinlock_init'', bm_warmup = Some ''sync_spinlock_warmup'',
     bm_measure = ''sync_spinlock_measure'', bm_cleanup = ''sync_spinlock_cleanup'',
     bm_num_threads = (-1)\<rparr>"

definition bench_sync_rwlock :: benchmark_t where
  "bench_sync_rwlock = \<lparr>
     bm_name = ''sync-rwlock'', bm_category = ''C7'',
     bm_description = ''pthread_rwlock reader/writer contention (auto-scaled threads)'',
     bm_tier = 1, bm_primary_metric_name = ''ops/sec'',
     bm_higher_is_better = True,
     bm_min_iterations = SSB_MIN_ITERATIONS, bm_max_iterations = SSB_MAX_ITERATIONS,
     bm_convergence_target = SSB_CONVERGENCE_TARGET,
     bm_min_runtime_sec = SSB_MIN_RUNTIME_SEC, bm_max_runtime_sec = SSB_MAX_RUNTIME_SEC,
     bm_cooldown_required = True,
     bm_init = ''sync_rwlock_init'', bm_warmup = Some ''sync_rwlock_warmup'',
     bm_measure = ''sync_rwlock_measure'', bm_cleanup = ''sync_rwlock_cleanup'',
     bm_num_threads = (-1)\<rparr>"

definition bench_sync_semaphore :: benchmark_t where
  "bench_sync_semaphore = \<lparr>
     bm_name = ''sync-semaphore'', bm_category = ''C7'',
     bm_description = ''sem_post/wait wakeup throughput (auto-scaled waiters)'',
     bm_tier = 1, bm_primary_metric_name = ''wakeups/sec'',
     bm_higher_is_better = True,
     bm_min_iterations = SSB_MIN_ITERATIONS, bm_max_iterations = SSB_MAX_ITERATIONS,
     bm_convergence_target = SSB_CONVERGENCE_TARGET,
     bm_min_runtime_sec = SSB_MIN_RUNTIME_SEC, bm_max_runtime_sec = SSB_MAX_RUNTIME_SEC,
     bm_cooldown_required = True,
     bm_init = ''sync_semaphore_init'', bm_warmup = Some ''sync_semaphore_warmup'',
     bm_measure = ''sync_semaphore_measure'', bm_cleanup = ''sync_semaphore_cleanup'',
     bm_num_threads = (-1)\<rparr>"

definition bench_sync_mpmc :: benchmark_t where
  "bench_sync_mpmc = \<lparr>
     bm_name = ''sync-mpmc'', bm_category = ''C7'',
     bm_description = ''Lock-free MPMC queue (C11 atomics acquire/release, auto-scaled P+C threads)'',
     bm_tier = 1, bm_primary_metric_name = ''ops/sec'',
     bm_higher_is_better = True,
     bm_min_iterations = SSB_MIN_ITERATIONS, bm_max_iterations = SSB_MAX_ITERATIONS,
     bm_convergence_target = SSB_CONVERGENCE_TARGET,
     bm_min_runtime_sec = SSB_MIN_RUNTIME_SEC, bm_max_runtime_sec = SSB_MAX_RUNTIME_SEC,
     bm_cooldown_required = True,
     bm_init = ''sync_mpmc_init'', bm_warmup = Some ''sync_mpmc_warmup'',
     bm_measure = ''sync_mpmc_measure'', bm_cleanup = ''sync_mpmc_cleanup'',
     bm_num_threads = (-1)\<rparr>"

definition sync_benchmarks :: "benchmark_t list" where
  "sync_benchmarks = [
     bench_sync_mutex,
     bench_sync_spinlock,
     bench_sync_rwlock,
     bench_sync_semaphore,
     bench_sync_mpmc]"

subsection \<open>src/src/benchmarks/io\<close>

definition bench_fs_copy :: benchmark_t where
  "bench_fs_copy = \<lparr>
     bm_name = ''fs-copy'', bm_category = ''C10'',
     bm_description = ''File copy 4096B buffer (UnixBench File Copy exact equivalent)'',
     bm_tier = 1, bm_primary_metric_name = ''bytes/sec'',
     bm_higher_is_better = True,
     bm_min_iterations = SSB_MIN_ITERATIONS, bm_max_iterations = SSB_MAX_ITERATIONS,
     bm_convergence_target = SSB_CONVERGENCE_TARGET,
     bm_min_runtime_sec = SSB_MIN_RUNTIME_SEC, bm_max_runtime_sec = SSB_MAX_RUNTIME_SEC,
     bm_cooldown_required = True,
     bm_init = ''fs_copy_init'', bm_warmup = Some ''fs_copy_warmup'',
     bm_measure = ''fs_copy_measure'', bm_cleanup = ''fs_copy_cleanup'',
     bm_num_threads = 1\<rparr>"

definition bench_fs_seq_rw :: benchmark_t where
  "bench_fs_seq_rw = \<lparr>
     bm_name = ''fs-seq-rw'', bm_category = ''C10'',
     bm_description = ''Sequential file read 128MB (Direct I/O)'',
     bm_tier = 1, bm_primary_metric_name = ''bytes/sec'',
     bm_higher_is_better = True,
     bm_min_iterations = SSB_MIN_ITERATIONS, bm_max_iterations = SSB_MAX_ITERATIONS,
     bm_convergence_target = SSB_CONVERGENCE_TARGET,
     bm_min_runtime_sec = SSB_MIN_RUNTIME_SEC, bm_max_runtime_sec = SSB_MAX_RUNTIME_SEC,
     bm_cooldown_required = True,
     bm_init = ''fs_seq_rw_init'', bm_warmup = Some ''fs_seq_rw_warmup'',
     bm_measure = ''fs_seq_rw_measure'', bm_cleanup = ''fs_seq_rw_cleanup'',
     bm_num_threads = 1\<rparr>"

definition bench_fs_rand_rw :: benchmark_t where
  "bench_fs_rand_rw = \<lparr>
     bm_name = ''fs-rand-rw'', bm_category = ''C10'',
     bm_description = ''Random 4KB read IOPS'',
     bm_tier = 1, bm_primary_metric_name = ''IOPS'',
     bm_higher_is_better = True,
     bm_min_iterations = SSB_MIN_ITERATIONS, bm_max_iterations = SSB_MAX_ITERATIONS,
     bm_convergence_target = SSB_CONVERGENCE_TARGET,
     bm_min_runtime_sec = SSB_MIN_RUNTIME_SEC, bm_max_runtime_sec = SSB_MAX_RUNTIME_SEC,
     bm_cooldown_required = True,
     bm_init = ''fs_rand_rw_init'', bm_warmup = Some ''fs_rand_rw_warmup'',
     bm_measure = ''fs_rand_rw_measure'', bm_cleanup = ''fs_rand_rw_cleanup'',
     bm_num_threads = 1\<rparr>"

definition bench_fs_fsync :: benchmark_t where
  "bench_fs_fsync = \<lparr>
     bm_name = ''fs-fsync'', bm_category = ''C10'',
     bm_description = ''fdatasync latency (128KB write + fdatasync, no metadata flush)'',
     bm_tier = 1, bm_primary_metric_name = ''us/fsync'',
     bm_higher_is_better = False,
     bm_min_iterations = SSB_MIN_ITERATIONS, bm_max_iterations = SSB_MAX_ITERATIONS,
     bm_convergence_target = SSB_CONVERGENCE_TARGET,
     bm_min_runtime_sec = SSB_MIN_RUNTIME_SEC, bm_max_runtime_sec = SSB_MAX_RUNTIME_SEC,
     bm_cooldown_required = True,
     bm_init = ''fs_fsync_init'', bm_warmup = Some ''fs_fsync_warmup'',
     bm_measure = ''fs_fsync_measure'', bm_cleanup = ''fs_fsync_cleanup'',
     bm_num_threads = 1\<rparr>"

definition bench_fs_meta :: benchmark_t where
  "bench_fs_meta = \<lparr>
     bm_name = ''fs-meta'', bm_category = ''C10'',
     bm_description = ''Filesystem metadata stat() throughput (50K files)'',
     bm_tier = 1, bm_primary_metric_name = ''stats/sec'',
     bm_higher_is_better = True,
     bm_min_iterations = SSB_MIN_ITERATIONS, bm_max_iterations = SSB_MAX_ITERATIONS,
     bm_convergence_target = SSB_CONVERGENCE_TARGET,
     bm_min_runtime_sec = SSB_MIN_RUNTIME_SEC, bm_max_runtime_sec = SSB_MAX_RUNTIME_SEC,
     bm_cooldown_required = True,
     bm_init = ''fs_meta_init'', bm_warmup = Some ''fs_meta_warmup'',
     bm_measure = ''fs_meta_measure'', bm_cleanup = ''fs_meta_cleanup'',
     bm_num_threads = 1\<rparr>"

definition bench_fs_uring :: benchmark_t where
  "bench_fs_uring = \<lparr>
     bm_name = ''fs-uring'', bm_category = ''C10'',
     bm_description = ''Random 4KB read via pread() (io_uring placeholder, sync fallback only)'',
     bm_tier = 2, bm_primary_metric_name = ''IOPS'',
     bm_higher_is_better = True,
     bm_min_iterations = SSB_MIN_ITERATIONS, bm_max_iterations = SSB_MAX_ITERATIONS,
     bm_convergence_target = SSB_CONVERGENCE_TARGET,
     bm_min_runtime_sec = SSB_MIN_RUNTIME_SEC, bm_max_runtime_sec = SSB_MAX_RUNTIME_SEC,
     bm_cooldown_required = True,
     bm_init = ''fs_uring_init'', bm_warmup = Some ''fs_uring_warmup'',
     bm_measure = ''fs_uring_measure'', bm_cleanup = ''fs_uring_cleanup'',
     bm_num_threads = 1\<rparr>"

definition bench_ipc_pipe :: benchmark_t where
  "bench_ipc_pipe = \<lparr>
     bm_name = ''ipc-pipe'', bm_category = ''C11'',
     bm_description = ''Pipe throughput 512B messages (two-process pipe, UnixBench-style)'',
     bm_tier = 1, bm_primary_metric_name = ''bytes/sec'',
     bm_higher_is_better = True,
     bm_min_iterations = SSB_MIN_ITERATIONS, bm_max_iterations = SSB_MAX_ITERATIONS,
     bm_convergence_target = SSB_CONVERGENCE_TARGET,
     bm_min_runtime_sec = SSB_MIN_RUNTIME_SEC, bm_max_runtime_sec = SSB_MAX_RUNTIME_SEC,
     bm_cooldown_required = False,
     bm_init = ''ipc_pipe_init'', bm_warmup = Some ''ipc_pipe_warmup'',
     bm_measure = ''ipc_pipe_measure'', bm_cleanup = ''ipc_pipe_cleanup'',
     bm_num_threads = 1\<rparr>"

definition bench_ipc_unix :: benchmark_t where
  "bench_ipc_unix = \<lparr>
     bm_name = ''ipc-unix'', bm_category = ''C11'',
     bm_description = ''AF_UNIX socketpair stream throughput'',
     bm_tier = 1, bm_primary_metric_name = ''bytes/sec'',
     bm_higher_is_better = True,
     bm_min_iterations = SSB_MIN_ITERATIONS, bm_max_iterations = SSB_MAX_ITERATIONS,
     bm_convergence_target = SSB_CONVERGENCE_TARGET,
     bm_min_runtime_sec = SSB_MIN_RUNTIME_SEC, bm_max_runtime_sec = SSB_MAX_RUNTIME_SEC,
     bm_cooldown_required = False,
     bm_init = ''ipc_unix_init'', bm_warmup = Some ''ipc_unix_warmup'',
     bm_measure = ''ipc_unix_measure'', bm_cleanup = ''ipc_unix_cleanup'',
     bm_num_threads = 1\<rparr>"

definition bench_ipc_eventfd :: benchmark_t where
  "bench_ipc_eventfd = \<lparr>
     bm_name = ''ipc-eventfd'', bm_category = ''C12'',
     bm_description = ''eventfd write/read roundtrip (syscall-pair microbenchmark, single-process)'',
     bm_tier = 1, bm_primary_metric_name = ''roundtrips/sec'',
     bm_higher_is_better = True,
     bm_min_iterations = SSB_MIN_ITERATIONS, bm_max_iterations = SSB_MAX_ITERATIONS,
     bm_convergence_target = SSB_CONVERGENCE_TARGET,
     bm_min_runtime_sec = SSB_MIN_RUNTIME_SEC, bm_max_runtime_sec = SSB_MAX_RUNTIME_SEC,
     bm_cooldown_required = False,
     bm_init = ''ipc_eventfd_init'', bm_warmup = Some ''ipc_eventfd_warmup'',
     bm_measure = ''ipc_eventfd_measure'', bm_cleanup = ''ipc_eventfd_cleanup'',
     bm_num_threads = 1\<rparr>"

definition bench_ipc_signal :: benchmark_t where
  "bench_ipc_signal = \<lparr>
     bm_name = ''ipc-signal'', bm_category = ''C11'',
     bm_description = ''kill() signal send throughput (SIGUSR1, syscall-cost dominant, standard signals coalesce)'',
     bm_tier = 1, bm_primary_metric_name = ''signals/sec'',
     bm_higher_is_better = True,
     bm_min_iterations = SSB_MIN_ITERATIONS, bm_max_iterations = SSB_MAX_ITERATIONS,
     bm_convergence_target = SSB_CONVERGENCE_TARGET,
     bm_min_runtime_sec = SSB_MIN_RUNTIME_SEC, bm_max_runtime_sec = SSB_MAX_RUNTIME_SEC,
     bm_cooldown_required = False,
     bm_init = ''ipc_signal_init'', bm_warmup = Some ''ipc_signal_warmup'',
     bm_measure = ''ipc_signal_measure'', bm_cleanup = ''ipc_signal_cleanup'',
     bm_num_threads = 1\<rparr>"

definition io_benchmarks :: "benchmark_t list" where
  "io_benchmarks = [
     bench_fs_copy,
     bench_fs_seq_rw,
     bench_fs_rand_rw,
     bench_fs_fsync,
     bench_fs_meta,
     bench_fs_uring,
     bench_ipc_pipe,
     bench_ipc_unix,
     bench_ipc_eventfd,
     bench_ipc_signal]"

subsection \<open>src/src/benchmarks/net\<close>

definition bench_net_tcp :: benchmark_t where
  "bench_net_tcp = \<lparr>
     bm_name = ''net-tcp'', bm_category = ''C13'',
     bm_description = ''TCP loopback stream 64KB msg (NODELAY on both, 4MB buffers)'',
     bm_tier = 1, bm_primary_metric_name = ''bytes/sec'',
     bm_higher_is_better = True,
     bm_min_iterations = SSB_MIN_ITERATIONS, bm_max_iterations = SSB_MAX_ITERATIONS,
     bm_convergence_target = SSB_CONVERGENCE_TARGET,
     bm_min_runtime_sec = SSB_MIN_RUNTIME_SEC, bm_max_runtime_sec = SSB_MAX_RUNTIME_SEC,
     bm_cooldown_required = True,
     bm_init = ''net_tcp_init'', bm_warmup = Some ''nt_warmup'',
     bm_measure = ''nt_measure'', bm_cleanup = ''nt_cleanup'',
     bm_num_threads = 2\<rparr>"

definition bench_net_udp :: benchmark_t where
  "bench_net_udp = \<lparr>
     bm_name = ''net-udp'', bm_category = ''C13'',
     bm_description = ''UDP loopback 1472B pkt (16MB rcvbuf, 100ms timeout, no silent loss)'',
     bm_tier = 1, bm_primary_metric_name = ''packets/sec'',
     bm_higher_is_better = True,
     bm_min_iterations = SSB_MIN_ITERATIONS, bm_max_iterations = SSB_MAX_ITERATIONS,
     bm_convergence_target = SSB_CONVERGENCE_TARGET,
     bm_min_runtime_sec = SSB_MIN_RUNTIME_SEC, bm_max_runtime_sec = SSB_MAX_RUNTIME_SEC,
     bm_cooldown_required = True,
     bm_init = ''net_udp_init'', bm_warmup = Some ''nu_warmup'',
     bm_measure = ''nu_measure'', bm_cleanup = ''nu_cleanup'',
     bm_num_threads = 2\<rparr>"

definition bench_net_conn_rate :: benchmark_t where
  "bench_net_conn_rate = \<lparr>
     bm_name = ''net-conn-rate'', bm_category = ''C13'',
     bm_description = ''TCP connection rate connect/accept/close (backlog=4096, actual count)'',
     bm_tier = 1, bm_primary_metric_name = ''conns/sec'',
     bm_higher_is_better = True,
     bm_min_iterations = SSB_MIN_ITERATIONS, bm_max_iterations = SSB_MAX_ITERATIONS,
     bm_convergence_target = SSB_CONVERGENCE_TARGET,
     bm_min_runtime_sec = SSB_MIN_RUNTIME_SEC, bm_max_runtime_sec = SSB_MAX_RUNTIME_SEC,
     bm_cooldown_required = True,
     bm_init = ''net_conn_rate_init'', bm_warmup = Some ''nc_warmup'',
     bm_measure = ''nc_measure'', bm_cleanup = ''nc_cleanup'',
     bm_num_threads = 2\<rparr>"

definition bench_net_latency :: benchmark_t where
  "bench_net_latency = \<lparr>
     bm_name = ''net-latency'', bm_category = ''C13'',
     bm_description = ''TCP RTT 64B loopback (NODELAY+QUICKACK on client+server, no Nagle/delACK)'',
     bm_tier = 1, bm_primary_metric_name = ''us/RR'',
     bm_higher_is_better = False,
     bm_min_iterations = SSB_MIN_ITERATIONS, bm_max_iterations = SSB_MAX_ITERATIONS,
     bm_convergence_target = SSB_CONVERGENCE_TARGET,
     bm_min_runtime_sec = SSB_MIN_RUNTIME_SEC, bm_max_runtime_sec = SSB_MAX_RUNTIME_SEC,
     bm_cooldown_required = True,
     bm_init = ''net_latency_init'', bm_warmup = Some ''nl_warmup'',
     bm_measure = ''nl_measure'', bm_cleanup = ''nl_cleanup'',
     bm_num_threads = 2\<rparr>"

definition bench_net_zero_copy :: benchmark_t where
  "bench_net_zero_copy = \<lparr>
     bm_name = ''net-zero-copy'', bm_category = ''C13'',
     bm_description = ''sendfile() file->TCP socket (Linux splice path, single open, real socket sink)'',
     bm_tier = 1, bm_primary_metric_name = ''bytes/sec'',
     bm_higher_is_better = True,
     bm_min_iterations = SSB_MIN_ITERATIONS, bm_max_iterations = SSB_MAX_ITERATIONS,
     bm_convergence_target = SSB_CONVERGENCE_TARGET,
     bm_min_runtime_sec = SSB_MIN_RUNTIME_SEC, bm_max_runtime_sec = SSB_MAX_RUNTIME_SEC,
     bm_cooldown_required = True,
     bm_init = ''zc_init'', bm_warmup = Some ''zc_warmup'',
     bm_measure = ''zc_measure'', bm_cleanup = ''zc_cleanup'',
     bm_num_threads = 2\<rparr>"

definition net_benchmarks :: "benchmark_t list" where
  "net_benchmarks = [
     bench_net_tcp,
     bench_net_udp,
     bench_net_conn_rate,
     bench_net_latency,
     bench_net_zero_copy]"

subsection \<open>src/src/benchmarks/virt\<close>

definition bench_vm_detect :: benchmark_t where
  "bench_vm_detect = \<lparr>
     bm_name = ''vm-detect'', bm_category = ''C14'',
     bm_description = ''VM detect via DMI sysfs probe (arch-neutral, VFS dentry-cache latency)'',
     bm_tier = 1, bm_primary_metric_name = ''ns/call'',
     bm_higher_is_better = False,
     bm_min_iterations = SSB_MIN_ITERATIONS, bm_max_iterations = SSB_MAX_ITERATIONS,
     bm_convergence_target = SSB_CONVERGENCE_TARGET,
     bm_min_runtime_sec = SSB_MIN_RUNTIME_SEC, bm_max_runtime_sec = SSB_MAX_RUNTIME_SEC,
     bm_cooldown_required = False,
     bm_init = ''vm_detect_init'', bm_warmup = Some ''vm_detect_warmup'',
     bm_measure = ''vm_detect_measure'', bm_cleanup = ''vm_detect_cleanup'',
     bm_num_threads = 1\<rparr>"

definition bench_vm_cpu_overhead :: benchmark_t where
  "bench_vm_cpu_overhead = \<lparr>
     bm_name = ''vm-cpu-overhead'', bm_category = ''C1'',
     bm_description = ''Sieve of Eratosthenes pure integer compute (fixed-work, arch-neutral ALU stress)'',
     bm_tier = 1, bm_primary_metric_name = ''passes/sec'',
     bm_higher_is_better = True,
     bm_min_iterations = SSB_MIN_ITERATIONS, bm_max_iterations = SSB_MAX_ITERATIONS,
     bm_convergence_target = SSB_CONVERGENCE_TARGET,
     bm_min_runtime_sec = SSB_MIN_RUNTIME_SEC, bm_max_runtime_sec = SSB_MAX_RUNTIME_SEC,
     bm_cooldown_required = True,
     bm_init = ''vm_cpu_overhead_init'', bm_warmup = Some ''vm_cpu_overhead_warmup'',
     bm_measure = ''vm_cpu_overhead_measure'', bm_cleanup = ''vm_cpu_overhead_cleanup'',
     bm_num_threads = 1\<rparr>"

definition bench_ctr_lifecycle :: benchmark_t where
  "bench_ctr_lifecycle = \<lparr>
     bm_name = ''ctr-lifecycle'', bm_category = ''C15'',
     bm_description = ''Namespace clone create/destroy (NS+UTS+NET+PID, pre-alloc stack, no cgroups)'',
     bm_tier = 1, bm_primary_metric_name = ''us/container'',
     bm_higher_is_better = False,
     bm_min_iterations = SSB_MIN_ITERATIONS, bm_max_iterations = SSB_MAX_ITERATIONS,
     bm_convergence_target = SSB_CONVERGENCE_TARGET,
     bm_min_runtime_sec = SSB_MIN_RUNTIME_SEC, bm_max_runtime_sec = SSB_MAX_RUNTIME_SEC,
     bm_cooldown_required = False,
     bm_init = ''ctr_lifecycle_init'', bm_warmup = Some ''ctr_lifecycle_warmup'',
     bm_measure = ''ctr_lifecycle_measure'', bm_cleanup = ''ctr_lifecycle_cleanup'',
     bm_num_threads = 1\<rparr>"

definition virt_benchmarks :: "benchmark_t list" where
  "virt_benchmarks = [
     bench_vm_detect,
     bench_vm_cpu_overhead,
     bench_ctr_lifecycle]"

subsection \<open>All benchmarks\<close>

definition all_benchmarks :: "benchmark_t list" where
  "all_benchmarks = compute_benchmarks @ crypto_benchmarks @ memory_benchmarks @ os_benchmarks @ sync_benchmarks @ io_benchmarks @ net_benchmarks @ virt_benchmarks"

lemmas compute_defs = compute_benchmarks_def
  bench_int_hash_def bench_int_sort_def bench_int_parse_def bench_int_regex_def
  bench_fp_gemm_def bench_fp_fft_def bench_fp_conv_def bench_fp_distance_def
  bench_fp_ray_def

lemmas crypto_defs = crypto_benchmarks_def
  bench_crypto_zstd_def bench_crypto_aes_def bench_crypto_hash_def bench_crypto_rsa_def
  bench_crypto_ed25519_sign_def bench_crypto_x25519_ecdh_def
  bench_crypto_chacha20_poly1305_def bench_crypto_ecdsa_p256_sign_def
  bench_crypto_sm2_sign_def bench_crypto_sm3_def bench_crypto_sm4_def
  bench_crypto_aes_gcm_decrypt_def bench_crypto_rsa_verify_def
  bench_crypto_ecdsa_p256_verify_def bench_crypto_hash_l2_def

lemmas memory_defs = memory_benchmarks_def
  bench_mem_latency_def bench_mem_bandwidth_def bench_mem_stream_def bench_mem_random_def
  bench_numa_latency_def bench_numa_bandwidth_def bench_numa_false_sharing_def
  bench_numa_migration_def

lemmas os_defs = os_benchmarks_def
  bench_proc_fork_exec_def bench_proc_pthread_def bench_proc_mmap_def
  bench_cswitch_pipe_def bench_cswitch_futex_def bench_cswitch_smt_def
  bench_script_shell_def bench_script_python_def bench_syscall_getpid_def
  bench_syscall_vdso_def bench_syscall_uring_def

lemmas sync_defs = sync_benchmarks_def
  bench_sync_mutex_def bench_sync_spinlock_def bench_sync_rwlock_def
  bench_sync_semaphore_def bench_sync_mpmc_def

lemmas io_defs = io_benchmarks_def
  bench_fs_copy_def bench_fs_seq_rw_def bench_fs_rand_rw_def bench_fs_fsync_def
  bench_fs_meta_def bench_fs_uring_def bench_ipc_pipe_def bench_ipc_unix_def
  bench_ipc_eventfd_def bench_ipc_signal_def

lemmas net_defs = net_benchmarks_def
  bench_net_tcp_def bench_net_udp_def bench_net_conn_rate_def bench_net_latency_def
  bench_net_zero_copy_def

lemmas virt_defs = virt_benchmarks_def
  bench_vm_detect_def bench_vm_cpu_overhead_def bench_ctr_lifecycle_def

subsection \<open>The catalog fits the harness\<close>

text \<open>The shape every descriptor has: the limits are the program's defaults, the tier is 1 or 2.\<close>

definition descriptor_ok :: "benchmark_t \<Rightarrow> bool" where
  "descriptor_ok b \<longleftrightarrow>
     bm_min_iterations b = SSB_MIN_ITERATIONS \<and> bm_max_iterations b = SSB_MAX_ITERATIONS \<and>
     bm_convergence_target b = SSB_CONVERGENCE_TARGET \<and>
     bm_min_runtime_sec b = SSB_MIN_RUNTIME_SEC \<and> bm_max_runtime_sec b = SSB_MAX_RUNTIME_SEC \<and>
     bm_tier b \<in> {1, 2} \<and> bm_num_threads b \<in> {-1, 1, 2} \<and> bm_warmup b \<noteq> None"

lemma compute_ok: "list_all descriptor_ok compute_benchmarks"
  by (simp add: compute_defs descriptor_ok_def)
lemma crypto_ok: "list_all descriptor_ok crypto_benchmarks"
  by (simp add: crypto_defs descriptor_ok_def)
lemma memory_ok: "list_all descriptor_ok memory_benchmarks"
  by (simp add: memory_defs descriptor_ok_def)
lemma os_ok: "list_all descriptor_ok os_benchmarks"
  by (simp add: os_defs descriptor_ok_def)
lemma sync_ok: "list_all descriptor_ok sync_benchmarks"
  by (simp add: sync_defs descriptor_ok_def)
lemma io_ok: "list_all descriptor_ok io_benchmarks"
  by (simp add: io_defs descriptor_ok_def)
lemma net_ok: "list_all descriptor_ok net_benchmarks"
  by (simp add: net_defs descriptor_ok_def)
lemma virt_ok: "list_all descriptor_ok virt_benchmarks"
  by (simp add: virt_defs descriptor_ok_def)

lemma all_ok: "list_all descriptor_ok all_benchmarks"
  by (simp add: all_benchmarks_def compute_ok crypto_ok memory_ok os_ok sync_ok io_ok net_ok virt_ok)

lemma length_all_benchmarks: "length all_benchmarks = 66"
  by (simp add: all_benchmarks_def compute_benchmarks_def crypto_benchmarks_def
      memory_benchmarks_def os_benchmarks_def sync_benchmarks_def io_benchmarks_def
      net_benchmarks_def virt_benchmarks_def)

lemma all_categories:
  "map bm_category all_benchmarks =
     replicate 4 ''C1'' @ replicate 5 ''C2'' @ replicate 15 ''C3'' @ replicate 4 ''C4'' @
     replicate 4 ''C5'' @ replicate 3 ''C6'' @ replicate 3 ''C8'' @ replicate 2 ''C9'' @
     replicate 3 ''C12'' @ replicate 5 ''C7'' @ replicate 6 ''C10'' @
     [''C11'', ''C11'', ''C12'', ''C11''] @ replicate 5 ''C13'' @ [''C14'', ''C1'', ''C15'']"
  by (simp add: all_benchmarks_def compute_defs crypto_defs memory_defs os_defs sync_defs
      io_defs net_defs virt_defs numeral_eq_Suc)

lemma distinct_names: "distinct (map bm_name all_benchmarks)"
  by (simp add: all_benchmarks_def compute_defs crypto_defs memory_defs os_defs sync_defs
      io_defs net_defs virt_defs)

text \<open>
  Every benchmark of the repository is registered: the 66 descriptors fit the table, so
  none is refused and \<open>benchmark_get_all\<close> hands out all of them, with
  pairwise distinct names, so that a name filter selects at most one.
\<close>

theorem catalog_registered:
  "benchmark_get_all (register_all all_benchmarks) True = (0, Some (map Some all_benchmarks, 66)) \<and>
   distinct (map bm_name all_benchmarks)"
proof -
  have "registered (register_all all_benchmarks) = all_benchmarks"
    by (simp add: registered_register_all length_all_benchmarks MAX_BENCHMARKS_def)
  then show ?thesis
    using length_registered [OF register_all_invar [of all_benchmarks]]
    by (simp add: benchmark_get_all_def entries_Some [OF register_all_invar]
        length_all_benchmarks distinct_names)
qed

end
