(* ===== verification/Stats.thy ===== *)
theory Stats
  imports Prelude
begin

text \<open>
  \<^verbatim>\<open>src/core/stats.c\<close>: sorting, mean, deviation and geometric mean, bootstrap confidence intervals,
  \<open>stats_compute\<close> and the reliability label.
\<close>

subsection \<open>Sorting\<close>

text \<open>\<^verbatim>\<open>_compare_double\<close>, and what \<^verbatim>\<open>qsort\<close> with it must return: the sorted permutation, which is
  unique because the comparison is a linear order.\<close>

definition compare_double :: "real \<Rightarrow> real \<Rightarrow> int" where
  "compare_double da db = (if da > db then 1 else 0) - (if da < db then 1 else 0)"

definition stats_sort :: "real list \<Rightarrow> real list" where
  "stats_sort values = sort values"

lemma stats_sort_unique:
  assumes "mset ys = mset xs" and "sorted_wrt (\<lambda>a b. compare_double a b \<le> 0) ys"
  shows "ys = stats_sort xs"
proof -
  have "sorted_wrt (\<lambda>a b. a \<le> b) ys"
    by (rule sorted_wrt_mono_rel [OF _ assms(2)]) (simp add: compare_double_def split: if_splits)
  then have "sorted ys" by simp
  then show ?thesis using assms(1) by (simp add: stats_sort_def properties_for_sort)
qed

lemma stats_sort_facts [simp]:
  "sorted (stats_sort xs)" "mset (stats_sort xs) = mset xs"
  "length (stats_sort xs) = length xs" "set (stats_sort xs) = set xs"
  by (simp_all add: stats_sort_def)

subsection \<open>Mean and standard deviation\<close>

definition stats_mean_stddev :: "real list \<Rightarrow> real \<times> real" where
  "stats_mean_stddev values =
     (let count = length values in
      if count < 1 then (0, 0)
      else let m = loop_sum (\<lambda>x. x) values / real count in
        if count < 2 then (m, 0)
        else let ssq = loop_sum (\<lambda>x. let d = x - m in d * d) values
          in (m, sqrt (ssq / (real count - 1))))"

abbreviation mean_of :: "real list \<Rightarrow> real" where
  "mean_of values \<equiv> fst (stats_mean_stddev values)"

abbreviation stddev_of :: "real list \<Rightarrow> real" where
  "stddev_of values \<equiv> snd (stats_mean_stddev values)"

lemma mean_of_eq: "mean_of xs = (\<Sum>x \<leftarrow> xs. x) / real (length xs)"
  by (cases xs) (auto simp: stats_mean_stddev_def loop_simps Let_def)

lemma stddev_of_eq:
  "2 \<le> length xs \<Longrightarrow>
   stddev_of xs = sqrt ((\<Sum>x \<leftarrow> xs. (x - mean_of xs) * (x - mean_of xs)) / (real (length xs) - 1))"
  by (auto simp: stats_mean_stddev_def loop_simps Let_def)

lemma stddev_short: "length xs < 2 \<Longrightarrow> stddev_of xs = 0"
  by (auto simp: stats_mean_stddev_def Let_def)

lemma mean_ge: "xs \<noteq> [] \<Longrightarrow> (\<And>x. x \<in> set xs \<Longrightarrow> c \<le> x) \<Longrightarrow> c \<le> mean_of xs"
  using sum_list_ge_card [of xs c "\<lambda>x. x"] by (simp add: mean_of_eq field_simps)

lemma mean_le: "xs \<noteq> [] \<Longrightarrow> (\<And>x. x \<in> set xs \<Longrightarrow> x \<le> c) \<Longrightarrow> mean_of xs \<le> c"
  using sum_list_le_card [of xs "\<lambda>x. x" c] by (simp add: mean_of_eq field_simps)

lemma ssq_nonneg: "0 \<le> (\<Sum>x \<leftarrow> xs. (x - m) * (x - m :: real))"
  by (rule sum_list_nonneg) auto

lemma stddev_nonneg: "0 \<le> stddev_of xs"
proof (cases "2 \<le> length xs")
  case True
  then show ?thesis by (simp add: stddev_of_eq ssq_nonneg)
next
  case False
  then show ?thesis by (simp add: stddev_short)
qed

lemma ssq_zero_iff:
  "(\<Sum>x \<leftarrow> xs. (x - m) * (x - m :: real)) = 0 \<longleftrightarrow> (\<forall>x \<in> set xs. x = m)"
  by (subst sum_list_nonneg_eq_0_iff) auto

lemma stddev_zero_iff:
  assumes "2 \<le> length xs"
  shows "stddev_of xs = 0 \<longleftrightarrow> (\<forall>x \<in> set xs. x = mean_of xs)"
  using assms ssq_zero_iff [where xs = xs and m = "mean_of xs"]
  by (simp add: stddev_of_eq)

text \<open>
  Two or more values: the mean lies between the smallest and the largest value, the standard
  deviation is the root of the sum of squared deviations over n - 1, and it is 0 exactly when
  all values are equal.
\<close>

theorem mean_stddev_correct:
  assumes "2 \<le> length values"
  shows "Min (set values) \<le> mean_of values \<and> mean_of values \<le> Max (set values) \<and>
    stddev_of values = sqrt ((\<Sum>x \<leftarrow> values. (x - mean_of values)\<^sup>2) / (real (length values) - 1)) \<and>
    (stddev_of values = 0 \<longleftrightarrow> (\<forall>x \<in> set values. \<forall>y \<in> set values. x = y))"
proof (intro conjI)
  have ne: "values \<noteq> []" using assms by auto
  show lo: "Min (set values) \<le> mean_of values" using ne by (rule mean_ge) simp
  show hi: "mean_of values \<le> Max (set values)" using ne by (rule mean_le) simp
  show "stddev_of values =
      sqrt ((\<Sum>x \<leftarrow> values. (x - mean_of values)\<^sup>2) / (real (length values) - 1))"
    using assms by (simp add: stddev_of_eq power2_eq_square)
  have "(\<forall>x \<in> set values. \<forall>y \<in> set values. x = y) \<Longrightarrow> x \<in> set values \<Longrightarrow> x = mean_of values" for x
    by (rule antisym) (use ne in \<open>auto intro!: mean_ge mean_le\<close>)
  then show "stddev_of values = 0 \<longleftrightarrow> (\<forall>x \<in> set values. \<forall>y \<in> set values. x = y)"
    using stddev_zero_iff [OF assms] by metis
qed

lemma mean_stddev_correct_witness:
  "2 \<le> length [1, 2, 3 :: real] \<and> mean_of [1, 2, 3] \<le> Max (set [1, 2, 3]) \<and> mean_of [1, 2, 3] = 2 \<and>
   stddev_of [1, 2, 3] = 1"
  using mean_stddev_correct [of "[1, 2, 3]"] by (simp add: stats_mean_stddev_def loop_simps)

subsection \<open>Geometric mean\<close>

fun gm_loop :: "real list \<Rightarrow> real \<Rightarrow> real option" where
  "gm_loop [] log_sum = Some log_sum"
| "gm_loop (v # vs) log_sum = (if v \<le> 0 then None else gm_loop vs (log_sum + ln v))"

text \<open>With \<open>count = 0\<close> the C code computes \<^verbatim>\<open>exp(0.0/0)\<close>, a NaN: the outer \<open>None\<close>.\<close>

definition stats_geometric_mean :: "real list \<Rightarrow> real option" where
  "stats_geometric_mean values =
     (case gm_loop values 0 of
        None \<Rightarrow> Some 0
      | Some log_sum \<Rightarrow>
          if values = [] then None else Some (exp (log_sum / real (length values))))"

lemma gm_loop_pos:
  "(\<forall>v \<in> set vs. 0 < v) \<Longrightarrow> gm_loop vs a = Some (a + (\<Sum>v \<leftarrow> vs. ln v))"
  by (induction vs arbitrary: a) auto

lemma gm_loop_nonpos: "\<exists>v \<in> set vs. v \<le> 0 \<Longrightarrow> gm_loop vs a = None"
  by (induction vs arbitrary: a) auto

lemma gm_pos:
  "vs \<noteq> [] \<Longrightarrow> (\<forall>v \<in> set vs. 0 < v) \<Longrightarrow>
   stats_geometric_mean vs = Some (exp ((\<Sum>v \<leftarrow> vs. ln v) / real (length vs)))"
  by (simp add: stats_geometric_mean_def gm_loop_pos)

lemma gm_nonpos: "\<exists>v \<in> set vs. v \<le> 0 \<Longrightarrow> stats_geometric_mean vs = Some 0"
  by (simp add: stats_geometric_mean_def gm_loop_nonpos)

lemma gm_bounds:
  assumes "vs \<noteq> []" "0 < lo" "\<forall>v \<in> set vs. lo \<le> v \<and> v \<le> hi"
  shows "\<exists>g. stats_geometric_mean vs = Some g \<and> lo \<le> g \<and> g \<le> hi"
proof -
  let ?L = "(\<Sum>v \<leftarrow> vs. ln v) / real (length vs)"
  have pos: "\<forall>v \<in> set vs. 0 < v" using assms by auto
  have n: "0 < real (length vs)" using assms(1) by simp
  have hi: "0 < hi" using assms by (cases vs) auto
  have "real (length vs) * ln lo \<le> (\<Sum>v \<leftarrow> vs. ln v)"
    by (rule sum_list_ge_card) (use assms in auto)
  moreover have "(\<Sum>v \<leftarrow> vs. ln v) \<le> real (length vs) * ln hi"
    by (rule sum_list_le_card) (use assms pos in auto)
  ultimately have "ln lo \<le> ?L" and "?L \<le> ln hi"
    using n by (simp_all add: field_simps)
  then have "exp (ln lo) \<le> exp ?L" and "exp ?L \<le> exp (ln hi)" by simp_all
  then show ?thesis using assms(1,2) hi pos by (simp add: gm_pos)
qed

lemma gm_power:
  assumes "vs \<noteq> []" "\<forall>v \<in> set vs. 0 < v" "stats_geometric_mean vs = Some g"
  shows "g ^ length vs = prod_list vs"
proof -
  have "(exp ((\<Sum>v \<leftarrow> vs. ln v) / real (length vs))) ^ length vs = exp (\<Sum>v \<leftarrow> vs. ln v)"
    using assms(1) by (simp flip: exp_of_nat_mult)
  also have "\<dots> = prod_list vs"
    using assms(2) by (induction vs) (auto simp: exp_add)
  finally show ?thesis using assms by (simp add: gm_pos)
qed

subsection \<open>Reliability label\<close>

definition stats_reliability_label :: "real \<Rightarrow> string" where
  "stats_reliability_label cv =
     (if cv < SSB_CV_STABLE then ''stable''
      else if cv < SSB_CV_MODERATE then ''moderate''
      else if cv < SSB_CV_HIGH then ''high''
      else ''unreliable'')"

lemma unreliable_iff: "stats_reliability_label cv = ''unreliable'' \<longleftrightarrow> SSB_CV_HIGH \<le> cv"
  by (simp add: stats_reliability_label_def ssb_consts)

subsection \<open>Percentile bootstrap\<close>

text \<open>\<open>rnd\<close> is \<^verbatim>\<open>rand()\<close> with its hidden state made explicit; one sample draws \<open>count\<close>
  values with replacement.\<close>

fun draw_sample :: "('r \<Rightarrow> nat \<times> 'r) \<Rightarrow> real list \<Rightarrow> nat \<Rightarrow> 'r \<Rightarrow> real list \<times> 'r" where
  "draw_sample rnd values 0 r = ([], r)"
| "draw_sample rnd values (Suc i) r =
     (let (k, r1) = rnd r; (rest, r2) = draw_sample rnd values i r1
      in (values ! (k mod length values) # rest, r2))"

fun boot_means :: "('r \<Rightarrow> nat \<times> 'r) \<Rightarrow> real list \<Rightarrow> nat \<Rightarrow> 'r \<Rightarrow> real list \<times> 'r" where
  "boot_means rnd values 0 r = ([], r)"
| "boot_means rnd values (Suc b) r =
     (let (sample, r1) = draw_sample rnd values (length values) r;
          (rest, r2) = boot_means rnd values b r1
      in (mean_of sample # rest, r2))"

text \<open>Status, the interval when it was written, and the generator's next state. \<open>mem_ok\<close>: both
  \<^verbatim>\<open>malloc\<close> calls succeeded.\<close>

definition stats_bootstrap_percentile ::
    "('r \<Rightarrow> nat \<times> 'r) \<Rightarrow> bool \<Rightarrow> real list \<Rightarrow> nat \<Rightarrow> 'r \<Rightarrow> (int \<times> (real \<times> real) option) \<times> 'r" where
  "stats_bootstrap_percentile rnd mem_ok values n_resamples r =
     (if length values < 2 \<or> n_resamples < 100 then ((-1, None), r)
      else if \<not> mem_ok then ((-1, None), r)
      else let (means, r') = boot_means rnd values n_resamples r;
               means = stats_sort means;
               lo_idx = nat \<lfloor>25 / 1000 * real n_resamples\<rfloor>;
               hi_idx = nat \<lfloor>975 / 1000 * real n_resamples\<rfloor>;
               hi_idx = (if hi_idx \<ge> n_resamples then n_resamples - 1 else hi_idx)
           in ((0, Some (means ! lo_idx, means ! hi_idx)), r'))"

definition stats_bootstrap_bca ::
    "('r \<Rightarrow> nat \<times> 'r) \<Rightarrow> bool \<Rightarrow> real list \<Rightarrow> nat \<Rightarrow> 'r \<Rightarrow> (int \<times> (real \<times> real) option) \<times> 'r" where
  "stats_bootstrap_bca rnd mem_ok values n_resamples r =
     stats_bootstrap_percentile rnd mem_ok values n_resamples r"

lemma length_draw_sample [simp]: "length (fst (draw_sample rnd values n r)) = n"
  by (induction n arbitrary: r) (simp_all add: Let_def split: prod.split, metis fst_conv)

lemma set_draw_sample:
  "values \<noteq> [] \<Longrightarrow> set (fst (draw_sample rnd values n r)) \<subseteq> set values"
proof (induction n arbitrary: r)
  case 0
  then show ?case by simp
next
  case (Suc n)
  obtain k r1 where k: "rnd r = (k, r1)" by fastforce
  have "values ! (k mod length values) \<in> set values" using Suc.prems by simp
  then show ?case using Suc.IH [OF Suc.prems, of r1] by (simp add: k case_prod_beta)
qed

lemma length_boot_means [simp]: "length (fst (boot_means rnd values n r)) = n"
  by (induction n arbitrary: r) (simp_all add: Let_def split: prod.split, metis fst_conv)

lemma boot_means_bounds:
  assumes "values \<noteq> []"
  shows "m \<in> set (fst (boot_means rnd values n r)) \<Longrightarrow> Min (set values) \<le> m \<and> m \<le> Max (set values)"
proof (induction n arbitrary: r)
  case 0
  then show ?case by simp
next
  case (Suc n)
  obtain s r1 where s: "draw_sample rnd values (length values) r = (s, r1)" by fastforce
  have len: "s \<noteq> []" using assms length_draw_sample [of rnd "values" "length values" r] s by auto
  have sub: "set s \<subseteq> set values" using set_draw_sample [OF assms] s by (metis fst_conv)
  from Suc.prems have "m = mean_of s \<or> m \<in> set (fst (boot_means rnd values n r1))"
    by (simp add: s split: prod.splits)
  then show ?case
  proof
    assume "m = mean_of s"
    with len sub show ?thesis
      by (auto intro!: mean_ge mean_le)
  qed (rule Suc.IH)
qed

lemma bootstrap_idx:
  fixes n :: nat
  assumes "100 \<le> n"
  shows "nat \<lfloor>25 / 1000 * real n\<rfloor> \<le> (if nat \<lfloor>975 / 1000 * real n\<rfloor> \<ge> n then n - 1 else nat \<lfloor>975 / 1000 * real n\<rfloor>)"
    and "(if nat \<lfloor>975 / 1000 * real n\<rfloor> \<ge> n then n - 1 else nat \<lfloor>975 / 1000 * real n\<rfloor>) < n"
proof -
  have "\<lfloor>25 / 1000 * real n\<rfloor> \<le> \<lfloor>975 / 1000 * real n\<rfloor>" by (rule floor_mono) simp
  moreover have "\<lfloor>25 / 1000 * real n\<rfloor> < int n" using assms by linarith
  ultimately show "nat \<lfloor>25 / 1000 * real n\<rfloor> \<le>
      (if nat \<lfloor>975 / 1000 * real n\<rfloor> \<ge> n then n - 1 else nat \<lfloor>975 / 1000 * real n\<rfloor>)"
    using assms by auto
qed (use assms in auto)

lemma bootstrap_ok:
  assumes "2 \<le> length values" "100 \<le> n_resamples"
  obtains lo hi r' where
    "stats_bootstrap_percentile rnd True values n_resamples r = ((0, Some (lo, hi)), r')"
    "Min (set values) \<le> lo" "lo \<le> hi" "hi \<le> Max (set values)"
proof -
  obtain ms r' where ms: "boot_means rnd values n_resamples r = (ms, r')" by fastforce
  define i where "i = nat \<lfloor>25 / 1000 * real n_resamples\<rfloor>"
  define j where "j = (if nat \<lfloor>975 / 1000 * real n_resamples\<rfloor> \<ge> n_resamples then n_resamples - 1
    else nat \<lfloor>975 / 1000 * real n_resamples\<rfloor>)"
  have len: "length ms = n_resamples"
    using length_boot_means [of rnd "values" n_resamples r] ms by simp
  have ij: "i \<le> j" "j < length (stats_sort ms)"
    using bootstrap_idx [OF assms(2)] by (simp_all add: i_def j_def len)
  have bnd: "Min (set values) \<le> stats_sort ms ! k \<and> stats_sort ms ! k \<le> Max (set values)"
    if "k < length (stats_sort ms)" for k
  proof -
    have "stats_sort ms ! k \<in> set ms" using nth_mem [OF that] by simp
    moreover have "values \<noteq> []" using assms(1) by auto
    ultimately show ?thesis
      using boot_means_bounds [of "values" "stats_sort ms ! k" rnd n_resamples r] ms by simp
  qed
  have "stats_sort ms ! i \<le> stats_sort ms ! j" using ij by (simp add: sorted_nth_mono)
  moreover have "stats_bootstrap_percentile rnd True values n_resamples r =
      ((0, Some (stats_sort ms ! i, stats_sort ms ! j)), r')"
    using assms by (simp add: stats_bootstrap_percentile_def i_def j_def ms Let_def)
  ultimately show ?thesis using that bnd [of i] bnd [of j] ij by simp
qed

text \<open>
  The 95% interval of the percentile bootstrap, whatever numbers the generator returns: with
  at least two values, 100 resamples and memory, the call succeeds and the interval is ordered
  and lies inside the range of the measured values.
\<close>

theorem bootstrap_interval:
  assumes "2 \<le> length values" "100 \<le> n_resamples"
  shows "\<exists>lo hi. fst (stats_bootstrap_percentile rnd True values n_resamples r) = (0, Some (lo, hi)) \<and>
    Min (set values) \<le> lo \<and> lo \<le> hi \<and> hi \<le> Max (set values)"
  using bootstrap_ok [OF assms, of rnd r] by (metis fst_conv)

lemma bootstrap_interval_witness:
  "\<exists>lo hi. fst (stats_bootstrap_percentile (\<lambda>r :: nat. (r, Suc r)) True [1, 4] 100 7) = (0, Some (lo, hi)) \<and>
    1 \<le> lo \<and> lo \<le> hi \<and> hi \<le> 4"
  using bootstrap_interval [of "[1, 4]" 100 "\<lambda>r :: nat. (r, Suc r)" 7] by simp

subsection \<open>stats\_compute\<close>

text \<open>\<^verbatim>\<open>benchmark_stats_t\<close> of \<^verbatim>\<open>inc/benchmark.h\<close>: \<open>st_raw_values\<close> is an array of
  \<^verbatim>\<open>SSB_MAX_ITERATIONS\<close> doubles.\<close>

record benchmark_stats_t =
  st_mean :: real
  st_stddev :: real
  st_sem :: real
  st_cv :: real
  st_ci_lower :: real
  st_ci_upper :: real
  st_iterations :: nat
  st_converged :: bool
  st_reliability :: "string option"
  st_raw_values :: "real list"

definition zero_stats :: benchmark_stats_t where
  "zero_stats = \<lparr>st_mean = 0, st_stddev = 0, st_sem = 0, st_cv = 0, st_ci_lower = 0,
     st_ci_upper = 0, st_iterations = 0, st_converged = False, st_reliability = None,
     st_raw_values = replicate (nat SSB_MAX_ITERATIONS) 0\<rparr>"

text \<open>The relative standard error the harness stops on, and the coefficient of variation.\<close>

definition sem_rel :: "real \<Rightarrow> real \<Rightarrow> real" where
  "sem_rel mean sem = (if mean \<noteq> 0 then sem / \<bar>mean\<bar> else 1)"

text \<open>\<open>out\<close> is \<open>None\<close> for a null pointer. The \<^verbatim>\<open>memcpy\<close> of \<open>count\<close> doubles into the array of 31
  is undefined past its end. The status of the bootstrap is ignored: when it fails the interval
  keeps the zeros of the \<^verbatim>\<open>memset\<close>.\<close>

definition stats_compute ::
    "('r \<Rightarrow> nat \<times> 'r) \<Rightarrow> bool \<Rightarrow> real list \<Rightarrow> benchmark_stats_t option \<Rightarrow> 'r
     \<Rightarrow> (int \<times> benchmark_stats_t option \<times> 'r) outcome" where
  "stats_compute rnd mem_ok values out r =
     (let count = length values in
      if count < 2 \<or> out = None then Ret (-1, out, r)
      else let (mean, stddev) = stats_mean_stddev values;
               sem = stddev / sqrt (real count);
               cv = (if mean \<noteq> 0 then stddev / \<bar>mean\<bar> else 1);
               converged = (sem_rel mean sem \<le> 2 / 100)
        in if count > length (st_raw_values zero_stats) then Undef OobWrite
           else let ((_, ci), r') = stats_bootstrap_bca rnd mem_ok values SSB_BOOTSTRAP_RESAMPLES r;
                    (lo, hi) = (case ci of Some b \<Rightarrow> b | None \<Rightarrow> (0, 0))
             in Ret (0, Some (zero_stats\<lparr>st_mean := mean, st_stddev := stddev, st_sem := sem,
                  st_cv := cv, st_iterations := count, st_converged := converged,
                  st_reliability := Some (stats_reliability_label cv),
                  st_raw_values := values @ drop count (st_raw_values zero_stats),
                  st_ci_lower := lo, st_ci_upper := hi\<rparr>), r'))"

lemma length_zero_raw [simp]: "length (st_raw_values zero_stats) = 31"
  by (simp add: zero_stats_def ssb_consts)

lemma stats_compute_short: "length values < 2 \<Longrightarrow> stats_compute rnd mem_ok values out r = Ret (-1, out, r)"
  by (simp add: stats_compute_def)

lemma stats_compute_overflow:
  "31 < length values \<Longrightarrow> stats_compute rnd mem_ok values (Some s) r = Undef OobWrite"
  by (simp add: stats_compute_def Let_def split: prod.split)

text \<open>
  \<^verbatim>\<open>stats_compute\<close> copies its input into the 31 raw values of the result without a check: it
  is free of undefined behaviour exactly when it rejects the call or the count is at most 31;
  a defined successful call stores every value, the count, and a confidence interval inside the
  range of the values.
\<close>

theorem stats_compute_defined:
  "(is_ret (stats_compute rnd True values (Some s) r) \<longleftrightarrow> length values \<le> 31) \<and>
   (2 \<le> length values \<and> length values \<le> 31 \<longrightarrow>
     (\<exists>s' r'. stats_compute rnd True values (Some s) r = Ret (0, Some s', r') \<and>
        take (length values) (st_raw_values s') = values \<and> length (st_raw_values s') = 31 \<and>
        st_iterations s' = length values \<and>
        st_mean s' = mean_of values \<and> st_stddev s' = stddev_of values \<and>
        Min (set values) \<le> st_ci_lower s' \<and> st_ci_lower s' \<le> st_ci_upper s' \<and>
        st_ci_upper s' \<le> Max (set values)))"
proof (cases "2 \<le> length values \<and> length values \<le> 31")
  case True
  then obtain lo hi r' where b:
    "stats_bootstrap_percentile rnd True values 10000 r = ((0, Some (lo, hi)), r')"
    "Min (set values) \<le> lo" "lo \<le> hi" "hi \<le> Max (set values)"
    using bootstrap_ok [of "values" 10000 rnd r] by auto
  show ?thesis
    using True b
    by (simp add: stats_compute_def stats_bootstrap_bca_def SSB_BOOTSTRAP_RESAMPLES_def Let_def
        split: prod.split)
next
  case False
  then show ?thesis
    by (cases "length values < 2") (auto simp: stats_compute_short stats_compute_overflow)
qed

lemma stats_compute_defined_witness:
  "\<exists>s' r'. stats_compute (\<lambda>r :: nat. (r, Suc r)) True [1, 4] (Some zero_stats) 7 = Ret (0, Some s', r') \<and>
     st_iterations s' = 2 \<and> st_mean s' = 5 / 2 \<and> 1 \<le> st_ci_lower s' \<and> st_ci_upper s' \<le> 4"
  using stats_compute_defined [of "\<lambda>r :: nat. (r, Suc r)" "[1, 4]" zero_stats 7]
  by (auto simp: mean_of_eq)

end
