(* ===== verification/CStr.thy ===== *)
theory CStr
  imports Prelude
begin

text \<open>
  The C string library as far as the program uses it: character classes, \<^verbatim>\<open>strchr\<close> splits,
  \<^verbatim>\<open>strtok\<close>, the \<^verbatim>\<open>%d\<close> conversion of \<^verbatim>\<open>sscanf\<close>, \<^verbatim>\<open>atoi\<close>, \<^verbatim>\<open>fgets\<close> on a fixed buffer, and decimal
  printing. A C string is a list of characters without the final NUL. Integer conversions
  saturate at 64 bits and are then cut to the 32 bits of an \<^verbatim>\<open>int\<close>, as the GNU library does.
\<close>

unbundle bit_operations_syntax

subsection \<open>Characters\<close>

abbreviation code :: "char \<Rightarrow> nat" where
  "code c \<equiv> of_char c"

definition isspace :: "char \<Rightarrow> bool" where
  "isspace c \<longleftrightarrow> code c = 32 \<or> (9 \<le> code c \<and> code c \<le> 13)"

definition isblank :: "char \<Rightarrow> bool" where
  "isblank c \<longleftrightarrow> code c = 32 \<or> code c = 9"

definition isdigit :: "char \<Rightarrow> bool" where
  "isdigit c \<longleftrightarrow> 48 \<le> code c \<and> code c \<le> 57"

definition digit_val :: "char \<Rightarrow> nat" where
  "digit_val c = code c - 48"

text \<open>\<open>while (*p == ' ' || *p == '\\t') p++\<close>.\<close>

definition skip_blanks :: "string \<Rightarrow> string" where
  "skip_blanks s = dropWhile isblank s"

subsection \<open>Splitting\<close>

text \<open>\<^verbatim>\<open>strchr\<close> followed by cutting the string at the character found.\<close>

definition cut_at :: "char \<Rightarrow> string \<Rightarrow> (string \<times> string) option" where
  "cut_at c s = (if c \<in> set s then Some (takeWhile (\<lambda>x. x \<noteq> c) s, tl (dropWhile (\<lambda>x. x \<noteq> c) s))
                 else None)"

lemma cut_at_append: "c \<notin> set a \<Longrightarrow> cut_at c (a @ c # b) = Some (a, b)"
proof -
  assume "c \<notin> set a"
  then have "takeWhile (\<lambda>x. x \<noteq> c) (a @ c # b) = a" "dropWhile (\<lambda>x. x \<noteq> c) (a @ c # b) = c # b"
    by (induction a) auto
  then show ?thesis by (simp add: cut_at_def)
qed

lemma cut_at_Some: "cut_at c s = Some (a, b) \<Longrightarrow> s = a @ c # b \<and> c \<notin> set a"
proof -
  assume h: "cut_at c s = Some (a, b)"
  then have c: "c \<in> set s" and a: "a = takeWhile (\<lambda>x. x \<noteq> c) s"
    and b: "b = tl (dropWhile (\<lambda>x. x \<noteq> c) s)"
    by (auto simp: cut_at_def split: if_splits)
  from c have ne: "dropWhile (\<lambda>x. x \<noteq> c) s \<noteq> []" by (simp add: dropWhile_eq_Nil_conv)
  then have "hd (dropWhile (\<lambda>x. x \<noteq> c) s) = c" using hd_dropWhile by blast
  with ne have "dropWhile (\<lambda>x. x \<noteq> c) s = c # b" by (metis b list.collapse)
  then have "s = a @ c # b" by (metis a takeWhile_dropWhile_id)
  moreover have "c \<notin> set a" using a by (auto dest: set_takeWhileD)
  ultimately show ?thesis ..
qed

text \<open>\<^verbatim>\<open>strtok\<close> with one delimiter: the maximal runs of other characters.\<close>

fun tok_loop :: "char \<Rightarrow> string \<Rightarrow> string \<Rightarrow> string list" where
  "tok_loop d cur [] = (if cur = [] then [] else [cur])"
| "tok_loop d cur (c # cs) =
     (if c = d then (if cur = [] then [] else [cur]) @ tok_loop d [] cs
      else tok_loop d (cur @ [c]) cs)"

definition strtok_all :: "char \<Rightarrow> string \<Rightarrow> string list" where
  "strtok_all d s = tok_loop d [] s"

lemma tok_loop_run: "d \<notin> set t \<Longrightarrow> tok_loop d cur (t @ s) = tok_loop d (cur @ t) s"
  by (induction t arbitrary: cur) auto

lemma strtok_last: "d \<notin> set t \<Longrightarrow> t \<noteq> [] \<Longrightarrow> strtok_all d t = [t]"
  using tok_loop_run [of d t "[]" "[]"] by (simp add: strtok_all_def)

lemma strtok_cons: "d \<notin> set t \<Longrightarrow> t \<noteq> [] \<Longrightarrow> strtok_all d (t @ d # s) = t # strtok_all d s"
  using tok_loop_run [of d t "[]" "d # s"] by (simp add: strtok_all_def)

text \<open>Printing a list of items with a separator.\<close>

fun join_with :: "char \<Rightarrow> string list \<Rightarrow> string" where
  "join_with d [] = []"
| "join_with d [t] = t"
| "join_with d (t # ts) = t @ d # join_with d ts"

lemma strtok_join:
  "\<forall>t \<in> set ts. t \<noteq> [] \<and> d \<notin> set t \<Longrightarrow> strtok_all d (join_with d ts) = ts"
proof (induction d ts rule: join_with.induct)
  case (1 d)
  show ?case by (simp add: strtok_all_def)
qed (auto simp: strtok_last strtok_cons)

subsection \<open>Integer conversions\<close>

definition clamp64 :: "int \<Rightarrow> int" where
  "clamp64 v = (if v > 2 ^ 63 - 1 then 2 ^ 63 - 1 else if v < - (2 ^ 63) then - (2 ^ 63) else v)"

definition c_int :: "int \<Rightarrow> int" where
  "c_int v = signed_take_bit 31 (clamp64 v)"

lemma c_int_id: "- (2 ^ 31) \<le> v \<Longrightarrow> v < 2 ^ 31 \<Longrightarrow> c_int v = v"
  by (simp add: c_int_def clamp64_def signed_take_bit_int_eq_self)

lemma c_int_range: "- (2 ^ 31) \<le> c_int v \<and> c_int v < 2 ^ 31"
  unfolding c_int_def
  using signed_take_bit_int_greater_eq_minus_exp [of 31 "clamp64 v"]
    signed_take_bit_int_less_exp [of 31 "clamp64 v"] by simp

fun scan_digits :: "nat \<Rightarrow> string \<Rightarrow> nat \<times> string" where
  "scan_digits acc [] = (acc, [])"
| "scan_digits acc (c # cs) =
     (if isdigit c then scan_digits (10 * acc + digit_val c) cs else (acc, c # cs))"

text \<open>A decimal number as \<^verbatim>\<open>strtol\<close> and \<^verbatim>\<open>%d\<close> read it: white space, an optional sign, at least
  one digit; the value before any conversion and the rest of the input.\<close>

definition scan_unsigned :: "string \<Rightarrow> (nat \<times> string) option" where
  "scan_unsigned s = (case s of [] \<Rightarrow> None
     | c # cs \<Rightarrow> if isdigit c then Some (scan_digits 0 s) else None)"

definition scan_int :: "string \<Rightarrow> (int \<times> string) option" where
  "scan_int s =
     (case dropWhile isspace s of
        [] \<Rightarrow> None
      | c # cs \<Rightarrow>
          if c = CHR ''-'' then map_option (\<lambda>(n, r). (- int n, r)) (scan_unsigned cs)
          else if c = CHR ''+'' then map_option (\<lambda>(n, r). (int n, r)) (scan_unsigned cs)
          else map_option (\<lambda>(n, r). (int n, r)) (scan_unsigned (c # cs)))"

definition atoi :: "string \<Rightarrow> int" where
  "atoi s = (case scan_int s of None \<Rightarrow> 0 | Some (v, _) \<Rightarrow> c_int v)"

text \<open>\<^verbatim>\<open>sscanf(s, "%d-%d", &a, &b)\<close> and the fall-back \<^verbatim>\<open>sscanf(s, "%d", &a)\<close>: the number of
  conversions done decides.\<close>

datatype range_scan = NoNumber | One int | Range int int

definition sscanf_range :: "string \<Rightarrow> range_scan" where
  "sscanf_range s =
     (case scan_int s of
        None \<Rightarrow> NoNumber
      | Some (a, []) \<Rightarrow> One (c_int a)
      | Some (a, c # cs) \<Rightarrow>
          if c \<noteq> CHR ''-'' then One (c_int a)
          else (case scan_int cs of None \<Rightarrow> One (c_int a)
                | Some (b, _) \<Rightarrow> Range (c_int a) (c_int b)))"

subsection \<open>Decimal printing\<close>

definition digit_char :: "nat \<Rightarrow> char" where
  "digit_char d = char_of (48 + d)"

fun dec :: "nat \<Rightarrow> string" where
  "dec n = (if n < 10 then [digit_char n] else dec (n div 10) @ [digit_char (n mod 10)])"

declare dec.simps [simp del]

lemma digit_char_facts [simp]:
  assumes "d < 10"
  shows "isdigit (digit_char d)" "digit_val (digit_char d) = d" "code (digit_char d) = 48 + d"
  using assms by (simp_all add: isdigit_def digit_val_def digit_char_def)

lemma dec_digits: "\<forall>c \<in> set (dec n). isdigit c"
proof (induction n rule: dec.induct)
  case (1 n)
  then show ?case by (cases "n < 10") (simp_all add: dec.simps [of n])
qed

lemma dec_nonempty: "dec n \<noteq> []"
  by (simp add: dec.simps [of n])

lemma scan_digits_append:
  "\<forall>c \<in> set ds. isdigit c \<Longrightarrow>
   scan_digits acc (ds @ s) = scan_digits (foldl (\<lambda>a c. 10 * a + digit_val c) acc ds) s"
  by (induction ds arbitrary: acc) auto

lemma foldl_dec: "foldl (\<lambda>a c. 10 * a + digit_val c) 0 (dec n) = n"
proof (induction n rule: dec.induct)
  case (1 n)
  then show ?case by (cases "n < 10") (simp_all add: dec.simps [of n])
qed

definition no_digit :: "string \<Rightarrow> bool" where
  "no_digit s \<longleftrightarrow> (case s of [] \<Rightarrow> True | c # _ \<Rightarrow> \<not> isdigit c)"

lemma scan_digits_stop: "no_digit s \<Longrightarrow> scan_digits acc s = (acc, s)"
  by (cases s) (auto simp: no_digit_def)

lemma scan_digits_dec: "no_digit s \<Longrightarrow> scan_digits 0 (dec n @ s) = (n, s)"
  by (simp add: scan_digits_append dec_digits foldl_dec scan_digits_stop)

lemma scan_unsigned_dec: "no_digit s \<Longrightarrow> scan_unsigned (dec n @ s) = Some (n, s)"
proof -
  assume s: "no_digit s"
  obtain c cs where d: "dec n = c # cs" using dec_nonempty by (cases "dec n") auto
  moreover have "isdigit c" using dec_digits [of n] d by simp
  ultimately have "scan_unsigned (dec n @ s) = Some (scan_digits 0 (dec n @ s))"
    by (simp add: scan_unsigned_def)
  with s show ?thesis by (simp add: scan_digits_dec)
qed

lemma isdigit_not_special:
  assumes "isdigit c"
  shows "\<not> isspace c" "c \<noteq> CHR ''-''" "c \<noteq> CHR ''+''" "c \<noteq> CHR '',''" "\<not> isblank c"
    "c \<noteq> CHR '':''"
  using assms by (auto simp: isdigit_def isspace_def isblank_def)

lemma scan_int_dec: "no_digit s \<Longrightarrow> scan_int (dec n @ s) = Some (int n, s)"
proof -
  assume s: "no_digit s"
  obtain c cs where d: "dec n = c # cs" using dec_nonempty by (cases "dec n") auto
  moreover have "isdigit c" using dec_digits [of n] d by simp
  moreover have "scan_unsigned (c # cs @ s) = Some (n, s)"
    using scan_unsigned_dec [OF s, of n] d by simp
  ultimately show ?thesis by (simp add: scan_int_def isdigit_not_special)
qed

lemma atoi_dec: "n < 2 ^ 31 \<Longrightarrow> no_digit s \<Longrightarrow> atoi (dec n @ s) = int n"
  by (simp add: atoi_def scan_int_dec c_int_id)

lemma sscanf_one_dec: "n < 2 ^ 31 \<Longrightarrow> sscanf_range (dec n) = One (int n)"
  using scan_int_dec [of "[]" n] by (simp add: sscanf_range_def no_digit_def c_int_id)

lemma sscanf_range_dec:
  assumes "a < 2 ^ 31" "b < 2 ^ 31"
  shows "sscanf_range (dec a @ CHR ''-'' # dec b) = Range (int a) (int b)"
proof -
  have "scan_int (dec a @ CHR ''-'' # dec b) = Some (int a, CHR ''-'' # dec b)"
    by (rule scan_int_dec) (simp add: no_digit_def isdigit_def)
  moreover have "scan_int (dec b) = Some (int b, [])"
    using scan_int_dec [of "[]" b] by (simp add: no_digit_def)
  ultimately show ?thesis using assms by (simp add: sscanf_range_def c_int_id)
qed

subsection \<open>Reading lines\<close>

text \<open>\<^verbatim>\<open>fgets(line, bufsz, f)\<close> until the end of the file: a line keeps its newline, and a line longer
  than the buffer is handed out in pieces.\<close>

fun fgets_loop :: "nat \<Rightarrow> string \<Rightarrow> string \<Rightarrow> string list" where
  "fgets_loop bufsz cur [] = (if cur = [] then [] else [cur])"
| "fgets_loop bufsz cur (c # cs) =
     (if c = CHR 0x0A \<or> Suc (length cur) \<ge> bufsz - 1
      then (cur @ [c]) # fgets_loop bufsz [] cs
      else fgets_loop bufsz (cur @ [c]) cs)"

definition fgets_all :: "nat \<Rightarrow> string \<Rightarrow> string list" where
  "fgets_all bufsz text = fgets_loop bufsz [] text"

lemma fgets_loop_run:
  "CHR 0x0A \<notin> set l \<Longrightarrow> length cur + length l < bufsz - 1 \<Longrightarrow>
   fgets_loop bufsz cur (l @ s) = fgets_loop bufsz (cur @ l) s"
  by (induction l arbitrary: cur) auto

lemma fgets_line:
  "CHR 0x0A \<notin> set l \<Longrightarrow> length l < bufsz - 1 \<Longrightarrow>
   fgets_all bufsz (l @ CHR 0x0A # s) = (l @ [CHR 0x0A]) # fgets_all bufsz s"
  using fgets_loop_run [of l "[]" bufsz "CHR 0x0A # s"] by (simp add: fgets_all_def)

end
