(* ===== verification/CpuSpec.thy ===== *)
theory CpuSpec
  imports CStr
begin

text \<open>
  \<^verbatim>\<open>src/core/harness.c\<close>, the parser of \<^verbatim>\<open>--cpu-pin\<close>: \<open>harness_parse_cpu_spec\<close> turns a keyword or a list
  of CPUs and ranges into the CPUs the instances are pinned to. The number of CPUs is a parameter.
\<close>

subsection \<open>harness\_parse\_cpu\_spec\<close>

definition MAX_PINS :: nat where "MAX_PINS = 512"

text \<open>\<open>for (c = start; c <= end && c < ncpu && count < 512; c++) list[count++] = c\<close>\<close>

function push_range :: "int \<Rightarrow> int \<Rightarrow> int \<Rightarrow> int list \<Rightarrow> int list" where
  "push_range c e ncpu list =
     (if c \<le> e \<and> c < ncpu \<and> length list < MAX_PINS then push_range (c + 1) e ncpu (list @ [c])
      else list)"
  by pat_completeness auto
termination
  by (relation "measure (\<lambda>(c, e, ncpu, list). nat (ncpu - c))") auto

declare push_range.simps [simp del]

definition cpu_token :: "int \<Rightarrow> int list \<Rightarrow> string \<Rightarrow> int list" where
  "cpu_token ncpu list tok =
     (case sscanf_range (skip_blanks tok) of
        Range start e \<Rightarrow> push_range start e ncpu list
      | One start \<Rightarrow> if start \<ge> 0 \<and> start < ncpu then list @ [start] else list
      | NoNumber \<Rightarrow> list)"

text \<open>\<open>while (tok && count < 512)\<close>\<close>

fun cpu_tokens :: "int \<Rightarrow> int list \<Rightarrow> string list \<Rightarrow> int list" where
  "cpu_tokens ncpu list [] = list"
| "cpu_tokens ncpu list (tok # toks) =
     (if length list < MAX_PINS then cpu_tokens ncpu (cpu_token ncpu list tok) toks else list)"

text \<open>\<open>auto-numa\<close>: the first CPU of each node's cpulist, up to the first missing node.\<close>

fun numa_first_cpus :: "(nat \<Rightarrow> string option) \<Rightarrow> nat \<Rightarrow> nat \<Rightarrow> int list \<Rightarrow> int list" where
  "numa_first_cpus cpulist 0 ni list = list"
| "numa_first_cpus cpulist (Suc left) ni list =
     (case cpulist ni of
        None \<Rightarrow> list
      | Some text \<Rightarrow>
          (case fgets_all 256 text of
             [] \<Rightarrow> numa_first_cpus cpulist left (Suc ni) list
           | cline # _ \<Rightarrow>
               (case scan_int cline of
                  Some (first_cpu, _) \<Rightarrow>
                    numa_first_cpus cpulist left (Suc ni) (list @ [c_int first_cpu])
                | None \<Rightarrow> numa_first_cpus cpulist left (Suc ni) list)))"

text \<open>The malloc'd array (\<open>None\<close> for \<^verbatim>\<open>NULL\<close>) and \<^verbatim>\<open>*count_out\<close>.\<close>

definition harness_parse_cpu_spec ::
    "int \<Rightarrow> (nat \<Rightarrow> string option) \<Rightarrow> bool \<Rightarrow> string option \<Rightarrow> int list option \<times> int" where
  "harness_parse_cpu_spec ncpu cpulist mem_ok spec_opt =
     (case spec_opt of
        None \<Rightarrow> (None, 0)
      | Some spec \<Rightarrow>
          if spec = [] then (None, 0)
          else if spec = ''auto'' then (None, 0)
          else if spec = ''auto-all'' then
            (if mem_ok then Some [0..ncpu - 1] else None, ncpu)
          else if spec = ''auto-numa'' then
            (if \<not> mem_ok then (None, 0)
             else let list = numa_first_cpus cpulist 64 0 []
                  in if list = [] then (None, 0) else (Some list, int (length list)))
          else if \<not> mem_ok then (None, 0)
          else let list = cpu_tokens ncpu [] (strtok_all (CHR '','') spec)
               in (Some list, int (length list)))"

lemma push_range_eq:
  "push_range c e ncpu list = list @ take (MAX_PINS - length list) [c..min e (ncpu - 1)]"
proof (induction c e ncpu list rule: push_range.induct)
  case (1 c e ncpu list)
  show ?case
  proof (cases "c \<le> e \<and> c < ncpu \<and> length list < MAX_PINS")
    case True
    have "[c..min e (ncpu - 1)] = c # [c + 1..min e (ncpu - 1)]"
      using True by (simp add: upto_rec1)
    moreover have "MAX_PINS - length list = Suc (MAX_PINS - Suc (length list))"
      using True by arith
    ultimately show ?thesis
      using True "1" by (simp add: push_range.simps [of c e ncpu list])
  next
    case False
    then show ?thesis by (auto simp: push_range.simps [of c e ncpu list])
  qed
qed

lemma cpu_token_props:
  assumes "length list \<le> MAX_PINS" "\<forall>c \<in> set list. c < ncpu"
  shows "(length list < MAX_PINS \<longrightarrow> length (cpu_token ncpu list tok) \<le> MAX_PINS) \<and>
    (\<forall>c \<in> set (cpu_token ncpu list tok). c < ncpu)"
  using assms
  by (auto simp: cpu_token_def push_range_eq split: range_scan.split dest: in_set_takeD)

lemma cpu_tokens_props:
  "length list \<le> MAX_PINS \<Longrightarrow> \<forall>c \<in> set list. c < ncpu \<Longrightarrow>
   length (cpu_tokens ncpu list toks) \<le> MAX_PINS \<and> (\<forall>c \<in> set (cpu_tokens ncpu list toks). c < ncpu)"
proof (induction toks arbitrary: list)
  case (Cons tok toks)
  then show ?case using cpu_token_props [OF Cons.prems, of tok] by auto
qed simp

subsection \<open>Canonical specs\<close>

text \<open>What the usage text calls a spec: single CPUs and ranges, printed with commas.\<close>

datatype cpu_item = Cpu nat | CpuRange nat nat

fun print_item :: "cpu_item \<Rightarrow> string" where
  "print_item (Cpu c) = dec c"
| "print_item (CpuRange a b) = dec a @ CHR ''-'' # dec b"

fun item_fits :: "cpu_item \<Rightarrow> bool" where
  "item_fits (Cpu c) \<longleftrightarrow> c < 2 ^ 31"
| "item_fits (CpuRange a b) \<longleftrightarrow> a < 2 ^ 31 \<and> b < 2 ^ 31"

definition print_spec :: "cpu_item list \<Rightarrow> string" where
  "print_spec items = join_with (CHR '','') (map print_item items)"

text \<open>What it means: the CPUs it names that exist, in order.\<close>

fun item_cpus :: "int \<Rightarrow> cpu_item \<Rightarrow> int list" where
  "item_cpus ncpu (Cpu c) = (if int c < ncpu then [int c] else [])"
| "item_cpus ncpu (CpuRange a b) = [int a..min (int b) (ncpu - 1)]"

lemma dec_no_special:
  "CHR '','' \<notin> set (dec n)" "CHR '':'' \<notin> set (dec n)" "CHR ''-'' \<notin> set (dec n)"
  "dropWhile isblank (dec n @ s) = dec n @ s" "dropWhile isspace (dec n @ s) = dec n @ s"
proof -
  have d: "c \<in> set (dec n) \<Longrightarrow> isdigit c" for c using dec_digits by blast
  show "CHR '','' \<notin> set (dec n)" using d isdigit_not_special(4) by blast
  show "CHR '':'' \<notin> set (dec n)" using d isdigit_not_special(6) by blast
  show "CHR ''-'' \<notin> set (dec n)" using d isdigit_not_special(2) by blast
  obtain c cs where "dec n = c # cs" using dec_nonempty by (cases "dec n") auto
  then show "dropWhile isblank (dec n @ s) = dec n @ s" "dropWhile isspace (dec n @ s) = dec n @ s"
    using d [of c] isdigit_not_special(1,5) [of c] by simp_all
qed

lemma print_item_facts:
  "print_item it \<noteq> []" "CHR '','' \<notin> set (print_item it)" "CHR '':'' \<notin> set (print_item it)"
  "skip_blanks (print_item it @ s) = print_item it @ s"
  by (cases it; simp add: dec_nonempty dec_no_special skip_blanks_def)+

lemma print_item_first: "\<exists>c cs. print_item it = c # cs \<and> isdigit c"
proof (cases it)
  case (Cpu n)
  then show ?thesis using dec_nonempty [of n] dec_digits [of n] by (cases "dec n") auto
next
  case (CpuRange a b)
  then show ?thesis using dec_nonempty [of a] dec_digits [of a] by (cases "dec a") auto
qed

lemma cpu_token_item:
  assumes "item_fits it" "length list < MAX_PINS"
  shows "cpu_token ncpu list (print_item it) = list @ take (MAX_PINS - length list) (item_cpus ncpu it)"
  using assms print_item_facts(4) [of it "[]"]
  by (cases it) (auto simp: cpu_token_def sscanf_one_dec sscanf_range_dec push_range_eq)

lemma cpu_tokens_items:
  "\<forall>it \<in> set items. item_fits it \<Longrightarrow> length list \<le> MAX_PINS \<Longrightarrow>
   cpu_tokens ncpu list (map print_item items) =
     list @ take (MAX_PINS - length list) (concat (map (item_cpus ncpu) items))"
proof (induction items arbitrary: list)
  case Nil
  then show ?case by simp
next
  case (Cons it items)
  show ?case
  proof (cases "length list < MAX_PINS")
    case True
    let ?l = "list @ take (MAX_PINS - length list) (item_cpus ncpu it)"
    have "length ?l \<le> MAX_PINS" using True by simp
    then have "cpu_tokens ncpu ?l (map print_item items) =
        ?l @ take (MAX_PINS - length ?l) (concat (map (item_cpus ncpu) items))"
      using Cons by simp
    moreover have "cpu_token ncpu list (print_item it) = ?l"
      using Cons.prems True by (simp add: cpu_token_item)
    moreover have "MAX_PINS - length ?l = MAX_PINS - length list - length (item_cpus ncpu it)"
      by simp
    ultimately show ?thesis using True by simp
  next
    case False
    with Cons.prems show ?thesis by simp
  qed
qed

lemma print_spec_not_keyword:
  "items \<noteq> [] \<Longrightarrow> print_spec items \<noteq> [] \<and> print_spec items \<noteq> ''auto'' \<and>
   print_spec items \<noteq> ''auto-all'' \<and> print_spec items \<noteq> ''auto-numa''"
proof -
  assume "items \<noteq> []"
  then obtain it rest where items: "items = it # rest" by (cases items) auto
  obtain c cs where c: "print_item it = c # cs" "isdigit c" using print_item_first by blast
  have "\<exists>ds. print_spec items = c # ds"
    by (cases rest) (simp_all add: print_spec_def items c)
  moreover have "c \<noteq> CHR ''a''" using c(2) by (auto simp: isdigit_def)
  ultimately show ?thesis by auto
qed

text \<open>
  C29. The CPU list the parser returns for a spec of single CPUs and ranges is the concatenation
  of what the items name, without the CPUs the machine does not have, cut at 512 entries.
\<close>

theorem cpu_spec_roundtrip:
  assumes "items \<noteq> []" "\<forall>it \<in> set items. item_fits it"
  shows "harness_parse_cpu_spec ncpu cpulist True (Some (print_spec items)) =
    (let list = take 512 (concat (map (item_cpus ncpu) items)) in (Some list, int (length list)))"
proof -
  have "strtok_all (CHR '','') (print_spec items) = map print_item items"
    unfolding print_spec_def by (rule strtok_join) (simp add: print_item_facts)
  then show ?thesis
    using print_spec_not_keyword [OF assms(1)] assms(2)
    by (simp add: harness_parse_cpu_spec_def cpu_tokens_items MAX_PINS_def)
qed

lemma cpu_spec_roundtrip_witness:
  "harness_parse_cpu_spec 16 (\<lambda>_. None) True (Some (print_spec [CpuRange 0 3, Cpu 99, CpuRange 8 11])) =
    (Some [0, 1, 2, 3, 8, 9, 10, 11], 8)"
  using cpu_spec_roundtrip [of "[CpuRange 0 3, Cpu 99, CpuRange 8 11]" 16 "\<lambda>_. None"]
  by (simp add: upto.simps Let_def)

text \<open>
  The bounds of an explicit CPU list, for any spec text: at most 512 entries, each below the
  number of CPUs. There is no lower bound: the text \<^verbatim>\<open>-2-1\<close> on 4 CPUs names the CPUs -2 and -1
  (the check for a single number tests \<open>start >= 0\<close>, the one for a range does not).
\<close>

theorem cpu_spec_bounds:
  "(\<forall>spec list count. spec \<notin> {''auto'', ''auto-all'', ''auto-numa''} \<longrightarrow>
      harness_parse_cpu_spec ncpu cpulist mem_ok (Some spec) = (Some list, count) \<longrightarrow>
      count = int (length list) \<and> length list \<le> 512 \<and> (\<forall>c \<in> set list. c < ncpu)) \<and>
   harness_parse_cpu_spec 4 cpulist True (Some ''-2-1'') = (Some [-2, -1, 0, 1], 4)"
proof (intro conjI allI impI)
  fix spec list count
  assume kw: "spec \<notin> {''auto'', ''auto-all'', ''auto-numa''}"
    and res: "harness_parse_cpu_spec ncpu cpulist mem_ok (Some spec) = (Some list, count)"
  then have l: "list = cpu_tokens ncpu [] (strtok_all (CHR '','') spec)" and c: "count = int (length list)"
    by (auto simp: harness_parse_cpu_spec_def Let_def split: if_splits)
  show "count = int (length list)" by (rule c)
  show "length list \<le> 512" and "\<forall>c \<in> set list. c < ncpu"
    using cpu_tokens_props [of "[]" ncpu "strtok_all (CHR '','') spec"] by (simp_all add: l MAX_PINS_def)
next
  have "strtok_all (CHR '','') ''-2-1'' = [''-2-1'']" by (simp add: strtok_all_def)
  moreover have "sscanf_range (skip_blanks ''-2-1'') = Range (-2) 1"
    by (simp add: sscanf_range_def skip_blanks_def scan_int_def scan_unsigned_def isblank_def
        isspace_def isdigit_def digit_val_def c_int_id)
  ultimately show "harness_parse_cpu_spec 4 cpulist True (Some ''-2-1'') = (Some [-2, -1, 0, 1], 4)"
    by (simp add: harness_parse_cpu_spec_def cpu_token_def push_range_eq MAX_PINS_def upto.simps
        numeral_eq_Suc)
qed

lemma cpu_spec_bounds_witness:
  "harness_parse_cpu_spec 2 (\<lambda>_. None) True (Some ''0'') = (Some [0], 1) \<and> length [0 :: int] \<le> 512"
proof -
  have r: "harness_parse_cpu_spec 2 (\<lambda>_. None) True (Some ''0'') = (Some [0], 1)"
    by (simp add: harness_parse_cpu_spec_def strtok_all_def cpu_token_def sscanf_range_def
        skip_blanks_def scan_int_def scan_unsigned_def isblank_def isspace_def isdigit_def
        digit_val_def c_int_id MAX_PINS_def)
  moreover have "length [0 :: int] \<le> 512"
    using conjunct1 [OF cpu_spec_bounds, rule_format, OF _ r] by simp
  ultimately show ?thesis ..
qed

end
