(* ===== verification/NumaTopo.thy ===== *)
theory NumaTopo
  imports CpuSpec
begin

text \<open>
  \<^verbatim>\<open>src/core/harness.c\<close>, the parser of \<^verbatim>\<open>--numa-topo\<close>: \<open>harness_parse_numa_bind\<close> fills the
  CPU-to-node table from bindings on the command line or from a file. A write to the table at a negative
  index is \<open>Undef OobWrite\<close>.
\<close>

subsection \<open>harness\_parse\_numa\_bind\<close>

text \<open>\<open>for (c = start; c <= end && c < ncpu && c < max_cpu; c++) { cpu_to_numa[c] = nid; bound++; }\<close>;
  the length of the table is \<open>max_cpu\<close>.\<close>

function bind_range ::
    "int \<Rightarrow> int \<Rightarrow> int \<Rightarrow> int \<Rightarrow> int list \<Rightarrow> int \<Rightarrow> (int list \<times> int) outcome" where
  "bind_range c e nid ncpu arr bound =
     (if c \<le> e \<and> c < ncpu \<and> c < int (length arr) then
        (if c < 0 then Undef OobWrite
         else bind_range (c + 1) e nid ncpu (arr[nat c := nid]) (bound + 1))
      else Ret (arr, bound))"
  by pat_completeness auto
termination
  by (relation "measure (\<lambda>(c, e, nid, ncpu, arr, bound). nat (ncpu - c))") auto

declare bind_range.simps [simp del]

definition numa_token :: "int \<Rightarrow> string \<Rightarrow> int list \<times> int \<Rightarrow> (int list \<times> int) outcome" where
  "numa_token ncpu tok st =
     (case st of (arr, bound) \<Rightarrow>
        (case cut_at (CHR '':'') (skip_blanks tok) of
           None \<Rightarrow> Ret (arr, bound)
         | Some (cpu_part, node_part) \<Rightarrow>
             let nid = atoi node_part in
             (case sscanf_range cpu_part of
                Range start e \<Rightarrow> bind_range start e nid ncpu arr bound
              | One start \<Rightarrow>
                  if start \<ge> 0 \<and> start < ncpu \<and> start < int (length arr)
                  then Ret (arr[nat start := nid], bound + 1) else Ret (arr, bound)
              | NoNumber \<Rightarrow> Ret (arr, bound))))"

fun numa_tokens :: "int \<Rightarrow> string list \<Rightarrow> int list \<times> int \<Rightarrow> (int list \<times> int) outcome" where
  "numa_tokens ncpu [] st = Ret st"
| "numa_tokens ncpu (tok # toks) st = out_bind (numa_token ncpu tok st) (numa_tokens ncpu toks)"

text \<open>\<open>@file\<close>: the lines that are neither blank nor comments, joined with commas.\<close>

definition topo_line :: "string \<Rightarrow> string option" where
  "topo_line line =
     (let p = skip_blanks line in
      case p of
        [] \<Rightarrow> None
      | c # _ \<Rightarrow> if c = CHR ''#'' \<or> c = CHR 0x0A then None
          else Some (rev (dropWhile (\<lambda>c. c = CHR 0x0A \<or> c = CHR 0x0D) (rev p))))"

fun combine_lines :: "string list \<Rightarrow> string option \<Rightarrow> string option" where
  "combine_lines [] combined = combined"
| "combine_lines (l # ls) combined =
     (case topo_line l of
        None \<Rightarrow> combine_lines ls combined
      | Some p \<Rightarrow> combine_lines ls
          (Some (case combined of
                   None \<Rightarrow> p
                 | Some old \<Rightarrow> if old = [] then p else old @ CHR '','' # p)))"

text \<open>\<open>arr\<close> is the caller's table; \<open>topo_file\<close> is the file system (\<open>None\<close>: cannot be opened).
  Returns the number the C function returns and the table.\<close>

definition harness_parse_numa_bind ::
    "int \<Rightarrow> (string \<Rightarrow> string option) \<Rightarrow> bool \<Rightarrow> string option \<Rightarrow> int list
     \<Rightarrow> (int list \<times> int) outcome" where
  "harness_parse_numa_bind ncpu topo_file mem_ok spec_opt arr =
     (case spec_opt of
        None \<Rightarrow> Ret (arr, 0)
      | Some [] \<Rightarrow> Ret (arr, 0)
      | Some (c # cs) \<Rightarrow>
          let arr = replicate (length arr) (-1) in
          (case scan_int (c # cs) of
             Some (nnodes, []) \<Rightarrow>
               if nnodes > 0 \<and> nnodes \<le> 16 then
                 (let m = min (nat ncpu) (length arr) in
                  Ret (map (\<lambda>i. int i mod nnodes) [0..<m] @ drop m arr, int m))
               else if \<not> mem_ok then Ret (arr, 0)
               else numa_tokens ncpu (strtok_all (CHR '','') (c # cs)) (arr, 0)
           | _ \<Rightarrow>
               if c = CHR 0x40 then
                 (case topo_file cs of
                    None \<Rightarrow> Ret (arr, 0)
                  | Some text \<Rightarrow>
                      (case combine_lines (fgets_all 4096 text) None of
                         None \<Rightarrow> Ret (arr, 0)
                       | Some buf \<Rightarrow>
                           if \<not> mem_ok then Ret (arr, 0)
                           else numa_tokens ncpu (strtok_all (CHR '','') buf) (arr, 0)))
               else if \<not> mem_ok then Ret (arr, 0)
               else numa_tokens ncpu (strtok_all (CHR '','') (c # cs)) (arr, 0)))"

subsection \<open>What a spec of ranges and nodes means\<close>

definition print_binding :: "cpu_item \<times> nat \<Rightarrow> string" where
  "print_binding b = print_item (fst b) @ CHR '':'' # dec (snd b)"

definition print_numa :: "(cpu_item \<times> nat) list \<Rightarrow> string" where
  "print_numa bs = join_with (CHR '','') (map print_binding bs)"

definition bind_cpus :: "int list \<Rightarrow> int \<Rightarrow> int list \<Rightarrow> int list" where
  "bind_cpus cpus nid arr = map (\<lambda>i. if int i \<in> set cpus then nid else arr ! i) [0..<length arr]"

text \<open>The node of a CPU: the last binding that names it, -1 when none does.\<close>

definition node_of :: "int \<Rightarrow> (cpu_item \<times> nat) list \<Rightarrow> int \<Rightarrow> int" where
  "node_of lm bs c = foldl (\<lambda>acc (it, nid). if c \<in> set (item_cpus lm it) then int nid else acc) (-1) bs"

lemma length_bind_cpus [simp]: "length (bind_cpus cpus nid arr) = length arr"
  by (simp add: bind_cpus_def)

lemma bind_cpus_Nil [simp]: "bind_cpus [] nid arr = arr"
  by (simp add: bind_cpus_def map_nth)

lemma bind_cpus_Cons:
  "0 \<le> c \<Longrightarrow> bind_cpus (c # cs) nid arr = bind_cpus cs nid (arr[nat c := nid])"
  by (rule nth_equalityI) (auto simp: bind_cpus_def nth_list_update)

lemma bind_range_eq:
  "0 \<le> c \<Longrightarrow> bind_range c e nid ncpu arr bound =
     (let cs = [c..min e (min ncpu (int (length arr)) - 1)] in
      Ret (bind_cpus cs nid arr, bound + int (length cs)))"
proof (induction c e nid ncpu arr bound rule: bind_range.induct)
  case (1 c e nid ncpu arr bound)
  let ?m = "min e (min ncpu (int (length arr)) - 1)"
  show ?case
  proof (cases "c \<le> e \<and> c < ncpu \<and> c < int (length arr)")
    case True
    have up: "[c..?m] = c # [c + 1..?m]" using True by (simp add: upto_rec1)
    have "bind_range c e nid ncpu arr bound = bind_range (c + 1) e nid ncpu (arr[nat c := nid]) (bound + 1)"
      using True "1.prems" by (simp add: bind_range.simps [of c])
    also have "\<dots> = Ret (bind_cpus [c + 1..?m] nid (arr[nat c := nid]), bound + 1 + int (length [c + 1..?m]))"
      using "1.IH" [OF True] "1.prems" by (simp only: length_list_update Let_def)
    finally show ?thesis
      unfolding up Let_def using bind_cpus_Cons [OF "1.prems"] by (simp add: algebra_simps)
  next
    case False
    then show ?thesis by (auto simp: bind_range.simps [of c])
  qed
qed

lemma item_cpus_nonneg: "c \<in> set (item_cpus lm it) \<Longrightarrow> 0 \<le> c"
  by (cases it) (auto split: if_splits)

lemma bind_cpus_single:
  "c < length arr \<Longrightarrow> bind_cpus [int c] nid arr = arr[c := nid]"
  by (rule nth_equalityI) (auto simp: bind_cpus_def nth_list_update)

lemma cut_binding:
  "cut_at (CHR '':'') (skip_blanks (print_binding (it, nid))) = Some (print_item it, dec nid)"
  using print_item_facts(4) [of it "CHR '':'' # dec nid"]
  by (simp add: print_binding_def cut_at_append print_item_facts)

lemma numa_token_binding:
  assumes "item_fits it" "nid < 2 ^ 31"
  shows "numa_token ncpu (print_binding (it, nid)) (arr, bound) =
    (let cs = item_cpus (min ncpu (int (length arr))) it in
     Ret (bind_cpus cs (int nid) arr, bound + int (length cs)))"
proof -
  have "atoi (dec nid) = int nid"
    using atoi_dec [OF assms(2), of "[]"] by (simp add: no_digit_def)
  then show ?thesis using assms(1)
    by (cases it) (auto simp: numa_token_def cut_binding sscanf_one_dec sscanf_range_dec
        bind_range_eq bind_cpus_single Let_def)
qed

lemma numa_tokens_bindings:
  "\<forall>(it, nid) \<in> set bs. item_fits it \<and> nid < 2 ^ 31 \<Longrightarrow>
   numa_tokens ncpu (map print_binding bs) (arr, bound) =
     (let lm = min ncpu (int (length arr)) in
      Ret (foldl (\<lambda>a (it, nid). bind_cpus (item_cpus lm it) (int nid) a) arr bs,
           bound + (\<Sum>(it, nid) \<leftarrow> bs. int (length (item_cpus lm it)))))"
proof (induction bs arbitrary: arr bound)
  case Nil
  then show ?case by simp
next
  case (Cons b bs)
  obtain it nid where b: "b = (it, nid)" by fastforce
  show ?case
    using Cons by (simp add: b numa_token_binding Let_def)
qed

lemma foldl_bind_nth:
  "i < length arr \<Longrightarrow>
   foldl (\<lambda>a (it, nid). bind_cpus (item_cpus lm it) (int nid) a) arr bs ! i =
   foldl (\<lambda>acc (it, nid). if int i \<in> set (item_cpus lm it) then int nid else acc) (arr ! i) bs"
  by (induction bs arbitrary: arr) (auto simp: bind_cpus_def split: prod.split)

lemma length_foldl_bind:
  "length (foldl (\<lambda>a (it, nid). bind_cpus (item_cpus lm it) (int nid) a) arr bs) = length arr"
  by (induction bs arbitrary: arr) (auto split: prod.split)

lemma print_binding_facts:
  "print_binding b \<noteq> []" "CHR '','' \<notin> set (print_binding b)"
  using print_item_facts(1,2) [of "fst b"] by (simp_all add: print_binding_def dec_no_special)

lemma scan_int_binding: "\<exists>v c r. scan_int (print_binding b @ s) = Some (v, c # r)"
proof (cases "fst b")
  case (Cpu n)
  have "no_digit (CHR '':'' # dec (snd b) @ s)" by (simp add: no_digit_def isdigit_def)
  from scan_int_dec [OF this, of n] show ?thesis by (simp add: print_binding_def Cpu)
next
  case (CpuRange m n)
  have "no_digit (CHR ''-'' # dec n @ CHR '':'' # dec (snd b) @ s)"
    by (simp add: no_digit_def isdigit_def)
  from scan_int_dec [OF this, of m] show ?thesis by (simp add: print_binding_def CpuRange)
qed

text \<open>
  C30. For an inline spec of \<open>cpus:node\<close> bindings the table gets, for every CPU, the node of the
  last binding that names it and -1 where none does; the value returned is the number of
  assignments made, so a CPU that two bindings name counts twice.
\<close>

theorem numa_bind_roundtrip:
  assumes "bs \<noteq> []" "\<forall>(it, nid) \<in> set bs. item_fits it \<and> nid < 2 ^ 31"
  shows "harness_parse_numa_bind ncpu topo_file True (Some (print_numa bs)) arr =
    (let lm = min ncpu (int (length arr)) in
     Ret (map (\<lambda>i. node_of lm bs (int i)) [0..<length arr],
          \<Sum>(it, nid) \<leftarrow> bs. int (length (item_cpus lm it))))"
proof -
  let ?lm = "min ncpu (int (length arr))"
  obtain b rest where bs: "bs = b # rest" using assms(1) by (cases bs) auto
  have toks: "strtok_all (CHR '','') (print_numa bs) = map print_binding bs"
    unfolding print_numa_def by (rule strtok_join) (simp add: print_binding_facts)
  have pre: "\<exists>s. print_numa bs = print_binding b @ s"
    by (cases rest) (simp_all add: print_numa_def bs)
  then obtain v c r where scan: "scan_int (print_numa bs) = Some (v, c # r)"
    using scan_int_binding by metis
  obtain d ds where d: "print_item (fst b) = d # ds" "isdigit d" using print_item_first by blast
  then have first: "\<exists>ds. print_numa bs = d # ds" using pre by (auto simp: print_binding_def)
  have "d \<noteq> CHR 0x40" using d(2) by (auto simp: isdigit_def)
  then have "harness_parse_numa_bind ncpu topo_file True (Some (print_numa bs)) arr =
      numa_tokens ncpu (map print_binding bs) (replicate (length arr) (-1), 0)"
    using first scan toks by (auto simp: harness_parse_numa_bind_def Let_def)
  moreover have "foldl (\<lambda>a (it, nid). bind_cpus (item_cpus ?lm it) (int nid) a)
      (replicate (length arr) (-1)) bs = map (\<lambda>i. node_of ?lm bs (int i)) [0..<length arr]"
    by (rule nth_equalityI) (simp_all add: length_foldl_bind foldl_bind_nth node_of_def)
  ultimately show ?thesis by (simp add: numa_tokens_bindings [OF assms(2)] Let_def)
qed

lemma numa_bind_roundtrip_witness:
  "harness_parse_numa_bind 6 (\<lambda>_. None) True
     (Some (print_numa [(CpuRange 0 3, 0), (CpuRange 2 4, 1)])) (replicate 6 0) =
   Ret ([0, 0, 1, 1, 1, -1], 7)"
  using numa_bind_roundtrip [of "[(CpuRange 0 3, 0), (CpuRange 2 4, 1)]" 6 "\<lambda>_. None" "replicate 6 0"]
  by (simp add: Let_def node_of_def upto.simps upt_rec)

lemma strtok_plain: "CHR '','' \<notin> set t \<Longrightarrow> t \<noteq> [] \<Longrightarrow> strtok_all (CHR '','') t = [t]"
  by (rule strtok_last)

lemmas scan_eval = scan_int_def scan_unsigned_def isspace_def isdigit_def digit_val_def
  isblank_def skip_blanks_def

text \<open>
  A range that starts below zero is bound from its start: the spec \<^verbatim>\<open>-1-3:0\<close> writes before
  the table, on every machine with at least one CPU, although the single-number form of the
  same binding checks \<open>start >= 0\<close> and binds nothing.
\<close>

theorem numa_bind_negative:
  assumes "0 < ncpu" "arr \<noteq> []"
  shows "harness_parse_numa_bind ncpu topo_file True (Some ''-1-3:0'') arr = Undef OobWrite \<and>
    harness_parse_numa_bind ncpu topo_file True (Some ''-1:0'') arr = Ret (replicate (length arr) (-1), 0)"
proof -
  have r: "sscanf_range ''-1-3'' = Range (-1) 3" "sscanf_range ''-1'' = One (-1)"
    "cut_at (CHR '':'') ''-1-3:0'' = Some (''-1-3'', ''0'')"
    "cut_at (CHR '':'') ''-1:0'' = Some (''-1'', ''0'')"
    by (simp_all add: sscanf_range_def scan_eval c_int_id cut_at_def)
  have s: "scan_int ''-1-3:0'' = Some (-1, ''-3:0'')" "scan_int ''-1:0'' = Some (-1, '':0'')"
    by (simp_all add: scan_eval)
  have "0 < length arr" using assms(2) by simp
  then show ?thesis
    using assms(1)
    by (simp add: harness_parse_numa_bind_def s Let_def strtok_plain numa_token_def r
        skip_blanks_def isblank_def bind_range.simps [of "-1"])
qed

lemma numa_bind_negative_witness:
  "harness_parse_numa_bind 2 (\<lambda>_. None) True (Some ''-1-3:0'') [0, 0] = Undef OobWrite"
  using numa_bind_negative [of 2 "[0, 0]" "\<lambda>_. None"] by simp

end
