(* ===== verification/Placement.thy ===== *)
theory Placement
  imports NumaTopo
begin

text \<open>
  \<^verbatim>\<open>src/core/harness.c\<close>, where the instances run: \<open>harness_get_physical_cores\<close> numbers the
  physical cores from the thread-sibling files, and each forked child picks its CPU.
\<close>

unbundle bit_operations_syntax

subsection \<open>harness\_get\_physical\_cores\<close>

text \<open>One sibling \<open>s\<close> of \<open>cpu\<close>: \<open>if (s != cpu) { phys_map[s] = phys_id; seen[s] = true; }\<close>.\<close>

definition mark_sibling ::
    "int \<Rightarrow> int \<Rightarrow> int \<Rightarrow> int list \<times> bool list \<Rightarrow> (int list \<times> bool list) outcome" where
  "mark_sibling cpu phys_id s st =
     (if s = cpu then Ret st
      else if s < 0 then Undef OobWrite
      else case st of (phys_map, seen) \<Rightarrow> Ret (phys_map[nat s := phys_id], seen[nat s := True]))"

function mark_range ::
    "int \<Rightarrow> int \<Rightarrow> int \<Rightarrow> int \<Rightarrow> int \<Rightarrow> int list \<times> bool list \<Rightarrow> (int list \<times> bool list) outcome" where
  "mark_range s e ncpu cpu phys_id st =
     (if s \<le> e \<and> s < ncpu
      then out_bind (mark_sibling cpu phys_id s st) (mark_range (s + 1) e ncpu cpu phys_id)
      else Ret st)"
  by pat_completeness auto
termination
  by (relation "measure (\<lambda>(s, e, ncpu, cpu, phys_id, st). nat (ncpu - s))") auto

declare mark_range.simps [simp del]

fun sibling_tokens ::
    "int \<Rightarrow> int \<Rightarrow> int \<Rightarrow> string list \<Rightarrow> int list \<times> bool list \<Rightarrow> (int list \<times> bool list) outcome" where
  "sibling_tokens ncpu cpu phys_id [] st = Ret st"
| "sibling_tokens ncpu cpu phys_id (tok # toks) st =
     out_bind
       (case sscanf_range tok of
          Range start e \<Rightarrow> mark_range start e ncpu cpu phys_id st
        | One start \<Rightarrow> if start < ncpu then mark_sibling cpu phys_id start st else Ret st
        | NoNumber \<Rightarrow> Ret st)
       (sibling_tokens ncpu cpu phys_id toks)"

text \<open>\<open>siblings c\<close> is the text of \<^verbatim>\<open>cpuC/topology/thread_siblings_list\<close>, \<open>None\<close> when it
  cannot be opened; only its first line is read.\<close>

definition mark_siblings ::
    "int \<Rightarrow> (nat \<Rightarrow> string option) \<Rightarrow> nat \<Rightarrow> int \<Rightarrow> int list \<times> bool list \<Rightarrow> (int list \<times> bool list) outcome" where
  "mark_siblings ncpu siblings cpu phys_id st =
     (case siblings cpu of
        None \<Rightarrow> Ret st
      | Some text \<Rightarrow>
          (case fgets_all 256 text of
             [] \<Rightarrow> Ret st
           | line # _ \<Rightarrow> sibling_tokens ncpu (int cpu) phys_id (strtok_all (CHR '','') line) st))"

fun phys_loop ::
    "int \<Rightarrow> (nat \<Rightarrow> string option) \<Rightarrow> nat list \<Rightarrow> int \<Rightarrow> int list \<times> bool list
     \<Rightarrow> (int \<times> int list \<times> bool list) outcome" where
  "phys_loop ncpu siblings [] phys_id st = Ret (phys_id, st)"
| "phys_loop ncpu siblings (cpu # cpus) phys_id st =
     (case st of (phys_map, seen) \<Rightarrow>
        if seen ! cpu then phys_loop ncpu siblings cpus phys_id st
        else out_bind
          (mark_siblings ncpu siblings cpu phys_id (phys_map[cpu := phys_id], seen[cpu := True]))
          (phys_loop ncpu siblings cpus (phys_id + 1)))"

text \<open>The core number of every CPU and the number of cores; \<open>None\<close> for the \<^verbatim>\<open>NULL\<close> returns.\<close>

definition harness_get_physical_cores ::
    "int \<Rightarrow> (nat \<Rightarrow> string option) \<Rightarrow> bool \<Rightarrow> (int list \<times> int) option outcome" where
  "harness_get_physical_cores ncpu siblings mem_ok =
     (if ncpu \<le> 0 \<or> \<not> mem_ok then Ret None
      else out_bind
        (phys_loop ncpu siblings [0..<nat ncpu] 0 (replicate (nat ncpu) 0, replicate (nat ncpu) False))
        (\<lambda>(num_physical, phys_map, seen). Ret (Some (phys_map, num_physical))))"

subsection \<open>The CPU a child pins itself to\<close>

definition child_pin_cpu ::
    "int \<Rightarrow> nat \<Rightarrow> int list option \<times> int \<Rightarrow> (int list \<times> int) option \<Rightarrow> int" where
  "child_pin_cpu ncpu i manual phys =
     (if fst manual \<noteq> None \<and> snd manual > 0 then the (fst manual) ! (i mod nat (snd manual))
      else case phys of
          None \<Rightarrow> int i
        | Some (phys_map, num_phys) \<Rightarrow>
            if num_phys > 0 then
              (case find (\<lambda>c. phys_map ! c = int i mod num_phys) [0..<nat ncpu] of
                 Some c \<Rightarrow> int c
               | None \<Rightarrow> int i)
            else int i)"

lemma nth_list_update': "j < length xs \<Longrightarrow> xs[i := x] ! j = (if i = j then x else xs ! j)"
  by (simp add: nth_list_update)

subsection \<open>Sibling lists that describe a partition\<close>

text \<open>\<open>cls c\<close> is the core of CPU \<open>c\<close>: the sibling file of every CPU prints exactly the CPUs of
  its core.\<close>

definition topology_ok :: "nat \<Rightarrow> (nat \<Rightarrow> string option) \<Rightarrow> (nat \<Rightarrow> nat) \<Rightarrow> bool" where
  "topology_ok n siblings cls \<longleftrightarrow>
     (\<forall>c < n. \<exists>items. siblings c = Some (print_spec items @ [CHR 0x0A]) \<and> items \<noteq> [] \<and>
        (\<forall>it \<in> set items. item_fits it) \<and> length (print_spec items) < 255 \<and>
        set (concat (map (item_cpus (int n)) items)) = int ` {d. d < n \<and> cls d = cls c})"

definition marked :: "nat \<Rightarrow> int \<Rightarrow> int list \<Rightarrow> int list \<times> bool list \<Rightarrow> int list \<times> bool list" where
  "marked cpu phys_id cs st =
     (map (\<lambda>d. if int d \<in> set cs \<and> d \<noteq> cpu then phys_id else fst st ! d) [0..<length (fst st)],
      map (\<lambda>d. (int d \<in> set cs \<and> d \<noteq> cpu) \<or> snd st ! d) [0..<length (snd st)])"

lemma marked_Nil [simp]: "marked cpu phys_id [] st = st"
  by (simp add: marked_def map_nth)

lemma length_marked [simp]:
  "length (fst (marked cpu phys_id cs st)) = length (fst st)"
  "length (snd (marked cpu phys_id cs st)) = length (snd st)"
  by (simp_all add: marked_def)

lemma marked_append:
  "marked cpu phys_id ds (marked cpu phys_id cs st) = marked cpu phys_id (cs @ ds) st"
  by (auto simp: marked_def)

lemma mark_sibling_eq:
  "0 \<le> s \<Longrightarrow> mark_sibling (int cpu) phys_id s st = Ret (marked cpu phys_id [s] st)"
proof -
  assume s: "0 \<le> s"
  obtain p q where st: "st = (p, q)" by fastforce
  show ?thesis
  proof (cases "s = int cpu")
    case True
    have "marked cpu phys_id [s] st = st"
      using True by (auto simp: marked_def st intro!: nth_equalityI)
    then show ?thesis using True by (simp add: mark_sibling_def)
  next
    case False
    then have "nat s \<noteq> cpu" using s by auto
    then have "marked cpu phys_id [s] st = (p[nat s := phys_id], q[nat s := True])"
      using s by (intro prod_eqI nth_equalityI) (auto simp: marked_def st nth_list_update')
    with False s show ?thesis by (simp add: mark_sibling_def st)
  qed
qed

lemma mark_range_eq:
  "0 \<le> s \<Longrightarrow> mark_range s e ncpu (int cpu) phys_id st = Ret (marked cpu phys_id [s..min e (ncpu - 1)] st)"
proof (induction s e ncpu "int cpu" phys_id st rule: mark_range.induct)
  case (1 s e ncpu phys_id st)
  show ?case
  proof (cases "s \<le> e \<and> s < ncpu")
    case True
    have "[s..min e (ncpu - 1)] = s # [s + 1..min e (ncpu - 1)]" using True by (simp add: upto_rec1)
    then show ?thesis
      using True "1" marked_append [of cpu phys_id "[s + 1..min e (ncpu - 1)]" "[s]" st]
      by (simp add: mark_range.simps [of s] mark_sibling_eq)
  next
    case False
    then show ?thesis by (auto simp: mark_range.simps [of s])
  qed
qed

text \<open>The last token of the line carries the newline, which the scanner leaves alone.\<close>

lemma sscanf_item_suffix:
  assumes "item_fits it" "s \<in> {[], [CHR 0x0A]}"
  shows "sscanf_range (print_item it @ s) = sscanf_range (print_item it)"
proof -
  have nd: "no_digit s" using assms(2) by (auto simp: no_digit_def isdigit_def)
  show ?thesis
  proof (cases it)
    case (Cpu n)
    show ?thesis
      using assms scan_int_dec [OF nd, of n] sscanf_one_dec [of n]
      by (auto simp: Cpu sscanf_range_def c_int_id)
  next
    case (CpuRange a b)
    have "scan_int (dec a @ CHR ''-'' # dec b @ s) = Some (int a, CHR ''-'' # dec b @ s)"
      by (rule scan_int_dec) (simp add: no_digit_def isdigit_def)
    then show ?thesis
      using assms scan_int_dec [OF nd, of b] sscanf_range_dec [of a b]
      by (simp add: CpuRange sscanf_range_def c_int_id)
  qed
qed

lemma item_token_eq:
  assumes "item_fits it" "s \<in> {[], [CHR 0x0A]}"
  shows "(case sscanf_range (print_item it @ s) of
          Range start e \<Rightarrow> mark_range start e ncpu (int cpu) phys_id st
        | One start \<Rightarrow> if start < ncpu then mark_sibling (int cpu) phys_id start st else Ret st
        | NoNumber \<Rightarrow> Ret st) = Ret (marked cpu phys_id (item_cpus ncpu it) st)"
  unfolding sscanf_item_suffix [OF assms]
  using assms by (cases it) (simp_all add: sscanf_one_dec sscanf_range_dec
      mark_range_eq mark_sibling_eq)

lemma join_with_suffix:
  "ts \<noteq> [] \<Longrightarrow> join_with d ts @ s = join_with d (butlast ts @ [last ts @ s])"
proof (induction d ts rule: join_with.induct)
  case (3 d t t' ts)
  then show ?case by (cases ts) auto
qed auto

lemma sibling_tokens_items:
  assumes "\<forall>it \<in> set items. item_fits it" "item_fits it'"
  shows "sibling_tokens ncpu (int cpu) phys_id (map print_item items @ [print_item it' @ [CHR 0x0A]]) st =
    Ret (marked cpu phys_id (concat (map (item_cpus ncpu) (items @ [it']))) st)"
  using assms
proof (induction items arbitrary: st)
  case Nil
  then show ?case using item_token_eq [of it' "[CHR 0x0A]"] by simp
next
  case (Cons it items)
  then show ?case
    using item_token_eq [of it "[]"]
    by (simp add: marked_append)
qed

lemma mark_siblings_ok:
  assumes "siblings cpu = Some (print_spec items @ [CHR 0x0A])" "items \<noteq> []"
    "\<forall>it \<in> set items. item_fits it" "length (print_spec items) < 255"
  shows "mark_siblings ncpu siblings cpu phys_id st =
    Ret (marked cpu phys_id (concat (map (item_cpus ncpu) items)) st)"
proof -
  let ?ts = "map print_item items"
  have ne: "?ts \<noteq> []" using assms(2) by simp
  obtain its it' where split: "items = its @ [it']" using assms(2) by (metis rev_exhaust)
  have no_nl: "CHR 0x0A \<notin> set (print_item it)" for it
    using dec_digits by (cases it) (fastforce simp: isdigit_def)+
  have nl: "CHR 0x0A \<notin> set (join_with (CHR '','') (map print_item xs))" for xs
  proof (induction xs)
    case (Cons x xs)
    then show ?case using no_nl [of x] by (cases xs) auto
  qed simp
  have line: "fgets_all 256 (print_spec items @ [CHR 0x0A]) = [print_spec items @ [CHR 0x0A]]"
    using fgets_line [of "print_spec items" 256 "[]"] nl [of items] assms(4)
    by (simp add: print_spec_def fgets_all_def)
  have "print_spec items @ [CHR 0x0A] =
      join_with (CHR '','') (map print_item its @ [print_item it' @ [CHR 0x0A]])"
    using join_with_suffix [OF ne, of "CHR '',''" "[CHR 0x0A]"]
    by (simp add: print_spec_def split butlast_append)
  moreover have "strtok_all (CHR '','') (join_with (CHR '','') (map print_item its @ [print_item it' @ [CHR 0x0A]]))
      = map print_item its @ [print_item it' @ [CHR 0x0A]]"
    by (rule strtok_join) (use print_item_facts(1,2) in auto)
  ultimately show ?thesis
    using assms(1,3) line sibling_tokens_items [of its it' ncpu cpu phys_id st]
    by (simp add: mark_siblings_def split)
qed

subsection \<open>The numbering is the partition\<close>

text \<open>After the CPUs below \<open>k\<close> have been visited: a CPU is marked iff its core has a CPU below
  \<open>k\<close>, equal numbers mean equal cores, and the numbers in use are 0 to \<open>phys_id - 1\<close>.\<close>

definition phys_invar :: "nat \<Rightarrow> (nat \<Rightarrow> nat) \<Rightarrow> nat \<Rightarrow> int \<Rightarrow> int list \<times> bool list \<Rightarrow> bool" where
  "phys_invar n cls k phys_id st \<longleftrightarrow>
     length (fst st) = n \<and> length (snd st) = n \<and> 0 \<le> phys_id \<and>
     (\<forall>d < n. snd st ! d \<longleftrightarrow> (\<exists>e < k. cls e = cls d)) \<and>
     (\<forall>d < n. \<forall>e < n. snd st ! d \<longrightarrow> snd st ! e \<longrightarrow> (fst st ! d = fst st ! e \<longleftrightarrow> cls d = cls e)) \<and>
     (\<lambda>d. fst st ! d) ` {d. d < n \<and> snd st ! d} = {0..<phys_id}"

lemma phys_invar_seen:
  assumes "phys_invar n cls k phys_id st" "k < n" "snd st ! k"
  shows "phys_invar n cls (Suc k) phys_id st"
proof -
  from assms obtain e where "e < k" "cls e = cls k" by (auto simp: phys_invar_def)
  then have "(\<exists>e < Suc k. cls e = cls d) \<longleftrightarrow> (\<exists>e < k. cls e = cls d)" for d
    by (metis less_Suc_eq)
  with assms(1) show ?thesis by (simp add: phys_invar_def)
qed

lemma phys_invar_unseen:
  assumes inv: "phys_invar n cls k phys_id (p, q)" and k: "k < n" and un: "\<not> q ! k"
    and cs: "set cs = int ` {d. d < n \<and> cls d = cls k}"
  shows "phys_invar n cls (Suc k) (phys_id + 1) (marked k phys_id cs (p[k := phys_id], q[k := True]))"
proof -
  let ?st = "marked k phys_id cs (p[k := phys_id], q[k := True])"
  have len: "length p = n" "length q = n" and pid: "0 \<le> phys_id"
    and seen: "\<And>d. d < n \<Longrightarrow> q ! d \<longleftrightarrow> (\<exists>e < k. cls e = cls d)"
    and eq: "\<And>d e. d < n \<Longrightarrow> e < n \<Longrightarrow> q ! d \<Longrightarrow> q ! e \<Longrightarrow> p ! d = p ! e \<longleftrightarrow> cls d = cls e"
    and rng: "(\<lambda>d. p ! d) ` {d. d < n \<and> q ! d} = {0..<phys_id}"
    using inv by (auto simp: phys_invar_def)
  have new: "fst ?st ! d = (if cls d = cls k then phys_id else p ! d)"
    "snd ?st ! d \<longleftrightarrow> cls d = cls k \<or> q ! d" if "d < n" for d
    using that k len by (auto simp: marked_def cs nth_list_update')
  have unk: "\<not> q ! d" if "d < n" "cls d = cls k" for d
    using that un seen k by metis
  have old: "0 \<le> p ! d \<and> p ! d < phys_id" if "d < n" "q ! d" for d
    using that rng by (metis (no_types, lifting) atLeastLessThan_iff imageI mem_Collect_eq)
  have "(\<lambda>d. fst ?st ! d) ` {d. d < n \<and> snd ?st ! d} =
      (\<lambda>d. fst ?st ! d) ` {d. d < n \<and> cls d = cls k} \<union> (\<lambda>d. fst ?st ! d) ` {d. d < n \<and> q ! d}"
    using new(2) by auto
  also have "(\<lambda>d. fst ?st ! d) ` {d. d < n \<and> cls d = cls k} = {phys_id}"
    using new(1) k by auto
  also have "(\<lambda>d. fst ?st ! d) ` {d. d < n \<and> q ! d} = {0..<phys_id}"
    using new(1) unk rng by (metis (no_types, lifting) image_cong mem_Collect_eq)
  finally have "(\<lambda>d. fst ?st ! d) ` {d. d < n \<and> snd ?st ! d} = {0..<phys_id + 1}"
    using pid by auto
  moreover have "snd ?st ! d \<longleftrightarrow> (\<exists>e < Suc k. cls e = cls d)" if "d < n" for d
    using new(2) [OF that] seen [OF that] by (metis less_Suc_eq)
  moreover have "fst ?st ! d = fst ?st ! e \<longleftrightarrow> cls d = cls e"
    if "d < n" "e < n" "snd ?st ! d" "snd ?st ! e" for d e
    using that new eq [of d e] old [of d] old [of e] by (auto split: if_splits)
  ultimately show ?thesis using len pid by (simp add: phys_invar_def)
qed

lemma phys_loop_invar:
  assumes "topology_ok n siblings cls" "phys_invar n cls k phys_id st" "k \<le> n"
  shows "\<exists>num st'. phys_loop (int n) siblings [k..<n] phys_id st = Ret (num, st') \<and>
    phys_invar n cls n num st'"
  using assms(2,3)
proof (induction "n - k" arbitrary: k phys_id st)
  case 0
  then show ?case by (cases st) auto
next
  case (Suc m)
  then have k: "k < n" by simp
  obtain p q where st: "st = (p, q)" by fastforce
  have up: "[k..<n] = k # [Suc k..<n]" using k by (rule upt_conv_Cons)
  show ?case
  proof (cases "q ! k")
    case True
    then have "phys_invar n cls (Suc k) phys_id st"
      using Suc.prems k st by (simp add: phys_invar_seen)
    then show ?thesis using Suc.hyps k True st by (simp add: up)
  next
    case False
    obtain items where it: "siblings k = Some (print_spec items @ [CHR 0x0A])" "items \<noteq> []"
      "\<forall>it \<in> set items. item_fits it" "length (print_spec items) < 255"
      "set (concat (map (item_cpus (int n)) items)) = int ` {d. d < n \<and> cls d = cls k}"
      using assms(1) k unfolding topology_ok_def by blast
    let ?st = "marked k phys_id (concat (map (item_cpus (int n)) items)) (p[k := phys_id], q[k := True])"
    have "phys_invar n cls (Suc k) (phys_id + 1) ?st"
      using Suc.prems st by (intro phys_invar_unseen [OF _ k False it(5)]) simp
    then show ?thesis
      using Suc.hyps(1) [of "Suc k" "phys_id + 1" ?st] Suc.hyps(2) k False
        mark_siblings_ok [of siblings k items, OF it(1-4)]
      by (simp add: up st)
  qed
qed

lemma physical_cores_ok:
  assumes "topology_ok n siblings cls" "0 < n"
  obtains phys num where
    "harness_get_physical_cores (int n) siblings True = Ret (Some (phys, num))"
    "length phys = n" "0 < num" "set phys = {0..<num}"
    "\<And>c d. c < n \<Longrightarrow> d < n \<Longrightarrow> phys ! c = phys ! d \<longleftrightarrow> cls c = cls d"
proof -
  have "phys_invar n cls 0 0 (replicate n 0, replicate n False)" by (simp add: phys_invar_def)
  then obtain num st' where run: "phys_loop (int n) siblings [0..<n] 0 (replicate n 0, replicate n False)
      = Ret (num, st')" and inv: "phys_invar n cls n num st'"
    using phys_loop_invar [OF assms(1)] by blast
  have seen: "snd st' ! d" if "d < n" for d using inv that by (auto simp: phys_invar_def)
  have len: "length (fst st') = n" using inv by (simp add: phys_invar_def)
  have "set (fst st') = (\<lambda>d. fst st' ! d) ` {d. d < n \<and> snd st' ! d}"
    using seen len by (auto simp: set_conv_nth)
  then have rng: "set (fst st') = {0..<num}" using inv by (simp add: phys_invar_def)
  moreover have "0 < num"
  proof -
    have "set (fst st') \<noteq> {}" using len assms(2) by auto
    then show ?thesis by (simp add: rng)
  qed
  moreover have "harness_get_physical_cores (int n) siblings True = Ret (Some (fst st', num))"
    using run assms(2) by (simp add: harness_get_physical_cores_def split: prod.split)
  moreover have "fst st' ! c = fst st' ! d \<longleftrightarrow> cls c = cls d" if "c < n" "d < n" for c d
    using inv that seen by (simp add: phys_invar_def)
  ultimately show ?thesis using that len by blast
qed

text \<open>
  C26. When the sibling files describe a partition of the CPUs into cores, two CPUs get the same
  core number exactly when they share a core and the numbers in use are 0 to \<open>num_physical\<close> - 1;
  so the first \<open>num_physical\<close> instances are pinned to CPUs of pairwise different cores.
\<close>

theorem physical_cores_spread:
  assumes "topology_ok n siblings cls" "0 < n"
  shows "\<exists>phys num. harness_get_physical_cores (int n) siblings True = Ret (Some (phys, num)) \<and>
    (\<forall>c < n. \<forall>d < n. phys ! c = phys ! d \<longleftrightarrow> cls c = cls d) \<and> set phys = {0..<num} \<and>
    (\<forall>i < nat num. \<forall>j < nat num. i \<noteq> j \<longrightarrow>
       cls (nat (child_pin_cpu (int n) i (None, 0) (Some (phys, num)))) \<noteq>
       cls (nat (child_pin_cpu (int n) j (None, 0) (Some (phys, num)))))"
proof (rule physical_cores_ok [OF assms])
  fix phys num
  assume p: "harness_get_physical_cores (int n) siblings True = Ret (Some (phys, num))"
    "length phys = n" "0 < num" "set phys = {0..<num}"
    and eq: "\<And>c d. c < n \<Longrightarrow> d < n \<Longrightarrow> phys ! c = phys ! d \<longleftrightarrow> cls c = cls d"
  have pin: "\<exists>c < n. child_pin_cpu (int n) i (None, 0) (Some (phys, num)) = int c \<and> phys ! c = int i"
    if "i < nat num" for i
  proof -
    have m: "int i mod num = int i" using that by simp
    have "int i \<in> set phys" using that p(4) by simp
    then obtain c where "c < n" "phys ! c = int i" using p(2) by (metis in_set_conv_nth)
    then have "find (\<lambda>c. phys ! c = int i) [0..<n] \<noteq> None" by (auto simp: find_None_iff)
    then obtain c' where f: "find (\<lambda>c. phys ! c = int i) [0..<n] = Some c'" by blast
    then have "c' < n \<and> phys ! c' = int i" by (auto simp: find_Some_iff)
    then show ?thesis using f p(3) m by (auto simp: child_pin_cpu_def)
  qed
  have "cls (nat (child_pin_cpu (int n) i (None, 0) (Some (phys, num)))) \<noteq>
      cls (nat (child_pin_cpu (int n) j (None, 0) (Some (phys, num))))"
    if "i < nat num" "j < nat num" "i \<noteq> j" for i j
  proof -
    note ij = that
    obtain c where c: "c < n" "child_pin_cpu (int n) i (None, 0) (Some (phys, num)) = int c" "phys ! c = int i"
      using pin [OF ij(1)] by blast
    obtain d where d: "d < n" "child_pin_cpu (int n) j (None, 0) (Some (phys, num)) = int d" "phys ! d = int j"
      using pin [OF ij(2)] by blast
    show ?thesis using eq [OF c(1) d(1)] c d ij(3) by simp
  qed
  then show ?thesis
    by (intro exI [of _ phys] exI [of _ num] conjI allI impI) (simp_all add: p eq)
qed

lemma physical_cores_spread_witness:
  "topology_ok 4 (\<lambda>c. Some (if c < 2 then ''0-1'' @ [CHR 0x0A] else ''2-3'' @ [CHR 0x0A])) (\<lambda>c. c div 2) \<and>
   (\<exists>phys num. harness_get_physical_cores 4
      (\<lambda>c. Some (if c < 2 then ''0-1'' @ [CHR 0x0A] else ''2-3'' @ [CHR 0x0A])) True = Ret (Some (phys, num)) \<and>
      set phys = {0..<num})"
proof -
  have d: "dec 0 = ''0''" "dec (Suc 0) = ''1''" "dec 2 = ''2''" "dec 3 = ''3''"
    by code_simp+
  have t: "topology_ok 4 (\<lambda>c. Some (if c < 2 then ''0-1'' @ [CHR 0x0A] else ''2-3'' @ [CHR 0x0A])) (\<lambda>c. c div 2)"
    unfolding topology_ok_def
  proof (intro allI impI)
    fix c :: nat assume c: "c < 4"
    let ?it = "if c < 2 then CpuRange 0 1 else CpuRange 2 3"
    have cl: "{d. d < 4 \<and> d div 2 = c div 2} = (if c < 2 then {0, 1} else {2, 3 :: nat})"
      using c by (auto; presburger)
    show "\<exists>items. Some (if c < 2 then ''0-1'' @ [CHR 0x0A] else ''2-3'' @ [CHR 0x0A])
        = Some (print_spec items @ [CHR 0x0A]) \<and> items \<noteq> [] \<and> (\<forall>it \<in> set items. item_fits it) \<and>
        length (print_spec items) < 255 \<and>
        set (concat (map (item_cpus (int 4)) items)) = int ` {d. d < 4 \<and> d div 2 = c div 2}"
      by (rule exI [of _ "[?it]"], unfold cl) (simp add: print_spec_def d upto.simps)
  qed
  then show ?thesis using physical_cores_spread [OF t] by auto
qed

end
