(* ===== verification/MemPolicy.thy ===== *)
theory MemPolicy
  imports Placement
begin

text \<open>
  \<^verbatim>\<open>src/core/harness.c\<close>: the memory policy of a forked child (the arguments it passes to
  \<^verbatim>\<open>set_mempolicy\<close>), and the rebuild of \<^verbatim>\<open>sysinfo->numa_nodes\<close> from the CPU-to-node table.
\<close>

unbundle bit_operations_syntax

subsection \<open>The policy of a child\<close>

datatype mempolicy = MPOL_DEFAULT | MPOL_INTERLEAVE | MPOL_BIND

text \<open>\<open>1UL << n\<close> on a 64-bit \<^verbatim>\<open>unsigned long\<close>.\<close>

definition shl1 :: "int \<Rightarrow> 64 word outcome" where
  "shl1 n = (if 0 \<le> n \<and> n < 64 then Ret (push_bit (nat n) 1) else Undef BadShift)"

fun node_mask_loop :: "int list \<Rightarrow> 64 word \<Rightarrow> int \<Rightarrow> (64 word \<times> int) outcome" where
  "node_mask_loop [] nodemask maxnode = Ret (nodemask, maxnode)"
| "node_mask_loop (nn # nns) nodemask maxnode =
     (if nn \<ge> 0 then
        out_bind (shl1 nn) (\<lambda>b. node_mask_loop nns (nodemask OR b)
          (if nn + 1 > maxnode then nn + 1 else maxnode))
      else node_mask_loop nns nodemask maxnode)"

text \<open>The parsed \<^verbatim>\<open>membind\<close> option: \<open>(s_membind_node, s_membind_interleave)\<close>.\<close>

definition parse_membind :: "string option \<Rightarrow> int \<times> bool" where
  "parse_membind spec_opt =
     (case spec_opt of
        None \<Rightarrow> (-1, False)
      | Some spec \<Rightarrow>
          if spec = [] then (-1, False)
          else if spec = ''local'' then (-1, False)
          else if spec = ''interleave'' then (-1, True)
          else (atoi spec, False))"

text \<open>\<open>c2n\<close> is \<open>s_cpu_to_numa\<close>, a table of \<open>ncpu\<close> entries. The result is the mode, the mask and
  \<open>maxnode\<close>; the call is made when the mode is not the default and \<open>maxnode > 0\<close>.\<close>

definition child_mempolicy ::
    "int list \<Rightarrow> int \<times> bool \<Rightarrow> int \<Rightarrow> (mempolicy \<times> 64 word \<times> int) outcome" where
  "child_mempolicy c2n membind pin_cpu =
     (if snd membind then
        out_bind (node_mask_loop c2n 0 0)
          (\<lambda>(nodemask, maxnode).
             if nodemask = 0 then Ret (MPOL_INTERLEAVE, -1, 64)
             else Ret (MPOL_INTERLEAVE, nodemask, maxnode))
      else if fst membind \<ge> 0 then
        out_bind (shl1 (fst membind)) (\<lambda>b. Ret (MPOL_BIND, b, fst membind + 1))
      else if \<not> (0 \<le> pin_cpu \<and> pin_cpu < int (length c2n)) then Undef OobRead
      else if c2n ! nat pin_cpu \<ge> 0 then
        out_bind (shl1 (c2n ! nat pin_cpu)) (\<lambda>b. Ret (MPOL_BIND, b, c2n ! nat pin_cpu + 1))
      else Ret (MPOL_DEFAULT, 0, 0))"

text \<open>The node numbers a mask selects.\<close>

definition mask_nodes :: "64 word \<Rightarrow> nat set" where
  "mask_nodes m = {k. k < 64 \<and> bit m k}"

lemma mask_nodes_shl1: "0 \<le> n \<Longrightarrow> n < 64 \<Longrightarrow> shl1 n = Ret m \<Longrightarrow> mask_nodes m = {nat n}"
  by (auto simp: shl1_def mask_nodes_def bit_simps)

lemma mask_nodes_or: "mask_nodes (a OR b) = mask_nodes a \<union> mask_nodes b"
  by (auto simp: mask_nodes_def bit_simps)

lemma node_mask_loop_ok:
  "\<forall>n \<in> set nns. n < 64 \<Longrightarrow>
   \<exists>m mx. node_mask_loop nns m0 maxnode = Ret (m, mx) \<and>
     mask_nodes m = mask_nodes m0 \<union> nat ` {n \<in> set nns. 0 \<le> n} \<and>
     mx = fold max (map (\<lambda>n. n + 1) (filter (\<lambda>n. 0 \<le> n) nns)) maxnode"
proof (induction nns arbitrary: m0 maxnode)
  case Nil
  then show ?case by simp
next
  case (Cons n nns)
  show ?case
  proof (cases "0 \<le> n")
    case True
    then obtain b where b: "shl1 n = Ret b" "mask_nodes b = {nat n}"
      using Cons.prems mask_nodes_shl1 [of n] by (auto simp: shl1_def)
    have "(if n + 1 > maxnode then n + 1 else maxnode) = max (n + 1) maxnode" by (simp add: max_def)
    then show ?thesis
      using Cons.IH [of "m0 OR b" "max (n + 1) maxnode"] Cons.prems True b
      by (auto simp: mask_nodes_or)
  next
    case False
    then have "{k \<in> set (n # nns). 0 \<le> k} = {k \<in> set nns. 0 \<le> k}" by auto
    then show ?thesis
      using Cons.IH [of m0 maxnode] Cons.prems False by (simp del: set_simps) simp
  qed
qed

subsection \<open>The node list rebuilt from a topology override\<close>

record numa_node_t =
  nd_id :: int
  nd_cpu_count :: int
  nd_cpu_list :: "int list"
  nd_memory_kb :: nat
  nd_distance :: "int list"

text \<open>Node \<open>n\<close> of the new array; \<open>distance[n]\<close> of the 16 entries is read before the fallback.\<close>

definition rebuild_node :: "int list \<Rightarrow> numa_node_t list \<Rightarrow> nat \<Rightarrow> numa_node_t outcome" where
  "rebuild_node c2n old_nodes n =
     (let cpus = filter (\<lambda>i. c2n ! i = int n) [0..<length c2n];
          base = \<lparr>nd_id = int n, nd_cpu_count = int (length cpus), nd_cpu_list = map int cpus,
                  nd_memory_kb = 0, nd_distance = replicate 16 0\<rparr>;
          node = (case find (\<lambda>on. nd_id on = int n) old_nodes of
                    None \<Rightarrow> base
                  | Some on \<Rightarrow> base\<lparr>nd_memory_kb := nd_memory_kb on, nd_distance := nd_distance on\<rparr>)
      in if n \<ge> length (nd_distance node) then Undef OobRead
         else if nd_distance node ! n = 0
         then Ret (node\<lparr>nd_distance := map (\<lambda>d. if d = n then 10 else 20) [0..<16]\<rparr>)
         else Ret node)"

fun rebuild_loop :: "int list \<Rightarrow> numa_node_t list \<Rightarrow> nat list \<Rightarrow> numa_node_t list outcome" where
  "rebuild_loop c2n old_nodes [] = Ret []"
| "rebuild_loop c2n old_nodes (n # ns) =
     out_bind (rebuild_node c2n old_nodes n)
       (\<lambda>nd. out_bind (rebuild_loop c2n old_nodes ns) (\<lambda>nds. Ret (nd # nds)))"

text \<open>The override of \<open>harness_run\<close>, with the allocations granted: the node list after it, given
  the detected list. \<open>bound\<close> is the value the parser returned.\<close>

definition numa_override ::
    "int list \<times> int \<Rightarrow> numa_node_t list \<Rightarrow> numa_node_t list outcome" where
  "numa_override parsed old_nodes =
     (case parsed of (c2n, bound) \<Rightarrow>
        if bound > 0 then
          (let max_nid = fold (\<lambda>v m. if v > m then v else m) c2n (-1);
               n_nodes = max_nid + 1
           in rebuild_loop c2n old_nodes [0..<nat n_nodes])
        else Ret old_nodes)"

lemma fold_max_ge:
  fixes xs :: "int list"
  shows "(\<forall>x \<in> set xs. x \<le> fold (\<lambda>v m. if v > m then v else m) xs a) \<and>
    a \<le> fold (\<lambda>v m. if v > m then v else m) xs a \<and>
    (fold (\<lambda>v m. if v > m then v else m) xs a = a \<or> fold (\<lambda>v m. if v > m then v else m) xs a \<in> set xs)"
proof (induction xs arbitrary: a)
  case (Cons x xs)
  show ?case using Cons.IH [of "if x > a then x else a"] by auto
qed simp

lemma rebuild_node_ok:
  assumes "n < 16" "\<forall>on \<in> set old_nodes. length (nd_distance on) = 16"
  shows "\<exists>nd. rebuild_node c2n old_nodes n = Ret nd \<and> nd_id nd = int n \<and>
    nd_cpu_list nd = map int (filter (\<lambda>i. c2n ! i = int n) [0..<length c2n]) \<and>
    nd_cpu_count nd = int (length (nd_cpu_list nd)) \<and> length (nd_distance nd) = 16 \<and>
    nd_distance nd ! n \<noteq> 0"
proof (cases "find (\<lambda>on. nd_id on = int n) old_nodes")
  case None
  with assms show ?thesis by (auto simp: rebuild_node_def Let_def)
next
  case (Some on)
  then have "on \<in> set old_nodes" by (auto simp: find_Some_iff)
  with Some assms show ?thesis by (auto simp: rebuild_node_def Let_def)
qed

lemma rebuild_loop_ok:
  "\<forall>n \<in> set ns. n < 16 \<Longrightarrow> \<forall>on \<in> set old_nodes. length (nd_distance on) = 16 \<Longrightarrow>
   \<exists>nds. rebuild_loop c2n old_nodes ns = Ret nds \<and> map nd_id nds = map int ns \<and>
     map nd_cpu_list nds = map (\<lambda>n. map int (filter (\<lambda>i. c2n ! i = int n) [0..<length c2n])) ns \<and>
     (\<forall>nd \<in> set nds. nd_cpu_count nd = int (length (nd_cpu_list nd)) \<and>
        nd_distance nd ! nat (nd_id nd) \<noteq> 0)"
proof (induction ns)
  case (Cons n ns)
  then obtain nds where "rebuild_loop c2n old_nodes ns = Ret nds" "map nd_id nds = map int ns"
    "map nd_cpu_list nds = map (\<lambda>n. map int (filter (\<lambda>i. c2n ! i = int n) [0..<length c2n])) ns"
    "\<forall>nd \<in> set nds. nd_cpu_count nd = int (length (nd_cpu_list nd)) \<and>
        nd_distance nd ! nat (nd_id nd) \<noteq> 0"
    by auto
  moreover obtain nd where "rebuild_node c2n old_nodes n = Ret nd" "nd_id nd = int n"
    "nd_cpu_list nd = map int (filter (\<lambda>i. c2n ! i = int n) [0..<length c2n])"
    "nd_cpu_count nd = int (length (nd_cpu_list nd))" "nd_distance nd ! n \<noteq> 0"
    using rebuild_node_ok [of n old_nodes c2n] Cons.prems by auto
  ultimately show ?case by auto
qed simp

text \<open>
  C11. A topology override with node numbers 0 to 15 gives a node list with the ids 0, 1, ... in
  order, whose CPU lists are a partition of the bound CPUs: CPU \<open>i\<close> is in the list of node \<open>n\<close>
  exactly when the table maps \<open>i\<close> to \<open>n\<close>, each count is the length of its list and each node has
  a non-zero distance to itself. With a node number of 16 or more the rebuild reads past the
  distance array.
\<close>

theorem numa_override_partition:
  assumes "0 < bound" "\<forall>v \<in> set c2n. v < 16"
    "\<forall>on \<in> set old_nodes. length (nd_distance on) = 16"
  shows "\<exists>nds. numa_override (c2n, bound) old_nodes = Ret nds \<and>
    (\<forall>k < length nds. nd_id (nds ! k) = int k \<and>
       nd_cpu_count (nds ! k) = int (length (nd_cpu_list (nds ! k))) \<and>
       distinct (nd_cpu_list (nds ! k)) \<and> nd_distance (nds ! k) ! k \<noteq> 0 \<and>
       (\<forall>i < length c2n. int i \<in> set (nd_cpu_list (nds ! k)) \<longleftrightarrow> c2n ! i = int k)) \<and>
    (\<forall>i < length c2n. 0 \<le> c2n ! i \<longrightarrow> nat (c2n ! i) < length nds)"
proof -
  define mx where "mx = fold (\<lambda>v m. if v > m then v else m) c2n (-1)"
  have mx: "\<forall>x \<in> set c2n. x \<le> mx" "mx < 16"
    using fold_max_ge [of c2n "-1"] assms(2) by (auto simp: mx_def)
  have n16: "\<forall>n \<in> set [0..<nat (mx + 1)]. n < 16" using mx(2) by auto
  obtain nds where r: "rebuild_loop c2n old_nodes [0..<nat (mx + 1)] = Ret nds"
    and ids: "map nd_id nds = map int [0..<nat (mx + 1)]"
    and lists: "map nd_cpu_list nds =
      map (\<lambda>n. map int (filter (\<lambda>i. c2n ! i = int n) [0..<length c2n])) [0..<nat (mx + 1)]"
    and cnt: "\<forall>nd \<in> set nds. nd_cpu_count nd = int (length (nd_cpu_list nd)) \<and>
        nd_distance nd ! nat (nd_id nd) \<noteq> 0"
    using rebuild_loop_ok [OF n16 assms(3), of c2n] by blast
  have len: "length nds = nat (mx + 1)" using ids by (metis length_map length_upt diff_zero)
  have nth: "nd_id (nds ! k) = int k \<and>
      nd_cpu_list (nds ! k) = map int (filter (\<lambda>i. c2n ! i = int k) [0..<length c2n])"
    if "k < length nds" for k
    using arg_cong [OF ids, of "\<lambda>xs. xs ! k"] arg_cong [OF lists, of "\<lambda>xs. xs ! k"] that len by simp
  have per: "nd_cpu_count (nds ! k) = int (length (nd_cpu_list (nds ! k))) \<and> nd_distance (nds ! k) ! k \<noteq> 0"
    if "k < length nds" for k
    using bspec [OF cnt nth_mem [OF that]] nth [OF that] by simp
  have "nat (c2n ! i) < length nds" if "i < length c2n" "0 \<le> c2n ! i" for i
    using mx(1) that len nth_mem [OF that(1)] by fastforce
  then show ?thesis
    using r assms(1) nth per
    by (intro exI [of _ nds]) (auto simp: numa_override_def mx_def Let_def distinct_map inj_on_def)
qed

lemma numa_override_partition_witness:
  "\<exists>nds. numa_override ([0, 1, 0, -1], 3) [] = Ret nds \<and>
    (\<forall>i < 4. 0 \<le> ([0, 1, 0, -1] :: int list) ! i \<longrightarrow> nat ([0, 1, 0, -1] ! i) < length nds)"
  using numa_override_partition [of 3 "[0, 1, 0, -1]" "[]"] by auto

text \<open>With a node number of 16 or more the rebuild reads past the distance array.\<close>

lemma numa_override_node16:
  "numa_override ([16], 1) [] = Undef OobRead"
  by code_simp

end
