(* ===== verification/Env.thy ===== *)
theory Env
  imports Registry
begin

text \<open>
  The machine the program runs on, as explicit state. What the outside decides (the numbers
  \<^verbatim>\<open>rand\<close> returns, which allocations succeed, the clock readings, the descriptors
  \<^verbatim>\<open>perf_event_open\<close> returns) is a sequence of answers read in order; what the program does to
  it (blocks allocated and freed, descriptors opened and closed, seconds slept) is recorded.
\<close>

record world =
  w_rand :: "nat \<Rightarrow> nat"
  w_rand_pos :: nat
  w_alloc :: "nat \<Rightarrow> bool"
  w_alloc_pos :: nat
  w_live :: int
  w_mono :: "nat \<Rightarrow> int \<times> int"
  w_mono_pos :: nat
  w_cpu :: "nat \<Rightarrow> int \<times> int"
  w_cpu_pos :: nat
  w_perf :: "nat \<Rightarrow> int"
  w_perf_pos :: nat
  w_count :: "nat \<Rightarrow> nat option"
  w_count_pos :: nat
  w_pipe :: "nat \<Rightarrow> (int \<times> int) option"
  w_pipe_pos :: nat
  w_fds :: "int list"
  w_slept :: int

text \<open>\<^verbatim>\<open>rand\<close> is between 0 and \<^verbatim>\<open>RAND_MAX\<close>, 2147483647.\<close>

definition c_rand :: "world \<Rightarrow> nat \<times> world" where
  "c_rand w = (w_rand w (w_rand_pos w) mod 2147483648, w\<lparr>w_rand_pos := Suc (w_rand_pos w)\<rparr>)"

text \<open>\<^verbatim>\<open>malloc\<close>/\<^verbatim>\<open>calloc\<close>: whether the pointer is non-null. \<^verbatim>\<open>free\<close> of a null pointer does nothing.\<close>

definition c_malloc :: "world \<Rightarrow> bool \<times> world" where
  "c_malloc w =
     (let ok = w_alloc w (w_alloc_pos w)
      in (ok, w\<lparr>w_alloc_pos := Suc (w_alloc_pos w),
                w_live := (if ok then w_live w + 1 else w_live w)\<rparr>))"

definition c_free :: "bool \<Rightarrow> world \<Rightarrow> world" where
  "c_free p w = (if p then w\<lparr>w_live := w_live w - 1\<rparr> else w)"

text \<open>\<^verbatim>\<open>clock_gettime\<close> on the monotonic and on the thread's CPU-time clock.\<close>

definition clock_monotonic :: "world \<Rightarrow> (int \<times> int) \<times> world" where
  "clock_monotonic w = (w_mono w (w_mono_pos w), w\<lparr>w_mono_pos := Suc (w_mono_pos w)\<rparr>)"

definition clock_thread_cpu :: "world \<Rightarrow> (int \<times> int) \<times> world" where
  "clock_thread_cpu w = (w_cpu w (w_cpu_pos w), w\<lparr>w_cpu_pos := Suc (w_cpu_pos w)\<rparr>)"

text \<open>\<open>(t1.tv_sec - t0.tv_sec) + (t1.tv_nsec - t0.tv_nsec) / 1e9\<close>\<close>

definition elapsed :: "int \<times> int \<Rightarrow> int \<times> int \<Rightarrow> real" where
  "elapsed t0 t1 = real_of_int (fst t1 - fst t0) + real_of_int (snd t1 - snd t0) / 10 ^ 9"

definition perf_event_open :: "world \<Rightarrow> int \<times> world" where
  "perf_event_open w =
     (let fd = w_perf w (w_perf_pos w)
      in (fd, w\<lparr>w_perf_pos := Suc (w_perf_pos w),
                w_fds := (if fd \<ge> 0 then fd # w_fds w else w_fds w)\<rparr>))"

text \<open>\<open>read(fd, &count, 8)\<close> on a counter: \<open>None\<close> when it does not return 8 bytes.\<close>

definition read_counter :: "int \<Rightarrow> world \<Rightarrow> nat option \<times> world" where
  "read_counter fd w = (w_count w (w_count_pos w), w\<lparr>w_count_pos := Suc (w_count_pos w)\<rparr>)"

text \<open>\<^verbatim>\<open>pipe\<close>: the read and the write end, or \<open>None\<close> when it fails.\<close>

definition c_pipe :: "world \<Rightarrow> (int \<times> int) option \<times> world" where
  "c_pipe w =
     (let p = w_pipe w (w_pipe_pos w); w' = w\<lparr>w_pipe_pos := Suc (w_pipe_pos w)\<rparr>
      in case p of None \<Rightarrow> (None, w')
         | Some (rd, wr) \<Rightarrow> (Some (rd, wr), w'\<lparr>w_fds := wr # rd # w_fds w\<rparr>))"

definition c_close :: "int \<Rightarrow> world \<Rightarrow> world" where
  "c_close fd w = w\<lparr>w_fds := remove1 fd (w_fds w)\<rparr>"

definition c_sleep :: "int \<Rightarrow> world \<Rightarrow> world" where
  "c_sleep s w = w\<lparr>w_slept := w_slept w + s\<rparr>"

lemmas env_defs = c_rand_def c_malloc_def c_free_def clock_monotonic_def clock_thread_cpu_def
  perf_event_open_def read_counter_def c_close_def c_sleep_def

text \<open>A world in which every allocation succeeds, every clock stands still and perf is not
  available: the start of the closed examples.\<close>

definition quiet_world :: world where
  "quiet_world = \<lparr>w_rand = (\<lambda>_. 0), w_rand_pos = 0, w_alloc = (\<lambda>_. True), w_alloc_pos = 0,
     w_live = 0, w_mono = (\<lambda>_. (0, 0)), w_mono_pos = 0, w_cpu = (\<lambda>_. (0, 0)), w_cpu_pos = 0,
     w_perf = (\<lambda>_. -1), w_perf_pos = 0, w_count = (\<lambda>_. None), w_count_pos = 0,
     w_pipe = (\<lambda>_. None), w_pipe_pos = 0, w_fds = [], w_slept = 0\<rparr>"

lemma elapsed_refl [simp]: "elapsed t t = 0"
  by (simp add: elapsed_def)

text \<open>The resources a component may hold: what a component that gives everything back leaves
  unchanged.\<close>

definition held :: "world \<Rightarrow> int \<times> int list" where
  "held w = (w_live w, w_fds w)"

lemma held_simps [simp]:
  "held (snd (c_rand w)) = held w" "held (snd (clock_monotonic w)) = held w"
  "held (snd (clock_thread_cpu w)) = held w" "held (c_sleep s w) = held w"
  by (simp_all add: held_def env_defs)

lemma held_malloc: "held (snd (c_malloc w)) = (w_live w + (if fst (c_malloc w) then 1 else 0), w_fds w)"
  by (simp add: held_def env_defs Let_def)

lemma held_free: "held (c_free p w) = (w_live w - (if p then 1 else 0), w_fds w)"
  by (simp add: held_def env_defs)

text \<open>The same as bookkeeping: what is held with \<open>n\<close> more blocks.\<close>

definition owning :: "int \<Rightarrow> int \<times> int list \<Rightarrow> int \<times> int list" where
  "owning n h = (fst h + n, snd h)"

lemma owning_simps [simp]: "owning 0 h = h" "owning a (owning b h) = owning (a + b) h"
  by (simp_all add: owning_def)

lemma held_own:
  "held (snd (c_malloc w)) = owning (of_bool (fst (c_malloc w))) (held w)"
  "held (c_free p w) = owning (- of_bool p) (held w)"
  by (simp_all add: owning_def held_def env_defs Let_def)

subsection \<open>Idioms of the benchmarks\<close>

text \<open>A metric \<^verbatim>\<open>amount / elapsed\<close>. When the clock did not advance the C value is infinite; the model's
  quotient is then 0, and no theorem speaks of it.\<close>

definition rate :: "real \<Rightarrow> real \<Rightarrow> real" where
  "rate amount seconds = amount / seconds"

text \<open>\<open>memset(result, 0, ...)\<close>, then the metric and the wall time.\<close>

definition plain_result :: "real \<Rightarrow> real \<Rightarrow> measurement_t" where
  "plain_result metric seconds = \<lparr>primary_metric = metric, wall_seconds = seconds, cpu_seconds = 0,
     instructions = 0, cycles = 0, cache_misses = 0\<rparr>"

text \<open>\<open>((uint64_t)rand() << 32) | (uint64_t)rand()\<close>, the left operand first.\<close>

definition rand64 :: "world \<Rightarrow> 64 word \<times> world" where
  "rand64 w = (let (a, w) = c_rand w; (b, w) = c_rand w
               in (or (push_bit 32 (word_of_nat a)) (word_of_nat b), w))"

fun rand64_list :: "nat \<Rightarrow> world \<Rightarrow> 64 word list \<times> world" where
  "rand64_list 0 w = ([], w)"
| "rand64_list (Suc n) w =
     (let (x, w) = rand64 w; (xs, w) = rand64_list n w in (x # xs, w))"

lemma rand64_held [simp]: "held (snd (rand64 w)) = held w"
  by (simp add: rand64_def case_prod_beta)

lemma rand64_list_facts [simp]:
  "held (snd (rand64_list n w)) = held w" "length (fst (rand64_list n w)) = n"
  by (induction n arbitrary: w) (simp_all add: case_prod_beta)

text \<open>An operation whose C text could be undefined, as a benchmark's function pointer: each benchmark
  proves that on its own states the outcome is \<open>Ret\<close>.\<close>

fun the_ret :: "'a outcome \<Rightarrow> 'a" where
  "the_ret (Ret x) = x"

text \<open>A world in which no allocation fails.\<close>

definition memory_left :: "world \<Rightarrow> bool" where
  "memory_left w \<longleftrightarrow> (\<forall>i. w_alloc w i)"

lemma memory_left_simps [simp]:
  "memory_left w \<Longrightarrow> fst (c_malloc w)" "memory_left (snd (c_malloc w)) \<longleftrightarrow> memory_left w"
  "memory_left (snd (c_rand w)) \<longleftrightarrow> memory_left w" "memory_left (c_free p w) \<longleftrightarrow> memory_left w"
  "memory_left (snd (clock_monotonic w)) \<longleftrightarrow> memory_left w" "memory_left quiet_world"
  by (simp_all add: memory_left_def env_defs quiet_world_def Let_def)

end
