(* ===== verification/Config.thy ===== *)
theory Config
  imports CStr
begin

text \<open>
  \<^verbatim>\<open>inc/harness.h\<close> (the run configuration) and \<^verbatim>\<open>src/main.c\<close>: trimming, the config file parser
  and the command-line options, which write the same record afterwards.
\<close>

subsection \<open>inc/harness.h\<close>

datatype run_mode_t = SSB_MODE_VALIDATE | SSB_MODE_PEAK | SSB_MODE_SUSTAINED

text \<open>\<^verbatim>\<open>bench_filter\<close> and \<^verbatim>\<open>bench_filter_count\<close> are the list \<open>cfg_bench_filter\<close>.\<close>

record run_config_t =
  cfg_mode :: run_mode_t
  cfg_mitigations_off :: bool
  cfg_tier_mask :: int
  cfg_output_dir :: string
  cfg_reference_file :: "string option"
  cfg_category_filter :: "string option"
  cfg_dry_run :: bool
  cfg_num_instances :: int
  cfg_bench_filter :: "string list"
  cfg_min_iterations :: int
  cfg_max_iterations :: int
  cfg_convergence_target :: real
  cfg_min_runtime_sec :: int
  cfg_max_runtime_sec :: int
  cfg_cooldown_sec :: int
  cfg_reportable :: bool
  cfg_require_validate :: bool
  cfg_cpu_pin_spec :: "string option"
  cfg_numa_topo_spec :: "string option"
  cfg_membind_spec :: "string option"
  cfg_generate_reference :: bool

text \<open>The initialiser in \<^verbatim>\<open>main\<close>; fields it does not name are zero.\<close>

definition default_config :: run_config_t where
  "default_config = \<lparr>cfg_mode = SSB_MODE_PEAK, cfg_mitigations_off = False, cfg_tier_mask = 2,
     cfg_output_dir = ''.'', cfg_reference_file = None, cfg_category_filter = None,
     cfg_dry_run = False, cfg_num_instances = 0, cfg_bench_filter = [], cfg_min_iterations = 0,
     cfg_max_iterations = 0, cfg_convergence_target = 0, cfg_min_runtime_sec = 0,
     cfg_max_runtime_sec = 0, cfg_cooldown_sec = 0, cfg_reportable = False,
     cfg_require_validate = False, cfg_cpu_pin_spec = None, cfg_numa_topo_spec = None,
     cfg_membind_spec = None, cfg_generate_reference = False\<rparr>"

definition MAX_BENCH_FILTER :: nat where "MAX_BENCH_FILTER = 64"

subsection \<open>trim\<close>

definition trim :: "string \<Rightarrow> string" where
  "trim s = (let s = dropWhile isspace s in
             if s = [] then [] else rev (dropWhile isspace (rev s)))"

lemma trim_idle:
  assumes "s = [] \<or> (\<not> isspace (hd s) \<and> \<not> isspace (last s))"
  shows "trim s = s"
proof (cases s rule: rev_cases)
  case Nil
  then show ?thesis by (simp add: trim_def)
next
  case (snoc xs x)
  with assms have "\<not> isspace (hd s)" "\<not> isspace x" by auto
  moreover from this have "dropWhile isspace s = s" by (cases s) auto
  ultimately show ?thesis by (simp add: trim_def snoc)
qed

lemma dropWhile_all: "\<forall>x \<in> set xs. P x \<Longrightarrow> dropWhile P (xs @ ys) = dropWhile P ys"
  by (induction xs) auto

text \<open>White space around a word that starts and ends with something else is removed.\<close>

lemma trim_pad:
  assumes "\<forall>c \<in> set l. isspace c" "\<forall>c \<in> set r. isspace c"
    "s \<noteq> []" "\<not> isspace (hd s)" "\<not> isspace (last s)"
  shows "trim (l @ s @ r) = s"
proof -
  have "dropWhile isspace (l @ s @ r) = s @ r"
    using assms(1,3,4) by (cases s) (simp_all add: dropWhile_all)
  moreover have "dropWhile isspace (rev r @ rev s) = rev s"
    using assms(2,3,5) by (cases s rule: rev_cases) (simp_all add: dropWhile_all)
  ultimately show ?thesis using assms(3) by (simp add: trim_def)
qed

subsection \<open>parse\_config\<close>

text \<open>\<open>1 << n\<close> on a signed 32-bit \<^verbatim>\<open>int\<close>.\<close>

definition shl_int :: "int \<Rightarrow> int outcome" where
  "shl_int n = (if 0 \<le> n \<and> n < 31 then Ret (2 ^ nat n) else Undef BadShift)"

text \<open>\<^verbatim>\<open>atof\<close> is the parameter \<open>atof_fn\<close>. One accepted line: key and value trimmed.\<close>

definition config_line ::
    "(string \<Rightarrow> real) \<Rightarrow> string \<Rightarrow> string \<Rightarrow> run_config_t \<Rightarrow> run_config_t outcome" where
  "config_line atof_fn key val cfg =
     (if key = ''runmode'' then
        Ret (cfg\<lparr>cfg_mode := (if val = ''sustained'' then SSB_MODE_SUSTAINED else SSB_MODE_PEAK)\<rparr>)
      else if key = ''threads'' then Ret (cfg\<lparr>cfg_num_instances := atoi val\<rparr>)
      else if key = ''output_dir'' then Ret (cfg\<lparr>cfg_output_dir := val\<rparr>)
      else if key = ''tier'' then out_bind (shl_int (atoi val)) (\<lambda>m. Ret (cfg\<lparr>cfg_tier_mask := m\<rparr>))
      else if key = ''category'' then
        Ret (if val \<noteq> [] then cfg\<lparr>cfg_category_filter := Some val\<rparr> else cfg)
      else if key = ''mitigations_off'' then Ret (cfg\<lparr>cfg_mitigations_off := (atoi val \<noteq> 0)\<rparr>)
      else if key = ''min_iterations'' then Ret (cfg\<lparr>cfg_min_iterations := atoi val\<rparr>)
      else if key = ''max_iterations'' then Ret (cfg\<lparr>cfg_max_iterations := atoi val\<rparr>)
      else if key = ''convergence'' then Ret (cfg\<lparr>cfg_convergence_target := atof_fn val\<rparr>)
      else if key = ''max_runtime'' then Ret (cfg\<lparr>cfg_max_runtime_sec := atoi val\<rparr>)
      else if key = ''cooldown_sec'' then Ret (cfg\<lparr>cfg_cooldown_sec := atoi val\<rparr>)
      else if key = ''reportable'' then Ret (cfg\<lparr>cfg_reportable := (atoi val \<noteq> 0)\<rparr>)
      else if key = ''require_validate'' then Ret (cfg\<lparr>cfg_require_validate := (atoi val \<noteq> 0)\<rparr>)
      else if key = ''cpu_pin'' then Ret (cfg\<lparr>cfg_cpu_pin_spec := Some val\<rparr>)
      else if key = ''numa_bind'' \<or> key = ''numa_topo'' then Ret (cfg\<lparr>cfg_numa_topo_spec := Some val\<rparr>)
      else if key = ''membind'' then Ret (cfg\<lparr>cfg_membind_spec := Some val\<rparr>)
      else if key = ''march_native'' \<or> key = ''isa_baseline'' then Ret cfg
      else if key = ''benchmark'' then
        (case cut_at (CHR '':'') val of
           None \<Rightarrow> Ret cfg
         | Some (_, after) \<Rightarrow>
             let nm = trim after;
                 nm = (case cut_at (CHR '':'') nm of None \<Rightarrow> nm | Some (a, _) \<Rightarrow> a);
                 nm = trim nm
             in Ret (if length (cfg_bench_filter cfg) < MAX_BENCH_FILTER
                     then cfg\<lparr>cfg_bench_filter := cfg_bench_filter cfg @ [nm]\<rparr> else cfg))
      else Ret cfg)"

definition parse_line ::
    "(string \<Rightarrow> real) \<Rightarrow> string \<Rightarrow> run_config_t \<Rightarrow> run_config_t outcome" where
  "parse_line atof_fn line cfg =
     (let p = trim line in
      case p of
        [] \<Rightarrow> Ret cfg
      | c # _ \<Rightarrow>
          if c = CHR ''#'' then Ret cfg
          else (case cut_at (CHR ''='') p of
                  None \<Rightarrow> Ret cfg
                | Some (k, v) \<Rightarrow> config_line atof_fn (trim k) (trim v) cfg))"

fun parse_lines ::
    "(string \<Rightarrow> real) \<Rightarrow> string list \<Rightarrow> run_config_t \<Rightarrow> run_config_t outcome" where
  "parse_lines atof_fn [] cfg = Ret cfg"
| "parse_lines atof_fn (l # ls) cfg =
     out_bind (parse_line atof_fn l cfg) (parse_lines atof_fn ls)"

text \<open>\<open>file\<close> is \<open>None\<close> when the config cannot be opened: status -1, nothing changed.\<close>

definition parse_config ::
    "(string \<Rightarrow> real) \<Rightarrow> string option \<Rightarrow> run_config_t \<Rightarrow> (int \<times> run_config_t) outcome" where
  "parse_config atof_fn file cfg =
     (case file of
        None \<Rightarrow> Ret (-1, cfg)
      | Some text \<Rightarrow> out_bind (parse_lines atof_fn (fgets_all 512 text) cfg) (\<lambda>c. Ret (0, c)))"

subsection \<open>The command line\<close>

text \<open>What \<open>getopt_long\<close> hands to the switch in \<^verbatim>\<open>main\<close>: the options that write the
  configuration, by their letters, with their arguments. The options that print and exit
  (\<open>L\<close>, \<open>Z\<close>, \<open>V\<close>, \<open>h\<close> and the default) end the loop with an exit status.\<close>

datatype cli_opt =
    OptConfig string | OptMode string | OptValidate | OptTier string | OptCategory string
  | OptBenchmark string | OptThreads string | OptMitigations | OptOutputDir string
  | OptReference string | OptDryRun | OptListCategories | OptListTopology
  | OptMinIterations string | OptMaxIterations string | OptConvergence string
  | OptMaxRuntime string | OptCpuPin string | OptNumaTopo string | OptMembind string
  | OptCooldown string | OptGenerateReference | OptVersion | OptHelp | OptUnknown

datatype cli_result = Continue run_config_t bool | Exit int

fun cli_step :: "(string \<Rightarrow> real) \<Rightarrow> cli_opt \<Rightarrow> run_config_t \<Rightarrow> bool \<Rightarrow> cli_result outcome" where
  "cli_step atof_fn (OptConfig a) c v = Ret (Continue c v)"
| "cli_step atof_fn (OptMode a) c v =
     Ret (Continue (c\<lparr>cfg_mode := (if a = ''sustained'' then SSB_MODE_SUSTAINED else SSB_MODE_PEAK)\<rparr>) v)"
| "cli_step atof_fn OptValidate c v = Ret (Continue c True)"
| "cli_step atof_fn (OptTier a) c v =
     out_bind (shl_int (atoi a)) (\<lambda>m. Ret (Continue (c\<lparr>cfg_tier_mask := m\<rparr>) v))"
| "cli_step atof_fn (OptCategory a) c v = Ret (Continue (c\<lparr>cfg_category_filter := Some a\<rparr>) v)"
| "cli_step atof_fn (OptBenchmark a) c v =
     Ret (Continue (if length (cfg_bench_filter c) < MAX_BENCH_FILTER
                    then c\<lparr>cfg_bench_filter := cfg_bench_filter c @ [a]\<rparr> else c) v)"
| "cli_step atof_fn (OptThreads a) c v = Ret (Continue (c\<lparr>cfg_num_instances := atoi a\<rparr>) v)"
| "cli_step atof_fn OptMitigations c v = Ret (Continue (c\<lparr>cfg_mitigations_off := True\<rparr>) v)"
| "cli_step atof_fn (OptOutputDir a) c v = Ret (Continue (c\<lparr>cfg_output_dir := a\<rparr>) v)"
| "cli_step atof_fn (OptReference a) c v = Ret (Continue (c\<lparr>cfg_reference_file := Some a\<rparr>) v)"
| "cli_step atof_fn OptDryRun c v = Ret (Continue (c\<lparr>cfg_dry_run := True\<rparr>) v)"
| "cli_step atof_fn OptListCategories c v = Ret (Exit 0)"
| "cli_step atof_fn OptListTopology c v = Ret (Exit 0)"
| "cli_step atof_fn (OptMinIterations a) c v = Ret (Continue (c\<lparr>cfg_min_iterations := atoi a\<rparr>) v)"
| "cli_step atof_fn (OptMaxIterations a) c v = Ret (Continue (c\<lparr>cfg_max_iterations := atoi a\<rparr>) v)"
| "cli_step atof_fn (OptConvergence a) c v = Ret (Continue (c\<lparr>cfg_convergence_target := atof_fn a\<rparr>) v)"
| "cli_step atof_fn (OptMaxRuntime a) c v = Ret (Continue (c\<lparr>cfg_max_runtime_sec := atoi a\<rparr>) v)"
| "cli_step atof_fn (OptCpuPin a) c v = Ret (Continue (c\<lparr>cfg_cpu_pin_spec := Some a\<rparr>) v)"
| "cli_step atof_fn (OptNumaTopo a) c v = Ret (Continue (c\<lparr>cfg_numa_topo_spec := Some a\<rparr>) v)"
| "cli_step atof_fn (OptMembind a) c v = Ret (Continue (c\<lparr>cfg_membind_spec := Some a\<rparr>) v)"
| "cli_step atof_fn (OptCooldown a) c v = Ret (Continue (c\<lparr>cfg_cooldown_sec := atoi a\<rparr>) v)"
| "cli_step atof_fn OptGenerateReference c v = Ret (Continue (c\<lparr>cfg_generate_reference := True\<rparr>) v)"
| "cli_step atof_fn OptVersion c v = Ret (Exit 0)"
| "cli_step atof_fn OptHelp c v = Ret (Exit 0)"
| "cli_step atof_fn OptUnknown c v = Ret (Exit 1)"

fun cli_loop :: "(string \<Rightarrow> real) \<Rightarrow> cli_opt list \<Rightarrow> run_config_t \<Rightarrow> bool \<Rightarrow> cli_result outcome" where
  "cli_loop atof_fn [] c v = Ret (Continue c v)"
| "cli_loop atof_fn (opt # opts) c v =
     out_bind (cli_step atof_fn opt c v)
       (\<lambda>r. case r of Exit e \<Rightarrow> Ret (Exit e) | Continue c' v' \<Rightarrow> cli_loop atof_fn opts c' v')"

text \<open>\<^verbatim>\<open>main\<close> up to the run: config file, options, then the default number of instances.\<close>

definition main_config ::
    "(string \<Rightarrow> real) \<Rightarrow> int \<Rightarrow> string option \<Rightarrow> cli_opt list \<Rightarrow> cli_result outcome" where
  "main_config atof_fn ncpu file opts =
     out_bind (parse_config atof_fn file default_config)
       (\<lambda>(_, cfg). out_bind (cli_loop atof_fn opts cfg False)
         (\<lambda>r. case r of
            Exit e \<Rightarrow> Ret (Exit e)
          | Continue c v \<Rightarrow>
              Ret (Continue (if cfg_num_instances c \<le> 0
                             then c\<lparr>cfg_num_instances := SSB_NUM_CPUS ncpu\<rparr> else c) v)))"

end
