(* ===== verification/Harness.thy ===== *)
theory Harness
  imports Env Config Stats
begin

text \<open>
  \<^verbatim>\<open>src/core/harness.c\<close>, the measuring part: the performance counters around a measurement, the
  life cycle of one benchmark in the current process (\<^verbatim>\<open>run_benchmark_instance\<close>) and
  \<^verbatim>\<open>harness_run_single\<close>. A benchmark is a record of its four operations over the machine state;
  what the operations owe each other and the harness is the locale \<open>bench_lifecycle\<close>.
\<close>

subsection \<open>A benchmark's operations\<close>

text \<open>The four function pointers of a descriptor. \<open>'s\<close> is the type behind \<^verbatim>\<open>void *state\<close>; every
  operation returns its status and changes the state and the machine.\<close>

record 's bench_ops =
  op_init :: "world \<Rightarrow> int \<times> 's \<times> world"
  op_warmup :: "('s \<Rightarrow> world \<Rightarrow> int \<times> 's \<times> world) option"
  op_measure :: "'s \<Rightarrow> world \<Rightarrow> int \<times> 's \<times> measurement_t \<times> world"
  op_cleanup :: "'s \<Rightarrow> world \<Rightarrow> int \<times> world"

subsection \<open>\_perf\_counters\_start and \_perf\_counters\_stop\<close>

definition perf_counters_start :: "world \<Rightarrow> int \<times> (int \<times> int) \<times> world" where
  "perf_counters_start w =
     (let (fdi, w) = perf_event_open w;
          (fdc, w) = perf_event_open w
      in if fdi \<ge> 0 \<and> fdc \<ge> 0 then (0, (fdi, fdc), w)
         else let (fdi, w) = (if fdi \<ge> 0 then (-1, c_close fdi w) else (fdi, w));
                  (fdc, w) = (if fdc \<ge> 0 then (-1, c_close fdc w) else (fdc, w))
              in (-1, (fdi, fdc), w))"

definition perf_counter_stop :: "int \<Rightarrow> world \<Rightarrow> nat \<times> world" where
  "perf_counter_stop fd w =
     (if fd \<ge> 0 then
        (let (n, w) = read_counter fd w
         in ((case n of Some v \<Rightarrow> v | None \<Rightarrow> 0), c_close fd w))
      else (0, w))"

definition perf_counters_stop :: "int \<Rightarrow> int \<Rightarrow> world \<Rightarrow> (nat \<times> nat) \<times> world" where
  "perf_counters_stop fdi fdc w =
     (let (insns, w) = perf_counter_stop fdi w;
          (cyc, w) = perf_counter_stop fdc w
      in ((insns, cyc), w))"

subsection \<open>run\_benchmark\_instance\<close>

text \<open>The limits of one instance: the descriptor's when positive, else the defaults.\<close>

record limits =
  lim_max_iter :: int
  lim_min_iter :: int
  lim_target :: real
  lim_min_runtime :: int
  lim_max_runtime :: int

definition instance_limits :: "benchmark_t \<Rightarrow> limits" where
  "instance_limits bench =
     \<lparr>lim_max_iter = (if bm_max_iterations bench > 0 then bm_max_iterations bench else SSB_MAX_ITERATIONS),
      lim_min_iter = (if bm_min_iterations bench > 0 then bm_min_iterations bench else SSB_MIN_ITERATIONS),
      lim_target = (if bm_convergence_target bench > 0 then bm_convergence_target bench else SSB_CONVERGENCE_TARGET),
      lim_min_runtime = (if bm_min_runtime_sec bench > 0 then bm_min_runtime_sec bench else SSB_MIN_RUNTIME_SEC),
      lim_max_runtime = (if bm_max_runtime_sec bench > 0 then bm_max_runtime_sec bench else SSB_MAX_RUNTIME_SEC)\<rparr>"

text \<open>The stop test after \<open>iter\<close> values: relative standard error at the target and the minimum
  runtime reached.\<close>

definition converged_now :: "limits \<Rightarrow> real list \<Rightarrow> real \<Rightarrow> bool" where
  "converged_now lm values wall_elapsed \<longleftrightarrow>
     int (length values) \<ge> lim_min_iter lm \<and>
     (let (mean, stddev) = stats_mean_stddev values
      in sem_rel mean (stddev / sqrt (real (length values))) \<le> lim_target lm) \<and>
     wall_elapsed \<ge> real_of_int (lim_min_runtime lm)"

text \<open>\<open>values_out\<close> is the caller's array; \<open>None\<close> is an element never written. The loop ends with the
  status, the number of iterations, the array, the benchmark's state and the machine.\<close>

function run_loop ::
    "'s bench_ops \<Rightarrow> limits \<Rightarrow> int \<times> int \<Rightarrow> int \<times> int \<Rightarrow> nat \<Rightarrow> real option list \<Rightarrow> 's \<Rightarrow> world
     \<Rightarrow> (int \<times> nat \<times> real option list \<times> 's \<times> world) outcome" where
  "run_loop ops lm wall_start cpu_start iter values_out state w =
     (if int iter < lim_max_iter lm then
        (let (_, (fdi, fdc), w1) = perf_counters_start w;
             (ret, state1, m, w2) = op_measure ops state w1;
             (_, w3) = perf_counters_stop fdi fdc w2
         in if ret \<noteq> 0 then Ret (ret, iter, values_out, state1, w3)
            else if iter \<ge> length values_out then Undef OobWrite
            else let values1 = values_out[iter := Some (primary_metric m)];
                     (wall_now, w4) = clock_monotonic w3;
                     wall_elapsed = elapsed wall_start wall_now
                 in if converged_now lm (map the (take (Suc iter) values1)) wall_elapsed
                    then Ret (0, Suc iter, values1, state1, w4)
                    else if wall_elapsed \<ge> real_of_int (lim_max_runtime lm)
                    then Ret (0, Suc iter, values1, state1, w4)
                    else let (cpu_now, w5) = clock_thread_cpu w4
                         in if elapsed cpu_start cpu_now > real_of_int (lim_max_runtime lm * 2)
                            then Ret (0, Suc iter, values1, state1, w5)
                            else run_loop ops lm wall_start cpu_start (Suc iter) values1 state1 w5)
      else Ret (0, iter, values_out, state, w))"
  by pat_completeness auto
termination
  by (relation "measure (\<lambda>(ops, lm, ws, cs, iter, vs, s, w). nat (lim_max_iter lm - int iter))") auto

declare run_loop.simps [simp del]

text \<open>Two full measurements whose results are discarded.\<close>

fun discard_measures :: "'s bench_ops \<Rightarrow> nat \<Rightarrow> 's \<Rightarrow> world \<Rightarrow> int \<times> 's \<times> world" where
  "discard_measures ops 0 state w = (0, state, w)"
| "discard_measures ops (Suc k) state w =
     (let (ret, state1, _, w1) = op_measure ops state w
      in if ret \<noteq> 0 then (ret, state1, w1) else discard_measures ops k state1 w1)"

definition run_warmup :: "'s bench_ops \<Rightarrow> 's \<Rightarrow> world \<Rightarrow> int \<times> 's \<times> world" where
  "run_warmup ops state w =
     (case op_warmup ops of
        None \<Rightarrow> discard_measures ops 2 state w
      | Some warm \<Rightarrow>
          let (ret, state1, w1) = warm state w
          in if ret \<noteq> 0 then (ret, state1, w1) else discard_measures ops 2 state1 w1)"

text \<open>\<open>iter_out\<close> is written on success only: \<open>None\<close> on the early returns.\<close>

definition run_benchmark_instance ::
    "benchmark_t \<Rightarrow> 's bench_ops \<Rightarrow> real option list \<Rightarrow> world
     \<Rightarrow> (int \<times> nat option \<times> real option list \<times> world) outcome" where
  "run_benchmark_instance bench ops values_out w =
     (let (ret, state, w) = op_init ops w
      in if ret \<noteq> 0 then Ret (ret, None, values_out, w)
         else let (ret, state, w) = run_warmup ops state w
         in if ret \<noteq> 0 then Ret (ret, None, values_out, snd (op_cleanup ops state w))
            else let (wall_start, w) = clock_monotonic w;
                     (cpu_start, w) = clock_thread_cpu w
              in out_bind (run_loop ops (instance_limits bench) wall_start cpu_start 0 values_out state w)
                   (\<lambda>(ret, iter, values, state, w).
                      let w = snd (op_cleanup ops state w)
                      in if ret \<noteq> 0 then Ret (ret, None, values, w)
                         else Ret (0, Some iter, values, w)))"

subsection \<open>harness\_run\_single\<close>

text \<open>\<open>double values[SSB_MAX_ITERATIONS]\<close>, not initialised, and reading its first \<open>n\<close> elements.\<close>

definition fresh_values :: "real option list" where
  "fresh_values = replicate (nat SSB_MAX_ITERATIONS) None"

definition read_values :: "nat \<Rightarrow> real option list \<Rightarrow> real list outcome" where
  "read_values n vs =
     (if n > length vs then Undef OobRead
      else if None \<in> set (take n vs) then Undef UninitRead
      else Ret (map the (take n vs)))"

text \<open>\<open>stats_compute\<close> on the machine: its two scratch arrays and \<^verbatim>\<open>rand\<close>.\<close>

definition stats_on :: "real list \<Rightarrow> benchmark_stats_t \<Rightarrow> world \<Rightarrow> (int \<times> benchmark_stats_t \<times> world) outcome" where
  "stats_on values stats w =
     (if length values < 2 then Ret (-1, stats, w)
      else let (p1, w) = c_malloc w; (p2, w) = c_malloc w
        in out_bind (stats_compute c_rand (p1 \<and> p2) values (Some stats) w)
             (\<lambda>(ret, out, w). Ret (ret, the out, c_free p2 (c_free p1 w))))"

definition clamp_iter :: "run_config_t \<Rightarrow> int \<Rightarrow> int" where
  "clamp_iter overrides iter =
     (let iter = (if cfg_max_iterations overrides > 0 \<and> iter > cfg_max_iterations overrides
                  then cfg_max_iterations overrides else iter)
      in if cfg_min_iterations overrides > 0 \<and> iter < cfg_min_iterations overrides
         then cfg_min_iterations overrides else iter)"

definition harness_run_single ::
    "benchmark_t \<Rightarrow> 's bench_ops \<Rightarrow> benchmark_stats_t \<Rightarrow> run_config_t option \<Rightarrow> world
     \<Rightarrow> (int \<times> benchmark_stats_t \<times> world) outcome" where
  "harness_run_single bench ops stats overrides w =
     out_bind (run_benchmark_instance bench ops fresh_values w)
       (\<lambda>(ret, iter, values, w).
          if ret \<noteq> 0 then Ret (ret, stats, w)
          else let it = int (the iter);
                   it = (case overrides of Some c \<Rightarrow> clamp_iter c it | None \<Rightarrow> it)
               in out_bind (read_values (nat it) values)
                    (\<lambda>vs. out_bind (stats_on vs stats w) (\<lambda>(_, stats, w). Ret (0, stats, w))))"

subsection \<open>Counters: what is opened is closed\<close>

lemma perf_balance:
  assumes "perf_counters_start w = (r, (fdi, fdc), w1)" "held w2 = held w1"
    "perf_counters_stop fdi fdc w2 = (v, w3)"
  shows "held w3 = held w"
  using assms
  by (auto simp: perf_counters_start_def perf_counters_stop_def perf_counter_stop_def held_def
      env_defs Let_def split: if_splits)

subsection \<open>The loop\<close>

text \<open>The first \<open>n\<close> elements of the array are written, the others are not.\<close>

definition filled :: "nat \<Rightarrow> real option list \<Rightarrow> bool" where
  "filled n vs \<longleftrightarrow> n \<le> length vs \<and> None \<notin> set (take n vs) \<and> (\<forall>k. n \<le> k \<longrightarrow> k < length vs \<longrightarrow> vs ! k = None)"

lemma filled_fresh: "filled 0 (replicate n None)"
  by (simp add: filled_def)

text \<open>A property of the array that every write at the next index carries on.\<close>

definition fills :: "(nat \<Rightarrow> real option list \<Rightarrow> bool) \<Rightarrow> bool" where
  "fills P \<longleftrightarrow> (\<forall>n vs x. P n vs \<longrightarrow> n < length vs \<longrightarrow> P (Suc n) (vs[n := Some x]))"

definition written :: "nat \<Rightarrow> real option list \<Rightarrow> bool" where
  "written n vs \<longleftrightarrow> n \<le> length vs \<and> None \<notin> set (take n vs)"

lemma filled_step: "filled n vs \<Longrightarrow> n < length vs \<Longrightarrow> filled (Suc n) (vs[n := Some x])"
  by (auto simp: filled_def take_Suc_conv_app_nth)

lemma fills_filled: "fills filled"
  by (simp add: fills_def filled_step)

lemma fills_written: "fills written"
  by (auto simp: fills_def written_def take_Suc_conv_app_nth)

text \<open>One pass through the body: what the next state is when the loop goes on, and what it returns
  when it stops.\<close>

definition loop_body ::
    "'s bench_ops \<Rightarrow> limits \<Rightarrow> int \<times> int \<Rightarrow> int \<times> int \<Rightarrow> nat \<Rightarrow> real option list \<Rightarrow> 's \<Rightarrow> world
     \<Rightarrow> (int \<times> bool \<times> real \<times> 's \<times> world)" where
  "loop_body ops lm wall_start cpu_start iter values_out state w =
     (let (_, (fdi, fdc), w1) = perf_counters_start w;
          (ret, state1, m, w2) = op_measure ops state w1;
          (_, w3) = perf_counters_stop fdi fdc w2;
          values1 = values_out[iter := Some (primary_metric m)];
          (wall_now, w4) = clock_monotonic w3;
          wall_elapsed = elapsed wall_start wall_now;
          (cpu_now, w5) = clock_thread_cpu w4
      in if ret \<noteq> 0 then (ret, True, 0, state1, w3)
         else if converged_now lm (map the (take (Suc iter) values1)) wall_elapsed
           \<or> wall_elapsed \<ge> real_of_int (lim_max_runtime lm)
         then (0, True, primary_metric m, state1, w4)
         else if elapsed cpu_start cpu_now > real_of_int (lim_max_runtime lm * 2)
         then (0, True, primary_metric m, state1, w5)
         else (0, False, primary_metric m, state1, w5))"

lemma run_loop_body:
  assumes "iter < length values_out"
  shows "run_loop ops lm ws cs iter values_out state w =
    (if int iter < lim_max_iter lm then
       (case loop_body ops lm ws cs iter values_out state w of
          (ret, stop, v, state1, w1) \<Rightarrow>
            if ret \<noteq> 0 then Ret (ret, iter, values_out, state1, w1)
            else if stop then Ret (0, Suc iter, values_out[iter := Some v], state1, w1)
            else run_loop ops lm ws cs (Suc iter) (values_out[iter := Some v]) state1 w1)
     else Ret (0, iter, values_out, state, w))"
  using assms
  by (subst run_loop.simps) (auto simp: loop_body_def Let_def split: prod.split)

lemma run_loop_end:
  "\<not> int iter < lim_max_iter lm \<Longrightarrow> run_loop ops lm ws cs iter vs s w = Ret (0, iter, vs, s, w)"
  by (subst run_loop.simps) simp

text \<open>The loop rule: an array that is long enough is never overrun; a fact every measurement keeps
  holds at the end; the values written are the first \<open>iter\<close>.\<close>

lemma run_loop_rule:
  assumes P: "fills P" and len: "lim_max_iter lm \<le> int (length vs)" and fill: "P iter vs"
    and I: "I s w"
    and step: "\<forall>i us s w ret stop v s1 w1. I s w \<longrightarrow>
      loop_body ops lm ws cs i us s w = (ret, stop, v, s1, w1) \<longrightarrow> I s1 w1"
  shows "\<exists>ret it us s' w'. run_loop ops lm ws cs iter vs s w = Ret (ret, it, us, s', w') \<and>
    I s' w' \<and> length us = length vs \<and> P it us \<and> iter \<le> it \<and>
    (ret = 0 \<longrightarrow> int iter < lim_max_iter lm \<longrightarrow> iter < it) \<and>
    (int iter \<le> lim_max_iter lm \<longrightarrow> int it \<le> lim_max_iter lm)"
  using len fill I
proof (induction "nat (lim_max_iter lm - int iter)" arbitrary: iter vs s w)
  case 0
  then show ?case by (auto simp: run_loop_end)
next
  case (Suc n)
  then have more: "int iter < lim_max_iter lm" and room: "iter < length vs" by linarith+
  obtain ret stop v s1 w1 where b: "loop_body ops lm ws cs iter vs s w = (ret, stop, v, s1, w1)"
    by (rule prod_cases5)
  let ?vs = "vs[iter := Some v]"
  have I1: "I s1 w1" using Suc.prems(3) b step by blast
  have f1: "P (Suc iter) ?vs" using P Suc.prems(2) room by (simp add: fills_def)
  show ?case
  proof (cases "ret \<noteq> 0 \<or> stop")
    case True
    then show ?thesis
      using b more room I1 f1 Suc.prems(2) by (auto simp: run_loop_body)
  next
    case False
    have "n = nat (lim_max_iter lm - int (Suc iter))" using Suc.hyps(2) by linarith
    then obtain ret' it us s' w' where
      "run_loop ops lm ws cs (Suc iter) ?vs s1 w1 = Ret (ret', it, us, s', w')"
      "I s' w'" "length us = length vs" "P it us" "Suc iter \<le> it" "int it \<le> lim_max_iter lm"
      using Suc.hyps(1) [of "Suc iter" ?vs s1 w1] Suc.prems(1) f1 I1 more by auto
    moreover have "run_loop ops lm ws cs iter vs s w = run_loop ops lm ws cs (Suc iter) ?vs s1 w1"
      using False b more room by (simp add: run_loop_body)
    ultimately show ?thesis by auto
  qed
qed

subsection \<open>What a benchmark owes the harness\<close>

text \<open>\<open>good\<close> are the states \<^verbatim>\<open>init\<close> hands out, \<open>blocks s\<close> is what the state owns until
  \<^verbatim>\<open>cleanup\<close>. No operation may keep anything else.\<close>

locale bench_lifecycle =
  fixes ops :: "'s bench_ops" and good :: "'s \<Rightarrow> bool" and blocks :: "'s \<Rightarrow> int"
  assumes init_ok: "op_init ops w = (0, s, w') \<Longrightarrow> good s \<and> held w' = owning (blocks s) (held w)"
    and warmup_ok: "op_warmup ops = Some f \<Longrightarrow> good s \<Longrightarrow> f s w = (ret, s', w') \<Longrightarrow>
      good s' \<and> blocks s' = blocks s \<and> held w' = held w"
    and measure_ok: "good s \<Longrightarrow> op_measure ops s w = (ret, s', m, w') \<Longrightarrow>
      good s' \<and> blocks s' = blocks s \<and> held w' = held w"
    and cleanup_ok: "good s \<Longrightarrow> op_cleanup ops s w = (ret, w') \<Longrightarrow>
      held w' = owning (- blocks s) (held w)"
begin

definition owns :: "int \<times> int list \<Rightarrow> 's \<Rightarrow> world \<Rightarrow> bool" where
  "owns h s w \<longleftrightarrow> good s \<and> held w = owning (blocks s) h"

lemma discard_owns: "owns h s w \<Longrightarrow> discard_measures ops k s w = (ret, s', w') \<Longrightarrow> owns h s' w'"
proof (induction k arbitrary: s w)
  case (Suc k)
  obtain r s1 m w1 where m: "op_measure ops s w = (r, s1, m, w1)" by (rule prod_cases4)
  then have "owns h s1 w1" using Suc.prems(1) measure_ok [OF _ m] by (auto simp: owns_def)
  then show ?case using Suc.prems(2) Suc.IH [of s1 w1] by (auto simp: m split: if_splits)
qed simp

lemma warmup_owns:
  assumes "owns h s w" "run_warmup ops s w = (ret, s', w')"
  shows "owns h s' w'"
proof (cases "op_warmup ops")
  case None
  then show ?thesis using assms by (auto simp: run_warmup_def intro: discard_owns)
next
  case (Some f)
  obtain r s1 w1 where f: "f s w = (r, s1, w1)" by (rule prod_cases3)
  have "owns h s1 w1" using assms(1) warmup_ok [OF Some _ f] by (auto simp: owns_def)
  then show ?thesis
    using assms(2) Some f by (auto simp: run_warmup_def intro: discard_owns split: if_splits)
qed

lemma body_owns:
  assumes "owns h s w" "loop_body ops lm ws cs i us s w = (ret, stop, v, s1, w1)"
  shows "owns h s1 w1"
proof -
  obtain r fdi fdc wa where a: "perf_counters_start w = (r, (fdi, fdc), wa)"
    by (metis surj_pair)
  obtain rt s' m wb where b: "op_measure ops s wa = (rt, s', m, wb)" by (rule prod_cases4)
  obtain c wc where c: "perf_counters_stop fdi fdc wb = (c, wc)" by (metis surj_pair)
  have m: "good s'" "blocks s' = blocks s" "held wb = held wa"
    using assms(1) measure_ok [OF _ b] by (auto simp: owns_def)
  have "held wc = held w" by (rule perf_balance [OF a m(3) c])
  moreover have "s1 = s' \<and> held w1 = held wc"
    using assms(2) by (auto simp: loop_body_def a b c Let_def held_def env_defs split: if_splits)
  ultimately show ?thesis using assms(1) m by (auto simp: owns_def)
qed

lemma loop_owns:
  assumes "lim_max_iter lm \<le> int (length vs)" "owns h s w"
  shows "\<exists>ret it us s' w'. run_loop ops lm ws cs iter vs s w = Ret (ret, it, us, s', w') \<and> owns h s' w'"
proof -
  have "\<forall>i us s w ret stop v s1 w1. owns h s w \<longrightarrow>
      loop_body ops lm ws cs i us s w = (ret, stop, v, s1, w1) \<longrightarrow> owns h s1 w1"
    by (blast intro: body_owns)
  from run_loop_rule [where I = "owns h" and P = "\<lambda>_ _. True", OF _ assms(1) _ assms(2) this] show ?thesis by (simp add: fills_def) blast
qed

lemma cleanup_owns:
  assumes "owns h s w"
  shows "held (snd (op_cleanup ops s w)) = h"
proof -
  obtain ret w' where c: "op_cleanup ops s w = (ret, w')" by fastforce
  then show ?thesis using assms cleanup_ok [OF _ c] by (auto simp: owns_def)
qed

text \<open>Whatever the status and the clocks, an instance whose array is long enough is defined and,
  once \<^verbatim>\<open>init\<close> succeeded, gives back everything; the values it reports are the first \<open>it\<close> of the
  array.\<close>

lemma instance_releases:
  assumes lim: "lim_max_iter (instance_limits bench) \<le> int (length vs)"
    and init: "fst (op_init ops w) = 0"
  shows "\<exists>ret it us w'. run_benchmark_instance bench ops vs w = Ret (ret, it, us, w') \<and>
    held w' = held w"
proof -
  obtain s w1 where i: "op_init ops w = (0, s, w1)" using init by (metis prod.collapse)
  obtain r s2 w2 where wu: "run_warmup ops s w1 = (r, s2, w2)" by (rule prod_cases3)
  have o2: "owns (held w) s2 w2"
    using warmup_owns [OF _ wu] init_ok [OF i] by (simp add: owns_def)
  show ?thesis
  proof (cases "r = 0")
    case False
    then show ?thesis using i wu cleanup_owns [OF o2] by (simp add: run_benchmark_instance_def)
  next
    case True
    obtain ws w3 where ws: "clock_monotonic w2 = (ws, w3)" by fastforce
    obtain cs w4 where cs: "clock_thread_cpu w3 = (cs, w4)" by fastforce
    have "owns (held w) s2 w4"
      using o2 ws cs by (auto simp: owns_def held_def env_defs)
    from loop_owns [OF lim this]
    obtain ret it us s' w' where
      "run_loop ops (instance_limits bench) ws cs 0 vs s2 w4 = Ret (ret, it, us, s', w')"
      "owns (held w) s' w'" by blast
    then show ?thesis
      using i wu True ws cs cleanup_owns [of "held w" s' w']
      by (simp add: run_benchmark_instance_def Let_def)
  qed
qed

end

text \<open>A benchmark that also gives back what it took when \<^verbatim>\<open>init\<close> fails.\<close>

locale bench_tidy = bench_lifecycle +
  assumes init_fail: "op_init ops w = (ret, s, w') \<Longrightarrow> ret \<noteq> 0 \<Longrightarrow> held w' = held w"
begin

lemma instance_never_leaks:
  assumes "lim_max_iter (instance_limits bench) \<le> int (length vs)"
  shows "\<exists>ret it us w'. run_benchmark_instance bench ops vs w = Ret (ret, it, us, w') \<and>
    held w' = held w"
proof (cases "fst (op_init ops w) = 0")
  case True
  with assms show ?thesis by (intro instance_releases)
next
  case False
  then obtain r s w1 where i: "op_init ops w = (r, s, w1)" "r \<noteq> 0" by (metis prod.collapse)
  then show ?thesis using init_fail [OF i] by (simp add: run_benchmark_instance_def)
qed

end

subsection \<open>Any operations: bounds and the reasons to stop\<close>

lemma limit_bounds:
  "bm_max_iterations bench \<le> 31 \<Longrightarrow> lim_max_iter (instance_limits bench) \<le> 31"
  "1 \<le> lim_max_iter (instance_limits bench)"
  by (auto simp: instance_limits_def ssb_consts)

lemma instance_defined_any:
  assumes "bm_max_iterations bench \<le> 31" "length vs = 31" "fills P" "P 0 vs"
  shows "\<exists>ret it us w'. run_benchmark_instance bench ops vs w = Ret (ret, it, us, w') \<and>
    length us = 31 \<and> (ret \<noteq> 0 \<longrightarrow> it = None) \<and>
    (ret = 0 \<longrightarrow> (\<exists>n. it = Some n \<and> 1 \<le> n \<and> int n \<le> lim_max_iter (instance_limits bench) \<and> P n us))"
proof -
  obtain r s w1 where i: "op_init ops w = (r, s, w1)" by (rule prod_cases3)
  obtain r2 s2 w2 where wu: "run_warmup ops s w1 = (r2, s2, w2)" by (rule prod_cases3)
  obtain ws w3 where ws: "clock_monotonic w2 = (ws, w3)" by fastforce
  obtain cs w4 where cs: "clock_thread_cpu w3 = (cs, w4)" by fastforce
  have len: "lim_max_iter (instance_limits bench) \<le> int (length vs)"
    using limit_bounds(1) [OF assms(1)] assms(2) by simp
  from run_loop_rule [where I = "\<lambda>_ _. True" and s = s2 and w = w4 and ws = ws and cs = cs
      and ops = ops, OF assms(3) len assms(4)]
  obtain ret it us s' w' where l:
    "run_loop ops (instance_limits bench) ws cs 0 vs s2 w4 = Ret (ret, it, us, s', w')"
    "length us = 31" "P it us" "ret = 0 \<longrightarrow> 0 < it"
    "int it \<le> lim_max_iter (instance_limits bench)"
    using limit_bounds(2) [of bench] assms(2) by fastforce
  consider "r \<noteq> 0" | "r = 0" "r2 \<noteq> 0" | "r = 0" "r2 = 0" "ret \<noteq> 0" | "r = 0" "r2 = 0" "ret = 0"
    by blast
  then show ?thesis
    by cases (use i wu ws cs l assms(2) in \<open>simp_all add: run_benchmark_instance_def Let_def\<close>)
qed

lemma length_fresh [simp]: "length fresh_values = 31"
  by (simp add: fresh_values_def ssb_consts)

lemma instance_defined:
  assumes "bm_max_iterations bench \<le> 31"
  shows "\<exists>ret it us w'. run_benchmark_instance bench ops fresh_values w = Ret (ret, it, us, w') \<and>
    length us = 31 \<and> (ret \<noteq> 0 \<longrightarrow> it = None) \<and>
    (ret = 0 \<longrightarrow> (\<exists>n. it = Some n \<and> 1 \<le> n \<and> int n \<le> lim_max_iter (instance_limits bench) \<and> filled n us))"
  by (rule instance_defined_any [OF assms length_fresh fills_filled])
     (simp add: fresh_values_def filled_fresh)

text \<open>Operations that do not set the clocks.\<close>

definition keeps_clocks :: "'s bench_ops \<Rightarrow> bool" where
  "keeps_clocks ops \<longleftrightarrow>
     (\<forall>w. w_mono (snd (snd (op_init ops w))) = w_mono w \<and> w_cpu (snd (snd (op_init ops w))) = w_cpu w) \<and>
     (\<forall>f s w. op_warmup ops = Some f \<longrightarrow>
        w_mono (snd (snd (f s w))) = w_mono w \<and> w_cpu (snd (snd (f s w))) = w_cpu w) \<and>
     (\<forall>s w. w_mono (snd (snd (snd (op_measure ops s w)))) = w_mono w \<and>
            w_cpu (snd (snd (snd (op_measure ops s w)))) = w_cpu w)"

definition clocks :: "world \<Rightarrow> (nat \<Rightarrow> int \<times> int) \<times> (nat \<Rightarrow> int \<times> int)" where
  "clocks w = (w_mono w, w_cpu w)"

lemma clocks_simps [simp]:
  "clocks (snd (clock_monotonic w)) = clocks w" "clocks (snd (clock_thread_cpu w)) = clocks w"
  by (simp_all add: clocks_def env_defs)

lemma keeps_clocksD:
  assumes "keeps_clocks ops"
  shows "op_init ops w = (r, s, w') \<Longrightarrow> clocks w' = clocks w"
    and "op_warmup ops = Some f \<Longrightarrow> f s w = (r, s', w') \<Longrightarrow> clocks w' = clocks w"
    and "op_measure ops s w = (r, s', m, w') \<Longrightarrow> clocks w' = clocks w"
  using assms unfolding keeps_clocks_def clocks_def by (metis snd_conv)+

lemma perf_clocks:
  "perf_counters_start w = (r, fds, w1) \<Longrightarrow> clocks w1 = clocks w"
  "perf_counters_stop fdi fdc w = (v, w2) \<Longrightarrow> clocks w2 = clocks w"
  by (auto simp: perf_counters_start_def perf_counters_stop_def perf_counter_stop_def clocks_def
      env_defs Let_def split: if_splits)

lemma discard_clocks:
  "keeps_clocks ops \<Longrightarrow> discard_measures ops k s w = (ret, s', w') \<Longrightarrow> clocks w' = clocks w"
proof (induction k arbitrary: s w)
  case (Suc k)
  obtain r s1 m w1 where m: "op_measure ops s w = (r, s1, m, w1)" by (rule prod_cases4)
  then show ?case
    using Suc keeps_clocksD(3) [OF Suc.prems(1) m] by (auto split: if_splits)
qed simp

lemma warmup_clocks:
  assumes "keeps_clocks ops" "run_warmup ops s w = (ret, s', w')"
  shows "clocks w' = clocks w"
proof (cases "op_warmup ops")
  case None
  then show ?thesis using assms by (auto simp: run_warmup_def intro: discard_clocks)
next
  case (Some f)
  obtain r s1 w1 where f: "f s w = (r, s1, w1)" by (rule prod_cases3)
  show ?thesis
    using assms Some f keeps_clocksD(2) [OF assms(1) Some f] discard_clocks [OF assms(1), of 2 s1 w1]
    by (auto simp: run_warmup_def split: if_splits)
qed

text \<open>Why a loop may stop before its last iteration, at some reading \<open>k\<close> of a clock.\<close>

definition stop_reason ::
    "limits \<Rightarrow> int \<times> int \<Rightarrow> int \<times> int \<Rightarrow> (nat \<Rightarrow> int \<times> int) \<times> (nat \<Rightarrow> int \<times> int) \<Rightarrow> real list \<Rightarrow> bool" where
  "stop_reason lm ws cs ck values \<longleftrightarrow>
     (\<exists>k. lim_min_iter lm \<le> int (length values) \<and>
            sem_rel (mean_of values) (stddev_of values / sqrt (real (length values))) \<le> lim_target lm \<and>
            real_of_int (lim_min_runtime lm) \<le> elapsed ws (fst ck k) \<or>
          elapsed ws (fst ck k) \<ge> real_of_int (lim_max_runtime lm) \<or>
          elapsed cs (snd ck k) > real_of_int (lim_max_runtime lm * 2))"

lemma converged_now_iff:
  "converged_now lm values t \<longleftrightarrow> lim_min_iter lm \<le> int (length values) \<and>
     sem_rel (mean_of values) (stddev_of values / sqrt (real (length values))) \<le> lim_target lm \<and>
     real_of_int (lim_min_runtime lm) \<le> t"
  by (simp add: converged_now_def case_prod_beta Let_def)

lemma body_clocks:
  assumes "keeps_clocks ops" "loop_body ops lm ws cs i us s w = (ret, stop, v, s1, w1)"
  shows "clocks w1 = clocks w \<and>
    (ret = 0 \<longrightarrow> stop \<longrightarrow> stop_reason lm ws cs (clocks w) (map the (take (Suc i) (us[i := Some v]))))"
proof -
  obtain r fdi fdc wa where a: "perf_counters_start w = (r, (fdi, fdc), wa)"
    by (metis surj_pair)
  obtain rt s' m wb where b: "op_measure ops s wa = (rt, s', m, wb)" by (rule prod_cases4)
  obtain c wc where c: "perf_counters_stop fdi fdc wb = (c, wc)" by (metis surj_pair)
  have ck: "clocks wc = clocks w"
    using perf_clocks(1) [OF a] keeps_clocksD(3) [OF assms(1) b] perf_clocks(2) [OF c] by simp
  then have r: "w_mono wc = fst (clocks w)" "w_cpu wc = snd (clocks w)" by (auto simp: clocks_def)
  show ?thesis
    using assms(2) ck r unfolding stop_reason_def
    by (auto simp: loop_body_def a b c Let_def clocks_def env_defs converged_now_iff split: if_splits)
qed

lemma run_loop_stop:
  assumes "keeps_clocks ops"
  shows "run_loop ops lm ws cs iter vs s w = Ret (0, it, us, s', w') \<Longrightarrow>
    lim_max_iter lm \<le> int (length vs) \<Longrightarrow> int it < lim_max_iter lm \<Longrightarrow> int iter \<le> lim_max_iter lm \<Longrightarrow>
    stop_reason lm ws cs (clocks w) (map the (take it us))"
proof (induction "nat (lim_max_iter lm - int iter)" arbitrary: iter vs s w)
  case 0
  then show ?case by (auto simp: run_loop_end)
next
  case (Suc n)
  then have more: "int iter < lim_max_iter lm" and room: "iter < length vs" by linarith+
  obtain ret stop v s1 w1 where b: "loop_body ops lm ws cs iter vs s w = (ret, stop, v, s1, w1)"
    by (rule prod_cases5)
  note ck = body_clocks [OF assms b]
  have n: "n = nat (lim_max_iter lm - int (Suc iter))" using Suc.hyps(2) by linarith
  have "ret = 0" using Suc.prems(1) b more room by (auto simp: run_loop_body split: if_splits)
  then show ?case
    using Suc.hyps(1) [OF n, of "vs[iter := Some v]" s1 w1] Suc.prems b more room ck
    by (cases stop) (auto simp: run_loop_body)
qed

lemma instance_success_facts:
  assumes "bm_max_iterations bench \<le> 31" "keeps_clocks ops"
    "run_benchmark_instance bench ops fresh_values w = Ret (0, Some n, us, w')"
    "int n < lim_max_iter (instance_limits bench)"
  shows "\<exists>i j. stop_reason (instance_limits bench) (w_mono w i) (w_cpu w j) (w_mono w, w_cpu w)
    (map the (take n us))"
proof -
  obtain r s w1 where i: "op_init ops w = (r, s, w1)" by (rule prod_cases3)
  obtain r2 s2 w2 where wu: "run_warmup ops s w1 = (r2, s2, w2)" by (rule prod_cases3)
  obtain ws w3 where ws: "clock_monotonic w2 = (ws, w3)" by fastforce
  obtain cs w4 where cs: "clock_thread_cpu w3 = (cs, w4)" by fastforce
  have ck: "clocks w2 = clocks w"
    using keeps_clocksD(1) [OF assms(2) i] warmup_clocks [OF assms(2) wu] by simp
  have c4: "clocks w4 = (w_mono w, w_cpu w)" and st: "\<exists>i. ws = w_mono w i" "\<exists>j. cs = w_cpu w j"
    using ck ws cs by (auto simp: clocks_def env_defs)
  have "r = 0" "r2 = 0"
    using assms(3) i wu by (auto simp: run_benchmark_instance_def Let_def split: if_splits)
  then obtain s' w5 where
    "run_loop ops (instance_limits bench) ws cs 0 fresh_values s2 w4 = Ret (0, n, us, s', w5)"
    using assms(3) i wu ws cs
    by (auto simp: run_benchmark_instance_def Let_def out_bind_eq_Ret split: if_splits)
  then have "stop_reason (instance_limits bench) ws cs (clocks w4) (map the (take n us))"
    by (rule run_loop_stop [OF assms(2)])
       (use limit_bounds [of bench] assms in \<open>simp_all add: fresh_values_def ssb_consts\<close>)
  then show ?thesis using st by (auto simp: c4)
qed

text \<open>
  C2. One instance of a benchmark whose descriptor asks for at most 31 iterations, with any
  operations: there is no undefined behaviour; on success between 1 and the maximum of values
  were written, to the first places of the array; when the loop stopped before its maximum, then
  (the operations leaving the clocks alone) for one of the three reasons of the code: the relative
  standard error reached the target after the minimum of iterations and of runtime, the maximum
  runtime passed on the wall clock, or twice that on the CPU clock.
\<close>

theorem instance_sound:
  assumes "bm_max_iterations bench \<le> 31"
  shows "\<exists>ret it us w'. run_benchmark_instance bench ops fresh_values w = Ret (ret, it, us, w') \<and>
    (ret = 0 \<longrightarrow> (\<exists>n. it = Some n \<and> 1 \<le> n \<and> int n \<le> lim_max_iter (instance_limits bench) \<and>
       filled n us \<and>
       (keeps_clocks ops \<longrightarrow> int n < lim_max_iter (instance_limits bench) \<longrightarrow>
          (\<exists>i j. stop_reason (instance_limits bench) (w_mono w i) (w_cpu w j) (w_mono w, w_cpu w)
             (map the (take n us))))))"
proof -
  obtain ret it us w' where
    r: "run_benchmark_instance bench ops fresh_values w = Ret (ret, it, us, w')"
    and ok: "ret = 0 \<longrightarrow> (\<exists>n. it = Some n \<and> 1 \<le> n \<and>
      int n \<le> lim_max_iter (instance_limits bench) \<and> filled n us)"
    using instance_defined [OF assms, of ops w] by blast
  show ?thesis
  proof (cases "ret = 0")
    case True
    with ok obtain n where n: "it = Some n" "1 \<le> n" "int n \<le> lim_max_iter (instance_limits bench)"
      "filled n us" by blast
    show ?thesis
      using r n True instance_success_facts [OF assms, of ops w n us w'] by simp
  next
    case False
    then show ?thesis using r by simp
  qed
qed

text \<open>A benchmark that returns the same value at once, for the closed examples.\<close>

definition constant_bench :: "real \<Rightarrow> unit bench_ops" where
  "constant_bench v = \<lparr>op_init = (\<lambda>w. (0, (), w)), op_warmup = None,
     op_measure = (\<lambda>s w. (0, s, \<lparr>primary_metric = v, wall_seconds = 1, cpu_seconds = 1,
        instructions = 0, cycles = 0, cache_misses = 0\<rparr>, w)),
     op_cleanup = (\<lambda>s w. (0, w))\<rparr>"

definition example_bench :: benchmark_t where
  "example_bench = \<lparr>bm_name = ''example'', bm_category = ''C1'', bm_description = [], bm_tier = 1,
     bm_primary_metric_name = ''ops/sec'', bm_higher_is_better = True, bm_min_iterations = 2,
     bm_max_iterations = 3, bm_convergence_target = 2 / 100, bm_min_runtime_sec = 1,
     bm_max_runtime_sec = 9, bm_cooldown_required = False, bm_init = ''init'', bm_warmup = None,
     bm_measure = ''measure'', bm_cleanup = ''cleanup'', bm_num_threads = 1\<rparr>"

text \<open>A world whose wall clock advances by five seconds at every reading.\<close>

definition ticking_world :: world where
  "ticking_world = quiet_world\<lparr>w_mono := (\<lambda>k. (5 * int k, 0))\<rparr>"

lemma keeps_constant: "keeps_clocks (constant_bench v)"
  by (simp add: keeps_clocks_def constant_bench_def)

text \<open>Two values suffice there: they are equal, and ten seconds have passed.\<close>

lemma example_run:
  "run_benchmark_instance example_bench (constant_bench 7) fresh_values ticking_world =
    Ret (0, Some 2, fresh_values[0 := Some 7, 1 := Some 7],
      ticking_world\<lparr>w_mono_pos := 3, w_cpu_pos := 2, w_perf_pos := 4\<rparr>)"
  by (simp add: run_benchmark_instance_def run_warmup_def numeral_2_eq_2 constant_bench_def
      run_loop.simps instance_limits_def example_bench_def perf_counters_start_def
      perf_counters_stop_def perf_counter_stop_def env_defs Let_def ticking_world_def
      quiet_world_def ssb_consts converged_now_def elapsed_def stats_mean_stddev_def
      loop_sum_def sem_rel_def)

lemma instance_sound_witness:
  "bm_max_iterations example_bench \<le> 31 \<and> keeps_clocks (constant_bench 7) \<and>
   int 2 < lim_max_iter (instance_limits example_bench) \<and>
   (\<exists>i j. stop_reason (instance_limits example_bench) (w_mono ticking_world i) (w_cpu ticking_world j)
      (w_mono ticking_world, w_cpu ticking_world)
      (map the (take 2 (fresh_values[0 := Some 7, 1 := Some 7]))))"
  using instance_sound [of example_bench "constant_bench 7" ticking_world] example_run
    keeps_constant [of 7]
  by (simp add: example_bench_def instance_limits_def)

subsection \<open>harness\_run\_single: the effect of the overrides\<close>

lemma read_filled:
  assumes "filled n vs" "n < length vs"
  shows "read_values m vs = (if m \<le> n then Ret (map the (take m vs))
    else if m \<le> length vs then Undef UninitRead else Undef OobRead)"
proof (cases "m \<le> n")
  case True
  then have "set (take m vs) \<subseteq> set (take n vs)" by (rule set_take_subset_set_take)
  then show ?thesis using True assms by (auto simp: read_values_def filled_def)
next
  case False
  then have "m \<le> length vs \<Longrightarrow> None \<in> set (take m vs)"
    using assms by (auto simp: filled_def in_set_conv_nth intro!: exI [of _ n])
  then show ?thesis using False by (auto simp: read_values_def)
qed

lemma read_full:
  assumes "filled n vs"
  shows "is_ret (read_values m vs) \<longleftrightarrow> m \<le> n"
    and "m \<le> n \<Longrightarrow> read_values m vs = Ret (map the (take m vs))"
proof -
  show "m \<le> n \<Longrightarrow> read_values m vs = Ret (map the (take m vs))"
    using set_take_subset_set_take [of m n vs] assms by (auto simp: read_values_def filled_def)
  then show "is_ret (read_values m vs) \<longleftrightarrow> m \<le> n"
  proof (cases "n < length vs")
    case True
    then show ?thesis using assms by (simp add: read_filled)
  next
    case False
    then show ?thesis
      using assms \<open>m \<le> n \<Longrightarrow> read_values m vs = Ret (map the (take m vs))\<close>
      by (auto simp: read_values_def filled_def)
  qed
qed

lemma stats_on_ret:
  "length vs \<le> 31 \<Longrightarrow> \<exists>r s' w'. stats_on vs st w = Ret (r, s', w') \<and>
     (2 \<le> length vs \<longrightarrow> st_iterations s' = length vs \<and> st_mean s' = mean_of vs)"
  by (auto simp: stats_on_def stats_compute_def Let_def env_defs split: prod.split)

lemma single_result:
  assumes "run_benchmark_instance bench ops fresh_values w = Ret (0, Some n, us, w')"
    "filled n us" "n \<le> 31" "m = nat (clamp_iter cfg (int n))"
  shows "m \<le> n \<Longrightarrow> \<exists>s' w2. harness_run_single bench ops st (Some cfg) w = Ret (0, s', w2) \<and>
      (2 \<le> m \<longrightarrow> st_iterations s' = m \<and> st_mean s' = mean_of (map the (take m us)))"
    and "n < m \<Longrightarrow> \<exists>u. harness_run_single bench ops st (Some cfg) w = Undef u"
proof -
  assume m: "m \<le> n"
  then have len: "length (map the (take m us)) = m" "m \<le> 31"
    using assms(2,3) by (auto simp: filled_def)
  from stats_on_ret [of "map the (take m us)" st w'] obtain r s' w2 where
    "stats_on (map the (take m us)) st w' = Ret (r, s', w2)"
    "2 \<le> m \<longrightarrow> st_iterations s' = m \<and> st_mean s' = mean_of (map the (take m us))"
    unfolding len(1) using len(2) by blast
  then show "\<exists>s' w2. harness_run_single bench ops st (Some cfg) w = Ret (0, s', w2) \<and>
      (2 \<le> m \<longrightarrow> st_iterations s' = m \<and> st_mean s' = mean_of (map the (take m us)))"
    using read_full(2) [OF assms(2) m] assms(4) by (simp add: harness_run_single_def assms(1))
next
  assume "n < m"
  then have "\<not> is_ret (read_values m us)"
    using read_full(1) [OF assms(2)] by simp
  then obtain u where "read_values m us = Undef u" by (cases "read_values m us") auto
  then show "\<exists>u. harness_run_single bench ops st (Some cfg) w = Undef u"
    using assms(4) by (simp add: harness_run_single_def assms(1))
qed

lemma clamp_le_iff: "clamp_iter cfg i \<le> i \<longleftrightarrow> cfg_min_iterations cfg \<le> 0 \<or> cfg_min_iterations cfg \<le> i"
  by (auto simp: clamp_iter_def Let_def)

text \<open>
  C25. The configured overrides of \<^verbatim>\<open>harness_run_single\<close> only cut or stretch the count after the run.
  For a benchmark that produced \<open>n\<close> values the call is defined exactly when the configured minimum
  is at most \<open>n\<close> (a larger one makes the statistics read elements of \<^verbatim>\<open>values\<close> that were never
  written); when it is defined the result describes the first \<open>clamp_iter cfg n\<close> values.
\<close>

theorem single_override:
  assumes "bm_max_iterations bench \<le> 31"
    "run_benchmark_instance bench ops fresh_values w = Ret (0, Some n, us, w')"
    "m = nat (clamp_iter cfg (int n))"
  shows "(is_ret (harness_run_single bench ops st (Some cfg) w) \<longleftrightarrow> cfg_min_iterations cfg \<le> int n) \<and>
    (cfg_min_iterations cfg \<le> int n \<and> 2 \<le> m \<longrightarrow>
      (\<exists>s' w2. harness_run_single bench ops st (Some cfg) w = Ret (0, s', w2) \<and>
         st_iterations s' = m \<and> st_mean s' = mean_of (map the (take m us))))"
proof -
  have f: "filled n us" "n \<le> 31"
    using instance_defined [OF assms(1), of ops w] assms(2) limit_bounds(1) [OF assms(1)] by auto
  note r = single_result [OF assms(2) f assms(3)]
  have "m \<le> n \<longleftrightarrow> cfg_min_iterations cfg \<le> int n"
    using clamp_le_iff [of cfg "int n"] assms(3) by auto
  then show ?thesis
    using r(1) [of st] r(2) [of st] by (cases "m \<le> n") auto
qed

text \<open>The shipped configuration asks for five iterations; the example stops after two.\<close>

lemma single_override_witness:
  "\<not> is_ret (harness_run_single example_bench (constant_bench 7) zero_stats
      (Some (default_config\<lparr>cfg_min_iterations := 5\<rparr>)) ticking_world)"
  using single_override [of example_bench "constant_bench 7" ticking_world 2, OF _ example_run,
      of _ "default_config\<lparr>cfg_min_iterations := 5\<rparr>"]
  by (simp add: example_bench_def)

end
