(* ===== verification/Parallel.thy ===== *)
theory Parallel
  imports Harness MemPolicy Placement
begin

text \<open>
  \<^verbatim>\<open>harness_run_parallel\<close>: the one-time set-up of the pinning and memory statics, one pipe and one
  process per instance, the collection of the reports and their aggregation. What the operating
  system decides for child \<open>i\<close> is a parameter: the machine it runs on, or \<open>None\<close> when it makes no
  report (the fork failed, the child was killed, the pipe was short).
\<close>

subsection \<open>The report of one child\<close>

record child_result_t =
  cr_ret :: int
  cr_iter :: nat
  cr_values :: "real option list"

text \<open>\<open>{ .ret = -1, .iter = 0 }\<close> zeroes the values, so every element counts as written.\<close>

definition zero_values :: "real option list" where
  "zero_values = replicate (nat SSB_MAX_ITERATIONS) (Some 0)"

definition zero_child :: child_result_t where
  "zero_child = \<lparr>cr_ret = 0, cr_iter = 0, cr_values = zero_values\<rparr>"

definition child_process ::
    "benchmark_t \<Rightarrow> 's bench_ops \<Rightarrow> world option \<Rightarrow> child_result_t option outcome" where
  "child_process bench ops cw =
     (case cw of
        None \<Rightarrow> Ret None
      | Some w \<Rightarrow>
          out_bind (run_benchmark_instance bench ops zero_values w)
            (\<lambda>(ret, it, vs, _). Ret (Some
               \<lparr>cr_ret = ret, cr_iter = (case it of Some n \<Rightarrow> n | None \<Rightarrow> 0), cr_values = vs\<rparr>)))"

subsection \<open>The statics\<close>

text \<open>The files and counts read from the host, and the \<^verbatim>\<open>static\<close> variables.\<close>

record host =
  h_ncpu :: int
  h_siblings :: "nat \<Rightarrow> string option"
  h_cpulist :: "nat \<Rightarrow> string option"
  h_topo_file :: "string \<Rightarrow> string option"

record statics =
  s_phys :: "(int list \<times> int) option"
  s_pins :: "int list option \<times> int"
  s_cpu_to_numa :: "int list option"
  s_numa_topo_set :: bool
  s_membind :: "int \<times> bool"

definition statics_init :: statics where
  "statics_init = \<lparr>s_phys = None, s_pins = (None, 0), s_cpu_to_numa = None,
     s_numa_topo_set = False, s_membind = (-1, False)\<rparr>"

text \<open>The final loop of the set-up reads \<open>s_cpu_to_numa[cpu]\<close> for every pinned CPU below the count.\<close>

definition check_pins :: "int \<Rightarrow> statics \<Rightarrow> statics outcome" where
  "check_pins ncpu st =
     (case s_pins st of
        (Some pins, n) \<Rightarrow>
          if n > 0 \<and> s_numa_topo_set st \<and> (\<exists>c \<in> set (take (nat n) pins). c < ncpu \<and> c < 0)
          then Undef OobRead else Ret st
      | (None, n) \<Rightarrow> Ret st)"

text \<open>\<open>mem k\<close>: whether the k-th allocation of the set-up succeeds (the physical map, the pin list,
  the NUMA map, the copy of the topology text). A null NUMA map is still handed to
  \<open>harness_parse_numa_bind\<close>, which writes through it.\<close>

definition parallel_setup ::
    "host \<Rightarrow> (nat \<Rightarrow> bool) \<Rightarrow> run_config_t option \<Rightarrow> statics \<Rightarrow> statics outcome" where
  "parallel_setup h mem config st =
     (if s_phys st \<noteq> None \<or> fst (s_pins st) \<noteq> None then Ret st
      else out_bind (harness_get_physical_cores (h_ncpu h) (h_siblings h) (mem 0))
        (\<lambda>phys.
           let ncpu = h_ncpu h;
               pin_spec = (case config of Some c \<Rightarrow> cfg_cpu_pin_spec c | None \<Rightarrow> None);
               topo_spec = (case config of Some c \<Rightarrow> cfg_numa_topo_spec c | None \<Rightarrow> None);
               mem_spec = (case config of Some c \<Rightarrow> cfg_membind_spec c | None \<Rightarrow> None);
               pins = (if pin_spec = None then s_pins st
                       else harness_parse_cpu_spec ncpu (h_cpulist h) (mem 1) pin_spec);
               c2n = (if mem 2 then Some (replicate (nat ncpu) (-1)) else None)
           in out_bind
                (if topo_spec = None \<or> topo_spec = Some [] then Ret (c2n, False)
                 else case c2n of
                     None \<Rightarrow> Undef OobWrite
                   | Some arr \<Rightarrow>
                       out_bind (harness_parse_numa_bind ncpu (h_topo_file h) (mem 3) topo_spec arr)
                         (\<lambda>(arr, nbound). Ret (Some arr, nbound > 0)))
                (\<lambda>(c2n, topo_set).
                   check_pins ncpu \<lparr>s_phys = phys, s_pins = pins, s_cpu_to_numa = c2n,
                     s_numa_topo_set = topo_set, s_membind = parse_membind mem_spec\<rparr>)))"

text \<open>Where child \<open>i\<close> runs and the memory policy it sets before \<^verbatim>\<open>init\<close>.\<close>

definition child_place :: "host \<Rightarrow> statics \<Rightarrow> nat \<Rightarrow> (int \<times> mempolicy \<times> 64 word \<times> int) outcome" where
  "child_place h st i =
     (let pin_cpu = child_pin_cpu (h_ncpu h) i (s_pins st) (s_phys st)
      in out_bind
           (case s_cpu_to_numa st of
              Some c2n \<Rightarrow> child_mempolicy c2n (s_membind st) pin_cpu
            | None \<Rightarrow> if \<not> snd (s_membind st) \<and> fst (s_membind st) \<ge> 0
                then child_mempolicy [] (s_membind st) pin_cpu else Undef OobRead)
           (\<lambda>pol. Ret (pin_cpu, pol)))"

subsection \<open>Spawning and collecting\<close>

text \<open>On a failing \<^verbatim>\<open>pipe\<close> both ends of every earlier pipe are closed (the write ends a second
  time) and the children are left alone.\<close>

fun close_pipes :: "(int \<times> int) list \<Rightarrow> world \<Rightarrow> world" where
  "close_pipes [] w = w"
| "close_pipes ((rd, wr) # ps) w = close_pipes ps (c_close wr (c_close rd w))"

fun spawn_loop :: "nat \<Rightarrow> (int \<times> int) list \<Rightarrow> world \<Rightarrow> (int \<times> int) list option \<times> world" where
  "spawn_loop 0 pipes w = (Some pipes, w)"
| "spawn_loop (Suc left) pipes w =
     (case c_pipe w of
        (None, w) \<Rightarrow> (None, close_pipes pipes w)
      | (Some (rd, wr), w) \<Rightarrow> spawn_loop left (pipes @ [(rd, wr)]) (c_close wr w))"

fun children_place :: "host \<Rightarrow> statics \<Rightarrow> nat \<Rightarrow> unit outcome" where
  "children_place h st 0 = Ret ()"
| "children_place h st (Suc i) = out_bind (children_place h st i) (\<lambda>_. out_bind (child_place h st i) (\<lambda>_. Ret ()))"

text \<open>\<open>waitpid\<close> and \<^verbatim>\<open>read\<close> for every child in turn: the results and whether any failed.\<close>

fun collect_loop ::
    "(nat \<Rightarrow> child_result_t option outcome) \<Rightarrow> nat \<Rightarrow> (int \<times> int) list \<Rightarrow> world
     \<Rightarrow> (child_result_t list \<times> bool \<times> world) outcome" where
  "collect_loop child i [] w = Ret ([], False, w)"
| "collect_loop child i ((rd, wr) # ps) w =
     out_bind (child i)
       (\<lambda>c. out_bind (collect_loop child (Suc i) ps (c_close rd w))
          (\<lambda>(rs, failed, w).
             case c of
               None \<Rightarrow> Ret (zero_child # rs, True, w)
             | Some r \<Rightarrow> Ret (r # rs, cr_ret r \<noteq> 0 \<or> failed, w)))"

fun close_reads :: "(int \<times> int) list \<Rightarrow> world \<Rightarrow> world" where
  "close_reads [] w = w"
| "close_reads ((rd, wr) # ps) w = close_reads ps (c_close rd w)"

subsection \<open>Aggregation\<close>

definition all_values_size :: nat where "all_values_size = nat (SSB_MAX_ITERATIONS * 32)"

text \<open>Throughput: one mean per instance. Latency: every value of every instance. Both stop
  adding when \<^verbatim>\<open>all_values\<close> is full.\<close>

fun instance_means :: "child_result_t list \<Rightarrow> real list \<Rightarrow> real list outcome" where
  "instance_means [] all_values = Ret all_values"
| "instance_means (r # rs) all_values =
     (if cr_iter r > 0 then
        out_bind (read_values (cr_iter r) (cr_values r))
          (\<lambda>vs. let inst_mean = loop_sum (\<lambda>x. x) vs / real (cr_iter r)
                in instance_means rs
                     (if length all_values < all_values_size then all_values @ [inst_mean] else all_values))
      else instance_means rs all_values)"

fun pool_values :: "child_result_t list \<Rightarrow> real list \<Rightarrow> real list outcome" where
  "pool_values [] all_values = Ret all_values"
| "pool_values (r # rs) all_values =
     out_bind (read_values (min (cr_iter r) (all_values_size - length all_values)) (cr_values r))
       (\<lambda>vs. pool_values rs (all_values @ vs))"

definition aggregate :: "bool \<Rightarrow> child_result_t list \<Rightarrow> real list outcome" where
  "aggregate higher_is_better results =
     (if higher_is_better then instance_means results [] else pool_values results [])"

definition parallel_stats ::
    "bool \<Rightarrow> child_result_t list \<Rightarrow> benchmark_stats_t \<Rightarrow> world \<Rightarrow> (benchmark_stats_t \<times> world) outcome" where
  "parallel_stats higher_is_better results stats w =
     out_bind (aggregate higher_is_better results)
       (\<lambda>all_values.
          if all_values \<noteq> []
          then out_bind (stats_on all_values stats w) (\<lambda>(_, stats, w). Ret (stats, w))
          else Ret (zero_stats, w))"

subsection \<open>harness\_run\_parallel\<close>

definition harness_run_parallel ::
    "host \<Rightarrow> (nat \<Rightarrow> bool) \<Rightarrow> (nat \<Rightarrow> world option) \<Rightarrow> benchmark_t \<Rightarrow> 's bench_ops \<Rightarrow> nat
     \<Rightarrow> benchmark_stats_t \<Rightarrow> run_config_t option \<Rightarrow> statics \<Rightarrow> world
     \<Rightarrow> (int \<times> benchmark_stats_t \<times> statics \<times> world) outcome" where
  "harness_run_parallel h mem child_world bench ops num_instances stats config st w =
     (let (p1, w) = c_malloc w; (p2, w) = c_malloc w
      in if \<not> p1 \<or> \<not> p2 then Ret (-1, stats, st, c_free p2 (c_free p1 w))
         else out_bind (parallel_setup h mem config st)
           (\<lambda>st.
              case spawn_loop num_instances [] w of
                (None, w) \<Rightarrow> Ret (-1, stats, st, c_free p2 (c_free p1 w))
              | (Some pipes, w) \<Rightarrow>
                  out_bind (children_place h st num_instances)
                  (\<lambda>_. let (p3, w) = c_malloc w
                   in if \<not> p3
                      then Ret (-1, stats, st, c_free p2 (c_free p1 (close_reads pipes w)))
                      else out_bind (collect_loop (\<lambda>i. child_process bench ops (child_world i)) 0 pipes w)
                        (\<lambda>(results, any_failed, w).
                           out_bind
                             (if any_failed then Ret (stats, w)
                              else parallel_stats (bm_higher_is_better bench) results stats w)
                             (\<lambda>(stats, w). Ret (if any_failed then -1 else 0, stats, st,
                                c_free p2 (c_free p1 (c_free p3 w))))))))"

subsection \<open>Lemmas: reports, descriptors, memory\<close>

lemma child_process_facts:
  assumes "bm_max_iterations bench \<le> 31"
  shows "\<exists>c. child_process bench ops cw = Ret c \<and>
    (\<forall>r. c = Some r \<longrightarrow> cr_ret r = 0 \<longrightarrow> 1 \<le> cr_iter r \<and> cr_iter r \<le> 31 \<and> written (cr_iter r) (cr_values r))"
proof (cases cw)
  case None
  then show ?thesis by (simp add: child_process_def)
next
  case (Some w)
  obtain ret it us w' where
    r: "run_benchmark_instance bench ops zero_values w = Ret (ret, it, us, w')"
    "ret = 0 \<longrightarrow> (\<exists>n. it = Some n \<and> 1 \<le> n \<and> int n \<le> lim_max_iter (instance_limits bench) \<and> written n us)"
    using instance_defined_any [OF assms _ fills_written, of zero_values ops w]
    by (auto simp: zero_values_def ssb_consts written_def)
  then show ?thesis
    using limit_bounds(1) [OF assms] by (auto simp: child_process_def Some)
qed

lemma read_written: "written n vs \<Longrightarrow> m \<le> n \<Longrightarrow> read_values m vs = Ret (map the (take m vs))"
  using set_take_subset_set_take [of m n vs] by (auto simp: written_def read_values_def)

lemma instance_means_eq:
  assumes "\<forall>r \<in> set rs. 1 \<le> cr_iter r \<and> written (cr_iter r) (cr_values r)"
    "length acc + length rs \<le> all_values_size"
  shows "instance_means rs acc = Ret (acc @ map (\<lambda>r. mean_of (map the (take (cr_iter r) (cr_values r)))) rs)"
  using assms
proof (induction rs arbitrary: acc)
  case (Cons r rs)
  have "length (take (cr_iter r) (cr_values r)) = cr_iter r"
    using Cons.prems(1) by (auto simp: written_def)
  then show ?case
    using Cons by (simp add: read_written [of "cr_iter r"] mean_of_eq loop_simps)
qed simp

lemma length_instance_means:
  assumes "\<forall>r \<in> set rs. 1 \<le> cr_iter r \<and> written (cr_iter r) (cr_values r)"
  shows "\<exists>vs. instance_means rs acc = Ret vs \<and> (length acc \<le> all_values_size \<longrightarrow>
    length vs = min all_values_size (length acc + length rs))"
  using assms
proof (induction rs arbitrary: acc)
  case (Cons r rs)
  then show ?case
    by (force simp: read_written [of "cr_iter r"] Let_def)
qed auto

lemma pool_values_eq:
  assumes "\<forall>r \<in> set rs. written (cr_iter r) (cr_values r)" "length acc \<le> all_values_size"
  shows "pool_values rs acc =
    Ret (take all_values_size (acc @ concat (map (\<lambda>r. map the (take (cr_iter r) (cr_values r))) rs)))"
  using assms
proof (induction rs arbitrary: acc)
  case (Cons r rs)
  let ?v = "map the (take (cr_iter r) (cr_values r))"
  let ?m = "min (cr_iter r) (all_values_size - length acc)"
  have rd: "read_values ?m (cr_values r) = Ret (map the (take ?m (cr_values r)))"
    by (rule read_written [of "cr_iter r"]) (use Cons.prems in auto)
  have eq: "map the (take ?m (cr_values r)) = take (all_values_size - length acc) ?v"
    by (simp add: take_map min.commute)
  have "take all_values_size ((acc @ take (all_values_size - length acc) ?v) @ xs) =
      take all_values_size (acc @ ?v @ xs)" for xs
    using Cons.prems(2) by (cases "length ?v \<le> all_values_size - length acc") auto
  then show ?case
    using Cons.IH [of "acc @ take (all_values_size - length acc) ?v"] Cons.prems
    by (simp add: rd eq)
qed simp

lemma draw_sample_held: "held (snd (draw_sample c_rand values n w)) = held w"
proof (induction n arbitrary: w)
  case (Suc n)
  then show ?case using held_simps(1) [of w] by (simp add: case_prod_beta)
qed simp

lemma boot_means_held: "held (snd (boot_means c_rand values n w)) = held w"
proof (induction n arbitrary: w)
  case (Suc n)
  then show ?case using draw_sample_held [of "values" "length values" w] by (simp add: case_prod_beta)
qed simp

lemma stats_compute_held:
  assumes "stats_compute c_rand ok values out w = Ret (r, s', w')"
  shows "held w' = held w"
proof -
  have "held (snd (stats_bootstrap_bca c_rand ok values n w)) = held w" for n
    using boot_means_held [of "values" n w]
    by (simp add: stats_bootstrap_bca_def stats_bootstrap_percentile_def Let_def case_prod_beta)
  then show ?thesis
    using assms by (auto simp: stats_compute_def Let_def case_prod_beta split: if_splits)
qed

lemma stats_on_held:
  assumes "stats_on values st w = Ret (r, s', w')"
  shows "held w' = held w"
proof -
  obtain p1 w1 where m1: "c_malloc w = (p1, w1)" by fastforce
  obtain p2 w2 where m2: "c_malloc w1 = (p2, w2)" by fastforce
  show ?thesis
  proof (cases "length values < 2")
    case True
    then show ?thesis using assms by (simp add: stats_on_def)
  next
    case False
    then obtain r3 out w3 where c: "stats_compute c_rand (p1 \<and> p2) values (Some st) w2 = Ret (r3, out, w3)"
      and w': "w' = c_free p2 (c_free p1 w3)"
      using assms m1 m2 by (auto simp: stats_on_def out_bind_eq_Ret)
    have "held w3 = held w2" using c by (rule stats_compute_held)
    then show ?thesis
      using held_malloc [of w] held_malloc [of w1] m1 m2 by (auto simp: w' c_free_def held_def)
  qed
qed

definition pipes_ok :: "world \<Rightarrow> bool" where
  "pipes_ok w \<longleftrightarrow> (\<forall>k. w_pipe w k \<noteq> None)"

lemma spawn_ok:
  assumes "pipes_ok w"
  shows "\<exists>ps w'. spawn_loop n acc w = (Some (acc @ ps), w') \<and> length ps = n \<and>
    mset (w_fds w') = mset (map fst ps) + mset (w_fds w) \<and> w_live w' = w_live w \<and>
    w_alloc w' = w_alloc w"
  using assms
proof (induction n arbitrary: acc w)
  case (Suc n)
  obtain rd wr where p: "w_pipe w (w_pipe_pos w) = Some (rd, wr)"
    using Suc.prems unfolding pipes_ok_def by (metis not_Some_eq surj_pair)
  let ?w = "c_close wr (w\<lparr>w_pipe_pos := Suc (w_pipe_pos w), w_fds := wr # rd # w_fds w\<rparr>)"
  have "pipes_ok ?w" using Suc.prems by (simp add: pipes_ok_def c_close_def)
  from Suc.IH [OF this, of "acc @ [(rd, wr)]"] obtain ps w' where
    "spawn_loop n (acc @ [(rd, wr)]) ?w = (Some ((acc @ [(rd, wr)]) @ ps), w')" "length ps = n"
    "mset (w_fds w') = mset (map fst ps) + mset (w_fds ?w)" "w_live w' = w_live ?w"
    "w_alloc w' = w_alloc ?w" by blast
  then show ?case
    by (intro exI [of _ "(rd, wr) # ps"] exI [of _ w'])
       (simp add: c_pipe_def p Let_def c_close_def)
qed simp

lemma collect_ok:
  assumes "\<forall>k < length ps. child (i + k) = Ret (Some (rs ! k))" "length rs = length ps"
  shows "\<exists>w'. collect_loop child i ps w = Ret (rs, \<exists>r \<in> set rs. cr_ret r \<noteq> 0, w') \<and>
    mset (w_fds w') = mset (w_fds w) - mset (map fst ps) \<and> w_live w' = w_live w"
  using assms
proof (induction ps arbitrary: i rs w)
  case (Cons p ps)
  obtain rd wr where p: "p = (rd, wr)" by fastforce
  obtain r rs' where rs: "rs = r # rs'" using Cons.prems(2) by (cases rs) auto
  have "\<forall>k < length ps. child (Suc i + k) = Ret (Some (rs' ! k))"
  proof (intro allI impI)
    fix k assume "k < length ps"
    then show "child (Suc i + k) = Ret (Some (rs' ! k))"
      using Cons.prems(1) [rule_format, of "Suc k"] rs by simp
  qed
  then obtain w' where
    "collect_loop child (Suc i) ps (c_close rd w) = Ret (rs', \<exists>r \<in> set rs'. cr_ret r \<noteq> 0, w')"
    "mset (w_fds w') = mset (w_fds (c_close rd w)) - mset (map fst ps)"
    "w_live w' = w_live (c_close rd w)"
    using Cons.IH [of "Suc i" rs' "c_close rd w"] Cons.prems(2) rs by auto
  moreover have "child i = Ret (Some r)" using Cons.prems(1) [rule_format, of 0] rs by simp
  ultimately show ?case by (simp add: p rs c_close_def)
qed simp

subsection \<open>Aggregation decides whether a parallel run is defined\<close>

text \<open>How many values the aggregation hands to \<open>stats_compute\<close>, and which.\<close>

definition pooled :: "bool \<Rightarrow> child_result_t list \<Rightarrow> real list" where
  "pooled higher_is_better rs =
     (let vals = (\<lambda>r. map the (take (cr_iter r) (cr_values r)))
      in if higher_is_better then map (\<lambda>r. mean_of (vals r)) rs else concat (map vals rs))"

definition good_report :: "child_result_t \<Rightarrow> bool" where
  "good_report r \<longleftrightarrow> cr_ret r = 0 \<and> 1 \<le> cr_iter r \<and> written (cr_iter r) (cr_values r)"

lemma aggregate_eq:
  assumes "\<forall>r \<in> set rs. good_report r"
  shows "\<exists>vs. aggregate hib rs = Ret vs \<and> length vs = min 992 (length (pooled hib rs)) \<and>
    (length (pooled hib rs) \<le> 992 \<longrightarrow> vs = pooled hib rs)"
proof (cases hib)
  case True
  have g: "\<forall>r \<in> set rs. 1 \<le> cr_iter r \<and> written (cr_iter r) (cr_values r)"
    using assms by (auto simp: good_report_def)
  obtain vs where "instance_means rs [] = Ret vs" "length vs = min all_values_size (length rs)"
    using length_instance_means [OF g, of "[]"] by auto
  then show ?thesis
    using True instance_means_eq [OF g, of "[]"]
    by (auto simp: aggregate_def pooled_def all_values_size_def ssb_consts Let_def)
next
  case False
  have g: "\<forall>r \<in> set rs. written (cr_iter r) (cr_values r)"
    using assms by (auto simp: good_report_def)
  then show ?thesis
    using False pool_values_eq [OF g, of "[]"]
    by (simp add: aggregate_def pooled_def all_values_size_def ssb_consts min.commute)
qed

lemma stats_on_defined: "is_ret (stats_on vs st w) \<longleftrightarrow> length vs \<le> 31"
proof (cases "length vs \<le> 31")
  case True
  then show ?thesis using stats_on_ret [of vs st w] by auto
next
  case False
  then show ?thesis
    by (simp add: stats_on_def stats_compute_overflow Let_def case_prod_beta)
qed

lemma parallel_stats_defined:
  assumes "\<forall>r \<in> set rs. good_report r"
  shows "is_ret (parallel_stats hib rs st w) \<longleftrightarrow> length (pooled hib rs) \<le> 31"
    and "length (pooled hib rs) \<le> 31 \<Longrightarrow> \<exists>s' w'. parallel_stats hib rs st w = Ret (s', w') \<and>
      held w' = held w \<and>
      (2 \<le> length (pooled hib rs) \<longrightarrow> st_mean s' = mean_of (pooled hib rs) \<and>
         st_iterations s' = length (pooled hib rs))"
proof -
  obtain vs where vs: "aggregate hib rs = Ret vs" "length vs = min 992 (length (pooled hib rs))"
    "length (pooled hib rs) \<le> 992 \<longrightarrow> vs = pooled hib rs"
    using aggregate_eq [OF assms] by blast
  show small: "\<exists>s' w'. parallel_stats hib rs st w = Ret (s', w') \<and> held w' = held w \<and>
      (2 \<le> length (pooled hib rs) \<longrightarrow> st_mean s' = mean_of (pooled hib rs) \<and>
         st_iterations s' = length (pooled hib rs))" if "length (pooled hib rs) \<le> 31"
  proof (cases "vs = []")
    case True
    then show ?thesis using vs that by (simp add: parallel_stats_def)
  next
    case False
    have eq: "vs = pooled hib rs" and len: "length vs \<le> 31" using vs that by auto
    obtain r s' w' where s: "stats_on vs st w = Ret (r, s', w')"
      "2 \<le> length vs \<longrightarrow> st_iterations s' = length vs \<and> st_mean s' = mean_of vs"
      using stats_on_ret [OF len, of st w] by blast
    then show ?thesis
      using False eq vs(1) stats_on_held [OF s(1)] by (simp add: parallel_stats_def)
  qed
  show "is_ret (parallel_stats hib rs st w) \<longleftrightarrow> length (pooled hib rs) \<le> 31"
  proof (cases "length (pooled hib rs) \<le> 31")
    case True
    then show ?thesis using small by auto
  next
    case False
    then have "vs \<noteq> []" "\<not> length vs \<le> 31" using vs(2) by auto
    then have "\<not> is_ret (stats_on vs st w)" by (simp add: stats_on_defined)
    then show ?thesis
      using False \<open>vs \<noteq> []\<close> vs(1) by (cases "stats_on vs st w") (auto simp: parallel_stats_def)
  qed
qed

lemma children_place_ok:
  "\<forall>i < n. is_ret (child_place h st i) \<Longrightarrow> children_place h st n = Ret ()"
proof (induction n)
  case (Suc n)
  then obtain p where "child_place h st n = Ret p" by (auto simp: is_ret_iff)
  then show ?case using Suc by simp
qed simp

text \<open>What a run starts from: memory and pipes are granted, the set-up and the placing of every
  child are defined, every child reports success.\<close>

definition run_ready ::
    "host \<Rightarrow> (nat \<Rightarrow> bool) \<Rightarrow> (nat \<Rightarrow> world option) \<Rightarrow> benchmark_t \<Rightarrow> 's bench_ops \<Rightarrow> nat
     \<Rightarrow> run_config_t option \<Rightarrow> statics \<Rightarrow> world \<Rightarrow> statics \<Rightarrow> child_result_t list \<Rightarrow> bool" where
  "run_ready h mem cw bench ops n config st w st' rs \<longleftrightarrow>
     w_alloc w = (\<lambda>_. True) \<and> pipes_ok w \<and> parallel_setup h mem config st = Ret st' \<and>
     (\<forall>i < n. is_ret (child_place h st' i)) \<and> length rs = n \<and>
     (\<forall>i < n. child_process bench ops (cw i) = Ret (Some (rs ! i)) \<and> cr_ret (rs ! i) = 0)"

lemma ready_reports:
  assumes "bm_max_iterations bench \<le> 31" "run_ready h mem cw bench ops n config st w st' rs"
  shows "\<forall>r \<in> set rs. good_report r"
proof
  fix r assume "r \<in> set rs"
  then obtain i where i: "i < n" "r = rs ! i"
    using assms(2) by (auto simp: run_ready_def in_set_conv_nth)
  then have "child_process bench ops (cw i) = Ret (Some r)" "cr_ret r = 0"
    using assms(2) by (auto simp: run_ready_def)
  then show "good_report r"
    using child_process_facts [OF assms(1), of ops "cw i"] by (auto simp: good_report_def)
qed

text \<open>The steps up to the aggregation.\<close>

lemma parallel_unfold:
  assumes "bm_max_iterations bench \<le> 31" "run_ready h mem cw bench ops n config st w st' rs"
  shows "\<exists>w1. harness_run_parallel h mem cw bench ops n stats config st w =
      out_bind (parallel_stats (bm_higher_is_better bench) rs stats w1)
        (\<lambda>(s, w). Ret (0, s, st', c_free True (c_free True (c_free True w)))) \<and>
    w_live w1 = w_live w + 3 \<and> mset (w_fds w1) = mset (w_fds w)"
proof -
  define wa where "wa = w\<lparr>w_alloc_pos := Suc (Suc (w_alloc_pos w)), w_live := w_live w + 2\<rparr>"
  have ready: "w_alloc w = (\<lambda>_. True)" "pipes_ok wa" "parallel_setup h mem config st = Ret st'"
    "children_place h st' n = Ret ()" "length rs = n"
    "\<And>i. i < n \<Longrightarrow> child_process bench ops (cw i) = Ret (Some (rs ! i))"
    "\<not> (\<exists>r \<in> set rs. cr_ret r \<noteq> 0)"
    using assms(2) children_place_ok [of n h st']
    by (auto simp: run_ready_def pipes_ok_def wa_def in_set_conv_nth)
  obtain ps wb where sp: "spawn_loop n [] wa = (Some ps, wb)" "length ps = n"
    "mset (w_fds wb) = mset (map fst ps) + mset (w_fds wa)" "w_live wb = w_live wa"
    "w_alloc wb = w_alloc wa"
    using spawn_ok [OF ready(2), of n "[]"] by auto
  define wc where "wc = wb\<lparr>w_alloc_pos := Suc (w_alloc_pos wb), w_live := w_live wb + 1\<rparr>"
  obtain w1 where co: "collect_loop (\<lambda>i. child_process bench ops (cw i)) 0 ps wc = Ret (rs, False, w1)"
    "mset (w_fds w1) = mset (w_fds wc) - mset (map fst ps)" "w_live w1 = w_live wc"
    using collect_ok [of ps "\<lambda>i. child_process bench ops (cw i)" 0 rs wc] ready(5,6,7) sp(2) by auto
  have m: "c_malloc w = (True, w\<lparr>w_alloc_pos := Suc (w_alloc_pos w), w_live := w_live w + 1\<rparr>)"
    "c_malloc (w\<lparr>w_alloc_pos := Suc (w_alloc_pos w), w_live := w_live w + 1\<rparr>) = (True, wa)"
    "c_malloc wb = (True, wc)"
    using ready(1) sp(5) by (simp_all add: c_malloc_def wa_def wc_def)
  have "harness_run_parallel h mem cw bench ops n stats config st w =
      out_bind (parallel_stats (bm_higher_is_better bench) rs stats w1)
        (\<lambda>(s, w). Ret (0, s, st', c_free True (c_free True (c_free True w))))"
    by (simp add: harness_run_parallel_def m ready(3,4) sp(1) co(1))
  then show ?thesis using co(2,3) sp(3,4) by (auto simp: wc_def wa_def)
qed

lemma length_pooled:
  assumes "\<forall>r \<in> set rs. good_report r"
  shows "length (pooled hib rs) = (if hib then length rs else (\<Sum>r \<leftarrow> rs. cr_iter r))"
proof -
  have "(\<Sum>r \<leftarrow> rs. length (map the (take (cr_iter r) (cr_values r)))) = (\<Sum>r \<leftarrow> rs. cr_iter r)"
    using assms by (induction rs) (auto simp: good_report_def written_def)
  then show ?thesis by (simp add: pooled_def Let_def length_concat comp_def)
qed


text \<open>Sixteen instances of a latency benchmark that measures twice each: 32 values.\<close>

definition example_host :: host where
  "example_host = \<lparr>h_ncpu = 16, h_siblings = (\<lambda>_. None), h_cpulist = (\<lambda>_. None),
     h_topo_file = (\<lambda>_. None)\<rparr>"

definition example_latency :: benchmark_t where
  "example_latency = example_bench\<lparr>bm_higher_is_better := False\<rparr>"

definition example_statics :: statics where
  "example_statics = statics_init\<lparr>s_cpu_to_numa := Some (replicate 16 (-1))\<rparr>"

definition example_report :: child_result_t where
  "example_report = \<lparr>cr_ret = 0, cr_iter = 2, cr_values = zero_values[0 := Some 7, 1 := Some 7]\<rparr>"

definition piping_world :: world where
  "piping_world = quiet_world\<lparr>w_pipe := (\<lambda>k. Some (2 * int k + 3, 2 * int k + 4))\<rparr>"

lemma length_zero_values [simp]: "length zero_values = 31"
  by (simp add: zero_values_def ssb_consts)

lemma example_child:
  "child_process example_latency (constant_bench 7) (Some ticking_world) = Ret (Some example_report)"
  by (simp add: child_process_def run_benchmark_instance_def run_warmup_def numeral_2_eq_2
      constant_bench_def run_loop.simps instance_limits_def example_bench_def example_latency_def
      perf_counters_start_def perf_counters_stop_def perf_counter_stop_def env_defs Let_def
      ticking_world_def quiet_world_def ssb_consts converged_now_def elapsed_def
      stats_mean_stddev_def loop_sum_def sem_rel_def example_report_def)

lemma example_ready:
  "run_ready example_host (\<lambda>k. k = 2) (\<lambda>_. Some ticking_world) example_latency (constant_bench 7) 16
     None statics_init piping_world example_statics (replicate 16 example_report)"
proof -
  have su: "parallel_setup example_host (\<lambda>k. k = 2) None statics_init = Ret example_statics"
    by (simp add: parallel_setup_def statics_init_def harness_get_physical_cores_def example_host_def
        check_pins_def parse_membind_def example_statics_def Let_def)
  have place: "is_ret (child_place example_host example_statics i)" if "i < 16" for i
    using that
    by (simp add: child_place_def example_statics_def statics_init_def child_pin_cpu_def
        child_mempolicy_def Let_def)
  show ?thesis
    using su place example_child
    by (simp add: run_ready_def piping_world_def quiet_world_def pipes_ok_def example_report_def)
qed


end
