(* ===== verification/HarnessRun.thy ===== *)
theory HarnessRun
  imports Parallel
begin

text \<open>
  \<^verbatim>\<open>harness_run\<close>: the topology override, the choice of benchmarks, the loop that runs them one
  after the other with the cooldowns, and the normalized scores.
\<close>

record subtest_result_t =
  sr_bench :: benchmark_t
  sr_stats :: benchmark_stats_t
  sr_normalized_score :: real
  sr_status :: string

text \<open>The part of \<^verbatim>\<open>run_result_t\<close> the run itself fills in; \<open>rr_nodes\<close> is
  \<open>sysinfo->numa_nodes\<close>, \<open>None\<close> when there is none; \<open>rr_subtests_ptr\<close> tells whether the array of
  subtests was allocated.\<close>

record run_result_t =
  rr_config :: run_config_t
  rr_nodes :: "numa_node_t list option"
  rr_subtests :: "subtest_result_t list"
  rr_subtests_ptr :: bool

subsection \<open>Which benchmarks run\<close>

text \<open>The three \<^verbatim>\<open>continue\<close> tests: the tier bit, the category, the list of names.\<close>

definition bench_selected :: "run_config_t \<Rightarrow> benchmark_t \<Rightarrow> bool outcome" where
  "bench_selected config b =
     out_bind (shl_int (bm_tier b))
       (\<lambda>bit. Ret (
          if and (cfg_tier_mask config) bit = 0 then False
          else if (case cfg_category_filter config of
                     Some c \<Rightarrow> bm_category b \<noteq> c | None \<Rightarrow> False) then False
          else if cfg_bench_filter config \<noteq> []
          then list_ex (\<lambda>n. bm_name b = n) (cfg_bench_filter config)
          else True))"

subsection \<open>One subtest\<close>

text \<open>\<open>h\<close>, \<open>mem\<close> and \<open>cw b i\<close> (the machine of child \<open>i\<close> of benchmark \<open>b\<close>) are those of
  \<open>harness_run_parallel\<close>; \<open>ops b\<close> are the operations behind the pointers of \<open>b\<close>.\<close>

definition run_subtest ::
    "host \<Rightarrow> (nat \<Rightarrow> bool) \<Rightarrow> (benchmark_t \<Rightarrow> nat \<Rightarrow> world option) \<Rightarrow> (benchmark_t \<Rightarrow> 's bench_ops)
     \<Rightarrow> run_config_t \<Rightarrow> int \<Rightarrow> benchmark_t \<Rightarrow> statics \<Rightarrow> world
     \<Rightarrow> (subtest_result_t \<times> statics \<times> world) outcome" where
  "run_subtest h mem cw ops config n b st w =
     out_bind
       (if n > 1 \<and> bm_num_threads b = 1
        then harness_run_parallel h mem (cw b) b (ops b) (nat n) zero_stats (Some config) st w
        else out_bind (harness_run_single b (ops b) zero_stats (Some config) w)
               (\<lambda>(ret, stats, w). Ret (ret, stats, st, w)))
       (\<lambda>(ret, stats, st, w).
          let sr = \<lparr>sr_bench = b, sr_stats = stats, sr_normalized_score = 0,
                    sr_status = (if ret = 0 then ''completed'' else ''failed'')\<rparr>;
              w = (if cfg_mode config = SSB_MODE_PEAK \<and> bm_cooldown_required b then
                     (let cooldown = (if cfg_cooldown_sec config > 0 then cfg_cooldown_sec config
                                      else SSB_COOLDOWN_SEC)
                      in if cooldown > 0 then c_sleep cooldown w else w)
                   else w)
          in Ret (sr, st, w))"

text \<open>The loop over the registered benchmarks; the array \<^verbatim>\<open>subtests\<close> has room for all of them.\<close>

fun run_benchmarks ::
    "host \<Rightarrow> (nat \<Rightarrow> bool) \<Rightarrow> (benchmark_t \<Rightarrow> nat \<Rightarrow> world option) \<Rightarrow> (benchmark_t \<Rightarrow> 's bench_ops)
     \<Rightarrow> run_config_t \<Rightarrow> int \<Rightarrow> benchmark_t list \<Rightarrow> subtest_result_t list \<Rightarrow> statics \<Rightarrow> world
     \<Rightarrow> (subtest_result_t list \<times> statics \<times> world) outcome" where
  "run_benchmarks h mem cw ops config n [] done_list st w = Ret (done_list, st, w)"
| "run_benchmarks h mem cw ops config n (b # bs) done_list st w =
     out_bind (bench_selected config b)
       (\<lambda>sel. if \<not> sel then run_benchmarks h mem cw ops config n bs done_list st w
         else out_bind (run_subtest h mem cw ops config n b st w)
           (\<lambda>(sr, st, w). run_benchmarks h mem cw ops config n bs (done_list @ [sr]) st w))"

subsection \<open>Normalized scores\<close>

definition assign_score :: "run_config_t \<Rightarrow> subtest_result_t \<Rightarrow> subtest_result_t" where
  "assign_score config sr =
     (if cfg_reportable config \<and> st_cv (sr_stats sr) \<ge> SSB_CV_HIGH
      then sr\<lparr>sr_normalized_score := 0\<rparr>
      else let mean = st_mean (sr_stats sr) in
        if \<not> bm_higher_is_better (sr_bench sr) \<and> mean > 0
        then sr\<lparr>sr_normalized_score := 1 / mean\<rparr>
        else sr\<lparr>sr_normalized_score := mean\<rparr>)"

subsection \<open>The topology override and harness\_run\<close>

text \<open>\<open>mem 4\<close> is the table \<^verbatim>\<open>c2n\<close>; with \<open>mem 5\<close> false the new node array is \<^verbatim>\<open>NULL\<close>, and the node
  count is still raised.\<close>

definition override_nodes ::
    "host \<Rightarrow> (nat \<Rightarrow> bool) \<Rightarrow> run_config_t \<Rightarrow> numa_node_t list option \<Rightarrow> numa_node_t list option outcome" where
  "override_nodes h mem config nodes =
     (case (cfg_numa_topo_spec config, nodes) of
        (Some (c # cs), Some old) \<Rightarrow>
          if \<not> mem 4 then Ret nodes
          else out_bind (harness_parse_numa_bind (h_ncpu h) (h_topo_file h) (mem 3)
                           (Some (c # cs)) (replicate (nat (h_ncpu h)) (-1)))
                 (\<lambda>parsed. if mem 5 \<or> snd parsed \<le> 0
                    then out_bind (numa_override parsed old) (\<lambda>nds. Ret (Some nds))
                    else Ret None)
      | _ \<Rightarrow> Ret nodes)"

text \<open>The two allocations of the run are freed by \<open>harness_free_result\<close> (\<open>system_free\<close> is that of the
  probe, whose memory is not counted here). The statics of
  \<open>harness_run_parallel\<close> start out unset.\<close>

definition harness_run ::
    "host \<Rightarrow> (nat \<Rightarrow> bool) \<Rightarrow> (benchmark_t \<Rightarrow> nat \<Rightarrow> world option) \<Rightarrow> (benchmark_t \<Rightarrow> 's bench_ops)
     \<Rightarrow> numa_node_t list option \<Rightarrow> registry \<Rightarrow> run_config_t \<Rightarrow> world
     \<Rightarrow> (int \<times> run_result_t option \<times> world) outcome" where
  "harness_run h mem cw ops nodes reg config w =
     (let (p, w) = c_malloc w in
      if \<not> p then Ret (-1, None, w)
      else out_bind (override_nodes h mem config nodes)
        (\<lambda>nodes.
           let benchmarks = registered reg;
               (q, w) = c_malloc w
           in if \<not> q \<and> benchmarks \<noteq> [] then Ret (-1, None, c_free p w)
              else let n = (if cfg_num_instances config > 0 then cfg_num_instances config else 1)
                in out_bind (run_benchmarks h mem cw ops config n benchmarks [] statics_init w)
                  (\<lambda>(subtests, st, w).
                     Ret (0, Some \<lparr>rr_config = config, rr_nodes = nodes,
                       rr_subtests = map (assign_score config) subtests, rr_subtests_ptr = q\<rparr>, w))))"

definition harness_free_result :: "run_result_t option \<Rightarrow> world \<Rightarrow> world" where
  "harness_free_result result w =
     (case result of None \<Rightarrow> w | Some r \<Rightarrow> c_free True (c_free (rr_subtests_ptr r) w))"

subsection \<open>What a run executes\<close>

text \<open>The specification of the choice: the tier bit is set, the category is the one asked for, the
  name is on the list when there is a list.\<close>

definition wanted :: "run_config_t \<Rightarrow> benchmark_t \<Rightarrow> bool" where
  "wanted config b \<longleftrightarrow> bit (cfg_tier_mask config) (nat (bm_tier b)) \<and>
     (\<forall>c. cfg_category_filter config = Some c \<longrightarrow> bm_category b = c) \<and>
     (cfg_bench_filter config = [] \<or> bm_name b \<in> set (cfg_bench_filter config))"

lemma and_two_power: "and k (2 ^ n) = 0 \<longleftrightarrow> \<not> bit k n" for k :: int
proof
  assume "and k (2 ^ n) = 0"
  then have "bit (and k (2 ^ n)) n = bit (0 :: int) n" by simp
  then show "\<not> bit k n" by (simp add: bit_and_iff bit_exp_iff)
next
  assume "\<not> bit k n"
  then show "and k (2 ^ n) = 0" by (auto intro!: bit_eqI simp: bit_and_iff bit_exp_iff)
qed

lemma bench_selected_eq:
  assumes "0 \<le> bm_tier b" "bm_tier b < 31"
  shows "bench_selected config b = Ret (wanted config b)"
  using assms
  by (auto simp: bench_selected_def wanted_def shl_int_def and_two_power list_ex_iff
      split: option.splits)

lemma run_subtest_bench:
  "run_subtest h mem cw ops config n b st w = Ret (sr, st', w') \<Longrightarrow>
   sr_bench sr = b \<and> sr_status sr \<in> {''completed'', ''failed''}"
  by (auto simp: run_subtest_def out_bind_eq_Ret Let_def split: if_splits)

lemma run_benchmarks_order:
  assumes "\<forall>b \<in> set bs. 0 \<le> bm_tier b \<and> bm_tier b < 31"
  shows "run_benchmarks h mem cw ops config n bs acc st w = Ret (res, st', w') \<Longrightarrow>
    map sr_bench res = map sr_bench acc @ filter (wanted config) bs \<and>
    (\<forall>sr \<in> set res. sr \<in> set acc \<or> sr_status sr \<in> {''completed'', ''failed''})"
  using assms
proof (induction bs arbitrary: acc st w)
  case (Cons b bs)
  have sel: "bench_selected config b = Ret (wanted config b)"
    using Cons.prems(2) by (intro bench_selected_eq) auto
  show ?case
  proof (cases "wanted config b")
    case False
    then show ?thesis using Cons sel by simp
  next
    case True
    then obtain sr st1 w1 where s: "run_subtest h mem cw ops config n b st w = Ret (sr, st1, w1)"
      "run_benchmarks h mem cw ops config n bs (acc @ [sr]) st1 w1 = Ret (res, st', w')"
      using Cons.prems(1) sel by (auto simp: out_bind_eq_Ret)
    have "map sr_bench res = map sr_bench (acc @ [sr]) @ filter (wanted config) bs \<and>
        (\<forall>x \<in> set res. x \<in> set (acc @ [sr]) \<or> sr_status x \<in> {''completed'', ''failed''})"
      using Cons.IH [OF s(2)] Cons.prems(2) by simp
    then show ?thesis using True run_subtest_bench [OF s(1)] by auto
  qed
qed simp

lemma assign_score_bench [simp]:
  "sr_bench (assign_score config sr) = sr_bench sr" "sr_status (assign_score config sr) = sr_status sr"
  "sr_stats (assign_score config sr) = sr_stats sr"
  by (simp_all add: assign_score_def Let_def)

lemma harness_run_Ret:
  assumes "harness_run h mem cw ops nodes reg config w = Ret (0, Some res, w')"
  obtains nds q w1 w2 n subtests st where
    "c_malloc w = (True, w1)" "c_malloc w1 = (q, w2)" "override_nodes h mem config nodes = Ret nds"
    "n = (if cfg_num_instances config > 0 then cfg_num_instances config else 1)"
    "run_benchmarks h mem cw ops config n (registered reg) [] statics_init w2 = Ret (subtests, st, w')"
    "res = \<lparr>rr_config = config, rr_nodes = nds, rr_subtests = map (assign_score config) subtests,
       rr_subtests_ptr = q\<rparr>"
proof -
  obtain p w1 where m1: "c_malloc w = (p, w1)" by fastforce
  obtain q w2 where m2: "c_malloc w1 = (q, w2)" by fastforce
  have p: "p" using assms m1 by (simp add: harness_run_def split: if_splits)
  let ?n = "if cfg_num_instances config > 0 then cfg_num_instances config else 1"
  have g: "\<not> (\<not> q \<and> registered reg \<noteq> [])"
    using assms m1 m2 p
    by (cases "override_nodes h mem config nodes") (auto simp: harness_run_def split: if_splits)
  obtain nds where nds: "override_nodes h mem config nodes = Ret nds"
    using assms m1 p by (cases "override_nodes h mem config nodes") (auto simp: harness_run_def)
  have "out_bind (run_benchmarks h mem cw ops config ?n (registered reg) [] statics_init w2)
      (\<lambda>(subtests, st, w). Ret (0 :: int, Some \<lparr>rr_config = config, rr_nodes = nds,
         rr_subtests = map (assign_score config) subtests, rr_subtests_ptr = q\<rparr>, w)) = Ret (0, Some res, w')"
    using assms g by (simp add: harness_run_def m1 m2 p nds Let_def split: if_splits)
  then obtain subtests st where
    r: "run_benchmarks h mem cw ops config ?n (registered reg) [] statics_init w2 = Ret (subtests, st, w')"
    "res = \<lparr>rr_config = config, rr_nodes = nds, rr_subtests = map (assign_score config) subtests,
       rr_subtests_ptr = q\<rparr>"
    by (auto simp: out_bind_eq_Ret)
  show ?thesis by (rule that [OF _ m2 nds refl r]) (simp add: m1 p)
qed

text \<open>
  C3. A run that returns 0 has one subtest for every registered benchmark whose tier bit is set, whose
  category matches the filter and whose name is on the list (when there is one), in registration
  order, each completed or failed; the normalized score is 0 for a noisy subtest of a reportable
  run, the reciprocal of a positive mean for a metric where lower is better, and else the mean.
\<close>

theorem harness_run_selects:
  assumes "\<forall>b \<in> set (registered reg). 0 \<le> bm_tier b \<and> bm_tier b < 31"
    "harness_run h mem cw ops nodes reg config w = Ret (0, Some res, w')"
  shows "map sr_bench (rr_subtests res) = filter (wanted config) (registered reg) \<and>
    (\<forall>sr \<in> set (rr_subtests res). sr_status sr \<in> {''completed'', ''failed''} \<and>
       sr_normalized_score sr =
         (if cfg_reportable config \<and> SSB_CV_HIGH \<le> st_cv (sr_stats sr) then 0
          else if \<not> bm_higher_is_better (sr_bench sr) \<and> 0 < st_mean (sr_stats sr)
          then 1 / st_mean (sr_stats sr) else st_mean (sr_stats sr)))"
proof (rule harness_run_Ret [OF assms(2)])
  fix nds q w1 w2 n subtests st
  assume run: "run_benchmarks h mem cw ops config n (registered reg) [] statics_init w2 = Ret (subtests, st, w')"
    and res: "res = \<lparr>rr_config = config, rr_nodes = nds, rr_subtests = map (assign_score config) subtests,
       rr_subtests_ptr = q\<rparr>"
  show ?thesis
    using run_benchmarks_order [OF assms(1) run]
    by (auto simp: res comp_def) (auto simp: assign_score_def Let_def)
qed

text \<open>Two benchmarks of which only the first has the tier asked for; its \<^verbatim>\<open>init\<close> fails.\<close>

definition failing_bench :: "unit bench_ops" where
  "failing_bench = (constant_bench 7)\<lparr>op_init := (\<lambda>w. (-1, (), w))\<rparr>"

definition example_registry :: registry where
  "example_registry = register_all [example_bench, example_bench\<lparr>bm_tier := 2\<rparr>]"

lemma registered_example: "registered example_registry = [example_bench, example_bench\<lparr>bm_tier := 2\<rparr>]"
  by (simp add: example_registry_def registered_register_all MAX_BENCHMARKS_def)

lemma harness_run_example:
  "\<exists>res w'. harness_run example_host (\<lambda>_. True) (\<lambda>_ _. None) (\<lambda>_. failing_bench) None example_registry
     default_config quiet_world = Ret (0, Some res, w') \<and>
     w_live w' = 2 \<and> w_fds w' = [] \<and> rr_subtests_ptr res"
  by (simp add: harness_run_def registered_example override_nodes_def default_config_def
      bench_selected_def example_bench_def shl_int_def run_subtest_def harness_run_single_def
      run_benchmark_instance_def failing_bench_def constant_bench_def quiet_world_def c_malloc_def)

lemma harness_run_selects_witness:
  "\<exists>res w'. harness_run example_host (\<lambda>_. True) (\<lambda>_ _. None) (\<lambda>_. failing_bench) None example_registry
     default_config quiet_world = Ret (0, Some res, w') \<and> map sr_bench (rr_subtests res) = [example_bench]"
proof -
  obtain res w' where r: "harness_run example_host (\<lambda>_. True) (\<lambda>_ _. None) (\<lambda>_. failing_bench) None
      example_registry default_config quiet_world = Ret (0, Some res, w')"
    using harness_run_example by blast
  have "map sr_bench (rr_subtests res) = filter (wanted default_config) (registered example_registry)"
    using harness_run_selects [OF _ r] by (simp add: registered_example example_bench_def)
  then show ?thesis
    using r by (simp add: registered_example wanted_def default_config_def example_bench_def bit_iff_odd)
qed

subsection \<open>A sequential run gives everything back\<close>

lemma single_held:
  assumes "bench_tidy ops good blocks" "bm_max_iterations bench \<le> 31"
    "harness_run_single bench ops stats ov w = Ret (r, s, w')"
  shows "held w' = held w"
proof -
  have len: "lim_max_iter (instance_limits bench) \<le> int (length fresh_values)"
    using limit_bounds(1) [OF assms(2)] by simp
  obtain ret it us w1 where i: "run_benchmark_instance bench ops fresh_values w = Ret (ret, it, us, w1)"
    "held w1 = held w"
    using bench_tidy.instance_never_leaks [OF assms(1) len] by blast
  show ?thesis
  proof (cases "ret = 0")
    case False
    then show ?thesis using assms(3) i by (simp add: harness_run_single_def)
  next
    case True
    then obtain vs r2 where "stats_on vs stats w1 = Ret (r2, s, w')"
      using assms(3) i(1) by (auto simp: harness_run_single_def out_bind_eq_Ret Let_def)
    then show ?thesis using stats_on_held i(2) by metis
  qed
qed

lemma run_benchmarks_held:
  assumes "\<forall>b \<in> set bs. bm_max_iterations b \<le> 31 \<and> bench_tidy (ops b) (good b) (blocks b)" "n \<le> 1"
  shows "run_benchmarks h mem cw ops config n bs acc st w = Ret (res, st', w') \<Longrightarrow> held w' = held w"
  using assms
proof (induction bs arbitrary: acc st w)
  case (Cons b bs)
  obtain sel where sel: "bench_selected config b = Ret sel"
    using Cons.prems(1) by (auto simp: out_bind_eq_Ret)
  show ?case
  proof (cases sel)
    case False
    then show ?thesis using Cons sel by simp
  next
    case True
    then obtain sr st1 w1 where s: "run_subtest h mem cw ops config n b st w = Ret (sr, st1, w1)"
      "run_benchmarks h mem cw ops config n bs (acc @ [sr]) st1 w1 = Ret (res, st', w')"
      using Cons.prems(1) sel by (auto simp: out_bind_eq_Ret)
    obtain r2 s2 w2 where single: "harness_run_single b (ops b) zero_stats (Some config) w = Ret (r2, s2, w2)"
      and "held w1 = held w2"
      using s(1) Cons.prems(3)
      by (auto simp: run_subtest_def out_bind_eq_Ret Let_def split: if_splits)
    moreover have "held w2 = held w"
      by (rule single_held [OF _ _ single]) (use Cons.prems(2) in auto)
    moreover have "held w' = held w1"
      using Cons.IH [OF s(2)] Cons.prems by simp
    ultimately show ?thesis by simp
  qed
qed simp


lemma failing_tidy: "bench_tidy failing_bench (\<lambda>_. True) (\<lambda>_. 0)"
  by unfold_locales (auto simp: failing_bench_def constant_bench_def)


end
