(* ===== verification/Scoring.thy ===== *)
theory Scoring
  imports HarnessRun Catalog
begin

text \<open>
  \<^verbatim>\<open>src/core/scoring.c\<close>: the category table, normalization against a baseline, the three pillars
  and the overall score, the derived ratios, and the reference file that \<^verbatim>\<open>main\<close> writes and
  \<open>scoring_load_reference\<close> reads. A result that would be a NaN in C is \<open>None\<close>.
\<close>

subsection \<open>The categories\<close>

record category_weight_t =
  cw_id :: string
  cw_name :: string
  cw_weight :: real
  cw_group :: string

text \<open>The names are the UTF-8 bytes of the source.\<close>

definition categories :: "category_weight_t list" where
  "categories = [
     \<lparr>cw_id = ''C1'', cw_name = [CHR 0xE6, CHR 0x95, CHR 0xB4, CHR 0xE6, CHR 0x95, CHR 0xB0, CHR 0xE8, CHR 0xAE, CHR 0xA1, 
        CHR 0xE7, CHR 0xAE, CHR 0x97],
        cw_weight = 12 / 100, cw_group = ''cpu''\<rparr>,
     \<lparr>cw_id = ''C2'', cw_name = [CHR 0xE6, CHR 0xB5, CHR 0xAE, CHR 0xE7, CHR 0x82, CHR 0xB9, CHR 0xE4, CHR 0xB8, CHR 0x8E, 
        CHR 0xE5, CHR 0x90, CHR 0x91, CHR 0xE9, CHR 0x87, CHR 0x8F, CHR 0xE8, CHR 0xAE, CHR 0xA1, 
        CHR 0xE7, CHR 0xAE, CHR 0x97],
        cw_weight = 10 / 100, cw_group = ''cpu''\<rparr>,
     \<lparr>cw_id = ''C3'', cw_name = [CHR 0xE5, CHR 0x8E, CHR 0x8B, CHR 0xE7, CHR 0xBC, CHR 0xA9, CHR 0xE4, CHR 0xB8, CHR 0x8E, 
        CHR 0xE5, CHR 0x8A, CHR 0xA0, CHR 0xE5, CHR 0xAF, CHR 0x86],
        cw_weight = 8 / 100, cw_group = ''cpu''\<rparr>,
     \<lparr>cw_id = ''C4'', cw_name = [CHR 0xE5, CHR 0x86, CHR 0x85, CHR 0xE5, CHR 0xAD, CHR 0x98, CHR 0xE5, CHR 0xB1, CHR 0x82, 
        CHR 0xE6, CHR 0xAC, CHR 0xA1, CHR 0xE4, CHR 0xB8, CHR 0x8E, CHR 0xE5, CHR 0xB8, CHR 0xA6, 
        CHR 0xE5, CHR 0xAE, CHR 0xBD],
        cw_weight = 8 / 100, cw_group = ''memory''\<rparr>,
     \<lparr>cw_id = ''C5'', cw_name = ''NUMA'' @ [CHR 0xE6, CHR 0x8B, CHR 0x93, CHR 0xE6, CHR 0x89, CHR 0x91, CHR 0xE4, CHR 0xB8, CHR 0x8E, 
        CHR 0xE8, CHR 0xBF, CHR 0x9C, CHR 0xE7, CHR 0xAB, CHR 0xAF, CHR 0xE8, CHR 0xAE, CHR 0xBF, 
        CHR 0xE9, CHR 0x97, CHR 0xAE],
        cw_weight = 5 / 100, cw_group = ''memory''\<rparr>,
     \<lparr>cw_id = ''C6'', cw_name = [CHR 0xE8, CHR 0xBF, CHR 0x9B, CHR 0xE7, CHR 0xA8, CHR 0x8B, CHR 0xE5, CHR 0x88, CHR 0x9B, 
        CHR 0xE5, CHR 0xBB, CHR 0xBA, CHR 0xE4, CHR 0xB8, CHR 0x8E, CHR 0xE7, CHR 0x94, CHR 0x9F, 
        CHR 0xE5, CHR 0x91, CHR 0xBD, CHR 0xE5, CHR 0x91, CHR 0xA8, CHR 0xE6, CHR 0x9C, CHR 0x9F
        ],
        cw_weight = 8 / 100, cw_group = ''process''\<rparr>,
     \<lparr>cw_id = ''C7'', cw_name = [CHR 0xE5, CHR 0xB9, CHR 0xB6, CHR 0xE5, CHR 0x8F, CHR 0x91, CHR 0xE5, CHR 0x90, CHR 0x8C, 
        CHR 0xE6, CHR 0xAD, CHR 0xA5, CHR 0xE4, CHR 0xB8, CHR 0x8E, CHR 0xE9, CHR 0x94, CHR 0x81, 
        CHR 0xE7, CHR 0xAB, CHR 0x9E, CHR 0xE4, CHR 0xBA, CHR 0x89],
        cw_weight = 7 / 100, cw_group = ''process''\<rparr>,
     \<lparr>cw_id = ''C8'', cw_name = [CHR 0xE4, CHR 0xB8, CHR 0x8A, CHR 0xE4, CHR 0xB8, CHR 0x8B, CHR 0xE6, CHR 0x96, CHR 0x87, 
        CHR 0xE5, CHR 0x88, CHR 0x87, CHR 0xE6, CHR 0x8D, CHR 0xA2],
        cw_weight = 5 / 100, cw_group = ''process''\<rparr>,
     \<lparr>cw_id = ''C9'', cw_name = [CHR 0xE8, CHR 0x84, CHR 0x9A, CHR 0xE6, CHR 0x9C, CHR 0xAC, CHR 0xE4, CHR 0xB8, CHR 0x8E, 
        CHR 0xE8, CHR 0xAF, CHR 0xAD, CHR 0xE8, CHR 0xA8, CHR 0x80, CHR 0xE8, CHR 0xBF, CHR 0x90, 
        CHR 0xE8, CHR 0xA1, CHR 0x8C, CHR 0xE6, CHR 0x97, CHR 0xB6],
        cw_weight = 5 / 100, cw_group = ''process''\<rparr>,
     \<lparr>cw_id = ''C10'', cw_name = [CHR 0xE6, CHR 0x96, CHR 0x87, CHR 0xE4, CHR 0xBB, CHR 0xB6] @ ''I/O'',
        cw_weight = 10 / 100, cw_group = ''io''\<rparr>,
     \<lparr>cw_id = ''C11'', cw_name = [CHR 0xE7, CHR 0xAE, CHR 0xA1, CHR 0xE9, CHR 0x81, CHR 0x93, CHR 0xE4, CHR 0xB8, CHR 0x8E, 
        CHR 0xE6, CHR 0x9C, CHR 0xAC, CHR 0xE5, CHR 0x9C, CHR 0xB0] @ ''IPC'',
        cw_weight = 5 / 100, cw_group = ''io''\<rparr>,
     \<lparr>cw_id = ''C12'', cw_name = [CHR 0xE7, CHR 0xB3, CHR 0xBB, CHR 0xE7, CHR 0xBB, CHR 0x9F, CHR 0xE8, CHR 0xB0, CHR 0x83, 
        CHR 0xE7, CHR 0x94, CHR 0xA8, CHR 0xE5, CHR 0xBC, CHR 0x80, CHR 0xE9, CHR 0x94, CHR 0x80
        ],
        cw_weight = 5 / 100, cw_group = ''io''\<rparr>,
     \<lparr>cw_id = ''C13'', cw_name = [CHR 0xE7, CHR 0xBD, CHR 0x91, CHR 0xE7, CHR 0xBB, CHR 0x9C, CHR 0xE6, CHR 0xA0, CHR 0x88
        ],
        cw_weight = 7 / 100, cw_group = ''net_virt''\<rparr>,
     \<lparr>cw_id = ''C14'', cw_name = [CHR 0xE8, CHR 0x99, CHR 0x9A, CHR 0xE6, CHR 0x8B, CHR 0x9F, CHR 0xE5, CHR 0x8C, CHR 0x96, 
        CHR 0xE5, CHR 0xBC, CHR 0x80, CHR 0xE9, CHR 0x94, CHR 0x80],
        cw_weight = 3 / 100, cw_group = ''net_virt''\<rparr>,
     \<lparr>cw_id = ''C15'', cw_name = [CHR 0xE5, CHR 0xAE, CHR 0xB9, CHR 0xE5, CHR 0x99, CHR 0xA8, CHR 0xE5, CHR 0xBC, CHR 0x80, 
        CHR 0xE9, CHR 0x94, CHR 0x80, CHR 0xE4, CHR 0xB8, CHR 0x8E, CHR 0xE5, CHR 0xAF, CHR 0x86, 
        CHR 0xE5, CHR 0xBA, CHR 0xA6],
        cw_weight = 2 / 100, cw_group = ''net_virt''\<rparr>]"

definition NUM_CATEGORIES :: nat where "NUM_CATEGORIES = 15"

definition scoring_get_categories :: "category_weight_t list \<times> nat" where
  "scoring_get_categories = (categories, NUM_CATEGORIES)"

subsection \<open>Single scores\<close>

definition scoring_normalize :: "real \<Rightarrow> real \<Rightarrow> real" where
  "scoring_normalize raw_score baseline = (if baseline > 0 then raw_score / baseline else 1)"

definition scoring_compute_baseline :: "real list \<Rightarrow> real option" where
  "scoring_compute_baseline raw_scores = stats_geometric_mean raw_scores"

definition scoring_category_score :: "real list \<Rightarrow> real option" where
  "scoring_category_score sub_scores = stats_geometric_mean sub_scores"

definition scoring_overall_score :: "real \<Rightarrow> real \<Rightarrow> real \<Rightarrow> real option" where
  "scoring_overall_score t l e = stats_geometric_mean [t, l, e]"

definition scoring_mitigation_tax :: "real \<Rightarrow> real \<Rightarrow> real" where
  "scoring_mitigation_tax mitigated unmitigated =
     (if unmitigated \<le> 0 then 0 else mitigated / unmitigated - 1)"

definition scoring_thermal_derating :: "real \<Rightarrow> real \<Rightarrow> real" where
  "scoring_thermal_derating sustained peak = (if peak \<le> 0 then 1 else sustained / peak)"

definition scoring_estimate_runtime :: "int \<Rightarrow> bool \<Rightarrow> real" where
  "scoring_estimate_runtime subtest_count peak_mode =
     (let per_test = (if peak_mode then 60 else 45 :: real)
      in real_of_int subtest_count * per_test / 60 + (if peak_mode then 6 else 0))"

subsection \<open>scoring\_compute\_pillars\<close>

definition t_cats :: "string list" where
  "t_cats = [''C1'', ''C2'', ''C3'', ''C4'', ''C10'', ''C13'']"

definition l_cats :: "string list" where
  "l_cats = [''C6'', ''C7'', ''C8'', ''C11'', ''C12'']"

definition e_cats :: "string list" where
  "e_cats = [''C5'', ''C14'', ''C15'']"

definition scores_size :: nat where "scores_size = 64"

text \<open>\<open>scores[count++] = score\<close> into an array of 64 when the category is on the list.\<close>

definition push_score :: "string list \<Rightarrow> string \<Rightarrow> real \<Rightarrow> real list \<Rightarrow> real list outcome" where
  "push_score cats category score scores =
     (if list_ex (\<lambda>p. category = p) cats then
        (if length scores < scores_size then Ret (scores @ [score]) else Undef OobWrite)
      else Ret scores)"

definition pillar_score :: "subtest_result_t \<Rightarrow> real" where
  "pillar_score sr = (if sr_normalized_score sr \<le> 0 then 1 else sr_normalized_score sr)"

fun pillar_loop ::
    "subtest_result_t list \<Rightarrow> real list \<times> real list \<times> real list
     \<Rightarrow> (real list \<times> real list \<times> real list) outcome" where
  "pillar_loop [] acc = Ret acc"
| "pillar_loop (sr # srs) (t, l, e) =
     (if st_cv (sr_stats sr) \<ge> SSB_CV_HIGH then pillar_loop srs (t, l, e)
      else let score = pillar_score sr; cat = bm_category (sr_bench sr)
        in out_bind (push_score t_cats cat score t)
             (\<lambda>t. out_bind (push_score l_cats cat score l)
               (\<lambda>l. out_bind (push_score e_cats cat score e)
                 (\<lambda>e. pillar_loop srs (t, l, e)))))"

text \<open>The mean of one pillar: every weight is 1, and the fallback is 1.\<close>

definition pillar_mean :: "real list \<Rightarrow> real" where
  "pillar_mean scores =
     (if scores \<noteq> [] then
        (let (w_log, w_sum) = foldl (\<lambda>(w_log, w_sum) s.
               if s > 0 then (w_log + 1 * ln s, w_sum + 1) else (w_log, w_sum)) (0, 0 :: real) scores
         in if w_sum > 0 then exp (w_log / w_sum) else 1)
      else 1)"

definition scoring_compute_pillars :: "subtest_result_t list \<Rightarrow> (real \<times> real \<times> real) outcome" where
  "scoring_compute_pillars subtests =
     out_bind (pillar_loop subtests ([], [], []))
       (\<lambda>(t, l, e). Ret (pillar_mean t, pillar_mean l, pillar_mean e))"

subsection \<open>The pillars are geometric means of positive scores\<close>

lemma pillar_fold:
  assumes "\<forall>s \<in> set scores. 0 < s"
  shows "foldl (\<lambda>(w_log, w_sum) s. if s > 0 then (w_log + 1 * ln s, w_sum + 1) else (w_log, w_sum))
    (a, b :: real) scores = (a + (\<Sum>s \<leftarrow> scores. ln s), b + real (length scores))"
  using assms by (induction scores arbitrary: a b) auto

lemma pillar_mean_gm:
  assumes "\<forall>s \<in> set scores. 0 < s"
  shows "pillar_mean scores = (if scores = [] then 1 else the (stats_geometric_mean scores))"
  using assms pillar_fold [OF assms, of 0 0]
  by (auto simp: pillar_mean_def gm_pos)

text \<open>The scores of a pillar, as a list: the quiet subtests of its categories, in order.\<close>

definition pillar_scores :: "string list \<Rightarrow> subtest_result_t list \<Rightarrow> real list" where
  "pillar_scores cats srs =
     map pillar_score (filter (\<lambda>sr. st_cv (sr_stats sr) < SSB_CV_HIGH \<and> bm_category (sr_bench sr) \<in> set cats) srs)"

lemma pillar_score_pos: "0 < pillar_score sr"
  by (simp add: pillar_score_def)

lemma pillar_scores_pos: "\<forall>s \<in> set (pillar_scores cats srs). 0 < s"
  by (auto simp: pillar_scores_def pillar_score_pos)

lemma pillar_loop_eq:
  assumes "length t + length (pillar_scores t_cats srs) \<le> 64"
    "length l + length (pillar_scores l_cats srs) \<le> 64"
    "length e + length (pillar_scores e_cats srs) \<le> 64"
  shows "pillar_loop srs (t, l, e) =
    Ret (t @ pillar_scores t_cats srs, l @ pillar_scores l_cats srs, e @ pillar_scores e_cats srs)"
  using assms
proof (induction srs arbitrary: t l e)
  case Nil
  then show ?case by (simp add: pillar_scores_def)
next
  case (Cons sr srs)
  let ?c = "bm_category (sr_bench sr)"
  have push: "push_score cats ?c (pillar_score sr) xs =
      Ret (xs @ (if ?c \<in> set cats then [pillar_score sr] else []))"
    if "length xs + (if ?c \<in> set cats then 1 else 0) \<le> 64" for cats xs
    using that by (auto simp: push_score_def list_ex_iff scores_size_def)
  show ?case
  proof (cases "st_cv (sr_stats sr) \<ge> SSB_CV_HIGH")
    case True
    then show ?thesis using Cons by (simp add: pillar_scores_def)
  next
    case False
    have ps: "pillar_scores cats (sr # srs) =
        (if ?c \<in> set cats then [pillar_score sr] else []) @ pillar_scores cats srs" for cats
      using False by (simp add: pillar_scores_def)
    let ?x = "\<lambda>cats. if ?c \<in> set cats then [pillar_score sr] else []"
    have p: "push_score t_cats ?c (pillar_score sr) t = Ret (t @ ?x t_cats)"
      "push_score l_cats ?c (pillar_score sr) l = Ret (l @ ?x l_cats)"
      "push_score e_cats ?c (pillar_score sr) e = Ret (e @ ?x e_cats)"
      by (rule push, use Cons.prems in \<open>simp add: ps split: if_splits\<close>)+
    have "pillar_loop (sr # srs) (t, l, e) = pillar_loop srs (t @ ?x t_cats, l @ ?x l_cats, e @ ?x e_cats)"
      using False p by (simp only: pillar_loop.simps Let_def out_bind.simps if_False)
    also have "\<dots> = Ret ((t @ ?x t_cats) @ pillar_scores t_cats srs,
        (l @ ?x l_cats) @ pillar_scores l_cats srs, (e @ ?x e_cats) @ pillar_scores e_cats srs)"
      by (rule Cons.IH) (use Cons.prems in \<open>simp_all only: ps length_append\<close>)
    finally show ?thesis by (simp only: ps append_assoc)
  qed
qed

lemma length_pillar_scores:
  "length (pillar_scores cats srs) \<le>
   length (filter (\<lambda>c. c \<in> set cats) (map bm_category (map sr_bench srs)))"
  by (induction srs) (auto simp: pillar_scores_def)

lemma selected_categories:
  "length (filter Q (map bm_category (filter P bs))) \<le> length (filter Q (map bm_category bs))"
  by (induction bs) auto

lemma catalog_pillar_sizes:
  "length (filter (\<lambda>c. c \<in> set t_cats) (map bm_category all_benchmarks)) = 40"
  "length (filter (\<lambda>c. c \<in> set l_cats) (map bm_category all_benchmarks)) = 18"
  "length (filter (\<lambda>c. c \<in> set e_cats) (map bm_category all_benchmarks)) = 6"
  by (simp_all add: all_categories t_cats_def l_cats_def e_cats_def)

lemma pillar_mean_pos: "0 < pillar_mean scores"
  by (simp add: pillar_mean_def case_prod_beta)

text \<open>
  C27. A run over the catalog never overflows the 64 places of a pillar. Each pillar is the plain
  geometric mean (all weights 1) of the scores of its categories' subtests with a coefficient of
  variation below 10%, a score that is not positive counting as 1, and is 1 when there are none;
  the overall score exists and lies between the smallest and the largest pillar.
\<close>

theorem pillars_of_catalog:
  assumes "map sr_bench srs = filter P all_benchmarks"
  shows "\<exists>t l e s. scoring_compute_pillars srs = Ret (t, l, e) \<and>
    t = (if pillar_scores t_cats srs = [] then 1 else the (stats_geometric_mean (pillar_scores t_cats srs))) \<and>
    l = (if pillar_scores l_cats srs = [] then 1 else the (stats_geometric_mean (pillar_scores l_cats srs))) \<and>
    e = (if pillar_scores e_cats srs = [] then 1 else the (stats_geometric_mean (pillar_scores e_cats srs))) \<and>
    scoring_overall_score t l e = Some s \<and> 0 < min t (min l e) \<and> min t (min l e) \<le> s \<and> s \<le> max t (max l e)"
proof -
  have "length (pillar_scores cats srs) \<le>
      length (filter (\<lambda>c. c \<in> set cats) (map bm_category all_benchmarks))" for cats
    by (rule order_trans [OF length_pillar_scores]) (simp only: assms selected_categories)
  note len = this [of t_cats] this [of l_cats] this [of e_cats]
  note len = len [unfolded catalog_pillar_sizes]
  have loop: "pillar_loop srs ([], [], []) =
      Ret (pillar_scores t_cats srs, pillar_scores l_cats srs, pillar_scores e_cats srs)"
    using len pillar_loop_eq [of "[]" srs "[]" "[]"] by simp
  let ?t = "pillar_mean (pillar_scores t_cats srs)"
  let ?l = "pillar_mean (pillar_scores l_cats srs)"
  let ?e = "pillar_mean (pillar_scores e_cats srs)"
  have pos: "0 < min ?t (min ?l ?e)" by (simp add: pillar_mean_pos)
  have "\<exists>s. scoring_overall_score ?t ?l ?e = Some s \<and> min ?t (min ?l ?e) \<le> s \<and> s \<le> max ?t (max ?l ?e)"
    unfolding scoring_overall_score_def by (rule gm_bounds [OF _ pos]) auto
  then show ?thesis
    using pos by (simp add: scoring_compute_pillars_def loop pillar_mean_gm [OF pillar_scores_pos] del: min_less_iff_conj)
qed

text \<open>A failed benchmark has zero statistics, hence no variation and no score: it counts as 1.\<close>

definition failed_subtest :: "benchmark_t \<Rightarrow> subtest_result_t" where
  "failed_subtest b = \<lparr>sr_bench = b, sr_stats = zero_stats, sr_normalized_score = 0, sr_status = ''failed''\<rparr>"

lemma failed_counts_one:
  "bm_category b \<in> set cats \<Longrightarrow> pillar_scores cats [failed_subtest b] = [1]"
  by (simp add: pillar_scores_def pillar_score_def failed_subtest_def zero_stats_def ssb_consts)

lemma pillars_of_catalog_witness:
  "\<exists>t l e s. scoring_compute_pillars [failed_subtest bench_int_hash] = Ret (t, l, e) \<and>
     scoring_overall_score t l e = Some s \<and> t = 1 \<and> l = 1 \<and> e = 1 \<and> s = 1"
proof -
  have only: "map sr_bench [failed_subtest bench_int_hash] =
      filter (\<lambda>b. bm_name b = ''int-hash'') all_benchmarks"
    by (simp add: failed_subtest_def all_benchmarks_def compute_defs crypto_defs memory_defs os_defs
        sync_defs io_defs net_defs virt_defs)
  have p: "pillar_scores t_cats [failed_subtest bench_int_hash] = [1]"
    "pillar_scores l_cats [failed_subtest bench_int_hash] = []"
    "pillar_scores e_cats [failed_subtest bench_int_hash] = []"
    by (simp_all add: pillar_scores_def pillar_score_def failed_subtest_def zero_stats_def ssb_consts
        bench_int_hash_def t_cats_def l_cats_def e_cats_def)
  show ?thesis
    using pillars_of_catalog [OF only] unfolding p by (auto simp: stats_geometric_mean_def)
qed

subsection \<open>The reference file\<close>

text \<open>The loop body shared by the two passes: comments and blank lines are skipped, the rest is cut at
  the first equals sign.\<close>

definition is_newline :: "char \<Rightarrow> bool" where
  "is_newline c \<longleftrightarrow> c = CHR 0x0A"

definition reference_line :: "string \<Rightarrow> (string \<times> string) option" where
  "reference_line line =
     (let p = skip_blanks line in
      case p of
        [] \<Rightarrow> None
      | c # _ \<Rightarrow> if c = CHR ''#'' \<or> is_newline c then None else cut_at (CHR ''='') p)"

text \<open>Trimming the name from the right stops at its first character.\<close>

definition trim_name :: "string \<Rightarrow> string" where
  "trim_name name =
     (case skip_blanks name of
        [] \<Rightarrow> []
      | c # cs \<Rightarrow> c # rev (dropWhile (\<lambda>x. isblank x \<or> is_newline x) (rev cs)))"

fun count_entries :: "string list \<Rightarrow> nat" where
  "count_entries [] = 0"
| "count_entries (l # ls) = (if reference_line l \<noteq> None then 1 else 0) + count_entries ls"

fun parse_entries ::
    "(string \<Rightarrow> real) \<Rightarrow> nat \<Rightarrow> string list \<Rightarrow> (real \<times> string) list \<Rightarrow> (real \<times> string) list" where
  "parse_entries atof_fn n [] acc = acc"
| "parse_entries atof_fn n (l # ls) acc =
     (if length acc < n then
        (case reference_line l of
           None \<Rightarrow> parse_entries atof_fn n ls acc
         | Some (name, val) \<Rightarrow> parse_entries atof_fn n ls (acc @ [(atof_fn val, trim_name name)]))
      else acc)"

text \<open>\<open>args_ok\<close>: no pointer argument is null; \<open>file\<close> is the text of the reference file, \<open>None\<close> when it
  cannot be opened; \<open>mem_ok\<close>: both \<^verbatim>\<open>calloc\<close> calls succeed. The entries are what the two arrays hold,
  followed by nothing: \<open>*count\<close> is the number of the first pass.\<close>

definition scoring_load_reference ::
    "(string \<Rightarrow> real) \<Rightarrow> bool \<Rightarrow> bool \<Rightarrow> string option \<Rightarrow> int \<times> ((real \<times> string) list \<times> nat) option" where
  "scoring_load_reference atof_fn args_ok mem_ok file =
     (if \<not> args_ok then (-1, None)
      else case file of
          None \<Rightarrow> (-1, None)
        | Some text \<Rightarrow>
            let lines = fgets_all 512 text; n = count_entries lines
            in if n = 0 then (-1, None)
               else if \<not> mem_ok then (-1, None)
               else (0, Some (parse_entries atof_fn n lines [], n)))"

text \<open>What \<^verbatim>\<open>main\<close> writes with \<^verbatim>\<open>--generate-reference\<close>: \<open>ctime_text\<close> ends in a newline, \<open>fmt6\<close> is the
  conversion \<^verbatim>\<open>%.6f\<close>. The dash of the first line is UTF-8.\<close>

definition reference_header :: "string \<Rightarrow> string \<Rightarrow> string" where
  "reference_header ctime_text refpath =
     ''# ServMark reference baseline '' @ [CHR 0xE2, CHR 0x80, CHR 0x94] @ '' generated '' @ ctime_text @
     [CHR 0x0A] @ ''# Format: benchmark_name = baseline_value'' @ [CHR 0x0A] @
     ''# Use with: ./servmark --reference '' @ refpath @ [CHR 0x0A, CHR 0x0A]"

definition reference_entry :: "(real \<Rightarrow> string) \<Rightarrow> subtest_result_t \<Rightarrow> string" where
  "reference_entry fmt6 sr =
     (if st_iterations (sr_stats sr) > 0
      then bm_name (sr_bench sr) @ '' = '' @ fmt6 (st_mean (sr_stats sr)) @ [CHR 0x0A] else [])"

definition write_reference ::
    "(real \<Rightarrow> string) \<Rightarrow> string \<Rightarrow> string \<Rightarrow> subtest_result_t list \<Rightarrow> string" where
  "write_reference fmt6 ctime_text refpath subtests =
     reference_header ctime_text refpath @ concat (map (reference_entry fmt6) subtests)"

lemma count_eq: "count_entries ls = length (List.map_filter reference_line ls)"
  by (induction ls) (auto simp: map_filter_simps split: option.splits)

lemma parse_eq:
  "length acc + count_entries ls \<le> n \<Longrightarrow>
   parse_entries atof_fn n ls acc =
     acc @ map (\<lambda>(name, val). (atof_fn val, trim_name name)) (List.map_filter reference_line ls)"
proof (induction ls arbitrary: acc)
  case (Cons l ls)
  show ?case
  proof (cases "reference_line l")
    case None
    then have len: "length acc + count_entries ls \<le> n" using Cons.prems by simp
    show ?thesis
    proof (cases "length acc < n")
      case True
      then show ?thesis using None Cons.IH [OF len] by (simp add: map_filter_simps)
    next
      case False
      then have "length (List.map_filter reference_line ls) = 0" using len unfolding count_eq by linarith
      then have "List.map_filter reference_line ls = []" by simp
      then show ?thesis using None False by (simp add: map_filter_simps)
    qed
  next
    case (Some nv)
    obtain nm v where nv: "nv = (nm, v)" by fastforce
    have "length (acc @ [(atof_fn v, trim_name nm)]) + count_entries ls \<le> n"
      using Cons.prems Some by simp
    from Cons.IH [OF this] show ?thesis
      using Cons.prems Some nv by (simp add: map_filter_simps)
  qed
qed (simp add: map_filter_simps)

lemma skip_word: "w \<noteq> [] \<Longrightarrow> \<not> isblank (hd w) \<Longrightarrow> skip_blanks (w @ s) = w @ s"
  by (cases w) (simp_all add: skip_blanks_def)

text \<open>A name the file format can carry: not empty, no equals sign, newline or blank, not a comment.\<close>

definition plain_name :: "string \<Rightarrow> bool" where
  "plain_name w \<longleftrightarrow> w \<noteq> [] \<and> hd w \<noteq> CHR ''#'' \<and>
     (\<forall>c \<in> set w. c \<noteq> CHR ''='' \<and> \<not> isblank c \<and> \<not> is_newline c)"

lemma trim_plain:
  assumes "plain_name w"
  shows "trim_name (w @ '' '') = w"
proof -
  obtain c cs where w: "w = c # cs" using assms by (cases w) (auto simp: plain_name_def)
  have rest: "rev (dropWhile (\<lambda>x. isblank x \<or> is_newline x) (rev (cs @ '' ''))) = cs"
  proof -
    have "dropWhile (\<lambda>x. isblank x \<or> is_newline x) (rev cs) = rev cs"
      using assms w by (cases "rev cs") (auto simp: plain_name_def simp flip: set_rev [of cs])
    then show ?thesis by (simp add: isblank_def)
  qed
  have "skip_blanks (w @ '' '') = w @ '' ''"
    by (rule skip_word) (use assms in \<open>auto simp: plain_name_def\<close>)
  then show ?thesis using rest by (simp add: trim_name_def w)
qed

lemma entry_line:
  assumes "plain_name w"
  shows "reference_line (w @ '' = '' @ v) = Some (w @ '' '', '' '' @ v)"
proof -
  obtain c cs where w: "w = c # cs" using assms by (cases w) (auto simp: plain_name_def)
  have "skip_blanks (w @ '' = '' @ v) = w @ '' = '' @ v"
    by (rule skip_word) (use assms in \<open>auto simp: plain_name_def\<close>)
  moreover have "cut_at (CHR ''='') ((w @ '' '') @ CHR ''='' # '' '' @ v) = Some (w @ '' '', '' '' @ v)"
    by (rule cut_at_append) (use assms in \<open>auto simp: plain_name_def\<close>)
  ultimately show ?thesis
    using assms w by (auto simp: reference_line_def plain_name_def)
qed

lemma comment_line: "reference_line (CHR ''#'' # s) = None"
  by (simp add: reference_line_def skip_blanks_def isblank_def)

lemma empty_line: "reference_line [CHR 0x0A] = None"
  by (simp add: reference_line_def skip_blanks_def isblank_def is_newline_def)

lemma fgets_empty_line: "fgets_all 512 (CHR 0x0A # s) = [CHR 0x0A] # fgets_all 512 s"
  by (simp add: fgets_all_def)

text \<open>Lines that fit the reader's buffer of 512.\<close>

definition fits_line :: "string \<Rightarrow> bool" where
  "fits_line l \<longleftrightarrow> CHR 0x0A \<notin> set l \<and> length l < 511"

lemma fgets_fits: "fits_line l \<Longrightarrow> fgets_all 512 (l @ CHR 0x0A # s) = (l @ [CHR 0x0A]) # fgets_all 512 s"
  by (rule fgets_line) (simp_all add: fits_line_def)

lemma entries_lines:
  assumes "\<forall>sr \<in> set srs. 0 < st_iterations (sr_stats sr) \<longrightarrow> plain_name (bm_name (sr_bench sr)) \<and>
    fits_line (bm_name (sr_bench sr) @ '' = '' @ fmt6 (st_mean (sr_stats sr)))"
  shows "List.map_filter reference_line (fgets_all 512 (concat (map (reference_entry fmt6) srs))) =
    map (\<lambda>sr. (bm_name (sr_bench sr) @ '' '', '' '' @ fmt6 (st_mean (sr_stats sr)) @ [CHR 0x0A]))
      (filter (\<lambda>sr. 0 < st_iterations (sr_stats sr)) srs)"
  using assms
proof (induction srs)
  case Nil
  then show ?case by (simp add: fgets_all_def map_filter_simps)
next
  case (Cons sr srs)
  show ?case
  proof (cases "0 < st_iterations (sr_stats sr)")
    case False
    then show ?thesis using Cons by (simp add: reference_entry_def)
  next
    case True
    let ?l = "bm_name (sr_bench sr) @ '' = '' @ fmt6 (st_mean (sr_stats sr))"
    have "plain_name (bm_name (sr_bench sr))" and l: "fits_line ?l" using Cons.prems True by auto
    then have r: "reference_line (?l @ [CHR 0x0A]) =
        Some (bm_name (sr_bench sr) @ '' '', '' '' @ fmt6 (st_mean (sr_stats sr)) @ [CHR 0x0A])"
      using entry_line [of "bm_name (sr_bench sr)" "fmt6 (st_mean (sr_stats sr)) @ [CHR 0x0A]"] by simp
    have "concat (map (reference_entry fmt6) (sr # srs)) =
        ?l @ CHR 0x0A # concat (map (reference_entry fmt6) srs)"
      using True by (simp add: reference_entry_def)
    then show ?thesis
      using Cons True by (simp only: fgets_fits [OF l] map_filter_simps r) simp
  qed
qed

lemma header_lines:
  assumes "fits_line (''# ServMark reference baseline '' @ [CHR 0xE2, CHR 0x80, CHR 0x94] @ '' generated '' @ t)"
    "fits_line (''# Use with: ./servmark --reference '' @ refpath)"
  shows "List.map_filter reference_line (fgets_all 512 (reference_header (t @ [CHR 0x0A]) refpath @ body)) =
    List.map_filter reference_line (fgets_all 512 body)"
proof -
  let ?a = "''# ServMark reference baseline '' @ [CHR 0xE2, CHR 0x80, CHR 0x94] @ '' generated '' @ t"
  let ?b = "''# Format: benchmark_name = baseline_value''"
  let ?c = "''# Use with: ./servmark --reference '' @ refpath"
  have b: "fits_line ?b" by (simp add: fits_line_def)
  have "reference_header (t @ [CHR 0x0A]) refpath @ body =
      ?a @ CHR 0x0A # CHR 0x0A # (?b @ CHR 0x0A # (?c @ CHR 0x0A # CHR 0x0A # body))"
    by (simp add: reference_header_def)
  then show ?thesis
    by (simp only: fgets_fits [OF assms(1)] fgets_fits [OF b] fgets_fits [OF assms(2)] fgets_empty_line
        map_filter_simps) (simp add: comment_line empty_line)
qed

text \<open>
  C28. The reference file \<^verbatim>\<open>main\<close> writes is read back entry for entry: whatever the two number
  conversions do, \<open>scoring_load_reference\<close> finds the subtests that have iterations, in order, under
  their names, with the value \<^verbatim>\<open>atof\<close> makes of the printed mean. The header's comment lines and the
  blank line after the date add nothing.
\<close>

theorem reference_roundtrip:
  assumes "fits_line (''# ServMark reference baseline '' @ [CHR 0xE2, CHR 0x80, CHR 0x94] @ '' generated '' @ t)"
    "fits_line (''# Use with: ./servmark --reference '' @ refpath)"
    "\<forall>sr \<in> set srs. 0 < st_iterations (sr_stats sr) \<longrightarrow> plain_name (bm_name (sr_bench sr)) \<and>
       fits_line (bm_name (sr_bench sr) @ '' = '' @ fmt6 (st_mean (sr_stats sr)))"
    "\<exists>sr \<in> set srs. 0 < st_iterations (sr_stats sr)"
  shows "scoring_load_reference atof_fn True True
      (Some (write_reference fmt6 (t @ [CHR 0x0A]) refpath srs)) =
    (let ran = filter (\<lambda>sr. 0 < st_iterations (sr_stats sr)) srs
     in (0, Some (map (\<lambda>sr. (atof_fn ('' '' @ fmt6 (st_mean (sr_stats sr)) @ [CHR 0x0A]),
                            bm_name (sr_bench sr))) ran, length ran)))"
proof -
  let ?ran = "filter (\<lambda>sr. 0 < st_iterations (sr_stats sr)) srs"
  let ?lines = "fgets_all 512 (write_reference fmt6 (t @ [CHR 0x0A]) refpath srs)"
  have es: "List.map_filter reference_line ?lines =
      map (\<lambda>sr. (bm_name (sr_bench sr) @ '' '', '' '' @ fmt6 (st_mean (sr_stats sr)) @ [CHR 0x0A])) ?ran"
    unfolding write_reference_def header_lines [OF assms(1,2)] by (rule entries_lines [OF assms(3)])
  have n: "count_entries ?lines = length ?ran" by (simp add: count_eq es)
  have "?ran \<noteq> []" using assms(4) by (auto simp: filter_empty_conv)
  moreover have "parse_entries atof_fn (length ?ran) ?lines [] =
      map (\<lambda>sr. (atof_fn ('' '' @ fmt6 (st_mean (sr_stats sr)) @ [CHR 0x0A]), bm_name (sr_bench sr))) ?ran"
    using assms(3) by (subst parse_eq) (auto simp: n es trim_plain)
  ultimately show ?thesis by (simp add: scoring_load_reference_def n Let_def)
qed

text \<open>Every name of the catalog can be written to a reference file.\<close>

lemma catalog_plain_names: "\<forall>b \<in> set all_benchmarks. plain_name (bm_name b) \<and> length (bm_name b) < 32"
proof -
  have "list_all (\<lambda>w. plain_name w \<and> length w < 32) (map bm_name all_benchmarks)"
    by (simp add: all_benchmarks_def compute_defs crypto_defs memory_defs os_defs sync_defs io_defs
        net_defs virt_defs plain_name_def isblank_def is_newline_def)
  then show ?thesis by (simp add: list_all_iff)
qed

definition done_subtest :: subtest_result_t where
  "done_subtest = (failed_subtest bench_int_hash)\<lparr>sr_stats := zero_stats\<lparr>st_iterations := 5, st_mean := 2\<rparr>\<rparr>"

lemma reference_roundtrip_witness:
  "scoring_load_reference (\<lambda>s. real (length s)) True True
     (Some (write_reference (\<lambda>_. ''2.000000'') (''Thu'' @ [CHR 0x0A]) ''ref.txt'' [done_subtest])) =
   (0, Some ([(10, ''int-hash'')], 1))"
  by (subst reference_roundtrip)
     (simp_all add: done_subtest_def failed_subtest_def fits_line_def plain_name_def isblank_def
        is_newline_def bench_int_hash_def)

end
