(* ===== verification/Radix.thy ===== *)
theory Radix
  imports Prelude
begin

text \<open>
  \<open>lsb_radix_sort\<close> of \<^verbatim>\<open>src/benchmarks/compute/int_sort.c\<close>: eight counting passes over two arrays that
  swap roles, and the proof that they sort.
\<close>

unbundle bit_operations_syntax

definition RADIX_BITS :: nat where "RADIX_BITS = 8"
definition RADIX_SIZE :: nat where "RADIX_SIZE = 256"

text \<open>\<open>(src[i] >> shift) & RADIX_MASK\<close>\<close>

definition radix_digit :: "nat \<Rightarrow> 64 word \<Rightarrow> nat" where
  "radix_digit shift x = unat (drop_bit shift x AND 255)"

subsection \<open>One pass\<close>

text \<open>\<open>count[b]++\<close> over the input, then the running sums \<open>pos[b] = pos[b-1] + count[b-1]\<close>.\<close>

definition count_digits :: "nat \<Rightarrow> 64 word list \<Rightarrow> nat list" where
  "count_digits shift xs =
     foldl (\<lambda>cnt x. let b = radix_digit shift x in cnt[b := cnt ! b + 1]) (replicate RADIX_SIZE 0) xs"

definition start_positions :: "nat list \<Rightarrow> nat list" where
  "start_positions cnt =
     foldl (\<lambda>pos b. pos[b := pos ! (b - 1) + cnt ! (b - 1)]) (replicate RADIX_SIZE 0) [1..<RADIX_SIZE]"

text \<open>\<open>dst[pos[b]++] = src[i]\<close>\<close>

fun scatter :: "nat \<Rightarrow> 64 word list \<Rightarrow> nat list \<Rightarrow> 64 word list \<Rightarrow> 64 word list outcome" where
  "scatter shift [] pos dst = Ret dst"
| "scatter shift (x # xs) pos dst =
     (let b = radix_digit shift x; p = pos ! b
      in if p < length dst then scatter shift xs (pos[b := p + 1]) (dst[p := x])
         else Undef OobWrite)"

text \<open>A pass on the first \<open>n\<close> elements; the arrays swap afterwards.\<close>

definition radix_pass ::
    "nat \<Rightarrow> nat \<Rightarrow> 64 word list \<times> 64 word list \<Rightarrow> (64 word list \<times> 64 word list) outcome" where
  "radix_pass n shift arrays =
     (case arrays of (src, dst) \<Rightarrow>
        let xs = take n src
        in out_bind (scatter shift xs (start_positions (count_digits shift xs)) dst)
             (\<lambda>dst. Ret (dst, src)))"

fun radix_passes ::
    "nat \<Rightarrow> nat list \<Rightarrow> 64 word list \<times> 64 word list \<Rightarrow> (64 word list \<times> 64 word list) outcome" where
  "radix_passes n [] arrays = Ret arrays"
| "radix_passes n (shift # shifts) arrays =
     out_bind (radix_pass n shift arrays) (radix_passes n shifts)"

definition radix_shifts :: "nat list" where
  "radix_shifts = map (\<lambda>k. RADIX_BITS * k) [0..<8]"

text \<open>The contents of the two arrays afterwards. An even number of swaps leaves the current source
  in the caller's \<open>src\<close>.\<close>

definition lsb_radix_sort ::
    "64 word list \<Rightarrow> 64 word list \<Rightarrow> nat \<Rightarrow> (64 word list \<times> 64 word list) outcome" where
  "lsb_radix_sort src dst n =
     out_bind (radix_passes n radix_shifts (src, dst))
       (\<lambda>(cur, other). Ret (if even (length radix_shifts) then (cur, other) else (other, cur)))"

subsection \<open>Counting\<close>

lemma radix_digit_eq: "radix_digit shift x = unat x div 2 ^ shift mod 256"
proof -
  have "(255 :: 64 word) = mask 8" by (simp add: mask_eq_exp_minus_1)
  then have "radix_digit shift x = unat (take_bit 8 (drop_bit shift x))"
    by (simp add: radix_digit_def take_bit_eq_mask)
  also have "\<dots> = take_bit 8 (drop_bit shift (unat x))"
    by (simp only: unsigned_take_bit_eq unat_drop_bit_eq)
  finally show ?thesis by (simp add: take_bit_eq_mod drop_bit_eq_div)
qed

lemma radix_digit_less: "radix_digit shift x < 256"
  by (simp add: radix_digit_eq)

abbreviation bucket :: "nat \<Rightarrow> 64 word list \<Rightarrow> nat \<Rightarrow> 64 word list" where
  "bucket shift xs k \<equiv> filter (\<lambda>x. radix_digit shift x = k) xs"

lemma count_from:
  assumes "length cnt = 256" "k < 256"
  shows "foldl (\<lambda>cnt x. let b = radix_digit shift x in cnt[b := cnt ! b + 1]) cnt xs ! k =
    cnt ! k + length (bucket shift xs k)"
  using assms
proof (induction xs arbitrary: cnt)
  case (Cons x xs)
  then show ?case
    using radix_digit_less [of shift x] by (simp add: Let_def nth_list_update)
qed simp

lemma count_digits_nth: "k < 256 \<Longrightarrow> count_digits shift xs ! k = length (bucket shift xs k)"
  unfolding count_digits_def by (subst count_from) (simp_all add: RADIX_SIZE_def)

definition start :: "nat \<Rightarrow> 64 word list \<Rightarrow> nat \<Rightarrow> nat" where
  "start shift xs k = (\<Sum>j < k. length (bucket shift xs j))"

lemma start_simps [simp]:
  "start shift xs 0 = 0" "start shift xs (Suc k) = start shift xs k + length (bucket shift xs k)"
  by (simp_all add: start_def)

lemma start_positions_from:
  assumes "m \<le> 255" "length pos = 256" "pos ! 0 = 0"
  shows "length (foldl (\<lambda>pos b. pos[b := pos ! (b - 1) + cnt ! (b - 1)]) pos [1..<Suc m]) = 256 \<and>
    (\<forall>k \<le> m. foldl (\<lambda>pos b. pos[b := pos ! (b - 1) + cnt ! (b - 1)]) pos [1..<Suc m] ! k = (\<Sum>j < k. cnt ! j))"
  using assms
proof (induction m)
  case (Suc m)
  then show ?case by (auto simp: nth_list_update le_Suc_eq)
qed simp

lemma start_positions_nth:
  assumes "k < 256"
  shows "start_positions (count_digits shift xs) ! k = start shift xs k"
    and "length (start_positions cnt) = 256"
proof -
  have e: "[1..<RADIX_SIZE] = [1..<Suc 255]" by (simp add: RADIX_SIZE_def)
  show "length (start_positions cnt) = 256"
    unfolding start_positions_def e
    using start_positions_from [of 255 "replicate RADIX_SIZE 0" cnt] by (simp add: RADIX_SIZE_def)
  have "start_positions (count_digits shift xs) ! k = (\<Sum>j < k. count_digits shift xs ! j)"
    unfolding start_positions_def e
    using start_positions_from [of 255 "replicate RADIX_SIZE 0" "count_digits shift xs"] assms
    by (simp add: RADIX_SIZE_def)
  also have "\<dots> = start shift xs k"
    unfolding start_def by (rule sum.cong) (use assms in \<open>simp_all add: count_digits_nth\<close>)
  finally show "start_positions (count_digits shift xs) ! k = start shift xs k" .
qed

lemma start_mono: "k \<le> k' \<Longrightarrow> start shift xs k \<le> start shift xs k'"
  by (induction rule: dec_induct) auto

lemma start_next: "k < k' \<Longrightarrow> start shift xs k + length (bucket shift xs k) \<le> start shift xs k'"
  using start_mono [of "Suc k" k' shift xs] by simp

subsection \<open>Scattering\<close>

text \<open>After the prefix \<open>ys\<close> of \<open>zs\<close> has been scattered: every bucket holds its elements of the prefix
  from its start on, and its position is the next free place.\<close>

definition scattered :: "nat \<Rightarrow> 64 word list \<Rightarrow> 64 word list \<Rightarrow> nat list \<Rightarrow> 64 word list \<Rightarrow> bool" where
  "scattered shift zs ys pos dst \<longleftrightarrow> length pos = 256 \<and>
     (\<forall>k < 256. pos ! k = start shift zs k + length (bucket shift ys k) \<and>
        (\<forall>j < length (bucket shift ys k). dst ! (start shift zs k + j) = bucket shift ys k ! j))"

lemma bucket_append [simp]: "bucket shift (ys @ xs) k = bucket shift ys k @ bucket shift xs k"
  by simp

lemma length_buckets: "start shift xs 256 = length xs"
proof (induction xs)
  case (Cons x xs)
  have "start shift (x # xs) m = start shift xs m + (if radix_digit shift x < m then 1 else 0)" for m
    by (induction m) auto
  then show ?case using Cons radix_digit_less [of shift x] by simp
qed (simp add: start_def)

lemma scatter_room:
  assumes "zs = ys @ x # xs"
  shows "start shift zs (radix_digit shift x) + length (bucket shift ys (radix_digit shift x)) < length zs"
    and "k < 256 \<Longrightarrow> k \<noteq> radix_digit shift x \<Longrightarrow> j < length (bucket shift ys k) \<Longrightarrow>
      start shift zs k + j \<noteq> start shift zs (radix_digit shift x) + length (bucket shift ys (radix_digit shift x))"
proof -
  let ?b = "radix_digit shift x"
  have b: "length (bucket shift ys ?b) < length (bucket shift zs ?b)" using assms by simp
  have "start shift zs ?b + length (bucket shift zs ?b) \<le> start shift zs 256"
    by (rule start_next) (rule radix_digit_less)
  then show "start shift zs ?b + length (bucket shift ys ?b) < length zs"
    using b by (simp add: length_buckets)
  assume k: "k < 256" "k \<noteq> ?b" "j < length (bucket shift ys k)"
  have j: "j < length (bucket shift zs k)" using k(3) assms by simp
  show "start shift zs k + j \<noteq> start shift zs ?b + length (bucket shift ys ?b)"
  proof (cases "k < ?b")
    case True
    then show ?thesis using start_next [OF True, of shift zs] j by linarith
  next
    case False
    then have "?b < k" using k(2) by simp
    then show ?thesis using start_next [of ?b k shift zs] b by linarith
  qed
qed

lemma scatter_ok:
  "zs = ys @ xs \<Longrightarrow> length zs \<le> length dst \<Longrightarrow> scattered shift zs ys pos dst \<Longrightarrow>
   \<exists>dst'. scatter shift xs pos dst = Ret dst' \<and> length dst' = length dst \<and>
     (\<forall>p. length zs \<le> p \<longrightarrow> dst' ! p = dst ! p) \<and> (\<exists>pos'. scattered shift zs zs pos' dst')"
proof (induction xs arbitrary: ys pos dst)
  case Nil
  then show ?case by auto
next
  case (Cons x xs)
  let ?b = "radix_digit shift x"
  let ?p = "pos ! ?b"
  have inv: "length pos = 256" "\<And>k. k < 256 \<Longrightarrow> pos ! k = start shift zs k + length (bucket shift ys k)"
    "\<And>k j. k < 256 \<Longrightarrow> j < length (bucket shift ys k) \<Longrightarrow>
       dst ! (start shift zs k + j) = bucket shift ys k ! j"
    using Cons.prems(3) by (auto simp: scattered_def)
  have p: "?p = start shift zs ?b + length (bucket shift ys ?b)"
    by (rule inv(2)) (rule radix_digit_less)
  have room: "?p < length zs" using scatter_room(1) [OF Cons.prems(1)] p by simp
  have "scattered shift zs (ys @ [x]) (pos[?b := ?p + 1]) (dst[?p := x])"
    unfolding scattered_def
  proof (intro conjI allI impI)
    show "length (pos[?b := ?p + 1]) = 256" by (simp add: inv(1))
  next
    fix k :: nat assume k: "k < 256"
    show "pos[?b := ?p + 1] ! k = start shift zs k + length (bucket shift (ys @ [x]) k)"
      using k inv(1,2) by (simp add: nth_list_update)
    fix j assume j: "j < length (bucket shift (ys @ [x]) k)"
    show "dst[?p := x] ! (start shift zs k + j) = bucket shift (ys @ [x]) k ! j"
    proof (cases "j < length (bucket shift ys k)")
      case True
      have "start shift zs k + j \<noteq> ?p"
        using scatter_room(2) [OF Cons.prems(1) k _ True] p True by (cases "k = ?b") auto
      then show ?thesis using inv(3) [OF k True] True by (simp add: nth_append)
    next
      case False
      then have "k = ?b" "j = length (bucket shift ys ?b)" using j by (auto split: if_splits)
      then show ?thesis using p room Cons.prems(2) by (simp add: nth_append)
    qed
  qed
  from Cons.IH [OF _ _ this] obtain dst' where
    "scatter shift xs (pos[?b := ?p + 1]) (dst[?p := x]) = Ret dst'" "length dst' = length dst"
    "\<forall>p. length zs \<le> p \<longrightarrow> dst' ! p = dst[?p := x] ! p" "\<exists>pos'. scattered shift zs zs pos' dst'"
    using Cons.prems(1,2) by auto
  then show ?case using room Cons.prems(2) by (auto simp: Let_def)
qed

subsection \<open>A pass is a stable sort by the digit\<close>

definition by_digit :: "nat \<Rightarrow> 64 word list \<Rightarrow> nat \<Rightarrow> 64 word list" where
  "by_digit shift xs m = concat (map (bucket shift xs) [0..<m])"

lemma by_digit_simps [simp]:
  "by_digit shift xs 0 = []" "by_digit shift xs (Suc m) = by_digit shift xs m @ bucket shift xs m"
  by (simp_all add: by_digit_def)

lemma scattered_result:
  assumes "scattered shift xs xs pos dst" "length xs \<le> length dst" "m \<le> 256"
  shows "take (start shift xs m) dst = by_digit shift xs m"
  using assms(3)
proof (induction m)
  case (Suc m)
  let ?s = "start shift xs m" and ?F = "bucket shift xs m"
  have "?s + length ?F \<le> start shift xs 256" using Suc.prems by (intro start_next) simp
  then have le: "?s + length ?F \<le> length dst" using assms(2) by (simp add: length_buckets)
  have "take (length ?F) (drop ?s dst) = ?F"
    by (rule nth_equalityI) (use assms(1) Suc.prems le in \<open>auto simp: scattered_def\<close>)
  then show ?case using Suc by (simp add: take_add)
qed simp

lemma bucket_by_digit: "bucket shift (by_digit shift xs m) k = (if k < m then bucket shift xs k else [])"
proof (induction m)
  case (Suc m)
  then show ?case by (auto simp: less_Suc_eq filter_filter cong: conj_cong filter_cong)
qed simp

lemma sorted_bucket: "sorted (map (radix_digit shift) (bucket shift xs k))"
  by (induction xs) auto

lemma sorted_by_digit: "sorted (map (radix_digit shift) (by_digit shift xs m)) \<and>
  (\<forall>x \<in> set (by_digit shift xs m). radix_digit shift x < m)"
  by (induction m) (auto simp: sorted_append sorted_bucket less_Suc_eq intro: less_imp_le)

lemma mset_by_digit: "mset (by_digit shift xs 256) = mset xs"
proof (rule multiset_eqI)
  fix x
  have c: "count (mset ys) x = count (mset (bucket shift ys (radix_digit shift x))) x" for ys
    by (induction ys) auto
  show "count (mset (by_digit shift xs 256)) x = count (mset xs) x"
    unfolding c [of "by_digit shift xs 256"] c [of xs]
    by (simp add: bucket_by_digit radix_digit_less)
qed

lemma by_digit_sort: "by_digit shift xs 256 = sort_key (radix_digit shift) xs"
proof (rule properties_for_sort_key [symmetric])
  show "mset (by_digit shift xs 256) = mset xs" by (rule mset_by_digit)
  show "sorted (map (radix_digit shift) (by_digit shift xs 256))" using sorted_by_digit by blast
  fix x assume "x \<in> set (by_digit shift xs 256)"
  show "filter (\<lambda>y. radix_digit shift x = radix_digit shift y) (by_digit shift xs 256) =
      filter (\<lambda>y. radix_digit shift x = radix_digit shift y) xs"
    using bucket_by_digit [where shift = shift and xs = xs and m = 256 and k = "radix_digit shift x"] radix_digit_less [of shift x]
    by (simp add: eq_commute)
qed

lemma radix_pass_ok:
  assumes "n \<le> length src" "n \<le> length dst"
  shows "\<exists>dst'. radix_pass n shift (src, dst) = Ret (dst', src) \<and> length dst' = length dst \<and>
    take n dst' = sort_key (radix_digit shift) (take n src) \<and> drop n dst' = drop n dst"
proof -
  let ?xs = "take n src"
  let ?pos = "start_positions (count_digits shift ?xs)"
  have len: "length ?xs = n" using assms(1) by simp
  have "scattered shift ?xs [] ?pos dst"
    by (simp add: scattered_def start_positions_nth [of 0] start_positions_nth(1))
  then obtain dst' pos' where d: "scatter shift ?xs ?pos dst = Ret dst'" "length dst' = length dst"
    "\<forall>p. n \<le> p \<longrightarrow> dst' ! p = dst ! p" "scattered shift ?xs ?xs pos' dst'"
    using scatter_ok [of ?xs "[]" ?xs dst shift ?pos] assms(2) len by auto
  have "take n dst' = by_digit shift ?xs 256"
    using scattered_result [OF d(4), of 256] assms(2) len d(2) by (simp add: length_buckets)
  moreover have "drop n dst' = drop n dst"
    by (rule nth_equalityI) (use d(2,3) assms(2) in auto)
  ultimately show ?thesis using d by (simp add: radix_pass_def Let_def by_digit_sort)
qed

subsection \<open>Eight passes sort\<close>

lemma lex_insort:
  assumes "sorted_wrt (\<lambda>x y. f x < f y \<or> (f x = f y \<and> g x \<le> g y)) ys" "\<forall>y \<in> set ys. g x \<le> g y"
  shows "sorted_wrt (\<lambda>x y. f x < f y \<or> (f x = f y \<and> g x \<le> g y)) (insort_key f x ys)"
  using assms by (induction ys) (auto simp: set_insort_key)

text \<open>A stable sort by \<open>f\<close> of a list sorted by \<open>g\<close> is sorted by the pair.\<close>

lemma stable_lex:
  fixes f g :: "'a \<Rightarrow> nat"
  assumes "sorted (map g xs)"
  shows "sorted_wrt (\<lambda>x y. f x < f y \<or> (f x = f y \<and> g x \<le> g y)) (sort_key f xs)"
  using assms by (induction xs) (auto intro: lex_insort)

lemma digit_lex:
  "a div 2 ^ s mod 256 < b div 2 ^ s mod 256 \<or>
   (a div 2 ^ s mod 256 = b div 2 ^ s mod 256 \<and> a mod 2 ^ s \<le> b mod 2 ^ s) \<Longrightarrow>
   a mod 2 ^ (s + 8) \<le> (b :: nat) mod 2 ^ (s + 8)"
proof -
  have e: "c mod 2 ^ (s + 8) = 2 ^ s * (c div 2 ^ s mod 256) + c mod 2 ^ s" for c :: nat
    by (simp add: power_add mod_mult2_eq)
  assume h: "a div 2 ^ s mod 256 < b div 2 ^ s mod 256 \<or>
    (a div 2 ^ s mod 256 = b div 2 ^ s mod 256 \<and> a mod 2 ^ s \<le> b mod 2 ^ s)"
  show ?thesis
  proof (cases "a div 2 ^ s mod 256 < b div 2 ^ s mod 256")
    case True
    then have "2 ^ s * (a div 2 ^ s mod 256) + 2 ^ s \<le> 2 ^ s * (b div 2 ^ s mod 256)"
      by (metis Suc_leI mult_Suc_right mult_le_mono2 add.commute)
    moreover have "a mod 2 ^ s < 2 ^ s" by simp
    ultimately show ?thesis unfolding e by linarith
  next
    case False
    then show ?thesis using h unfolding e by auto
  qed
qed

lemma radix_passes_append:
  "radix_passes n (ss @ ts) arrays = out_bind (radix_passes n ss arrays) (radix_passes n ts)"
proof (induction ss arbitrary: arrays)
  case (Cons s ss)
  then show ?case by (cases "radix_pass n s arrays") auto
qed simp

text \<open>After \<open>m\<close> passes the current array is sorted by its low \<open>8 m\<close> bits; what lies behind the first
  \<open>n\<close> elements of either array is untouched.\<close>

lemma radix_passes_ok:
  assumes "n \<le> length src" "n \<le> length dst"
  shows "\<exists>cur other. radix_passes n (map (\<lambda>k. RADIX_BITS * k) [0..<m]) (src, dst) = Ret (cur, other) \<and>
    n \<le> length cur \<and> n \<le> length other \<and> mset (take n cur) = mset (take n src) \<and>
    sorted (map (\<lambda>x. unat x mod 2 ^ (8 * m)) (take n cur)) \<and>
    (if even m then drop n cur = drop n src \<and> drop n other = drop n dst \<and>
         length cur = length src \<and> length other = length dst
     else drop n cur = drop n dst \<and> drop n other = drop n src \<and>
         length cur = length dst \<and> length other = length src)"
proof (induction m)
  case 0
  have "sorted (map (\<lambda>x. unat x mod 2 ^ (8 * 0)) (take n src))" by (simp add: sorted_iff_nth_mono)
  then show ?case using assms by simp
next
  case (Suc m)
  let ?d = "radix_digit (8 * m)"
  obtain cur other where IH:
    "radix_passes n (map (\<lambda>k. RADIX_BITS * k) [0..<m]) (src, dst) = Ret (cur, other)"
    "n \<le> length cur" "n \<le> length other" "mset (take n cur) = mset (take n src)"
    "sorted (map (\<lambda>x. unat x mod 2 ^ (8 * m)) (take n cur))"
    "if even m then drop n cur = drop n src \<and> drop n other = drop n dst \<and>
         length cur = length src \<and> length other = length dst
     else drop n cur = drop n dst \<and> drop n other = drop n src \<and>
         length cur = length dst \<and> length other = length src" using Suc by blast
  obtain other' where p: "radix_pass n (8 * m) (cur, other) = Ret (other', cur)"
    "length other' = length other" "take n other' = sort_key ?d (take n cur)" "drop n other' = drop n other"
    using radix_pass_ok [OF IH(2,3)] by blast
  have "sorted_wrt (\<lambda>x y. ?d x < ?d y \<or> (?d x = ?d y \<and> unat x mod 2 ^ (8 * m) \<le> unat y mod 2 ^ (8 * m)))
      (take n other')"
    unfolding p(3) by (rule stable_lex [OF IH(5)])
  then have "sorted_wrt (\<lambda>x y. unat x mod 2 ^ (8 * m + 8) \<le> unat y mod 2 ^ (8 * m + 8)) (take n other')"
    by (rule sorted_wrt_mono_rel [rotated]) (metis digit_lex radix_digit_eq)
  then have "sorted (map (\<lambda>x. unat x mod 2 ^ (8 * Suc m)) (take n other'))"
    by (simp add: sorted_map add.commute)
  moreover have "radix_passes n (map (\<lambda>k. RADIX_BITS * k) [0..<Suc m]) (src, dst) = Ret (other', cur)"
    using IH(1) p(1) by (simp add: radix_passes_append RADIX_BITS_def)
  ultimately show ?case using IH p by (auto split: if_splits)
qed

lemma lsb_radix_sort_facts:
  assumes "n \<le> length src" "n \<le> length dst"
  shows "\<exists>src' dst'. lsb_radix_sort src dst n = Ret (src', dst') \<and>
    take n src' = sort (take n src) \<and> drop n src' = drop n src \<and> drop n dst' = drop n dst \<and>
    length src' = length src \<and> length dst' = length dst"
proof -
  obtain cur other where r: "radix_passes n radix_shifts (src, dst) = Ret (cur, other)"
    "mset (take n cur) = mset (take n src)"
    "sorted (map (\<lambda>x. unat x mod 2 ^ (8 * 8)) (take n cur))"
    "drop n cur = drop n src" "drop n other = drop n dst"
    "length cur = length src" "length other = length dst"
    using radix_passes_ok [OF assms, of 8] by (auto simp: radix_shifts_def)
  have "unat x mod 2 ^ (8 * 8) = unat x" for x :: "64 word"
    using unsigned_less [of x, where ?'a = nat] by simp
  then have "sorted (take n cur)"
    using r(3) by (simp add: sorted_map word_le_nat_alt [abs_def])
  then have "take n cur = sort (take n src)"
    using r(2) by (metis properties_for_sort)
  then show ?thesis
    using r by (simp add: lsb_radix_sort_def radix_shifts_def)
qed

text \<open>
  C6. The radix sort, for arrays of at least \<open>n\<close> elements: no write is out of bounds, the first \<open>n\<close> elements
  of \<open>src\<close> end up as the sorted permutation of what they were, and the rest of both arrays is
  unchanged.
\<close>

theorem lsb_radix_sort_correct:
  assumes "n \<le> length src" "n \<le> length dst"
  shows "\<exists>src' dst'. lsb_radix_sort src dst n = Ret (src', dst') \<and>
    take n src' = sort (take n src) \<and> drop n src' = drop n src \<and> drop n dst' = drop n dst"
  using lsb_radix_sort_facts [OF assms] by blast

lemma lsb_radix_sort_correct_witness:
  "\<exists>src' dst'. lsb_radix_sort [300, 2, 2 ^ 63, 1] [0, 0, 0] 3 = Ret (src', dst') \<and>
     take 3 src' = [2, 300, 2 ^ 63] \<and> drop 3 src' = [1]"
  using lsb_radix_sort_correct [of 3 "[300, 2, 2 ^ 63, 1]" "[0, 0, 0]"] by auto

end
