(* ===== verification/IntSort.thy ===== *)
theory IntSort
  imports Harness Radix Catalog
begin

text \<open>
  \<^verbatim>\<open>src/benchmarks/compute/int_sort.c\<close>: the operations of \<^verbatim>\<open>int-sort\<close> around the radix sort, and that they
  keep the contract \<open>bench_tidy\<close> of the harness.
\<close>

definition N_ELEMENTS :: nat where "N_ELEMENTS = 10000000"

record int_sort_state_t =
  is_data :: "64 word list"
  is_buffer :: "64 word list"
  is_work :: "64 word list"

text \<open>\<open>junk\<close> is what fresh memory holds.\<close>

definition int_sort_init ::
    "(nat \<Rightarrow> 64 word) \<Rightarrow> world \<Rightarrow> int \<times> int_sort_state_t option \<times> world" where
  "int_sort_init junk w =
     (let (p, w) = c_malloc w in
      if \<not> p then (-1, None, w)
      else let (d, w) = c_malloc w; (b, w) = c_malloc w; (k, w) = c_malloc w
        in if \<not> d \<or> \<not> b \<or> \<not> k
           then (-1, None, c_free p (c_free k (c_free b (c_free d w))))
           else let (xs, w) = rand64_list N_ELEMENTS w; fresh = map junk [0..<N_ELEMENTS]
             in (0, Some \<lparr>is_data = xs, is_buffer = fresh, is_work = fresh\<rparr>, w))"

text \<open>Copy the data to the buffer and sort its first \<open>n\<close> elements.\<close>

definition sort_buffer :: "nat \<Rightarrow> int_sort_state_t \<Rightarrow> int_sort_state_t outcome" where
  "sort_buffer n s =
     out_bind (lsb_radix_sort (is_data s) (is_work s) n)
       (\<lambda>(b, k). Ret (s\<lparr>is_buffer := b, is_work := k\<rparr>))"

definition int_sort_warmup ::
    "int_sort_state_t \<Rightarrow> world \<Rightarrow> (int \<times> int_sort_state_t \<times> world) outcome" where
  "int_sort_warmup s w = out_bind (sort_buffer (N_ELEMENTS div 100) s) (\<lambda>s. Ret (0, s, w))"

text \<open>The loop after the clock counts the neighbours that are out of order; the count only goes to a
  volatile sink, so it is the last component of the model's result.\<close>

definition count_inversions :: "64 word list \<Rightarrow> nat" where
  "count_inversions xs = length (filter (\<lambda>i. xs ! i > xs ! (i + 1)) [0..<length xs - 1])"

definition int_sort_measure ::
    "int_sort_state_t \<Rightarrow> world \<Rightarrow> (int \<times> int_sort_state_t \<times> measurement_t \<times> nat \<times> world) outcome" where
  "int_sort_measure s w =
     (let (t0, w) = clock_monotonic w
      in out_bind (sort_buffer N_ELEMENTS s)
           (\<lambda>s. let (t1, w) = clock_monotonic w;
                    sink = count_inversions (is_buffer s);
                    seconds = elapsed t0 t1
                in Ret (0, s, plain_result (rate (real N_ELEMENTS) seconds) seconds, sink, w)))"

definition int_sort_cleanup :: "int_sort_state_t \<Rightarrow> world \<Rightarrow> int \<times> world" where
  "int_sort_cleanup s w = (0, c_free True (c_free True (c_free True (c_free True w))))"

text \<open>The function pointers of the descriptor; the state is \<open>None\<close> when \<^verbatim>\<open>init\<close> failed.\<close>

definition int_sort_ops :: "(nat \<Rightarrow> 64 word) \<Rightarrow> int_sort_state_t option bench_ops" where
  "int_sort_ops junk =
     \<lparr>op_init = int_sort_init junk,
      op_warmup = Some (\<lambda>s w. let (r, s', w') = the_ret (int_sort_warmup (the s) w) in (r, Some s', w')),
      op_measure = (\<lambda>s w. let (r, s', m, _, w') = the_ret (int_sort_measure (the s) w) in (r, Some s', m, w')),
      op_cleanup = (\<lambda>s. int_sort_cleanup (the s))\<rparr>"

definition sort_state_ok :: "int_sort_state_t \<Rightarrow> bool" where
  "sort_state_ok s \<longleftrightarrow> length (is_data s) = N_ELEMENTS \<and> length (is_buffer s) = N_ELEMENTS \<and>
     length (is_work s) = N_ELEMENTS"

lemma sort_buffer_ok:
  assumes "sort_state_ok s" "n \<le> N_ELEMENTS"
  shows "\<exists>s'. sort_buffer n s = Ret s' \<and> sort_state_ok s' \<and> is_data s' = is_data s \<and>
    take n (is_buffer s') = sort (take n (is_data s)) \<and> drop n (is_buffer s') = drop n (is_data s)"
  using lsb_radix_sort_facts [of n "is_data s" "is_work s"] assms
  by (auto simp: sort_buffer_def sort_state_ok_def)

lemma sorted_no_inversions: "sorted xs \<Longrightarrow> count_inversions xs = 0"
  by (auto simp: count_inversions_def filter_empty_conv not_less sorted_iff_nth_mono)

lemma init_ok:
  assumes "int_sort_init junk w = (0, st, w')"
  shows "\<exists>s. st = Some s \<and> sort_state_ok s \<and> held w' = owning 4 (held w)"
  using assms
  by (auto simp: int_sort_init_def Let_def case_prod_beta sort_state_ok_def held_own split: if_splits)

lemma init_failed:
  "int_sort_init junk w = (ret, st, w') \<Longrightarrow> ret \<noteq> 0 \<Longrightarrow> held w' = held w"
  by (auto simp: int_sort_init_def Let_def case_prod_beta held_own split: if_splits)

lemma measure_ret:
  assumes "sort_state_ok s"
  shows "\<exists>s' m w'. int_sort_measure s w = Ret (0, s', m, 0, w') \<and> sort_state_ok s' \<and>
    is_data s' = is_data s \<and> is_buffer s' = sort (is_data s) \<and> held w' = held w"
proof -
  obtain s' where s: "sort_buffer N_ELEMENTS s = Ret s'" "sort_state_ok s'" "is_data s' = is_data s"
    "take N_ELEMENTS (is_buffer s') = sort (take N_ELEMENTS (is_data s))"
    using sort_buffer_ok [OF assms order_refl] by blast
  then have "is_buffer s' = sort (is_data s)"
    using assms by (simp add: sort_state_ok_def)
  then show ?thesis
    using s by (simp add: int_sort_measure_def Let_def case_prod_beta sorted_no_inversions)
qed

lemma warmup_ret:
  assumes "sort_state_ok s"
  shows "\<exists>s'. int_sort_warmup s w = Ret (0, s', w) \<and> sort_state_ok s'"
proof -
  have "N_ELEMENTS div 100 \<le> N_ELEMENTS" by simp
  from sort_buffer_ok [OF assms this] show ?thesis by (auto simp: int_sort_warmup_def)
qed

lemma cleanup_held: "held (snd (int_sort_cleanup s w)) = owning (- 4) (held w)"
  by (simp add: int_sort_cleanup_def held_own)

interpretation int_sort: bench_tidy "int_sort_ops junk" "\<lambda>st. \<exists>s. st = Some s \<and> sort_state_ok s" "\<lambda>_. 4"
proof unfold_locales
  fix w s w' assume "op_init (int_sort_ops junk) w = (0, s, w')"
  then show "(\<exists>t. s = Some t \<and> sort_state_ok t) \<and> held w' = owning 4 (held w)"
    using init_ok by (fastforce simp: int_sort_ops_def)
next
  fix f s w ret s' w'
  assume f: "op_warmup (int_sort_ops junk) = Some f" and "\<exists>t. s = Some t \<and> sort_state_ok t"
    and r: "f s w = (ret, s', w')"
  then obtain t where t: "s = Some t" "sort_state_ok t" by blast
  show "(\<exists>t. s' = Some t \<and> sort_state_ok t) \<and> (4 :: int) = 4 \<and> held w' = held w"
    using warmup_ret [OF t(2), of w] f r t(1) by (auto simp: int_sort_ops_def)
next
  fix s w ret s' m w'
  assume "\<exists>t. s = Some t \<and> sort_state_ok t" and r: "op_measure (int_sort_ops junk) s w = (ret, s', m, w')"
  then obtain t where t: "s = Some t" "sort_state_ok t" by blast
  show "(\<exists>t. s' = Some t \<and> sort_state_ok t) \<and> (4 :: int) = 4 \<and> held w' = held w"
    using measure_ret [OF t(2), of w] r t(1) by (auto simp: int_sort_ops_def)
next
  fix s w ret w'
  assume "\<exists>t. s = Some t \<and> sort_state_ok t" "op_cleanup (int_sort_ops junk) s w = (ret, w')"
  then show "held w' = owning (- 4) (held w)"
    using cleanup_held [of "the s" w] by (simp add: int_sort_ops_def)
next
  fix w ret s w'
  assume "op_init (int_sort_ops junk) w = (ret, s, w')" "ret \<noteq> 0"
  then show "held w' = held w" using init_failed by (fastforce simp: int_sort_ops_def)
qed

text \<open>
  C21. The \<^verbatim>\<open>int-sort\<close> benchmark under the harness: whatever the clocks, the random numbers and the
  allocations do, an instance is defined and gives back all memory and descriptors; and every
  measurement of a state that \<^verbatim>\<open>init\<close> handed out really sorts the data, finds no pair out of order and
  leaves the data as it was.
\<close>

theorem int_sort_runs:
  "(\<exists>ret it us w'. run_benchmark_instance bench_int_sort (int_sort_ops junk) fresh_values w =
      Ret (ret, it, us, w') \<and> held w' = held w) \<and>
   (\<forall>s w1 v. int_sort_init junk w = (0, Some s, w1) \<longrightarrow>
      (\<exists>s' m v'. int_sort_measure s v = Ret (0, s', m, 0, v') \<and> is_buffer s' = sort (is_data s) \<and>
         is_data s' = is_data s))"
proof (intro conjI allI impI)
  have "lim_max_iter (instance_limits bench_int_sort) \<le> int (length fresh_values)"
    by (simp add: instance_limits_def bench_int_sort_def ssb_consts)
  then show "\<exists>ret it us w'. run_benchmark_instance bench_int_sort (int_sort_ops junk) fresh_values w =
      Ret (ret, it, us, w') \<and> held w' = held w"
    by (rule int_sort.instance_never_leaks)
next
  fix s w1 v assume "int_sort_init junk w = (0, Some s, w1)"
  then have "sort_state_ok s" using init_ok by blast
  then show "\<exists>s' m v'. int_sort_measure s v = Ret (0, s', m, 0, v') \<and> is_buffer s' = sort (is_data s) \<and>
      is_data s' = is_data s"
    using measure_ret by blast
qed

lemma quiet_init: "\<exists>s w1. int_sort_init (\<lambda>_. 0) quiet_world = (0, Some s, w1)"
  by (simp add: int_sort_init_def quiet_world_def c_malloc_def case_prod_beta Let_def)

lemma int_sort_runs_witness:
  "\<exists>s w1 s' m v'. int_sort_init (\<lambda>_. 0) quiet_world = (0, Some s, w1) \<and>
     int_sort_measure s w1 = Ret (0, s', m, 0, v') \<and> sorted (is_buffer s')"
proof -
  obtain s w1 where i: "int_sort_init (\<lambda>_. 0) quiet_world = (0, Some s, w1)"
    using quiet_init by blast
  then obtain s' m v' where "int_sort_measure s w1 = Ret (0, s', m, 0, v')" "is_buffer s' = sort (is_data s)"
    using int_sort_runs [of "\<lambda>_. 0" quiet_world] by blast
  with i show ?thesis by auto
qed

end
