(* ===== verification/HashTable.thy ===== *)
theory HashTable
  imports Prelude
begin

text \<open>
  The open-addressing table of \<^verbatim>\<open>src/benchmarks/compute/int_hash.c\<close>: \<open>hash_func\<close>, \<open>hash_insert\<close>,
  \<open>hash_lookup\<close> and \<open>hash_delete\<close>. The table has \<open>2 ^ tb\<close> slots (24 in the benchmark), key 0 marks
  a free slot. Insertion and lookup implement a finite map, the interface \<open>dictionary\<close>; deletion
  does not.
\<close>

unbundle bit_operations_syntax

record hash_table =
  table_keys :: "64 word list"
  table_vals :: "64 word list"

definition hash_func :: "64 word \<Rightarrow> 64 word" where
  "hash_func key =
     (let key = NOT key + push_bit 21 key;
          key = key XOR drop_bit 24 key;
          key = (key + push_bit 3 key) + push_bit 8 key;
          key = key XOR drop_bit 14 key;
          key = (key + push_bit 2 key) + push_bit 4 key;
          key = key XOR drop_bit 28 key;
          key = key + push_bit 31 key
      in key)"

text \<open>\<open>x & (TABLE_SIZE - 1)\<close>\<close>

definition in_table :: "nat \<Rightarrow> 64 word \<Rightarrow> 64 word" where
  "in_table tb x = x AND (2 ^ tb - 1)"

text \<open>The two probe loops; they return the slot and the number of probes. The second one stops with
  \<open>None\<close> at a free slot.\<close>

function insert_probe :: "nat \<Rightarrow> nat \<Rightarrow> 64 word list \<Rightarrow> 64 word \<Rightarrow> 64 word \<Rightarrow> nat \<Rightarrow> 64 word \<times> nat" where
  "insert_probe max_probes tb ks key h probes =
     (if ks ! unat h \<noteq> 0 \<and> ks ! unat h \<noteq> key \<and> probes < max_probes
      then insert_probe max_probes tb ks key (in_table tb (h + 1)) (probes + 1) else (h, probes))"
  by pat_completeness auto
termination by (relation "measure (\<lambda>(m, tb, ks, key, h, probes). m - probes)") auto

function find_probe :: "nat \<Rightarrow> nat \<Rightarrow> 64 word list \<Rightarrow> 64 word \<Rightarrow> 64 word \<Rightarrow> nat \<Rightarrow> (64 word \<times> nat) option" where
  "find_probe max_probes tb ks key h probes =
     (if ks ! unat h \<noteq> key \<and> probes < max_probes
      then (if ks ! unat h = 0 then None
            else find_probe max_probes tb ks key (in_table tb (h + 1)) (probes + 1))
      else Some (h, probes))"
  by pat_completeness auto
termination by (relation "measure (\<lambda>(m, tb, ks, key, h, probes). m - probes)") auto

declare insert_probe.simps [simp del] find_probe.simps [simp del]

definition hash_insert :: "nat \<Rightarrow> 64 word \<Rightarrow> 64 word \<Rightarrow> hash_table \<Rightarrow> hash_table" where
  "hash_insert tb key val t =
     (let max_probes = 2 ^ tb * 2;
          (h, probes) = insert_probe max_probes tb (table_keys t) key (in_table tb (hash_func key)) 0
      in if probes < max_probes
         then t\<lparr>table_keys := (table_keys t)[unat h := key], table_vals := (table_vals t)[unat h := val]\<rparr>
         else t)"

definition hash_lookup :: "nat \<Rightarrow> hash_table \<Rightarrow> 64 word \<Rightarrow> 64 word" where
  "hash_lookup tb t key =
     (case find_probe (2 ^ tb) tb (table_keys t) key (in_table tb (hash_func key)) 0 of
        None \<Rightarrow> 0
      | Some (h, probes) \<Rightarrow> if probes < 2 ^ tb then table_vals t ! unat h else 0)"

definition hash_delete :: "nat \<Rightarrow> 64 word \<Rightarrow> hash_table \<Rightarrow> hash_table" where
  "hash_delete tb key t =
     (case find_probe (2 ^ tb) tb (table_keys t) key (in_table tb (hash_func key)) 0 of
        None \<Rightarrow> t
      | Some (h, probes) \<Rightarrow>
          if probes < 2 ^ tb
          then t\<lparr>table_keys := (table_keys t)[unat h := 0], table_vals := (table_vals t)[unat h := 0]\<rparr>
          else t)"

definition empty_table :: "nat \<Rightarrow> hash_table" where
  "empty_table tb = \<lparr>table_keys = replicate (2 ^ tb) 0, table_vals = replicate (2 ^ tb) 0\<rparr>"

subsection \<open>The interface of a finite map\<close>

text \<open>\<open>abs t\<close> is the map a table stands for, \<open>ok\<close> the keys it can hold, \<open>room\<close> how many.\<close>

locale dictionary =
  fixes insert :: "'k \<Rightarrow> 'v \<Rightarrow> 't \<Rightarrow> 't"
    and lookup :: "'t \<Rightarrow> 'k \<Rightarrow> 'v"
    and abs :: "'t \<Rightarrow> 'k \<Rightarrow> 'v option"
    and inv :: "'t \<Rightarrow> bool"
    and ok :: "'k \<Rightarrow> bool"
    and room :: nat
    and missing :: 'v
  assumes finite_abs: "inv t \<Longrightarrow> finite (dom (abs t))"
    and inv_insert: "inv t \<Longrightarrow> ok k \<Longrightarrow> inv (insert k v t)"
    and abs_insert: "inv t \<Longrightarrow> ok k \<Longrightarrow> card (dom (abs t)) < room \<Longrightarrow> abs (insert k v t) = (abs t)(k \<mapsto> v)"
    and lookup_abs: "inv t \<Longrightarrow> ok k \<Longrightarrow> lookup t k = (case abs t k of None \<Rightarrow> missing | Some v \<Rightarrow> v)"
begin

definition insert_all :: "('k \<times> 'v) list \<Rightarrow> 't \<Rightarrow> 't" where
  "insert_all kvs t = foldl (\<lambda>t (k, v). insert k v t) t kvs"

text \<open>Inserting a list of pairs: the map is updated with all of them, later ones overriding.\<close>

lemma insert_all_abs:
  assumes "inv t" "\<forall>(k, v) \<in> set kvs. ok k" "card (dom (abs t)) + length kvs \<le> room"
  shows "inv (insert_all kvs t) \<and> abs (insert_all kvs t) = abs t ++ map_of (rev kvs)"
  using assms
proof (induction kvs arbitrary: t)
  case Nil
  then show ?case by (simp add: insert_all_def)
next
  case (Cons kv kvs)
  obtain k v where kv: "kv = (k, v)" by fastforce
  let ?t = "insert k v t"
  have k: "ok k" "card (dom (abs t)) < room" using Cons.prems kv by auto
  have a: "abs ?t = (abs t)(k \<mapsto> v)" using Cons.prems(1) k by (simp add: abs_insert)
  have "card (dom (abs ?t)) \<le> Suc (card (dom (abs t)))"
    using finite_abs [OF Cons.prems(1)] by (simp add: a card_insert_if)
  then have "inv (insert_all kvs ?t) \<and> abs (insert_all kvs ?t) = abs ?t ++ map_of (rev kvs)"
    using Cons.prems k kv by (intro Cons.IH) (auto simp: inv_insert)
  then show ?case by (simp add: insert_all_def kv a map_add_def fun_eq_iff split: option.split)
qed

lemma lookup_inserted:
  assumes "inv t" "\<forall>(k, v) \<in> set kvs. ok k" "card (dom (abs t)) + length kvs \<le> room" "ok k"
  shows "lookup (insert_all kvs t) k =
    (case map_of (rev kvs) k of Some v \<Rightarrow> v | None \<Rightarrow> lookup t k)"
  using insert_all_abs [OF assms(1-3)] assms(1,4)
  by (auto simp: lookup_abs map_add_def split: option.split)

end

subsection \<open>Probe sequences\<close>

lemma in_table_eq: "tb < 64 \<Longrightarrow> unat (in_table tb x) = unat x mod 2 ^ tb"
proof -
  assume "tb < 64"
  have "in_table tb x = take_bit tb x"
    by (simp add: in_table_def take_bit_eq_mask mask_eq_exp_minus_1)
  then have "unat (in_table tb x) = take_bit tb (unat x)" by (simp only: unsigned_take_bit_eq)
  then show ?thesis by (simp only: take_bit_eq_mod)
qed

lemma in_table_next:
  assumes "tb < 64" "unat h < 2 ^ tb"
  shows "unat (in_table tb (h + 1)) = (unat h + 1) mod 2 ^ tb"
proof -
  have "(2 :: nat) ^ tb \<le> 2 ^ 63" using assms(1) by (intro power_increasing) auto
  then have "unat h + 1 < 2 ^ 64" using assms(2) by simp
  then have "unat (h + 1) = unat h + 1" by (simp add: unat_word_ariths)
  then show ?thesis using assms(1) by (simp add: in_table_eq)
qed

text \<open>Slot \<open>j\<close> of the probe sequence of a key.\<close>

definition slot :: "nat \<Rightarrow> 64 word \<Rightarrow> nat \<Rightarrow> nat" where
  "slot tb key j = (unat (hash_func key) + j) mod 2 ^ tb"

lemma slot_less [simp]: "slot tb key j < 2 ^ tb"
  by (simp add: slot_def)

lemma slot_inj: "i < j \<Longrightarrow> j < 2 ^ tb \<Longrightarrow> slot tb key i \<noteq> slot tb key j"
proof
  assume h: "i < j" "j < 2 ^ tb" "slot tb key i = slot tb key j"
  let ?h = "unat (hash_func key)" and ?N = "2 ^ tb :: nat"
  have "(?h + j) mod ?N = (?h + i) mod ?N" using h(3) by (simp add: slot_def)
  then have "?N dvd (?h + j) - (?h + i)" by (simp add: mod_eq_dvd_iff_nat h(1) less_imp_le)
  then have "?N dvd j - i" by simp
  then show False using h(1,2) by (auto dest: dvd_imp_le)
qed

lemma slot_cover: "p < 2 ^ tb \<Longrightarrow> \<exists>j < 2 ^ tb. slot tb key j = p"
proof -
  assume p: "p < 2 ^ tb"
  let ?N = "2 ^ tb :: nat"
  have "inj_on (slot tb key) {..<?N}"
    by (rule linorder_inj_onI) (use slot_inj in auto)
  then have "slot tb key ` {..<?N} = {..<?N}"
    by (intro endo_inj_surj) auto
  then have "p \<in> slot tb key ` {..<?N}" using p by simp
  then show ?thesis by auto
qed

lemma insert_probe_eq:
  assumes "tb < 64" "unat h = slot tb key i" "j0 < max_probes" "i \<le> j0"
    "\<forall>j. i \<le> j \<longrightarrow> j < j0 \<longrightarrow> ks ! slot tb key j \<notin> {0, key}" "ks ! slot tb key j0 \<in> {0, key}"
  shows "\<exists>h'. insert_probe max_probes tb ks key h i = (h', j0) \<and> unat h' = slot tb key j0"
  using assms(2,4,5)
proof (induction "j0 - i" arbitrary: h i)
  case 0
  then have "i = j0" by simp
  then show ?case using 0 assms(6) by (subst insert_probe.simps) auto
next
  case (Suc n)
  then have i: "i < j0" by simp
  have "unat (in_table tb (h + 1)) = slot tb key (Suc i)"
    using Suc.prems(1) in_table_next [OF assms(1), of h] by (simp add: slot_def mod_Suc_eq)
  moreover have "insert_probe max_probes tb ks key h i =
      insert_probe max_probes tb ks key (in_table tb (h + 1)) (Suc i)"
    using Suc.prems i assms(3) by (subst insert_probe.simps) auto
  ultimately show ?case using Suc.hyps(1) [of "Suc i" "in_table tb (h + 1)"] Suc.hyps(2) Suc.prems i by auto
qed

lemma insert_probe_full:
  assumes "tb < 64" "\<forall>j. ks ! slot tb key j \<notin> {0, key}"
  shows "unat h = slot tb key i \<Longrightarrow> i \<le> max_probes \<Longrightarrow>
    \<exists>h'. insert_probe max_probes tb ks key h i = (h', max_probes)"
proof (induction "max_probes - i" arbitrary: h i)
  case 0
  then show ?case by (subst insert_probe.simps) auto
next
  case (Suc n)
  have "unat (in_table tb (h + 1)) = slot tb key (Suc i)"
    using Suc.prems(1) in_table_next [OF assms(1), of h] by (simp add: slot_def mod_Suc_eq)
  moreover have "insert_probe max_probes tb ks key h i =
      insert_probe max_probes tb ks key (in_table tb (h + 1)) (Suc i)"
    using Suc assms(2) by (subst insert_probe.simps) auto
  ultimately show ?case using Suc.hyps(1) [of "Suc i" "in_table tb (h + 1)"] Suc.hyps(2) by auto
qed

lemma find_probe_hit:
  assumes "tb < 64" "unat h = slot tb key i" "j0 < max_probes" "i \<le> j0"
    "\<forall>j. i \<le> j \<longrightarrow> j < j0 \<longrightarrow> ks ! slot tb key j \<notin> {0, key}" "ks ! slot tb key j0 = key"
  shows "\<exists>h'. find_probe max_probes tb ks key h i = Some (h', j0) \<and> unat h' = slot tb key j0"
  using assms(2,4,5)
proof (induction "j0 - i" arbitrary: h i)
  case 0
  then have "i = j0" by simp
  then show ?case using 0 assms(6) by (subst find_probe.simps) auto
next
  case (Suc n)
  then have i: "i < j0" by simp
  have "unat (in_table tb (h + 1)) = slot tb key (Suc i)"
    using Suc.prems(1) in_table_next [OF assms(1), of h] by (simp add: slot_def mod_Suc_eq)
  moreover have "find_probe max_probes tb ks key h i =
      find_probe max_probes tb ks key (in_table tb (h + 1)) (Suc i)"
    using Suc.prems i assms(3) by (subst find_probe.simps) auto
  ultimately show ?case using Suc.hyps(1) [of "Suc i" "in_table tb (h + 1)"] Suc.hyps(2) Suc.prems i by auto
qed

text \<open>A key that is in no slot: the search ends at a free slot or after all probes.\<close>

lemma find_probe_miss:
  assumes "tb < 64" "\<forall>j. ks ! slot tb key j \<noteq> key"
  shows "unat h = slot tb key i \<Longrightarrow> i \<le> max_probes \<Longrightarrow>
    find_probe max_probes tb ks key h i = None \<or>
    (\<exists>h'. find_probe max_probes tb ks key h i = Some (h', max_probes))"
proof (induction "max_probes - i" arbitrary: h i)
  case 0
  then show ?case by (subst (2) find_probe.simps) auto
next
  case (Suc n)
  have "unat (in_table tb (h + 1)) = slot tb key (Suc i)"
    using Suc.prems(1) in_table_next [OF assms(1), of h] by (simp add: slot_def mod_Suc_eq)
  then have "find_probe max_probes tb ks key (in_table tb (h + 1)) (Suc i) = None \<or>
      (\<exists>h'. find_probe max_probes tb ks key (in_table tb (h + 1)) (Suc i) = Some (h', max_probes))"
    using Suc by (intro Suc.hyps(1)) auto
  moreover have "find_probe max_probes tb ks key h i =
      (if ks ! unat h = 0 then None else find_probe max_probes tb ks key (in_table tb (h + 1)) (Suc i))"
    using Suc assms(2) by (subst find_probe.simps) auto
  ultimately show ?case by auto
qed

subsection \<open>The invariant of a table without deletions\<close>

text \<open>A key sits where its probe sequence first meets it, and no slot before is free.\<close>

definition reaches :: "nat \<Rightarrow> 64 word list \<Rightarrow> 64 word \<Rightarrow> nat \<Rightarrow> bool" where
  "reaches tb ks key j \<longleftrightarrow> j < 2 ^ tb \<and> ks ! slot tb key j = key \<and> (\<forall>i < j. ks ! slot tb key i \<notin> {0, key})"

definition hash_inv :: "nat \<Rightarrow> hash_table \<Rightarrow> bool" where
  "hash_inv tb t \<longleftrightarrow> length (table_keys t) = 2 ^ tb \<and> length (table_vals t) = 2 ^ tb \<and>
     (\<forall>p < 2 ^ tb. table_keys t ! p \<noteq> 0 \<longrightarrow>
        (\<exists>j. reaches tb (table_keys t) (table_keys t ! p) j \<and> slot tb (table_keys t ! p) j = p))"

definition hash_abs :: "nat \<Rightarrow> hash_table \<Rightarrow> 64 word \<Rightarrow> 64 word option" where
  "hash_abs tb t key =
     (if key = 0 then None
      else map_option (\<lambda>p. table_vals t ! p) (find (\<lambda>p. table_keys t ! p = key) [0..<2 ^ tb]))"

lemma key_reaches:
  "hash_inv tb t \<Longrightarrow> p < 2 ^ tb \<Longrightarrow> table_keys t ! p = key \<Longrightarrow> key \<noteq> 0 \<Longrightarrow>
   \<exists>j. reaches tb (table_keys t) key j \<and> slot tb key j = p"
  by (auto simp: hash_inv_def)

lemma reaches_unique: "reaches tb ks key j \<Longrightarrow> reaches tb ks key j' \<Longrightarrow> j = j'"
  by (cases j j' rule: linorder_cases) (auto simp: reaches_def)

lemma key_unique:
  assumes "hash_inv tb t" "p < 2 ^ tb" "q < 2 ^ tb" "table_keys t ! p = key" "table_keys t ! q = key" "key \<noteq> 0"
  shows "p = q"
proof -
  obtain i j where "reaches tb (table_keys t) key i" "slot tb key i = p"
    "reaches tb (table_keys t) key j" "slot tb key j = q"
    using key_reaches [OF assms(1,2,4,6)] key_reaches [OF assms(1,3,5,6)] by blast
  then show ?thesis using reaches_unique by blast
qed

lemma hash_abs_at:
  assumes "hash_inv tb t" "p < 2 ^ tb" "table_keys t ! p = key" "key \<noteq> 0"
  shows "hash_abs tb t key = Some (table_vals t ! p)"
proof -
  have "table_keys t ! j \<noteq> key" if "j < p" for j
    using key_unique [OF assms(1,2) _ assms(3) _ assms(4), of j] that assms(2) by auto
  then have "find (\<lambda>p. table_keys t ! p = key) [0..<2 ^ tb] = Some p"
    using assms(2,3) by (auto simp: find_Some_iff intro!: exI [of _ p])
  then show ?thesis using assms(4) by (simp add: hash_abs_def)
qed

lemma hash_abs_none:
  assumes "\<forall>p < 2 ^ tb. table_keys t ! p \<noteq> key"
  shows "hash_abs tb t key = None"
  using assms by (simp add: hash_abs_def find_None_iff)

lemma dom_hash_abs:
  assumes "hash_inv tb t"
  shows "dom (hash_abs tb t) = {k. k \<noteq> 0 \<and> (\<exists>p < 2 ^ tb. table_keys t ! p = k)}"
proof (intro set_eqI iffI)
  fix k assume k: "k \<in> dom (hash_abs tb t)"
  then have "k \<noteq> 0" by (auto simp: hash_abs_def)
  moreover have "\<exists>p < 2 ^ tb. table_keys t ! p = k"
  proof (rule ccontr)
    assume "\<not> ?thesis"
    then have "hash_abs tb t k = None" by (intro hash_abs_none) blast
    then show False using k by (simp add: domIff)
  qed
  ultimately show "k \<in> {k. k \<noteq> 0 \<and> (\<exists>p < 2 ^ tb. table_keys t ! p = k)}" by simp
next
  fix k assume "k \<in> {k. k \<noteq> 0 \<and> (\<exists>p < 2 ^ tb. table_keys t ! p = k)}"
  then show "k \<in> dom (hash_abs tb t)" using hash_abs_at [OF assms] by auto
qed

lemma free_slot:
  assumes "hash_inv tb t" "card (dom (hash_abs tb t)) < 2 ^ tb"
  shows "\<exists>p < 2 ^ tb. table_keys t ! p = 0"
proof (rule ccontr)
  assume "\<not> ?thesis"
  then have full: "table_keys t ! p \<noteq> 0" if "p < 2 ^ tb" for p using that by blast
  have "inj_on (\<lambda>p. table_keys t ! p) {..<2 ^ tb}"
    using key_unique [OF assms(1)] full by (auto intro!: inj_onI)
  then have "card ((\<lambda>p. table_keys t ! p) ` {..<2 ^ tb}) = 2 ^ tb" by (simp add: card_image)
  moreover have "(\<lambda>p. table_keys t ! p) ` {..<2 ^ tb} = dom (hash_abs tb t)"
    using full by (auto simp: dom_hash_abs [OF assms(1)])
  ultimately show False using assms(2) by simp
qed

lemma hash_inv_empty: "hash_inv tb (empty_table tb)"
  by (simp add: hash_inv_def empty_table_def)

lemma hash_abs_empty: "hash_abs tb (empty_table tb) = Map.empty"
  by (rule ext) (auto simp: hash_abs_def empty_table_def find_None_iff)

subsection \<open>Insertion and lookup implement the map\<close>

lemma home_slot: "tb < 64 \<Longrightarrow> unat (in_table tb (hash_func key)) = slot tb key 0"
  by (simp add: in_table_eq slot_def)

text \<open>Where an insertion goes: the first slot of the sequence that is free or holds the key.\<close>

lemma insert_place:
  assumes "hash_inv tb t" "\<exists>p < 2 ^ tb. table_keys t ! p \<in> {0, key}"
  shows "\<exists>j < 2 ^ tb. table_keys t ! slot tb key j \<in> {0, key} \<and>
    (\<forall>i < j. table_keys t ! slot tb key i \<notin> {0, key})"
proof -
  obtain j where j: "j < 2 ^ tb" "table_keys t ! slot tb key j \<in> {0, key}"
    using assms(2) slot_cover by metis
  define P where "P j \<longleftrightarrow> table_keys t ! slot tb key j \<in> {0, key}" for j
  have "P j" using j(2) by (simp add: P_def)
  then obtain k where "k \<le> j" "P k" "\<forall>i < k. \<not> P i" using ex_least_nat_le [of P j] by blast
  then show ?thesis using j(1) by (intro exI [of _ k]) (simp add: P_def)
qed

lemma hash_insert_eq:
  assumes "tb < 64" "j < 2 ^ tb" "table_keys t ! slot tb key j \<in> {0, key}"
    "\<forall>i < j. table_keys t ! slot tb key i \<notin> {0, key}"
  shows "hash_insert tb key val t =
    t\<lparr>table_keys := (table_keys t)[slot tb key j := key], table_vals := (table_vals t)[slot tb key j := val]\<rparr>"
proof -
  obtain h' where "insert_probe (2 ^ tb * 2) tb (table_keys t) key (in_table tb (hash_func key)) 0 = (h', j)"
    "unat h' = slot tb key j"
    using insert_probe_eq [OF assms(1) home_slot [OF assms(1)], of j "2 ^ tb * 2" "table_keys t"] assms(2-4)
    by auto
  then show ?thesis using assms(2) by (simp add: hash_insert_def Let_def)
qed

lemma hash_insert_full:
  assumes "tb < 64" "\<forall>j. table_keys t ! slot tb key j \<notin> {0, key}"
  shows "hash_insert tb key val t = t"
proof -
  obtain h' where "insert_probe (2 ^ tb * 2) tb (table_keys t) key (in_table tb (hash_func key)) 0 =
      (h', 2 ^ tb * 2)"
    using insert_probe_full [OF assms home_slot [OF assms(1)]] by blast
  then show ?thesis by (simp add: hash_insert_def Let_def)
qed

lemma reaches_update:
  assumes "length ks = 2 ^ tb" "key \<noteq> 0" "k2 \<noteq> key" "reaches tb ks k2 j2" "slot tb k2 j2 \<noteq> p" "p < 2 ^ tb"
  shows "reaches tb (ks[p := key]) k2 j2"
  using assms by (auto simp: reaches_def nth_list_update)

lemma hash_insert_inv:
  assumes "tb < 64" "hash_inv tb t" "key \<noteq> 0"
  shows "hash_inv tb (hash_insert tb key val t) \<and>
    ((\<exists>p < 2 ^ tb. table_keys t ! p \<in> {0, key}) \<longrightarrow>
       hash_abs tb (hash_insert tb key val t) = (hash_abs tb t)(key \<mapsto> val))"
proof (cases "\<exists>p < 2 ^ tb. table_keys t ! p \<in> {0, key}")
  case False
  then have "\<forall>j. table_keys t ! slot tb key j \<notin> {0, key}" using slot_less by blast
  then have "hash_insert tb key val t = t" by (rule hash_insert_full [OF assms(1)])
  then show ?thesis using False assms(2) by auto
next
  case True
  obtain j where j: "j < 2 ^ tb" "table_keys t ! slot tb key j \<in> {0, key}"
    "\<forall>i < j. table_keys t ! slot tb key i \<notin> {0, key}"
    using insert_place [OF assms(2) True] by blast
  let ?p = "slot tb key j" and ?ks = "table_keys t"
  let ?t = "hash_insert tb key val t"
  have t: "table_keys ?t = ?ks[?p := key]" "table_vals ?t = (table_vals t)[?p := val]"
    using hash_insert_eq [OF assms(1) j] by simp_all
  have len: "length ?ks = 2 ^ tb" "length (table_vals t) = 2 ^ tb"
    using assms(2) by (simp_all add: hash_inv_def)
  have only: "?ks ! q \<noteq> key" if qn: "q < 2 ^ tb" "q \<noteq> ?p" for q
  proof
    assume q: "?ks ! q = key"
    then obtain i where i: "reaches tb ?ks key i" "slot tb key i = q"
      using key_reaches [OF assms(2) qn(1) q assms(3)] by blast
    have "\<not> i < j" using j(3) i(1) unfolding reaches_def by blast
    moreover have "\<not> j < i" using j(2) i(1) unfolding reaches_def by blast
    ultimately have "i = j" by simp
    then show False using i(2) qn(2) by simp
  qed
  have inv: "hash_inv tb ?t"
    unfolding hash_inv_def t
  proof (intro conjI allI impI)
    fix q :: nat assume q: "q < 2 ^ tb" "?ks[?p := key] ! q \<noteq> 0"
    show "\<exists>j. reaches tb (?ks[?p := key]) (?ks[?p := key] ! q) j \<and> slot tb (?ks[?p := key] ! q) j = q"
    proof (cases "q = ?p")
      case True
      have "reaches tb (?ks[?p := key]) key j"
        using j slot_inj [of _ j tb key] len by (auto simp: reaches_def nth_list_update)
      then show ?thesis using True len by auto
    next
      case False
      then have "?ks ! q \<noteq> 0" using q by simp
      then obtain i where i: "reaches tb ?ks (?ks ! q) i" "slot tb (?ks ! q) i = q"
        using key_reaches [OF assms(2) q(1) refl] by blast
      have "slot tb (?ks ! q) i \<noteq> ?p" using i(2) False by simp
      then have "reaches tb (?ks[?p := key]) (?ks ! q) i"
        by (rule reaches_update [OF len(1) assms(3) only [OF q(1) False] i(1)]) (rule slot_less)
      then show ?thesis using i(2) False by auto
    qed
  qed (simp_all add: len)
  have "hash_abs tb ?t k = ((hash_abs tb t)(key \<mapsto> val)) k" for k
  proof (cases "k = key")
    case True
    then show ?thesis
      using hash_abs_at [OF inv, of ?p key] assms(3) len by (simp add: t)
  next
    case False
    note k = False
    show ?thesis
    proof (cases "k \<noteq> 0 \<and> (\<exists>q < 2 ^ tb. ?ks ! q = k)")
      case True
      then obtain q where q: "q < 2 ^ tb" "?ks ! q = k" "k \<noteq> 0" by blast
      then have "q \<noteq> ?p" using j(2) k by auto
      then show ?thesis
        using hash_abs_at [OF inv q(1), of k] hash_abs_at [OF assms(2) q] q k by (simp add: t)
    next
      case False
      have "hash_abs tb t k = None"
        using False hash_abs_none [of tb t k] by (cases "k = 0") (auto simp: hash_abs_def)
      moreover have "hash_abs tb ?t k = None"
      proof (cases "k = 0")
        case True
        then show ?thesis by (simp add: hash_abs_def)
      next
        case k0: False
        show ?thesis
          by (rule hash_abs_none) (use False k0 k len in \<open>auto simp: t nth_list_update\<close>)
      qed
      ultimately show ?thesis using k by simp
    qed
  qed
  then show ?thesis using inv by auto
qed

lemma hash_lookup_abs:
  assumes "tb < 64" "hash_inv tb t" "key \<noteq> 0"
  shows "hash_lookup tb t key = (case hash_abs tb t key of None \<Rightarrow> 0 | Some v \<Rightarrow> v)"
proof (cases "\<exists>p < 2 ^ tb. table_keys t ! p = key")
  case True
  then obtain p where p: "p < 2 ^ tb" "table_keys t ! p = key" by blast
  then obtain j where j: "reaches tb (table_keys t) key j" "slot tb key j = p"
    using key_reaches [OF assms(2) _ _ assms(3)] by blast
  then obtain h' where "find_probe (2 ^ tb) tb (table_keys t) key (in_table tb (hash_func key)) 0 = Some (h', j)"
    "unat h' = p"
    using find_probe_hit [OF assms(1) home_slot [OF assms(1)], of j "2 ^ tb" "table_keys t" key] p
    by (auto simp: reaches_def)
  then show ?thesis
    using j hash_abs_at [OF assms(2) p assms(3)] by (simp add: hash_lookup_def reaches_def)
next
  case False
  then have no: "\<forall>j. table_keys t ! slot tb key j \<noteq> key" using slot_less by blast
  have "hash_abs tb t key = None" using False by (intro hash_abs_none) blast
  then show ?thesis
    using find_probe_miss [OF assms(1) no home_slot [OF assms(1)], of "2 ^ tb"]
    by (auto simp: hash_lookup_def)
qed

lemma hash_delete_present:
  assumes "tb < 64" "hash_inv tb t" "key \<noteq> 0" "hash_abs tb t key = Some v"
  shows "\<exists>p < 2 ^ tb. table_keys t ! p = key \<and> hash_delete tb key t =
    t\<lparr>table_keys := (table_keys t)[p := 0], table_vals := (table_vals t)[p := 0]\<rparr>"
proof -
  have "\<exists>p < 2 ^ tb. table_keys t ! p = key" using assms(4) hash_abs_none [of tb t key] by fastforce
  then obtain p where p: "p < 2 ^ tb" "table_keys t ! p = key" by blast
  then obtain j where j: "reaches tb (table_keys t) key j" "slot tb key j = p"
    using key_reaches [OF assms(2) _ _ assms(3)] by blast
  then obtain h' where "find_probe (2 ^ tb) tb (table_keys t) key (in_table tb (hash_func key)) 0 = Some (h', j)"
    "unat h' = p"
    using find_probe_hit [OF assms(1) home_slot [OF assms(1)], of j "2 ^ tb" "table_keys t" key] p
    by (auto simp: reaches_def)
  then show ?thesis
    using p j by (intro exI [of _ p]) (simp add: hash_delete_def reaches_def)
qed

text \<open>The table of the benchmark.\<close>

definition TABLE_BITS :: nat where "TABLE_BITS = 24"

lemma table_bits: "TABLE_BITS < 64"
  by (simp add: TABLE_BITS_def)

lemma finite_hash_abs: "hash_inv tb t \<Longrightarrow> finite (dom (hash_abs tb t))"
proof -
  assume i: "hash_inv tb t"
  have "{k. k \<noteq> 0 \<and> (\<exists>p < 2 ^ tb. table_keys t ! p = k)} \<subseteq> (\<lambda>p. table_keys t ! p) ` {..<2 ^ tb}" by auto
  then show "finite (dom (hash_abs tb t))"
    unfolding dom_hash_abs [OF i] by (rule finite_subset) simp
qed

interpretation ht: dictionary "hash_insert TABLE_BITS" "hash_lookup TABLE_BITS" "hash_abs TABLE_BITS"
    "hash_inv TABLE_BITS" "\<lambda>k. k \<noteq> 0" "2 ^ TABLE_BITS" 0
proof unfold_locales
  fix t k v assume t: "hash_inv TABLE_BITS t" and k: "k \<noteq> (0 :: 64 word)"
  show "hash_inv TABLE_BITS (hash_insert TABLE_BITS k v t)"
    using hash_insert_inv [OF table_bits t k] by blast
  show "hash_lookup TABLE_BITS t k = (case hash_abs TABLE_BITS t k of None \<Rightarrow> 0 | Some v \<Rightarrow> v)"
    by (rule hash_lookup_abs [OF table_bits t k])
  assume "card (dom (hash_abs TABLE_BITS t)) < 2 ^ TABLE_BITS"
  then have "\<exists>p < 2 ^ TABLE_BITS. table_keys t ! p \<in> {0, k}" using free_slot [OF t] by blast
  then show "hash_abs TABLE_BITS (hash_insert TABLE_BITS k v t) = (hash_abs TABLE_BITS t)(k \<mapsto> v)"
    using hash_insert_inv [OF table_bits t k] by blast
qed (rule finite_hash_abs)

text \<open>The loop over the key array: \<open>hash_insert(s, s->keys[i], s->values[i])\<close>.\<close>

definition insert_keys :: "nat \<Rightarrow> (64 word \<times> 64 word) list \<Rightarrow> hash_table \<Rightarrow> hash_table" where
  "insert_keys tb kvs t = foldl (\<lambda>t (k, v). hash_insert tb k v t) t kvs"

lemma insert_keys_all: "insert_keys TABLE_BITS = ht.insert_all"
  by (simp add: fun_eq_iff insert_keys_def ht.insert_all_def)

text \<open>
  C7. The hash table as a map: after inserting any list of pairs with non-zero keys, at most as many
  as there are slots, into the empty table of the benchmark, the lookup of a non-zero key returns the value inserted
  last under it, and 0 when there is none.
\<close>

theorem hash_insert_lookup:
  assumes "\<forall>(k, v) \<in> set kvs. k \<noteq> 0" "length kvs \<le> 2 ^ 24" "key \<noteq> 0"
  shows "hash_lookup TABLE_BITS (insert_keys TABLE_BITS kvs (empty_table TABLE_BITS)) key =
    (case map_of (rev kvs) key of Some v \<Rightarrow> v | None \<Rightarrow> 0)"
proof -
  have "hash_lookup TABLE_BITS (empty_table TABLE_BITS) key = 0"
    using assms(3) by (simp add: hash_lookup_abs [OF table_bits hash_inv_empty] hash_abs_empty)
  moreover have "card (dom (hash_abs TABLE_BITS (empty_table TABLE_BITS))) + length kvs \<le> 2 ^ TABLE_BITS"
    using assms(2) by (simp add: hash_abs_empty TABLE_BITS_def)
  ultimately show ?thesis
    using ht.lookup_inserted [OF hash_inv_empty assms(1) _ assms(3)]
    by (simp add: insert_keys_all split: option.split)
qed

lemma hash_insert_lookup_witness:
  "hash_lookup TABLE_BITS (insert_keys TABLE_BITS [(7, 1), (9, 2), (7, 3)] (empty_table TABLE_BITS)) 7 = 3"
  by (subst hash_insert_lookup) simp_all

subsection \<open>Deletion breaks the probe sequences\<close>

lemma hash_miss_home:
  assumes "tb < 64" "table_keys t ! slot tb key 0 = 0" "key \<noteq> 0"
  shows "hash_lookup tb t key = 0" "hash_delete tb key t = t"
proof -
  have "find_probe (2 ^ tb) tb (table_keys t) key (in_table tb (hash_func key)) 0 = None"
    using assms home_slot [OF assms(1), of key] by (subst find_probe.simps) simp
  then show "hash_lookup tb t key = 0" "hash_delete tb key t = t"
    by (simp_all add: hash_lookup_def hash_delete_def)
qed

lemma hash_delete_home:
  assumes "tb < 64" "table_keys t ! slot tb key 0 = key"
  shows "hash_delete tb key t = t\<lparr>table_keys := (table_keys t)[slot tb key 0 := 0],
    table_vals := (table_vals t)[slot tb key 0 := 0]\<rparr>"
proof -
  obtain h' where "find_probe (2 ^ tb) tb (table_keys t) key (in_table tb (hash_func key)) 0 = Some (h', 0)"
    "unat h' = slot tb key 0"
    using find_probe_hit [OF assms(1) home_slot [OF assms(1)], of 0 "2 ^ tb" "table_keys t" key] assms(2)
    by auto
  then show ?thesis by (simp add: hash_delete_def)
qed

text \<open>
  \<open>hash_delete\<close> frees the slot without a mark, so it loses keys: for any two different non-zero keys with the same
  home slot (and a table of at least two slots), inserting \<open>a\<close> and \<open>b\<close> and deleting \<open>a\<close> leaves \<open>b\<close> in
  the table, where neither the lookup nor the deletion finds it any more.
\<close>

theorem hash_delete_loses:
  assumes "0 < tb" "tb < 64" "a \<noteq> 0" "b \<noteq> 0" "a \<noteq> b"
    "in_table tb (hash_func a) = in_table tb (hash_func b)"
    "t = hash_delete tb a (insert_keys tb [(a, v), (b, u)] (empty_table tb))"
  shows "hash_lookup tb (insert_keys tb [(a, v), (b, u)] (empty_table tb)) b = u \<and>
    b \<in> set (table_keys t) \<and> hash_lookup tb t b = 0 \<and> hash_delete tb b t = t"
proof -
  let ?N = "2 ^ tb :: nat"
  let ?p = "slot tb b 0" and ?q = "slot tb b 1"
  have N: "1 < ?N" using one_less_power [of "2 :: nat" tb] assms(1) by simp
  have home: "slot tb a 0 = ?p" using assms(6) home_slot [OF assms(2)] by metis
  have pq: "?p \<noteq> ?q" using slot_inj [of 0 1 tb b] N by simp
  define t1 where "t1 = hash_insert tb a v (empty_table tb)"
  define t2 where "t2 = hash_insert tb b u t1"
  have t1: "table_keys t1 = (replicate ?N 0)[?p := a]" "table_vals t1 = (replicate ?N 0)[?p := v]"
    using hash_insert_eq [OF assms(2), of 0 "empty_table tb" a v]
    by (simp_all add: t1_def empty_table_def home)
  have t2: "table_keys t2 = (table_keys t1)[?q := b]" "table_vals t2 = (table_vals t1)[?q := u]"
    using hash_insert_eq [OF assms(2), of 1 t1 b u] N pq assms(3,5) by (simp_all add: t2_def t1)
  have ins: "insert_keys tb [(a, v), (b, u)] (empty_table tb) = t2"
    by (simp add: insert_keys_def t1_def t2_def)
  have i2: "hash_inv tb t2"
    using hash_insert_inv [OF assms(2)] hash_inv_empty assms(3,4) by (simp add: t1_def t2_def)
  have "hash_lookup tb t2 b = u"
    using hash_lookup_abs [OF assms(2) i2 assms(4)] hash_abs_at [OF i2, of ?q b] assms(4)
    by (simp add: t1 t2)
  moreover have t: "table_keys t = (table_keys t2)[?p := 0]"
    using hash_delete_home [OF assms(2), of t2 a] pq assms(7) by (simp add: ins home t1 t2)
  moreover have "table_keys t ! ?q = b" using pq by (simp add: t t1 t2)
  then have "b \<in> set (table_keys t)"
    by (metis nth_mem length_list_update length_replicate slot_less t t1(1) t2(1))
  moreover have "table_keys t ! ?p = 0" by (simp add: t t1 t2)
  ultimately show ?thesis
    using hash_miss_home [OF assms(2) _ assms(4), of t] by (simp add: ins)
qed

text \<open>Two keys that collide in the table of the benchmark.\<close>

lemma colliding_keys: "in_table 24 (hash_func 3484) = in_table 24 (hash_func 10916)"
  by code_simp

lemma hash_delete_loses_witness:
  "hash_lookup 24 (insert_keys 24 [(3484, 1), (10916, 2)] (empty_table 24)) 10916 = 2 \<and>
   hash_lookup 24 (hash_delete 24 3484 (insert_keys 24 [(3484, 1), (10916, 2)] (empty_table 24))) 10916 = 0"
  using hash_delete_loses [OF _ _ _ _ _ colliding_keys refl, of 1 2] by simp

end
