(* ===== verification/IntHash.thy ===== *)
theory IntHash
  imports Harness HashTable Catalog
begin

text \<open>
  \<^verbatim>\<open>src/benchmarks/compute/int_hash.c\<close>: the operations of \<^verbatim>\<open>int-hash\<close> around the table, and that they
  keep the contract \<open>bench_tidy\<close> of the harness.
\<close>

definition OPS_PER_ITER :: nat where "OPS_PER_ITER = 10000000"

record int_hash_state_t =
  ih_keys :: "64 word list"
  ih_values :: "64 word list"
  ih_table :: hash_table

definition value_of_key :: "64 word \<Rightarrow> 64 word" where
  "value_of_key k = xor k 0xDEADBEEFCAFE1234"

definition int_hash_init :: "world \<Rightarrow> int \<times> int_hash_state_t option \<times> world" where
  "int_hash_init w =
     (let (p, w) = c_malloc w in
      if \<not> p then (-1, None, w)
      else let (k, w) = c_malloc w; (v, w) = c_malloc w; (tk, w) = c_malloc w; (tv, w) = c_malloc w
        in if \<not> k \<or> \<not> v \<or> \<not> tk \<or> \<not> tv
           then (-1, None, c_free p (c_free tv (c_free tk (c_free v (c_free k w)))))
           else let (ks, w) = rand64_list OPS_PER_ITER w
             in (0, Some \<lparr>ih_keys = ks, ih_values = map value_of_key ks,
                   ih_table = empty_table TABLE_BITS\<rparr>, w))"

text \<open>The four loops over the key array: insert, look up (into the sink), delete, look up again.\<close>

definition lookup_keys :: "nat \<Rightarrow> 64 word list \<Rightarrow> hash_table \<Rightarrow> 64 word \<Rightarrow> 64 word" where
  "lookup_keys tb ks t sink = foldl (\<lambda>sink k. xor sink (hash_lookup tb t k)) sink ks"

definition delete_keys :: "nat \<Rightarrow> 64 word list \<Rightarrow> hash_table \<Rightarrow> hash_table" where
  "delete_keys tb ks t = foldl (\<lambda>t k. hash_delete tb k t) t ks"

definition int_hash_warmup :: "int_hash_state_t \<Rightarrow> world \<Rightarrow> int \<times> int_hash_state_t \<times> world" where
  "int_hash_warmup s w =
     (let t = insert_keys TABLE_BITS (zip (ih_keys s) (ih_values s)) (ih_table s);
          sink = lookup_keys TABLE_BITS (ih_keys s) t (foldl xor 0 (ih_values s));
          t = delete_keys TABLE_BITS (ih_keys s) t
      in (0, s\<lparr>ih_table := t\<rparr>, w))"

definition int_hash_measure ::
    "int_hash_state_t \<Rightarrow> world \<Rightarrow> int \<times> int_hash_state_t \<times> measurement_t \<times> 64 word \<times> world" where
  "int_hash_measure s w =
     (let (t0, w) = clock_monotonic w;
          t = insert_keys TABLE_BITS (zip (ih_keys s) (ih_values s)) (ih_table s);
          sink = lookup_keys TABLE_BITS (ih_keys s) t 0;
          t = delete_keys TABLE_BITS (ih_keys s) t;
          sink = lookup_keys TABLE_BITS (ih_keys s) t sink;
          (t1, w) = clock_monotonic w;
          seconds = elapsed t0 t1
      in (0, s\<lparr>ih_table := t\<rparr>, plain_result (rate (4 * real OPS_PER_ITER) seconds) seconds, sink, w))"

definition int_hash_cleanup :: "int_hash_state_t \<Rightarrow> world \<Rightarrow> int \<times> world" where
  "int_hash_cleanup s w = (0, c_free True (c_free True (c_free True (c_free True (c_free True w)))))"

definition int_hash_ops :: "int_hash_state_t option bench_ops" where
  "int_hash_ops =
     \<lparr>op_init = int_hash_init,
      op_warmup = Some (\<lambda>s w. let (r, s', w') = int_hash_warmup (the s) w in (r, Some s', w')),
      op_measure = (\<lambda>s w. let (r, s', m, _, w') = int_hash_measure (the s) w in (r, Some s', m, w')),
      op_cleanup = (\<lambda>s. int_hash_cleanup (the s))\<rparr>"

text \<open>The arrays keep their sizes, so every slot of the probe loops exists.\<close>

definition hash_state_ok :: "int_hash_state_t \<Rightarrow> bool" where
  "hash_state_ok s \<longleftrightarrow> length (ih_keys s) = OPS_PER_ITER \<and> length (ih_values s) = OPS_PER_ITER \<and>
     length (table_keys (ih_table s)) = 2 ^ TABLE_BITS \<and> length (table_vals (ih_table s)) = 2 ^ TABLE_BITS"

lemma insert_lengths [simp]:
  "length (table_keys (hash_insert tb k v t)) = length (table_keys t)"
  "length (table_vals (hash_insert tb k v t)) = length (table_vals t)"
  by (simp_all add: hash_insert_def Let_def split: prod.split)

lemma delete_lengths [simp]:
  "length (table_keys (hash_delete tb k t)) = length (table_keys t)"
  "length (table_vals (hash_delete tb k t)) = length (table_vals t)"
  by (simp_all add: hash_delete_def split: option.split prod.split)

lemma loop_lengths [simp]:
  "length (table_keys (insert_keys tb kvs t)) = length (table_keys t)"
  "length (table_vals (insert_keys tb kvs t)) = length (table_vals t)"
  "length (table_keys (delete_keys tb ks t)) = length (table_keys t)"
  "length (table_vals (delete_keys tb ks t)) = length (table_vals t)"
proof -
  show "length (table_keys (insert_keys tb kvs t)) = length (table_keys t)"
    "length (table_vals (insert_keys tb kvs t)) = length (table_vals t)"
    unfolding insert_keys_def by (induction kvs arbitrary: t) auto
  show "length (table_keys (delete_keys tb ks t)) = length (table_keys t)"
    "length (table_vals (delete_keys tb ks t)) = length (table_vals t)"
    unfolding delete_keys_def by (induction ks arbitrary: t) auto
qed

lemma hash_measure_ok:
  "hash_state_ok s \<Longrightarrow> int_hash_measure s w = (r, s', m, sink, w') \<Longrightarrow>
   r = 0 \<and> hash_state_ok s' \<and> ih_keys s' = ih_keys s \<and> held w' = held w"
  by (auto simp: int_hash_measure_def Let_def case_prod_beta hash_state_ok_def)

lemma hash_warmup_ok:
  "hash_state_ok s \<Longrightarrow> int_hash_warmup s w = (r, s', w') \<Longrightarrow> r = 0 \<and> hash_state_ok s' \<and> w' = w"
  by (auto simp: int_hash_warmup_def Let_def hash_state_ok_def)

lemma hash_init_ok:
  assumes "int_hash_init w = (0, st, w')"
  shows "\<exists>s. st = Some s \<and> hash_state_ok s \<and> held w' = owning 5 (held w)"
  using assms
  by (auto simp: int_hash_init_def Let_def case_prod_beta hash_state_ok_def held_own empty_table_def
      split: if_splits)

lemma hash_init_failed:
  "int_hash_init w = (ret, st, w') \<Longrightarrow> ret \<noteq> 0 \<Longrightarrow> held w' = held w"
  by (auto simp: int_hash_init_def Let_def case_prod_beta held_own split: if_splits)

interpretation int_hash: bench_tidy int_hash_ops "\<lambda>st. \<exists>s. st = Some s \<and> hash_state_ok s" "\<lambda>_. 5"
proof unfold_locales
  fix w s w' assume "op_init int_hash_ops w = (0, s, w')"
  then show "(\<exists>t. s = Some t \<and> hash_state_ok t) \<and> held w' = owning 5 (held w)"
    using hash_init_ok [of w s w'] by (auto simp: int_hash_ops_def)
next
  fix f s w ret s' w'
  assume f: "op_warmup int_hash_ops = Some f" and "\<exists>t. s = Some t \<and> hash_state_ok t"
    and r: "f s w = (ret, s', w')"
  then obtain t where t: "s = Some t" "hash_state_ok t" by blast
  obtain r2 t2 w2 where m: "int_hash_warmup t w = (r2, t2, w2)" by (rule prod_cases3)
  show "(\<exists>t. s' = Some t \<and> hash_state_ok t) \<and> (5 :: int) = 5 \<and> held w' = held w"
    using hash_warmup_ok [OF t(2) m] f r t(1) m by (auto simp: int_hash_ops_def)
next
  fix s w ret s' m w'
  assume "\<exists>t. s = Some t \<and> hash_state_ok t" and r: "op_measure int_hash_ops s w = (ret, s', m, w')"
  then obtain t where t: "s = Some t" "hash_state_ok t" by blast
  obtain r2 t2 m2 k2 w2 where m: "int_hash_measure t w = (r2, t2, m2, k2, w2)" by (rule prod_cases5)
  show "(\<exists>t. s' = Some t \<and> hash_state_ok t) \<and> (5 :: int) = 5 \<and> held w' = held w"
    using hash_measure_ok [OF t(2) m] r t(1) m by (auto simp: int_hash_ops_def)
next
  fix s w ret w'
  assume "op_cleanup int_hash_ops s w = (ret, w')"
  then show "held w' = owning (- 5) (held w)"
    by (auto simp: int_hash_ops_def int_hash_cleanup_def held_own)
next
  fix w ret s w'
  assume "op_init int_hash_ops w = (ret, s, w')" "ret \<noteq> 0"
  then show "held w' = held w" using hash_init_failed [of w ret s w'] by (simp add: int_hash_ops_def)
qed

end
