(* ===== verification/Mpmc.thy ===== *)
theory Mpmc
  imports Prelude
begin

text \<open>
  The queue of \<^verbatim>\<open>src/benchmarks/sync/sync_mpmc.c\<close>. First the two operations run alone: they
  implement a bounded FIFO of 1023 places (the interface \<open>bounded_queue\<close>). Then any number of
  producers and consumers, whose every atomic load and store is one step of a step relation
  (interleaved in one order, as sequential consistency allows): with one producer and one
  consumer nothing is lost, duplicated or reordered; with two producers items are lost.
\<close>

definition QUEUE_SIZE :: nat where "QUEUE_SIZE = 1024"

record mpmc_queue_t =
  q_items :: "64 word list"
  q_head :: nat
  q_tail :: nat

subsection \<open>The operations run alone\<close>

definition mpmc_enqueue :: "64 word \<Rightarrow> mpmc_queue_t \<Rightarrow> int \<times> mpmc_queue_t" where
  "mpmc_enqueue item q =
     (let t = q_tail q; nxt = (t + 1) mod QUEUE_SIZE
      in if nxt = q_head q then (0, q)
         else (1, q\<lparr>q_items := (q_items q)[t := item], q_tail := nxt\<rparr>))"

definition mpmc_dequeue :: "mpmc_queue_t \<Rightarrow> 64 word \<times> mpmc_queue_t" where
  "mpmc_dequeue q =
     (let h = q_head q
      in if h = q_tail q then (0, q)
         else (q_items q ! h, q\<lparr>q_head := (h + 1) mod QUEUE_SIZE\<rparr>))"

definition queue_init :: mpmc_queue_t where
  "queue_init = \<lparr>q_items = replicate QUEUE_SIZE 0, q_head = 0, q_tail = 0\<rparr>"

definition queue_ok :: "mpmc_queue_t \<Rightarrow> bool" where
  "queue_ok q \<longleftrightarrow> length (q_items q) = 1024 \<and> q_head q < 1024 \<and> q_tail q < 1024"

definition queue_count :: "mpmc_queue_t \<Rightarrow> nat" where
  "queue_count q = (q_tail q + 1024 - q_head q) mod 1024"

text \<open>The items from head to tail.\<close>

definition queue_list :: "mpmc_queue_t \<Rightarrow> 64 word list" where
  "queue_list q = map (\<lambda>i. q_items q ! ((q_head q + i) mod 1024)) [0..<queue_count q]"

locale bounded_queue =
  fixes enq :: "'a \<Rightarrow> 'q \<Rightarrow> int \<times> 'q"
    and deq :: "'q \<Rightarrow> 'a \<times> 'q"
    and items :: "'q \<Rightarrow> 'a list"
    and inv :: "'q \<Rightarrow> bool"
    and capacity :: nat
    and nothing :: 'a
  assumes enq_room: "inv q \<Longrightarrow> length (items q) < capacity \<Longrightarrow>
      fst (enq x q) = 1 \<and> inv (snd (enq x q)) \<and> items (snd (enq x q)) = items q @ [x]"
    and enq_full: "inv q \<Longrightarrow> capacity \<le> length (items q) \<Longrightarrow> enq x q = (0, q)"
    and deq_empty: "inv q \<Longrightarrow> items q = [] \<Longrightarrow> deq q = (nothing, q)"
    and deq_item: "inv q \<Longrightarrow> items q = x # xs \<Longrightarrow>
      fst (deq q) = x \<and> inv (snd (deq q)) \<and> items (snd (deq q)) = xs"
begin

fun enq_all :: "'a list \<Rightarrow> 'q \<Rightarrow> 'q" where
  "enq_all [] q = q"
| "enq_all (x # xs) q = enq_all xs (snd (enq x q))"

fun deq_all :: "nat \<Rightarrow> 'q \<Rightarrow> 'a list \<times> 'q" where
  "deq_all 0 q = ([], q)"
| "deq_all (Suc n) q = (let (x, q) = deq q; (xs, q) = deq_all n q in (x # xs, q))"

lemma enq_all_items:
  "inv q \<Longrightarrow> length (items q) + length xs \<le> capacity \<Longrightarrow>
   inv (enq_all xs q) \<and> items (enq_all xs q) = items q @ xs"
proof (induction xs arbitrary: q)
  case (Cons x xs)
  then have "length (items q) < capacity" by simp
  note e = enq_room [OF Cons.prems(1) this, of x]
  then show ?case using Cons.IH [of "snd (enq x q)"] Cons.prems by simp
qed simp

lemma deq_all_items:
  "inv q \<Longrightarrow> n \<le> length (items q) \<Longrightarrow>
   fst (deq_all n q) = take n (items q) \<and> inv (snd (deq_all n q)) \<and> items (snd (deq_all n q)) = drop n (items q)"
proof (induction n arbitrary: q)
  case (Suc n)
  then obtain x xs where i: "items q = x # xs" by (cases "items q") auto
  note d = deq_item [OF Suc.prems(1) i]
  then show ?case using Suc.IH [of "snd (deq q)"] Suc.prems(2) i by (simp add: case_prod_beta)
qed simp

text \<open>First in, first out.\<close>

lemma fifo:
  assumes "inv q" "items q = []" "length xs \<le> capacity"
  shows "fst (deq_all (length xs) (enq_all xs q)) = xs"
  using enq_all_items [of q xs] deq_all_items [of "enq_all xs q" "length xs"] assms by simp

end

lemma wrap: "a < 2048 \<Longrightarrow> a mod 1024 = (if a < 1024 then a else a - 1024)" for a :: nat
  by (simp add: le_mod_geq)

lemma count_cases:
  "queue_ok q \<Longrightarrow> queue_count q =
    (if q_head q \<le> q_tail q then q_tail q - q_head q else q_tail q + 1024 - q_head q)"
  by (auto simp: queue_ok_def queue_count_def wrap)

lemma count_less: "queue_count q < 1024"
  by (simp add: queue_count_def)

lemma length_queue_list [simp]: "length (queue_list q) = queue_count q"
  by (simp add: queue_list_def)

lemma ok_less: "queue_ok q \<Longrightarrow> q_head q < 1024" "queue_ok q \<Longrightarrow> q_tail q < 1024"
  by (simp_all add: queue_ok_def)

lemma head_count: "queue_ok q \<Longrightarrow> (q_head q + queue_count q) mod 1024 = q_tail q"
  using ok_less [of q] count_less [of q] by (simp add: wrap count_cases)

lemma empty_iff: "queue_ok q \<Longrightarrow> q_head q = q_tail q \<longleftrightarrow> queue_count q = 0"
  using ok_less [of q] by (auto simp: count_cases)

lemma full_iff: "queue_ok q \<Longrightarrow> (q_tail q + 1) mod 1024 = q_head q \<longleftrightarrow> 1023 \<le> queue_count q"
  using ok_less [of q] by (auto simp: count_cases wrap)

lemma slot_not_tail: "queue_ok q \<Longrightarrow> i < queue_count q \<Longrightarrow> (q_head q + i) mod 1024 \<noteq> q_tail q"
  using ok_less [of q] by (auto simp: count_cases wrap split: if_splits)

text \<open>Storing at the tail and moving it: what an enqueue does in two steps.\<close>

lemma store_item_list:
  assumes "queue_ok q"
  shows "queue_list (q\<lparr>q_items := (q_items q)[q_tail q := x]\<rparr>) = queue_list q"
proof -
  have "queue_count (q\<lparr>q_items := (q_items q)[q_tail q := x]\<rparr>) = queue_count q"
    by (simp add: queue_count_def)
  moreover have "q_tail q \<noteq> (q_head q + i) mod 1024" if "i < queue_count q" for i
    using slot_not_tail [OF assms that] by simp
  ultimately show ?thesis by (auto simp: queue_list_def intro!: map_cong)
qed

lemma move_tail_list:
  assumes "queue_ok q" "(q_tail q + 1) mod 1024 \<noteq> q_head q"
  shows "queue_list (q\<lparr>q_tail := (q_tail q + 1) mod 1024\<rparr>) = queue_list q @ [q_items q ! q_tail q]"
    and "queue_ok (q\<lparr>q_tail := (q_tail q + 1) mod 1024\<rparr>)"
proof -
  let ?q = "q\<lparr>q_tail := (q_tail q + 1) mod 1024\<rparr>"
  show ok: "queue_ok ?q" using assms(1) by (simp add: queue_ok_def)
  have "queue_count ?q = queue_count q + 1"
    using ok_less [OF assms(1)] assms(2) count_cases [OF ok] count_cases [OF assms(1)]
    by (auto simp: wrap split: if_splits)
  then show "queue_list ?q = queue_list q @ [q_items q ! q_tail q]"
    using head_count [OF assms(1)] by (simp add: queue_list_def)
qed

lemma move_head_list:
  assumes "queue_ok q" "q_head q \<noteq> q_tail q"
  shows "queue_list q = q_items q ! q_head q # queue_list (q\<lparr>q_head := (q_head q + 1) mod 1024\<rparr>)"
    and "queue_ok (q\<lparr>q_head := (q_head q + 1) mod 1024\<rparr>)"
proof -
  let ?q = "q\<lparr>q_head := (q_head q + 1) mod 1024\<rparr>"
  show ok: "queue_ok ?q" using assms(1) by (simp add: queue_ok_def)
  have c: "queue_count q = Suc (queue_count ?q)"
    using ok_less [OF assms(1)] assms(2) count_cases [OF ok] count_cases [OF assms(1)]
    by (auto simp: wrap split: if_splits)
  have "(q_head q + Suc i) mod 1024 = ((q_head q + 1) mod 1024 + i) mod 1024" for i by (simp add: mod_simps)
  then show "queue_list q = q_items q ! q_head q # queue_list ?q"
    using ok_less [OF assms(1)] by (simp add: queue_list_def c upt_conv_Cons map_Suc_upt [symmetric] del: upt_Suc map_Suc_upt)
qed

lemma enqueue_steps:
  "mpmc_enqueue x q =
     (if (q_tail q + 1) mod 1024 = q_head q then (0, q)
      else (1, (q\<lparr>q_items := (q_items q)[q_tail q := x]\<rparr>)\<lparr>q_tail := (q_tail q + 1) mod 1024\<rparr>))"
  by (simp add: mpmc_enqueue_def QUEUE_SIZE_def Let_def)

lemma queue_ok_store: "queue_ok q \<Longrightarrow> queue_ok (q\<lparr>q_items := (q_items q)[p := x]\<rparr>)"
  by (simp add: queue_ok_def)

interpretation mq: bounded_queue mpmc_enqueue mpmc_dequeue queue_list queue_ok 1023 0
proof unfold_locales
  fix q x assume q: "queue_ok q" and room: "length (queue_list q) < 1023"
  let ?s = "q\<lparr>q_items := (q_items q)[q_tail q := x]\<rparr>"
  have nf: "(q_tail q + 1) mod 1024 \<noteq> q_head q" using room full_iff [OF q] by simp
  note m = move_tail_list [OF queue_ok_store [OF q, of "q_tail q" x], simplified, OF nf [simplified]]
  show "fst (mpmc_enqueue x q) = 1 \<and> queue_ok (snd (mpmc_enqueue x q)) \<and>
      queue_list (snd (mpmc_enqueue x q)) = queue_list q @ [x]"
    using m nf store_item_list [OF q, of x] q by (simp add: enqueue_steps queue_ok_def)
next
  fix q x assume "queue_ok q" "1023 \<le> length (queue_list q)"
  then show "mpmc_enqueue x q = (0, q)" by (simp add: enqueue_steps full_iff [simplified])
next
  fix q assume "queue_ok q" "queue_list q = []"
  then have "q_head q = q_tail q" using empty_iff [of q] by (metis length_queue_list list.size(3))
  then show "mpmc_dequeue q = (0, q)" by (simp add: mpmc_dequeue_def)
next
  fix q x xs assume q: "queue_ok q" and i: "queue_list q = x # xs"
  have "queue_count q \<noteq> 0" using i by (metis length_queue_list length_0_conv list.distinct(1))
  then have ne: "q_head q \<noteq> q_tail q" using empty_iff [OF q] by simp
  show "fst (mpmc_dequeue q) = x \<and> queue_ok (snd (mpmc_dequeue q)) \<and> queue_list (snd (mpmc_dequeue q)) = xs"
    using move_head_list [OF q ne] i ne by (simp add: mpmc_dequeue_def QUEUE_SIZE_def Let_def)
qed

subsection \<open>Threads\<close>

text \<open>A producer between two atomic operations of \<open>mpmc_enqueue\<close>, with the items it still has to
  enqueue (the first of them is the one in progress): before the load of the tail, after it, after the load of the head found
  room, after the store of the item. \<open>return 0\<close> goes back to the start, as the spinning loop does.\<close>

datatype producer =
    PStart "64 word list"
  | PTail "64 word list" nat
  | PRoom "64 word list" nat
  | PStored "64 word list" nat

text \<open>A consumer inside \<open>mpmc_dequeue\<close>, with \<open>local\<close>, the number of non-zero items it has counted.\<close>

datatype consumer =
    CStart nat
  | CHead nat nat
  | CNonempty nat nat
  | CItem nat nat "64 word"

record mpmc_sys =
  sys_queue :: mpmc_queue_t
  sys_producers :: "producer list"
  sys_consumers :: "consumer list"
  sys_produced :: "64 word list"
  sys_consumed :: "64 word list"

text \<open>\<open>sys_produced\<close> and \<open>sys_consumed\<close> record the order of the stores to the tail and to the head.\<close>

fun producer_step :: "mpmc_queue_t \<Rightarrow> producer \<Rightarrow> (mpmc_queue_t \<times> producer \<times> 64 word list) option" where
  "producer_step q (PStart []) = None"
| "producer_step q (PStart (x # xs)) = Some (q, PTail (x # xs) (q_tail q), [])"
| "producer_step q (PTail xs t) =
     (if (t + 1) mod QUEUE_SIZE = q_head q then Some (q, PStart xs, []) else Some (q, PRoom xs t, []))"
| "producer_step q (PRoom xs t) =
     Some (q\<lparr>q_items := (q_items q)[t := hd xs]\<rparr>, PStored xs t, [])"
| "producer_step q (PStored xs t) =
     Some (q\<lparr>q_tail := (t + 1) mod QUEUE_SIZE\<rparr>, PStart (tl xs), [hd xs])"

text \<open>\<open>if (mpmc_dequeue(q) != 0) local++\<close>\<close>

fun consumer_step :: "mpmc_queue_t \<Rightarrow> consumer \<Rightarrow> mpmc_queue_t \<times> consumer \<times> 64 word list" where
  "consumer_step q (CStart n) = (q, CHead n (q_head q), [])"
| "consumer_step q (CHead n h) =
     (if h = q_tail q then (q, CStart n, []) else (q, CNonempty n h, []))"
| "consumer_step q (CNonempty n h) = (q, CItem n h (q_items q ! h), [])"
| "consumer_step q (CItem n h v) =
     (q\<lparr>q_head := (h + 1) mod QUEUE_SIZE\<rparr>, CStart (if v \<noteq> 0 then n + 1 else n), [v])"

inductive mpmc_step :: "mpmc_sys \<Rightarrow> mpmc_sys \<Rightarrow> bool" where
  produce: "i < length (sys_producers s) \<Longrightarrow>
    producer_step (sys_queue s) (sys_producers s ! i) = Some (q, p, out) \<Longrightarrow>
    mpmc_step s (s\<lparr>sys_queue := q, sys_producers := (sys_producers s)[i := p],
      sys_produced := sys_produced s @ out\<rparr>)"
| consume: "i < length (sys_consumers s) \<Longrightarrow>
    consumer_step (sys_queue s) (sys_consumers s ! i) = (q, c, out) \<Longrightarrow>
    mpmc_step s (s\<lparr>sys_queue := q, sys_consumers := (sys_consumers s)[i := c],
      sys_consumed := sys_consumed s @ out\<rparr>)"

inductive_cases mpmc_stepE: "mpmc_step s s'"

text \<open>\<open>start todos m\<close>: one producer per list of items, \<open>m\<close> consumers, an empty queue.\<close>

definition mpmc_start :: "64 word list list \<Rightarrow> nat \<Rightarrow> mpmc_sys" where
  "mpmc_start todos m =
     \<lparr>sys_queue = queue_init, sys_producers = map PStart todos, sys_consumers = replicate m (CStart 0),
      sys_produced = [], sys_consumed = []\<rparr>"

definition mpmc_reach :: "64 word list list \<Rightarrow> nat \<Rightarrow> mpmc_sys \<Rightarrow> bool" where
  "mpmc_reach todos m s \<longleftrightarrow> mpmc_step\<^sup>*\<^sup>* (mpmc_start todos m) s"

subsection \<open>One producer, one consumer\<close>

fun todo :: "producer \<Rightarrow> 64 word list" where
  "todo (PStart xs) = xs" | "todo (PTail xs t) = xs" | "todo (PRoom xs t) = xs" | "todo (PStored xs t) = xs"

fun counted :: "consumer \<Rightarrow> nat" where
  "counted (CStart n) = n" | "counted (CHead n h) = n" | "counted (CNonempty n h) = n"
| "counted (CItem n h v) = n"

text \<open>What each thread knows between its steps, when no other thread of its kind runs.\<close>

fun producer_ok :: "mpmc_queue_t \<Rightarrow> producer \<Rightarrow> bool" where
  "producer_ok q (PStart xs) \<longleftrightarrow> True"
| "producer_ok q (PTail xs t) \<longleftrightarrow> xs \<noteq> [] \<and> t = q_tail q"
| "producer_ok q (PRoom xs t) \<longleftrightarrow> xs \<noteq> [] \<and> t = q_tail q \<and> (t + 1) mod 1024 \<noteq> q_head q"
| "producer_ok q (PStored xs t) \<longleftrightarrow> xs \<noteq> [] \<and> t = q_tail q \<and> (t + 1) mod 1024 \<noteq> q_head q \<and>
     q_items q ! t = hd xs"

fun consumer_ok :: "mpmc_queue_t \<Rightarrow> consumer \<Rightarrow> bool" where
  "consumer_ok q (CStart n) \<longleftrightarrow> True"
| "consumer_ok q (CHead n h) \<longleftrightarrow> h = q_head q"
| "consumer_ok q (CNonempty n h) \<longleftrightarrow> h = q_head q \<and> h \<noteq> q_tail q"
| "consumer_ok q (CItem n h v) \<longleftrightarrow> h = q_head q \<and> h \<noteq> q_tail q \<and> v = q_items q ! h"

definition spsc_inv :: "64 word list \<Rightarrow> mpmc_sys \<Rightarrow> bool" where
  "spsc_inv xs s \<longleftrightarrow> (\<exists>p c. sys_producers s = [p] \<and> sys_consumers s = [c] \<and> queue_ok (sys_queue s) \<and>
     producer_ok (sys_queue s) p \<and> consumer_ok (sys_queue s) c \<and>
     xs = sys_produced s @ todo p \<and> sys_produced s = sys_consumed s @ queue_list (sys_queue s) \<and>
     counted c = length (filter (\<lambda>v. v \<noteq> 0) (sys_consumed s)))"

lemma producer_step_ok:
  assumes "producer_step q p = Some (q', p', out)" "queue_ok q" "producer_ok q p" "consumer_ok q c"
  shows "queue_ok q' \<and> producer_ok q' p' \<and> consumer_ok q' c \<and> queue_list q' = queue_list q @ out \<and>
    todo p = out @ todo p'"
proof (cases p)
  case (PStart xs)
  then show ?thesis using assms by (cases xs) auto
next
  case (PTail xs t)
  then show ?thesis using assms by (auto simp: QUEUE_SIZE_def split: if_splits)
next
  case (PRoom xs t)
  have "consumer_ok (q\<lparr>q_items := (q_items q)[q_tail q := hd xs]\<rparr>) c"
    using assms(4) by (cases c) auto
  moreover have "q_tail q < length (q_items q)" using assms(2) by (simp add: queue_ok_def)
  ultimately show ?thesis
    using PRoom assms store_item_list [OF assms(2), of "hd xs"] by (auto simp: queue_ok_def)
next
  case (PStored xs t)
  then have nf: "(q_tail q + 1) mod 1024 \<noteq> q_head q" using assms(3) by auto
  have "consumer_ok (q\<lparr>q_tail := (q_tail q + 1) mod 1024\<rparr>) c"
    using assms(4) nf by (cases c) auto
  then show ?thesis
    using PStored assms move_tail_list [OF assms(2) nf] by (auto simp: QUEUE_SIZE_def)
qed

lemma consumer_step_ok:
  assumes "consumer_step q c = (q', c', out)" "queue_ok q" "producer_ok q p" "consumer_ok q c"
  shows "queue_ok q' \<and> producer_ok q' p \<and> consumer_ok q' c' \<and> queue_list q = out @ queue_list q' \<and>
    counted c' = counted c + length (filter (\<lambda>v. v \<noteq> 0) out)"
proof (cases c)
  case (CItem n h v)
  then have ne: "q_head q \<noteq> q_tail q" using assms(4) by simp
  have "(q_tail q + 1) mod 1024 \<noteq> (q_head q + 1) mod 1024"
    using ok_less [OF assms(2)] ne by (auto simp: wrap split: if_splits)
  then have "producer_ok (q\<lparr>q_head := (q_head q + 1) mod 1024\<rparr>) p"
    using assms(3) by (cases p) auto
  then show ?thesis
    using CItem assms move_head_list [OF assms(2) ne] by (auto simp: QUEUE_SIZE_def)
qed (use assms in \<open>auto split: if_splits\<close>)

lemma spsc_inv_step:
  assumes "mpmc_step s s'" "spsc_inv xs s"
  shows "spsc_inv xs s'"
proof -
  obtain p c where i: "sys_producers s = [p]" "sys_consumers s = [c]" "queue_ok (sys_queue s)"
    "producer_ok (sys_queue s) p" "consumer_ok (sys_queue s) c" "xs = sys_produced s @ todo p"
    "sys_produced s = sys_consumed s @ queue_list (sys_queue s)"
    "counted c = length (filter (\<lambda>v. v \<noteq> 0) (sys_consumed s))"
    using assms(2) by (auto simp: spsc_inv_def)
  from assms(1) show ?thesis
  proof (rule mpmc_stepE)
    fix k q p' out
    assume s': "s' = s\<lparr>sys_queue := q, sys_producers := (sys_producers s)[k := p'],
        sys_produced := sys_produced s @ out\<rparr>"
      and k: "k < length (sys_producers s)"
        "producer_step (sys_queue s) (sys_producers s ! k) = Some (q, p', out)"
    then have st: "producer_step (sys_queue s) p = Some (q, p', out)" "k = 0" using i by auto
    show ?thesis
      using producer_step_ok [OF st(1) i(3-5)] i s' st(2) by (auto simp: spsc_inv_def)
  next
    fix k q c' out
    assume s': "s' = s\<lparr>sys_queue := q, sys_consumers := (sys_consumers s)[k := c'],
        sys_consumed := sys_consumed s @ out\<rparr>"
      and k: "k < length (sys_consumers s)"
        "consumer_step (sys_queue s) (sys_consumers s ! k) = (q, c', out)"
    then have st: "consumer_step (sys_queue s) c = (q, c', out)" "k = 0" using i by auto
    show ?thesis
      using consumer_step_ok [OF st(1) i(3-5)] i s' st(2) by (auto simp: spsc_inv_def)
  qed
qed

lemma queue_list_init: "queue_list queue_init = []"
  by (simp add: queue_list_def queue_count_def queue_init_def)

lemma spsc_inv_reach:
  assumes "mpmc_reach [xs] 1 s"
  shows "spsc_inv xs s"
  using assms unfolding mpmc_reach_def
proof (induction rule: rtranclp_induct)
  case base
  show ?case
    by (simp add: spsc_inv_def mpmc_start_def queue_list_init)
       (simp add: queue_ok_def queue_init_def QUEUE_SIZE_def)
next
  case (step s s')
  then show ?case by (blast intro: spsc_inv_step)
qed

text \<open>
  C8. One producer and one consumer, under every interleaving of their atomic operations: at every moment the items
  taken out so far followed by those in the queue are exactly the items put in so far, which are a prefix of the
  producer's list. So once the producer is done and the queue is empty, the consumer has
  received the whole list in order; the number it reports counts the non-zero items only.
\<close>

theorem spsc_fifo:
  assumes "mpmc_reach [xs] 1 s"
  shows "\<exists>p c. sys_producers s = [p] \<and> sys_consumers s = [c] \<and>
    xs = sys_produced s @ todo p \<and> sys_produced s = sys_consumed s @ queue_list (sys_queue s) \<and>
    queue_count (sys_queue s) \<le> 1023 \<and>
    counted c = length (filter (\<lambda>v. v \<noteq> 0) (sys_consumed s))"
  using spsc_inv_reach [OF assms] count_less [of "sys_queue s"] by (auto simp: spsc_inv_def)

lemma produce_step:
  "i < length (sys_producers s) \<Longrightarrow>
   producer_step (sys_queue s) (sys_producers s ! i) = Some (q, p, out) \<Longrightarrow> mpmc_step\<^sup>*\<^sup>* s0 s \<Longrightarrow>
   mpmc_step\<^sup>*\<^sup>* s0 (s\<lparr>sys_queue := q, sys_producers := (sys_producers s)[i := p],
      sys_produced := sys_produced s @ out\<rparr>)"
  by (rule rtranclp.rtrancl_into_rtrancl) (auto intro: produce)

lemma consume_step:
  "i < length (sys_consumers s) \<Longrightarrow>
   consumer_step (sys_queue s) (sys_consumers s ! i) = (q, c, out) \<Longrightarrow> mpmc_step\<^sup>*\<^sup>* s0 s \<Longrightarrow>
   mpmc_step\<^sup>*\<^sup>* s0 (s\<lparr>sys_queue := q, sys_consumers := (sys_consumers s)[i := c],
      sys_consumed := sys_consumed s @ out\<rparr>)"
  by (rule rtranclp.rtrancl_into_rtrancl) (auto intro: consume)

text \<open>Runs of whole schedules: \<open>Inl i\<close> is a step of producer \<open>i\<close>, \<open>Inr i\<close> one of consumer \<open>i\<close>.\<close>

fun run_schedule :: "(nat + nat) list \<Rightarrow> mpmc_sys \<Rightarrow> mpmc_sys" where
  "run_schedule [] s = s"
| "run_schedule (Inl i # is) s =
     (case producer_step (sys_queue s) (sys_producers s ! i) of
        Some (q, p, out) \<Rightarrow> if i < length (sys_producers s)
          then run_schedule is (s\<lparr>sys_queue := q, sys_producers := (sys_producers s)[i := p],
            sys_produced := sys_produced s @ out\<rparr>) else s
      | None \<Rightarrow> s)"
| "run_schedule (Inr i # is) s =
     (case consumer_step (sys_queue s) (sys_consumers s ! i) of
        (q, c, out) \<Rightarrow> if i < length (sys_consumers s)
          then run_schedule is (s\<lparr>sys_queue := q, sys_consumers := (sys_consumers s)[i := c],
            sys_consumed := sys_consumed s @ out\<rparr>) else s)"

lemma run_schedule_reach: "mpmc_step\<^sup>*\<^sup>* s0 s \<Longrightarrow> mpmc_step\<^sup>*\<^sup>* s0 (run_schedule is s)"
proof (induction "is" s rule: run_schedule.induct)
  case (2 i "is" s)
  show ?case
    using "2" produce_step [of i s] by (fastforce split: option.split)
next
  case (3 i "is" s)
  show ?case
    using "3" consume_step [of i s] by (fastforce split: prod.split)
qed simp

lemma spsc_fifo_witness:
  "\<exists>s. mpmc_reach [[0, 5]] 1 s \<and> sys_produced s = [0, 5] \<and> sys_consumed s = [0] \<and>
     queue_list (sys_queue s) = [5]"
proof -
  let ?s = "run_schedule [Inl 0, Inl 0, Inl 0, Inl 0, Inr 0, Inr 0, Inr 0, Inr 0, Inl 0, Inl 0, Inl 0, Inl 0]
    (mpmc_start [[0, 5]] 1)"
  have r: "mpmc_reach [[0, 5]] 1 ?s" unfolding mpmc_reach_def by (rule run_schedule_reach) simp
  have e: "sys_produced ?s = [0, 5]" "sys_consumed ?s = [0]"
    by (simp_all add: mpmc_start_def queue_init_def QUEUE_SIZE_def)
  show ?thesis
    using spsc_fifo [OF r] r e by auto
qed

text \<open>
  Two producers are not safe: there is an interleaving in which both finish their enqueue, both
  count their item as produced, and the queue holds only one of the two; the other is
  lost although the queue was never full.
\<close>

theorem mpmc_loses_item:
  "\<exists>s. mpmc_reach [[5], [6]] 1 s \<and> sys_producers s = [PStart [], PStart []] \<and>
     sys_produced s = [5, 6] \<and> sys_consumed s = [] \<and> queue_list (sys_queue s) = [6]"
proof -
  let ?s = "run_schedule [Inl 0, Inl 1, Inl 0, Inl 1, Inl 0, Inl 1, Inl 0, Inl 1] (mpmc_start [[5], [6]] 1)"
  have r: "mpmc_reach [[5], [6]] 1 ?s" unfolding mpmc_reach_def by (rule run_schedule_reach) simp
  have "sys_producers ?s = [PStart [], PStart []]" "sys_produced ?s = [5, 6]" "sys_consumed ?s = []"
    "queue_list (sys_queue ?s) = [6]"
    by (simp_all add: mpmc_start_def queue_init_def QUEUE_SIZE_def queue_list_def queue_count_def)
  with r show ?thesis by blast
qed

end
