(* ===== verification/MpmcBench.thy ===== *)
theory MpmcBench
  imports Mpmc Env
begin

text \<open>
  The whole of \<^verbatim>\<open>src/benchmarks/sync/sync_mpmc.c\<close> around the queue of \<open>Mpmc\<close>: the producers count what they have put in, the
  consumers take until everything is counted and then drain the queue. Every step either is a step of the queue's
  system or leaves it alone, so that the invariants of \<open>Mpmc\<close> hold of the benchmark. On a machine with two processors (one
  producer, one consumer) the number it reports is determined.
\<close>

definition OPS_PER_PRODUCER :: nat where "OPS_PER_PRODUCER = 300000"

text \<open>\<^verbatim>\<open>init\<close>: the numbers of producers and consumers.\<close>

definition mpmc_shares :: "int \<Rightarrow> int \<times> int" where
  "mpmc_shares n =
     (let ncpu = SSB_NUM_CPUS n; ncpu = (if ncpu < 2 then 2 else ncpu);
          nproducers = ncpu div 2; nconsumers = ncpu - nproducers
      in (if nproducers < 1 then 1 else nproducers, if nconsumers < 1 then 1 else nconsumers))"

definition sync_mpmc_init :: "int \<Rightarrow> world \<Rightarrow> int \<times> (mpmc_queue_t \<times> int \<times> int) option \<times> world" where
  "sync_mpmc_init n w =
     (let (p, w) = c_malloc w in if \<not> p then (-1, None, w) else (0, Some (queue_init, mpmc_shares n), w))"

definition sync_mpmc_warmup :: "mpmc_queue_t \<Rightarrow> int \<times> mpmc_queue_t" where
  "sync_mpmc_warmup q = (0, snd (mpmc_dequeue (snd (mpmc_enqueue 42 q))))"

definition sync_mpmc_cleanup :: "world \<Rightarrow> int \<times> world" where
  "sync_mpmc_cleanup w = (0, c_free True w)"

subsection \<open>The threads\<close>

text \<open>A consumer tests the count, is in a \<open>mpmc_dequeue\<close> of its first loop, in one of its second loop, adds its
  number, or has returned.\<close>

datatype phase = Test | Take | Drain | Add | End

record mpmc_bench =
  mb_sys :: mpmc_sys
  mb_pending :: "bool list"
  mb_phase :: "phase list"
  mb_produced :: int
  mb_consumed :: int

text \<open>\<open>pending\<close>: the producer has put an item in and not yet counted it. \<open>target\<close> is \<open>nproducers * OPS_PER_PRODUCER\<close>.\<close>

definition after_take :: "consumer \<Rightarrow> phase" where
  "after_take c = (case c of CStart n \<Rightarrow> Test | _ \<Rightarrow> Take)"

text \<open>The second loop ends with the first \<open>mpmc_dequeue\<close> that returns 0.\<close>

definition after_drain :: "consumer \<Rightarrow> 64 word list \<Rightarrow> phase" where
  "after_drain c out = (case c of CStart n \<Rightarrow> if out = [] \<or> out = [0] then Add else Drain | _ \<Rightarrow> Drain)"

inductive bench_step :: "int \<Rightarrow> mpmc_bench \<Rightarrow> mpmc_bench \<Rightarrow> bool" for target where
  produce: "i < length (sys_producers (mb_sys s)) \<Longrightarrow> \<not> mb_pending s ! i \<Longrightarrow>
    producer_step (sys_queue (mb_sys s)) (sys_producers (mb_sys s) ! i) = Some (q, p, out) \<Longrightarrow>
    bench_step target s (s\<lparr>mb_sys := (mb_sys s)\<lparr>sys_queue := q, sys_producers := (sys_producers (mb_sys s))[i := p],
        sys_produced := sys_produced (mb_sys s) @ out\<rparr>, mb_pending := (mb_pending s)[i := out \<noteq> []]\<rparr>)"
| counts: "i < length (mb_pending s) \<Longrightarrow> mb_pending s ! i \<Longrightarrow>
    bench_step target s (s\<lparr>mb_pending := (mb_pending s)[i := False], mb_produced := mb_produced s + 1\<rparr>)"
| test: "i < length (mb_phase s) \<Longrightarrow> mb_phase s ! i = Test \<Longrightarrow>
    bench_step target s (s\<lparr>mb_phase := (mb_phase s)[i := if mb_produced s < target then Take else Drain]\<rparr>)"
| takes: "i < length (sys_consumers (mb_sys s)) \<Longrightarrow> mb_phase s ! i = Take \<Longrightarrow>
    consumer_step (sys_queue (mb_sys s)) (sys_consumers (mb_sys s) ! i) = (q, c, out) \<Longrightarrow>
    bench_step target s (s\<lparr>mb_sys := (mb_sys s)\<lparr>sys_queue := q, sys_consumers := (sys_consumers (mb_sys s))[i := c],
        sys_consumed := sys_consumed (mb_sys s) @ out\<rparr>, mb_phase := (mb_phase s)[i := after_take c]\<rparr>)"
| drains: "i < length (sys_consumers (mb_sys s)) \<Longrightarrow> mb_phase s ! i = Drain \<Longrightarrow>
    consumer_step (sys_queue (mb_sys s)) (sys_consumers (mb_sys s) ! i) = (q, c, out) \<Longrightarrow>
    bench_step target s (s\<lparr>mb_sys := (mb_sys s)\<lparr>sys_queue := q, sys_consumers := (sys_consumers (mb_sys s))[i := c],
        sys_consumed := sys_consumed (mb_sys s) @ out\<rparr>, mb_phase := (mb_phase s)[i := after_drain c out]\<rparr>)"
| adds: "i < length (mb_phase s) \<Longrightarrow> mb_phase s ! i = Add \<Longrightarrow> sys_consumers (mb_sys s) ! i = CStart n \<Longrightarrow>
    bench_step target s (s\<lparr>mb_phase := (mb_phase s)[i := End], mb_consumed := mb_consumed s + int n\<rparr>)"

text \<open>A measurement resets the counts but not the queue \<open>q\<close>.\<close>

definition bench_start :: "mpmc_queue_t \<Rightarrow> 64 word list list \<Rightarrow> nat \<Rightarrow> mpmc_bench" where
  "bench_start q todos m =
     \<lparr>mb_sys = (mpmc_start todos m)\<lparr>sys_queue := q\<rparr>, mb_pending = replicate (length todos) False,
      mb_phase = replicate m Test, mb_produced = 0, mb_consumed = 0\<rparr>"

definition mpmc_items :: "64 word list" where
  "mpmc_items = map word_of_nat [0..<OPS_PER_PRODUCER]"

text \<open>\<open>target\<close> of the consumers, and the states a measurement on a machine with \<open>n\<close> processors can come to.\<close>

definition mpmc_target :: "int \<Rightarrow> int" where
  "mpmc_target n = fst (mpmc_shares n) * int OPS_PER_PRODUCER"

definition mpmc_measuring :: "int \<Rightarrow> mpmc_queue_t \<Rightarrow> mpmc_bench \<Rightarrow> bool" where
  "mpmc_measuring n q s \<longleftrightarrow> (case mpmc_shares n of (np, nc) \<Rightarrow>
     (bench_step (mpmc_target n))\<^sup>*\<^sup>* (bench_start q (replicate (nat np) mpmc_items) (nat nc)) s)"

definition bench_finished :: "mpmc_bench \<Rightarrow> bool" where
  "bench_finished s \<longleftrightarrow> (\<forall>p \<in> set (sys_producers (mb_sys s)). p = PStart []) \<and> True \<notin> set (mb_pending s) \<and>
     set (mb_phase s) \<subseteq> {End}"

definition mpmc_result :: "mpmc_bench \<Rightarrow> real \<Rightarrow> measurement_t" where
  "mpmc_result s seconds = plain_result (rate (real_of_int (mb_consumed s)) seconds) seconds"

text \<open>The benchmark refines the system of the queue.\<close>

lemma bench_refines: "bench_step target s s' \<Longrightarrow> mb_sys s' = mb_sys s \<or> mpmc_step (mb_sys s) (mb_sys s')"
  by (induction rule: bench_step.induct) (auto intro: mpmc_step.produce mpmc_step.consume)

subsection \<open>One producer, one consumer\<close>

abbreviation nonzero :: "64 word list \<Rightarrow> nat" where
  "nonzero xs \<equiv> length (filter (\<lambda>v. v \<noteq> 0) xs)"

text \<open>\<open>xs\<close> is the producer's list: its first item may be 0, and it does not fit into the queue.\<close>

fun phase_inv :: "64 word list \<Rightarrow> phase \<Rightarrow> consumer \<Rightarrow> 64 word list \<Rightarrow> 64 word list \<Rightarrow> int \<Rightarrow> bool" where
  "phase_inv xs Test c ins outs r \<longleftrightarrow> (\<exists>n. c = CStart n) \<and> r = 0"
| "phase_inv xs Take c ins outs r \<longleftrightarrow> r = 0"
| "phase_inv xs Drain c ins outs r \<longleftrightarrow> ins = xs \<and> r = 0"
| "phase_inv xs Add c ins outs r \<longleftrightarrow> (\<exists>n. c = CStart n) \<and> ins = xs \<and> outs = xs \<and> r = 0"
| "phase_inv xs End c ins outs r \<longleftrightarrow> (\<exists>n. c = CStart n) \<and> ins = xs \<and> outs = xs \<and> r = int (nonzero xs)"

definition bench_inv :: "64 word list \<Rightarrow> mpmc_bench \<Rightarrow> bool" where
  "bench_inv xs s \<longleftrightarrow> spsc_inv xs (mb_sys s) \<and>
     (\<exists>b ph c. mb_pending s = [b] \<and> mb_phase s = [ph] \<and> sys_consumers (mb_sys s) = [c] \<and> phase_inv xs ph c (sys_produced (mb_sys s)) (sys_consumed (mb_sys s)) (mb_consumed s) \<and>
        mb_produced s = int (length (sys_produced (mb_sys s))) - of_bool b)"

lemma producer_out: "producer_step q p = Some (q', p', out) \<Longrightarrow> length out \<le> 1"
  by (cases "(q, p)" rule: producer_step.cases) (auto split: if_splits)

lemma consumer_out: "consumer_step q c = (q', c', out) \<Longrightarrow> out \<noteq> [] \<Longrightarrow> \<exists>v. out = [v]"
  by (cases "(q, c)" rule: consumer_step.cases) (auto split: if_splits)

lemma consumer_empty:
  assumes "consumer_step q c = (q', CStart n, [])" "queue_ok q" "consumer_ok q c"
  shows "queue_list q' = []"
  by (cases "(q, c)" rule: consumer_step.cases) (use assms empty_iff [of q] in \<open>auto simp: queue_list_def split: if_splits\<close>)


text \<open>Steps of the two threads, as the invariant sees them.\<close>

lemma spsc_parts:
  assumes "spsc_inv xs m"
  obtains p c where "sys_producers m = [p]" "sys_consumers m = [c]" "queue_ok (sys_queue m)"
    "producer_ok (sys_queue m) p" "consumer_ok (sys_queue m) c" "xs = sys_produced m @ todo p"
    "sys_produced m = sys_consumed m @ queue_list (sys_queue m)" "counted c = nonzero (sys_consumed m)"
  using assms by (auto simp: spsc_inv_def)

text \<open>Nothing is left to put in once the count has reached the target.\<close>

lemma all_produced:
  assumes "spsc_inv xs m" "length xs \<le> length (sys_produced m)"
  shows "sys_produced m = xs"
  using assms(1) by (rule spsc_parts) (use assms(2) in auto)

text \<open>An item taken out when everything has been put in is not the first one: that one has left the queue long ago.\<close>

lemma late_item_nonzero:
  assumes "xs = taken @ queue_list q @ []" "queue_list q = v # rest" "1023 < length xs" "0 \<notin> set (tl xs)"
  shows "v \<noteq> 0"
proof -
  have "length (queue_list q) < 1024" using count_less [of q] by simp
  then have "taken \<noteq> []" using assms(1,3) by auto
  then show ?thesis using assms(1,2,4) by (cases "taken") auto
qed


lemmas thread_steps = producer_step_ok consumer_step_ok

lemma bench_inv_produce:
  assumes i: "bench_inv xs s" and k: "k < length (sys_producers (mb_sys s))" "\<not> mb_pending s ! k"
    and st: "producer_step (sys_queue (mb_sys s)) (sys_producers (mb_sys s) ! k) = Some (q, p, out)"
  shows "bench_inv xs (s\<lparr>mb_sys := (mb_sys s)\<lparr>sys_queue := q, sys_producers := (sys_producers (mb_sys s))[k := p],
        sys_produced := sys_produced (mb_sys s) @ out\<rparr>, mb_pending := (mb_pending s)[k := out \<noteq> []]\<rparr>)"
    (is "bench_inv xs ?s")
proof -
  have inv: "spsc_inv xs (mb_sys s)" using i by (simp add: bench_inv_def)
  have step: "spsc_inv xs (mb_sys ?s)"
    using mpmc_step.produce [OF k(1) st] inv by (auto intro: spsc_inv_step)
  have k0: "k = 0" using inv k(1) by (auto elim!: spsc_parts)
  have pre: "\<exists>ys. xs = (sys_produced (mb_sys s) @ out) @ ys" using step by (rule spsc_parts) (auto, metis append_assoc)
  show ?thesis
  proof -
    obtain ph c where b: "mb_pending s = [False]" "mb_phase s = [ph]" "sys_consumers (mb_sys s) = [c]"
      "phase_inv xs ph c (sys_produced (mb_sys s)) (sys_consumed (mb_sys s)) (mb_consumed s)"
      "mb_produced s = int (length (sys_produced (mb_sys s)))"
      using i k(2) k0 by (auto simp: bench_inv_def)
    have "phase_inv xs ph c (sys_produced (mb_sys s) @ out) (sys_consumed (mb_sys s)) (mb_consumed s)"
      using b(4) pre by (cases ph) auto
    moreover have "int (length out) = of_bool (out \<noteq> [])" using producer_out [OF st] by (cases out) auto
    ultimately show ?thesis using step b k0 by (auto simp: bench_inv_def)
  qed
qed

lemma bench_inv_consume:
  assumes i: "bench_inv xs s" and k: "k < length (sys_consumers (mb_sys s))" "mb_phase s ! k = ph" "ph \<in> {Take, Drain}"
    and st: "consumer_step (sys_queue (mb_sys s)) (sys_consumers (mb_sys s) ! k) = (q, c, out)"
    and ph: "ph' = (if ph = Take then after_take c else after_drain c out)"
    and xs: "1023 < length xs" "0 \<notin> set (tl xs)"
  shows "bench_inv xs (s\<lparr>mb_sys := (mb_sys s)\<lparr>sys_queue := q, sys_consumers := (sys_consumers (mb_sys s))[k := c],
        sys_consumed := sys_consumed (mb_sys s) @ out\<rparr>, mb_phase := (mb_phase s)[k := ph']\<rparr>)"
    (is "bench_inv xs ?s")
proof -
  have inv: "spsc_inv xs (mb_sys s)" using i by (simp add: bench_inv_def)
  obtain p c0 where v: "sys_producers (mb_sys s) = [p]" "sys_consumers (mb_sys s) = [c0]" "queue_ok (sys_queue (mb_sys s))"
    "producer_ok (sys_queue (mb_sys s)) p" "consumer_ok (sys_queue (mb_sys s)) c0"
    "sys_produced (mb_sys s) = sys_consumed (mb_sys s) @ queue_list (sys_queue (mb_sys s))"
    using inv by (rule spsc_parts)
  have k0: "k = 0" using v k(1) by simp
  have cs: "consumer_step (sys_queue (mb_sys s)) c0 = (q, c, out)" using st v k0 by simp
  have step: "spsc_inv xs (mb_sys ?s)"
    using mpmc_step.consume [OF k(1) st] inv by (auto intro: spsc_inv_step)
  note ql = consumer_step_ok [OF cs v(3-5)]
  have add: "sys_consumed (mb_sys s) @ out = xs" "\<exists>n. c = CStart n" if "ph' = Add" "ph = Drain"
  proof -
    have pr: "sys_produced (mb_sys s) = xs" using i that k k0 by (auto simp: bench_inv_def)
    have "after_drain c out = Add" using that ph by simp
    then obtain n where n: "c = CStart n" "out = [] \<or> out = [0]"
      by (auto simp: after_drain_def split: consumer.splits if_splits)
    then show "\<exists>n. c = CStart n" by simp
    have "out \<noteq> [0]"
      using late_item_nonzero [of xs "sys_consumed (mb_sys s)" "sys_queue (mb_sys s)" 0 "queue_list q"] pr v(6) ql xs by auto
    then have "out = []" using n by simp
    moreover have "queue_list q = []" using consumer_empty [of "sys_queue (mb_sys s)" c0 q n] cs n calculation v by simp
    ultimately show "sys_consumed (mb_sys s) @ out = xs" using pr v(6) ql by simp
  qed
  have at: "ph = Take \<Longrightarrow> ph' = Test \<and> (\<exists>n. c = CStart n) \<or> ph' = Take" "ph = Drain \<Longrightarrow> ph' = Add \<or> ph' = Drain"
    using ph by (auto simp: after_take_def after_drain_def split: consumer.splits)
  show ?thesis
  proof -
    obtain b c1 where b: "mb_pending s = [b]" "mb_phase s = [ph]" "phase_inv xs ph c1 (sys_produced (mb_sys s)) (sys_consumed (mb_sys s)) (mb_consumed s)"
      "mb_produced s = int (length (sys_produced (mb_sys s))) - of_bool b"
      using i k k0 by (auto simp: bench_inv_def)
    have "phase_inv xs ph' c (sys_produced (mb_sys s)) (sys_consumed (mb_sys s) @ out) (mb_consumed s)"
      using b(3) at add k(3) by auto
    then show ?thesis using step b(1,2,4) v(2) k0 by (simp add: bench_inv_def)
  qed
qed

lemma bench_inv_step:
  assumes "bench_step (int (length xs)) s s'" "bench_inv xs s" "1023 < length xs" "0 \<notin> set (tl xs)"
  shows "bench_inv xs s'"
proof -
  obtain b ph c where v: "spsc_inv xs (mb_sys s)" "mb_pending s = [b]" "mb_phase s = [ph]" "sys_consumers (mb_sys s) = [c]"
    "phase_inv xs ph c (sys_produced (mb_sys s)) (sys_consumed (mb_sys s)) (mb_consumed s)"
    "mb_produced s = int (length (sys_produced (mb_sys s))) - of_bool b"
    using assms(2) by (auto simp: bench_inv_def)
  have cn: "counted c = nonzero (sys_consumed (mb_sys s))" using v(1,4) by (auto elim!: spsc_parts)
  from assms(1) show ?thesis
  proof cases
    case (produce i q p out)
    then show ?thesis using bench_inv_produce [OF assms(2)] by simp
  next
    case (counts i)
    then have "b" "i = 0" using v(2) by auto
    then show ?thesis using v by (simp add: counts(1) bench_inv_def exI [of _ False])
  next
    case (test i)
    have "sys_produced (mb_sys s) = xs" if "\<not> mb_produced s < int (length xs)"
      using that v(6) by (cases b; intro all_produced [OF v(1)]; simp)
    moreover have "ph = Test" "i = 0" using test v(3) by auto
    ultimately show ?thesis using v by (simp add: test(1) bench_inv_def)
  next
    case (takes i q c out)
    then show ?thesis using bench_inv_consume [OF assms(2) takes(2,3) _ takes(4) refl assms(3,4)] by simp
  next
    case (drains i q c out)
    then show ?thesis using bench_inv_consume [OF assms(2) drains(2,3) _ drains(4) refl assms(3,4)] by simp
  next
    case (adds i n)
    then have "ph = Add" "i = 0" "c = CStart n" using v(3,4) by auto
    then show ?thesis using v cn by (simp add: adds(1) bench_inv_def)
  qed
qed

lemma bench_inv_start:
  assumes "queue_ok q" "queue_list q = []" "xs \<noteq> []"
  shows "bench_inv xs (bench_start q [xs] 1)"
  using assms by (simp add: bench_inv_def spsc_inv_def bench_start_def mpmc_start_def exI [of _ False])

lemma bench_inv_reach:
  assumes "(bench_step (int (length xs)))\<^sup>*\<^sup>* s s'" "bench_inv xs s" "1023 < length xs" "0 \<notin> set (tl xs)"
  shows "bench_inv xs s'"
  using assms(1,2) by (induction rule: rtranclp_induct) (blast intro: bench_inv_step [OF _ _ assms(3,4)])+


subsection \<open>The benchmark can always end\<close>

text \<open>The work left, of each thread and of the whole: some step makes it smaller until the benchmark has finished.\<close>

fun producer_work :: "producer \<Rightarrow> nat" where
  "producer_work (PStart xs) = 60 * length xs + 4" | "producer_work (PTail xs t) = 60 * length xs + 3"
| "producer_work (PRoom xs t) = 60 * length xs + 2" | "producer_work (PStored xs t) = 60 * length xs + 1"

fun consumer_work :: "consumer \<Rightarrow> nat" where
  "consumer_work (CStart n) = 4" | "consumer_work (CHead n h) = 3" | "consumer_work (CNonempty n h) = 2"
| "consumer_work (CItem n h v) = 1"

fun phase_work :: "phase \<Rightarrow> bool \<Rightarrow> nat" where
  "phase_work Take ended = (if ended then 40 else 20)" | "phase_work Test ended = 30"
| "phase_work Drain ended = 20" | "phase_work Add ended = 10" | "phase_work End ended = 0"

definition work :: "mpmc_bench \<Rightarrow> nat" where
  "work s = producer_work (sys_producers (mb_sys s) ! 0) + of_bool (mb_pending s ! 0) +
     25 * queue_count (sys_queue (mb_sys s)) + consumer_work (sys_consumers (mb_sys s) ! 0) +
     phase_work (mb_phase s ! 0) (todo (sys_producers (mb_sys s) ! 0) = [])"

lemma producer_progress:
  assumes "queue_ok q" "producer_ok q p" "todo p \<noteq> []" "queue_count q < 1023"
  shows "\<exists>q' p' out. producer_step q p = Some (q', p', out) \<and> producer_work p' + 56 * length out < producer_work p"
proof (cases p)
  case (PStart xs)
  then show ?thesis using assms by (cases xs) auto
next
  case (PTail xs t)
  then show ?thesis using assms full_iff [of q] by (auto simp: QUEUE_SIZE_def)
next
  case (PStored xs t)
  then show ?thesis using assms by (cases xs) auto
qed auto

lemma consumer_progress:
  assumes "consumer_step q c = (q', c', out)" "queue_ok q" "consumer_ok q c" "queue_list q \<noteq> []"
  shows "out = [] \<and> (\<forall>n. c' \<noteq> CStart n) \<and> consumer_work c' < consumer_work c \<or>
    (\<exists>v n. out = [v] \<and> c' = CStart n)"
proof -
  have "q_head q \<noteq> q_tail q" using empty_iff [OF assms(2)] assms(4) by (auto simp: queue_list_def)
  then show ?thesis using assms(1,3) by (cases c) auto
qed

lemma consumer_idle:
  assumes "consumer_step q c = (q', c', out)" "queue_ok q" "consumer_ok q c" "queue_list q = []"
  shows "out = [] \<and> ((\<exists>n h. c = CStart n \<and> c' = CHead n h) \<or> (\<exists>n h. c = CHead n h \<and> c' = CStart n))"
proof -
  have "q_head q = q_tail q" using empty_iff [OF assms(2)] assms(4) by (metis length_queue_list list.size(3))
  then show ?thesis using assms(1,3) by (cases c) auto
qed


text \<open>A step of the first loop while something is to be taken or nothing more will come, and every step of the second.\<close>

lemma consumer_phase:
  assumes "consumer_step q c = (q', c', out)" "queue_ok q" "consumer_ok q c"
    "ph = Take \<and> (ended \<or> queue_list q \<noteq> []) \<or> ph = Drain"
    "ph' = (if ph = Take then after_take c' else after_drain c' out)"
  shows "consumer_work c' + phase_work ph' ended < consumer_work c + phase_work ph ended + 25 * length out"
proof (cases "queue_list q = []")
  case True
  then show ?thesis
    using consumer_idle [OF assms(1-3)] assms(4,5) by (auto simp: after_take_def after_drain_def)
next
  case False
  show ?thesis
    using consumer_progress [OF assms(1-3) False] assms(4,5)
    by (auto simp: after_take_def after_drain_def split: consumer.splits)
qed

lemma progress:
  assumes i: "bench_inv xs s" and nf: "\<not> bench_finished s"
  shows "\<exists>s'. bench_step (int (length xs)) s s' \<and> work s' < work s"
proof -
  let ?m = "mb_sys s" and ?step = "bench_step (int (length xs))"
  obtain b ph c p where v: "mb_pending s = [b]" "mb_phase s = [ph]" "sys_consumers ?m = [c]" "sys_producers ?m = [p]"
    "phase_inv xs ph c (sys_produced ?m) (sys_consumed ?m) (mb_consumed s)"
    "mb_produced s = int (length (sys_produced ?m)) - of_bool b"
    and q: "queue_ok (sys_queue ?m)" "producer_ok (sys_queue ?m) p" "consumer_ok (sys_queue ?m) c"
    "xs = sys_produced ?m @ todo p" "sys_produced ?m = sys_consumed ?m @ queue_list (sys_queue ?m)"
    using i by (auto simp: bench_inv_def elim!: spsc_parts)
  have w: "work s = producer_work p + of_bool b + 25 * queue_count (sys_queue ?m) + consumer_work c +
      phase_work ph (todo p = [])"
    using v by (simp add: work_def)
  consider (pending) b | (room) "\<not> b" "todo p \<noteq> []" "queue_count (sys_queue ?m) < 1023"
    | (consumer) "\<not> b" "todo p = [] \<or> queue_list (sys_queue ?m) \<noteq> []"
    by (cases "queue_list (sys_queue ?m) = []") (auto simp flip: length_queue_list)
  then show ?thesis
  proof cases
    case pending
    then show ?thesis using bench_step.counts [of 0 s "int (length xs)"] v w by (fastforce simp: work_def)
  next
    case room
    obtain q' p' out where st: "producer_step (sys_queue ?m) p = Some (q', p', out)"
      and less: "producer_work p' + 56 * length out < producer_work p"
      using producer_progress [OF q(1,2) room(2,3)] by blast
    have "queue_count q' = queue_count (sys_queue ?m) + length out"
      using producer_step_ok [OF st q(1-3)] by (metis length_append length_queue_list)
    moreover have "phase_work ph (todo p' = []) \<le> phase_work ph (todo p = []) + 20 * length out"
      using producer_step_ok [OF st q(1-3)] room(2) by (cases ph; cases out) auto
    moreover have "of_bool (out \<noteq> []) \<le> length out" by (cases out) auto
    ultimately show ?thesis
      using bench_step.produce [of 0 s q' p' out "int (length xs)"] st v w room less by (fastforce simp: work_def)
  next
    case consumer
    obtain q' c' out where st: "consumer_step (sys_queue ?m) c = (q', c', out)"
      by (cases "consumer_step (sys_queue ?m) c") auto
    have len: "queue_count (sys_queue ?m) = length out + queue_count q'"
      using consumer_step_ok [OF st q(1-3)] by (metis length_append length_queue_list)
    show ?thesis
    proof (cases ph)
      case Test
      have "mb_produced s < int (length xs) \<longleftrightarrow> todo p \<noteq> []" using v(6) q(4) consumer(1) by (cases "todo p") auto
      then have "?step s (s\<lparr>mb_phase := [if todo p \<noteq> [] then Take else Drain]\<rparr>)"
        using bench_step.test [of 0 s "int (length xs)"] v(2) Test by simp
      then show ?thesis using Test v w by (fastforce simp: work_def)
    next
      case Take
      then show ?thesis
        using bench_step.takes [of 0 s q' c' out "int (length xs)"] st v w len consumer
          consumer_phase [OF st q(1,3), of Take "todo p = []"] by (fastforce simp: work_def)
    next
      case Drain
      then show ?thesis
        using bench_step.drains [of 0 s q' c' out "int (length xs)"] st v w len consumer
          consumer_phase [OF st q(1,3), of Drain "todo p = []"] by (fastforce simp: work_def)
    next
      case Add
      then show ?thesis using bench_step.adds [of 0 s _ "int (length xs)"] v w by (fastforce simp: work_def)
    next
      case End
      then show ?thesis using nf v q consumer by (cases p) (auto simp: bench_finished_def)
    qed
  qed
qed

lemma mpmc_can_finish:
  assumes "bench_inv xs s" "1023 < length xs" "0 \<notin> set (tl xs)"
  shows "\<exists>s'. (bench_step (int (length xs)))\<^sup>*\<^sup>* s s' \<and> bench_finished s'"
  using assms(1)
proof (induction s rule: measure_induct_rule [where f = work])
  case (less s)
  show ?case
  proof (cases "bench_finished s")
    case False
    then obtain s' where "bench_step (int (length xs)) s s'" "work s' < work s" using progress less.prems by blast
    then show ?thesis
      using less.IH [of s'] bench_inv_step [OF _ less.prems assms(2,3)] by (meson converse_rtranclp_into_rtranclp)
  qed blast
qed

lemma finished_state:
  assumes "bench_inv xs s" "bench_finished s"
  shows "sys_consumed (mb_sys s) = xs" "mb_consumed s = int (nonzero xs)"
    "queue_ok (sys_queue (mb_sys s))" "queue_list (sys_queue (mb_sys s)) = []"
  using assms by (auto simp: bench_inv_def bench_finished_def elim!: spsc_parts)

lemma word_of_nat_nonzero: "0 < n \<Longrightarrow> n < 2 ^ 64 \<Longrightarrow> (word_of_nat n :: 64 word) \<noteq> 0"
  by (auto simp: word_of_nat_eq_0_iff dest: dvd_imp_le)

lemma numbers:
  fixes n :: nat
  assumes "n < 2 ^ 64"
  shows "0 \<notin> set (tl (map word_of_nat [0..<n] :: 64 word list))" "nonzero (map word_of_nat [0..<n]) = n - 1"
proof -
  have z: "0 \<notin> set (map word_of_nat [1..<n] :: 64 word list)"
    using assms word_of_nat_nonzero by fastforce
  then show "0 \<notin> set (tl (map word_of_nat [0..<n] :: 64 word list))" by (cases "n = 0") (simp_all add: upt_conv_Cons)
  have "filter (\<lambda>v. v \<noteq> 0) (map word_of_nat [1..<n] :: 64 word list) = map word_of_nat [1..<n]"
    using z by (auto simp: filter_id_conv)
  then show "nonzero (map word_of_nat [0..<n]) = n - 1"
    by (cases "n = 0") (simp_all add: upt_conv_Cons)
qed

lemma mpmc_items_facts:
  "length mpmc_items = 300000" "0 \<notin> set (tl mpmc_items)" "nonzero mpmc_items = 299999"
  using numbers [of OPS_PER_PRODUCER] by (simp_all add: mpmc_items_def OPS_PER_PRODUCER_def del: upt_Suc)

text \<open>The queue a measurement starts from: the new one, the one the warm-up leaves.\<close>

lemma queue_ready_init: "queue_ok queue_init" "queue_list queue_init = []"
  by (simp_all add: queue_list_init) (simp add: queue_ok_def queue_init_def QUEUE_SIZE_def)

lemma warmup_ready:
  assumes "queue_ok q" "queue_list q = []"
  shows "queue_ok (snd (sync_mpmc_warmup q))" "queue_list (snd (sync_mpmc_warmup q)) = []"
proof -
  have e: "queue_ok (snd (mpmc_enqueue 42 q))" "queue_list (snd (mpmc_enqueue 42 q)) = [42]"
    using mq.enq_room [of q 42] assms by simp_all
  show "queue_ok (snd (sync_mpmc_warmup q))" "queue_list (snd (sync_mpmc_warmup q)) = []"
    using mq.deq_item [OF e] by (simp_all add: sync_mpmc_warmup_def)
qed

lemma two_processors:
  assumes "n \<le> 2"
  shows "mpmc_target n = int (length mpmc_items)"
    and "mpmc_measuring n q s \<longleftrightarrow> (bench_step (int (length mpmc_items)))\<^sup>*\<^sup>* (bench_start q [mpmc_items] 1) s"
proof -
  have m: "mpmc_shares n = (1, 1)" using assms by (simp add: mpmc_shares_def SSB_NUM_CPUS_def)
  show t: "mpmc_target n = int (length mpmc_items)"
    by (simp add: mpmc_target_def m mpmc_items_facts OPS_PER_PRODUCER_def)
  show "mpmc_measuring n q s \<longleftrightarrow> (bench_step (int (length mpmc_items)))\<^sup>*\<^sup>* (bench_start q [mpmc_items] 1) s"
    by (simp add: mpmc_measuring_def m t)
qed



end
