(* ===== verification/IntParse.thy ===== *)
theory IntParse
  imports Harness CStr Catalog
begin

text \<open>
  \<^verbatim>\<open>src/benchmarks/compute/int_parse.c\<close>: the number list the benchmark prints, \<open>parse_int_fast\<close>, which
  reads it back, and the four operations. The arithmetic is that of \<^verbatim>\<open>int64_t\<close>: a value that does
  not fit is undefined.
\<close>

definition PARSE_ITEMS :: nat where "PARSE_ITEMS = 500000"

fun parse_digits :: "int \<Rightarrow> string \<Rightarrow> (int \<times> string) outcome" where
  "parse_digits val [] = Ret (val, [])"
| "parse_digits val (c # p) =
     (if isdigit c then
        (let v = val * 10 + int (digit_val c)
         in if v < 2 ^ 63 then parse_digits v p else Undef IntOverflow)
      else Ret (val, c # p))"

definition parse_int_fast :: "string \<Rightarrow> (int \<times> string) outcome" where
  "parse_int_fast pp =
     out_bind (parse_digits 0 pp)
       (\<lambda>(val, p). Ret (val, (case p of [] \<Rightarrow> [] | c # cs \<Rightarrow> if c = CHR '','' then cs else p)))"

text \<open>\<open>n\<close> calls in a row, as the measured loop makes them.\<close>

fun parse_items :: "nat \<Rightarrow> string \<Rightarrow> (int list \<times> string) outcome" where
  "parse_items 0 p = Ret ([], p)"
| "parse_items (Suc n) p =
     out_bind (parse_int_fast p)
       (\<lambda>(v, p). out_bind (parse_items n p) (\<lambda>(vs, p). Ret (v # vs, p)))"

text \<open>\<open>((int64_t)rand() << 32) | rand()\<close>, and the text that \<^verbatim>\<open>init\<close> prints.\<close>

definition rand_item :: "world \<Rightarrow> nat \<times> world" where
  "rand_item w = (let (a, w) = c_rand w; (b, w) = c_rand w in (a * 2 ^ 32 + b, w))"

fun rand_items :: "nat \<Rightarrow> world \<Rightarrow> nat list \<times> world" where
  "rand_items 0 w = ([], w)"
| "rand_items (Suc n) w = (let (x, w) = rand_item w; (xs, w) = rand_items n w in (x # xs, w))"

definition print_items :: "nat list \<Rightarrow> string" where
  "print_items vs = concat (map (\<lambda>v. dec v @ '','') vs)"

record int_parse_state_t =
  ip_buffer :: string
  ip_results :: "int list"

definition int_parse_init :: "(nat \<Rightarrow> int) \<Rightarrow> world \<Rightarrow> int \<times> int_parse_state_t option \<times> world" where
  "int_parse_init junk w =
     (let (p, w) = c_malloc w in
      if \<not> p then (-1, None, w)
      else let (b, w) = c_malloc w; (r, w) = c_malloc w
        in if \<not> b \<or> \<not> r then (-1, None, c_free p (c_free r (c_free b w)))
           else let (vs, w) = rand_items PARSE_ITEMS w
             in (0, Some \<lparr>ip_buffer = print_items vs, ip_results = map junk [0..<PARSE_ITEMS]\<rparr>, w))"

text \<open>The warm-up moves over the first tenth of the items and sums their characters into a volatile
  sink; going on past the end of the text would read bytes that were never written.\<close>

fun skip_item :: "int \<Rightarrow> string \<Rightarrow> int \<times> string" where
  "skip_item sink [] = (sink, [])"
| "skip_item sink (c # p) =
     (if c = CHR '','' then (sink, c # p) else skip_item (sink + of_char c) p)"

fun skip_items :: "nat \<Rightarrow> int \<Rightarrow> string \<Rightarrow> int outcome" where
  "skip_items 0 sink p = Ret sink"
| "skip_items (Suc n) sink p =
     (case skip_item sink p of
        (sink, []) \<Rightarrow> if n = 0 then Ret sink else Undef UninitRead
      | (sink, c # p) \<Rightarrow> skip_items n sink p)"

definition int_parse_warmup ::
    "int_parse_state_t \<Rightarrow> world \<Rightarrow> (int \<times> int_parse_state_t \<times> int \<times> world) outcome" where
  "int_parse_warmup s w =
     out_bind (skip_items (PARSE_ITEMS div 10) 0 (ip_buffer s)) (\<lambda>sink. Ret (0, s, sink, w))"

text \<open>The measured loop, then the check of the first ten items; \<open>sink\<close> is the xor of the results, or
  -1 when the check fails.\<close>

definition int_parse_measure ::
    "int_parse_state_t \<Rightarrow> world \<Rightarrow> (int \<times> int_parse_state_t \<times> measurement_t \<times> int \<times> world) outcome" where
  "int_parse_measure s w =
     (let (t0, w) = clock_monotonic w
      in out_bind (parse_items PARSE_ITEMS (ip_buffer s))
           (\<lambda>(vs, _). out_bind (parse_items (min 10 PARSE_ITEMS) (ip_buffer s))
              (\<lambda>(us, _).
                 let sink = (if us = take (min 10 PARSE_ITEMS) vs then foldl xor 0 vs else -1);
                     (t1, w) = clock_monotonic w;
                     seconds = elapsed t0 t1
                 in Ret (0, s\<lparr>ip_results := vs\<rparr>, plain_result (rate (real PARSE_ITEMS) seconds) seconds,
                      sink, w))))"

definition int_parse_cleanup :: "int_parse_state_t \<Rightarrow> world \<Rightarrow> int \<times> world" where
  "int_parse_cleanup s w = (0, c_free True (c_free True (c_free True w)))"

definition int_parse_ops :: "(nat \<Rightarrow> int) \<Rightarrow> int_parse_state_t option bench_ops" where
  "int_parse_ops junk =
     \<lparr>op_init = int_parse_init junk,
      op_warmup = Some (\<lambda>s w. let (r, s', _, w') = the_ret (int_parse_warmup (the s) w) in (r, Some s', w')),
      op_measure = (\<lambda>s w. let (r, s', m, _, w') = the_ret (int_parse_measure (the s) w) in (r, Some s', m, w')),
      op_cleanup = (\<lambda>s. int_parse_cleanup (the s))\<rparr>"

subsection \<open>Reading back what was printed\<close>

lemma foldl_digits_mono: "acc \<le> foldl (\<lambda>a c. 10 * a + digit_val c) acc ds"
proof (induction ds arbitrary: acc)
  case (Cons d ds)
  have "acc \<le> 10 * acc + digit_val d" by simp
  also have "\<dots> \<le> foldl (\<lambda>a c. 10 * a + digit_val c) (10 * acc + digit_val d) ds" by (rule Cons)
  finally show ?case by simp
qed simp

lemma parse_digits_run:
  assumes "\<forall>c \<in> set ds. isdigit c" "no_digit s"
    "foldl (\<lambda>a c. 10 * a + digit_val c) acc ds < 2 ^ 63"
  shows "parse_digits (int acc) (ds @ s) = Ret (int (foldl (\<lambda>a c. 10 * a + digit_val c) acc ds), s)"
  using assms
proof (induction ds arbitrary: acc)
  case Nil
  then show ?case by (cases s) (auto simp: no_digit_def)
next
  case (Cons d ds)
  have "10 * acc + digit_val d < 2 ^ 63"
    using foldl_digits_mono [of "10 * acc + digit_val d" ds] Cons.prems(3) by simp
  then have "int acc * 10 + int (digit_val d) < 2 ^ 63" by simp
  moreover have "int (10 * acc + digit_val d) = int acc * 10 + int (digit_val d)" by simp
  ultimately show ?case
    using Cons.IH [of "10 * acc + digit_val d"] Cons.prems by (simp only: parse_digits.simps append_Cons) simp
qed

lemma parse_int_dec:
  assumes "v < 2 ^ 63"
  shows "parse_int_fast (dec v @ CHR '','' # s) = Ret (int v, s)"
proof -
  have "no_digit (CHR '','' # s)" by (simp add: no_digit_def isdigit_def)
  then have "parse_digits 0 (dec v @ CHR '','' # s) = Ret (int v, CHR '','' # s)"
    using parse_digits_run [OF dec_digits, of "CHR '','' # s" 0 v] assms by (simp add: foldl_dec)
  then show ?thesis by (simp add: parse_int_fast_def)
qed

lemma parse_items_print:
  "\<forall>v \<in> set vs. v < 2 ^ 63 \<Longrightarrow> parse_items (length vs) (print_items vs @ s) = Ret (map int vs, s)"
proof (induction vs)
  case (Cons v vs)
  then show ?case
    using parse_int_dec [of v "print_items vs @ s"] by (simp add: print_items_def)
qed (simp add: print_items_def)

lemma parse_digits_overflow:
  assumes "\<forall>c \<in> set ds. isdigit c" "acc < 2 ^ 63"
    "2 ^ 63 \<le> foldl (\<lambda>a c. 10 * a + digit_val c) acc ds"
  shows "parse_digits (int acc) (ds @ s) = Undef IntOverflow"
  using assms
proof (induction ds arbitrary: acc)
  case (Cons d ds)
  have e: "int (10 * acc + digit_val d) = int acc * 10 + int (digit_val d)" by simp
  show ?case
  proof (cases "10 * acc + digit_val d < 2 ^ 63")
    case True
    then have "int acc * 10 + int (digit_val d) < 2 ^ 63" by simp
    then show ?thesis
      using Cons.IH [OF _ True] Cons.prems unfolding e by (simp only: parse_digits.simps append_Cons) simp
  next
    case False
    then have "\<not> int acc * 10 + int (digit_val d) < 2 ^ 63" by simp
    then show ?thesis using Cons.prems(1) by (simp only: parse_digits.simps append_Cons) simp
  qed
qed simp

text \<open>
  The parser reads back the list the benchmark printed, for any numbers that fit a signed 64-bit
  integer: the values in order, the whole text used up, no overflow on the way. A number of \<open>2 ^ 63\<close> or
  more makes it overflow.
\<close>

theorem int_parse_roundtrip:
  assumes "\<forall>v \<in> set vs. v < 2 ^ 63" "2 ^ 63 \<le> big"
  shows "parse_items (length vs) (print_items vs) = Ret (map int vs, []) \<and>
    parse_int_fast (dec big @ s) = Undef IntOverflow"
proof
  show "parse_items (length vs) (print_items vs) = Ret (map int vs, [])"
    using parse_items_print [OF assms(1), of "[]"] by simp
  have "parse_digits 0 (dec big @ s) = Undef IntOverflow"
    using parse_digits_overflow [OF dec_digits, of 0 big s] assms(2) by (simp add: foldl_dec)
  then show "parse_int_fast (dec big @ s) = Undef IntOverflow" by (simp add: parse_int_fast_def)
qed

lemma int_parse_roundtrip_witness:
  "parse_items 3 (print_items [0, 42, 2 ^ 63 - 1]) = Ret ([0, 42, 2 ^ 63 - 1], []) \<and>
   parse_int_fast (dec (2 ^ 64)) = Undef IntOverflow"
  using int_parse_roundtrip [of "[0, 42, 2 ^ 63 - 1]" "2 ^ 64" "[]"] by (simp add: numeral_3_eq_3)

subsection \<open>The benchmark keeps the contract\<close>

definition parse_state_ok :: "int_parse_state_t \<Rightarrow> bool" where
  "parse_state_ok s \<longleftrightarrow> (\<exists>vs. length vs = PARSE_ITEMS \<and> (\<forall>v \<in> set vs. v < 2 ^ 63) \<and> ip_buffer s = print_items vs)"

lemma rand_item_facts: "fst (rand_item w) < 2 ^ 63" "held (snd (rand_item w)) = held w"
proof -
  have r: "fst (c_rand v) < 2147483648" for v by (simp add: c_rand_def)
  show "fst (rand_item w) < 2 ^ 63"
    using r [of w] r [of "snd (c_rand w)"] by (simp add: rand_item_def case_prod_beta)
  show "held (snd (rand_item w)) = held w" by (simp add: rand_item_def case_prod_beta)
qed

lemma rand_items_facts:
  "length (fst (rand_items n w)) = n" "\<forall>v \<in> set (fst (rand_items n w)). v < 2 ^ 63"
  "held (snd (rand_items n w)) = held w"
proof -
  have "length (fst (rand_items n w)) = n \<and> (\<forall>v \<in> set (fst (rand_items n w)). v < 2 ^ 63) \<and>
      held (snd (rand_items n w)) = held w"
  proof (induction n arbitrary: w)
    case (Suc n)
    then show ?case using rand_item_facts [of w] by (simp add: case_prod_beta)
  qed simp
  then show "length (fst (rand_items n w)) = n" "\<forall>v \<in> set (fst (rand_items n w)). v < 2 ^ 63"
    "held (snd (rand_items n w)) = held w" by auto
qed

lemma parse_state_fresh: "parse_state_ok \<lparr>ip_buffer = print_items (fst (rand_items PARSE_ITEMS w)), ip_results = r\<rparr>"
  unfolding parse_state_ok_def using rand_items_facts [of PARSE_ITEMS w] by (metis int_parse_state_t.select_convs(1))

lemma parse_state_results [simp]: "parse_state_ok (s\<lparr>ip_results := r\<rparr>) = parse_state_ok s"
  by (simp add: parse_state_ok_def)

lemma parse_init_ok:
  assumes "int_parse_init junk w = (0, st, w')"
  shows "\<exists>s. st = Some s \<and> parse_state_ok s \<and> held w' = owning 3 (held w)"
  using assms
  by (auto simp: int_parse_init_def Let_def case_prod_beta rand_items_facts parse_state_fresh held_own
      split: if_splits)

lemma parse_init_failed:
  "int_parse_init junk w = (ret, st, w') \<Longrightarrow> ret \<noteq> 0 \<Longrightarrow> held w' = held w"
  by (auto simp: int_parse_init_def Let_def case_prod_beta held_own split: if_splits)

lemma parse_measure_ret:
  assumes "parse_state_ok s"
  shows "\<exists>vs m w'. int_parse_measure s w =
      Ret (0, s\<lparr>ip_results := map int vs\<rparr>, m, foldl xor 0 (map int vs), w') \<and>
    ip_buffer s = print_items vs \<and> held w' = held w"
proof -
  obtain vs where vs: "length vs = PARSE_ITEMS" "\<forall>v \<in> set vs. v < 2 ^ 63" "ip_buffer s = print_items vs"
    using assms by (auto simp: parse_state_ok_def)
  let ?k = "min 10 PARSE_ITEMS"
  have "print_items vs = print_items (take ?k vs) @ print_items (drop ?k vs)"
    by (simp add: print_items_def flip: concat_append map_append)
  moreover have "length (take ?k vs) = ?k" using vs(1) by simp
  ultimately have "parse_items ?k (print_items vs) = Ret (map int (take ?k vs), print_items (drop ?k vs))"
    using parse_items_print [of "take ?k vs" "print_items (drop ?k vs)"] vs(2)
    by (metis in_set_takeD)
  moreover have "parse_items PARSE_ITEMS (print_items vs) = Ret (map int vs, [])"
    using parse_items_print [OF vs(2), of "[]"] vs(1) by simp
  ultimately show ?thesis
    using vs by (intro exI [of _ vs]) (simp add: int_parse_measure_def Let_def case_prod_beta take_map)
qed

lemma skip_item_digits: "\<forall>c \<in> set ds. isdigit c \<Longrightarrow> \<exists>k. skip_item sink (ds @ '','' @ p) = (k, '','' @ p)"
  by (induction ds arbitrary: sink) (auto simp: isdigit_def)

lemma skip_items_print:
  "n \<le> length vs \<Longrightarrow> \<exists>k. skip_items n sink (print_items vs) = Ret k"
proof (induction vs arbitrary: n sink)
  case (Cons v vs)
  show ?case
  proof (cases n)
    case (Suc m)
    obtain k where "skip_item sink (print_items (v # vs)) = (k, '','' @ print_items vs)"
      using skip_item_digits [OF dec_digits, of sink v "print_items vs"] by (auto simp: print_items_def)
    then show ?thesis using Cons.IH [of m k] Cons.prems Suc by simp
  qed simp
qed simp

lemma parse_warmup_ret:
  assumes "parse_state_ok s"
  shows "\<exists>k. int_parse_warmup s w = Ret (0, s, k, w)"
proof -
  obtain vs where vs: "length vs = PARSE_ITEMS" "ip_buffer s = print_items vs"
    using assms by (auto simp: parse_state_ok_def)
  then have "PARSE_ITEMS div 10 \<le> length vs" by simp
  from skip_items_print [OF this, of 0] vs show ?thesis by (auto simp: int_parse_warmup_def)
qed

interpretation int_parse: bench_tidy "int_parse_ops junk" "\<lambda>st. \<exists>s. st = Some s \<and> parse_state_ok s" "\<lambda>_. 3"
proof unfold_locales
  fix w s w' assume "op_init (int_parse_ops junk) w = (0, s, w')"
  then show "(\<exists>t. s = Some t \<and> parse_state_ok t) \<and> held w' = owning 3 (held w)"
    using parse_init_ok [of junk w s w'] by (auto simp: int_parse_ops_def)
next
  fix f s w ret s' w'
  assume f: "op_warmup (int_parse_ops junk) = Some f" "\<exists>t. s = Some t \<and> parse_state_ok t" "f s w = (ret, s', w')"
  then obtain t where t: "s = Some t" "parse_state_ok t" by blast
  show "(\<exists>t. s' = Some t \<and> parse_state_ok t) \<and> (3 :: int) = 3 \<and> held w' = held w"
    using parse_warmup_ret [OF t(2), of w] f t by (auto simp: int_parse_ops_def)
next
  fix s w ret s' m w'
  assume "\<exists>t. s = Some t \<and> parse_state_ok t" and r: "op_measure (int_parse_ops junk) s w = (ret, s', m, w')"
  then obtain t where t: "s = Some t" "parse_state_ok t" by blast
  show "(\<exists>t. s' = Some t \<and> parse_state_ok t) \<and> (3 :: int) = 3 \<and> held w' = held w"
    using parse_measure_ret [OF t(2), of w] r t by (auto simp: int_parse_ops_def)
next
  fix s w ret w'
  assume "op_cleanup (int_parse_ops junk) s w = (ret, w')"
  then show "held w' = owning (- 3) (held w)"
    by (auto simp: int_parse_ops_def int_parse_cleanup_def held_own)
next
  fix w ret s w'
  assume "op_init (int_parse_ops junk) w = (ret, s, w')" "ret \<noteq> 0"
  then show "held w' = held w" using parse_init_failed [of junk w ret s w'] by (simp add: int_parse_ops_def)
qed

end
