(* ===== verification/IntSubstr.thy ===== *)
theory IntSubstr
  imports Prelude "HOL-Library.Sublist"
begin

text \<open>
  \<open>simple_match\<close> of \<^verbatim>\<open>src/benchmarks/compute/int_regex.c\<close>: the naive substring search, and that it
  decides the substring relation of the library.
\<close>

text \<open>The inner loop: how many characters of the needle match at offset \<open>i\<close>, from \<open>j\<close> on.\<close>

function match_len :: "string \<Rightarrow> nat \<Rightarrow> string \<Rightarrow> nat \<Rightarrow> nat" where
  "match_len haystack i needle j =
     (if j < length needle then
        (if haystack ! (i + j) \<noteq> needle ! j then j else match_len haystack i needle (j + 1))
      else j)"
  by pat_completeness auto
termination by (relation "measure (\<lambda>(h, i, nd, j). length nd - j)") auto

text \<open>The outer loop over the offsets \<open>i <= hs_len - ndl_len\<close>.\<close>

function match_from :: "string \<Rightarrow> int \<Rightarrow> string \<Rightarrow> nat \<Rightarrow> int" where
  "match_from haystack hs_len needle i =
     (if int i \<le> hs_len - int (length needle) then
        (if match_len haystack i needle 0 = length needle then 1
         else match_from haystack hs_len needle (i + 1))
      else 0)"
  by pat_completeness auto
termination by (relation "measure (\<lambda>(h, n, nd, i). nat (n + 1 - int i))") auto

declare match_len.simps [simp del] match_from.simps [simp del]

definition simple_match :: "string \<Rightarrow> int \<Rightarrow> string \<Rightarrow> int" where
  "simple_match haystack hs_len needle =
     (if length needle = 0 then 0 else match_from haystack hs_len needle 0)"

lemma match_len_full:
  "j \<le> length needle \<Longrightarrow>
   match_len h i needle j = length needle \<longleftrightarrow> (\<forall>k. j \<le> k \<longrightarrow> k < length needle \<longrightarrow> h ! (i + k) = needle ! k)"
proof (induction h i needle j rule: match_len.induct)
  case (1 h i needle j)
  show ?case
  proof (cases "j < length needle")
    case False
    then show ?thesis using "1.prems" by (subst match_len.simps) auto
  next
    case True
    show ?thesis
    proof (cases "h ! (i + j) = needle ! j")
      case False
      then show ?thesis using True by (subst match_len.simps) auto
    next
      case eq: True
      have "(\<forall>k. j \<le> k \<longrightarrow> k < length needle \<longrightarrow> h ! (i + k) = needle ! k) \<longleftrightarrow>
          (\<forall>k. j + 1 \<le> k \<longrightarrow> k < length needle \<longrightarrow> h ! (i + k) = needle ! k)"
        using eq by (metis Suc_eq_plus1 le_less Suc_leI Suc_leD)
      then show ?thesis
        using True eq "1.IH" by (subst match_len.simps) simp
    qed
  qed
qed

lemma match_at:
  assumes "i + length needle \<le> length h"
  shows "match_len h i needle 0 = length needle \<longleftrightarrow> take (length needle) (drop i h) = needle"
  using assms by (subst match_len_full) (auto simp: list_eq_iff_nth_eq)

lemma match_from_iff:
  "match_from h (int (length h)) needle i =
     (if \<exists>k \<ge> i. k + length needle \<le> length h \<and> take (length needle) (drop k h) = needle then 1 else 0)"
proof (induction h "int (length h)" needle i rule: match_from.induct)
  case (1 h needle i)
  show ?case
  proof (cases "i + length needle \<le> length h")
    case False
    then show ?thesis by (subst match_from.simps) auto
  next
    case True
    show ?thesis
    proof (cases "take (length needle) (drop i h) = needle")
      case t: True
      then show ?thesis using True by (subst match_from.simps) (auto simp: match_at)
    next
      case nt: False
      have "(\<exists>k \<ge> i. k + length needle \<le> length h \<and> take (length needle) (drop k h) = needle) \<longleftrightarrow>
          (\<exists>k \<ge> i + 1. k + length needle \<le> length h \<and> take (length needle) (drop k h) = needle)"
        using nt by (metis Suc_eq_plus1 le_less Suc_leI Suc_leD)
      then show ?thesis
        using True nt "1.hyps" by (subst match_from.simps) (simp add: match_at)
    qed
  qed
qed

text \<open>
  The search over a whole text returns 1 exactly when the needle is not empty and occurs in
  the text as a contiguous part, and else 0 (so an empty needle is never found).
\<close>

theorem simple_match_correct:
  "simple_match h (int (length h)) needle = (if needle \<noteq> [] \<and> sublist needle h then 1 else 0)"
proof -
  have "(\<exists>k. k + length needle \<le> length h \<and> take (length needle) (drop k h) = needle) \<longleftrightarrow> sublist needle h"
  proof
    assume "\<exists>k. k + length needle \<le> length h \<and> take (length needle) (drop k h) = needle"
    then obtain k where "take (length needle) (drop k h) = needle" by blast
    then show "sublist needle h"
      by (metis append_take_drop_id sublist_def)
  next
    assume "sublist needle h"
    then obtain a b where "h = a @ needle @ b" by (auto simp: sublist_def)
    then show "\<exists>k. k + length needle \<le> length h \<and> take (length needle) (drop k h) = needle"
      by (intro exI [of _ "length a"]) simp
  qed
  then show ?thesis by (simp add: simple_match_def match_from_iff)
qed

end
