(* ===== verification/Exchange.thy ===== *)
theory Exchange
  imports Stats
begin

text \<open>
  The exchange sort with a tag array that \<^verbatim>\<open>stats_detect_outliers\<close> and \<^verbatim>\<open>stats_mann_whitney\<close> of
  \<^verbatim>\<open>src/core/stats.c\<close> both spell out: values and tags (an index, a group number) are exchanged together, so the two
  arrays are one list of pairs.
\<close>

definition exchange :: "nat \<Rightarrow> nat \<Rightarrow> 'a list \<Rightarrow> 'a list" where
  "exchange i j l = l[i := l ! j, j := l ! i]"

definition exchange_row :: "(real \<times> 't) list \<Rightarrow> nat \<Rightarrow> (real \<times> 't) list" where
  "exchange_row l i =
     foldl (\<lambda>l j. if fst (l ! i) > fst (l ! j) then exchange i j l else l) l [i + 1..<length l]"

definition exchange_sort :: "(real \<times> 't) list \<Rightarrow> (real \<times> 't) list" where
  "exchange_sort l = foldl exchange_row l [0..<length l - 1]"

lemma foldl_upt_inv:
  assumes "a \<le> b" "P a l" "\<And>j l. a \<le> j \<Longrightarrow> j < b \<Longrightarrow> P j l \<Longrightarrow> P (Suc j) (f l j)"
  shows "P b (foldl f l [a..<b])"
  using assms
proof (induction b)
  case (Suc b)
  show ?case
  proof (cases "a = Suc b")
    case True
    with Suc.prems show ?thesis by simp
  next
    case False
    with Suc.prems have ab: "a \<le> b" by simp
    then have "P b (foldl f l [a..<b])" using Suc by simp
    with Suc.prems(3) [of b] ab show ?thesis by simp
  qed
qed simp

lemma length_exchange [simp]: "length (exchange i j l) = length l"
  by (simp add: exchange_def)

lemma mset_exchange [simp]: "i < length l \<Longrightarrow> j < length l \<Longrightarrow> mset (exchange i j l) = mset l"
  by (simp add: exchange_def mset_swap)

lemma nth_exchange:
  "i < length l \<Longrightarrow> j < length l \<Longrightarrow> k < length l \<Longrightarrow>
   exchange i j l ! k = (if k = j then l ! i else if k = i then l ! j else l ! k)"
  by (simp add: exchange_def nth_list_update)

text \<open>Before row \<open>i\<close> every earlier place holds a value no later one falls below; inside the row, up to
  column \<open>j\<close>, place \<open>i\<close> does too.\<close>

definition rows_done :: "nat \<Rightarrow> (real \<times> 't) list \<Rightarrow> bool" where
  "rows_done i l \<longleftrightarrow> (\<forall>p q. p < i \<longrightarrow> p < q \<longrightarrow> q < length l \<longrightarrow> fst (l ! p) \<le> fst (l ! q))"

definition row_done :: "nat \<Rightarrow> nat \<Rightarrow> (real \<times> 't) list \<Rightarrow> bool" where
  "row_done i j l \<longleftrightarrow> (\<forall>q. i < q \<longrightarrow> q < j \<longrightarrow> fst (l ! i) \<le> fst (l ! q))"

lemma exchange_row_ok:
  assumes "rows_done i l" "i < length l"
  shows "rows_done (Suc i) (exchange_row l i) \<and> mset (exchange_row l i) = mset l"
proof -
  let ?P = "\<lambda>j m. length m = length l \<and> mset m = mset l \<and> rows_done i m \<and> row_done i j m"
  have "?P (length l) (exchange_row l i)"
    unfolding exchange_row_def
  proof (rule foldl_upt_inv [where P = ?P])
    show "?P (i + 1) l" using assms by (simp add: row_done_def)
    fix j and m :: "(real \<times> 'a) list"
    assume j: "i + 1 \<le> j" "j < length l" and P: "?P j m"
    then have le: "i < length m" "j < length m" using assms(2) by simp_all
    show "?P (Suc j) (if fst (m ! i) > fst (m ! j) then exchange i j m else m)"
    proof (cases "fst (m ! i) > fst (m ! j)")
      case True
      have "rows_done i (exchange i j m)"
        using P j le unfolding rows_done_def by (auto simp: nth_exchange)
      moreover have "row_done i (Suc j) (exchange i j m)"
        using P j le True unfolding row_done_def
        by (auto simp: nth_exchange less_Suc_eq intro: order_trans less_imp_le)
      ultimately show ?thesis using True P le by simp
    next
      case False
      then show ?thesis using P by (auto simp: row_done_def less_Suc_eq not_less)
    qed
  qed (use assms in simp)
  then show ?thesis
    unfolding rows_done_def row_done_def by (auto simp: less_Suc_eq)
qed

lemma exchange_sort_ok: "mset (exchange_sort l) = mset l \<and> sorted (map fst (exchange_sort l))"
proof -
  let ?P = "\<lambda>i m. rows_done i m \<and> mset m = mset l"
  have P: "?P (length l - 1) (exchange_sort l)"
    unfolding exchange_sort_def
  proof (rule foldl_upt_inv [where P = ?P])
    fix i and m :: "(real \<times> 'a) list"
    assume i: "i < length l - 1" and P: "?P i m"
    then have "length m = length l" by (metis mset_eq_length)
    with i have "i < length m" by simp
    with exchange_row_ok [of i m] P show "?P (Suc i) (exchange_row m i)" by simp
  qed (simp_all add: rows_done_def)
  then have len: "length (exchange_sort l) = length l" by (metis mset_eq_length)
  have "fst (exchange_sort l ! p) \<le> fst (exchange_sort l ! q)" if "p < q" "q < length l" for p q
  proof -
    have "p < length l - 1" using that by linarith
    with P that len show ?thesis unfolding rows_done_def by simp
  qed
  then show ?thesis
    using P len by (auto simp: sorted_wrt_iff_nth_less)
qed

lemma exchange_sort_facts:
  "mset (exchange_sort l) = mset l" "sorted (map fst (exchange_sort l))"
  "length (exchange_sort l) = length l" "set (exchange_sort l) = set l"
  "map fst (exchange_sort l) = stats_sort (map fst l)"
proof -
  show m: "mset (exchange_sort l) = mset l" and s: "sorted (map fst (exchange_sort l))"
    using exchange_sort_ok [of l] by blast+
  show "length (exchange_sort l) = length l" "set (exchange_sort l) = set l"
    using m by (metis mset_eq_length, metis mset_eq_setD)
  have "mset (map fst (exchange_sort l)) = mset (map fst l)" using m by simp
  with s show "map fst (exchange_sort l) = stats_sort (map fst l)"
    unfolding stats_sort_def by (metis properties_for_sort)
qed

end
