(* ===== verification/RankTests.thy ===== *)
theory RankTests
  imports Exchange
begin

text \<open>
  The rank procedures of \<^verbatim>\<open>src/core/stats.c\<close>: the Benjamini-Hochberg filter and the Mann-Whitney test with the
  Hodges-Lehmann estimate. \<open>erf_fn\<close> is \<^verbatim>\<open>erf\<close> of the C library. The work arrays are taken to be
  allocated (the code does not check), and \<open>na * nb\<close> to fit an \<^verbatim>\<open>int\<close>.
\<close>

subsection \<open>Counting in sorted lists\<close>

lemma sorted_prefix:
  assumes "sorted xs" "i < length xs" "\<And>x y. x \<le> y \<Longrightarrow> P y \<Longrightarrow> P (x :: real)"
  shows "P (xs ! i) \<longleftrightarrow> i < length (filter P xs)"
  using assms(1,2)
proof (induction xs arbitrary: i)
  case (Cons x xs)
  have none: "filter P xs = []" if "\<not> P x"
    using that Cons.prems(1) assms(3) by (auto simp: filter_empty_conv)
  show ?case
  proof (cases i)
    case 0
    then show ?thesis using none by auto
  next
    case (Suc j)
    then have "P (xs ! j) \<longleftrightarrow> j < length (filter P xs)" using Cons by simp
    then show ?thesis using Suc none by auto
  qed
qed simp

lemmas sorted_less_prefix = sorted_prefix [where P = "\<lambda>x. x < t" for t, OF _ _ le_less_trans]
lemmas sorted_le_prefix = sorted_prefix [where P = "\<lambda>x. x \<le> t" for t, OF _ _ order_trans]

subsection \<open>Benjamini-Hochberg\<close>

definition bh_threshold :: "real list \<Rightarrow> real \<Rightarrow> real" where
  "bh_threshold ps fdr =
     foldl (\<lambda>threshold i. if ps ! i \<le> fdr * (real i + 1) / real (length ps) then ps ! i else threshold)
       0 [0..<length ps]"

definition stats_benjamini_hochberg :: "real list \<Rightarrow> real \<Rightarrow> real list" where
  "stats_benjamini_hochberg p_values fdr =
     (let threshold = bh_threshold (stats_sort p_values) fdr
      in map (\<lambda>p. if p \<le> threshold then p else -1) p_values)"

lemma bh_threshold_last:
  assumes "\<exists>i < length ps. ps ! i \<le> fdr * (real i + 1) / real (length ps)"
  obtains k where "k < length ps" "ps ! k \<le> fdr * (real k + 1) / real (length ps)"
    "bh_threshold ps fdr = ps ! k"
    "\<And>i. k < i \<Longrightarrow> i < length ps \<Longrightarrow> \<not> ps ! i \<le> fdr * (real i + 1) / real (length ps)"
proof -
  let ?ok = "\<lambda>i. ps ! i \<le> fdr * (real i + 1) / real (length ps)"
  let ?P = "\<lambda>m t. (\<exists>i < m. ?ok i) \<longrightarrow> (\<exists>k < m. ?ok k \<and> t = ps ! k \<and> (\<forall>i. k < i \<longrightarrow> i < m \<longrightarrow> \<not> ?ok i))"
  have "?P (length ps) (bh_threshold ps fdr)"
    unfolding bh_threshold_def
  proof (rule foldl_upt_inv [where P = ?P])
    fix j t assume P: "?P j t"
    show "?P (Suc j) (if ?ok j then ps ! j else t)"
    proof (cases "?ok j")
      case False
      show ?thesis
      proof
        assume "\<exists>i < Suc j. ?ok i"
        then have "\<exists>i < j. ?ok i" using False less_Suc_eq by blast
        then obtain k where "k < j" "?ok k" "t = ps ! k" "\<forall>i. k < i \<longrightarrow> i < j \<longrightarrow> \<not> ?ok i" using P by blast
        then show "\<exists>k < Suc j. ?ok k \<and> (if ?ok j then ps ! j else t) = ps ! k \<and> (\<forall>i. k < i \<longrightarrow> i < Suc j \<longrightarrow> \<not> ?ok i)"
          using False by (intro exI [of _ k]) (auto simp: less_Suc_eq)
      qed
    qed (auto simp: less_Suc_eq)
  qed auto
  with assms that show thesis by blast
qed

lemma bh_threshold_none:
  assumes "\<And>i. i < length ps \<Longrightarrow> \<not> ps ! i \<le> fdr * (real i + 1) / real (length ps)"
  shows "bh_threshold ps fdr = 0"
proof -
  have "foldl (\<lambda>t i. if ps ! i \<le> fdr * (real i + 1) / real (length ps) then ps ! i else t) 0 [0..<length ps] = (0 :: real)"
    by (rule foldl_upt_inv [where P = "\<lambda>_ t. t = 0"]) (use assms in auto)
  then show ?thesis by (simp add: bh_threshold_def)
qed

lemma bh_kept_iff:
  assumes "\<forall>p \<in> set ps. 0 \<le> p" "0 \<le> fdr" "p \<in> set ps"
  shows "p \<le> bh_threshold (stats_sort ps) fdr \<longleftrightarrow>
    p \<le> fdr * real (length (filter (\<lambda>q. q \<le> bh_threshold (stats_sort ps) fdr) ps)) / real (length ps)"
proof -
  define xs where "xs = stats_sort ps"
  define n where "n = length ps"
  define thr where "thr = bh_threshold xs fdr"
  define kept where "kept = length (filter (\<lambda>q. q \<le> thr) xs)"
  have xs: "sorted xs" "length xs = n" "set xs = set ps" "mset xs = mset ps"
    by (simp_all add: xs_def n_def)
  have n: "0 < real n" using assms(3) by (cases ps) (auto simp: n_def)
  have mono: "fdr * real a / real n \<le> fdr * real b / real n" if "a \<le> b" for a b
    using that assms(2) n by (simp add: divide_right_mono mult_left_mono)
  have "length (filter (\<lambda>q. q \<le> thr) ps) = kept"
    unfolding kept_def using xs(4) by (metis mset_filter size_mset)
  moreover obtain j where j: "j < n" "p = xs ! j" using assms(3) xs by (metis in_set_conv_nth)
  have "p \<le> thr \<longleftrightarrow> p \<le> fdr * real kept / real n"
  proof (cases "\<exists>i < length xs. xs ! i \<le> fdr * (real i + 1) / real (length xs)")
    case True
    obtain k where k: "k < n" "xs ! k \<le> fdr * (real k + 1) / real n" "thr = xs ! k"
      "\<And>i. k < i \<Longrightarrow> i < n \<Longrightarrow> \<not> xs ! i \<le> fdr * (real i + 1) / real n"
      by (rule bh_threshold_last [OF True]) (simp add: thr_def xs(2))
    have pre: "xs ! i \<le> thr \<longleftrightarrow> i < kept" if "i < n" for i
      using sorted_le_prefix [of xs i thr] that xs by (simp add: kept_def)
    have k1: "k < kept" using pre [OF k(1)] k(3) by simp
    have kn: "kept \<le> n" unfolding kept_def using xs(2) by (metis length_filter_le)
    have "kept - 1 \<le> k"
    proof (rule ccontr)
      assume "\<not> kept - 1 \<le> k"
      then have c: "k < kept - 1" "kept - 1 < n" using kn by simp_all
      have "xs ! (kept - 1) \<le> thr" using pre [OF c(2)] c by simp
      also have "\<dots> \<le> fdr * (real k + 1) / real n" using k(2,3) by simp
      also have "\<dots> \<le> fdr * (real (kept - 1) + 1) / real n"
        using mono [of "k + 1" kept] k1 by (simp add: add.commute Suc_le_eq of_nat_diff)
      finally show False using k(4) [OF c] by blast
    qed
    then have kept: "kept = k + 1" using k1 by simp
    show ?thesis
    proof
      assume "p \<le> thr"
      then show "p \<le> fdr * real kept / real n" using k(2,3) by (simp add: kept add.commute)
    next
      assume p: "p \<le> fdr * real kept / real n"
      show "p \<le> thr"
      proof (rule ccontr)
        assume "\<not> p \<le> thr"
        then have "k + 1 \<le> j" using pre [OF j(1)] j(2) kept by simp
        then have "\<not> xs ! j \<le> fdr * (real j + 1) / real n" using k(4) j(1) by simp
        then show False using p mono [of kept "j + 1"] kept j(2) \<open>k + 1 \<le> j\<close> by (simp add: add.commute)
      qed
    qed
  next
    case False
    then have thr0: "thr = 0" unfolding thr_def by (intro bh_threshold_none) blast
    have pos: "0 < q" if q: "q \<in> set xs" for q
    proof (rule ccontr)
      assume "\<not> 0 < q"
      then have "q = 0" using q xs(3) assms(1) by (auto intro: antisym)
      then obtain i where i: "i < n" "xs ! i = 0" using q xs(2) by (metis in_set_conv_nth)
      have "xs ! i \<le> fdr * (real i + 1) / real n" using i(2) assms(2) by simp
      with False i(1) xs(2) show False by blast
    qed
    have "kept = 0" using pos by (auto simp: kept_def thr0 filter_empty_conv not_le)
    then show ?thesis using pos [of p] assms(3) xs(3) thr0 by simp
  qed
  ultimately show ?thesis by (simp add: thr_def xs_def n_def)
qed

lemma kept_count:
  "\<forall>p \<in> set ps. 0 \<le> p \<Longrightarrow>
   length (filter (\<lambda>q. q \<noteq> -1) (map (\<lambda>p. if p \<le> t then p else -1) ps)) =
   length (filter (\<lambda>q. q \<le> (t :: real)) ps)"
  by (induction ps) auto



subsection \<open>Mann-Whitney\<close>

text \<open>The ranking loop over the sorted pairs of value and group: \<open>r1\<close> adds the ranks of group 0, and
  \<open>rank\<close> moves on when the next value is larger (equal values share the rank of the first).\<close>

definition rank_step :: "(real \<times> nat) list \<Rightarrow> real \<times> nat \<Rightarrow> nat \<Rightarrow> real \<times> nat" where
  "rank_step l = (\<lambda>(r1, rank) i.
     (if snd (l ! i) = 0 then r1 + real rank else r1,
      if int i < int (length l) - 1 \<and> fst (l ! i) < fst (l ! (i + 1)) then i + 2 else rank))"

definition rank_sum :: "(real \<times> nat) list \<Rightarrow> real" where
  "rank_sum l = fst (foldl (rank_step l) (0, 1) [0..<length l])"

definition combined_groups :: "real list \<Rightarrow> real list \<Rightarrow> (real \<times> nat) list" where
  "combined_groups a b = map (\<lambda>x. (x, 0)) a @ map (\<lambda>x. (x, 1)) b"

definition u_statistic :: "real list \<Rightarrow> real list \<Rightarrow> real" where
  "u_statistic a b =
     (let na = real (length a); nb = real (length b);
          r1 = rank_sum (exchange_sort (combined_groups a b));
          u1 = r1 - na * (na + 1) / 2;
          u2 = na * nb - u1
      in if u1 < u2 then u1 else u2)"

definition u_p_value :: "(real \<Rightarrow> real) \<Rightarrow> real \<Rightarrow> real \<Rightarrow> real \<Rightarrow> real" where
  "u_p_value erf_fn na nb u =
     (let mu = na * nb / 2;
          su = sqrt (na * nb * (na + nb + 1) / 12);
          z = (if su > 0 then (u - mu) / su else 0);
          p = 2 * (1 - 1 / 2 * (1 + erf_fn (\<bar>z\<bar> / sqrt 2)))
      in if p > 1 then 1 else p)"

definition pairwise_diffs :: "real list \<Rightarrow> real list \<Rightarrow> real list" where
  "pairwise_diffs a b = concat (map (\<lambda>x. map (\<lambda>y. x - y) b) a)"

text \<open>The median; for an empty list the code reads \<open>diffs[-1]\<close>.\<close>

definition median_diff :: "real list \<Rightarrow> real outcome" where
  "median_diff ds =
     (let diffs = stats_sort ds; dcount = length ds
      in if dcount mod 2 = 0
         then (if dcount = 0 then Undef OobRead else Ret ((diffs ! (dcount div 2 - 1) + diffs ! (dcount div 2)) / 2))
         else Ret (diffs ! (dcount div 2)))"

text \<open>\<open>want\<close>: the pointer \<open>hodges_lehmann\<close> is not null. The result is the status, the p-value and the
  estimate.\<close>

definition stats_mann_whitney ::
    "(real \<Rightarrow> real) \<Rightarrow> bool \<Rightarrow> real list \<Rightarrow> real list \<Rightarrow> (int \<times> real \<times> real option) outcome" where
  "stats_mann_whitney erf_fn want a b =
     (let p = u_p_value erf_fn (real (length a)) (real (length b)) (u_statistic a b)
      in if want then out_bind (median_diff (pairwise_diffs a b)) (\<lambda>hl. Ret (0, p, Some hl))
         else Ret (0, p, None))"

abbreviation below :: "real \<Rightarrow> real list \<Rightarrow> nat" where
  "below t xs \<equiv> length (filter (\<lambda>x. x < t) xs)"

lemma below_next:
  assumes "sorted xs" "Suc i < length xs"
  shows "below (xs ! Suc i) xs = (if xs ! i < xs ! Suc i then Suc i else below (xs ! i) xs)"
proof (cases "xs ! i < xs ! Suc i")
  case True
  have "i < below (xs ! Suc i) xs" "\<not> Suc i < below (xs ! Suc i) xs"
    using sorted_less_prefix [OF assms(1), of i "xs ! Suc i"] sorted_less_prefix [OF assms, of "xs ! Suc i"]
      True assms(2) by simp_all
  then show ?thesis using True by simp
next
  case False
  then have "xs ! Suc i = xs ! i" using assms by (metis sorted_nth_mono le_SucI order_refl order_antisym not_less)
  then show ?thesis by simp
qed

lemma below_first: "sorted xs \<Longrightarrow> below (xs ! 0) xs = 0"
  using sorted_less_prefix [of xs 0 "xs ! 0"] by (cases "xs = []") auto

lemma rank_sum_sorted:
  assumes "sorted (map fst l)"
  shows "rank_sum l = (\<Sum>p \<leftarrow> filter (\<lambda>p. snd p = 0) l. 1 + real (below (fst p) (map fst l)))"
proof -
  let ?vs = "map fst l"
  let ?f = "\<lambda>p. 1 + real (below (fst p) ?vs)"
  let ?P = "\<lambda>i s. fst s = (\<Sum>p \<leftarrow> filter (\<lambda>p. snd p = 0) (take i l). ?f p) \<and>
    (i < length l \<longrightarrow> snd s = 1 + below (?vs ! i) ?vs)"
  have "?P (length l) (foldl (rank_step l) (0, 1) [0..<length l])"
  proof (rule foldl_upt_inv [where P = ?P])
    show "?P 0 (0, 1)"
    proof (cases "l = []")
      case False
      then show ?thesis using below_first [OF assms] by simp
    qed simp
    fix j s assume j: "0 \<le> j" "j < length l" and P: "?P j s"
    have tk: "take (Suc j) l = take j l @ [l ! j]" using j by (simp add: take_Suc_conv_app_nth)
    have r: "snd s = 1 + below (fst (l ! j)) ?vs" using P j by simp
    have "Suc j < length l \<longrightarrow> snd (rank_step l s j) = 1 + below (?vs ! Suc j) ?vs"
      using below_next [OF assms, of j] r by (auto simp: rank_step_def case_prod_beta)
    moreover have "fst (rank_step l s j) = (\<Sum>p \<leftarrow> filter (\<lambda>p. snd p = 0) (take (Suc j) l). ?f p)"
      using P r by (simp add: rank_step_def case_prod_beta tk)
    ultimately show "?P (Suc j) (rank_step l s j)" by blast
  qed simp
  then show ?thesis by (simp add: rank_sum_def)
qed

text \<open>The rank sum of the whole procedure, in terms of the two samples.\<close>

lemma rank_sum_groups:
  "rank_sum (exchange_sort (combined_groups a b)) = (\<Sum>x \<leftarrow> a. 1 + real (below x (a @ b)))"
proof -
  let ?c = "combined_groups a b"
  let ?l = "exchange_sort ?c"
  have "mset (map fst ?l) = mset (a @ b)"
    by (simp add: exchange_sort_facts combined_groups_def comp_def)
  then have below: "below t (map fst ?l) = below t (a @ b)" for t
    by (metis mset_filter size_mset)
  have "filter (\<lambda>p. snd p = 0) ?c = map (\<lambda>x. (x, 0)) a"
    by (simp add: combined_groups_def filter_map comp_def)
  then have "mset (filter (\<lambda>p. snd p = 0) ?l) = mset (map (\<lambda>x. (x, 0)) a)"
    by (metis exchange_sort_facts(1) mset_filter)
  then have "mset (map (\<lambda>p. 1 + real (below (fst p) (a @ b))) (filter (\<lambda>p. snd p = 0) ?l)) =
      mset (map (\<lambda>x. 1 + real (below x (a @ b))) a)"
    by (simp add: image_mset.compositionality comp_def)
  then show ?thesis
    unfolding rank_sum_sorted [OF exchange_sort_facts(2)] below by (metis sum_mset_sum_list)
qed

text \<open>The number of pairs in which the value of the first sample is the larger one.\<close>

definition wins :: "real list \<Rightarrow> real list \<Rightarrow> nat" where
  "wins a b = (\<Sum>x \<leftarrow> a. below x b)"

lemma wins_self:
  assumes "distinct a"
  shows "2 * wins a a = length a * (length a - 1)"
  using assms
proof (induction a)
  case (Cons x a)
  have part: "length (filter (\<lambda>y. y < x) a) + length (filter (\<lambda>y. x < y) a) = length a"
    using Cons.prems by (induction a) auto
  have "wins (x # a) (x # a) = below x a + (\<Sum>y \<leftarrow> a. (if x < y then 1 else 0) + below y a)"
    by (simp add: wins_def if_distrib cong: if_cong) (auto intro!: arg_cong [where f = sum_list])
  also have "(\<Sum>y \<leftarrow> a. (if x < y then 1 else 0) + below y a) = length (filter (\<lambda>y. x < y) a) + wins a a"
    by (simp add: wins_def sum_list_addf sum_list_map_filter' sum_list_triv flip: sum_list_map_filter')
  finally have "wins (x # a) (x # a) = length a + wins a a" using part by simp
  then show ?case using Cons by (cases a) (simp_all add: algebra_simps)
qed (simp add: wins_def)

lemma rank_sum_wins:
  "rank_sum (exchange_sort (combined_groups a b)) = real (length a) + real (wins a a) + real (wins a b)"
proof -
  have "(\<Sum>x \<leftarrow> xs. 1 + real (below x (a @ b))) =
      real (length xs) + real (\<Sum>x \<leftarrow> xs. below x a) + real (\<Sum>x \<leftarrow> xs. below x b)" for xs
    by (induction xs) auto
  then show ?thesis by (simp add: rank_sum_groups wins_def)
qed

lemma u_statistic_wins:
  assumes "distinct a"
  shows "u_statistic a b = min (real (wins a b)) (real (length a) * real (length b) - real (wins a b))"
proof -
  have "2 * real (wins a a) = real (length a) * (real (length a) - 1)"
    using arg_cong [where f = real, OF wins_self [OF assms]] by (cases a) (simp_all add: algebra_simps)
  then have "rank_sum (exchange_sort (combined_groups a b)) - real (length a) * (real (length a) + 1) / 2 =
      real (wins a b)"
    by (simp add: rank_sum_wins field_simps)
  then show ?thesis by (simp add: u_statistic_def Let_def min_def)
qed

lemma length_pairwise [simp]: "length (pairwise_diffs a b) = length a * length b"
  by (simp add: pairwise_diffs_def length_concat comp_def sum_list_triv)

lemma median_diff_splits:
  assumes "ds \<noteq> []"
  obtains hl where "median_diff ds = Ret hl"
    "2 * length (filter (\<lambda>d. d < hl) ds) \<le> length ds" "2 * length (filter (\<lambda>d. hl < d) ds) \<le> length ds"
proof -
  define xs where "xs = stats_sort ds"
  define m where "m = length ds div 2"
  have xs: "sorted xs" "length xs = length ds" "mset xs = mset ds" by (simp_all add: xs_def)
  have m: "m < length xs" using assms xs(2) by (simp add: m_def)
  have cnt: "length (filter P ds) = length (filter P xs)" for P
    using xs(3) by (metis mset_filter size_mset)
  have compl: "length (filter (\<lambda>d. t < d) xs) = length xs - length (filter (\<lambda>d. d \<le> t) xs)" for t :: real
    using sum_length_filter_compl [of "\<lambda>d. d \<le> t" xs] by (simp add: not_le)
  have split: "2 * length (filter (\<lambda>d. d < hl) ds) \<le> length ds \<and> 2 * length (filter (\<lambda>d. hl < d) ds) \<le> length ds"
    if "k < length xs" "xs ! k \<le> hl" "hl \<le> xs ! m" "length ds \<le> 2 * (k + 1)" for hl k
  proof -
    have "\<not> xs ! m < hl" using that(3) by simp
    then have "length (filter (\<lambda>d. d < hl) xs) \<le> m"
      using sorted_less_prefix [OF xs(1) m, of hl] by (simp add: not_less)
    then have lo: "2 * below hl xs \<le> length ds" by (simp add: m_def)
    have "k < length (filter (\<lambda>d. d \<le> hl) xs)"
      using sorted_le_prefix [OF xs(1) that(1), of hl] that(2) by simp
    with that(4) have "2 * (length ds - length (filter (\<lambda>d. d \<le> hl) xs)) \<le> length ds" by simp
    with lo show ?thesis by (simp add: cnt compl xs(2))
  qed
  show thesis
  proof (cases "length ds mod 2 = 0")
    case True
    then have two: "length ds = 2 * m" by (auto simp: m_def)
    then have "0 < m" using assms by (cases m) auto
    with two m have even: "length ds = 2 * m" "m - 1 < length xs" "0 < m" by simp_all
    have le: "xs ! (m - 1) \<le> xs ! m" using xs(1) m by (intro sorted_nth_mono) simp_all
    let ?hl = "(xs ! (m - 1) + xs ! m) / 2"
    have r: "median_diff ds = Ret ?hl" using True assms by (simp add: median_diff_def Let_def xs_def m_def)
    show thesis using split [OF even(2), of ?hl] le even by (intro that [OF r]) auto
  next
    case False
    have r: "median_diff ds = Ret (xs ! m)" using False by (simp add: median_diff_def Let_def xs_def m_def)
    show thesis using split [OF m, of "xs ! m"] by (intro that [OF r]) (auto simp: m_def)
  qed
qed



end
