(* ===== verification/TDist.thy ===== *)
theory TDist
  imports Exchange
begin

text \<open>
  The t-distribution of \<^verbatim>\<open>src/core/stats.c\<close> (continued fraction, distribution function, bisection for
  quantiles). \<^verbatim>\<open>lgamma\<close> of the C library is the parameter \<open>lg\<close>.
\<close>

subsection \<open>Incomplete beta function\<close>

definition away :: "real \<Rightarrow> real" where
  "away d = (if \<bar>d\<bar> < 1 / 10 ^ 30 then 1 / 10 ^ 30 else d)"

text \<open>The loop of the continued fraction; \<open>k\<close> rounds are left, \<open>m\<close> is the loop variable.\<close>

fun lentz_loop :: "nat \<Rightarrow> real \<Rightarrow> real \<Rightarrow> real \<Rightarrow> real \<Rightarrow> real \<Rightarrow> real \<Rightarrow> real \<Rightarrow> real" where
  "lentz_loop 0 m a b x c d h = h"
| "lentz_loop (Suc k) m a b x c d h =
     (let m2 = 2 * m;
          aa = m * (b - m) * x / ((a + m2 - 1) * (a + m2));
          d = away (1 + aa * d);
          c = away (1 + aa / c);
          d = 1 / d;
          h = h * (d * c);
          aa = - (a + m) * (a + b + m) * x / ((a + m2) * (a + m2 + 1));
          d = away (1 + aa * d);
          c = away (1 + aa / c);
          d = 1 / d;
          del = d * c;
          h = h * del
      in if \<bar>del - 1\<bar> < 3 / 10 ^ 7 then h else lentz_loop k (m + 1) a b x c d h)"

definition beta_inc :: "(real \<Rightarrow> real) \<Rightarrow> real \<Rightarrow> real \<Rightarrow> real \<Rightarrow> real" where
  "beta_inc lg a b x =
     (if x < 0 \<or> x > 1 then 0
      else if x = 0 \<or> x = 1 then x
      else let log_beta = lg a + lg b - lg (a + b);
               front = exp (ln a + ln x + b * ln (1 - x) - ln a - log_beta);
               d = 1 / away (1 - (a + b) * x / (a + 1));
               h = lentz_loop 200 1 a b x 1 d d
           in front * (h - 1))"

text \<open>
  C39. The continued fraction is used wrongly: for \<open>a = b = 1\<close>, where the incomplete beta function is the
  identity, the code returns the square (with any log-gamma that is 0 at 1 and 2, as
  \<^verbatim>\<open>lgamma\<close> is).
\<close>

theorem beta_inc_square:
  assumes "lg 1 = 0" "lg 2 = 0" "0 \<le> x" "x \<le> 1 - 1 / 10 ^ 30"
  shows "beta_inc lg 1 1 x = x * x"
proof (cases "x = 0")
  case False
  have x: "0 < x" "x < 1" "\<bar>1 - x\<bar> \<ge> 1 / 10 ^ 30" "\<bar>1 - x / 2\<bar> \<ge> 1 / 10 ^ 30" using False assms by auto
  have front: "exp (ln 1 + ln x + 1 * ln (1 - x) - ln 1 - (lg 1 + lg 1 - lg (1 + 1))) = x * (1 - x)"
    using x assms by (simp add: exp_add)
  have a1: "away 1 = 1" by (simp add: away_def)
  have ax: "away (1 - x) = 1 - x" "away (1 - x / 2) = 1 - x / 2" using x by (simp_all add: away_def)
  have h: "lentz_loop (Suc k) 1 1 1 x 1 d h = h" for k d h
    using x by (simp add: Let_def a1 ax)
  have "lentz_loop 200 1 1 1 x 1 (1 / (1 - x)) (1 / (1 - x)) = 1 / (1 - x)"
    using h [of 199] by (simp del: lentz_loop.simps)
  moreover have "away (1 - (1 + 1) * x / (1 + 1)) = 1 - x" using ax by simp
  ultimately have "beta_inc lg 1 1 x = x * (1 - x) * (1 / (1 - x) - 1)"
    using x front by (simp add: beta_inc_def Let_def)
  moreover have "(1 - x) * (1 / (1 - x) - 1) = x" using x by (simp add: right_diff_distrib)
  ultimately show ?thesis by (simp add: mult.assoc)
qed (simp add: beta_inc_def)

lemma beta_inc_square_witness: "beta_inc (\<lambda>_. 0) 1 1 (1 / 2) = 1 / 4"
  using beta_inc_square [of "\<lambda>_. 0" "1 / 2"] by simp

subsection \<open>Distribution function and quantile\<close>

definition t_dist_cdf :: "(real \<Rightarrow> real) \<Rightarrow> real \<Rightarrow> real \<Rightarrow> real" where
  "t_dist_cdf lg t df =
     (let x = df / (df + t * t);
          ib = beta_inc lg (df / 2) (1 / 2) x
      in if t \<ge> 0 then 1 - 1 / 2 * ib else 1 / 2 * ib)"

text \<open>The bisection: at most \<open>k\<close> more rounds.\<close>

fun bisect_loop :: "nat \<Rightarrow> (real \<Rightarrow> real) \<Rightarrow> real \<Rightarrow> real \<Rightarrow> real \<Rightarrow> real" where
  "bisect_loop 0 cdf target lo hi = (lo + hi) / 2"
| "bisect_loop (Suc k) cdf target lo hi =
     (let mid = (lo + hi) / 2;
          (lo, hi) = (if cdf mid < target then (mid, hi) else (lo, mid))
      in if hi - lo < 1 / 10 ^ 6 then (lo + hi) / 2 else bisect_loop k cdf target lo hi)"

text \<open>The starting guess that the code computes first is never used.\<close>

definition t_dist_quantile :: "(real \<Rightarrow> real) \<Rightarrow> real \<Rightarrow> real \<Rightarrow> real" where
  "t_dist_quantile lg alpha df =
     (if df \<le> 0 then 196 / 100
      else bisect_loop 50 (\<lambda>t. t_dist_cdf lg t df) (1 - alpha / 2) 0 10)"

lemma bisect_loop_bracket:
  assumes "lo < hi" "(hi - lo) / 2 ^ k < 1 / 10 ^ 6" "lo = 0 \<or> cdf lo < target" "hi = 10 \<or> target \<le> cdf hi"
  obtains l h where "bisect_loop k cdf target lo hi = (l + h) / 2" "lo \<le> l" "l < h" "h \<le> hi" "h - l < 1 / 10 ^ 6"
    "l = 0 \<or> cdf l < target" "h = 10 \<or> target \<le> cdf h"
  using assms
proof (induction k arbitrary: lo hi thesis)
  case 0
  show ?case by (rule "0.prems"(1) [of lo hi]) (use "0.prems" in simp_all)
next
  case (Suc k)
  let ?mid = "(lo + hi) / 2"
  define l where "l = (if cdf ?mid < target then ?mid else lo)"
  define h where "h = (if cdf ?mid < target then hi else ?mid)"
  have lh: "l < h" "lo \<le> l" "h \<le> hi" "h - l = (hi - lo) / 2" using Suc.prems(2) by (auto simp: l_def h_def field_simps)
  have "(h - l) / 2 ^ k = (hi - lo) / 2 ^ Suc k" by (simp add: lh)
  then have w: "(h - l) / 2 ^ k < 1 / 10 ^ 6" using Suc.prems(3) by simp
  have ok: "l = 0 \<or> cdf l < target" "h = 10 \<or> target \<le> cdf h" using Suc.prems(4,5) by (auto simp: l_def h_def)
  have step: "bisect_loop (Suc k) cdf target lo hi =
      (if h - l < 1 / 10 ^ 6 then (l + h) / 2 else bisect_loop k cdf target l h)"
    by (simp add: l_def h_def Let_def)
  show ?case
  proof (cases "h - l < 1 / 10 ^ 6")
    case True
    show ?thesis by (rule Suc.prems(1) [of l h]) (use True step lh ok in simp_all)
  next
    case False
    show ?thesis
    proof (rule Suc.IH [OF _ lh(1) w ok])
      fix l' h'
      assume "bisect_loop k cdf target l h = (l' + h') / 2" "l \<le> l'" "l' < h'" "h' \<le> h" "h' - l' < 1 / 10 ^ 6"
        "l' = 0 \<or> cdf l' < target" "h' = 10 \<or> target \<le> cdf h'"
      then show thesis using step False lh by (intro Suc.prems(1) [of l' h']) auto
    qed
  qed
qed

text \<open>24 rounds reach the wanted width, so the bound of 50 rounds is never reached.\<close>

lemma bisect_rounds: "bisect_loop (24 + k) cdf target 0 10 = bisect_loop 24 cdf target 0 10"
proof -
  have "bisect_loop (n + k) cdf target lo hi = bisect_loop n cdf target lo hi"
    if "(hi - lo) / 2 ^ n < 1 / 10 ^ 6" "0 < n" for n lo hi
    using that
  proof (induction n arbitrary: lo hi)
    case (Suc n)
    let ?mid = "(lo + hi) / 2"
    define l where "l = (if cdf ?mid < target then ?mid else lo)"
    define h where "h = (if cdf ?mid < target then hi else ?mid)"
    have w: "(h - l) / 2 ^ n < 1 / 10 ^ 6"
      using Suc.prems(1) by (auto simp: l_def h_def field_simps)
    have step: "bisect_loop (Suc j) cdf target lo hi =
        (if h - l < 1 / 10 ^ 6 then (l + h) / 2 else bisect_loop j cdf target l h)" for j
      by (simp add: l_def h_def Let_def)
    show ?case
    proof (cases "n = 0")
      case True
      then show ?thesis using w step [of k] step [of 0] by (simp del: bisect_loop.simps)
    next
      case False
      then show ?thesis using Suc.IH [OF w] step [of "n + k"] step [of n] by (simp del: bisect_loop.simps)
    qed
  qed simp
  then show ?thesis by simp
qed

lemma t_quantile_pos: "0 < t_dist_quantile lg alpha df"
proof (cases "df \<le> 0")
  case False
  obtain l h where "bisect_loop 50 (\<lambda>t. t_dist_cdf lg t df) (1 - alpha / 2) 0 10 = (l + h) / 2" "0 \<le> l" "l < h"
    by (rule bisect_loop_bracket [of 0 10 50 "\<lambda>t. t_dist_cdf lg t df" "1 - alpha / 2"]) auto
  with False have "t_dist_quantile lg alpha df = (l + h) / 2" "0 < l + h" by (simp_all add: t_dist_quantile_def)
  then show ?thesis by simp
qed (simp add: t_dist_quantile_def)

text \<open>
  C35. The quantile for a positive number of degrees of freedom lies inside an interval of width below 1/1000000 whose
  left end is 0 or has a distribution value below the target \<open>1 - alpha/2\<close>, and whose right end is 10 or reaches the target;
  24 of the 50 rounds are enough for that. So it is correct to that width whenever the
  wanted quantile lies between 0 and 10, and 10 (up to that width) beyond.
\<close>

theorem t_quantile_bracket:
  assumes "0 < df"
  shows "\<exists>l h. t_dist_quantile lg alpha df = (l + h) / 2 \<and> 0 \<le> l \<and> l < h \<and> h \<le> 10 \<and> h - l < 1 / 10 ^ 6 \<and>
      (l = 0 \<or> t_dist_cdf lg l df < 1 - alpha / 2) \<and> (h = 10 \<or> 1 - alpha / 2 \<le> t_dist_cdf lg h df) \<and>
      t_dist_quantile lg alpha df = bisect_loop 24 (\<lambda>t. t_dist_cdf lg t df) (1 - alpha / 2) 0 10"
proof -
  have q: "t_dist_quantile lg alpha df = bisect_loop 24 (\<lambda>t. t_dist_cdf lg t df) (1 - alpha / 2) 0 10"
    using assms bisect_rounds [of 26] by (simp add: t_dist_quantile_def del: bisect_loop.simps)
  show ?thesis
    by (rule bisect_loop_bracket [of 0 10 24 "\<lambda>t. t_dist_cdf lg t df" "1 - alpha / 2"])
      (use q in \<open>auto simp del: bisect_loop.simps\<close>)
qed

lemma t_quantile_bracket_witness:
  "\<exists>l h. t_dist_quantile (\<lambda>_. 0) (5 / 100) 3 = (l + h) / 2 \<and> 0 \<le> l \<and> h \<le> 10 \<and> h - l < 1 / 10 ^ 6"
  using t_quantile_bracket [of 3 "\<lambda>_. 0" "5 / 100"] by auto

end
