(* ===== verification/StatTests.thy ===== *)
theory StatTests
  imports TDist
begin

text \<open>
  The remaining tests of \<^verbatim>\<open>src/core/stats.c\<close>: normality (Anderson-Darling and the value derived from it) and
  the Welch test. A value that C computes as a NaN because a sample is too small is
  \<open>None\<close>. Work arrays are taken to be allocated (the code does not check).
\<close>

subsection \<open>Mean and deviation under permutation and change of unit\<close>

lemma mean_stddev_perm:
  assumes "mset xs = mset ys"
  shows "stats_mean_stddev xs = stats_mean_stddev ys"
proof -
  have len: "length xs = length ys" using assms by (metis size_mset)
  have sum: "(\<Sum>x \<leftarrow> xs. f x) = (\<Sum>x \<leftarrow> ys. f x)" for f :: "real \<Rightarrow> real"
    using assms by (metis mset_map sum_mset_sum_list)
  show ?thesis using sum [of "\<lambda>x. x"] by (simp add: stats_mean_stddev_def loop_simps len sum Let_def)
qed

lemma sum_affine: "(\<Sum>x \<leftarrow> xs. s * x + c) = s * (\<Sum>x \<leftarrow> xs. x) + real (length xs) * (c :: real)"
  by (induction xs) (auto simp: algebra_simps)

lemma mean_affine: "xs \<noteq> [] \<Longrightarrow> mean_of (map (\<lambda>x. s * x + c) xs) = s * mean_of xs + c"
  by (simp add: mean_of_eq comp_def sum_affine add_divide_distrib)

lemma sum_scaled: "(\<Sum>x \<leftarrow> xs. s * f x) = s * (\<Sum>x \<leftarrow> xs. f x :: real)"
  by (induction xs) (auto simp: algebra_simps)

lemma stddev_affine:
  assumes "2 \<le> length xs" "0 < s"
  shows "stddev_of (map (\<lambda>x. s * x + c) xs) = s * stddev_of xs"
proof -
  have ne: "xs \<noteq> []" using assms(1) by auto
  have "(\<Sum>x \<leftarrow> map (\<lambda>x. s * x + c) xs. (x - mean_of (map (\<lambda>x. s * x + c) xs)) * (x - mean_of (map (\<lambda>x. s * x + c) xs))) =
      (\<Sum>x \<leftarrow> xs. s\<^sup>2 * ((x - mean_of xs) * (x - mean_of xs)))"
    by (simp only: mean_affine [OF ne] map_map comp_def) (simp add: power2_eq_square mult.assoc mult.left_commute flip: right_diff_distrib)
  also have "\<dots> = s\<^sup>2 * (\<Sum>x \<leftarrow> xs. (x - mean_of xs) * (x - mean_of xs))" by (rule sum_scaled)
  finally have "stddev_of (map (\<lambda>x. s * x + c) xs) =
      sqrt (s\<^sup>2 * ((\<Sum>x \<leftarrow> xs. (x - mean_of xs) * (x - mean_of xs)) / (real (length xs) - 1)))"
    using assms(1) by (simp add: stddev_of_eq)
  also have "\<dots> = s * stddev_of xs"
    unfolding stddev_of_eq [OF assms(1)] real_sqrt_mult using assms(2) by simp
  finally show ?thesis .
qed

lemma stats_sort_affine:
  assumes "0 < s"
  shows "stats_sort (map (\<lambda>x. s * x + c) xs) = map (\<lambda>x. s * x + c) (stats_sort xs)"
proof -
  have "sorted (map (\<lambda>x. s * x + c) (stats_sort xs))"
    using assms by (intro sorted_map_mono [of _ "\<lambda>x. s * x + c", simplified]) (auto simp: mono_on_def)
  then show ?thesis unfolding stats_sort_def by (intro properties_for_sort) simp_all
qed

subsection \<open>Anderson-Darling\<close>

definition normal_cdf :: "(real \<Rightarrow> real) \<Rightarrow> real \<Rightarrow> real" where
  "normal_cdf erf_fn y = 1 / 2 * (1 + erf_fn y)"

definition ad_step :: "(real \<Rightarrow> real) \<Rightarrow> real list \<Rightarrow> real \<Rightarrow> real \<Rightarrow> real \<Rightarrow> nat \<Rightarrow> real" where
  "ad_step erf_fn sorted_values m sd S i =
     (let zi = (sorted_values ! i - m) / sd;
          cdf = normal_cdf erf_fn (zi / sqrt 2);
          cdf = (if cdf < 1 / 10 ^ 15 then 1 / 10 ^ 15 else cdf);
          cdf = (if cdf > 1 - 1 / 10 ^ 15 then 1 - 1 / 10 ^ 15 else cdf);
          cdf_rev = normal_cdf erf_fn ((sorted_values ! (length sorted_values - 1 - i) - m) / (sd * sqrt 2));
          cdf_rev = (if cdf_rev > 1 - 1 / 10 ^ 15 then 1 - 1 / 10 ^ 15 else cdf_rev)
      in S + (2 * real i + 1) * (ln cdf + ln (1 - cdf_rev)))"

definition stats_anderson_darling :: "(real \<Rightarrow> real) \<Rightarrow> real list \<Rightarrow> real" where
  "stats_anderson_darling erf_fn values =
     (if length values < 3 then 0
      else let n = real (length values); (m, sd) = stats_mean_stddev values
        in if sd < 1 / 10 ^ 15 then 0
           else let S = foldl (ad_step erf_fn (stats_sort values) m sd) 0 [0..<length values];
                    A2 = - n - S / n
             in A2 * (1 + 75 / 100 / n + 225 / 100 / (n * n)))"

definition stats_shapiro_wilk :: "(real \<Rightarrow> real) \<Rightarrow> real list \<Rightarrow> real option" where
  "stats_shapiro_wilk erf_fn values =
     (let A2 = stats_anderson_darling erf_fn values
      in if 1 + A2 = 0 then None else Some (1 / (1 + A2)))"

lemma ad_step_affine:
  assumes "0 < s" "i < length xs"
  shows "ad_step erf_fn (map (\<lambda>x. s * x + c) xs) (s * m + c) (s * sd) S i = ad_step erf_fn xs m sd S i"
proof -
  have "(s * x + c - (s * m + c)) / (s * sd) = (x - m) / sd"
    "(s * x + c - (s * m + c)) / (s * sd * sqrt 2) = (x - m) / (sd * sqrt 2)" for x
    using assms(1) by (simp_all add: mult.assoc flip: right_diff_distrib)
  then show ?thesis using assms(2) by (simp add: ad_step_def)
qed

text \<open>
  The normality statistic, and the value derived from it, do not depend on the unit or the origin
  of the measurements: an increasing affine change of all values leaves them as they were, as long as neither
  standard deviation falls below the cut-off of the code.
\<close>

theorem anderson_darling_unit_free:
  assumes "0 < s" "1 / 10 ^ 15 \<le> stddev_of values" "1 / 10 ^ 15 \<le> stddev_of (map (\<lambda>x. s * x + c) values)"
  shows "stats_anderson_darling erf_fn (map (\<lambda>x. s * x + c) values) = stats_anderson_darling erf_fn values \<and>
    stats_shapiro_wilk erf_fn (map (\<lambda>x. s * x + c) values) = stats_shapiro_wilk erf_fn values"
proof -
  have ad: "stats_anderson_darling erf_fn (map (\<lambda>x. s * x + c) values) = stats_anderson_darling erf_fn values"
  proof (cases "length values < 3")
    case False
    then have len: "2 \<le> length values" "values \<noteq> []" by auto
    have "foldl (ad_step erf_fn (stats_sort (map (\<lambda>x. s * x + c) values)) (s * mean_of values + c) (s * stddev_of values)) 0
          [0..<length values] =
        foldl (ad_step erf_fn (stats_sort values) (mean_of values) (stddev_of values)) 0 [0..<length values]"
      by (rule foldl_cong) (simp_all add: stats_sort_affine [OF assms(1)] ad_step_affine [OF assms(1)])
    then show ?thesis
      using False assms(2,3) len
      by (simp add: stats_anderson_darling_def Let_def case_prod_beta mean_affine stddev_affine assms(1))
  qed (simp add: stats_anderson_darling_def)
  then show ?thesis
    by (simp add: stats_shapiro_wilk_def)
qed

lemma anderson_darling_unit_free_witness:
  "stats_anderson_darling (\<lambda>_. 0) [3, 5, 7] = stats_anderson_darling (\<lambda>_. 0) [1, 2, 3]"
proof -
  have "stddev_of [1, 2, 3] = 1" "stddev_of [3, 5, 7] = 2"
    by (simp_all add: stats_mean_stddev_def loop_simps real_sqrt_unique)
  then show ?thesis using anderson_darling_unit_free [of 2 "[1, 2, 3]" 1 "\<lambda>_. 0"] by simp
qed

subsection \<open>Welch test\<close>

text \<open>\<^verbatim>\<open>s*s/n\<close>; for an empty sample this is \<^verbatim>\<open>0.0/0\<close>.\<close>

definition welch_var :: "real list \<Rightarrow> real option" where
  "welch_var xs = (if xs = [] then None else Some (stddev_of xs * stddev_of xs / real (length xs)))"

text \<open>\<^verbatim>\<open>df_den\<close> is a number only for samples of two or more values; otherwise the comparison with 0 fails.\<close>

definition welch_df :: "real list \<Rightarrow> real list \<Rightarrow> real" where
  "welch_df a b =
     (let fallback = real (length a) + real (length b) - 2 in
      if length a < 2 \<or> length b < 2 then fallback
      else let va = stddev_of a * stddev_of a / real (length a);
               vb = stddev_of b * stddev_of b / real (length b);
               df_num = (va + vb) * (va + vb);
               df_den = va * va / (real (length a) - 1) + vb * vb / (real (length b) - 1)
        in if df_den > 0 then df_num / df_den else fallback)"

text \<open>Status, p-value and confidence interval.\<close>

definition stats_welch_ttest ::
    "(real \<Rightarrow> real) \<Rightarrow> (real \<Rightarrow> real) \<Rightarrow> real list \<Rightarrow> real list \<Rightarrow> int \<times> real \<times> (real \<times> real) option" where
  "stats_welch_ttest lg erf_fn a b =
     (let ma = mean_of a; mb = mean_of b;
          se = (case (welch_var a, welch_var b) of
                  (Some va, Some vb) \<Rightarrow> Some (sqrt (va + vb))
                | _ \<Rightarrow> None);
          df = welch_df a b;
          t = (case se of Some e \<Rightarrow> if e > 0 then (ma - mb) / e else 0 | None \<Rightarrow> 0);
          p = (if df > 0 then 2 * (1 - t_dist_cdf lg \<bar>t\<bar> df)
               else 2 * (1 - 1 / 2 * (1 + erf_fn (\<bar>t\<bar> / sqrt 2))));
          p = (if p > 1 then 1 else p);
          p = (if p < 0 then 0 else p);
          t_crit = (if df > 0 \<and> df < 1000 then t_dist_quantile lg (5 / 100) df else 196 / 100)
      in (0, p, map_option (\<lambda>e. ((ma - mb) - t_crit * e, (ma - mb) + t_crit * e)) se))"

lemma welch_df_sym: "welch_df b a = welch_df a b"
  by (simp add: welch_df_def Let_def add.commute disj_commute)

lemma welch_t_sym:
  "\<bar>(if e > 0 then (mb - ma) / e else 0)\<bar> = \<bar>(if e > 0 then (ma - mb) / e else (0 :: real))\<bar>"
  by (simp add: abs_minus_commute)

text \<open>
  The Welch test: the p-value lies between 0 and 1; the interval exists exactly when both samples are
  non-empty, contains the difference of the means and is a single point exactly when both deviations are 0;
  exchanging the samples keeps the p-value and mirrors the interval.
\<close>

theorem welch_ttest_symmetric:
  "\<exists>p ci. stats_welch_ttest lg erf_fn a b = (0, p, ci) \<and> 0 \<le> p \<and> p \<le> 1 \<and>
    (ci = None \<longleftrightarrow> a = [] \<or> b = []) \<and>
    (\<forall>lo hi. ci = Some (lo, hi) \<longrightarrow> lo \<le> mean_of a - mean_of b \<and> mean_of a - mean_of b \<le> hi \<and>
      (lo = hi \<longleftrightarrow> stddev_of a = 0 \<and> stddev_of b = 0)) \<and>
    stats_welch_ttest lg erf_fn b a = (0, p, map_option (\<lambda>(lo, hi). (- hi, - lo)) ci)"
proof (cases "a = [] \<or> b = []")
  case True
  then show ?thesis
    by (auto simp: stats_welch_ttest_def welch_var_def Let_def welch_df_sym [of b a] split: option.split)
next
  case False
  define e where "e = sqrt (stddev_of a * stddev_of a / real (length a) + stddev_of b * stddev_of b / real (length b))"
  define tc where "tc = (if welch_df a b > 0 \<and> welch_df a b < 1000
    then t_dist_quantile lg (5 / 100) (welch_df a b) else 196 / 100)"
  have n: "0 < real (length a)" "0 < real (length b)" using False by simp_all
  have e0: "0 \<le> e" by (simp add: e_def)
  have "e = 0 \<longleftrightarrow> stddev_of a * stddev_of a / real (length a) = 0 \<and> stddev_of b * stddev_of b / real (length b) = 0"
    unfolding e_def by (subst real_sqrt_eq_0_iff, subst add_nonneg_eq_0_iff) simp_all
  then have e_iff: "e = 0 \<longleftrightarrow> stddev_of a = 0 \<and> stddev_of b = 0" using n by simp
  have tc: "0 < tc" using t_quantile_pos by (simp add: tc_def)
  have ab: "\<exists>p. stats_welch_ttest lg erf_fn a b =
      (0, p, Some (mean_of a - mean_of b - tc * e, mean_of a - mean_of b + tc * e)) \<and> 0 \<le> p \<and> p \<le> 1 \<and>
      stats_welch_ttest lg erf_fn b a =
      (0, p, Some (mean_of b - mean_of a - tc * e, mean_of b - mean_of a + tc * e))"
    using False welch_t_sym [of e "mean_of b" "mean_of a"]
    by (simp add: stats_welch_ttest_def Let_def welch_var_def welch_df_sym [of b a] add.commute
        flip: e_def tc_def)
  have "0 \<le> tc * e" "tc * e = 0 \<longleftrightarrow> e = 0" using tc e0 by simp_all
  with ab e_iff False show ?thesis by (elim exE) auto
qed

lemma welch_ttest_symmetric_witness:
  "\<exists>p lo hi. stats_welch_ttest (\<lambda>_. 0) (\<lambda>_. 0) [1, 2] [4, 5] = (0, p, Some (lo, hi)) \<and> lo \<le> - 3 \<and> - 3 \<le> hi"
proof -
  have m: "mean_of [1, 2] = 3 / 2" "mean_of [4, 5] = 9 / 2" by (simp_all add: mean_of_eq)
  obtain p ci where w: "stats_welch_ttest (\<lambda>_. 0) (\<lambda>_. 0) [1, 2] [4, 5] = (0, p, ci)" "ci \<noteq> None"
    "\<forall>lo hi. ci = Some (lo, hi) \<longrightarrow> lo \<le> mean_of [1, 2] - mean_of [4, 5] \<and> mean_of [1, 2] - mean_of [4, 5] \<le> hi"
    using welch_ttest_symmetric [of "\<lambda>_. 0" "\<lambda>_. 0" "[1, 2]" "[4, 5]"] by blast
  then show ?thesis by (auto simp: m)
qed

end
