(* ===== verification/Outliers.thy ===== *)
theory Outliers
  imports StatTests
begin

text \<open>
  \<open>stats_detect_outliers\<close> of \<^verbatim>\<open>src/core/stats.c\<close>, the generalized ESD procedure: the values are sorted with
  their positions, and the value furthest from the mean of the rest is marked and removed as long as it is
  significant. Marking position -1 would be a read out of bounds.
\<close>

definition furthest :: "(real \<times> nat) list \<Rightarrow> real \<Rightarrow> real \<times> nat option" where
  "furthest l m =
     foldl (\<lambda>(max_dev, max_idx) i.
         let dev = \<bar>fst (l ! i) - m\<bar> in if dev > max_dev then (dev, Some i) else (max_dev, max_idx))
       (0, None) [0..<length l]"

definition esd_lambda :: "(real \<Rightarrow> real) \<Rightarrow> real \<Rightarrow> nat \<Rightarrow> real" where
  "esd_lambda lg alpha r =
     (let alpha_r = alpha / (2 * (real r + 1));
          t_crit = t_dist_quantile lg (2 * alpha_r) (real r - 2)
      in t_crit * (real r - 1) / sqrt (real r * (real r - 2 + t_crit * t_crit)))"

text \<open>\<open>k\<close> rounds are left; the list holds the values that are still in and their positions.\<close>

fun esd_loop :: "(real \<Rightarrow> real) \<Rightarrow> real \<Rightarrow> nat \<Rightarrow> (real \<times> nat) list \<Rightarrow> bool list \<Rightarrow> bool list outcome" where
  "esd_loop lg alpha 0 l outlier_mask = Ret outlier_mask"
| "esd_loop lg alpha (Suc k) l outlier_mask =
     (if length l \<le> 2 then Ret outlier_mask
      else let (m, sd) = stats_mean_stddev (map fst l)
        in if sd < 1 / 10 ^ 10 then Ret outlier_mask
           else let (max_dev, max_idx) = furthest l m
             in if max_dev / sd > esd_lambda lg alpha (length l)
                then (case max_idx of
                        None \<Rightarrow> Undef OobRead
                      | Some i \<Rightarrow> esd_loop lg alpha k (take i l @ drop (Suc i) l) (outlier_mask[snd (l ! i) := True]))
                else Ret outlier_mask)"

definition stats_detect_outliers ::
    "(real \<Rightarrow> real) \<Rightarrow> real list \<Rightarrow> real \<Rightarrow> int \<Rightarrow> bool list outcome" where
  "stats_detect_outliers lg values alpha max_outliers =
     (let count = length values; none = replicate count False
      in if count < 3 then Ret none
         else esd_loop lg alpha (nat max_outliers) (exchange_sort (zip values [0..<count])) none)"

lemma furthest_spec:
  assumes "furthest l m = (d, idx)"
  shows "0 \<le> d \<and> (\<forall>i < length l. \<bar>fst (l ! i) - m\<bar> \<le> d) \<and>
   (case idx of None \<Rightarrow> d = 0 | Some i \<Rightarrow> i < length l \<and> d = \<bar>fst (l ! i) - m\<bar>)"
proof -
  let ?P = "\<lambda>n s. 0 \<le> fst s \<and> (\<forall>i < n. \<bar>fst (l ! i) - m\<bar> \<le> fst s) \<and>
    (case snd s of None \<Rightarrow> fst s = 0 | Some i \<Rightarrow> i < length l \<and> fst s = \<bar>fst (l ! i) - m\<bar>)"
  have "?P (length l) (furthest l m)"
    unfolding furthest_def
    by (rule foldl_upt_inv [where P = ?P])
      (auto simp: Let_def case_prod_beta less_Suc_eq intro: order_trans less_imp_le split: option.splits)
  then show ?thesis unfolding assms by (cases idx) auto
qed

abbreviation marked :: "bool list \<Rightarrow> nat" where
  "marked om \<equiv> length (filter (\<lambda>b. b) om)"

lemma marked_upd: "i < length om \<Longrightarrow> \<not> om ! i \<Longrightarrow> marked (om[i := True]) = Suc (marked om)"
  by (induction om arbitrary: i) (auto split: nat.split simp: nth_Cons')

text \<open>The positions still in the list are different, in range and not marked yet.\<close>

definition esd_inv :: "nat \<Rightarrow> (real \<times> nat) list \<Rightarrow> bool list \<Rightarrow> bool" where
  "esd_inv n l om \<longleftrightarrow> length om = n \<and> distinct (map snd l) \<and>
     (\<forall>j \<in> snd ` set l. j < n \<and> \<not> om ! j) \<and> length l + marked om = n"

lemma esd_inv_remove:
  assumes "esd_inv n l om" "i < length l"
  shows "esd_inv n (take i l @ drop (Suc i) l) (om[snd (l ! i) := True])"
proof -
  let ?j = "snd (l ! i)"
  have l: "l = take i l @ l ! i # drop (Suc i) l" using assms(2) by (simp add: id_take_nth_drop)
  have "distinct (map snd (take i l @ l ! i # drop (Suc i) l))"
    using assms(1) l by (simp add: esd_inv_def)
  then have d: "distinct (map snd (take i l @ drop (Suc i) l))"
    "?j \<notin> snd ` set (take i l @ drop (Suc i) l)" by auto
  have sub: "set (take i l @ drop (Suc i) l) \<subseteq> set l"
    using set_take_subset [of i l] set_drop_subset [of "Suc i" l] by auto
  have j: "?j < n" "\<not> om ! ?j" using assms by (auto simp: esd_inv_def)
  then show ?thesis
    using assms d sub marked_upd [of ?j om] by (auto simp: esd_inv_def nth_list_update)
qed

lemma esd_loop_ok:
  "esd_inv n l om \<Longrightarrow> 2 \<le> n \<Longrightarrow> 2 \<le> length l \<Longrightarrow>
   \<exists>om'. esd_loop lg alpha k l om = Ret om' \<and> length om' = n \<and>
     marked om' \<le> marked om + k \<and> marked om' \<le> n - 2"
proof (induction k arbitrary: l om)
  case 0
  then show ?case by (auto simp: esd_inv_def)
next
  case (Suc k)
  have now: "length om = n \<and> marked om \<le> marked om + Suc k \<and> marked om \<le> n - 2"
    using Suc.prems by (auto simp: esd_inv_def)
  obtain m sd where ms: "stats_mean_stddev (map fst l) = (m, sd)" by fastforce
  obtain d idx where f: "furthest l m = (d, idx)" by fastforce
  note fs = furthest_spec [OF f]
  show ?case
  proof (cases "length l \<le> 2 \<or> sd < 1 / 10 ^ 10 \<or> \<not> d / sd > esd_lambda lg alpha (length l)")
    case True
    then show ?thesis using now ms f by auto
  next
    case False
    have "idx \<noteq> None"
    proof
      assume "idx = None"
      then have "\<forall>x \<in> set (map fst l). x = mean_of (map fst l)"
        using fs ms by (fastforce simp: set_conv_nth)
      then have "sd = 0" using stddev_zero_iff [of "map fst l"] Suc.prems(3) ms by simp
      with False show False by simp
    qed
    then obtain i where i: "idx = Some i" "i < length l" using fs by auto
    have len: "2 \<le> length (take i l @ drop (Suc i) l)" using False i(2) by auto
    have nm: "marked (om[snd (l ! i) := True]) = Suc (marked om)"
      using Suc.prems(1) i(2) by (intro marked_upd) (auto simp: esd_inv_def)
    show ?thesis
      using Suc.IH [OF esd_inv_remove [OF Suc.prems(1) i(2)] Suc.prems(2) len] False ms f i nm by auto
  qed
qed

lemma sorted_start_inv:
  "esd_inv (length values) (exchange_sort (zip values [0..<length values])) (replicate (length values) False)"
proof -
  let ?z = "zip values [0..<length values]"
  have m: "mset (map snd (exchange_sort ?z)) = mset (map snd ?z)"
    unfolding mset_map exchange_sort_facts(1) by simp
  have z: "map snd ?z = [0..<length values]" by simp
  have "distinct (map snd (exchange_sort ?z))" using m z by (metis distinct_upt mset_eq_imp_distinct_iff)
  moreover have "snd ` set (exchange_sort ?z) = set [0..<length values]"
    using m z by (metis list.set_map mset_eq_setD)
  ultimately show ?thesis by (simp add: esd_inv_def exchange_sort_facts)
qed

text \<open>The first round, on the sorted values, sees the mean and the deviation of the values as given.\<close>

lemma esd_first_round:
  assumes "3 \<le> length values" "0 < max_outliers" "\<not> stddev_of values < 1 / 10 ^ 10"
    and "\<forall>x \<in> set values. \<bar>x - mean_of values\<bar> / stddev_of values \<le> esd_lambda lg alpha (length values)"
  shows "stats_detect_outliers lg values alpha max_outliers = Ret (replicate (length values) False)"
proof -
  let ?z = "exchange_sort (zip values [0..<length values])"
  have ms: "stats_mean_stddev (map fst ?z) = stats_mean_stddev values"
    by (rule mean_stddev_perm) (simp add: exchange_sort_facts)
  have len: "length ?z = length values" by (simp add: exchange_sort_facts)
  obtain d idx where f: "furthest ?z (mean_of values) = (d, idx)" by fastforce
  have "d / stddev_of values \<le> esd_lambda lg alpha (length values)"
  proof (cases idx)
    case None
    then have "d = 0" using furthest_spec [OF f] by simp
    moreover have "\<bar>values ! 0 - mean_of values\<bar> / stddev_of values \<le> esd_lambda lg alpha (length values)"
      using assms(1,4) by (metis nth_mem zero_less_numeral less_le_trans)
    moreover have "0 \<le> \<bar>values ! 0 - mean_of values\<bar> / stddev_of values" using stddev_nonneg by simp
    ultimately show ?thesis by simp
  next
    case (Some i)
    then have i: "i < length ?z" "d = \<bar>fst (?z ! i) - mean_of values\<bar>" using furthest_spec [OF f] by auto
    then have "fst (?z ! i) \<in> set (map fst ?z)" by simp
    then have "fst (?z ! i) \<in> set values" by (simp only: exchange_sort_facts(5)) (simp)
    with assms(4) i(2) show ?thesis by auto
  qed
  moreover obtain k where "nat max_outliers = Suc k" using assms(2) by (metis not0_implies_Suc zero_less_nat_eq less_irrefl)
  ultimately show ?thesis
    using assms(1,3) ms f len by (simp add: stats_detect_outliers_def Let_def case_prod_beta)
qed



end
