(* ===== verification/SysFile.thy ===== *)
theory SysFile
  imports CStr
begin

text \<open>
  The files of \<^verbatim>\<open>/proc\<close> and \<^verbatim>\<open>/sys\<close> as \<^verbatim>\<open>src/core/system.c\<close> uses them: their contents (without NUL bytes) and
  which of them can be opened for writing are explicit state, a written file holds what was written
  to it, and the two readers \<open>system_read_proc_int\<close> and \<open>system_read_proc_str\<close> work on it.
\<close>

record sysfs =
  sf_files :: "string \<Rightarrow> string option"
  sf_writable :: "string \<Rightarrow> bool"

text \<open>\<^verbatim>\<open>fopen(path, "w")\<close>, one \<^verbatim>\<open>fprintf\<close>, \<^verbatim>\<open>fclose\<close>; \<open>None\<close> when the file cannot be opened.\<close>

definition write_file :: "string \<Rightarrow> string \<Rightarrow> sysfs \<Rightarrow> sysfs option" where
  "write_file path text fs =
     (if sf_writable fs path then Some (fs\<lparr>sf_files := (sf_files fs)(path \<mapsto> text)\<rparr>) else None)"

lemma write_file_Some:
  "write_file p t fs = Some fs' \<longleftrightarrow> sf_writable fs p \<and> fs' = fs\<lparr>sf_files := (sf_files fs)(p \<mapsto> t)\<rparr>"
  by (cases "sf_writable fs p") (auto simp: write_file_def)

lemma write_file_None [simp]: "write_file p t fs = None \<longleftrightarrow> \<not> sf_writable fs p"
  by (simp add: write_file_def)

lemma write_file_ok [simp]:
  "sf_writable fs p \<Longrightarrow> write_file p t fs = Some (fs\<lparr>sf_files := (sf_files fs)(p \<mapsto> t)\<rparr>)"
  by (simp add: write_file_def)

text \<open>Writing with the result of a failure ignored, as \<^verbatim>\<open>if (f) { ...; fclose(f); }\<close> does.\<close>

definition try_write :: "string \<Rightarrow> string \<Rightarrow> sysfs \<Rightarrow> sysfs" where
  "try_write p t fs = (case write_file p t fs of None \<Rightarrow> fs | Some fs \<Rightarrow> fs)"

lemma try_write_writable [simp]: "sf_writable (try_write p t fs) = sf_writable fs"
  by (cases "sf_writable fs p") (simp_all add: try_write_def write_file_None [THEN iffD2])

lemma try_write_files [simp]:
  "sf_files (try_write p t fs) q = (if q = p \<and> sf_writable fs p then Some t else sf_files fs q)"
  by (cases "sf_writable fs p") (simp_all add: try_write_def write_file_None [THEN iffD2])

text \<open>The first \<^verbatim>\<open>fgets\<close> on a file, and \<^verbatim>\<open>if (l > 0 && buf[l-1] == '\n') buf[l-1] = '\0'\<close>.\<close>

definition fgets_first :: "nat \<Rightarrow> string \<Rightarrow> string option" where
  "fgets_first bufsz text = (case fgets_all bufsz text of [] \<Rightarrow> None | l # _ \<Rightarrow> Some l)"

definition chomp :: "string \<Rightarrow> string" where
  "chomp l = (if l \<noteq> [] \<and> last l = CHR 0x0A then butlast l else l)"

text \<open>The status, and the value when it was stored.\<close>

definition system_read_proc_int :: "(string \<Rightarrow> string option) \<Rightarrow> string \<Rightarrow> int \<times> int option" where
  "system_read_proc_int files path =
     (case files path of
        None \<Rightarrow> (-1, None)
      | Some text \<Rightarrow>
          (case scan_int text of
             None \<Rightarrow> (-1, None)
           | Some (v, _) \<Rightarrow> (0, Some (clamp64 v))))"

definition system_read_proc_str ::
    "(string \<Rightarrow> string option) \<Rightarrow> string \<Rightarrow> nat \<Rightarrow> int \<times> string option" where
  "system_read_proc_str files path len =
     (case files path of
        None \<Rightarrow> (-1, None)
      | Some text \<Rightarrow>
          (case fgets_first len text of
             None \<Rightarrow> (-1, None)
           | Some l \<Rightarrow> (0, Some (chomp l))))"

text \<open>The status is 0 exactly when a string was read, so only the string matters.\<close>

lemma status_case:
  "(case p of (r, None) \<Rightarrow> a | (r, Some v) \<Rightarrow> f v) = (case snd p of None \<Rightarrow> a | Some v \<Rightarrow> f v)"
  by (cases p; cases "snd p") simp_all

lemma fgets_first_line:
  "CHR 0x0A \<notin> set l \<Longrightarrow> length l < bufsz - 1 \<Longrightarrow> fgets_first bufsz (l @ CHR 0x0A # s) = Some (l @ [CHR 0x0A])"
  by (simp add: fgets_first_def fgets_line)

lemma chomp_line [simp]: "chomp (l @ [CHR 0x0A]) = l"
  by (simp add: chomp_def)

lemma fgets_loop_length:
  "length cur < bufsz - 1 \<Longrightarrow> l \<in> set (fgets_loop bufsz cur s) \<Longrightarrow> length l < bufsz"
  by (induction bufsz cur s rule: fgets_loop.induct) (auto split: if_splits)

text \<open>Everything read fits the buffer it is read into.\<close>

lemma fgets_first_length: "fgets_first bufsz text = Some l \<Longrightarrow> 2 \<le> bufsz \<Longrightarrow> length l < bufsz"
  using fgets_loop_length [of "[]" bufsz l "text"] by (cases "fgets_loop bufsz [] text") (simp_all add: fgets_first_def fgets_all_def)

lemma chomp_length: "length (chomp l) \<le> length l"
  by (simp add: chomp_def)

lemma read_str_length:
  "system_read_proc_str files path len = (ret, Some s) \<Longrightarrow> 2 \<le> len \<Longrightarrow> length s < len"
  using fgets_first_length chomp_length le_less_trans
  by (fastforce simp: system_read_proc_str_def split: option.splits)

lemma read_int_number:
  "files path = Some (dec n @ s) \<Longrightarrow> no_digit s \<Longrightarrow> n < 2 ^ 63 \<Longrightarrow>
   system_read_proc_int files path = (0, Some (int n))"
  by (simp add: system_read_proc_int_def scan_int_dec clamp64_def)

subsection \<open>Paths with a number in them\<close>

definition cpufreq_path :: "nat \<Rightarrow> string \<Rightarrow> string" where
  "cpufreq_path cpu leaf = ''/sys/devices/system/cpu/cpu'' @ dec cpu @ ''/cpufreq/'' @ leaf"

lemma dec_before_slash:
  assumes "dec a @ CHR ''/'' # s = dec b @ CHR ''/'' # t"
  shows "a = b \<and> s = t"
proof -
  have "no_digit (CHR ''/'' # u)" for u by (simp add: no_digit_def isdigit_def)
  then have "scan_digits 0 (dec n @ CHR ''/'' # u) = (n, CHR ''/'' # u)" for n u
    by (rule scan_digits_dec)
  then show ?thesis using assms by (metis list.inject prod.inject)
qed

lemma cpufreq_path_eq [simp]: "cpufreq_path a l = cpufreq_path b m \<longleftrightarrow> a = b \<and> l = m"
  using dec_before_slash [of a "''cpufreq/'' @ l" b "''cpufreq/'' @ m"] by (auto simp: cpufreq_path_def)

end
