(* ===== verification/SysFreq.thy ===== *)
theory SysFreq
  imports SysFile
begin

text \<open>
  The frequency part of \<^verbatim>\<open>src/core/system.c\<close>: saving and replacing the governors, restoring them, and the
  readings of frequencies and temperatures.
\<close>

subsection \<open>Locking and restoring\<close>

text \<open>The static table of 4096 names of up to 31 characters and the number of CPUs written.\<close>

record governors =
  saved_governors :: "string list"
  saved_governor_count :: nat

definition governors_init :: governors where
  "governors_init = \<lparr>saved_governors = replicate 4096 [], saved_governor_count = 0\<rparr>"

definition governor_path :: "nat \<Rightarrow> string" where
  "governor_path cpu = cpufreq_path cpu ''scaling_governor''"

definition read_governor :: "sysfs \<Rightarrow> nat \<Rightarrow> string" where
  "read_governor fs cpu =
     (case sf_files fs (governor_path cpu) of
        None \<Rightarrow> []
      | Some text \<Rightarrow> (case fgets_first 32 text of None \<Rightarrow> [] | Some l \<Rightarrow> chomp l))"

definition performance :: string where "performance = ''performance'' @ [CHR 0x0A]"

fun save_loop :: "nat list \<Rightarrow> governors \<Rightarrow> sysfs \<Rightarrow> governors \<times> sysfs" where
  "save_loop [] g fs = (g, fs)"
| "save_loop (cpu # cpus) g fs =
     (let orig = read_governor fs cpu;
          g = (if orig \<noteq> [] then g\<lparr>saved_governors := (saved_governors g)[cpu := take 31 orig]\<rparr> else g)
      in case write_file (governor_path cpu) performance fs of
           None \<Rightarrow> (g, fs)
         | Some fs \<Rightarrow> save_loop cpus (g\<lparr>saved_governor_count := saved_governor_count g + 1\<rparr>) fs)"

fun pin_loop :: "nat list \<Rightarrow> sysfs \<Rightarrow> sysfs" where
  "pin_loop [] fs = fs"
| "pin_loop (cpu # cpus) fs =
     pin_loop cpus
       (case sf_files fs (cpufreq_path cpu ''scaling_max_freq'') of
          None \<Rightarrow> fs
        | Some text \<Rightarrow>
            (case fgets_first 32 text of
               None \<Rightarrow> fs
             | Some max_freq \<Rightarrow> try_write (cpufreq_path cpu ''scaling_min_freq'') max_freq fs))"

definition lock_cpus :: "int \<Rightarrow> nat" where
  "lock_cpus ncpu = nat (if ncpu \<le> 0 \<or> ncpu > 4096 then 256 else ncpu)"

text \<open>\<open>conf\<close> is \<^verbatim>\<open>sysconf(_SC_NPROCESSORS_CONF)\<close>.\<close>

definition system_lock_frequency :: "int \<Rightarrow> governors \<Rightarrow> sysfs \<Rightarrow> int \<times> governors \<times> sysfs" where
  "system_lock_frequency conf g fs =
     (let cpus = [0..<lock_cpus conf];
          (g, fs) = save_loop cpus (g\<lparr>saved_governor_count := 0\<rparr>) fs
      in (0, g, pin_loop cpus fs))"

definition system_lock_frequency_peak :: "int \<Rightarrow> governors \<Rightarrow> sysfs \<Rightarrow> int \<times> governors \<times> sysfs" where
  "system_lock_frequency_peak conf g fs = (let (_, g, fs) = system_lock_frequency conf g fs in (0, g, fs))"

fun restore_loop :: "nat list \<Rightarrow> string list \<Rightarrow> sysfs \<Rightarrow> sysfs" where
  "restore_loop [] saved fs = fs"
| "restore_loop (cpu # cpus) saved fs =
     restore_loop cpus saved
       (if saved ! cpu \<noteq> [] then try_write (governor_path cpu) (saved ! cpu @ [CHR 0x0A]) fs else fs)"

definition system_restore_frequency :: "governors \<Rightarrow> sysfs \<Rightarrow> int \<times> governors \<times> sysfs" where
  "system_restore_frequency g fs =
     (let fs = restore_loop [0..<saved_governor_count g] (saved_governors g) fs
      in (0, g\<lparr>saved_governor_count := 0\<rparr>, fs))"

lemma governor_path_eq [simp]: "governor_path a = governor_path b \<longleftrightarrow> a = b"
  by (simp add: governor_path_def)

lemma read_governor_other:
  "d \<noteq> c \<Longrightarrow> read_governor (fs\<lparr>sf_files := (sf_files fs)(governor_path c \<mapsto> t)\<rparr>) d = read_governor fs d"
  by (simp add: read_governor_def)

text \<open>The CPUs the first loop writes: those before the first file that cannot be written.\<close>

definition locked_cpus :: "sysfs \<Rightarrow> nat list \<Rightarrow> nat list" where
  "locked_cpus fs cpus = takeWhile (\<lambda>c. sf_writable fs (governor_path c)) cpus"

lemma save_loop_spec:
  "distinct cpus \<Longrightarrow> save_loop cpus g fs = (g', fs') \<Longrightarrow>
   sf_writable fs' = sf_writable fs \<and>
   length (saved_governors g') = length (saved_governors g) \<and>
   saved_governor_count g' = saved_governor_count g + length (locked_cpus fs cpus) \<and>
   (\<forall>p. sf_files fs' p = (if p \<in> governor_path ` set (locked_cpus fs cpus) then Some performance else sf_files fs p)) \<and>
   (\<forall>c. c \<notin> set cpus \<longrightarrow> saved_governors g' ! c = saved_governors g ! c) \<and>
   (\<forall>c \<in> set (locked_cpus fs cpus). c < length (saved_governors g) \<longrightarrow> read_governor fs c \<noteq> [] \<longrightarrow>
      saved_governors g' ! c = take 31 (read_governor fs c))"
proof (induction cpus arbitrary: g fs)
  case Nil
  then show ?case by (simp add: locked_cpus_def)
next
  case (Cons cpu cpus)
  define h where "h = (if read_governor fs cpu \<noteq> []
    then g\<lparr>saved_governors := (saved_governors g)[cpu := take 31 (read_governor fs cpu)]\<rparr> else g)"
  show ?case
  proof (cases "sf_writable fs (governor_path cpu)")
    case False
    then have w: "write_file (governor_path cpu) performance fs = None" by simp
    have "g' = h" "fs' = fs" using Cons.prems(2) by (auto simp: h_def Let_def w)
    with False show ?thesis by (simp add: locked_cpus_def h_def)
  next
    case True
    define fs1 where "fs1 = fs\<lparr>sf_files := (sf_files fs)(governor_path cpu \<mapsto> performance)\<rparr>"
    have w: "write_file (governor_path cpu) performance fs = Some fs1" using True by (simp add: fs1_def)
    have step: "save_loop cpus (h\<lparr>saved_governor_count := saved_governor_count h + 1\<rparr>) fs1 = (g', fs')"
      using Cons.prems(2) by (simp add: h_def Let_def w cong: if_cong)
    have lk: "locked_cpus fs (cpu # cpus) = cpu # locked_cpus fs1 cpus"
      using True by (simp add: locked_cpus_def fs1_def)
    have sub: "set (locked_cpus fs1 cpus) \<subseteq> set cpus" by (auto simp: locked_cpus_def dest: set_takeWhileD)
    have d: "distinct cpus" and notin: "cpu \<notin> set cpus" using Cons.prems(1) by simp_all
    have rd: "read_governor fs1 c = read_governor fs c" if "c \<in> set (locked_cpus fs1 cpus)" for c
      using that sub notin unfolding fs1_def by (intro read_governor_other) auto
    note IH = Cons.IH [OF d step]
    have h: "length (saved_governors h) = length (saved_governors g)"
      "saved_governor_count h = saved_governor_count g"
      "\<And>c. c \<noteq> cpu \<Longrightarrow> saved_governors h ! c = saved_governors g ! c"
      "cpu < length (saved_governors g) \<Longrightarrow> read_governor fs cpu \<noteq> [] \<Longrightarrow>
         saved_governors h ! cpu = take 31 (read_governor fs cpu)"
      by (simp_all add: h_def)
    have f1: "sf_files fs1 p = (if p = governor_path cpu then Some performance else sf_files fs p)"
      "sf_writable fs1 = sf_writable fs" for p by (simp_all add: fs1_def)
    show ?thesis
      unfolding lk
    proof (intro conjI allI ballI impI)
      show "sf_writable fs' = sf_writable fs" using IH f1 by simp
      show "length (saved_governors g') = length (saved_governors g)" using IH h by simp
      show "saved_governor_count g' = saved_governor_count g + length (cpu # locked_cpus fs1 cpus)"
        using IH h by simp
      show "sf_files fs' p = (if p \<in> governor_path ` set (cpu # locked_cpus fs1 cpus) then Some performance
          else sf_files fs p)" for p using IH by (simp add: f1)
      show "saved_governors g' ! c = saved_governors g ! c" if "c \<notin> set (cpu # cpus)" for c
        using IH h that by simp
      fix c assume c: "c \<in> set (cpu # locked_cpus fs1 cpus)" "c < length (saved_governors g)"
        "read_governor fs c \<noteq> []"
      show "saved_governors g' ! c = take 31 (read_governor fs c)"
      proof (cases "c = cpu")
        case True
        then show ?thesis using IH h c notin by simp
      next
        case False
        then show ?thesis using IH h(1) c rd [of c] by simp
      qed
    qed
  qed
qed

lemma pin_loop_other:
  "\<forall>c \<in> set cpus. p \<noteq> cpufreq_path c ''scaling_min_freq'' \<Longrightarrow> sf_files (pin_loop cpus fs) p = sf_files fs p"
  by (induction cpus arbitrary: fs) (auto split: option.split)

lemma pin_loop_writable [simp]: "sf_writable (pin_loop cpus fs) = sf_writable fs"
  by (induction cpus arbitrary: fs) (auto split: option.split)

lemma pin_loop_pins:
  "cpu \<in> set cpus \<Longrightarrow> sf_files fs (cpufreq_path cpu ''scaling_max_freq'') = Some text \<Longrightarrow>
   fgets_first 32 text = Some f \<Longrightarrow> sf_writable fs (cpufreq_path cpu ''scaling_min_freq'') \<Longrightarrow>
   sf_files (pin_loop cpus fs) (cpufreq_path cpu ''scaling_min_freq'') = Some f"
proof (induction cpus arbitrary: fs)
  case (Cons c cpus)
  define fs1 where "fs1 = (case sf_files fs (cpufreq_path c ''scaling_max_freq'') of None \<Rightarrow> fs
    | Some text \<Rightarrow> (case fgets_first 32 text of None \<Rightarrow> fs
        | Some mf \<Rightarrow> try_write (cpufreq_path c ''scaling_min_freq'') mf fs))"
  have step: "pin_loop (c # cpus) fs = pin_loop cpus fs1" by (simp add: fs1_def)
  have keep: "sf_files fs1 (cpufreq_path cpu ''scaling_max_freq'') = Some text"
    "sf_writable fs1 (cpufreq_path cpu ''scaling_min_freq'')"
    using Cons.prems by (auto simp: fs1_def split: option.split)
  show ?case
  proof (cases "cpu \<in> set cpus")
    case True
    then show ?thesis unfolding step using Cons.IH [OF True keep(1) Cons.prems(3) keep(2)] by simp
  next
    case False
    then have c: "c = cpu" using Cons.prems(1) by simp
    have "sf_files (pin_loop cpus fs1) (cpufreq_path cpu ''scaling_min_freq'') =
        sf_files fs1 (cpufreq_path cpu ''scaling_min_freq'')"
      using False by (intro pin_loop_other) auto
    then show ?thesis unfolding step using Cons.prems(2-4) by (simp add: fs1_def c)
  qed
qed simp

lemma restore_loop_writable [simp]: "sf_writable (restore_loop cpus saved fs) = sf_writable fs"
  by (induction cpus arbitrary: fs) auto

lemma restore_loop_other:
  "\<forall>c \<in> set cpus. p \<noteq> governor_path c \<Longrightarrow> sf_files (restore_loop cpus saved fs) p = sf_files fs p"
  by (induction cpus arbitrary: fs) auto

lemma restore_loop_written:
  "distinct cpus \<Longrightarrow> c \<in> set cpus \<Longrightarrow> saved ! c \<noteq> [] \<Longrightarrow> sf_writable fs (governor_path c) \<Longrightarrow>
   sf_files (restore_loop cpus saved fs) (governor_path c) = Some (saved ! c @ [CHR 0x0A])"
proof (induction cpus arbitrary: fs)
  case (Cons cpu cpus)
  show ?case
  proof (cases "c = cpu")
    case True
    then have "\<forall>d \<in> set cpus. governor_path c \<noteq> governor_path d" using Cons.prems(1) by auto
    then show ?thesis using Cons.prems True by (simp add: restore_loop_other)
  next
    case False
    then show ?thesis using Cons by simp
  qed
qed simp

lemma locked_prefix: "locked_cpus fs [0..<n] = [0..<length (locked_cpus fs [0..<n])]"
proof -
  have "length (locked_cpus fs [0..<n]) \<le> n"
    unfolding locked_cpus_def by (metis length_takeWhile_le length_upt diff_zero)
  then show ?thesis
    by (metis locked_cpus_def takeWhile_eq_take take_upt add_0)
qed

lemma lock_cpus_bound: "lock_cpus conf \<le> 4096"
  by (auto simp: lock_cpus_def)

lemma read_governor_name:
  "sf_files fs (governor_path c) = Some (nm @ [CHR 0x0A]) \<Longrightarrow> CHR 0x0A \<notin> set nm \<Longrightarrow> length nm < 31 \<Longrightarrow>
   read_governor fs c = nm"
  using fgets_first_line [of nm 32 "[]"] by (simp add: read_governor_def)

text \<open>The contents of a governor file the kernel shows: one word and a newline.\<close>

definition governor_shown :: "sysfs \<Rightarrow> nat \<Rightarrow> bool" where
  "governor_shown fs c \<longleftrightarrow> (\<exists>nm. sf_files fs (governor_path c) = Some (nm @ [CHR 0x0A]) \<and>
     nm \<noteq> [] \<and> CHR 0x0A \<notin> set nm \<and> length nm < 31)"

text \<open>
  C31. Locking, then restoring: in between, every CPU before the first one whose governor cannot be written has the performance
  governor; afterwards every governor file has its old contents again. But the minimum frequency of
  every CPU stays raised to its maximum: nothing restores it.
\<close>

theorem frequency_lock_restore:
  assumes "length (saved_governors g) = 4096"
    and "\<forall>c < lock_cpus conf. sf_writable fs (governor_path c) \<longrightarrow> governor_shown fs c"
    and "system_lock_frequency conf g fs = (r1, g1, fs1)" "system_restore_frequency g1 fs1 = (r2, g2, fs2)"
  shows "r1 = 0 \<and> r2 = 0 \<and> saved_governor_count g2 = 0 \<and>
    (\<forall>c \<in> set (locked_cpus fs [0..<lock_cpus conf]). sf_files fs1 (governor_path c) = Some performance) \<and>
    (\<forall>c. sf_files fs2 (governor_path c) = sf_files fs (governor_path c)) \<and>
    (\<forall>c t f. c < lock_cpus conf \<longrightarrow> sf_files fs (cpufreq_path c ''scaling_max_freq'') = Some t \<longrightarrow>
       fgets_first 32 t = Some f \<longrightarrow> sf_writable fs (cpufreq_path c ''scaling_min_freq'') \<longrightarrow>
       sf_files fs2 (cpufreq_path c ''scaling_min_freq'') = Some f)"
proof -
  let ?n = "lock_cpus conf"
  define ks where "ks = locked_cpus fs [0..<?n]"
  obtain g' fs' where sv: "save_loop [0..<?n] (g\<lparr>saved_governor_count := 0\<rparr>) fs = (g', fs')" by fastforce
  then have r: "r1 = 0" "g1 = g'" "fs1 = pin_loop [0..<?n] fs'"
    using assms(3) by (simp_all add: system_lock_frequency_def)
  note spec = save_loop_spec [OF distinct_upt sv, folded ks_def]
  have ks: "ks = [0..<length ks]" unfolding ks_def by (rule locked_prefix)
  have ksn: "c < ?n \<and> c < 4096 \<and> sf_writable fs (governor_path c)" if "c \<in> set ks" for c
    using that lock_cpus_bound [of conf] by (auto simp: ks_def locked_cpus_def dest: set_takeWhileD)
  have cnt: "saved_governor_count g1 = length ks" using spec r by simp
  have gp: "sf_files fs1 (governor_path c) = sf_files fs' (governor_path c)" for c
    unfolding r by (rule pin_loop_other) (simp add: governor_path_def)
  have fs2: "r2 = 0" "saved_governor_count g2 = 0" "fs2 = restore_loop ks (saved_governors g1) fs1"
    using assms(4) ks cnt by (auto simp: system_restore_frequency_def)
  have w1: "sf_writable fs1 = sf_writable fs" using spec by (simp add: r)
  have gov: "sf_files fs2 (governor_path c) = sf_files fs (governor_path c)" for c
  proof (cases "c \<in> set ks")
    case True
    obtain nm where nm: "sf_files fs (governor_path c) = Some (nm @ [CHR 0x0A])" "nm \<noteq> []" "CHR 0x0A \<notin> set nm"
      "length nm < 31"
      using assms(2) ksn [OF True] by (auto simp: governor_shown_def)
    then have rd: "read_governor fs c = nm" by (intro read_governor_name)
    then have "saved_governors g1 ! c = nm" using spec True ksn [OF True] assms(1) nm r by simp
    moreover have "sf_files fs2 (governor_path c) = Some (saved_governors g1 ! c @ [CHR 0x0A])"
      unfolding fs2 by (rule restore_loop_written)
        (use True ks ksn [OF True] nm calculation w1 in \<open>auto simp: distinct_upt\<close>, metis distinct_upt)
    ultimately show ?thesis using nm by simp
  next
    case False
    then have "sf_files fs2 (governor_path c) = sf_files fs1 (governor_path c)"
      unfolding fs2 by (intro restore_loop_other) auto
    then show ?thesis using spec gp [of c] False by auto
  qed
  have perf: "sf_files fs1 (governor_path c) = Some performance" if "c \<in> set ks" for c
    using spec gp [of c] that by auto
  have mins: "sf_files fs2 (cpufreq_path c ''scaling_min_freq'') = Some f"
    if h: "c < ?n" "sf_files fs (cpufreq_path c ''scaling_max_freq'') = Some t" "fgets_first 32 t = Some f"
      "sf_writable fs (cpufreq_path c ''scaling_min_freq'')" for c t f
  proof -
    have "sf_files fs' (cpufreq_path c ''scaling_max_freq'') = Some t"
      using spec h(2) by (auto simp: governor_path_def)
    then have "sf_files fs1 (cpufreq_path c ''scaling_min_freq'') = Some f"
      unfolding r using h spec by (intro pin_loop_pins [of _ _ _ t]) auto
    moreover have "sf_files fs2 (cpufreq_path c ''scaling_min_freq'') = sf_files fs1 (cpufreq_path c ''scaling_min_freq'')"
      unfolding fs2 by (rule restore_loop_other) (simp add: governor_path_def)
    ultimately show ?thesis by simp
  qed
  show ?thesis unfolding ks_def [symmetric] using r(1) fs2(1,2) gov perf mins by blast
qed

text \<open>One CPU with the powersave governor.\<close>

definition one_cpu :: sysfs where
  "one_cpu = \<lparr>sf_files = [governor_path 0 \<mapsto> ''powersave'' @ [CHR 0x0A]], sf_writable = (\<lambda>p. p = governor_path 0)\<rparr>"

lemma frequency_lock_restore_witness:
  "\<exists>g1 fs1 g2 fs2. system_lock_frequency 1 governors_init one_cpu = (0, g1, fs1) \<and>
     sf_files fs1 (governor_path 0) = Some performance \<and> system_restore_frequency g1 fs1 = (0, g2, fs2) \<and>
     sf_files fs2 (governor_path 0) = Some (''powersave'' @ [CHR 0x0A])"
proof -
  obtain r1 g1 fs1 where l: "system_lock_frequency 1 governors_init one_cpu = (r1, g1, fs1)" by (rule prod_cases3)
  obtain r2 g2 fs2 where s: "system_restore_frequency g1 fs1 = (r2, g2, fs2)" by (rule prod_cases3)
  have len: "length (saved_governors governors_init) = 4096" by (simp add: governors_init_def)
  have ok: "\<forall>c < lock_cpus 1. sf_writable one_cpu (governor_path c) \<longrightarrow> governor_shown one_cpu c"
    by (auto simp: one_cpu_def governor_shown_def intro!: exI [of _ "''powersave''"])
  have "locked_cpus one_cpu [0..<lock_cpus 1] = [0]"
    by (simp add: locked_cpus_def lock_cpus_def one_cpu_def)
  then show ?thesis
    using frequency_lock_restore [OF len ok l s] l s by (auto simp: one_cpu_def)
qed

subsection \<open>Readings\<close>

text \<open>The number of temperature zones that could be read and the array so far; entry \<open>i\<close> of \<open>freqs\<close> belongs to CPU \<open>i\<close>,
  the temperatures are packed.\<close>

definition zone_path :: "nat \<Rightarrow> string" where
  "zone_path i = ''/sys/class/thermal/thermal_zone'' @ dec i @ ''/temp''"

definition milli :: "(string \<Rightarrow> string option) \<Rightarrow> string \<Rightarrow> real option" where
  "milli files path =
     (case system_read_proc_int files path of
        (r, Some v) \<Rightarrow> if r = 0 then Some (real_of_int v / 1000) else None
      | (r, None) \<Rightarrow> None)"

definition system_get_frequencies :: "(string \<Rightarrow> string option) \<Rightarrow> int \<Rightarrow> int \<times> real list" where
  "system_get_frequencies files max_cpus =
     (0, map (\<lambda>i. case milli files (cpufreq_path i ''scaling_cur_freq'') of Some f \<Rightarrow> f | None \<Rightarrow> 0) [0..<nat max_cpus])"

fun zone_loop :: "(string \<Rightarrow> string option) \<Rightarrow> nat list \<Rightarrow> real list \<Rightarrow> real list" where
  "zone_loop files [] temps = temps"
| "zone_loop files (i # is) temps =
     zone_loop files is (case milli files (zone_path i) of Some t \<Rightarrow> temps @ [t] | None \<Rightarrow> temps)"

definition system_get_temperatures :: "(string \<Rightarrow> string option) \<Rightarrow> int \<Rightarrow> int \<times> real list" where
  "system_get_temperatures files max_zones =
     (let temps = zone_loop files [0..<nat max_zones] [] in (int (length temps), temps))"

lemma zone_loop_eq: "zone_loop files is temps = temps @ List.map_filter (\<lambda>i. milli files (zone_path i)) is"
  by (induction "is" arbitrary: temps) (auto simp: map_filter_simps split: option.split)

lemma temperatures_packed:
  "snd (system_get_temperatures files n) = List.map_filter (\<lambda>i. milli files (zone_path i)) [0..<nat n]"
  by (simp add: system_get_temperatures_def zone_loop_eq Let_def)

definition system_isolate_cpus :: "int \<Rightarrow> int" where
  "system_isolate_cpus housekeeping_cpu = 0"

end
