(* ===== verification/Hex.thy ===== *)
theory Hex
  imports CStr
begin

text \<open>
  Hexadecimal text: \<^verbatim>\<open>%0kx\<close> as \<^verbatim>\<open>src/core/output.c\<close> prints it and \<^verbatim>\<open>strtoul(s, NULL, 16)\<close> as
  \<^verbatim>\<open>src/core/system.c\<close> reads it.
\<close>

definition hex_char :: "nat \<Rightarrow> char" where
  "hex_char d = char_of (if d < 10 then 48 + d else 87 + d)"

text \<open>\<open>k\<close> digits with leading zeros, the text of \<^verbatim>\<open>%0kx\<close> for a number below \<open>16 ^ k\<close>.\<close>

fun hexn :: "nat \<Rightarrow> nat \<Rightarrow> string" where
  "hexn 0 n = []"
| "hexn (Suc k) n = hexn k (n div 16) @ [hex_char (n mod 16)]"

definition hex_val :: "char \<Rightarrow> nat option" where
  "hex_val c =
     (if 48 \<le> code c \<and> code c \<le> 57 then Some (code c - 48)
      else if 97 \<le> code c \<and> code c \<le> 102 then Some (code c - 87)
      else if 65 \<le> code c \<and> code c \<le> 70 then Some (code c - 55)
      else None)"

fun hex_digits :: "nat \<Rightarrow> string \<Rightarrow> nat" where
  "hex_digits acc [] = acc"
| "hex_digits acc (c # cs) = (case hex_val c of None \<Rightarrow> acc | Some d \<Rightarrow> hex_digits (16 * acc + d) cs)"

text \<open>A prefix \<^verbatim>\<open>0x\<close> counts only when a digit follows.\<close>

definition skip_0x :: "string \<Rightarrow> string" where
  "skip_0x s =
     (case s of
        a # x # d # cs \<Rightarrow>
          if a = CHR ''0'' \<and> (x = CHR ''x'' \<or> x = CHR ''X'') \<and> hex_val d \<noteq> None then d # cs else s
      | _ \<Rightarrow> s)"

definition strtoul16 :: "string \<Rightarrow> 64 word" where
  "strtoul16 s =
     (let s = dropWhile isspace s;
          neg = (s \<noteq> [] \<and> hd s = CHR ''-'');
          s = (if s \<noteq> [] \<and> (hd s = CHR ''-'' \<or> hd s = CHR ''+'') then tl s else s);
          v = hex_digits 0 (skip_0x s)
      in if v \<ge> 2 ^ 64 then - 1 else if neg then - of_nat v else of_nat v)"

lemma hex_char_val [simp]: "d < 16 \<Longrightarrow> hex_val (hex_char d) = Some d"
  by (auto simp: hex_char_def hex_val_def)

lemma length_hexn [simp]: "length (hexn k n) = k"
  by (induction k arbitrary: n) auto

lemma hex_digits_append:
  "\<forall>c \<in> set ds. hex_val c \<noteq> None \<Longrightarrow>
   hex_digits acc (ds @ s) = hex_digits (foldl (\<lambda>a c. 16 * a + the (hex_val c)) acc ds) s"
  by (induction ds arbitrary: acc) auto

lemma hexn_digits: "\<forall>c \<in> set (hexn k n). hex_val c \<noteq> None"
  by (induction k arbitrary: n) auto

lemma foldl_hexn: "foldl (\<lambda>a c. 16 * a + the (hex_val c)) acc (hexn k n) = 16 ^ k * acc + n mod 16 ^ k"
proof (induction k arbitrary: n)
  case (Suc k)
  have "n mod 16 ^ Suc k = 16 * (n div 16 mod 16 ^ k) + n mod 16"
    by (simp add: mod_mult2_eq mult.commute)
  then show ?case using Suc by simp
qed simp

lemma hex_digit_plain:
  "hex_val c \<noteq> None \<Longrightarrow> \<not> isspace c \<and> c \<noteq> CHR ''-'' \<and> c \<noteq> CHR ''+'' \<and> c \<noteq> CHR ''x'' \<and> c \<noteq> CHR ''X'' \<and> c \<noteq> CHR '',''"
  by (auto simp: hex_val_def isspace_def split: if_splits)

text \<open>What is printed is read back.\<close>

lemma strtoul16_hexn:
  assumes "0 < k" "k \<le> 16" "n < 16 ^ k"
  shows "strtoul16 (hexn k n) = of_nat n"
proof -
  obtain c cs where c: "hexn k n = c # cs" using assms(1) length_hexn [of k n] by (cases "hexn k n") auto
  then have v: "hex_val c \<noteq> None" "\<forall>d \<in> set cs. hex_val d \<noteq> None" using hexn_digits [of k n] by auto
  have no_x: "skip_0x (c # cs) = c # cs"
    using v hex_digit_plain by (auto simp: skip_0x_def split: list.split)
  have val: "hex_digits 0 (c # cs) = n"
    using hex_digits_append [of "hexn k n" 0 "[]"] hexn_digits [of k n] foldl_hexn [of 0 k n] assms(3) c by simp
  have "(16 :: nat) ^ k \<le> 16 ^ 16" using assms(2) by (intro power_increasing) simp_all
  then have lt: "n < 2 ^ 64" using assms(3) by simp
  show ?thesis
    using hex_digit_plain [OF v(1)] lt by (simp add: strtoul16_def c no_x val Let_def del: hex_digits.simps)
qed

lemma hexn_inject:
  assumes "a < 16 ^ k" "b < 16 ^ k" "hexn k a = hexn k b"
  shows "a = b"
proof -
  have "16 ^ k * 0 + a mod 16 ^ k = 16 ^ k * 0 + b mod 16 ^ k"
    using assms(3) foldl_hexn [of 0 k a] foldl_hexn [of 0 k b] by metis
  with assms(1,2) show ?thesis by simp
qed

text \<open>Setting a bit above a masked value adds it.\<close>

lemma or_power:
  fixes x :: "'a::len word"
  assumes "k \<le> j" "j < LENGTH('a)"
  shows "unat (take_bit k x OR 2 ^ j) = unat x mod 2 ^ k + 2 ^ j"
proof -
  have "take_bit k x AND 2 ^ j = 0"
    using assms by (intro bit_eqI) (auto simp: bit_and_iff bit_take_bit_iff bit_exp_iff)
  then have "take_bit k x OR 2 ^ j = take_bit k x + 2 ^ j" by (simp add: disjunctive_add_eq_or)
  moreover have t: "unat (take_bit k x) = unat x mod 2 ^ k" by (simp only: unsigned_take_bit_eq) (simp add: take_bit_eq_mod)
  moreover have p: "unat (2 ^ j :: 'a word) = 2 ^ j" 
  proof -
    have "unat (of_nat (2 ^ j) :: 'a word) = 2 ^ j mod 2 ^ LENGTH('a)" by (simp only: unat_of_nat)
    also have "\<dots> = 2 ^ j" using assms(2) by (intro mod_less power_strict_increasing) simp_all
    finally show ?thesis by simp
  qed
  moreover have "unat x mod 2 ^ k + 2 ^ j < 2 ^ LENGTH('a)"
  proof -
    have "unat x mod 2 ^ k < 2 ^ k" by simp
    also have "(2 :: nat) ^ k \<le> 2 ^ j" using assms(1) by (intro power_increasing) simp_all
    finally have "unat x mod 2 ^ k + 2 ^ j < 2 ^ Suc j" by simp
    also have "(2 :: nat) ^ Suc j \<le> 2 ^ LENGTH('a)" using assms(2) by (intro power_increasing) simp_all
    finally show ?thesis .
  qed
  ultimately show ?thesis by (simp add: unat_word_ariths)
qed

end
