(* ===== verification/SysTopo.thy ===== *)
theory SysTopo
  imports SysFile Hex MemPolicy "HOL-Library.Signed_Division"
begin

text \<open>
  The topology part of \<open>system_probe\<close> (\<^verbatim>\<open>src/core/system.c\<close>): NUMA nodes with their CPU counts, memory and
  distances, and the caches, as they are read from \<^verbatim>\<open>/sys\<close>.
\<close>

text \<open>\<open>pe_exists\<close> and \<open>pe_readable\<close> answer \<^verbatim>\<open>access\<close> with \<^verbatim>\<open>F_OK\<close> and \<^verbatim>\<open>R_OK\<close>, \<open>pe_mem k\<close> tells whether the
  allocation numbered \<open>k\<close> below succeeds; the rest are the \<^verbatim>\<open>sysconf\<close> values.\<close>

record probe_env =
  pe_files :: "string \<Rightarrow> string option"
  pe_exists :: "string \<Rightarrow> bool"
  pe_readable :: "string \<Rightarrow> bool"
  pe_mem :: "nat \<Rightarrow> bool"
  pe_pagesize :: int
  pe_online :: int
  pe_conf :: int
  pe_phys_pages :: int

definition node_path :: "nat \<Rightarrow> string \<Rightarrow> string" where
  "node_path ni leaf = ''/sys/devices/system/node/node'' @ dec ni @ leaf"

definition cache_path :: "nat \<Rightarrow> string \<Rightarrow> string" where
  "cache_path i leaf = ''/sys/devices/system/cpu/cpu0/cache/index'' @ dec i @ leaf"

text \<open>Counting from 0 until the first index that is missing.\<close>

fun probe_count :: "(nat \<Rightarrow> bool) \<Rightarrow> nat list \<Rightarrow> nat \<Rightarrow> nat" where
  "probe_count present [] found = found"
| "probe_count present (i # is) found = (if present i then probe_count present is (i + 1) else found)"

subsection \<open>CPUs of a node\<close>

definition popcount32 :: "64 word \<Rightarrow> nat" where
  "popcount32 v = foldl (\<lambda>cnt b. if v AND push_bit b 1 \<noteq> 0 then cnt + 1 else cnt) 0 [0..<32]"

definition is_cr_nl :: "char \<Rightarrow> bool" where
  "is_cr_nl c \<longleftrightarrow> c = CHR 0x0A \<or> c = CHR 0x0D"

definition cpumap_count :: "string \<Rightarrow> nat option" where
  "cpumap_count text =
     (case fgets_first 1024 text of
        None \<Rightarrow> None
      | Some cmap \<Rightarrow>
          Some (foldl (\<lambda>cnt tok. cnt + popcount32 (strtoul16 tok)) 0
                  (strtok_all (CHR '','') (rev (dropWhile is_cr_nl (rev cmap))))))"

subsection \<open>Memory and distances\<close>

definition starts_with :: "string \<Rightarrow> string \<Rightarrow> bool" where
  "starts_with p s \<longleftrightarrow> take (length p) s = p"

text \<open>\<^verbatim>\<open>strtoull(v, NULL, 10)\<close> as an unsigned 64-bit number.\<close>

definition strtoull10 :: "string \<Rightarrow> nat" where
  "strtoull10 s =
     (case scan_int s of
        None \<Rightarrow> 0
      | Some (v, _) \<Rightarrow> if \<bar>v\<bar> > 2 ^ 64 - 1 then 2 ^ 64 - 1 else nat (v mod 2 ^ 64))"

fun mem_total :: "string list \<Rightarrow> nat" where
  "mem_total [] = 0"
| "mem_total (mline # ls) =
     (if starts_with ''MemTotal:'' mline then strtoull10 (skip_blanks (drop 9 mline)) else mem_total ls)"

text \<open>\<^verbatim>\<open>strtok\<close> with a set of delimiters, as \<open>strtok_all\<close> on the text with all of them made equal.\<close>

definition strtok_set :: "string \<Rightarrow> string \<Rightarrow> string list" where
  "strtok_set ds s = (case ds of [] \<Rightarrow> (if s = [] then [] else [s])
     | d # _ \<Rightarrow> strtok_all d (map (\<lambda>c. if c \<in> set ds then d else c) s))"

definition read_distances :: "string \<Rightarrow> int list" where
  "read_distances text =
     (case fgets_first 256 text of
        None \<Rightarrow> replicate 16 0
      | Some dline \<Rightarrow>
          let ds = map atoi (take 16 (strtok_set ('' '' @ [CHR 0x09, CHR 0x0A]) dline))
          in ds @ replicate (16 - length ds) 0)"

text \<open>Without a distance file, entry \<open>dj\<close> is set for every node \<open>dj\<close>; the array has 16 places.\<close>

definition default_distances :: "nat \<Rightarrow> nat \<Rightarrow> int list outcome" where
  "default_distances max_nodes ni =
     (if max_nodes > 16 then Undef OobWrite
      else Ret (map (\<lambda>dj. if dj = ni then 10 else 20) [0..<max_nodes] @ replicate (16 - max_nodes) 0))"

definition probe_node :: "probe_env \<Rightarrow> nat \<Rightarrow> nat \<Rightarrow> numa_node_t outcome" where
  "probe_node e max_nodes ni =
     (let cpus = (case pe_files e (node_path ni ''/cpumap'') of
                    None \<Rightarrow> 0
                  | Some text \<Rightarrow> (case cpumap_count text of None \<Rightarrow> 0 | Some n \<Rightarrow> n));
          kb = (case pe_files e (node_path ni ''/meminfo'') of
                  None \<Rightarrow> 0
                | Some text \<Rightarrow> mem_total (fgets_all 128 text))
      in out_bind (case pe_files e (node_path ni ''/distance'') of
                     Some text \<Rightarrow> Ret (read_distances text)
                   | None \<Rightarrow> default_distances max_nodes ni)
           (\<lambda>dist. Ret \<lparr>nd_id = int ni, nd_cpu_count = int cpus, nd_cpu_list = [], nd_memory_kb = kb,
              nd_distance = dist\<rparr>))"

fun probe_node_loop :: "probe_env \<Rightarrow> nat \<Rightarrow> nat list \<Rightarrow> numa_node_t list outcome" where
  "probe_node_loop e max_nodes [] = Ret []"
| "probe_node_loop e max_nodes (ni # ns) =
     out_bind (probe_node e max_nodes ni)
       (\<lambda>nd. out_bind (probe_node_loop e max_nodes ns) (\<lambda>nds. Ret (nd # nds)))"

text \<open>The count and the array (\<open>None\<close>: null pointer), with the fallback of a single node. \<open>pe_mem 1\<close> is the
  array, \<open>pe_mem 2\<close> the one of the fallback.\<close>

definition probe_numa :: "probe_env \<Rightarrow> int \<Rightarrow> nat \<Rightarrow> (int \<times> numa_node_t list option) outcome" where
  "probe_numa e threads total_ram_kb =
     (let max_nodes = probe_count (\<lambda>ni. pe_exists e (node_path ni [])) [0..<64] 0
      in if max_nodes > 0 \<and> pe_mem e 1
         then out_bind (probe_node_loop e max_nodes [0..<max_nodes]) (\<lambda>nds. Ret (int max_nodes, Some nds))
         else if pe_mem e 2
         then Ret (1, Some [\<lparr>nd_id = 0, nd_cpu_count = threads, nd_cpu_list = [], nd_memory_kb = total_ram_kb,
                nd_distance = 10 # replicate 15 0\<rparr>])
         else Ret (1, None))"

subsection \<open>Caches\<close>

text \<open>\<open>ci_type\<close> is \<open>None\<close> while the pointer is null.\<close>

record cache_info_t =
  ci_level :: int
  ci_type :: "string option"
  ci_size_kb :: nat
  ci_line_size :: int
  ci_associativity :: int

definition contains :: "string \<Rightarrow> string \<Rightarrow> bool" where
  "contains hay needle \<longleftrightarrow> list_ex (\<lambda>i. starts_with needle (drop i hay)) [0..<Suc (length hay)]"

definition read_field :: "probe_env \<Rightarrow> nat \<Rightarrow> string \<Rightarrow> int option" where
  "read_field e i leaf = snd (system_read_proc_int (pe_files e) (cache_path i leaf))"

text \<open>\<open>(int)(num / 1024)\<close>, converted to \<^verbatim>\<open>size_t\<close>.\<close>

definition size_kb_of :: "int \<Rightarrow> nat" where
  "size_kb_of num = nat (c_int (num sdiv 1024) mod 2 ^ 64)"

definition probe_cache :: "probe_env \<Rightarrow> nat \<Rightarrow> cache_info_t" where
  "probe_cache e i =
     \<lparr>ci_level = (case read_field e i ''/level'' of Some v \<Rightarrow> c_int v | None \<Rightarrow> 0),
      ci_type = (case system_read_proc_str (pe_files e) (cache_path i ''/type'') 64 of
                   (r, Some val) \<Rightarrow> Some (if contains val ''Data'' then ''data''
                     else if contains val ''Instruction'' then ''instruction'' else ''unified'')
                 | (r, None) \<Rightarrow> None),
      ci_size_kb = (case read_field e i ''/size'' of Some v \<Rightarrow> size_kb_of v | None \<Rightarrow> 0),
      ci_line_size = (case read_field e i ''/coherency_line_size'' of Some v \<Rightarrow> c_int v | None \<Rightarrow> 0),
      ci_associativity = (case read_field e i ''/ways_of_associativity'' of Some v \<Rightarrow> c_int v | None \<Rightarrow> 0)\<rparr>"

definition default_caches :: "cache_info_t list" where
  "default_caches =
     [\<lparr>ci_level = 1, ci_type = Some ''data'', ci_size_kb = 32, ci_line_size = 64, ci_associativity = 8\<rparr>,
      \<lparr>ci_level = 2, ci_type = Some ''unified'', ci_size_kb = 1024, ci_line_size = 64, ci_associativity = 16\<rparr>,
      \<lparr>ci_level = 3, ci_type = Some ''unified'', ci_size_kb = 32768, ci_line_size = 64, ci_associativity = 16\<rparr>]"

text \<open>\<open>pe_mem 3\<close> is the array of the caches found, \<open>pe_mem 4\<close> the array of the defaults, which is written
  without a check.\<close>

definition probe_caches :: "probe_env \<Rightarrow> (int \<times> cache_info_t list) outcome" where
  "probe_caches e =
     (let idx = probe_count (\<lambda>i. pe_readable e (cache_path i ''/type'')) [0..<8] 0
      in if idx > 0 \<and> pe_mem e 3 then Ret (int idx, map (probe_cache e) [0..<idx])
         else if pe_mem e 4 then Ret (3, default_caches)
         else Undef NullDeref)"

subsection \<open>What the counting finds\<close>

lemma probe_count_eq:
  "probe_count present [i..<n] i = i + length (takeWhile present [i..<n])"
proof (induction "n - i" arbitrary: i)
  case (Suc k)
  then have u: "[i..<n] = i # [Suc i..<n]" by (simp add: upt_conv_Cons)
  show ?case using Suc.hyps(1) [of "Suc i"] Suc.hyps(2) by (simp add: u)
qed simp

lemma probe_count_spec:
  "probe_count present [0..<n] 0 \<le> n \<and> (\<forall>i < probe_count present [0..<n] 0. present i) \<and>
   (probe_count present [0..<n] 0 < n \<longrightarrow> \<not> present (probe_count present [0..<n] 0))"
proof -
  let ?t = "takeWhile present [0..<n]"
  have len: "length ?t \<le> n" by (metis length_takeWhile_le length_upt diff_zero)
  have "present i" if "i < length ?t" for i
    using that len nth_mem [of i ?t] takeWhile_nth [of i present "[0..<n]"] by (auto dest: set_takeWhileD)
  moreover have "\<not> present (length ?t)" if "length ?t < n"
    using nth_length_takeWhile [of present "[0..<n]"] that by simp
  ultimately show ?thesis using probe_count_eq [of present 0 n] len by simp
qed

subsection \<open>The CPU map read back\<close>

definition print_cpumap :: "nat list \<Rightarrow> string" where
  "print_cpumap ws = join_with (CHR '','') (map (hexn 8) ws) @ [CHR 0x0A]"

lemma popcount32_eq: "popcount32 v = length (filter (\<lambda>b. bit v b) [0..<32])"
proof -
  have "v AND push_bit b 1 \<noteq> 0 \<longleftrightarrow> bit v b" if "b < 32" for b
    using that by (simp add: and_exp_eq_0_iff_not_bit push_bit_eq_mult)
  then have "foldl (\<lambda>cnt b. if v AND push_bit b 1 \<noteq> 0 then cnt + 1 else cnt) a bs =
      a + length (filter (\<lambda>b. bit v b) bs)" if "set bs \<subseteq> {..<32}" for a bs
    using that by (induction bs arbitrary: a) auto
  from this [of "[0..<32]" 0] show ?thesis unfolding popcount32_def by (simp add: subset_eq)
qed

lemma join_chars: "c \<in> set (join_with d ts) \<Longrightarrow> c = d \<or> (\<exists>t \<in> set ts. c \<in> set t)"
  by (induction d ts rule: join_with.induct) auto

lemma join_length: "length (join_with d ts) \<le> sum_list (map (\<lambda>t. length t + 1) ts)"
  by (induction d ts rule: join_with.induct) auto

lemma join_last: "ts \<noteq> [] \<Longrightarrow> last ts \<noteq> [] \<Longrightarrow> join_with d ts \<noteq> [] \<and> last (join_with d ts) = last (last ts)"
  by (induction d ts rule: join_with.induct) auto

lemma hexn_char: "c \<in> set (hexn k n) \<Longrightarrow> \<not> isspace c \<and> c \<noteq> CHR '',''"
  using hexn_digits [of k n] hex_digit_plain [of c] by blast

lemma cr_nl_space: "is_cr_nl c \<Longrightarrow> isspace c"
  by (auto simp: is_cr_nl_def isspace_def)

text \<open>
  The CPU map: for a node whose map the kernel prints as up to 113 comma-separated groups of 32
  bits, the count is the number of set bits of all groups.
\<close>

theorem cpumap_roundtrip:
  assumes "ws \<noteq> []" "length ws \<le> 113" "\<forall>v \<in> set ws. v < 2 ^ 32"
  shows "cpumap_count (print_cpumap ws) =
    Some (\<Sum>v \<leftarrow> ws. card {b. b < 32 \<and> bit (of_nat v :: 64 word) b})"
proof -
  let ?j = "join_with (CHR '','') (map (hexn 8) ws)"
  have chars: "\<not> is_cr_nl c \<and> c \<noteq> CHR 0x0A" if "c \<in> set ?j" for c
  proof -
    have "c = CHR '','' \<or> \<not> isspace c" using join_chars [OF that] hexn_char by auto
    then show ?thesis using cr_nl_space [of c] by (auto simp: isspace_def)
  qed
  have "length ?j \<le> sum_list (map (\<lambda>t. length t + 1) (map (hexn 8) ws))" by (rule join_length)
  also have "\<dots> = 9 * length ws" by (simp add: comp_def sum_list_triv)
  finally have "length ?j < 1024 - 1" using assms(2) by simp
  then have line: "fgets_first 1024 (print_cpumap ws) = Some (?j @ [CHR 0x0A])"
    unfolding print_cpumap_def using fgets_first_line [of ?j 1024 "[]"] chars by blast
  have "?j \<noteq> [] \<and> last ?j = last (last (map (hexn 8) ws))"
    using assms(1) length_hexn [of 8 "last ws"] by (intro join_last) (auto simp: last_map simp del: length_hexn)
  then have "dropWhile is_cr_nl (rev ?j) = rev ?j"
    using chars by (metis dropWhile.simps(2) last_in_set last_snoc rev_exhaust rev.simps(2) rev_rev_ident)
  then have strip: "rev (dropWhile is_cr_nl (rev (?j @ [CHR 0x0A]))) = ?j" by (simp add: is_cr_nl_def)
  have toks: "strtok_all (CHR '','') ?j = map (hexn 8) ws"
    using hexn_char length_hexn [of 8] by (intro strtok_join) (auto simp del: length_hexn, metis length_0_conv numeral_eq_iff zero_neq_numeral length_hexn)
  have pop: "popcount32 (strtoul16 (hexn 8 v)) = card {b. b < 32 \<and> bit (of_nat v :: 64 word) b}" if "v \<in> set ws" for v
  proof -
    have "strtoul16 (hexn 8 v) = of_nat v" using assms(3) that by (intro strtoul16_hexn) auto
    moreover have "card {b. b < 32 \<and> bit (of_nat v :: 64 word) b} =
        length (filter (\<lambda>b. bit (of_nat v :: 64 word) b) [0..<32])"
      by (subst distinct_card [symmetric]) (auto intro: arg_cong [where f = card])
    ultimately show ?thesis by (simp add: popcount32_eq)
  qed
  have "foldl (\<lambda>cnt tok. cnt + popcount32 (strtoul16 tok)) a (map (hexn 8) vs) =
      a + (\<Sum>v \<leftarrow> vs. card {b. b < 32 \<and> bit (of_nat v :: 64 word) b})" if "set vs \<subseteq> set ws" for a vs
    using that pop by (induction vs arbitrary: a) auto
  then show ?thesis unfolding cpumap_count_def line option.case strip toks by simp
qed

lemma cpumap_roundtrip_witness: "cpumap_count (print_cpumap [3, 65535]) = Some 18"
proof -
  have "(\<Sum>v \<leftarrow> [3, 65535]. card {b. b < 32 \<and> bit (of_nat v :: 64 word) b}) = 18"
  proof -
    have c: "card {b. b < 32 \<and> bit (of_nat v :: 64 word) b} = popcount32 (of_nat v)" for v
      unfolding popcount32_eq by (subst distinct_card [symmetric]) (auto intro: arg_cong [where f = card])
    have "popcount32 3 = 2" "popcount32 65535 = 16" by code_simp+
    then show ?thesis by (simp add: c)
  qed
  then show ?thesis using cpumap_roundtrip [of "[3, 65535]"] by simp
qed

subsection \<open>Shape of the result\<close>

lemma read_distances_length: "length (read_distances text) = 16"
  by (simp add: read_distances_def Let_def split: option.split)

lemma default_distances_length: "default_distances n ni = Ret ds \<Longrightarrow> length ds = 16"
  by (auto simp: default_distances_def split: if_splits)

lemma probe_node_ok:
  assumes "n \<le> 16 \<or> pe_files e (node_path ni ''/distance'') \<noteq> None"
  shows "\<exists>nd. probe_node e n ni = Ret nd \<and> nd_id nd = int ni \<and> length (nd_distance nd) = 16"
proof (cases "pe_files e (node_path ni ''/distance'')")
  case None
  then show ?thesis using assms by (simp add: probe_node_def Let_def default_distances_def)
next
  case (Some t)
  then show ?thesis by (simp add: probe_node_def Let_def read_distances_length)
qed

lemma probe_node_bad:
  "16 < n \<Longrightarrow> pe_files e (node_path ni ''/distance'') = None \<Longrightarrow> probe_node e n ni = Undef OobWrite"
  by (simp add: probe_node_def Let_def default_distances_def)

lemma probe_node_loop_ok:
  "\<forall>ni \<in> set ns. n \<le> 16 \<or> pe_files e (node_path ni ''/distance'') \<noteq> None \<Longrightarrow>
   \<exists>nds. probe_node_loop e n ns = Ret nds \<and> map nd_id nds = map int ns \<and>
     (\<forall>nd \<in> set nds. length (nd_distance nd) = 16)"
proof (induction ns)
  case (Cons ni ns)
  obtain nd where "probe_node e n ni = Ret nd" "nd_id nd = int ni" "length (nd_distance nd) = 16"
    using probe_node_ok [of n e ni] Cons.prems by auto
  then show ?case using Cons by auto
qed simp

lemma probe_node_loop_bad:
  "16 < n \<Longrightarrow> \<exists>ni \<in> set ns. pe_files e (node_path ni ''/distance'') = None \<Longrightarrow>
   probe_node_loop e n ns = Undef OobWrite"
proof (induction ns)
  case (Cons ni ns)
  show ?case
  proof (cases "pe_files e (node_path ni ''/distance'') = None")
    case True
    then show ?thesis using Cons.prems by (simp add: probe_node_bad)
  next
    case False
    then obtain nd where "probe_node e n ni = Ret nd" using probe_node_ok [of n e ni] by blast
    then show ?thesis using Cons False by simp
  qed
qed simp

abbreviation found_nodes :: "probe_env \<Rightarrow> nat" where
  "found_nodes e \<equiv> probe_count (\<lambda>ni. pe_exists e (node_path ni [])) [0..<64] 0"

lemma numa_shape_cases:
  "if 16 < found_nodes e \<and> pe_mem e 1 \<and> (\<exists>ni < found_nodes e. pe_files e (node_path ni ''/distance'') = None)
   then probe_numa e threads ram = Undef OobWrite
   else \<exists>n nodes. probe_numa e threads ram = Ret (n, nodes) \<and> 1 \<le> n \<and> n \<le> 64 \<and>
     (\<forall>nds. nodes = Some nds \<longrightarrow> map nd_id nds = map int [0..<nat n] \<and>
        (\<forall>nd \<in> set nds. length (nd_distance nd) = 16))"
proof -
  let ?n = "found_nodes e"
  have n64: "?n \<le> 64" using probe_count_spec [of "\<lambda>ni. pe_exists e (node_path ni [])" 64] by blast
  show ?thesis
  proof (cases "?n > 0 \<and> pe_mem e 1")
    case False
    then show ?thesis by (auto simp: probe_numa_def Let_def)
  next
    case True
    show ?thesis
    proof (cases "16 < ?n \<and> (\<exists>ni < ?n. pe_files e (node_path ni ''/distance'') = None)")
      case bad: True
      then have "probe_node_loop e ?n [0..<?n] = Undef OobWrite" by (intro probe_node_loop_bad) auto
      then show ?thesis using True bad by (simp add: probe_numa_def Let_def)
    next
      case False
      then have "\<forall>ni \<in> set [0..<?n]. ?n \<le> 16 \<or> pe_files e (node_path ni ''/distance'') \<noteq> None" by auto
      from probe_node_loop_ok [OF this] obtain nds where "probe_node_loop e ?n [0..<?n] = Ret nds"
        "map nd_id nds = map int [0..<?n]" "\<forall>nd \<in> set nds. length (nd_distance nd) = 16" by blast
      then have "probe_numa e threads ram = Ret (int ?n, Some nds)" "map nd_id nds = map int [0..<nat (int ?n)]"
        "\<forall>nd \<in> set nds. length (nd_distance nd) = 16"
        using True by (simp_all add: probe_numa_def Let_def)
      moreover have "1 \<le> int ?n" "int ?n \<le> 64" using True n64 by simp_all
      ultimately show ?thesis using False by auto
    qed
  qed
qed

text \<open>
  The node table: it is filled without undefined behaviour, except that with more than 16 nodes and a distance file that
  cannot be opened the default distances are written past the array of 16. Otherwise the
  count is between 1 and 64, and when the array could be allocated it has that many nodes, numbered
  0, 1, ..., each with 16 distances.
\<close>

theorem probe_numa_shape:
  "if 16 < found_nodes e \<and> pe_mem e 1 \<and> (\<exists>ni < found_nodes e. pe_files e (node_path ni ''/distance'') = None)
   then probe_numa e threads ram = Undef OobWrite
   else \<exists>n nodes. probe_numa e threads ram = Ret (n, nodes) \<and> 1 \<le> n \<and> n \<le> 64 \<and>
     (\<forall>nds. nodes = Some nds \<longrightarrow> map nd_id nds = map int [0..<nat n] \<and>
        (\<forall>nd \<in> set nds. length (nd_distance nd) = 16))"
  by (rule numa_shape_cases)

text \<open>A machine whose every node exists, with a distance file for all of them or for none.\<close>

definition many_nodes :: "string option \<Rightarrow> probe_env" where
  "many_nodes d = \<lparr>pe_files = (\<lambda>p. d), pe_exists = (\<lambda>p. True), pe_readable = (\<lambda>p. False), pe_mem = (\<lambda>k. True),
     pe_pagesize = 4096, pe_online = 8, pe_conf = 8, pe_phys_pages = 1000000\<rparr>"

lemma many_nodes_found: "found_nodes (many_nodes d) = 64"
  using probe_count_spec [of "\<lambda>ni. pe_exists (many_nodes d) (node_path ni [])" 64]
  by (auto simp: many_nodes_def)

lemma probe_numa_shape_witness:
  "probe_numa (many_nodes None) 8 0 = Undef OobWrite \<and>
   (\<exists>n nodes. probe_numa (many_nodes (Some ''10 20'')) 8 0 = Ret (n, nodes) \<and> 1 \<le> n)"
proof -
  have "pe_files (many_nodes d) p = d" "pe_mem (many_nodes d) k" for d p k by (simp_all add: many_nodes_def)
  moreover have "\<exists>ni :: nat. ni < 64" by (intro exI [of _ 0]) simp
  ultimately show ?thesis
    using probe_numa_shape [of "many_nodes None" 8 0] probe_numa_shape [of "many_nodes (Some ''10 20'')" 8 0]
    unfolding many_nodes_found by auto
qed

subsection \<open>Two formats the probe misreads\<close>

text \<open>\<^verbatim>\<open>/sys/devices/system/node/node<n>/meminfo\<close>: every line starts with the node.\<close>

definition print_meminfo :: "nat \<Rightarrow> string list \<Rightarrow> string" where
  "print_meminfo n ls = concat (map (\<lambda>l. ''Node '' @ dec n @ '' '' @ l @ [CHR 0x0A]) ls)"

lemma starts_with_append [simp]: "starts_with p (p @ s)"
  by (simp add: starts_with_def)

lemma meminfo_lines:
  "\<forall>l \<in> set ls. CHR 0x0A \<notin> set l \<and> length (dec n) + length l < 121 \<Longrightarrow>
   fgets_all 128 (print_meminfo n ls) = map (\<lambda>l. ''Node '' @ dec n @ '' '' @ l @ [CHR 0x0A]) ls"
proof (induction ls)
  case Nil
  then show ?case by (simp add: print_meminfo_def fgets_all_def)
next
  case (Cons l ls)
  let ?l = "''Node '' @ dec n @ '' '' @ l"
  have "CHR 0x0A \<notin> set (dec n)" using dec_digits [of n] by (auto simp: isdigit_def)
  then have "CHR 0x0A \<notin> set ?l" "length ?l < 128 - 1" using Cons.prems by auto
  then have "fgets_all 128 (?l @ CHR 0x0A # print_meminfo n ls) = (?l @ [CHR 0x0A]) # fgets_all 128 (print_meminfo n ls)"
    by (rule fgets_line)
  then show ?case using Cons by (simp add: print_meminfo_def)
qed

text \<open>
  The probe misreads two documented formats: the memory of a node is always 0, because the lines of a node's \<^verbatim>\<open>meminfo\<close> start
  with \<^verbatim>\<open>Node <n>\<close> and not with \<^verbatim>\<open>MemTotal:\<close>; and the size of a cache, which the kernel prints in kilobytes
  followed by K, is divided by 1024 once more, so every cache below one megabyte has size 0.
\<close>

theorem probe_units_misread:
  assumes "\<forall>l \<in> set ls. CHR 0x0A \<notin> set l \<and> length (dec n) + length l < 121"
    "pe_files e (node_path ni ''/meminfo'') = Some (print_meminfo n ls)" "probe_node e mx ni = Ret nd"
    "pe_files e (cache_path i ''/size'') = Some (dec k @ ''K'' @ s)" "k < 2 ^ 31"
  shows "nd_memory_kb nd = 0 \<and> ci_size_kb (probe_cache e i) = k div 1024"
proof
  have "mem_total (map (\<lambda>l. ''Node '' @ dec n @ '' '' @ l @ [CHR 0x0A]) ls') = 0" for ls'
    by (induction ls') (auto simp: starts_with_def)
  then have "mem_total (fgets_all 128 (print_meminfo n ls)) = 0" by (simp add: meminfo_lines [OF assms(1)])
  then show "nd_memory_kb nd = 0"
    using assms(2,3) by (auto simp: probe_node_def Let_def out_bind_eq_Ret)
  have "no_digit (''K'' @ s)" by (simp add: no_digit_def isdigit_def)
  from read_int_number [where files = "pe_files e" and s = "''K'' @ s", OF assms(4) this] assms(5)
  have "read_field e i ''/size'' = Some (int k)" by (simp add: read_field_def)
  moreover have "size_kb_of (int k) = k div 1024"
  proof -
    have "int k sdiv 1024 = int (k div 1024)" by (simp add: signed_divide_int_def sgn_if zdiv_int)
    moreover have "c_int (int (k div 1024)) = int (k div 1024)" using assms(5) by (intro c_int_id) auto
    moreover have "int (k div 1024) mod 2 ^ 64 = int (k div 1024)"
      using assms(5) by (intro mod_pos_pos_trivial) auto
    ultimately show ?thesis by (simp add: size_kb_of_def)
  qed
  ultimately show "ci_size_kb (probe_cache e i) = k div 1024" by (simp add: probe_cache_def)
qed

definition one_node :: probe_env where
  "one_node = \<lparr>pe_files = [node_path 0 ''/meminfo'' \<mapsto> print_meminfo 0 [''MemTotal: 16384 kB''],
       node_path 0 ''/distance'' \<mapsto> ''10'', cache_path 0 ''/size'' \<mapsto> ''32K'' @ [CHR 0x0A]],
     pe_exists = (\<lambda>p. True), pe_readable = (\<lambda>p. True), pe_mem = (\<lambda>k. True),
     pe_pagesize = 4096, pe_online = 8, pe_conf = 8, pe_phys_pages = 1000000\<rparr>"

lemma probe_units_misread_witness:
  "\<exists>nd. probe_node one_node 1 0 = Ret nd \<and> nd_memory_kb nd = 0 \<and> ci_size_kb (probe_cache one_node 0) = 0"
proof -
  have d32: "dec 32 = ''32''" by code_simp
  have f: "pe_files one_node (node_path 0 ''/meminfo'') = Some (print_meminfo 0 [''MemTotal: 16384 kB''])"
    "pe_files one_node (cache_path 0 ''/size'') = Some (dec 32 @ ''K'' @ [CHR 0x0A])"
    by (simp_all add: one_node_def node_path_def cache_path_def d32)
  obtain nd where "probe_node one_node 1 0 = Ret nd" using probe_node_ok [of 1 one_node 0] by auto
  moreover from probe_units_misread [OF _ f(1) this f(2)]
  have "nd_memory_kb nd = 0 \<and> ci_size_kb (probe_cache one_node 0) = 32 div 1024"
    by (simp add: dec.simps)
  ultimately show ?thesis by simp
qed

end
