(* ===== verification/SysProbe.thy ===== *)
theory SysProbe
  imports SysTopo Env
begin

text \<open>
  \<open>system_probe\<close> and \<open>system_free\<close> of \<^verbatim>\<open>src/core/system.c\<close>: the identity of the CPU, SMT, memory, frequencies and the
  distribution, and the whole \<^verbatim>\<open>system_info_t\<close> put together with the topology.
\<close>

subsection \<open>inc/system.h\<close>

text \<open>The text fields are the strings in the arrays. The fields the probe never sets (command line, C library, mitigations, storage
  and network devices) keep the zeros of \<^verbatim>\<open>calloc\<close>; only their counts are kept here.\<close>

record system_info_t =
  si_cpu_model :: string
  si_cpu_isa :: string
  si_cpu_cores_physical :: int
  si_cpu_threads_logical :: int
  si_smt_enabled :: bool
  si_smt_siblings_per_core :: int
  si_freq_base_mhz :: real
  si_freq_max_mhz :: real
  si_freq_current_mhz :: real
  si_governor :: string
  si_total_ram_kb :: nat
  si_page_size :: nat
  si_hugepages_2m_available :: bool
  si_hugepages_1g_available :: bool
  si_numa_node_count :: int
  si_numa_nodes :: "numa_node_t list option"
  si_cache_level_count :: int
  si_caches :: "cache_info_t list"
  si_kernel_version :: string
  si_os_distro :: string
  si_mitigation_count :: int
  si_storage_device_count :: int
  si_network_iface_count :: int
  si_compiler_name :: string
  si_compiler_version :: string
  si_compiler_flags :: string

subsection \<open>CPU model and features\<close>

text \<open>\<^verbatim>\<open>strchr(cline, ':')\<close>, blanks skipped, newline removed.\<close>

definition field_value :: "string \<Rightarrow> string option" where
  "field_value cline = map_option (\<lambda>(_, c). chomp (skip_blanks c)) (cut_at (CHR '':'') cline)"

text \<open>\<^verbatim>\<open>strncat(dst, src, n - strlen(dst))\<close> into an array of \<open>n + 1\<close> characters.\<close>

definition strncat_to :: "nat \<Rightarrow> string \<Rightarrow> string \<Rightarrow> string" where
  "strncat_to n dst src = dst @ take (n - length dst) src"

definition is_arm_field :: "string \<Rightarrow> bool" where
  "is_arm_field cline \<longleftrightarrow> starts_with ''CPU implementer'' cline \<or> starts_with ''CPU part'' cline"

fun cpu_model_loop :: "string list \<Rightarrow> string \<Rightarrow> string" where
  "cpu_model_loop [] model = model"
| "cpu_model_loop (cline # ls) model =
     (if starts_with ''model name'' cline then
        (case field_value cline of Some c \<Rightarrow> take 255 c | None \<Rightarrow> model)
      else if is_arm_field cline then
        (case field_value cline of
           Some c \<Rightarrow>
             let model = (if model \<noteq> [] then strncat_to 255 model '' '' else model)
             in cpu_model_loop ls (strncat_to 255 model c)
         | None \<Rightarrow> cpu_model_loop ls model)
      else cpu_model_loop ls model)"

fun cpu_isa_loop :: "string list \<Rightarrow> string" where
  "cpu_isa_loop [] = []"
| "cpu_isa_loop (cline # ls) =
     (if starts_with ''flags'' cline \<or> starts_with ''Features'' cline \<or> starts_with ''isa'' cline
      then (case field_value cline of Some c \<Rightarrow> take 63 c | None \<Rightarrow> [])
      else cpu_isa_loop ls)"

definition probe_cpuinfo :: "probe_env \<Rightarrow> string \<times> string" where
  "probe_cpuinfo e =
     (case pe_files e ''/proc/cpuinfo'' of
        None \<Rightarrow> ([], [])
      | Some text \<Rightarrow> (cpu_model_loop (fgets_all 512 text) [], cpu_isa_loop (fgets_all 512 text)))"

subsection \<open>SMT\<close>

definition int32 :: "int \<Rightarrow> int outcome" where
  "int32 v = (if - (2 ^ 31) \<le> v \<and> v < 2 ^ 31 then Ret v else Undef IntOverflow)"

definition sibling_count :: "string \<Rightarrow> int outcome" where
  "sibling_count siblings =
     (case sscanf_range siblings of
        Range a b \<Rightarrow> out_bind (int32 (b - a)) (\<lambda>d. int32 (d + 1))
      | _ \<Rightarrow> Ret (int (length (filter (\<lambda>c. c = CHR '','') siblings)) + 1))"

text \<open>Enabled, siblings per core, logical threads.\<close>

definition probe_smt :: "probe_env \<Rightarrow> int \<Rightarrow> (bool \<times> int \<times> int) outcome" where
  "probe_smt e cores =
     (case system_read_proc_str (pe_files e) ''/sys/devices/system/cpu/cpu0/topology/thread_siblings_list'' 64 of
        (r, None) \<Rightarrow> Ret (False, 1, cores)
      | (r, Some siblings) \<Rightarrow>
          out_bind (sibling_count siblings)
            (\<lambda>cnt. if cnt > 1
               then out_bind (if pe_conf e > 0 then Ret (c_int (pe_conf e)) else int32 (cores * cnt))
                      (\<lambda>threads. Ret (True, cnt, threads))
               else Ret (False, 1, cores)))"

subsection \<open>Memory, frequencies, distribution\<close>

definition probe_ram :: "int \<Rightarrow> int \<Rightarrow> nat" where
  "probe_ram pages page_size =
     (if pages > 0 \<and> page_size > 0 then nat (pages * page_size mod 2 ^ 64) div 1024 else 0)"

definition cpu0_mhz :: "probe_env \<Rightarrow> string \<Rightarrow> real option" where
  "cpu0_mhz e leaf =
     map_option (\<lambda>khz. real_of_int khz / 1000) (snd (system_read_proc_int (pe_files e) (''/sys/devices/system/cpu/cpu0/cpufreq/'' @ leaf)))"

text \<open>Base, maximum, current.\<close>

definition probe_freq :: "probe_env \<Rightarrow> real \<times> real \<times> real" where
  "probe_freq e =
     ((case cpu0_mhz e ''base_frequency'' of
         Some f \<Rightarrow> f
       | None \<Rightarrow> (case cpu0_mhz e ''cpuinfo_max_freq'' of Some f \<Rightarrow> f | None \<Rightarrow> 0)),
      (case cpu0_mhz e ''cpuinfo_max_freq'' of Some f \<Rightarrow> f | None \<Rightarrow> 0),
      (case cpu0_mhz e ''scaling_cur_freq'' of Some f \<Rightarrow> f | None \<Rightarrow> 0))"

text \<open>The value of \<^verbatim>\<open>PRETTY_NAME\<close> without its newline and quotes: \<open>v\<close> is what follows the key, \<open>vl\<close> the length that is
  copied.\<close>

definition distro_value :: "string \<Rightarrow> string" where
  "distro_value v =
     (let vl = length v;
          vl = (if vl > 0 \<and> v ! (vl - 1) = CHR 0x0A then vl - 1 else vl);
          (v, vl) = (if v \<noteq> [] \<and> hd v = CHR 0x22 then (tl v, vl - 1) else (v, vl));
          vl = (if vl > 0 \<and> v ! (vl - 1) = CHR 0x22 then vl - 1 else vl);
          cp = (if vl < 128 then vl else 127)
      in take cp v)"

fun os_distro_loop :: "string list \<Rightarrow> string" where
  "os_distro_loop [] = []"
| "os_distro_loop (oline # ls) =
     (if starts_with ''PRETTY_NAME='' oline then distro_value (drop 12 oline) else os_distro_loop ls)"

definition probe_distro :: "probe_env \<Rightarrow> string" where
  "probe_distro e =
     (case pe_files e ''/etc/os-release'' of None \<Rightarrow> [] | Some text \<Rightarrow> os_distro_loop (fgets_all 256 text))"

subsection \<open>The probe\<close>

definition read_str_or_empty :: "probe_env \<Rightarrow> string \<Rightarrow> nat \<Rightarrow> string" where
  "read_str_or_empty e path len =
     (case system_read_proc_str (pe_files e) path len of (r, Some s) \<Rightarrow> s | (r, None) \<Rightarrow> [])"

text \<open>\<open>pe_mem 0\<close> is the structure itself.\<close>

definition system_probe :: "probe_env \<Rightarrow> (int \<times> system_info_t option) outcome" where
  "system_probe e =
     (if \<not> pe_mem e 0 then Ret (-1, None)
      else
        (let kernel = read_str_or_empty e ''/proc/version'' 128;
             cores = c_int (pe_online e)
         in out_bind (probe_smt e cores) (\<lambda>(smt, siblings, threads).
           let ram = probe_ram (pe_phys_pages e) (pe_pagesize e);
               (model, isa) = probe_cpuinfo e;
               (fbase, fmax, fcur) = probe_freq e
           in out_bind (probe_numa e threads ram) (\<lambda>(node_count, nodes).
             out_bind (probe_caches e) (\<lambda>(cache_count, caches).
               Ret (0, Some \<lparr>si_cpu_model = model, si_cpu_isa = isa,
                 si_cpu_cores_physical = cores, si_cpu_threads_logical = threads,
                 si_smt_enabled = smt, si_smt_siblings_per_core = siblings,
                 si_freq_base_mhz = fbase, si_freq_max_mhz = fmax, si_freq_current_mhz = fcur,
                 si_governor = read_str_or_empty e ''/sys/devices/system/cpu/cpu0/cpufreq/scaling_governor'' 32,
                 si_total_ram_kb = ram, si_page_size = nat (pe_pagesize e mod 2 ^ 64),
                 si_hugepages_2m_available = pe_exists e ''/sys/kernel/mm/hugepages/hugepages-2048kB'',
                 si_hugepages_1g_available = pe_exists e ''/sys/kernel/mm/hugepages/hugepages-1048576kB'',
                 si_numa_node_count = node_count, si_numa_nodes = nodes,
                 si_cache_level_count = cache_count, si_caches = caches,
                 si_kernel_version = kernel, si_os_distro = probe_distro e,
                 si_mitigation_count = 0, si_storage_device_count = 0, si_network_iface_count = 0,
                 si_compiler_name = ''clang-18'', si_compiler_version = ''18.1.8'',
                 si_compiler_flags = ''-O2 -g -fno-omit-frame-pointer -fno-lto''\<rparr>))))))"

text \<open>The blocks given back: the nodes, the caches and the structure; the other pointers are null.\<close>

definition system_free :: "system_info_t option \<Rightarrow> world \<Rightarrow> world" where
  "system_free info w =
     (case info of
        None \<Rightarrow> w
      | Some i \<Rightarrow> c_free True (c_free True (c_free (si_numa_nodes i \<noteq> None) w)))"

subsection \<open>Well-formed results\<close>

text \<open>Every text fits its array with the final NUL, and counts and arrays agree.\<close>

definition info_ok :: "system_info_t \<Rightarrow> bool" where
  "info_ok i \<longleftrightarrow>
     length (si_cpu_model i) < 256 \<and> length (si_cpu_isa i) < 64 \<and> length (si_governor i) < 32 \<and>
     length (si_kernel_version i) < 128 \<and> length (si_os_distro i) < 128 \<and>
     1 \<le> si_smt_siblings_per_core i \<and> (si_smt_enabled i \<longleftrightarrow> 1 < si_smt_siblings_per_core i) \<and>
     1 \<le> si_numa_node_count i \<and> si_numa_node_count i \<le> 64 \<and>
     (\<forall>nds. si_numa_nodes i = Some nds \<longrightarrow> int (length nds) = si_numa_node_count i \<and>
        (\<forall>nd \<in> set nds. length (nd_distance nd) = 16)) \<and>
     1 \<le> si_cache_level_count i \<and> si_cache_level_count i = int (length (si_caches i))"

lemma strncat_to_length: "length dst \<le> n \<Longrightarrow> length (strncat_to n dst src) \<le> n"
  by (simp add: strncat_to_def)

lemma cpu_model_length: "length model \<le> 255 \<Longrightarrow> length (cpu_model_loop ls model) \<le> 255"
  by (induction ls arbitrary: model) (auto simp: Let_def strncat_to_length split: option.split)

lemma cpu_isa_length: "length (cpu_isa_loop ls) \<le> 63"
  by (induction ls) (auto split: option.split)

lemma distro_value_length: "length (distro_value v) < 128"
proof -
  have "length (take (if n < 128 then n else 127) x) < 128" for n and x :: string by (simp add: min_less_iff_disj)
  then show ?thesis unfolding distro_value_def Let_def case_prod_beta by blast
qed

lemma distro_length: "length (os_distro_loop ls) < 128"
  by (induction ls) (simp_all add: distro_value_length)

lemma read_str_or_empty_length: "2 \<le> n \<Longrightarrow> length (read_str_or_empty e p n) < n"
  using read_str_length [of "pe_files e" p n]
  by (auto simp: read_str_or_empty_def split: prod.split option.split)

lemma probe_smt_ok:
  assumes "probe_smt e cores = Ret (smt, siblings, threads)"
  shows "1 \<le> siblings \<and> (smt \<longleftrightarrow> 1 < siblings)"
  using assms unfolding probe_smt_def
  by (auto simp: out_bind_eq_Ret split: prod.splits option.splits if_splits)

lemma first_cache: "probe_count present [0..<8] 0 = 0 \<longleftrightarrow> \<not> present 0"
  using probe_count_spec [of present 8] by (auto simp: gr0_conv_Suc)

lemma probe_caches_iff:
  "is_ret (probe_caches e) \<longleftrightarrow> pe_mem e 4 \<or> pe_mem e 3 \<and> pe_readable e (cache_path 0 ''/type'')"
  using first_cache [of "\<lambda>i. pe_readable e (cache_path i ''/type'')"] by (auto simp: probe_caches_def Let_def)

lemma probe_caches_ok: "probe_caches e = Ret (n, cs) \<Longrightarrow> 1 \<le> n \<and> n = int (length cs)"
  by (auto simp: probe_caches_def Let_def default_caches_def split: if_split_asm)

lemma probe_numa_facts:
  assumes "probe_numa e threads ram = Ret (n, nodes)"
  shows "1 \<le> n \<and> n \<le> 64 \<and> (\<forall>nds. nodes = Some nds \<longrightarrow> int (length nds) = n \<and>
    (\<forall>nd \<in> set nds. length (nd_distance nd) = 16))"
proof -
  have "1 \<le> n \<and> n \<le> 64 \<and> (\<forall>nds. nodes = Some nds \<longrightarrow> map nd_id nds = map int [0..<nat n] \<and>
      (\<forall>nd \<in> set nds. length (nd_distance nd) = 16))"
    using numa_shape_cases [of e threads ram] assms by (auto split: if_split_asm)
  moreover from this have "length nds = nat n" if "nodes = Some nds" for nds
    using that by (metis length_map length_upt diff_zero)
  ultimately show ?thesis by auto
qed

lemma probe_numa_ret:
  "is_ret (probe_numa e threads ram) \<longleftrightarrow>
   \<not> (16 < found_nodes e \<and> pe_mem e 1 \<and> (\<exists>ni < found_nodes e. pe_files e (node_path ni ''/distance'') = None))"
  using numa_shape_cases [of e threads ram] by (auto split: if_split_asm)

lemma probe_ok:
  assumes "system_probe e = Ret (r, i)" "pe_mem e 0"
  shows "r = 0 \<and> (\<exists>info. i = Some info \<and> info_ok info)"
proof -
  let ?cores = "c_int (pe_online e)"
  let ?ram = "probe_ram (pe_phys_pages e) (pe_pagesize e)"
  obtain smt sib thr n nodes k cs where p: "probe_smt e ?cores = Ret (smt, sib, thr)"
    "probe_numa e thr ?ram = Ret (n, nodes)" "probe_caches e = Ret (k, cs)"
    using assms by (auto simp: system_probe_def Let_def out_bind_eq_Ret case_prod_beta)
  have t: "length (fst (probe_cpuinfo e)) < 256" "length (snd (probe_cpuinfo e)) < 64" "length (probe_distro e) < 128"
    using cpu_model_length [of "[]", THEN le_imp_less_Suc] cpu_isa_length [THEN le_imp_less_Suc] distro_length
    by (auto simp: probe_cpuinfo_def probe_distro_def split: option.split)
  show ?thesis
    using assms p t probe_smt_ok [OF p(1)] probe_numa_facts [OF p(2)] probe_caches_ok [OF p(3)]
      read_str_or_empty_length [of 128 e] read_str_or_empty_length [of 32 e]
    by (auto simp: system_probe_def Let_def case_prod_beta info_ok_def)
qed

text \<open>
  C32. The system probe: without memory it returns -1 and nothing; else, whatever the files hold, it returns 0 and a
  well-formed structure (all texts fit their arrays with the final NUL, at least one and at most 64 nodes, at
  least one cache, counts that match their arrays, distance arrays of 16) or has undefined behaviour in
  exactly three ways: the sibling range overflows an \<^verbatim>\<open>int\<close>, default distances for more than 16
  nodes, or no memory for the default caches.
\<close>

theorem system_probe_sound:
  "(\<not> pe_mem e 0 \<longrightarrow> system_probe e = Ret (-1, None)) \<and>
   (pe_mem e 0 \<longrightarrow>
     (is_ret (system_probe e) \<longleftrightarrow>
        is_ret (probe_smt e (c_int (pe_online e))) \<and>
        \<not> (16 < found_nodes e \<and> pe_mem e 1 \<and> (\<exists>ni < found_nodes e. pe_files e (node_path ni ''/distance'') = None)) \<and>
        (pe_mem e 4 \<or> pe_mem e 3 \<and> pe_readable e (cache_path 0 ''/type''))) \<and>
     (\<forall>r i. system_probe e = Ret (r, i) \<longrightarrow> r = 0 \<and> (\<exists>info. i = Some info \<and> info_ok info)))"
proof (intro conjI impI allI)
  assume "\<not> pe_mem e 0"
  then show "system_probe e = Ret (-1, None)" by (simp add: system_probe_def)
next
  assume m: "pe_mem e 0"
  have "is_ret (system_probe e) \<longleftrightarrow> (\<exists>smt sib thr. probe_smt e (c_int (pe_online e)) = Ret (smt, sib, thr) \<and>
      is_ret (probe_numa e thr (probe_ram (pe_phys_pages e) (pe_pagesize e))) \<and> is_ret (probe_caches e))"
    using m by (auto simp: system_probe_def Let_def is_ret_iff out_bind_eq_Ret case_prod_beta)
  then show "is_ret (system_probe e) \<longleftrightarrow>
      is_ret (probe_smt e (c_int (pe_online e))) \<and>
      \<not> (16 < found_nodes e \<and> pe_mem e 1 \<and> (\<exists>ni < found_nodes e. pe_files e (node_path ni ''/distance'') = None)) \<and>
      (pe_mem e 4 \<or> pe_mem e 3 \<and> pe_readable e (cache_path 0 ''/type''))"
    unfolding probe_numa_ret probe_caches_iff by (auto simp: is_ret_iff)
  fix r i assume "system_probe e = Ret (r, i)"
  from probe_ok [OF this m] show "r = 0" "\<exists>info. i = Some info \<and> info_ok info" by simp_all
qed

lemma system_probe_sound_witness:
  "\<exists>info. system_probe (many_nodes (Some ''0-1'')) = Ret (0, Some info) \<and> info_ok info"
proof -
  let ?e = "many_nodes (Some ''0-1'')"
  have p: "pe_files ?e p = Some ''0-1''" "pe_mem ?e k" "pe_conf ?e = 8" for p k by (simp_all add: many_nodes_def)
  have "sibling_count ''0-1'' = Ret 2" by code_simp
  moreover have "fgets_first 64 ''0-1'' = Some ''0-1''" by code_simp
  ultimately have smt: "is_ret (probe_smt ?e (c_int (pe_online ?e)))"
    by (simp add: probe_smt_def system_read_proc_str_def p chomp_def)
  have "is_ret (system_probe ?e)"
    using system_probe_sound [of ?e] smt by (simp add: p)
  then show ?thesis using system_probe_sound [of ?e] p(2) by (auto simp: is_ret_iff)
qed

subsection \<open>The probe and its memory\<close>

text \<open>The blocks a probe's result owns, and that \<open>system_free\<close> gives back exactly these.\<close>

definition probe_blocks :: "system_info_t option \<Rightarrow> int" where
  "probe_blocks info =
     (case info of None \<Rightarrow> 0 | Some i \<Rightarrow> 2 + (if si_numa_nodes i \<noteq> None then 1 else 0))"

lemma system_free_held: "held (system_free info w) = owning (- probe_blocks info) (held w)"
  by (auto simp: system_free_def probe_blocks_def held_own split: option.split)

subsection \<open>The model string on ARM\<close>

lemma strncat_take: "length dst \<le> n \<Longrightarrow> strncat_to n dst src = take n (dst @ src)"
  by (simp add: strncat_to_def)

lemma take_take_append: "take n (take n a @ b) = take n (a @ b)"
  by (cases "length a \<le> n") auto

lemma concat_map_replicate: "concat (map f (concat (replicate k [l, p]))) = concat (replicate k (f l @ f p))"
  by (induction k) auto

text \<open>The text that accumulates: the values with blanks between them.\<close>

lemma cpu_model_arm_from:
  "\<forall>l \<in> set ls. \<not> starts_with ''model name'' l \<and> is_arm_field l \<and> field_value l \<noteq> None \<Longrightarrow>
   s \<noteq> [] \<Longrightarrow>
   cpu_model_loop ls (take 255 s) = take 255 (s @ concat (map (\<lambda>l. '' '' @ the (field_value l)) ls))"
proof (induction ls arbitrary: s)
  case (Cons l ls)
  obtain c where c: "field_value l = Some c" using Cons.prems(1) by auto
  have "strncat_to 255 (strncat_to 255 (take 255 s) '' '') c = take 255 (take 255 (take 255 s @ '' '') @ c)"
    by (simp only: strncat_take length_take min.cobounded2)
  also have "\<dots> = take 255 (s @ '' '' @ c)" by (simp only: take_take_append append_assoc)
  finally have "strncat_to 255 (strncat_to 255 (take 255 s) '' '') c = take 255 (s @ '' '' @ c)" .
  then show ?case
    using Cons.prems c Cons.IH [of "s @ '' '' @ c"] by (simp add: Let_def)
qed simp

text \<open>
  On a machine whose \<^verbatim>\<open>/proc/cpuinfo\<close> names implementer and part once per core instead of a model name (as on
  ARM), the model string repeats them for every core, until the array of 255 characters is full.
\<close>

theorem cpu_model_arm_repeats:
  assumes "is_arm_field l" "field_value l = Some v" "v \<noteq> []" "\<not> starts_with ''model name'' l"
    "field_value p = Some u" "is_arm_field p" "\<not> starts_with ''model name'' p"
  shows "cpu_model_loop (concat (replicate (Suc cores) [l, p])) [] =
    take 255 (v @ '' '' @ u @ concat (replicate cores ('' '' @ v @ '' '' @ u)))"
proof -
  have c: "strncat_to 255 [] v = take 255 v" by (simp add: strncat_to_def)
  have "cpu_model_loop (concat (replicate (Suc cores) [l, p])) [] =
      cpu_model_loop (p # concat (replicate cores [l, p])) (take 255 v)"
    using assms by (simp add: Let_def c)
  also have "\<dots> = take 255 (v @ concat (map (\<lambda>l. '' '' @ the (field_value l)) (p # concat (replicate cores [l, p]))))"
    by (rule cpu_model_arm_from) (use assms in auto)
  also have "concat (map (\<lambda>l. '' '' @ the (field_value l)) (p # concat (replicate cores [l, p]))) =
      '' '' @ u @ concat (replicate cores ('' '' @ v @ '' '' @ u))"
    using assms(2,5) by (simp add: concat_map_replicate)
  finally show ?thesis by simp
qed

lemma cpu_model_arm_repeats_witness:
  "cpu_model_loop (concat (replicate 2 [''CPU implementer : 0x41'', ''CPU part : 0xd0c''])) [] =
     ''0x41 0xd0c 0x41 0xd0c''"
proof -
  have l: "is_arm_field ''CPU implementer : 0x41''" "field_value ''CPU implementer : 0x41'' = Some ''0x41''"
    "\<not> starts_with ''model name'' ''CPU implementer : 0x41''" by code_simp+
  have p: "is_arm_field ''CPU part : 0xd0c''" "field_value ''CPU part : 0xd0c'' = Some ''0xd0c''"
    "\<not> starts_with ''model name'' ''CPU part : 0xd0c''" by code_simp+
  show ?thesis
    using cpu_model_arm_repeats [OF l(1,2) _ l(3) p(2,1,3), of 1] by (simp add: eval_nat_numeral)
qed

end
