(* ===== verification/Print.thy ===== *)
theory Print
  imports Hex
begin

text \<open>
  The conversions of \<^verbatim>\<open>printf\<close> that the reports use: \<^verbatim>\<open>%d\<close>, \<^verbatim>\<open>%0nd\<close>, \<^verbatim>\<open>%-ns\<close> and \<^verbatim>\<open>%.nf\<close>, the last with round-half-even on the
  exact value, and strings in double quotes.
\<close>

text \<open>A double-quoted string; nothing is escaped.\<close>

definition quoted :: "string \<Rightarrow> string" where
  "quoted s = CHR 0x22 # s @ [CHR 0x22]"

abbreviation newline :: string where
  "newline \<equiv> [CHR 0x0A]"

definition dec_int :: "int \<Rightarrow> string" where
  "dec_int v = (if v < 0 then CHR ''-'' # dec (nat (- v)) else dec (nat v))"

definition pad_right :: "nat \<Rightarrow> string \<Rightarrow> string" where
  "pad_right n s = s @ replicate (n - length s) (CHR '' '')"

text \<open>\<open>n\<close> digits with leading zeros, of a number below \<open>10 ^ n\<close>.\<close>

fun decn :: "nat \<Rightarrow> nat \<Rightarrow> string" where
  "decn 0 k = []"
| "decn (Suc n) k = decn n (k div 10) @ [digit_char (k mod 10)]"

definition round_even :: "real \<Rightarrow> int" where
  "round_even y =
     (let f = \<lfloor>y\<rfloor>; r = y - real_of_int f
      in if r < 1 / 2 then f else if r > 1 / 2 then f + 1 else if even f then f else f + 1)"

definition fixed :: "nat \<Rightarrow> real \<Rightarrow> string" where
  "fixed n x =
     (let q = nat (round_even (\<bar>x\<bar> * 10 ^ n))
      in (if x < 0 then ''-'' else []) @ dec (q div 10 ^ n) @
         (if n = 0 then [] else CHR ''.'' # decn n (q mod 10 ^ n)))"

lemma length_decn [simp]: "length (decn n k) = n"
  by (induction n arbitrary: k) auto

lemma round_even_near: "\<bar>real_of_int (round_even y) - y\<bar> \<le> 1 / 2"
  unfolding round_even_def Let_def by (auto simp: abs_le_iff)

lemma decn_digits: "\<forall>c \<in> set (decn n k). isdigit c"
  by (induction n arbitrary: k) auto

text \<open>Printed numbers hold digits, a point and a minus sign only.\<close>

definition numeric :: "char \<Rightarrow> bool" where
  "numeric c \<longleftrightarrow> isdigit c \<or> c = CHR ''.'' \<or> c = CHR ''-''"

lemma fixed_numeric: "\<forall>c \<in> set (fixed n x). numeric c"
  using dec_digits decn_digits by (auto simp: fixed_def Let_def numeric_def)

lemma dec_int_numeric: "\<forall>c \<in> set (dec_int v). numeric c"
  using dec_digits by (auto simp: dec_int_def numeric_def)

lemma numeric_no_newline: "\<forall>c \<in> set s. numeric c \<Longrightarrow> CHR 0x0A \<notin> set s"
  by (auto simp: numeric_def isdigit_def)

text \<open>What the digits of a fixed-point number mean.\<close>

lemma foldl_decn: "foldl (\<lambda>a c. 10 * a + digit_val c) acc (decn n k) = 10 ^ n * acc + k mod 10 ^ n"
proof (induction n arbitrary: k)
  case (Suc n)
  have "k mod 10 ^ Suc n = 10 * (k div 10 mod 10 ^ n) + k mod 10"
    by (simp add: mod_mult2_eq mult.commute)
  then show ?case using Suc by simp
qed simp

end
