(* ===== verification/SysHost.thy ===== *)
theory SysHost
  imports SysTopo Print
begin

text \<open>
  The rest of \<^verbatim>\<open>src/core/system.c\<close> (noise snapshots and the detection of virtualization) and
  \<^verbatim>\<open>src/core/validate.c\<close>, the report of \<^verbatim>\<open>--validate\<close>.
\<close>

subsection \<open>Noise\<close>

record noise_snapshot_t =
  ns_interrupts_total :: int
  ns_context_switches :: int
  ns_temperature_c :: "real list"
  ns_temperature_count :: int

definition zero_snapshot :: noise_snapshot_t where
  "zero_snapshot = \<lparr>ns_interrupts_total = 0, ns_context_switches = 0, ns_temperature_c = replicate 16 0,
     ns_temperature_count = 0\<rparr>"

text \<open>Ten times: on to the next blank, over the blanks after it; \<open>None\<close> when there is none.\<close>

fun skip_fields :: "nat \<Rightarrow> string \<Rightarrow> string option" where
  "skip_fields 0 p = Some p"
| "skip_fields (Suc n) p =
     (case dropWhile (\<lambda>c. c \<noteq> CHR '' '') p of
        [] \<Rightarrow> None
      | q \<Rightarrow> skip_fields n (dropWhile (\<lambda>c. c = CHR '' '') q))"

definition atoll :: "string \<Rightarrow> int" where
  "atoll s = (case scan_int s of None \<Rightarrow> 0 | Some (v, _) \<Rightarrow> clamp64 v)"

definition system_noise_snapshot :: "(string \<Rightarrow> string option) \<Rightarrow> int \<times> noise_snapshot_t" where
  "system_noise_snapshot files =
     (0, if fst (system_read_proc_int files ''/proc/stat'') = 0 then
           (case files ''/proc/stat'' of
              None \<Rightarrow> zero_snapshot
            | Some text \<Rightarrow>
                (case fgets_first 1024 text of
                   None \<Rightarrow> zero_snapshot
                 | Some line \<Rightarrow>
                     (case skip_fields 10 line of
                        None \<Rightarrow> zero_snapshot
                      | Some p \<Rightarrow> zero_snapshot\<lparr>ns_context_switches := atoll p\<rparr>)))
         else zero_snapshot)"

text \<open>Entry \<open>i\<close> of the temperatures is written for \<open>i\<close> below both counts and 16; the others keep what
  the caller's structure held. The counters are 64 bits wide.\<close>

definition int64 :: "int \<Rightarrow> int outcome" where
  "int64 v = (if - (2 ^ 63) \<le> v \<and> v < 2 ^ 63 then Ret v else Undef IntOverflow)"

definition system_noise_delta ::
    "noise_snapshot_t \<Rightarrow> noise_snapshot_t \<Rightarrow> noise_snapshot_t \<Rightarrow> (int \<times> noise_snapshot_t) outcome" where
  "system_noise_delta before after delta =
     out_bind (int64 (ns_interrupts_total after - ns_interrupts_total before))
       (\<lambda>di. out_bind (int64 (ns_context_switches after - ns_context_switches before))
         (\<lambda>dc. let tc = (if ns_temperature_count after < ns_temperature_count before
                         then ns_temperature_count after else ns_temperature_count before);
                   temps = foldl (\<lambda>ts i. ts[i := ns_temperature_c after ! i - ns_temperature_c before ! i])
                             (ns_temperature_c delta) [0..<min 16 (nat tc)]
               in Ret (0, delta\<lparr>ns_interrupts_total := di, ns_context_switches := dc,
                    ns_temperature_c := temps, ns_temperature_count := ns_temperature_count before\<rparr>)))"

lemma read_int_text: "scan_int text = None \<Longrightarrow> files p = Some text \<Longrightarrow> fst (system_read_proc_int files p) = -1"
  by (simp add: system_read_proc_int_def)

lemma scan_int_letter: "\<not> isspace c \<Longrightarrow> \<not> isdigit c \<Longrightarrow> c \<noteq> CHR ''-'' \<Longrightarrow> c \<noteq> CHR ''+'' \<Longrightarrow> scan_int (c # s) = None"
  by (simp add: scan_int_def scan_unsigned_def)

text \<open>
  A noise snapshot never counts anything: \<^verbatim>\<open>/proc/stat\<close> starts with the word \<^verbatim>\<open>cpu\<close>, so the guard, which wants to
  read a number at its start, fails, and the snapshot is zero whatever the rest of the file holds. The
  difference of two such snapshots has zero counters.
\<close>

theorem noise_snapshot_zero:
  assumes "files ''/proc/stat'' = Some (''cpu'' @ rest)" "files' ''/proc/stat'' = Some (''cpu'' @ rest')"
  shows "system_noise_snapshot files = (0, zero_snapshot) \<and>
    (\<exists>d. system_noise_delta (snd (system_noise_snapshot files)) (snd (system_noise_snapshot files')) junk = Ret (0, d) \<and>
       ns_interrupts_total d = 0 \<and> ns_context_switches d = 0 \<and> ns_temperature_count d = 0 \<and>
       ns_temperature_c d = ns_temperature_c junk)"
proof -
  have n: "scan_int (''cpu'' @ r) = None" for r by (simp add: scan_int_letter isspace_def isdigit_def)
  have z: "system_noise_snapshot files = (0, zero_snapshot)" "system_noise_snapshot files' = (0, zero_snapshot)"
    using read_int_text [where files = files, OF n assms(1)] read_int_text [where files = files', OF n assms(2)]
    by (simp_all add: system_noise_snapshot_def)
  then show ?thesis by (simp add: system_noise_delta_def int64_def zero_snapshot_def Let_def)
qed

lemma noise_snapshot_zero_witness:
  "system_noise_snapshot [''/proc/stat'' \<mapsto> ''cpu  1 2 3 4 5 6 7 8 9 10 ctxt 5''] = (0, zero_snapshot)"
  using noise_snapshot_zero [of "[''/proc/stat'' \<mapsto> ''cpu  1 2 3 4 5 6 7 8 9 10 ctxt 5'']" "  ''  1 2 3 4 5 6 7 8 9 10 ctxt 5''"
    "[''/proc/stat'' \<mapsto> ''cpu'']" "[]"] by simp

text \<open>The temperatures of the difference, entry by entry.\<close>

lemma delta_temps:
  "n \<le> length ts \<Longrightarrow> i < length ts \<Longrightarrow>
   foldl (\<lambda>ts i. ts[i := f i]) ts [0..<n] ! i = (if i < n then f i else ts ! i)"
proof (induction n)
  case (Suc n)
  have "length (foldl (\<lambda>ts i. ts[i := f i]) ts [0..<m]) = length ts" for m by (induction m) auto
  with Suc show ?case by (auto simp: nth_list_update less_Suc_eq)
qed simp

subsection \<open>Virtualization\<close>

text \<open>The tests on the vendor, in their order: any of the substrings gives the name.\<close>

definition vendor_table :: "(string list \<times> string) list" where
  "vendor_table =
     [([''QEMU'', ''KVM''], ''kvm''), ([''VMware''], ''vmware''), ([''Microsoft Corporation''], ''hyper-v''),
      ([''Xen''], ''xen''), ([''Amazon EC2''], ''aws-nitro''), ([''Google''], ''gce''), ([''Oracle''], ''oci''),
      ([''DigitalOcean''], ''digitalocean''), ([''Alibaba Cloud''], ''alicloud'')]"

definition product_table :: "(string list \<times> string) list" where
  "product_table = [([''KVM'', ''QEMU''], ''kvm''), ([''HVM domU''], ''aws-nitro'')]"

fun first_match :: "(string list \<times> string) list \<Rightarrow> string \<Rightarrow> string option" where
  "first_match [] s = None"
| "first_match ((keys, nm) # t) s = (if list_ex (contains s) keys then Some nm else first_match t s)"

text \<open>\<^verbatim>\<open>snprintf(hypervisor, len, ...)\<close> for \<open>len > 0\<close>; the result is the status, the name and the confidence.\<close>

definition system_detect_virtualization :: "(string \<Rightarrow> string option) \<Rightarrow> nat \<Rightarrow> int \<times> string \<times> int" where
  "system_detect_virtualization files len =
     (let put = take (len - 1);
          vendor = (case system_read_proc_str files ''/sys/class/dmi/id/sys_vendor'' 64 of
                      (r, None) \<Rightarrow> None | (r, Some v) \<Rightarrow> first_match vendor_table v);
          product = (case system_read_proc_str files ''/sys/class/dmi/id/product_name'' 128 of
                       (r, None) \<Rightarrow> None | (r, Some v) \<Rightarrow> first_match product_table v)
      in case vendor of
           Some nm \<Rightarrow> (0, put nm, 2)
         | None \<Rightarrow> (case product of Some nm \<Rightarrow> (0, put nm, 1) | None \<Rightarrow> (0, put ''bare-metal'', 0)))"

lemma contains_sub: "contains (a @ n @ b) n"
  by (auto simp: contains_def list_ex_iff starts_with_def intro!: bexI [of _ "length a"])

lemma contains_cut: "contains s n \<Longrightarrow> \<exists>a b. s = a @ n @ b"
proof -
  assume "contains s n"
  then have "\<exists>i \<in> set [0..<Suc (length s)]. starts_with n (drop i s)" by (simp only: contains_def list_ex_iff)
  then obtain i where "starts_with n (drop i s)" by blast
  then have "s = take i s @ n @ drop (length n) (drop i s)"
    by (metis append_take_drop_id starts_with_def)
  then show ?thesis by blast
qed

lemma first_match_some: "first_match t s = Some nm \<Longrightarrow> \<exists>keys. (keys, nm) \<in> set t \<and> list_ex (contains s) keys"
  by (induction t s rule: first_match.induct) (auto split: if_splits)

lemma first_match_none: "first_match t s = None \<longleftrightarrow> (\<forall>(keys, nm) \<in> set t. \<not> list_ex (contains s) keys)"
  by (induction t s rule: first_match.induct) auto

text \<open>The text of a DMI file as the detection sees it.\<close>

definition dmi_text :: "(string \<Rightarrow> string option) \<Rightarrow> string \<Rightarrow> nat \<Rightarrow> string option" where
  "dmi_text files path len = snd (system_read_proc_str files path len)"

definition mentions :: "(string list \<times> string) list \<Rightarrow> string option \<Rightarrow> string \<Rightarrow> bool" where
  "mentions t s nm \<longleftrightarrow> (\<exists>v keys k a b. s = Some v \<and> (keys, nm) \<in> set t \<and> k \<in> set keys \<and> v = a @ k @ b)"

lemma first_match_mentions:
  "(case s of None \<Rightarrow> None | Some v \<Rightarrow> first_match t v) = Some nm \<Longrightarrow> mentions t s nm"
proof (cases s)
  case (Some v)
  assume "(case s of None \<Rightarrow> None | Some v \<Rightarrow> first_match t v) = Some nm"
  then obtain keys where k: "(keys, nm) \<in> set t" "list_ex (contains v) keys"
    using first_match_some [of t v nm] Some by auto
  then obtain n where "n \<in> set keys" "contains v n" by (auto simp: list_ex_iff)
  with k(1) Some show ?thesis unfolding mentions_def using contains_cut [of v n] by blast
qed simp

lemma no_match_mentions:
  "(case s of None \<Rightarrow> None | Some v \<Rightarrow> first_match t v) = None \<Longrightarrow> \<not> mentions t s nm"
proof
  assume n: "(case s of None \<Rightarrow> None | Some v \<Rightarrow> first_match t v) = None" and "mentions t s nm"
  then obtain v keys k a b where m: "s = Some v" "(keys, nm) \<in> set t" "k \<in> set keys" "v = a @ k @ b"
    unfolding mentions_def by blast
  then have "\<not> list_ex (contains v) keys" using n first_match_none [of t v] by auto
  then show False using m contains_sub [of a k b] by (auto simp: list_ex_iff)
qed

lemma detect_cases:
  "system_detect_virtualization files len =
     (let vendor = (case dmi_text files ''/sys/class/dmi/id/sys_vendor'' 64 of None \<Rightarrow> None | Some v \<Rightarrow> first_match vendor_table v);
          product = (case dmi_text files ''/sys/class/dmi/id/product_name'' 128 of None \<Rightarrow> None | Some v \<Rightarrow> first_match product_table v)
      in case vendor of
           Some nm \<Rightarrow> (0, take (len - 1) nm, 2)
         | None \<Rightarrow> (case product of Some nm \<Rightarrow> (0, take (len - 1) nm, 1) | None \<Rightarrow> (0, take (len - 1) ''bare-metal'', 0)))"
  unfolding system_detect_virtualization_def dmi_text_def status_case Let_def ..

lemma table_names:
  "mentions vendor_table s nm \<Longrightarrow> length nm < 13" "mentions product_table s nm \<Longrightarrow> length nm < 13"
  by (auto simp: mentions_def vendor_table_def product_table_def)

text \<open>
  The detection with room for 13 characters or more: confidence 2 means that the vendor mentions a key of the name
  returned, 1 that only the product does, and 0, with \<^verbatim>\<open>bare-metal\<close>, that neither mentions any key; and
  conversely a vendor or product that mentions a key is never taken for bare metal.
\<close>

theorem virtualization_by_table:
  assumes "13 \<le> len"
  shows "\<exists>nm conf. system_detect_virtualization files len = (0, nm, conf) \<and>
    (conf = 2 \<and> mentions vendor_table (dmi_text files ''/sys/class/dmi/id/sys_vendor'' 64) nm \<or>
     conf = 1 \<and> (\<forall>x. \<not> mentions vendor_table (dmi_text files ''/sys/class/dmi/id/sys_vendor'' 64) x) \<and>
       mentions product_table (dmi_text files ''/sys/class/dmi/id/product_name'' 128) nm \<or>
     conf = 0 \<and> nm = ''bare-metal'' \<and>
       (\<forall>x. \<not> mentions vendor_table (dmi_text files ''/sys/class/dmi/id/sys_vendor'' 64) x \<and>
            \<not> mentions product_table (dmi_text files ''/sys/class/dmi/id/product_name'' 128) x))"
proof -
  let ?v = "dmi_text files ''/sys/class/dmi/id/sys_vendor'' 64"
  let ?p = "dmi_text files ''/sys/class/dmi/id/product_name'' 128"
  let ?fv = "case ?v of None \<Rightarrow> None | Some v \<Rightarrow> first_match vendor_table v"
  let ?fp = "case ?p of None \<Rightarrow> None | Some v \<Rightarrow> first_match product_table v"
  have bm: "take (len - 1) ''bare-metal'' = ''bare-metal''" using assms by simp
  show ?thesis
  proof (cases ?fv)
    case (Some nm)
    note m = first_match_mentions [OF Some]
    then have "take (len - 1) nm = nm" using table_names(1) [OF m] assms by simp
    then have "system_detect_virtualization files len = (0, nm, 2)" unfolding detect_cases Let_def Some by simp
    with m show ?thesis by blast
  next
    case v: None
    show ?thesis
    proof (cases ?fp)
      case (Some nm)
      note m = first_match_mentions [OF Some]
      then have "take (len - 1) nm = nm" using table_names(2) [OF m] assms by simp
      then have "system_detect_virtualization files len = (0, nm, 1)" unfolding detect_cases Let_def Some v by simp
      with m no_match_mentions [OF v] show ?thesis by blast
    next
      case None
      have "system_detect_virtualization files len = (0, ''bare-metal'', 0)"
        unfolding detect_cases Let_def None v option.case bm ..
      with no_match_mentions [OF v] no_match_mentions [OF None] show ?thesis by blast
    qed
  qed
qed

lemma virtualization_by_table_witness:
  "system_detect_virtualization [''/sys/class/dmi/id/sys_vendor'' \<mapsto> ''QEMU'' @ [CHR 0x0A]] 64 = (0, ''kvm'', 2)"
proof -
  let ?f = "[''/sys/class/dmi/id/sys_vendor'' \<mapsto> ''QEMU'' @ [CHR 0x0A]]"
  have "fgets_first 64 (''QEMU'' @ [CHR 0x0A]) = Some (''QEMU'' @ [CHR 0x0A])" by code_simp
  then have d: "dmi_text ?f ''/sys/class/dmi/id/sys_vendor'' 64 = Some ''QEMU''"
    by (simp add: dmi_text_def system_read_proc_str_def chomp_def)
  have "first_match vendor_table ''QEMU'' = Some ''kvm''" by code_simp
  then have "system_detect_virtualization ?f 64 = (0, take 63 ''kvm'', 2)"
    unfolding detect_cases d by simp
  then show ?thesis using virtualization_by_table [of 64 ?f] by simp
qed

subsection \<open>Validation\<close>

definition check_item :: "string \<Rightarrow> string \<Rightarrow> string \<Rightarrow> string \<Rightarrow> string" where
  "check_item check expected actual severity =
     ''    {'' @ quoted ''check'' @ '':'' @ quoted check @ '','' @ quoted ''expected'' @ '':'' @ quoted expected @ '','' @
     quoted ''actual'' @ '':'' @ quoted actual @ '','' @ quoted ''severity'' @ '':'' @ quoted severity @ ''}''"

text \<open>\<open>if (!first) fprintf(out, ",\n"); first = 0;\<close> before every item.\<close>

definition emit_item :: "string \<Rightarrow> bool \<times> string \<Rightarrow> bool \<times> string" where
  "emit_item item st = (case st of (first, out) \<Rightarrow> (False, out @ (if first then [] else '','' @ [CHR 0x0A]) @ item))"

definition governor_item :: "string \<Rightarrow> string" where
  "governor_item gov =
     check_item ''cpu_governor'' ''performance'' gov (if gov = ''performance'' then ''info'' else ''warning'')"

definition nofile_item :: "nat \<Rightarrow> string" where
  "nofile_item cur =
     check_item ''open_files'' ''>=1048576'' (dec cur) (if cur \<ge> 1048576 then ''info'' else ''error'')"

text \<open>\<open>nofile\<close> is the soft limit \<^verbatim>\<open>getrlimit\<close> reports, \<open>None\<close> when it fails.\<close>

definition validate_system :: "(string \<Rightarrow> string option) \<Rightarrow> nat option \<Rightarrow> int \<times> string" where
  "validate_system files nofile =
     (let st = (True, ''{'' @ [CHR 0x0A] @ ''  '' @ quoted ''status'' @ '': '' @ quoted ''ready'' @ '','' @ [CHR 0x0A] @
                 ''  '' @ quoted ''checks'' @ '': ['' @ [CHR 0x0A]);
          st = (case system_read_proc_str files ''/sys/devices/system/cpu/cpu0/cpufreq/scaling_governor'' 32 of
                  (r, Some gov) \<Rightarrow> emit_item (governor_item gov) st
                | (r, None) \<Rightarrow> st);
          st = emit_item (check_item ''disk_space'' ''>50GB'' ''ok'' ''info'') st;
          st = (case nofile of Some cur \<Rightarrow> emit_item (nofile_item cur) st | None \<Rightarrow> st);
          st = emit_item (check_item ''swap'' ''off_or_idle'' ''checked'' ''info'') st
      in (0, snd st @ [CHR 0x0A] @ ''  ]'' @ [CHR 0x0A] @ ''}'' @ [CHR 0x0A]))"

text \<open>The report as a list of items separated by commas.\<close>

fun comma_lines :: "string list \<Rightarrow> string" where
  "comma_lines [] = []"
| "comma_lines [x] = x"
| "comma_lines (x # xs) = x @ '','' @ [CHR 0x0A] @ comma_lines xs"

definition validation_items :: "(string \<Rightarrow> string option) \<Rightarrow> nat option \<Rightarrow> string list" where
  "validation_items files nofile =
     (case snd (system_read_proc_str files ''/sys/devices/system/cpu/cpu0/cpufreq/scaling_governor'' 32) of
        Some gov \<Rightarrow> [governor_item gov] | None \<Rightarrow> []) @
     [check_item ''disk_space'' ''>50GB'' ''ok'' ''info''] @
     (case nofile of Some cur \<Rightarrow> [nofile_item cur] | None \<Rightarrow> []) @
     [check_item ''swap'' ''off_or_idle'' ''checked'' ''info'']"

definition report_head :: string where
  "report_head = ''{'' @ [CHR 0x0A] @ ''  '' @ quoted ''status'' @ '': '' @ quoted ''ready'' @ '','' @ [CHR 0x0A] @
     ''  '' @ quoted ''checks'' @ '': ['' @ [CHR 0x0A]"

definition report_tail :: string where
  "report_tail = [CHR 0x0A] @ ''  ]'' @ [CHR 0x0A] @ ''}'' @ [CHR 0x0A]"

text \<open>
  The validation report is the status line, two to four checks separated by commas, and the closing
  brackets, in every case; its status is always \<^verbatim>\<open>ready\<close> and the function returns 0, even when a check has the severity
  \<^verbatim>\<open>error\<close>; and the disk and swap checks are the same text on every machine.
\<close>

theorem validation_report:
  "validate_system files nofile = (0, report_head @ comma_lines (validation_items files nofile) @ report_tail) \<and>
   2 \<le> length (validation_items files nofile) \<and> length (validation_items files nofile) \<le> 4"
  unfolding validate_system_def validation_items_def status_case Let_def
  by (cases "snd (system_read_proc_str files ''/sys/devices/system/cpu/cpu0/cpufreq/scaling_governor'' 32)"; cases nofile)
    (simp_all add: report_head_def report_tail_def emit_item_def)

end
