(* ===== verification/Output.thy ===== *)
theory Output
  imports HarnessRun SysProbe Print
begin

text \<open>
  \<^verbatim>\<open>src/core/output.c\<close>: the run identifier, and the texts of the reports (provenance, JSON lines, HTML, terminal
  summary). Passing a null pointer to \<^verbatim>\<open>%s\<close> is undefined; \<open>fixed n\<close> is \<^verbatim>\<open>%.nf\<close>.
\<close>

definition SSB_VERSION :: string where "SSB_VERSION = ''1.0.0''"

text \<open>The fields of \<^verbatim>\<open>run_result_s\<close> the reports use, beside those of \<open>run_result_t\<close>.\<close>

record run_report_t =
  rp_run_id :: string
  rp_mode :: run_mode_t
  rp_sysinfo :: "system_info_t option"
  rp_subtests :: "subtest_result_t list"
  rp_category_scores :: "real list"
  rp_pillar_throughput :: real
  rp_pillar_latency :: real
  rp_pillar_efficiency :: real
  rp_overall_score :: real
  rp_mitigation_tax_pct :: real
  rp_thermal_derating_factor :: real
  rp_start_time :: int
  rp_end_time :: int

subsection \<open>The run identifier\<close>

definition hex2 :: "8 word \<Rightarrow> string" where
  "hex2 b = hexn 2 (unat b)"

definition uuid_of_bytes :: "8 word list \<Rightarrow> string" where
  "uuid_of_bytes r =
     (let r = r[6 := (r ! 6 AND 0x0f) OR 0x40];
          r = r[8 := (r ! 8 AND 0x3f) OR 0x80];
          part = (\<lambda>a n. concat (map hex2 (take n (drop a r))))
      in part 0 4 @ ''-'' @ part 4 2 @ ''-'' @ part 6 2 @ ''-'' @ part 8 2 @ ''-'' @ part 10 6)"

text \<open>The fall-back prints six numbers of \<^verbatim>\<open>rand\<close>, cut and marked as the masks say.\<close>

definition uuid_of_rand :: "nat list \<Rightarrow> string" where
  "uuid_of_rand k =
     hexn 8 (k ! 0) @ ''-'' @ hexn 4 (k ! 1 mod 2 ^ 16) @ ''-'' @
     hexn 4 (unat ((of_nat (k ! 2) AND 0x0fff) OR 0x4000 :: 32 word)) @ ''-'' @
     hexn 4 (unat ((of_nat (k ! 3) AND 0x3fff) OR 0x8000 :: 32 word)) @ ''-'' @
     hexn 4 (k ! 4 mod 2 ^ 16) @ hexn 8 (k ! 5)"

fun c_rands :: "nat \<Rightarrow> world \<Rightarrow> nat list \<times> world" where
  "c_rands 0 w = ([], w)"
| "c_rands (Suc n) w = (let (x, w) = c_rand w; (xs, w) = c_rands n w in (x # xs, w))"

text \<open>\<open>urandom\<close>: the bytes one \<^verbatim>\<open>fread\<close> of 16 returned, \<open>None\<close> when the device cannot be opened.\<close>

definition output_generate_uuid :: "8 word list option \<Rightarrow> world \<Rightarrow> string \<times> world" where
  "output_generate_uuid urandom w =
     (case urandom of
        Some r \<Rightarrow> if length r = 16 then (uuid_of_bytes r, w)
                  else (let (ks, w) = c_rands 6 w in (uuid_of_rand ks, w))
      | None \<Rightarrow> (let (ks, w) = c_rands 6 w in (uuid_of_rand ks, w)))"

text \<open>The shape of a version 4, variant 1 identifier.\<close>

definition is_hex :: "char \<Rightarrow> bool" where
  "is_hex c \<longleftrightarrow> hex_val c \<noteq> None"

definition uuid4_shape :: "string \<Rightarrow> bool" where
  "uuid4_shape s \<longleftrightarrow> length s = 36 \<and>
     (\<forall>i < 36. if i = 8 \<or> i = 13 \<or> i = 18 \<or> i = 23 then s ! i = CHR ''-'' else is_hex (s ! i)) \<and>
     s ! 14 = CHR ''4'' \<and> hex_val (s ! 19) \<in> {Some 8, Some 9, Some 10, Some 11}"

lemma is_hex_char: "d < 16 \<Longrightarrow> is_hex (hex_char d)"
  by (simp add: is_hex_def)

lemma uuid_shape_parts:
  assumes "length a = 8" "length b = 4" "length c = 3" "length e = 3" "length f = 12"
    "\<forall>x \<in> set (a @ b @ c @ e @ f). is_hex x" "v < 4"
  shows "uuid4_shape (a @ ''-'' @ b @ ''-'' @ ''4'' @ c @ ''-'' @ hex_char (8 + v) # e @ ''-'' @ f)"
proof -
  let ?s = "a @ ''-'' @ b @ ''-'' @ ''4'' @ c @ ''-'' @ hex_char (8 + v) # e @ ''-'' @ f"
  have len: "length ?s = 36" using assms by simp
  have at: "?s ! i = (if i < 8 then a ! i else if i = 8 then CHR ''-'' else if i < 13 then b ! (i - 9)
      else if i = 13 then CHR ''-'' else if i = 14 then CHR ''4'' else if i < 18 then c ! (i - 15)
      else if i = 18 then CHR ''-'' else if i = 19 then hex_char (8 + v) else if i < 23 then e ! (i - 20)
      else if i = 23 then CHR ''-'' else f ! (i - 24))" for i
    using assms(1-5) by (auto simp: nth_append nth_Cons')
  have h: "i < 8 \<Longrightarrow> is_hex (a ! i)" "i < 4 \<Longrightarrow> is_hex (b ! i)" "i < 3 \<Longrightarrow> is_hex (c ! i)"
    "i < 3 \<Longrightarrow> is_hex (e ! i)" "i < 12 \<Longrightarrow> is_hex (f ! i)" for i
    using assms(1-6) by auto
  have four: "is_hex (CHR ''4'')" by (simp add: is_hex_def hex_val_def)
  have nib: "is_hex (hex_char (8 + v))" using assms(7) by (simp add: is_hex_char)
  have "if i = 8 \<or> i = 13 \<or> i = 18 \<or> i = 23 then ?s ! i = CHR ''-'' else is_hex (?s ! i)" if "i < 36" for i
    unfolding at using h four nib that by auto
  moreover have "hex_val (?s ! 19) \<in> {Some 8, Some 9, Some 10, Some 11}"
    unfolding at using assms(7) by auto
  moreover have "?s ! 14 = CHR ''4''" unfolding at by simp
  ultimately show ?thesis using len by (simp only: uuid4_shape_def) blast
qed

lemma mask_or_6: "unat ((b AND 0x0f) OR 0x40 :: 8 word) = unat b mod 16 + 64"
proof -
  have "b AND 0x0f = take_bit 4 b" by (simp add: take_bit_eq_mask mask_eq_exp_minus_1)
  then show ?thesis using or_power [of 4 6 b] by simp
qed

lemma mask_or_8: "unat ((b AND 0x3f) OR 0x80 :: 8 word) = unat b mod 64 + 128"
proof -
  have "b AND 0x3f = take_bit 6 b" by (simp add: take_bit_eq_mask mask_eq_exp_minus_1)
  then show ?thesis using or_power [of 6 7 b] by simp
qed

lemma mask_or_rand_2: "unat ((x AND 0x0fff) OR 0x4000 :: 32 word) = unat x mod 4096 + 16384"
proof -
  have "x AND 0x0fff = take_bit 12 x" by (simp add: take_bit_eq_mask mask_eq_exp_minus_1)
  then show ?thesis using or_power [of 12 14 x] by simp
qed

lemma mask_or_rand_3: "unat ((x AND 0x3fff) OR 0x8000 :: 32 word) = unat x mod 16384 + 32768"
proof -
  have "x AND 0x3fff = take_bit 14 x" by (simp add: take_bit_eq_mask mask_eq_exp_minus_1)
  then show ?thesis using or_power [of 14 15 x] by simp
qed

lemmas mask_or = mask_or_6 mask_or_8 mask_or_rand_2 mask_or_rand_3

lemma hexn_two: "hexn 2 n = [hex_char (n div 16 mod 16), hex_char (n mod 16)]"
  by (simp add: numeral_2_eq_2)

lemma hexn_top: "hexn (Suc k) n = hex_char (n div 16 ^ k mod 16) # hexn k (n mod 16 ^ k)"
proof (induction k arbitrary: n)
  case (Suc k)
  have "hexn (Suc (Suc k)) n = hexn (Suc k) (n div 16) @ [hex_char (n mod 16)]" by simp
  also have "\<dots> = hex_char (n div 16 div 16 ^ k mod 16) # hexn k (n div 16 mod 16 ^ k) @ [hex_char (n mod 16)]"
    using Suc by simp
  also have "n div 16 div 16 ^ k = n div 16 ^ Suc k" by (simp add: div_mult2_eq)
  also have "n div 16 mod 16 ^ k = n mod 16 ^ Suc k div 16" by (simp add: mod_mult2_eq)
  also have "n mod 16 = n mod 16 ^ Suc k mod 16" by (simp add: mod_mod_cancel)
  finally show ?case by simp
qed simp

lemma hexn_four: "hexn 4 n = hex_char (n div 4096 mod 16) # hexn 3 (n mod 4096)"
  using hexn_top [of 3 n] by (simp del: hexn.simps)

lemma hexn_is_hex: "\<forall>c \<in> set (hexn k n). is_hex c"
  using hexn_digits [of k n] by (simp add: is_hex_def)

lemma hex2_is_hex: "\<forall>c \<in> set (concat (map hex2 bs)). is_hex c"
  using hexn_is_hex by (auto simp: hex2_def)

lemma length_hex2s [simp]: "length (concat (map hex2 bs)) = 2 * length bs"
  by (induction bs) (simp_all add: hex2_def)

lemma two_at: "Suc i < length q \<Longrightarrow> take 2 (drop i q) = [q ! i, q ! Suc i]"
  by (simp add: numeral_2_eq_2 take_Suc_conv_app_nth flip: Cons_nth_drop_Suc)

lemma hex_char_four: "hex_char 4 = CHR ''4''"
  by code_simp

text \<open>A masked value with a marked top digit, in digits.\<close>

lemma top_digit:
  fixes n m k :: nat
  assumes "0 < m" "k < 16"
  shows "(n mod m + k * m) div m mod 16 = k" "(n mod m + k * m) mod m = n mod m"
  using assms by simp_all

lemma top_digit_2bits:
  fixes n m :: nat
  assumes "0 < m"
  shows "(n mod (4 * m) + 8 * m) div m mod 16 = 8 + n mod (4 * m) div m"
    "(n mod (4 * m) + 8 * m) mod m = n mod (4 * m) mod m" "n mod (4 * m) div m < 4"
proof -
  show lt: "n mod (4 * m) div m < 4" using assms by (simp add: less_mult_imp_div_less)
  have "(n mod (4 * m) + 8 * m) div m = 8 + n mod (4 * m) div m"
    using assms div_mult_self1 [of m "n mod (4 * m)" 8] by simp
  then show "(n mod (4 * m) + 8 * m) div m mod 16 = 8 + n mod (4 * m) div m" using lt by simp
  show "(n mod (4 * m) + 8 * m) mod m = n mod (4 * m) mod m" by simp
qed

lemma uuid_bytes_shape:
  assumes "length r = 16"
  shows "uuid4_shape (uuid_of_bytes r)"
proof -
  define q where "q = (r[6 := (r ! 6 AND 0x0f) OR 0x40])[8 := (r ! 8 AND 0x3f) OR 0x80]"
  have len: "length q = 16" using assms by (simp add: q_def)
  have q6: "hex2 (q ! 6) = ''4'' @ [hex_char (unat (r ! 6) mod 16)]"
  proof -
    have "(unat (r ! 6) mod 16 + 64) div 16 mod 16 = 4" "(unat (r ! 6) mod 16 + 64) mod 16 = unat (r ! 6) mod 16"
      using top_digit [of 16 4 "unat (r ! 6)"] by simp_all
    then show ?thesis using assms by (simp add: q_def hex2_def hexn_two mask_or_6 hex_char_four)
  qed
  have q8: "hex2 (q ! 8) = hex_char (8 + unat (r ! 8) mod 64 div 16) # [hex_char (unat (r ! 8) mod 16)]"
  proof -
    have "(unat (r ! 8) mod 64 + 128) div 16 mod 16 = 8 + unat (r ! 8) mod 64 div 16"
      "(unat (r ! 8) mod 64 + 128) mod 16 = unat (r ! 8) mod 16"
      using top_digit_2bits [of 16 "unat (r ! 8)"] by (simp_all add: mod_mod_cancel)
    then show ?thesis using assms by (simp add: q_def hex2_def hexn_two mask_or_8)
  qed
  have u: "uuid_of_bytes r = concat (map hex2 (take 4 q)) @ ''-'' @ concat (map hex2 (take 2 (drop 4 q))) @ ''-'' @
      ''4'' @ ([hex_char (unat (r ! 6) mod 16)] @ hex2 (q ! 7)) @ ''-'' @
      hex_char (8 + unat (r ! 8) mod 64 div 16) # ([hex_char (unat (r ! 8) mod 16)] @ hex2 (q ! 9)) @ ''-'' @
      concat (map hex2 (take 6 (drop 10 q)))"
  proof -
    have "uuid_of_bytes r = concat (map hex2 (take 4 q)) @ ''-'' @ concat (map hex2 (take 2 (drop 4 q))) @ ''-'' @
        concat (map hex2 (take 2 (drop 6 q))) @ ''-'' @ concat (map hex2 (take 2 (drop 8 q))) @ ''-'' @
        concat (map hex2 (take 6 (drop 10 q)))"
      using assms by (simp add: uuid_of_bytes_def Let_def q_def)
    then show ?thesis using len by (simp add: two_at q6 q8)
  qed
  have h7: "length (hex2 b) = 2" "\<forall>c \<in> set (hex2 b). is_hex c" for b
    using hexn_is_hex by (simp_all add: hex2_def)
  show ?thesis
    unfolding u using len hex2_is_hex h7 is_hex_char
    by (intro uuid_shape_parts) (auto simp: ball_Un)
qed

lemma uuid_rand_shape:
  assumes "length k = 6"
  shows "uuid4_shape (uuid_of_rand k)"
proof -
  let ?v = "unat (of_nat (k ! 2) :: 32 word) mod 4096"
  let ?w = "unat (of_nat (k ! 3) :: 32 word) mod 16384"
  have four: "hexn 4 (?v + 16384) = CHR ''4'' # hexn 3 ?v"
  proof -
    have "(?v + 16384) div 4096 mod 16 = 4" "(?v + 16384) mod 4096 = ?v"
      using top_digit [of 4096 4 "unat (of_nat (k ! 2) :: 32 word)"] by simp_all
    then show ?thesis by (simp add: hexn_four hex_char_four)
  qed
  have eight: "hexn 4 (?w + 32768) = hex_char (8 + ?w div 4096) # hexn 3 (?w mod 4096)"
  proof -
    have "(?w + 32768) div 4096 mod 16 = 8 + ?w div 4096" "(?w + 32768) mod 4096 = ?w mod 4096"
      using top_digit_2bits [of 4096 "unat (of_nat (k ! 3) :: 32 word)"] by simp_all
    then show ?thesis by (simp only: hexn_four)
  qed
  have u: "uuid_of_rand k = hexn 8 (k ! 0) @ ''-'' @ hexn 4 (k ! 1 mod 2 ^ 16) @ ''-'' @ ''4'' @ hexn 3 ?v @ ''-'' @
      hex_char (8 + ?w div 4096) # hexn 3 (?w mod 4096) @ ''-'' @ (hexn 4 (k ! 4 mod 2 ^ 16) @ hexn 8 (k ! 5))"
    by (simp only: uuid_of_rand_def mask_or_rand_2 mask_or_rand_3 four eight append_Cons append_Nil append_assoc)
  have "?w div 4096 < 4"
    using top_digit_2bits(3) [of 4096 "unat (of_nat (k ! 3) :: 32 word)"] by simp
  then show ?thesis
    unfolding u using hexn_is_hex by (intro uuid_shape_parts) (auto simp: ball_Un)
qed

lemma length_c_rands [simp]: "length (fst (c_rands n w)) = n"
  by (induction n arbitrary: w) (simp_all add: case_prod_beta Let_def)

text \<open>The bytes that determine the identifier.\<close>

definition uuid_mask :: "8 word list \<Rightarrow> 8 word list" where
  "uuid_mask r = (r[6 := (r ! 6 AND 0x0f) OR 0x40])[8 := (r ! 8 AND 0x3f) OR 0x80]"

lemma hex2_inject: "hex2 a = hex2 b \<longleftrightarrow> a = b"
proof
  assume h: "hex2 a = hex2 b"
  have "unat a < 16 ^ 2" "unat b < 16 ^ 2" using unsigned_less [of a] unsigned_less [of b] by simp_all
  from hexn_inject [OF this] h have "unat a = unat b" by (simp add: hex2_def)
  then show "a = b" by (simp add: word_unat_eq_iff)
qed simp

lemma hex2s_inject: "length xs = length ys \<Longrightarrow> concat (map hex2 xs) = concat (map hex2 ys) \<Longrightarrow> xs = ys"
proof (induction xs ys rule: list_induct2)
  case (Cons x xs y ys)
  have "length (hex2 x) = length (hex2 y)" by (simp add: hex2_def)
  then show ?case using Cons by (simp add: hex2_inject)
qed simp

lemma uuid_bytes_inject:
  assumes "length r = 16" "length s = 16" "uuid_of_bytes r = uuid_of_bytes s"
  shows "uuid_mask r = uuid_mask s"
proof -
  define q where "q = uuid_mask r"
  define p where "p = uuid_mask s"
  let ?part = "\<lambda>x a n. concat (map hex2 (take n (drop a x)))"
  have len: "length q = 16" "length p = 16" using assms by (simp_all add: q_def p_def uuid_mask_def)
  have "uuid_of_bytes r = ?part q 0 4 @ ''-'' @ ?part q 4 2 @ ''-'' @ ?part q 6 2 @ ''-'' @ ?part q 8 2 @ ''-'' @ ?part q 10 6"
    "uuid_of_bytes s = ?part p 0 4 @ ''-'' @ ?part p 4 2 @ ''-'' @ ?part p 6 2 @ ''-'' @ ?part p 8 2 @ ''-'' @ ?part p 10 6"
    using assms(1,2) by (simp_all add: uuid_of_bytes_def q_def p_def uuid_mask_def Let_def)
  then have eqs: "?part q 0 4 = ?part p 0 4" "?part q 4 2 = ?part p 4 2" "?part q 6 2 = ?part p 6 2"
    "?part q 8 2 = ?part p 8 2" "?part q 10 6 = ?part p 10 6"
    using assms(3) len by simp_all
  have split: "x = take 4 (drop 0 x) @ take 2 (drop 4 x) @ take 2 (drop 6 x) @ take 2 (drop 8 x) @ take 6 (drop 10 x)"
    if "length x = 16" for x :: "8 word list"
  proof -
    have s2: "drop i x = take 2 (drop i x) @ drop (i + 2) x" for i
      by (metis append_take_drop_id drop_drop add.commute)
    have "x = take 4 x @ drop 4 x" by simp
    also have "drop 4 x = take 2 (drop 4 x) @ take 2 (drop 6 x) @ take 2 (drop 8 x) @ drop 10 x"
      using s2 [of 4] s2 [of 6] s2 [of 8] by simp
    also have "drop 10 x = take 6 (drop 10 x)" using that by simp
    finally show ?thesis by simp
  qed
  have "take n (drop a q) = take n (drop a p)" if "?part q a n = ?part p a n" for a n
    using that len by (intro hex2s_inject) simp_all
  then have "q = p" using split [OF len(1)] split [OF len(2)] eqs by metis
  then show ?thesis by (simp add: q_def p_def)
qed

lemma generate_uuid_device: "length r = 16 \<Longrightarrow> fst (output_generate_uuid (Some r) w) = uuid_of_bytes r"
  by (simp add: output_generate_uuid_def)

lemma generate_uuid_shape: "uuid4_shape (fst (output_generate_uuid urandom w))"
proof -
  have rand: "uuid4_shape (fst (let (ks, w) = c_rands 6 w in (uuid_of_rand ks, w)))" for w
    by (simp add: case_prod_beta uuid_rand_shape)
  show ?thesis
  proof (cases urandom)
    case None
    then show ?thesis using rand by (simp only: output_generate_uuid_def option.case)
  next
    case (Some r)
    show ?thesis
    proof (cases "length r = 16")
      case True
      then show ?thesis using Some by (simp only: generate_uuid_device uuid_bytes_shape)
    next
      case False
      then show ?thesis using rand by (simp only: Some output_generate_uuid_def option.case if_False)
    qed
  qed
qed

text \<open>
  A run identifier always has the shape of a version 4, variant 1 UUID, whether the random device delivers 16
  bytes or the fall-back with \<^verbatim>\<open>rand\<close> is used; and two identifiers from the device are equal only
  when all the 122 bits that are not fixed by the format are.
\<close>

theorem uuid_is_version4:
  "uuid4_shape (fst (output_generate_uuid urandom w)) \<and>
   (\<forall>r s. length r = 16 \<longrightarrow> length s = 16 \<longrightarrow>
      fst (output_generate_uuid (Some r) w) = fst (output_generate_uuid (Some s) w) \<longrightarrow> uuid_mask r = uuid_mask s)"
proof (intro conjI allI impI)
  show "uuid4_shape (fst (output_generate_uuid urandom w))" by (rule generate_uuid_shape)
next
  fix r s :: "8 word list"
  assume "length r = 16" "length s = 16" "fst (output_generate_uuid (Some r) w) = fst (output_generate_uuid (Some s) w)"
  then show "uuid_mask r = uuid_mask s"
    using uuid_bytes_inject generate_uuid_device by metis
qed

lemma uuid_is_version4_witness:
  "uuid4_shape (fst (output_generate_uuid (Some (replicate 16 255)) quiet_world)) \<and>
   fst (output_generate_uuid (Some (replicate 16 255)) quiet_world) = ''ffffffff-ffff-4fff-bfff-ffffffffffff''"
proof -
  have "uuid_of_bytes (replicate 16 255) = ''ffffffff-ffff-4fff-bfff-ffffffffffff''" by code_simp
  then have "fst (output_generate_uuid (Some (replicate 16 255)) quiet_world) = ''ffffffff-ffff-4fff-bfff-ffffffffffff''"
    by (simp only: output_generate_uuid_def option.case length_replicate simp_thms if_True fst_conv)
  with uuid_is_version4 [THEN conjunct1, of "Some (replicate 16 255)" quiet_world] show ?thesis by blast
qed

end
