(* ===== verification/Reports.thy ===== *)
theory Reports
  imports Output Catalog
begin

text \<open>
  The report writers of \<^verbatim>\<open>src/core/output.c\<close>. Each writer takes whether \<^verbatim>\<open>fopen\<close> succeeded and returns
  the status with the text written; a null pointer passed to \<^verbatim>\<open>%s\<close> is undefined. Two readers state
  what the texts promise: \<open>brackets\<close> follows the brackets of a JSON text, \<open>pieces\<close> cuts a line at its quotes.
\<close>

definition str_arg :: "string option \<Rightarrow> string outcome" where
  "str_arg p = (case p of None \<Rightarrow> Undef NullDeref | Some s \<Rightarrow> Ret s)"

text \<open>The concatenation of the texts the loop body prints for each element.\<close>

fun print_loop :: "('a \<Rightarrow> string outcome) \<Rightarrow> 'a list \<Rightarrow> string outcome" where
  "print_loop body [] = Ret []"
| "print_loop body (x # xs) =
     out_bind (body x) (\<lambda>s. out_bind (print_loop body xs) (\<lambda>t. Ret (s @ t)))"

subsection \<open>JSON lines\<close>

definition jsonl_line :: "string \<Rightarrow> subtest_result_t \<Rightarrow> string outcome" where
  "jsonl_line run_id sr =
     out_bind (str_arg (st_reliability (sr_stats sr))) (\<lambda>rel. Ret (
       ''{'' @ quoted ''run_id'' @ '':'' @ quoted run_id @ '','' @ quoted ''bench'' @ '':'' @ quoted (bm_name (sr_bench sr)) @
       '','' @ quoted ''cat'' @ '':'' @ quoted (bm_category (sr_bench sr)) @ '','' @
       quoted ''mean'' @ '':'' @ fixed 6 (st_mean (sr_stats sr)) @ '','' @ quoted ''cv'' @ '':'' @ fixed 4 (st_cv (sr_stats sr)) @
       '','' @ quoted ''rel'' @ '':'' @ quoted rel @ '','' @
       quoted ''n'' @ '':'' @ dec (st_iterations (sr_stats sr)) @ ''}'' @ newline))"

definition output_jsonl :: "bool \<Rightarrow> run_report_t \<Rightarrow> (int \<times> string) outcome" where
  "output_jsonl opened result =
     (if \<not> opened then Ret (-1, [])
      else out_bind (print_loop (jsonl_line (rp_run_id result)) (rp_subtests result)) (\<lambda>s. Ret (0, s)))"

subsection \<open>The provenance file\<close>

definition field :: "string \<Rightarrow> string \<Rightarrow> string \<Rightarrow> string" where
  "field indent key val = indent @ quoted key @ '': '' @ val"

definition provenance_system :: "system_info_t option \<Rightarrow> string" where
  "provenance_system sys =
     (case sys of
        None \<Rightarrow> []
      | Some si \<Rightarrow>
          field ''  '' ''system'' (''{'' @ newline) @
          field ''    '' ''cpu_model'' (quoted (si_cpu_model si) @ '','' @ newline) @
          field ''    '' ''cpu_cores'' (dec_int (si_cpu_cores_physical si) @ '','' @ newline) @
          field ''    '' ''numa_nodes'' (dec_int (si_numa_node_count si) @ '','' @ newline) @
          field ''    '' ''kernel'' (quoted (si_kernel_version si) @ '','' @ newline) @
          field ''    '' ''page_size'' (dec (si_page_size si) @ newline) @
          ''  },'' @ newline)"

definition provenance_subtest :: "nat \<Rightarrow> nat \<times> subtest_result_t \<Rightarrow> string outcome" where
  "provenance_subtest subtest_count isr =
     (let (i, sr) = isr; stats = sr_stats sr
      in out_bind (str_arg (st_reliability stats)) (\<lambda>rel. Ret (
           ''    {'' @ newline @
           field ''      '' ''name'' (quoted (bm_name (sr_bench sr)) @ '','' @ newline) @
           field ''      '' ''category'' (quoted (bm_category (sr_bench sr)) @ '','' @ newline) @
           field ''      '' ''status'' (quoted (sr_status sr) @ '','' @ newline) @
           field ''      '' ''mean'' (fixed 6 (st_mean stats) @ '','' @ newline) @
           field ''      '' ''cv'' (fixed 4 (st_cv stats) @ '','' @ newline) @
           field ''      '' ''reliability'' (quoted rel @ '','' @ newline) @
           field ''      '' ''ci_95'' (''['' @ fixed 6 (st_ci_lower stats) @ '', '' @ fixed 6 (st_ci_upper stats) @ ''],'' @ newline) @
           field ''      '' ''iterations'' (dec (st_iterations stats) @ newline) @
           ''    }'' @ (if i + 1 < subtest_count then '','' else []) @ newline)))"

definition provenance_head :: "run_report_t \<Rightarrow> string" where
  "provenance_head result =
     ''{'' @ newline @
     field ''  '' ''servmark_version'' (quoted SSB_VERSION @ '','' @ newline) @
     field ''  '' ''run_id'' (quoted (rp_run_id result) @ '','' @ newline) @
     field ''  '' ''run_mode'' (quoted (if rp_mode result = SSB_MODE_PEAK then ''peak'' else ''sustained'') @ '','' @ newline) @
     field ''  '' ''overall_score'' (fixed 4 (rp_overall_score result) @ '','' @ newline) @
     field ''  '' ''pillars'' (''{'' @ newline) @
     field ''    '' ''throughput'' (fixed 4 (rp_pillar_throughput result) @ '','' @ newline) @
     field ''    '' ''latency'' (fixed 4 (rp_pillar_latency result) @ '','' @ newline) @
     field ''    '' ''efficiency'' (fixed 4 (rp_pillar_efficiency result) @ newline) @
     ''  },'' @ newline @
     field ''  '' ''mitigation_tax_pct'' (fixed 1 (rp_mitigation_tax_pct result * 100) @ '','' @ newline) @
     field ''  '' ''thermal_derating'' (fixed 3 (rp_thermal_derating_factor result) @ '','' @ newline)"

definition output_provenance :: "bool \<Rightarrow> run_report_t \<Rightarrow> (int \<times> string) outcome" where
  "output_provenance opened result =
     (if \<not> opened then Ret (-1, [])
      else out_bind (print_loop (provenance_subtest (length (rp_subtests result)))
                       (zip [0..<length (rp_subtests result)] (rp_subtests result))) (\<lambda>subs.
        Ret (0, provenance_head result @ provenance_system (rp_sysinfo result) @
                field ''  '' ''subtests'' (''['' @ newline) @ subs @ ''  ]'' @ newline @ ''}'' @ newline)))"

subsection \<open>The HTML table\<close>

definition html_row :: "subtest_result_t \<Rightarrow> string outcome" where
  "html_row sr =
     out_bind (str_arg (st_reliability (sr_stats sr))) (\<lambda>rel. Ret (
       ''<tr><td>'' @ bm_name (sr_bench sr) @ ''</td><td>'' @ bm_category (sr_bench sr) @ ''</td><td>'' @
       fixed 4 (st_mean (sr_stats sr)) @ ''</td><td>'' @ fixed 2 (st_cv (sr_stats sr) * 100) @ ''%</td><td>'' @ rel @
       ''</td></tr>'' @ newline))"

definition output_html_report :: "bool \<Rightarrow> run_report_t \<Rightarrow> (int \<times> string) outcome" where
  "output_html_report opened result =
     (if \<not> opened then Ret (-1, [])
      else out_bind (print_loop html_row (rp_subtests result)) (\<lambda>rows. Ret (0,
        ''<!DOCTYPE html><html><head><meta charset='' @ quoted ''UTF-8'' @ ''>'' @
        ''<title>ServMark Results</title></head><body>'' @ newline @
        ''<h1>ServMark '' @ SSB_VERSION @ '' Results</h1>'' @ newline @
        ''<p>Run ID: '' @ rp_run_id result @ '' | Mode: '' @
        (if rp_mode result = SSB_MODE_PEAK then ''Peak'' else ''Sustained'') @ ''</p>'' @ newline @
        ''<table border='' @ quoted ''1'' @ ''><tr><th>Benchmark</th><th>Category</th>'' @
        ''<th>Score</th><th>CV</th><th>Reliability</th></tr>'' @ newline @ rows @
        ''</table></body></html>'' @ newline)))"

subsection \<open>The summary on the terminal\<close>

text \<open>The box characters are three bytes each in UTF-8: \<open>box b\<close> is \<^verbatim>\<open>E2 95 b\<close>.\<close>

definition box :: "nat \<Rightarrow> string" where
  "box b = [char_of (226 :: nat), char_of (149 :: nat), char_of b]"

definition box_rule :: "nat \<Rightarrow> nat \<Rightarrow> string" where
  "box_rule l r = box l @ concat (replicate 62 (box 0x90)) @ box r @ newline"

definition box_line :: "string \<Rightarrow> string" where
  "box_line s = box 0x91 @ s @ box 0x91 @ newline"

text \<open>\<^verbatim>\<open>%02d\<close>\<close>

definition dec02 :: "int \<Rightarrow> string" where
  "dec02 v = (if 0 \<le> v \<and> v < 10 then ''0'' @ dec_int v else dec_int v)"

text \<open>\<^verbatim>\<open>elapsed / 60\<close> and \<^verbatim>\<open>elapsed % 60\<close> round towards zero.\<close>

definition summary_category :: "run_report_t \<Rightarrow> nat \<Rightarrow> string" where
  "summary_category result i =
     (if rp_category_scores result ! i > 0
      then box_line (''  C'' @ pad_right 2 (dec i) @ '': '' @ fixed 2 (rp_category_scores result ! i) @ replicate 47 (CHR '' ''))
      else [])"

definition output_terminal_summary :: "run_report_t \<Rightarrow> int \<times> string" where
  "output_terminal_summary result =
     (let elapsed = rp_end_time result - rp_start_time result;
          min = sgn elapsed * (\<bar>elapsed\<bar> div 60);
          sec = sgn elapsed * (\<bar>elapsed\<bar> mod 60)
      in (0,
        newline @
        box_rule 0x94 0x97 @
        box_line (''  ServMark '' @ pad_right 48 SSB_VERSION @ '' '') @
        box_line (''  Mode: '' @ pad_right 6 (if rp_mode result = SSB_MODE_PEAK then ''peak'' else ''sustained'') @
          ''    Elapsed: '' @ dec_int min @ ''m'' @ dec02 sec @ ''s'' @ replicate 26 (CHR '' '')) @
        box_rule 0xA0 0xA3 @
        box_line (''  Overall:     '' @ fixed 2 (rp_overall_score result) @ replicate 41 (CHR '' '')) @
        box_line (''  Throughput:  '' @ fixed 2 (rp_pillar_throughput result) @ replicate 41 (CHR '' '')) @
        box_line (''  Latency:     '' @ fixed 2 (rp_pillar_latency result) @ replicate 41 (CHR '' '')) @
        box_line (''  Efficiency:  '' @ fixed 2 (rp_pillar_efficiency result) @ replicate 41 (CHR '' '')) @
        box_rule 0xA0 0xA3 @
        box_line (''  Mitigation Tax: '' @ fixed 1 (rp_mitigation_tax_pct result * 100) @ ''%    Thermal Derating: '' @
          fixed 1 (rp_thermal_derating_factor result * 100) @ ''%          '') @
        box_rule 0xA0 0xA3 @
        concat (map (summary_category result) [0..<16]) @
        box_rule 0x9A 0x9D @ newline))"

subsection \<open>When a report is written\<close>

lemma print_loop_ret:
  "(\<And>x. x \<in> set xs \<Longrightarrow> body x = Ret (f x)) \<Longrightarrow> print_loop body xs = Ret (concat (map f xs))"
  by (induction xs) simp_all

lemma print_loop_undef:
  assumes "x \<in> set xs" "body x = Undef NullDeref" "\<forall>y \<in> set xs. \<forall>u. body y = Undef u \<longrightarrow> u = NullDeref"
  shows "print_loop body xs = Undef NullDeref"
  using assms
proof (induction xs)
  case (Cons y xs)
  show ?case
  proof (cases "body y")
    case (Ret s)
    then have "x \<in> set xs" using Cons.prems by auto
    with Cons have "print_loop body xs = Undef NullDeref" by simp
    then show ?thesis using Ret by simp
  next
    case (Undef u)
    then show ?thesis using Cons.prems(3) by simp
  qed
qed simp

definition rated :: "run_report_t \<Rightarrow> bool" where
  "rated result \<longleftrightarrow> (\<forall>sr \<in> set (rp_subtests result). st_reliability (sr_stats sr) \<noteq> None)"

text \<open>The text a rated subtest gives.\<close>

definition line_of :: "string \<Rightarrow> subtest_result_t \<Rightarrow> string" where
  "line_of run_id sr = (case jsonl_line run_id sr of Ret s \<Rightarrow> s | Undef u \<Rightarrow> [])"

lemma jsonl_line_cases:
  "jsonl_line run_id sr =
     (if st_reliability (sr_stats sr) = None then Undef NullDeref else Ret (line_of run_id sr))"
  by (auto simp: jsonl_line_def line_of_def str_arg_def)

text \<open>A loop over subtests whose body needs the rating and nothing else.\<close>

lemma print_loop_rated:
  assumes "\<forall>x \<in> set xs. body x = (if st_reliability (sr_stats (g x)) = None then Undef NullDeref else Ret (f x))"
    "(\<forall>x \<in> set xs. st_reliability (sr_stats (g x)) \<noteq> None) = ok"
  shows "print_loop body xs = (if ok then Ret (concat (map f xs)) else Undef NullDeref)"
proof (cases ok)
  case True
  then show ?thesis using assms by (auto intro!: print_loop_ret)
next
  case False
  then obtain x where "x \<in> set xs" "st_reliability (sr_stats (g x)) = None" using assms(2) by auto
  then have "print_loop body xs = Undef NullDeref"
    using assms(1) by (intro print_loop_undef [of x]) (auto split: if_splits)
  then show ?thesis using False by simp
qed

lemma jsonl_written:
  "output_jsonl True result =
     (if rated result then Ret (0, concat (map (line_of (rp_run_id result)) (rp_subtests result))) else Undef NullDeref)"
proof -
  have "print_loop (jsonl_line (rp_run_id result)) (rp_subtests result) =
      (if rated result then Ret (concat (map (line_of (rp_run_id result)) (rp_subtests result))) else Undef NullDeref)"
    by (rule print_loop_rated [where g = "\<lambda>x. x"]) (simp_all add: jsonl_line_cases rated_def)
  then show ?thesis by (simp add: output_jsonl_def)
qed

subsection \<open>Reading a line back\<close>

fun splits :: "char \<Rightarrow> string \<Rightarrow> string list" where
  "splits d [] = [[]]"
| "splits d (c # cs) =
     (if c = d then [] # splits d cs else (case splits d cs of [] \<Rightarrow> [[c]] | p # ps \<Rightarrow> (c # p) # ps))"

definition glue :: "string \<Rightarrow> string list \<Rightarrow> string list" where
  "glue a ps = (a @ hd ps) # tl ps"

lemma splits_nonempty: "splits d s \<noteq> []"
  by (induction s) (auto split: list.split)

lemma splits_append: "d \<notin> set a \<Longrightarrow> splits d (a @ s) = glue a (splits d s)"
proof (induction a)
  case Nil
  then show ?case using splits_nonempty [of d s] by (simp add: glue_def)
next
  case (Cons c a)
  then show ?case by (auto simp: glue_def)
qed

lemma splits_hit: "splits d (d # s) = [] # splits d s" by simp

text \<open>A text without a quote, a backslash or a line end.\<close>

definition plain :: "string \<Rightarrow> bool" where
  "plain s \<longleftrightarrow> CHR 0x22 \<notin> set s \<and> CHR 0x5C \<notin> set s \<and> CHR 0x0A \<notin> set s"

lemma numeric_plain: "\<forall>c \<in> set s. numeric c \<Longrightarrow> plain s"
  by (auto simp: plain_def numeric_def isdigit_def)

lemma plain_fixed: "plain (fixed n x)"
  using fixed_numeric by (rule numeric_plain)

lemma plain_dec: "plain (dec n)"
  using dec_digits by (intro numeric_plain) (auto simp: numeric_def)

text \<open>What a line says: the run, the benchmark, its category, its rating and the number of iterations.\<close>

definition jsonl_read :: "string \<Rightarrow> string \<times> string \<times> string \<times> string \<times> int" where
  "jsonl_read l = (let ps = splits (CHR 0x22) l in (ps ! 3, ps ! 7, ps ! 11, ps ! 19, atoi (tl (ps ! 22))))"

definition jsonl_says :: "string \<Rightarrow> subtest_result_t \<Rightarrow> string \<times> string \<times> string \<times> string \<times> int" where
  "jsonl_says run_id sr =
     (run_id, bm_name (sr_bench sr), bm_category (sr_bench sr), the (st_reliability (sr_stats sr)),
      int (st_iterations (sr_stats sr)))"

definition plain_subtest :: "subtest_result_t \<Rightarrow> bool" where
  "plain_subtest sr \<longleftrightarrow>
     plain (bm_name (sr_bench sr)) \<and> plain (bm_category (sr_bench sr)) \<and> plain (sr_status sr) \<and>
     st_iterations (sr_stats sr) < 2 ^ 31 \<and> (\<forall>rel. st_reliability (sr_stats sr) = Some rel \<longrightarrow> plain rel)"

lemma line_read:
  assumes "plain run_id" "plain_subtest sr" "st_reliability (sr_stats sr) = Some rel"
  shows "\<exists>l. line_of run_id sr = l @ newline \<and> CHR 0x0A \<notin> set l \<and> jsonl_read l = jsonl_says run_id sr"
proof -
  define name where "name = bm_name (sr_bench sr)"
  define cat where "cat = bm_category (sr_bench sr)"
  define mean where "mean = fixed 6 (st_mean (sr_stats sr))"
  define cv where "cv = fixed 4 (st_cv (sr_stats sr))"
  define num where "num = dec (st_iterations (sr_stats sr))"
  let ?l = "''{'' @ quoted ''run_id'' @ '':'' @ quoted run_id @ '','' @ quoted ''bench'' @ '':'' @ quoted name @
       '','' @ quoted ''cat'' @ '':'' @ quoted cat @ '','' @ quoted ''mean'' @ '':'' @ mean @ '','' @
       quoted ''cv'' @ '':'' @ cv @ '','' @ quoted ''rel'' @ '':'' @ quoted rel @ '','' @ quoted ''n'' @ '':'' @ num @ ''}''"
  have line: "line_of run_id sr = ?l @ newline"
    using assms(3) by (simp add: line_of_def jsonl_line_def str_arg_def name_def cat_def mean_def cv_def num_def)
  have p: "plain run_id" "plain name" "plain cat" "plain rel" "plain mean" "plain cv" "plain num"
    using assms plain_fixed plain_dec
    by (simp_all add: plain_subtest_def name_def cat_def mean_def cv_def num_def)
  then have nl: "CHR 0x0A \<notin> set ?l" by (simp add: quoted_def plain_def)
  have q: "CHR 0x22 \<notin> set run_id" "CHR 0x22 \<notin> set name" "CHR 0x22 \<notin> set cat" "CHR 0x22 \<notin> set rel"
    "CHR 0x22 \<notin> set mean" "CHR 0x22 \<notin> set cv" "CHR 0x22 \<notin> set num"
    using p by (simp_all add: plain_def)
  have "splits (CHR 0x22) ?l =
      [''{'', ''run_id'', '':'', run_id, '','', ''bench'', '':'', name, '','', ''cat'', '':'', cat, '','', ''mean'',
       '':'' @ mean @ '','', ''cv'', '':'' @ cv @ '','', ''rel'', '':'', rel, '','', ''n'', '':'' @ num @ ''}'']"
    using q by (simp add: quoted_def splits_append glue_def)
  moreover have "atoi (num @ ''}'') = int (st_iterations (sr_stats sr))"
    using assms(2) by (simp add: num_def atoi_dec plain_subtest_def no_digit_def isdigit_def)
  ultimately have "jsonl_read ?l = jsonl_says run_id sr"
    using assms(3) by (simp add: jsonl_read_def jsonl_says_def Let_def name_def cat_def)
  with line nl show ?thesis by blast
qed

lemma lines_read:
  assumes "plain run_id" "\<forall>sr \<in> set srs. plain_subtest sr \<and> st_reliability (sr_stats sr) \<noteq> None"
  shows "map jsonl_read (butlast (splits (CHR 0x0A) (concat (map (line_of run_id) srs)))) = map (jsonl_says run_id) srs"
  using assms(2)
proof (induction srs)
  case (Cons sr srs)
  then obtain rel where "plain_subtest sr" "st_reliability (sr_stats sr) = Some rel" by auto
  from line_read [OF assms(1) this] obtain l
    where l: "line_of run_id sr = l @ newline" "CHR 0x0A \<notin> set l" "jsonl_read l = jsonl_says run_id sr" by blast
  have "splits (CHR 0x0A) (concat (map (line_of run_id) (sr # srs))) =
      l # splits (CHR 0x0A) (concat (map (line_of run_id) srs))"
    using l by (simp add: splits_append glue_def)
  then show ?case using Cons l splits_nonempty by simp
qed simp

text \<open>
  C33. The JSON lines can be read back: when every subtest has a rating and the texts hold no quote, backslash or
  line end, the file has one line per subtest, in their order, and cutting a line at its quotes gives the run,
  the benchmark, its category, its rating and its number of iterations; and a subtest without a rating (the
  entry the harness leaves for a benchmark that failed) makes the writer pass a null pointer to \<^verbatim>\<open>%s\<close>.
\<close>

theorem jsonl_roundtrip:
  assumes "plain (rp_run_id result)" "\<forall>sr \<in> set (rp_subtests result). plain_subtest sr"
  shows "if rated result
         then \<exists>s. output_jsonl True result = Ret (0, s) \<and>
                map jsonl_read (butlast (splits (CHR 0x0A) s)) = map (jsonl_says (rp_run_id result)) (rp_subtests result)
         else output_jsonl True result = Undef NullDeref"
proof (cases "rated result")
  case True
  then show ?thesis
    using assms lines_read [of "rp_run_id result" "rp_subtests result"] by (simp add: jsonl_written rated_def)
qed (simp add: jsonl_written)

subsection \<open>The brackets of the provenance file\<close>

text \<open>The closing brackets still due, and whether the reader is inside a string.\<close>

fun brackets :: "string \<times> bool \<Rightarrow> string \<Rightarrow> (string \<times> bool) option" where
  "brackets st [] = Some st"
| "brackets (due, True) (c # cs) = (if c = CHR 0x5C then None else brackets (due, c \<noteq> CHR 0x22) cs)"
| "brackets (due, False) (c # cs) =
     (if c = CHR 0x22 then brackets (due, True) cs
      else if c = CHR ''{'' then brackets (CHR ''}'' # due, False) cs
      else if c = CHR ''['' then brackets (CHR '']'' # due, False) cs
      else if c = CHR ''}'' \<or> c = CHR '']''
           then (case due of [] \<Rightarrow> None | d # ds \<Rightarrow> if d = c then brackets (ds, False) cs else None)
      else brackets (due, False) cs)"

lemma brackets_append: "brackets st (a @ b) = Option.bind (brackets st a) (\<lambda>st'. brackets st' b)"
  by (induction st a rule: brackets.induct) (auto split: list.split)

lemma brackets_inside: "CHR 0x22 \<notin> set s \<Longrightarrow> CHR 0x5C \<notin> set s \<Longrightarrow> brackets (due, True) s = Some (due, True)"
  by (induction s) auto

definition neutral :: "string \<Rightarrow> bool" where
  "neutral s \<longleftrightarrow> (\<forall>due. brackets (due, False) s = Some (due, False))"

lemma neutral_append [intro]: "neutral a \<Longrightarrow> neutral b \<Longrightarrow> neutral (a @ b)"
  by (simp add: neutral_def brackets_append)

lemma neutral_after: "neutral a \<Longrightarrow> brackets (due, False) (a @ b) = brackets (due, False) b"
  by (simp add: neutral_def brackets_append)

lemma neutral_quoted: "plain s \<Longrightarrow> neutral (quoted s)"
  by (simp add: neutral_def quoted_def brackets_append brackets_inside plain_def)

lemma numeric_not_bracket:
  "numeric c \<Longrightarrow> c \<noteq> CHR 0x22 \<and> c \<noteq> CHR ''{'' \<and> c \<noteq> CHR ''['' \<and> c \<noteq> CHR ''}'' \<and> c \<noteq> CHR '']''"
  by (auto simp: numeric_def isdigit_def)

lemma numeric_neutral: "\<forall>c \<in> set s. numeric c \<Longrightarrow> neutral s"
  unfolding neutral_def by (induction s) (simp_all add: numeric_not_bracket)

lemma neutral_fixed: "neutral (fixed n x)"
  using fixed_numeric by (rule numeric_neutral)

lemma neutral_dec: "neutral (dec n)"
  using dec_digits by (intro numeric_neutral) (auto simp: numeric_def)

lemma neutral_dec_int: "neutral (dec_int v)"
  using dec_int_numeric by (rule numeric_neutral)

lemma neutral_concat: "\<forall>x \<in> set xs. neutral (f x) \<Longrightarrow> neutral (concat (map f xs))"
proof (induction xs)
  case (Cons x xs)
  then have "neutral (f x)" "neutral (concat (map f xs))" by simp_all
  then show ?case by (simp add: neutral_append)
qed (simp add: neutral_def)

lemmas neutrals = neutral_quoted neutral_fixed neutral_dec neutral_dec_int

text \<open>Texts of the form key, value.\<close>

lemma field_neutral: "brackets (due, False) (field indent key val @ s) = brackets (due, False) (val @ s)"
  if "plain key" "\<forall>c \<in> set indent. c = CHR '' ''"
proof -
  have "neutral indent" using that(2) unfolding neutral_def by (induction indent) auto
  moreover have "neutral (quoted key)" using that(1) by (rule neutral_quoted)
  ultimately show ?thesis by (simp add: field_def neutral_after)
qed

lemmas bracket_steps = field_neutral neutral_after neutrals neutral_after [OF neutral_quoted]
  neutral_after [OF neutral_fixed] neutral_after [OF neutral_dec] neutral_after [OF neutral_dec_int]

lemma plain_keys [simp]:
  "plain ''name''" "plain ''category''" "plain ''status''" "plain ''mean''" "plain ''cv''" "plain ''reliability''"
  "plain ''ci_95''" "plain ''iterations''" "plain ''system''" "plain ''cpu_model''" "plain ''cpu_cores''"
  "plain ''numa_nodes''" "plain ''kernel''" "plain ''page_size''" "plain ''servmark_version''" "plain ''run_id''"
  "plain ''run_mode''" "plain ''overall_score''" "plain ''pillars''" "plain ''throughput''" "plain ''latency''"
  "plain ''efficiency''" "plain ''mitigation_tax_pct''" "plain ''thermal_derating''" "plain ''subtests''"
  "plain SSB_VERSION" "plain ''peak''" "plain ''sustained''"
  by (simp_all add: plain_def SSB_VERSION_def)

definition plain_system :: "system_info_t option \<Rightarrow> bool" where
  "plain_system sys = (case sys of None \<Rightarrow> True | Some si \<Rightarrow> plain (si_cpu_model si) \<and> plain (si_kernel_version si))"

lemma system_neutral: "plain_system sys \<Longrightarrow> neutral (provenance_system sys)"
  unfolding neutral_def
  by (cases sys) (simp_all add: provenance_system_def plain_system_def bracket_steps)

definition object_of :: "nat \<Rightarrow> nat \<times> subtest_result_t \<Rightarrow> string" where
  "object_of n isr = (case provenance_subtest n isr of Ret s \<Rightarrow> s | Undef u \<Rightarrow> [])"

lemma provenance_subtest_cases:
  "provenance_subtest n isr =
     (if st_reliability (sr_stats (snd isr)) = None then Undef NullDeref else Ret (object_of n isr))"
  by (auto simp: provenance_subtest_def object_of_def str_arg_def Let_def split: prod.split)

lemma object_neutral:
  assumes "plain_subtest sr" "st_reliability (sr_stats sr) = Some rel"
  shows "neutral (object_of n (i, sr))"
proof -
  have "plain (bm_name (sr_bench sr))" "plain (bm_category (sr_bench sr))" "plain (sr_status sr)" "plain rel"
    using assms by (simp_all add: plain_subtest_def)
  then show ?thesis
    using assms(2)
    by (simp add: neutral_def object_of_def provenance_subtest_def str_arg_def Let_def bracket_steps)
qed

lemma head_opens: "plain (rp_run_id result) \<Longrightarrow> brackets ([], False) (provenance_head result @ s) = brackets (''}'', False) s"
  by (simp add: provenance_head_def bracket_steps)

lemma objects_neutral:
  assumes "\<forall>sr \<in> set srs. plain_subtest sr \<and> st_reliability (sr_stats sr) \<noteq> None"
  shows "neutral (concat (map (object_of n) (zip is srs)))"
proof (intro neutral_concat ballI)
  fix x assume "x \<in> set (zip is srs)"
  then have "snd x \<in> set srs" by (metis prod.collapse set_zip_rightD)
  then obtain rel where "plain_subtest (snd x)" "st_reliability (sr_stats (snd x)) = Some rel" using assms by auto
  then show "neutral (object_of n x)" using object_neutral [of "snd x" rel n "fst x"] by simp
qed

subsection \<open>What the three writers share\<close>

text \<open>A writer returns -1 when its file cannot be opened; else it writes its text and returns 0 exactly when every
  subtest has a rating.\<close>

locale report_writer =
  fixes writer :: "bool \<Rightarrow> run_report_t \<Rightarrow> (int \<times> string) outcome"
  assumes not_opened: "writer False r = Ret (-1, [])"
    and rated_writes: "rated r \<Longrightarrow> \<exists>s. writer True r = Ret (0, s)"
    and unrated_null: "\<not> rated r \<Longrightarrow> writer True r = Undef NullDeref"
begin

lemma writer_status: "writer opened r = Ret (n, s) \<Longrightarrow> n = (if opened then 0 else -1)"
  using not_opened rated_writes [of r] unrated_null [of r] by (cases opened; cases "rated r") auto

lemma writer_defined: "is_ret (writer opened r) \<longleftrightarrow> (opened \<longrightarrow> rated r)"
  using not_opened rated_writes [of r] unrated_null [of r] by (cases opened; cases "rated r") auto

end

lemma html_rows:
  "print_loop html_row (rp_subtests r) =
     (if rated r then Ret (concat (map (\<lambda>sr. case html_row sr of Ret s \<Rightarrow> s | Undef u \<Rightarrow> []) (rp_subtests r)))
      else Undef NullDeref)"
  by (rule print_loop_rated [where g = "\<lambda>x. x"]) (auto simp: html_row_def str_arg_def rated_def)

lemma provenance_objects:
  "print_loop (provenance_subtest n) (zip [0..<length (rp_subtests r)] (rp_subtests r)) =
     (if rated r then Ret (concat (map (object_of n) (zip [0..<length (rp_subtests r)] (rp_subtests r))))
      else Undef NullDeref)"
proof (rule print_loop_rated [where g = snd])
  have "set (map snd (zip [0..<length (rp_subtests r)] (rp_subtests r))) = set (rp_subtests r)" by simp
  then have "snd ` set (zip [0..<length (rp_subtests r)] (rp_subtests r)) = set (rp_subtests r)" by (simp only: set_map)
  then show "(\<forall>x \<in> set (zip [0..<length (rp_subtests r)] (rp_subtests r)). st_reliability (sr_stats (snd x)) \<noteq> None) = rated r"
    unfolding rated_def by (metis (no_types, lifting) imageE imageI)
qed (simp add: provenance_subtest_cases)

interpretation jsonl: report_writer output_jsonl
  by unfold_locales (auto simp: jsonl_written, simp add: output_jsonl_def)

interpretation provenance: report_writer output_provenance
  by unfold_locales (simp_all add: output_provenance_def provenance_objects)

interpretation html: report_writer output_html_report
  by unfold_locales (simp_all add: output_html_report_def html_rows)

lemma provenance_written:
  "rated result \<Longrightarrow> output_provenance True result =
    Ret (0, provenance_head result @ provenance_system (rp_sysinfo result) @ field ''  '' ''subtests'' (''['' @ newline) @
      concat (map (object_of (length (rp_subtests result))) (zip [0..<length (rp_subtests result)] (rp_subtests result))) @
      ''  ]'' @ newline @ ''}'' @ newline)"
  by (simp add: output_provenance_def provenance_objects)

text \<open>
  The provenance file is well bracketed JSON: whenever every subtest has a rating and the texts need no
  escaping, each brace and square bracket outside a string closes the one opened last and none is left open,
  with or without the section on the system and for any number of subtests.
\<close>

theorem provenance_bracketed:
  assumes "rated result" "plain (rp_run_id result)" "\<forall>sr \<in> set (rp_subtests result). plain_subtest sr"
    "plain_system (rp_sysinfo result)"
  shows "\<exists>s. output_provenance True result = Ret (0, s) \<and> brackets ([], False) s = Some ([], False)"
proof -
  have "neutral (concat (map (object_of n) (zip is (rp_subtests result))))" for n "is"
    using assms(1,3) by (intro objects_neutral) (simp add: rated_def)
  then show ?thesis
    using assms(2,4) system_neutral
    by (simp add: provenance_written [OF assms(1)] head_opens bracket_steps)
qed

definition sample_report :: "string option \<Rightarrow> run_report_t" where
  "sample_report rel =
     \<lparr>rp_run_id = ''r1'', rp_mode = SSB_MODE_PEAK, rp_sysinfo = None,
      rp_subtests = [\<lparr>sr_bench = bench_int_sort, sr_stats = zero_stats\<lparr>st_reliability := rel\<rparr>,
        sr_normalized_score = 0, sr_status = ''ok''\<rparr>],
      rp_category_scores = replicate 16 0, rp_pillar_throughput = 1, rp_pillar_latency = 1,
      rp_pillar_efficiency = 1, rp_overall_score = 1, rp_mitigation_tax_pct = 0,
      rp_thermal_derating_factor = 0, rp_start_time = 0, rp_end_time = 75\<rparr>"

lemma sample_plain: "rel \<in> {None, Some ''Stable''} \<Longrightarrow> \<forall>sr \<in> set (rp_subtests (sample_report rel)). plain_subtest sr"
  by (auto simp: sample_report_def plain_subtest_def plain_def zero_stats_def bench_int_sort_def)

lemma jsonl_roundtrip_witness:
  "output_jsonl True (sample_report None) = Undef NullDeref \<and>
   (\<exists>s. output_jsonl True (sample_report (Some ''Stable'')) = Ret (0, s) \<and>
      map jsonl_read (butlast (splits (CHR 0x0A) s)) = [(''r1'', ''int-sort'', ''C1'', ''Stable'', 0)])"
proof
  have run: "plain (rp_run_id (sample_report rel))" for rel by (simp add: sample_report_def plain_def)
  show "output_jsonl True (sample_report None) = Undef NullDeref"
    using jsonl_roundtrip [OF run sample_plain, of None] by (simp add: rated_def) (simp add: sample_report_def)
  have "rated (sample_report (Some ''Stable''))" by (simp add: rated_def sample_report_def)
  then have "\<exists>s. output_jsonl True (sample_report (Some ''Stable'')) = Ret (0, s) \<and>
      map jsonl_read (butlast (splits (CHR 0x0A) s)) =
      map (jsonl_says (rp_run_id (sample_report (Some ''Stable'')))) (rp_subtests (sample_report (Some ''Stable'')))"
    using jsonl_roundtrip [OF run sample_plain, of "Some ''Stable''"] by simp
  moreover have "map (jsonl_says (rp_run_id (sample_report (Some ''Stable'')))) (rp_subtests (sample_report (Some ''Stable''))) =
      [(''r1'', ''int-sort'', ''C1'', ''Stable'', 0)]"
    by (simp add: sample_report_def jsonl_says_def zero_stats_def bench_int_sort_def)
  ultimately show "\<exists>s. output_jsonl True (sample_report (Some ''Stable'')) = Ret (0, s) \<and>
      map jsonl_read (butlast (splits (CHR 0x0A) s)) = [(''r1'', ''int-sort'', ''C1'', ''Stable'', 0)]" by simp
qed

lemma provenance_bracketed_witness:
  "\<exists>s. output_provenance True (sample_report (Some ''Stable'')) = Ret (0, s) \<and> brackets ([], False) s = Some ([], False)"
proof (rule provenance_bracketed)
  show "\<forall>sr \<in> set (rp_subtests (sample_report (Some ''Stable''))). plain_subtest sr" by (rule sample_plain) simp
qed (simp_all add: sample_report_def rated_def plain_system_def plain_def)

end
