(* ===== verification/Getopt.thy ===== *)
theory Getopt
  imports Config
begin

text \<open>
  The command line of \<^verbatim>\<open>src/main.c\<close>: its option tables, the library function \<^verbatim>\<open>getopt_long\<close> on them
  (exact names, unambiguous abbreviations, \<^verbatim>\<open>--name=value\<close>, grouped letters, \<^verbatim>\<open>--\<close>, operands skipped), the
  options it delivers to the switch, and the scan for \<^verbatim>\<open>--config\<close> that runs before it.
\<close>

datatype has_arg = no_argument | required_argument

definition long_opts :: "(string \<times> has_arg \<times> char) list" where
  "long_opts = [
     (''config'', required_argument, CHR ''C''),
     (''mode'', required_argument, CHR ''m''),
     (''validate'', no_argument, CHR ''v''),
     (''tier'', required_argument, CHR ''t''),
     (''category'', required_argument, CHR ''c''),
     (''benchmark'', required_argument, CHR ''b''),
     (''threads'', required_argument, CHR ''T''),
     (''mitigations-off'', no_argument, CHR ''x''),
     (''output-dir'', required_argument, CHR ''o''),
     (''reference'', required_argument, CHR ''r''),
     (''dry-run'', no_argument, CHR ''n''),
     (''list-categories'', no_argument, CHR ''L''),
     (''list-topology'', no_argument, CHR ''Z''),
     (''min-iterations'', required_argument, CHR ''i''),
     (''max-iterations'', required_argument, CHR ''I''),
     (''convergence'', required_argument, CHR ''g''),
     (''max-runtime'', required_argument, CHR ''R''),
     (''cpu-pin'', required_argument, CHR ''P''),
     (''numa-topo'', required_argument, CHR ''N''),
     (''numa-bind'', required_argument, CHR ''N''),
     (''membind'', required_argument, CHR ''M''),
     (''cooldown'', required_argument, CHR ''d''),
     (''generate-reference'', no_argument, CHR ''G''),
     (''version'', no_argument, CHR ''V''),
     (''help'', no_argument, CHR ''h'')]"

definition short_opts :: string where
  "short_opts = ''C:m:vt:c:b:T:xo:r:nLZi:I:g:R:P:N:M:d:GVh''"

text \<open>The labels of the switch.\<close>

definition switch_case :: "char \<Rightarrow> string \<Rightarrow> cli_opt" where
  "switch_case c optarg =
     (if c = CHR ''C'' then OptConfig optarg
      else if c = CHR ''m'' then OptMode optarg
      else if c = CHR ''v'' then OptValidate
      else if c = CHR ''t'' then OptTier optarg
      else if c = CHR ''c'' then OptCategory optarg
      else if c = CHR ''b'' then OptBenchmark optarg
      else if c = CHR ''T'' then OptThreads optarg
      else if c = CHR ''x'' then OptMitigations
      else if c = CHR ''o'' then OptOutputDir optarg
      else if c = CHR ''r'' then OptReference optarg
      else if c = CHR ''n'' then OptDryRun
      else if c = CHR ''L'' then OptListCategories
      else if c = CHR ''Z'' then OptListTopology
      else if c = CHR ''i'' then OptMinIterations optarg
      else if c = CHR ''I'' then OptMaxIterations optarg
      else if c = CHR ''g'' then OptConvergence optarg
      else if c = CHR ''R'' then OptMaxRuntime optarg
      else if c = CHR ''P'' then OptCpuPin optarg
      else if c = CHR ''N'' then OptNumaTopo optarg
      else if c = CHR ''M'' then OptMembind optarg
      else if c = CHR ''G'' then OptGenerateReference
      else if c = CHR ''d'' then OptCooldown optarg
      else if c = CHR ''V'' then OptVersion
      else if c = CHR ''h'' then OptHelp
      else OptUnknown)"

subsection \<open>getopt\_long\<close>

text \<open>A name that is not in the table is an abbreviation when all entries it is a prefix of agree.\<close>

definition find_long :: "string \<Rightarrow> (has_arg \<times> char) option" where
  "find_long nm =
     (case map_of long_opts nm of
        Some e \<Rightarrow> Some e
      | None \<Rightarrow> (case map snd (filter (\<lambda>(k, e). take (length nm) k = nm) long_opts) of
                   [] \<Rightarrow> None
                 | e # es \<Rightarrow> if list_all (\<lambda>e'. e' = e) es then Some e else None))"

definition long_step :: "string \<Rightarrow> string list \<Rightarrow> cli_opt \<times> string list" where
  "long_step body args =
     (let (nm, val) = (case cut_at (CHR ''='') body of Some (n, v) \<Rightarrow> (n, Some v) | None \<Rightarrow> (body, None))
      in case find_long nm of
           None \<Rightarrow> (OptUnknown, args)
         | Some (required_argument, c) \<Rightarrow>
             (case val of
                Some v \<Rightarrow> (switch_case c v, args)
              | None \<Rightarrow> (case args of [] \<Rightarrow> (OptUnknown, []) | a # rest \<Rightarrow> (switch_case c a, rest)))
         | Some (no_argument, c) \<Rightarrow> (case val of Some v \<Rightarrow> (OptUnknown, args) | None \<Rightarrow> (switch_case c [], args)))"

text \<open>What the letter string says of a letter.\<close>

definition short_kind :: "char \<Rightarrow> has_arg option" where
  "short_kind c =
     (if c = CHR '':'' then None
      else case dropWhile (\<lambda>d. d \<noteq> c) short_opts of
             [] \<Rightarrow> None
           | _ # rest \<Rightarrow> Some (if rest \<noteq> [] \<and> hd rest = CHR '':'' then required_argument else no_argument))"

fun short_steps :: "string \<Rightarrow> string list \<Rightarrow> cli_opt list \<times> string list" where
  "short_steps [] args = ([], args)"
| "short_steps (c # cs) args =
     (case short_kind c of
        None \<Rightarrow> (let (os, rest) = short_steps cs args in (OptUnknown # os, rest))
      | Some no_argument \<Rightarrow> (let (os, rest) = short_steps cs args in (switch_case c [] # os, rest))
      | Some required_argument \<Rightarrow>
          if cs \<noteq> [] then ([switch_case c cs], args)
          else (case args of [] \<Rightarrow> ([OptUnknown], []) | a # rest \<Rightarrow> ([switch_case c a], rest)))"

lemma long_step_shorter: "length (snd (long_step body args)) \<le> length args"
  by (auto simp: long_step_def Let_def split: option.split has_arg.split list.split prod.split)

lemma short_steps_shorter: "length (snd (short_steps cs args)) \<le> length args"
  by (induction cs args rule: short_steps.induct)
    (auto simp: Let_def split: option.split has_arg.split list.split prod.splits)

function getopt_long :: "string list \<Rightarrow> cli_opt list" where
  "getopt_long [] = []"
| "getopt_long (a # args) =
     (if a = ''--'' then []
      else if take 2 a = ''--'' then (let (opt, rest) = long_step (drop 2 a) args in opt # getopt_long rest)
      else if take 1 a = ''-'' \<and> a \<noteq> ''-'' then (let (os, rest) = short_steps (tl a) args in os @ getopt_long rest)
      else getopt_long args)"
  by pat_completeness auto

termination
proof (relation "measure length")
  fix a :: string and args x opt rest
  assume "x = long_step (drop 2 a) args" "(opt, rest) = x"
  then show "(rest, a # args) \<in> measure length" using long_step_shorter [of "drop 2 a" args] by (metis in_measure le_imp_less_Suc length_Cons snd_conv)
next
  fix a :: string and args x os rest
  assume "x = short_steps (tl a) args" "(os, rest) = x"
  then show "(rest, a # args) \<in> measure length" using short_steps_shorter [of "tl a" args] by (metis in_measure le_imp_less_Suc length_Cons snd_conv)
qed simp_all

subsection \<open>The scan for the config file\<close>

text \<open>The loop before \<open>getopt_long\<close>; \<open>args\<close> is \<open>argv\<close> without the program's name.\<close>

fun prescan :: "string \<Rightarrow> string list \<Rightarrow> string" where
  "prescan config_path [] = config_path"
| "prescan config_path (a # rest) =
     (if a = ''--config'' \<and> rest \<noteq> [] then hd rest
      else if take 9 a = ''--config='' then drop 9 a
      else if a = ''-C'' \<and> rest \<noteq> [] then hd rest
      else prescan config_path rest)"

subsection \<open>Writing options\<close>

text \<open>The long name of an option and its argument.\<close>

fun option_words :: "cli_opt \<Rightarrow> string list" where
  "option_words (OptConfig a) = [''--config'', a]"
| "option_words (OptMode a) = [''--mode'', a]"
| "option_words OptValidate = [''--validate'']"
| "option_words (OptTier a) = [''--tier'', a]"
| "option_words (OptCategory a) = [''--category'', a]"
| "option_words (OptBenchmark a) = [''--benchmark'', a]"
| "option_words (OptThreads a) = [''--threads'', a]"
| "option_words OptMitigations = [''--mitigations-off'']"
| "option_words (OptOutputDir a) = [''--output-dir'', a]"
| "option_words (OptReference a) = [''--reference'', a]"
| "option_words OptDryRun = [''--dry-run'']"
| "option_words OptListCategories = [''--list-categories'']"
| "option_words OptListTopology = [''--list-topology'']"
| "option_words (OptMinIterations a) = [''--min-iterations'', a]"
| "option_words (OptMaxIterations a) = [''--max-iterations'', a]"
| "option_words (OptConvergence a) = [''--convergence'', a]"
| "option_words (OptMaxRuntime a) = [''--max-runtime'', a]"
| "option_words (OptCpuPin a) = [''--cpu-pin'', a]"
| "option_words (OptNumaTopo a) = [''--numa-topo'', a]"
| "option_words (OptMembind a) = [''--membind'', a]"
| "option_words (OptCooldown a) = [''--cooldown'', a]"
| "option_words OptGenerateReference = [''--generate-reference'']"
| "option_words OptVersion = [''--version'']"
| "option_words OptHelp = [''--help'']"
| "option_words OptUnknown = [''--?'']"

lemma cut_none: "c \<notin> set s \<Longrightarrow> cut_at c s = None"
  using cut_at_Some [of c s] by (cases "cut_at c s") auto

lemma long_words:
  assumes "map_of long_opts nm = Some (k, c)" "CHR ''='' \<notin> set nm" "nm \<noteq> []"
  shows "k = required_argument \<Longrightarrow> getopt_long ((''--'' @ nm) # a # rest) = switch_case c a # getopt_long rest"
    "k = no_argument \<Longrightarrow> getopt_long ((''--'' @ nm) # rest) = switch_case c [] # getopt_long rest"
  using assms by (simp_all add: long_step_def find_long_def cut_none Let_def)

lemma getopt_one: "opt \<noteq> OptUnknown \<Longrightarrow> getopt_long (option_words opt @ rest) = opt # getopt_long rest"
  by (cases opt)
    (simp_all del: getopt_long.simps,
     simp_all add: long_step_def find_long_def cut_none Let_def long_opts_def switch_case_def)

lemma getopt_words: "OptUnknown \<notin> set opts \<Longrightarrow> getopt_long (concat (map option_words opts)) = opts"
  by (induction opts) (auto simp: getopt_one simp del: getopt_long.simps(2))

text \<open>The arguments the scan could mistake for the option itself.\<close>

definition looks_config :: "string \<Rightarrow> bool" where
  "looks_config a \<longleftrightarrow> a = ''--config'' \<or> a = ''-C'' \<or> take 9 a = ''--config=''"

fun config_arg :: "cli_opt \<Rightarrow> string option" where
  "config_arg (OptConfig a) = Some a"
| "config_arg opt = None"

lemma prescan_skip: "\<not> looks_config a \<Longrightarrow> prescan d (a # rest) = prescan d rest"
  by (simp add: looks_config_def)

lemma prescan_skip_all: "\<forall>a \<in> set ws. \<not> looks_config a \<Longrightarrow> prescan d (ws @ rest) = prescan d rest"
  by (induction ws) (simp_all add: prescan_skip del: prescan.simps(2))

lemma long_names_harmless: "opt \<noteq> OptUnknown \<Longrightarrow> config_arg opt = None \<Longrightarrow> \<not> looks_config (hd (option_words opt))"
  by (cases opt) (simp_all add: looks_config_def)

lemma prescan_one:
  assumes "opt \<noteq> OptUnknown" "\<forall>a \<in> set (tl (option_words opt)). \<not> looks_config a"
  shows "prescan d (option_words opt @ rest) = (case config_arg opt of Some p \<Rightarrow> p | None \<Rightarrow> prescan d rest)"
proof (cases "config_arg opt")
  case None
  from long_names_harmless [OF assms(1) None] assms(2) have "\<forall>a \<in> set (option_words opt). \<not> looks_config a"
    by (cases "option_words opt") auto
  then have "prescan d (option_words opt @ rest) = prescan d rest" by (rule prescan_skip_all)
  then show ?thesis using None by simp
next
  case (Some p)
  then show ?thesis by (cases opt) simp_all
qed

lemma prescan_words:
  assumes "OptUnknown \<notin> set opts" "\<forall>opt \<in> set opts. \<forall>a \<in> set (tl (option_words opt)). \<not> looks_config a"
  shows "prescan d (concat (map option_words opts)) =
    (case List.map_filter config_arg opts of [] \<Rightarrow> d | p # _ \<Rightarrow> p)"
  using assms
proof (induction opts)
  case (Cons opt opts)
  then have "prescan d (option_words opt @ concat (map option_words opts)) =
      (case config_arg opt of Some p \<Rightarrow> p | None \<Rightarrow> prescan d (concat (map option_words opts)))"
    by (intro prescan_one) auto
  then show ?case using Cons by (simp add: map_filter_simps split: option.split)
qed (simp add: map_filter_simps)

text \<open>
  C34. Every command line made of long options is understood as written: \<^verbatim>\<open>getopt_long\<close> on the tables of
  \<^verbatim>\<open>main\<close> delivers exactly these options with these arguments, in this order and whatever the arguments are
  (also when they look like options), and the scan that chooses the config file before it finds the first
  \<^verbatim>\<open>--config\<close>, when no argument is written like that option.
\<close>

theorem command_line_roundtrip:
  assumes "OptUnknown \<notin> set opts"
  shows "getopt_long (concat (map option_words opts)) = opts \<and>
    ((\<forall>opt \<in> set opts. \<forall>a \<in> set (tl (option_words opt)). \<not> looks_config a) \<longrightarrow>
     prescan d (concat (map option_words opts)) = (case List.map_filter config_arg opts of [] \<Rightarrow> d | p # _ \<Rightarrow> p))"
  using assms getopt_words prescan_words by blast

lemma command_line_roundtrip_witness:
  "getopt_long [''--tier'', ''2'', ''--dry-run'', ''--config'', ''a.cfg''] = [OptTier ''2'', OptDryRun, OptConfig ''a.cfg''] \<and>
   prescan ''d'' [''--tier'', ''2'', ''--dry-run'', ''--config'', ''a.cfg''] = ''a.cfg''"
  using command_line_roundtrip [of "[OptTier ''2'', OptDryRun, OptConfig ''a.cfg'']" "''d''"]
  by (simp add: looks_config_def map_filter_simps del: getopt_long.simps prescan.simps)

text \<open>
  A config file given as \<^verbatim>\<open>-Cfile\<close>, or by an abbreviation such as \<^verbatim>\<open>--conf=file\<close>, is accepted by
  \<^verbatim>\<open>getopt_long\<close> but never read: the scan that chooses the file to load does not know these forms, so the run
  uses the default file and only announces the one that was asked for.
\<close>

theorem config_option_unread:
  "getopt_long [''-C'' @ c # f] = [OptConfig (c # f)] \<and> prescan d [''-C'' @ c # f] = d \<and>
   getopt_long [''--conf='' @ c # f] = [OptConfig (c # f)] \<and> prescan d [''--conf='' @ c # f] = d"
  by (simp add: short_kind_def short_opts_def switch_case_def long_step_def find_long_def long_opts_def cut_at_def)

end
