(* ===== verification/MainTexts.thy ===== *)
theory MainTexts
  imports Getopt Reports SysHost Scoring
begin

text \<open>
  \<^verbatim>\<open>main\<close> of \<^verbatim>\<open>src/main.c\<close>: the choice of the config file, the options that print and exit, the dry run, and
  the run with its reports. What the program does to the outside, in order, is a list of actions: commands run,
  texts printed to standard output, warnings of \<^verbatim>\<open>main\<close> on standard error, files written.
\<close>

subsection \<open>The texts of the options that exit\<close>

definition pad_left :: "nat \<Rightarrow> string \<Rightarrow> string" where
  "pad_left n s = replicate (n - length s) (CHR '' '') @ s"

definition usage_lines :: "string list" where
  "usage_lines = [
     ''Options:'',
     ''  --config <file>           Config file (default: config/default.cfg)'',
     ''  --mode <peak|sustained>   Run mode (default: peak)'',
     ''  --validate                Run system validation only'',
     ''  --tier <1|2|3>            Run specific tier only (default: 1)'',
     ''  --category <C1..C15>      Run specific category only'',
     ''  --benchmark <name>        Run specific benchmark by name'',
     ''  --threads <N>             Run N parallel instances (default: auto)'',
     ''  --mitigations-off         Run with mitigations=off reference'',
     ''  --output-dir <dir>        Output directory (default: .)'',
     ''  --reference <file>        Frozen reference file path'',
     ''  --dry-run                 List benchmarks without running'',
     ''  --list-categories         List categories and exit'',
     ''  --list-topology           Show CPU/NUMA/cache topology and exit'',
     ''  --min-iterations <N>      Override min iterations (default: 5)'',
     ''  --max-iterations <N>      Override max iterations (default: 31)'',
     ''  --convergence <F>         Override convergence SEM/mean target'',
     ''  --max-runtime <sec>       Override max runtime per benchmark'',
     ''  --cpu-pin <spec>          CPU pinning: auto|auto-all|auto-numa|<list>'',
     ''  --numa-topo <spec>        NUMA topo: N|@file|cpu_range:nid,...'',
     ''  --membind <policy>        Memory policy: local|interleave|<node_id>'',
     ''  --cooldown <sec>          Override cooldown between benchmarks'',
     ''  --generate-reference      Save result means as reference baseline'',
     ''  --version                 Print version and exit'',
     ''  --help                    Show this help'']"

definition version_line :: string where
  "version_line = ''ServMark '' @ SSB_VERSION @ newline"

definition print_usage :: "string \<Rightarrow> string" where
  "print_usage prog =
     version_line @ ''Usage: '' @ prog @ '' [options]'' @ newline @ concat (map (\<lambda>l. l @ newline) usage_lines)"

definition list_categories :: string where
  "list_categories =
     (let (cats, ncat) = scoring_get_categories
      in ''Categories ('' @ dec ncat @ ''):'' @ newline @
         ''  '' @ pad_right 6 ''ID'' @ '' '' @ pad_right 30 ''Name'' @ '' '' @ pad_left 8 ''Weight'' @ newline @
         ''  ------ ------------------------------ --------'' @ newline @
         concat (map (\<lambda>cw. ''  '' @ pad_right 6 (cw_id cw) @ '' '' @ pad_right 30 (cw_name cw) @ '' '' @
                   pad_left 7 (fixed 0 (cw_weight cw * 100)) @ ''%'' @ newline) (take ncat cats)))"

text \<open>A node array that could not be allocated, or a cache type that could not be read, is a null pointer.\<close>

definition topology_node :: "numa_node_t \<Rightarrow> string" where
  "topology_node nd =
     ''    Node '' @ dec_int (nd_id nd) @ '': '' @ dec_int (nd_cpu_count nd) @ '' CPUs, '' @
     dec (nd_memory_kb nd div 1024) @ '' MB RAM'' @ newline"

definition topology_cache :: "cache_info_t \<Rightarrow> string outcome" where
  "topology_cache c =
     out_bind (str_arg (ci_type c)) (\<lambda>ty. Ret (
       ''    L'' @ dec_int (ci_level c) @ '' '' @ ty @ '': '' @ dec (ci_size_kb c) @ '' KB (line='' @
       dec_int (ci_line_size c) @ '', assoc='' @ dec_int (ci_associativity c) @ '')'' @ newline))"

definition list_topology :: "system_info_t option \<Rightarrow> string outcome" where
  "list_topology info =
     (case info of
        None \<Rightarrow> Ret []
      | Some si \<Rightarrow>
          out_bind (case si_numa_nodes si of
                      None \<Rightarrow> if 0 < si_numa_node_count si then Undef NullDeref else Ret []
                    | Some nds \<Rightarrow> Ret (concat (map topology_node nds)))
            (\<lambda>nodes. out_bind (print_loop topology_cache (si_caches si)) (\<lambda>caches. Ret (
               ''CPU topology:'' @ newline @
               ''  Model: '' @ si_cpu_model si @ newline @
               ''  Physical cores: '' @ dec_int (si_cpu_cores_physical si) @ '', Logical threads: '' @
               dec_int (si_cpu_threads_logical si) @ '', SMT: '' @ (if si_smt_enabled si then ''yes'' else ''no'') @ newline @
               ''  NUMA nodes: '' @ dec_int (si_numa_node_count si) @ newline @ nodes @
               ''  Cache levels: '' @ dec_int (si_cache_level_count si) @ newline @ caches))))"

subsection \<open>The config file\<close>

text \<open>\<open>readable\<close> is \<^verbatim>\<open>access(path, R_OK) == 0\<close>, which holds of a readable directory too.\<close>

definition xdg_path :: "(string \<Rightarrow> string option) \<Rightarrow> string option" where
  "xdg_path env =
     (case env ''XDG_CONFIG_HOME'' of
        Some d \<Rightarrow> Some d
      | None \<Rightarrow> (case env ''HOME'' of
                   Some home \<Rightarrow> Some (take 511 (home @ ''/.config/servmark/default.cfg''))
                 | None \<Rightarrow> None))"

definition config_search :: "(string \<Rightarrow> string option) \<Rightarrow> (string \<Rightarrow> bool) \<Rightarrow> string" where
  "config_search env readable =
     (case filter readable (List.map_filter id
         [xdg_path env, Some ''/etc/servmark/default.cfg'', Some ''config/default.cfg'']) of
        p # _ \<Rightarrow> p
      | [] \<Rightarrow> ''config/default.cfg'')"

subsection \<open>The dry run\<close>

definition listed :: "run_config_t \<Rightarrow> benchmark_t \<Rightarrow> bool" where
  "listed config b \<longleftrightarrow> cfg_bench_filter config = [] \<or> list_ex (\<lambda>n. bm_name b = n) (cfg_bench_filter config)"

definition dry_run_line :: "benchmark_t \<Rightarrow> string" where
  "dry_run_line b =
     ''  ['' @ bm_category b @ ''] '' @ pad_right 30 (bm_name b) @ '' '' @ quoted (bm_description b) @
     '' (Tier '' @ dec_int (bm_tier b) @ '')'' @ newline"

definition dry_run :: "registry \<Rightarrow> run_config_t \<Rightarrow> string" where
  "dry_run reg config =
     ''Registered benchmarks ('' @ dec (length (registered reg)) @ '' total):'' @ newline @
     concat (map dry_run_line (filter (listed config) (registered reg))) @
     (if cfg_bench_filter config \<noteq> []
      then newline @ ''  (Filtered: '' @ dec (length (cfg_bench_filter config)) @
           '' benchmarks selected from config)'' @ newline
      else [])"

end
