(* ===== verification/MainProg.thy ===== *)
theory MainProg
  imports MainTexts
begin

text \<open>
  \<^verbatim>\<open>main\<close> as a whole: from \<^verbatim>\<open>argv\<close> to the exit status, with the run of the harness and the reports in between.
  The machine is the state of the earlier theories: \<open>world\<close> (clocks, memory, descriptors), \<open>host\<close> and \<open>probe_env\<close>
  (CPUs and files), and the operations behind the function pointers of the benchmarks.
\<close>

subsection \<open>The machine and the actions\<close>

text \<open>\<open>m_opens\<close> tells for which paths \<^verbatim>\<open>fopen\<close> for writing succeeds; \<open>m_start\<close> and \<open>m_end\<close> are the
  two readings of \<^verbatim>\<open>time\<close>, \<open>m_ctime\<close> is the first as text.\<close>

record 's machine =
  m_getenv :: "string \<Rightarrow> string option"
  m_probe :: probe_env
  m_host :: host
  m_mem :: "nat \<Rightarrow> bool"
  m_child :: "benchmark_t \<Rightarrow> nat \<Rightarrow> world option"
  m_ops :: "benchmark_t \<Rightarrow> 's bench_ops"
  m_urandom :: "8 word list option"
  m_start :: int
  m_end :: int
  m_ctime :: string
  m_opens :: "string \<Rightarrow> bool"
  m_nofile :: "nat option"

datatype action = Shell string | Out string | Err string | Written string string

subsection \<open>The run and its result structure\<close>

text \<open>The node count after the run: that of the override when there was one, whether or not its array
  could be allocated (\<open>m_mem 5\<close>).\<close>

definition node_count :: "'s machine \<Rightarrow> run_config_t \<Rightarrow> system_info_t \<Rightarrow> int" where
  "node_count m config si =
     (case (si_numa_nodes si, cfg_numa_topo_spec config) of
        (Some old, Some (c # cs)) \<Rightarrow>
          (case override_nodes (m_host m) (\<lambda>i. i = 5 \<or> m_mem m i) config (Some old) of
             Ret (Some nds) \<Rightarrow> int (length nds) | _ \<Rightarrow> si_numa_node_count si)
      | _ \<Rightarrow> si_numa_node_count si)"

text \<open>What \<^verbatim>\<open>harness_run\<close> leaves in the structure besides the subtests; the scores are zero until \<^verbatim>\<open>main\<close> sets them.\<close>

definition report_of ::
    "'s machine \<Rightarrow> string \<Rightarrow> system_info_t option \<Rightarrow> run_result_t \<Rightarrow> run_report_t" where
  "report_of m run_id info res =
     \<lparr>rp_run_id = run_id, rp_mode = cfg_mode (rr_config res),
      rp_sysinfo = map_option (\<lambda>si. si\<lparr>si_numa_nodes := rr_nodes res,
                                      si_numa_node_count := node_count m (rr_config res) si\<rparr>) info,
      rp_subtests = rr_subtests res, rp_category_scores = replicate 16 0,
      rp_pillar_throughput = 0, rp_pillar_latency = 0, rp_pillar_efficiency = 0, rp_overall_score = 0,
      rp_mitigation_tax_pct = 0, rp_thermal_derating_factor = 0,
      rp_start_time = m_start m, rp_end_time = m_end m\<rparr>"

definition run_report ::
    "'s machine \<Rightarrow> registry \<Rightarrow> run_config_t \<Rightarrow> world
     \<Rightarrow> (int \<times> (run_report_t \<times> run_result_t) option \<times> world) outcome" where
  "run_report m reg config w =
     (if \<not> fst (c_malloc w) then Ret (-1, None, snd (c_malloc w))
      else let (run_id, w) = output_generate_uuid (m_urandom m) w
        in out_bind (system_probe (m_probe m)) (\<lambda>(_, info).
             out_bind (harness_run (m_host m) (m_mem m) (m_child m) (m_ops m)
                         (case info of None \<Rightarrow> None | Some si \<Rightarrow> si_numa_nodes si) reg config w)
               (\<lambda>(ret, res, w). Ret (ret, map_option (\<lambda>r. (report_of m run_id info r, r)) res, w))))"

text \<open>The scores \<^verbatim>\<open>main\<close> computes; the geometric mean of three values always exists.\<close>

definition score_report :: "run_report_t \<Rightarrow> run_report_t outcome" where
  "score_report rep =
     out_bind (scoring_compute_pillars (rp_subtests rep)) (\<lambda>(t, l, e). Ret (
       rep\<lparr>rp_pillar_throughput := t, rp_pillar_latency := l, rp_pillar_efficiency := e,
           rp_overall_score := (case scoring_overall_score t l e of Some s \<Rightarrow> s | None \<Rightarrow> 0)\<rparr>))"

subsection \<open>Writing the reports\<close>

text \<open>The path buffers hold 511 characters.\<close>

definition report_path :: "run_config_t \<Rightarrow> run_report_t \<Rightarrow> string \<Rightarrow> string" where
  "report_path config rep suffix = take 511 (cfg_output_dir config @ ''/'' @ rp_run_id rep @ suffix)"

definition write_report ::
    "'s machine \<Rightarrow> (bool \<Rightarrow> run_report_t \<Rightarrow> (int \<times> string) outcome) \<Rightarrow> string \<Rightarrow> string \<Rightarrow> run_report_t
     \<Rightarrow> action list outcome" where
  "write_report m writer label path rep =
     out_bind (writer (m_opens m path) rep) (\<lambda>(_, body). Ret (
       (if m_opens m path then [Written path body] else []) @ [Out (label @ path @ newline)]))"

definition reference_report :: "'s machine \<Rightarrow> run_config_t \<Rightarrow> run_report_t \<Rightarrow> action list" where
  "reference_report m config rep =
     (let path = report_path config rep ''.reference.txt''
      in if \<not> cfg_generate_reference config then []
         else if m_opens m path
         then [Written path (write_reference (fixed 6) (m_ctime m) path (rp_subtests rep)),
               Out (''  Reference:   '' @ path @ newline)]
         else [Err (''Warning: cannot write reference to '' @ CHR 0x27 # path @ [CHR 0x27] @ newline)])"

definition write_reports :: "'s machine \<Rightarrow> run_config_t \<Rightarrow> run_report_t \<Rightarrow> action list outcome" where
  "write_reports m config rep =
     out_bind (write_report m output_provenance ''  Provenance: '' (report_path config rep ''.provenance.json'') rep) (\<lambda>prov.
     out_bind (write_report m output_jsonl ''  Results:    '' (report_path config rep ''.results.jsonl'') rep) (\<lambda>lines.
     out_bind (write_report m output_html_report ''  Report:     '' (report_path config rep ''.report.html'') rep) (\<lambda>html.
       Ret (prov @ lines @ html @ [Out (snd (output_terminal_summary rep))] @ reference_report m config rep))))"

subsection \<open>main\<close>

text \<open>\<^verbatim>\<open>__builtin_ctz\<close> of the 32 bits of a non-zero \<^verbatim>\<open>int\<close>.\<close>

definition builtin_ctz :: "int \<Rightarrow> nat" where
  "builtin_ctz v = length (takeWhile (\<lambda>i. \<not> bit v i) [0..<32])"

definition rule_line :: string where
  "rule_line = ''  '' @ concat (replicate 43 [char_of (226 :: nat), char_of (148 :: nat), char_of (128 :: nat)]) @ newline @ newline"

definition banner :: "run_config_t \<Rightarrow> string \<Rightarrow> string" where
  "banner config config_path =
     newline @ ''  ServMark '' @ SSB_VERSION @ ''  |  Mode: '' @
     (if cfg_mode config = SSB_MODE_PEAK then ''peak'' else ''sustained'') @ ''  |  Tier '' @
     dec (if cfg_tier_mask config \<noteq> 0 then builtin_ctz (cfg_tier_mask config) else 0) @
     ''  |  Instances: '' @ dec_int (cfg_num_instances config) @
     (if cfg_bench_filter config \<noteq> []
      then ''  |  Benchmarks: '' @ dec (length (cfg_bench_filter config)) else []) @ newline @
     ''  Config: '' @ config_path @ newline @ rule_line"

text \<open>From the call of \<^verbatim>\<open>harness_run\<close> to the end.\<close>

definition main_run ::
    "'s machine \<Rightarrow> registry \<Rightarrow> run_config_t \<Rightarrow> world \<Rightarrow> (int \<times> action list \<times> world) outcome" where
  "main_run m reg config w =
     out_bind (run_report m reg config w) (\<lambda>(ret, res, w).
       case res of
         None \<Rightarrow> Ret (1, [Err (''Error: benchmark run failed'' @ newline)], w)
       | Some (rep, r) \<Rightarrow>
           if ret \<noteq> 0 then Ret (1, [Err (''Error: benchmark run failed'' @ newline)], w)
           else out_bind (score_report rep) (\<lambda>rep.
                out_bind (write_reports m config rep) (\<lambda>acts.
                  Ret (0, acts, harness_free_result (Some r) w))))"

text \<open>The text of the first option that ends the program.\<close>

fun exit_output :: "'s machine \<Rightarrow> string \<Rightarrow> cli_opt list \<Rightarrow> string outcome" where
  "exit_output m prog [] = Ret []"
| "exit_output m prog (opt # opts) =
     (case opt of
        OptListCategories \<Rightarrow> Ret list_categories
      | OptListTopology \<Rightarrow> out_bind (system_probe (m_probe m)) (\<lambda>(_, info). list_topology info)
      | OptVersion \<Rightarrow> Ret version_line
      | OptHelp \<Rightarrow> Ret (print_usage prog)
      | OptUnknown \<Rightarrow> Ret (print_usage prog)
      | _ \<Rightarrow> exit_output m prog opts)"

text \<open>The path the banner names: that of the last \<^verbatim>\<open>--config\<close>.\<close>

definition shown_config :: "string \<Rightarrow> cli_opt list \<Rightarrow> string" where
  "shown_config path opts = last (path # List.map_filter config_arg opts)"

definition setup_actions :: "'s machine \<Rightarrow> run_config_t \<Rightarrow> action list" where
  "setup_actions m config =
     (if cfg_num_instances config > 64
      then [Err (''Warning: '' @ dec_int (cfg_num_instances config) @ '' parallel instances on a '' @
              dec_int (cfg_num_instances config) @ ''-CPU system may cause memory pressure'' @ newline)] else []) @
     [Shell (take 511 (''mkdir -p '' @ cfg_output_dir config))] @
     (if cfg_require_validate config
      then [Out (''Pre-flight validation (require_validate=1):'' @ newline),
            Out (snd (validate_system (pe_files (m_probe m)) (m_nofile m)))] else [])"

definition config_warning :: "string option \<Rightarrow> string \<Rightarrow> action list" where
  "config_warning file path =
     (case file of
        Some body \<Rightarrow> []
      | None \<Rightarrow> [Err (''Warning: cannot open config '' @ CHR 0x27 # path @ [CHR 0x27] @ '', using defaults'' @ newline)])"

definition main_prog ::
    "'s machine \<Rightarrow> registry \<Rightarrow> (string \<Rightarrow> real) \<Rightarrow> string \<Rightarrow> string list \<Rightarrow> world
     \<Rightarrow> (int \<times> action list \<times> world) outcome" where
  "main_prog m reg atof_fn prog args w =
     (let path = prescan (config_search (m_getenv m) (pe_readable (m_probe m))) args;
          file = pe_files (m_probe m) path;
          opts = getopt_long args
      in out_bind (main_config atof_fn (h_ncpu (m_host m)) file opts) (\<lambda>r.
           case r of
             Exit e \<Rightarrow> out_bind (exit_output m prog opts) (\<lambda>t. Ret (e, config_warning file path @ [Out t], w))
           | Continue config validate_only \<Rightarrow>
               let acts = config_warning file path @ setup_actions m config
               in if validate_only
                  then Ret (0, acts @ [Out (snd (validate_system (pe_files (m_probe m)) (m_nofile m)))], w)
                  else if cfg_dry_run config then Ret (0, acts @ [Out (dry_run reg config)], w)
                  else out_bind (main_run m reg config w) (\<lambda>(e, more, w).
                         Ret (e, acts @ [Out (banner config (shown_config path opts))] @ more, w))))"

end
