(* ===== verification/MainSpec.thy ===== *)
theory MainSpec
  imports MainProg
begin

text \<open>
  What the program as a whole guarantees: the results file of a successful run against the benchmarks the
  configuration selects, the dry run, and the choice of the config file.
\<close>

subsection \<open>When the reports are written\<close>

context report_writer
begin

lemma write_report_defined: "is_ret (write_report m writer label path rep) \<longleftrightarrow> (m_opens m path \<longrightarrow> rated rep)"
  using writer_defined [of "m_opens m path" rep]
  by (cases "writer (m_opens m path) rep") (auto simp: write_report_def)

end

lemma is_ret_bind: "is_ret (out_bind x f) \<longleftrightarrow> (\<exists>y. x = Ret y \<and> is_ret (f y))"
  by (cases x) simp_all

text \<open>
  C40. The reports need every rating: whatever the run produced, the three report files are written without
  undefined behaviour exactly when every subtest has a rating or none of the three files can be opened. One failed
  benchmark therefore costs the reports of all others.
\<close>

theorem reports_need_ratings:
  "is_ret (write_reports m config rep) \<longleftrightarrow>
     rated rep \<or> (\<forall>suffix \<in> {''.provenance.json'', ''.results.jsonl'', ''.report.html''}.
                     \<not> m_opens m (report_path config rep suffix))"
proof -
  have "is_ret (write_reports m config rep) \<longleftrightarrow>
      is_ret (write_report m output_provenance ''  Provenance: '' (report_path config rep ''.provenance.json'') rep) \<and>
      is_ret (write_report m output_jsonl ''  Results:    '' (report_path config rep ''.results.jsonl'') rep) \<and>
      is_ret (write_report m output_html_report ''  Report:     '' (report_path config rep ''.report.html'') rep)"
    unfolding write_reports_def is_ret_bind by (auto simp: is_ret_iff)
  then show ?thesis
    by (auto simp only: provenance.write_report_defined jsonl.write_report_defined html.write_report_defined
        ball_simps insert_iff empty_iff simp_thms)
qed

subsection \<open>The statistics of a run\<close>

text \<open>The rating is one of the labels, the number of iterations fits the raw values.\<close>

definition rating_ok :: "benchmark_stats_t \<Rightarrow> bool" where
  "rating_ok s \<longleftrightarrow> st_iterations s \<le> 31 \<and> (\<forall>r. st_reliability s = Some r \<longrightarrow> (\<exists>cv. r = stats_reliability_label cv))"

lemma rating_ok_zero: "rating_ok zero_stats"
  by (simp add: rating_ok_def zero_stats_def)

lemma rating_ok_compute:
  "stats_compute rnd ok vs (Some s) r = Ret (ret, Some out, r') \<Longrightarrow> rating_ok s \<Longrightarrow> rating_ok out"
  by (auto simp: stats_compute_def rating_ok_def zero_stats_def ssb_consts Let_def split: if_splits prod.splits option.splits)

lemma stats_compute_out:
  "stats_compute rnd ok vs (Some s) r = Ret (ret, out, r') \<Longrightarrow> \<exists>o'. out = Some o'"
  by (auto simp: stats_compute_def Let_def split: if_splits prod.splits option.splits)

lemma rating_ok_stats_on: "stats_on vs s w = Ret (ret, out, w') \<Longrightarrow> rating_ok s \<Longrightarrow> rating_ok out"
  using stats_compute_out rating_ok_compute
  by (fastforce simp: stats_on_def Let_def out_bind_eq_Ret split: if_splits prod.splits)

lemma rating_ok_single:
  "harness_run_single b ops s ov w = Ret (ret, out, w') \<Longrightarrow> rating_ok s \<Longrightarrow> rating_ok out"
  using rating_ok_stats_on
  by (fastforce simp: harness_run_single_def Let_def out_bind_eq_Ret split: if_splits)

lemma rating_ok_parallel_stats:
  "parallel_stats hib rs s w = Ret (out, w') \<Longrightarrow> rating_ok s \<Longrightarrow> rating_ok out"
  using rating_ok_stats_on rating_ok_zero
  by (fastforce simp: parallel_stats_def out_bind_eq_Ret split: if_splits)

lemma rating_ok_parallel:
  assumes run: "harness_run_parallel h mem cw b ops n s ov st w = Ret (ret, out, st', w')" and s: "rating_ok s"
  shows "rating_ok out"
proof -
  obtain p1 w1 where m1: "c_malloc w = (p1, w1)" by fastforce
  obtain p2 w2 where m2: "c_malloc w1 = (p2, w2)" by fastforce
  show ?thesis
  proof (cases "p1 \<and> p2")
    case False
    then show ?thesis using run s by (simp add: harness_run_parallel_def m1 m2)
  next
    case True
    with run obtain st1 where st1: "parallel_setup h mem ov st = Ret st1"
      by (cases "parallel_setup h mem ov st") (simp_all add: harness_run_parallel_def m1 m2)
    obtain sp w3 where sp: "spawn_loop n [] w2 = (sp, w3)" by fastforce
    show ?thesis
    proof (cases sp)
      case None
      then show ?thesis using run s True by (simp add: harness_run_parallel_def m1 m2 st1 sp)
    next
      case (Some pipes)
      obtain p3 w4 where m3: "c_malloc w3 = (p3, w4)" by fastforce
      obtain u where u: "children_place h st1 n = Ret u"
        using run True Some by (cases "children_place h st1 n") (simp_all add: harness_run_parallel_def m1 m2 st1 sp)
      show ?thesis
      proof (cases p3)
        case False
        then show ?thesis using run s True Some by (simp add: harness_run_parallel_def m1 m2 m3 st1 sp u)
      next
        case p3: True
        let ?c = "collect_loop (\<lambda>i. child_process b ops (cw i)) 0 pipes w4"
        have "out_bind ?c (\<lambda>(results, any_failed, w). out_bind
              (if any_failed then Ret (s, w) else parallel_stats (bm_higher_is_better b) results s w)
              (\<lambda>(stats, w). Ret (if any_failed then -1 else 0 :: int, stats, st1, c_free True (c_free True (c_free True w))))) =
            Ret (ret, out, st', w')"
          using run True Some p3 by (simp add: harness_run_parallel_def m1 m2 m3 st1 sp u)
        then obtain results any_failed w5 stats w6 where
          "(if any_failed then Ret (s, w5) else parallel_stats (bm_higher_is_better b) results s w5) = Ret (stats, w6)"
          "out = stats"
          by (auto simp: out_bind_eq_Ret)
        then show ?thesis using s rating_ok_parallel_stats by (cases any_failed) auto
      qed
    qed
  qed
qed

lemma rating_ok_subtest:
  assumes "run_subtest h mem cw ops config n b st w = Ret (sr, st', w')"
  shows "rating_ok (sr_stats sr)"
proof -
  let ?run = "if n > 1 \<and> bm_num_threads b = 1
    then harness_run_parallel h mem (cw b) b (ops b) (nat n) zero_stats (Some config) st w
    else out_bind (harness_run_single b (ops b) zero_stats (Some config) w) (\<lambda>(ret, stats, w). Ret (ret, stats, st, w))"
  obtain ret stats st1 w1 where r: "?run = Ret (ret, stats, st1, w1)" "sr_stats sr = stats"
    using assms by (auto simp: run_subtest_def Let_def out_bind_eq_Ret)
  show ?thesis
  proof (cases "n > 1 \<and> bm_num_threads b = 1")
    case True
    then have "harness_run_parallel h mem (cw b) b (ops b) (nat n) zero_stats (Some config) st w = Ret (ret, stats, st1, w1)"
      using r(1) by simp
    then show ?thesis using rating_ok_parallel [OF _ rating_ok_zero] r(2) by simp
  next
    case False
    then have "out_bind (harness_run_single b (ops b) zero_stats (Some config) w) (\<lambda>(ret, stats, w). Ret (ret, stats, st, w)) =
        Ret (ret, stats, st1, w1)"
      using r(1) by (simp only: if_False)
    then have "\<exists>w2. harness_run_single b (ops b) zero_stats (Some config) w = Ret (ret, stats, w2)"
      by (auto simp: out_bind_eq_Ret)
    then show ?thesis using rating_ok_single [OF _ rating_ok_zero] r(2) by blast
  qed
qed

lemma rating_ok_benchmarks:
  "run_benchmarks h mem cw ops config n bs acc st w = Ret (res, st', w') \<Longrightarrow>
   \<forall>sr \<in> set acc. rating_ok (sr_stats sr) \<Longrightarrow> \<forall>sr \<in> set res. rating_ok (sr_stats sr)"
proof (induction bs arbitrary: acc st w)
  case (Cons b bs)
  from Cons.prems(1) obtain sel where sel: "bench_selected config b = Ret sel" by (auto simp: out_bind_eq_Ret)
  show ?case
  proof (cases sel)
    case False
    then show ?thesis using Cons sel by simp
  next
    case True
    then obtain sr st1 w1 where s: "run_subtest h mem cw ops config n b st w = Ret (sr, st1, w1)"
      "run_benchmarks h mem cw ops config n bs (acc @ [sr]) st1 w1 = Ret (res, st', w')"
      using Cons.prems(1) sel by (auto simp: out_bind_eq_Ret)
    show ?thesis using Cons.IH [OF s(2)] Cons.prems(2) rating_ok_subtest [OF s(1)] by simp
  qed
qed simp

lemma plain_label: "plain (stats_reliability_label cv)"
  by (simp add: stats_reliability_label_def plain_def)

lemma plain_uuid: "uuid4_shape s \<Longrightarrow> plain s"
proof -
  assume s: "uuid4_shape s"
  have "c = CHR ''-'' \<or> is_hex c" if "c \<in> set s" for c
    using s that unfolding uuid4_shape_def in_set_conv_nth by metis
  moreover have "CHR 0x22 \<noteq> CHR ''-''" "\<not> is_hex (CHR 0x22)" "\<not> is_hex (CHR 0x5C)" "\<not> is_hex (CHR 0x0A)"
    by (simp_all add: is_hex_def hex_val_def)
  ultimately show "plain s" by (auto simp: plain_def)
qed

subsection \<open>The subtests of a run\<close>

definition plain_bench :: "benchmark_t \<Rightarrow> bool" where
  "plain_bench b \<longleftrightarrow> plain (bm_name b) \<and> plain (bm_category b) \<and> 0 \<le> bm_tier b \<and> bm_tier b < 31"

lemma harness_run_subtests:
  assumes "harness_run h mem cw ops nodes reg config w = Ret (0, Some res, w')"
    "\<forall>b \<in> set (registered reg). plain_bench b"
  shows "map sr_bench (rr_subtests res) = filter (wanted config) (registered reg)"
    "\<forall>sr \<in> set (rr_subtests res). plain_subtest sr"
proof -
  from assms(1) obtain nds q w2 n subtests st where
    run: "run_benchmarks h mem cw ops config n (registered reg) [] statics_init w2 = Ret (subtests, st, w')"
    and res: "res = \<lparr>rr_config = config, rr_nodes = nds, rr_subtests = map (assign_score config) subtests, rr_subtests_ptr = q\<rparr>"
    by (rule harness_run_Ret)
  have order: "map sr_bench subtests = filter (wanted config) (registered reg)"
    "\<forall>sr \<in> set subtests. sr_status sr \<in> {''completed'', ''failed''}"
    using run_benchmarks_order [OF _ run] assms(2) by (auto simp: plain_bench_def)
  show "map sr_bench (rr_subtests res) = filter (wanted config) (registered reg)"
    using order(1) by (simp add: res comp_def)
  have rated: "\<forall>sr \<in> set subtests. rating_ok (sr_stats sr)" using rating_ok_benchmarks [OF run] by simp
  show "\<forall>sr \<in> set (rr_subtests res). plain_subtest sr"
  proof
    fix x assume "x \<in> set (rr_subtests res)"
    then obtain sr where sr: "sr \<in> set subtests" "x = assign_score config sr" by (auto simp: res)
    then have "sr_bench sr \<in> set (map sr_bench subtests)" by simp
    then have "plain_bench (sr_bench sr)" using order(1) assms(2) by simp
    moreover have "plain (sr_status sr)" using order(2) sr(1) by (auto simp: plain_def)
    ultimately show "plain_subtest x"
      using rated sr plain_label by (auto simp: plain_subtest_def plain_bench_def rating_ok_def)
  qed
qed

lemma run_report_facts:
  assumes "run_report m reg config w = Ret (0, Some (rep, r), w')" "\<forall>b \<in> set (registered reg). plain_bench b"
  shows "map sr_bench (rp_subtests rep) = filter (wanted config) (registered reg)"
    "\<forall>sr \<in> set (rp_subtests rep). plain_subtest sr" "uuid4_shape (rp_run_id rep)"
proof -
  obtain run_id w1 where u: "output_generate_uuid (m_urandom m) w = (run_id, w1)" by fastforce
  obtain info res where h: "harness_run (m_host m) (m_mem m) (m_child m) (m_ops m)
      (case info of None \<Rightarrow> None | Some si \<Rightarrow> si_numa_nodes si) reg config w1 = Ret (0, Some res, w')"
    and rep: "rep = report_of m run_id info res"
    using assms(1) by (auto simp: run_report_def u out_bind_eq_Ret split: if_splits)
  have id: "rp_run_id rep = run_id" "rp_subtests rep = rr_subtests res" by (simp_all add: rep report_of_def)
  show "map sr_bench (rp_subtests rep) = filter (wanted config) (registered reg)"
    "\<forall>sr \<in> set (rp_subtests rep). plain_subtest sr"
    using harness_run_subtests [OF h assms(2)] by (simp_all add: id)
  show "uuid4_shape (rp_run_id rep)" using generate_uuid_shape [of "m_urandom m" w] by (simp add: id u)
qed

lemma write_reports_lines:
  assumes "write_reports m config rep = Ret acts" "m_opens m (report_path config rep ''.results.jsonl'')"
  shows "\<exists>s. output_jsonl True rep = Ret (0, s) \<and> Written (report_path config rep ''.results.jsonl'') s \<in> set acts"
proof -
  let ?path = "report_path config rep ''.results.jsonl''"
  from assms(1) obtain p ls h where "write_report m output_jsonl ''  Results:    '' ?path rep = Ret ls"
    "acts = p @ ls @ h @ [Out (snd (output_terminal_summary rep))] @ reference_report m config rep"
    by (auto simp: write_reports_def out_bind_eq_Ret)
  then have ls: "write_report m output_jsonl ''  Results:    '' ?path rep = Ret ls" "set ls \<subseteq> set acts" by auto
  then obtain r s where s: "output_jsonl True rep = Ret (r, s)" "ls = Written ?path s # [Out (''  Results:    '' @ ?path @ newline)]"
    using assms(2) by (auto simp: write_report_def out_bind_eq_Ret)
  moreover from s(1) have "r = 0" by (simp add: jsonl_written split: if_splits)
  ultimately show ?thesis using ls(2) by auto
qed

lemma score_report_same:
  "score_report rep = Ret rep' \<Longrightarrow> rp_subtests rep' = rp_subtests rep \<and> rp_run_id rep' = rp_run_id rep"
  by (auto simp: score_report_def out_bind_eq_Ret)

text \<open>The run, the benchmark and the category of a line.\<close>

definition line_key :: "string \<Rightarrow> string \<times> string \<times> string" where
  "line_key l = (case jsonl_read l of (run_id, name, cat, rel, n) \<Rightarrow> (run_id, name, cat))"

lemma line_key_map: "map line_key ls = map (\<lambda>(i, n, c, r, k). (i, n, c)) (map jsonl_read ls)"
  by (induction ls) (auto simp: line_key_def split: prod.split)

text \<open>The file of a results path: one line per selected benchmark.\<close>

definition results_complete :: "'s machine \<Rightarrow> registry \<Rightarrow> run_config_t \<Rightarrow> action list \<Rightarrow> bool" where
  "results_complete m reg config acts \<longleftrightarrow>
     (\<exists>run_id. uuid4_shape run_id \<and>
       (let path = take 511 (cfg_output_dir config @ ''/'' @ run_id @ ''.results.jsonl'')
        in m_opens m path \<longrightarrow>
           (\<exists>body. Written path body \<in> set acts \<and>
              map line_key (butlast (splits (CHR 0x0A) body)) =
              map (\<lambda>b. (run_id, bm_name b, bm_category b)) (filter (wanted config) (registered reg)))))"

lemma main_run_complete:
  assumes "main_run m reg config w = Ret (0, acts, w')" "\<forall>b \<in> set (registered reg). plain_bench b"
  shows "results_complete m reg config acts"
proof -
  from assms(1) obtain ret res w1 where r: "run_report m reg config w = Ret (ret, res, w1)"
    by (auto simp: main_run_def out_bind_eq_Ret)
  then obtain rep rr where res: "res = Some (rep, rr)" using assms(1) by (cases res) (auto simp: main_run_def)
  have "ret = 0" using assms(1) r res by (auto simp: main_run_def split: if_splits)
  with r res have r: "run_report m reg config w = Ret (0, Some (rep, rr), w1)" by simp
  from assms(1) obtain rep2 where sc: "score_report rep = Ret rep2" "write_reports m config rep2 = Ret acts"
    by (auto simp: main_run_def r out_bind_eq_Ret)
  note same = score_report_same [OF sc(1)] and facts = run_report_facts [OF r assms(2)]
  let ?path = "report_path config rep2 ''.results.jsonl''"
  have "\<exists>body. Written ?path body \<in> set acts \<and> map line_key (butlast (splits (CHR 0x0A) body)) =
      map (\<lambda>b. (rp_run_id rep2, bm_name b, bm_category b)) (filter (wanted config) (registered reg))" if "m_opens m ?path"
  proof -
    from write_reports_lines [OF sc(2) that] obtain s
      where s: "output_jsonl True rep2 = Ret (0, s)" "Written ?path s \<in> set acts" by blast
    then have "rated rep2" "s = concat (map (line_of (rp_run_id rep2)) (rp_subtests rep2))"
      by (simp_all add: jsonl_written split: if_splits)
    then have "map jsonl_read (butlast (splits (CHR 0x0A) s)) = map (jsonl_says (rp_run_id rep2)) (rp_subtests rep2)"
      using lines_read [of "rp_run_id rep2" "rp_subtests rep2"] facts same plain_uuid by (simp add: rated_def)
    then have "map line_key (butlast (splits (CHR 0x0A) s)) =
        map (\<lambda>(i, n, c, r, k). (i, n, c)) (map (jsonl_says (rp_run_id rep2)) (rp_subtests rep2))"
      by (simp only: line_key_map)
    also have "\<dots> = map (\<lambda>b. (rp_run_id rep2, bm_name b, bm_category b)) (map sr_bench (rp_subtests rep2))"
      by (simp add: jsonl_says_def comp_def)
    finally show ?thesis using s(2) facts(1) same by auto
  qed
  then show ?thesis
    unfolding results_complete_def Let_def
    using facts(3) same by (intro exI [of _ "rp_run_id rep2"]) (simp add: report_path_def)
qed


text \<open>
  A dry run executes nothing: the machine is left as it was and no file is written, and the listing
  names at least every benchmark the run would select; it does not depend on the tier mask and the category, so
  \<^verbatim>\<open>--dry-run --category C1\<close> lists the benchmarks of all categories.
\<close>

theorem dry_run_harmless:
  assumes "main_config atof_fn (h_ncpu (m_host m))
       (pe_files (m_probe m) (prescan (config_search (m_getenv m) (pe_readable (m_probe m))) args))
       (getopt_long args) = Ret (Continue config False)" "cfg_dry_run config"
  shows "\<exists>acts. main_prog m reg atof_fn prog args w = Ret (0, acts @ [Out (dry_run reg config)], w) \<and>
    (\<forall>path body. Written path body \<notin> set acts) \<and>
    (\<forall>b. wanted config b \<longrightarrow> listed config b) \<and>
    dry_run reg (config\<lparr>cfg_tier_mask := tier, cfg_category_filter := cat\<rparr>) = dry_run reg config"
proof -
  have same: "listed (config\<lparr>cfg_tier_mask := tier, cfg_category_filter := cat\<rparr>) = listed config"
    by (simp add: fun_eq_iff listed_def)
  have "wanted config b \<longrightarrow> listed config b" for b by (auto simp: wanted_def listed_def list_ex_iff)
  moreover have "Written path body \<notin> set (config_warning fl p @ setup_actions m config)" for path body fl p
    by (auto simp: config_warning_def setup_actions_def split: option.split)
  ultimately show ?thesis
    using assms by (auto simp: main_prog_def Let_def dry_run_def same)
qed

text \<open>
  With \<^verbatim>\<open>XDG_CONFIG_HOME\<close> set to a readable directory, the file chosen is the directory itself (only the
  fall-back over \<^verbatim>\<open>HOME\<close> appends the file's name), which opens but yields no line: the run uses the built-in
  configuration, as if the file was missing, and neither \<^verbatim>\<open>/etc/servmark\<close> nor \<^verbatim>\<open>config/default.cfg\<close> is tried.
\<close>

theorem xdg_config_unread:
  assumes "m_getenv m ''XDG_CONFIG_HOME'' = Some d" "pe_readable (m_probe m) d" "pe_files (m_probe m) d = Some []"
  shows "config_search (m_getenv m) (pe_readable (m_probe m)) = d \<and>
    main_config atof_fn n (pe_files (m_probe m) d) opts = main_config atof_fn n None opts"
  using assms by (simp add: config_search_def xdg_path_def map_filter_simps main_config_def parse_config_def fgets_all_def)

subsection \<open>Witnesses\<close>

text \<open>A machine with two CPUs, without readable files and without memory for the probe.\<close>

definition bare_machine :: "(string \<Rightarrow> string option) \<Rightarrow> unit machine" where
  "bare_machine env =
     \<lparr>m_getenv = env,
      m_probe = \<lparr>pe_files = (\<lambda>p. if p = ''/home/u/.config'' then Some [] else None), pe_exists = (\<lambda>_. False),
        pe_readable = (\<lambda>p. p = ''/home/u/.config''), pe_mem = (\<lambda>_. False), pe_pagesize = 4096, pe_online = 2,
        pe_conf = 2, pe_phys_pages = 1000\<rparr>,
      m_host = example_host, m_mem = (\<lambda>_. True), m_child = (\<lambda>_ _. None), m_ops = (\<lambda>_. failing_bench),
      m_urandom = Some (replicate 16 255), m_start = 0, m_end = 75, m_ctime = ''now'' @ newline,
      m_opens = (\<lambda>_. True), m_nofile = None\<rparr>"

abbreviation catalog_registry :: registry where
  "catalog_registry \<equiv> register_all all_benchmarks"

lemma registered_catalog: "registered catalog_registry = all_benchmarks"
  by (simp add: registered_register_all length_all_benchmarks MAX_BENCHMARKS_def)

lemma catalog_plain: "\<forall>b \<in> set all_benchmarks. plain_bench b"
proof -
  have "list_all (\<lambda>b. plain (bm_name b) \<and> plain (bm_category b)) all_benchmarks"
    by (simp add: all_benchmarks_def compute_defs crypto_defs memory_defs os_defs sync_defs io_defs
        net_defs virt_defs plain_def)
  moreover have "bm_tier b \<in> {1, 2}" if "b \<in> set all_benchmarks" for b
    using all_ok that by (auto simp: list_all_iff descriptor_ok_def)
  ultimately show ?thesis by (fastforce simp: list_all_iff plain_bench_def)
qed

lemma run_benchmarks_none:
  "\<forall>b \<in> set bs. bench_selected config b = Ret False \<Longrightarrow>
   run_benchmarks h mem cw ops config n bs acc st w = Ret (acc, st, w)"
  by (induction bs) simp_all

definition tier3_config :: run_config_t where
  "tier3_config = default_config\<lparr>cfg_tier_mask := 8, cfg_num_instances := 16\<rparr>"

lemma tier3_main_config:
  "main_config f 16 None [OptTier ''3''] = Ret (Continue tier3_config False)"
proof -
  have "atoi ''3'' = 3" by code_simp
  then show ?thesis
    by (simp add: main_config_def parse_config_def shl_int_def tier3_config_def default_config_def SSB_NUM_CPUS_def)
qed

lemma no_tier3: "\<forall>b \<in> set all_benchmarks. bench_selected tier3_config b = Ret False"
proof
  fix b assume "b \<in> set all_benchmarks"
  then have "bm_tier b \<in> {1, 2}" using all_ok by (auto simp: list_all_iff descriptor_ok_def)
  then show "bench_selected tier3_config b = Ret False"
    by (auto simp: bench_selected_def shl_int_def tier3_config_def)
qed

lemma tier3_args: "getopt_long [''--tier'', ''3''] = [OptTier ''3'']"
  using getopt_words [of "[OptTier ''3'']"] by simp

lemma bare_search:
  "env = (\<lambda>_. None) \<Longrightarrow> config_search (m_getenv (bare_machine env)) (pe_readable (m_probe (bare_machine env))) = ''config/default.cfg''"
  by (simp add: bare_machine_def config_search_def xdg_path_def map_filter_simps)

lemma bare_run_ends:
  "\<exists>acts w'. main_run (bare_machine env) catalog_registry tier3_config quiet_world = Ret (0, acts, w')"
proof -
  let ?m = "bare_machine env"
  obtain run_id w1 where u: "output_generate_uuid (m_urandom ?m) quiet_world = (run_id, w1)" by fastforce
  have w1: "w1 = quiet_world" using u by (simp add: bare_machine_def output_generate_uuid_def)
  have "\<exists>r w2. harness_run (m_host ?m) (m_mem ?m) (m_child ?m) (m_ops ?m) None catalog_registry tier3_config w1 =
      Ret (0, Some r, w2) \<and> rr_subtests r = [] \<and> rr_config r = tier3_config"
    using no_tier3
    by (simp add: harness_run_def w1 c_malloc_def quiet_world_def override_nodes_def tier3_config_def default_config_def
        registered_catalog run_benchmarks_none Let_def split: option.split)
  then obtain r w2 where h: "harness_run (m_host ?m) (m_mem ?m) (m_child ?m) (m_ops ?m) None catalog_registry tier3_config w1 =
      Ret (0, Some r, w2)" "rr_subtests r = []" by blast
  have probe: "system_probe (m_probe ?m) = Ret (-1, None)" by (simp add: system_probe_def bare_machine_def)
  have "fst (c_malloc quiet_world)" by (simp add: c_malloc_def quiet_world_def)
  then have rep: "run_report ?m catalog_registry tier3_config quiet_world = Ret (0, Some (report_of ?m run_id None r, r), w2)"
    by (simp add: run_report_def u probe h(1))
  have subs: "rp_subtests (report_of ?m run_id None r) = []" by (simp add: report_of_def h(2))
  then have "scoring_compute_pillars (rp_subtests (report_of ?m run_id None r)) = Ret (pillar_mean [], pillar_mean [], pillar_mean [])"
    by (simp add: scoring_compute_pillars_def)
  then obtain rep2 where "score_report (report_of ?m run_id None r) = Ret rep2" by (simp add: score_report_def)
  moreover from this have "rp_subtests rep2 = []" using score_report_same subs by metis
  then have "\<exists>acts. write_reports ?m tier3_config rep2 = Ret acts"
    by (simp add: write_reports_def write_report_def output_provenance_def output_jsonl_def output_html_report_def)
  ultimately show ?thesis by (auto simp: main_run_def rep)
qed


lemma dry_run_harmless_witness:
  "\<exists>acts. main_prog (bare_machine (\<lambda>_. None)) catalog_registry (\<lambda>_. 0) ''servmark'' [''--dry-run''] quiet_world =
     Ret (0, acts @ [Out (dry_run catalog_registry
       (default_config\<lparr>cfg_dry_run := True, cfg_num_instances := 16\<rparr>))], quiet_world)"
proof -
  let ?m = "bare_machine (\<lambda>_. None)"
  let ?c = "default_config\<lparr>cfg_dry_run := True, cfg_num_instances := 16\<rparr>"
  have args: "getopt_long [''--dry-run''] = [OptDryRun]" using getopt_words [of "[OptDryRun]"] by simp
  have path: "prescan (config_search (m_getenv ?m) (pe_readable (m_probe ?m))) [''--dry-run''] = ''config/default.cfg''"
    by (simp add: bare_search)
  have none: "pe_files (m_probe ?m) ''config/default.cfg'' = None" "h_ncpu (m_host ?m) = 16"
    by (simp_all add: bare_machine_def example_host_def)
  have "main_config (\<lambda>_. 0) 16 None [OptDryRun] = Ret (Continue ?c False)"
    by (simp add: main_config_def parse_config_def default_config_def SSB_NUM_CPUS_def)
  then have cfg: "main_config (\<lambda>_. 0) (h_ncpu (m_host ?m)) (pe_files (m_probe ?m)
      (prescan (config_search (m_getenv ?m) (pe_readable (m_probe ?m))) [''--dry-run''])) (getopt_long [''--dry-run'']) =
      Ret (Continue ?c False)"
    by (simp only: path none args)
  have dry: "cfg_dry_run ?c" by simp
  from dry_run_harmless [OF cfg dry] show ?thesis by blast
qed

lemma xdg_config_unread_witness:
  "config_search (m_getenv (bare_machine (\<lambda>_. Some ''/home/u/.config'')))
     (pe_readable (m_probe (bare_machine (\<lambda>_. Some ''/home/u/.config'')))) = ''/home/u/.config''"
  using xdg_config_unread [of "bare_machine (\<lambda>_. Some ''/home/u/.config'')" "''/home/u/.config''"]
  by (simp add: bare_machine_def)

lemma reports_need_ratings_witness:
  "\<not> is_ret (write_reports (bare_machine (\<lambda>_. None)) default_config (sample_report None)) \<and>
   is_ret (write_reports (bare_machine (\<lambda>_. None)) default_config (sample_report (Some ''Stable'')))"
proof -
  have "\<not> rated (sample_report None)" "rated (sample_report (Some ''Stable''))"
    by (simp_all add: rated_def sample_report_def)
  moreover have "m_opens (bare_machine (\<lambda>_. None)) p" for p by (simp add: bare_machine_def)
  ultimately show ?thesis by (auto simp: reports_need_ratings)
qed

end
