(* ===== verification/KernelOps.thy ===== *)
theory KernelOps
  imports Harness Catalog
begin

text \<open>
  The shape most benchmark kernels share: \<^verbatim>\<open>init\<close> hands out a pointer to a state or fails, the other operations
  work on the state. \<open>pointed_ops\<close> makes the function pointers of the descriptor out of the kernel's functions
  (\<open>None\<close> is the null pointer), \<open>pointed_tidy\<close> is the one proof that they keep the contract \<open>bench_tidy\<close> of
  the harness.
\<close>

definition pointed_ops ::
    "(world \<Rightarrow> int \<times> 's option \<times> world) \<Rightarrow> ('s \<Rightarrow> int \<times> 's) \<Rightarrow>
     ('s \<Rightarrow> world \<Rightarrow> int \<times> 's \<times> measurement_t \<times> world) \<Rightarrow> (world \<Rightarrow> int \<times> world) \<Rightarrow> 's option bench_ops" where
  "pointed_ops init warmup measure_fn cleanup =
     \<lparr>op_init = init,
      op_warmup = Some (\<lambda>st w. let (r, s) = warmup (the st) in (r, Some s, w)),
      op_measure = (\<lambda>st w. let (r, s, m, w) = measure_fn (the st) w in (r, Some s, m, w)),
      op_cleanup = (\<lambda>st. cleanup)\<rparr>"

definition pointed :: "('s \<Rightarrow> bool) \<Rightarrow> 's option \<Rightarrow> bool" where
  "pointed ok st \<longleftrightarrow> (\<exists>s. st = Some s \<and> ok s)"

lemma pointed_tidy:
  assumes init: "\<And>w r st w'. init w = (r, st, w') \<Longrightarrow>
      held w' = (if r = 0 then owning n (held w) else held w) \<and> (r = 0 \<longrightarrow> pointed ok st)"
    and warmup: "\<And>s r s'. ok s \<Longrightarrow> warmup s = (r, s') \<Longrightarrow> ok s'"
    and meas: "\<And>s w r s' m w'. ok s \<Longrightarrow> measure_fn s w = (r, s', m, w') \<Longrightarrow> ok s' \<and> held w' = held w"
    and cleanup: "\<And>w r w'. cleanup w = (r, w') \<Longrightarrow> held w' = owning (- n) (held w)"
  shows "bench_tidy (pointed_ops init warmup measure_fn cleanup) (pointed ok) (\<lambda>_. n)"
proof unfold_locales
  fix w s w' assume "op_init (pointed_ops init warmup measure_fn cleanup) w = (0, s, w')"
  then show "pointed ok s \<and> held w' = owning n (held w)" using init [of w 0 s w'] by (simp add: pointed_ops_def)
next
  fix f s w ret s' w'
  assume "op_warmup (pointed_ops init warmup measure_fn cleanup) = Some f" "pointed ok s" "f s w = (ret, s', w')"
  then show "pointed ok s' \<and> n = n \<and> held w' = held w"
    using warmup by (auto simp: pointed_ops_def pointed_def split: prod.splits)
next
  fix s w ret s' m w'
  assume "pointed ok s" "op_measure (pointed_ops init warmup measure_fn cleanup) s w = (ret, s', m, w')"
  then show "pointed ok s' \<and> n = n \<and> held w' = held w"
    using meas by (auto simp: pointed_ops_def pointed_def split: prod.splits)
next
  fix s w ret w' assume "op_cleanup (pointed_ops init warmup measure_fn cleanup) s w = (ret, w')"
  then show "held w' = owning (- n) (held w)" using cleanup [of w ret w'] by (simp add: pointed_ops_def)
next
  fix w ret s w' assume "op_init (pointed_ops init warmup measure_fn cleanup) w = (ret, s, w')" "ret \<noteq> 0"
  then show "held w' = held w" using init [of w ret s w'] by (simp add: pointed_ops_def)
qed

text \<open>A result structure that the kernel leaves as it was keeps what it held, \<open>stale\<close>.\<close>

definition written_result :: "measurement_t \<Rightarrow> int \<times> measurement_t option \<times> world \<Rightarrow> 's \<Rightarrow> int \<times> 's \<times> measurement_t \<times> world" where
  "written_result stale r s = (case r of (ret, m, w) \<Rightarrow> (ret, s, (case m of None \<Rightarrow> stale | Some m \<Rightarrow> m), w))"

end
