(* ===== verification/RegexBench.thy ===== *)
theory RegexBench
  imports IntSubstr CStr Env
begin

text \<open>
  The rest of \<^verbatim>\<open>src/benchmarks/compute/int_regex.c\<close>: the synthetic log, the patterns and the four operations over
  the search of \<open>IntSubstr\<close>. The log is shown to stay inside its buffer with every line complete, and the measurement
  to count the patterns that occur in the buffer, of which the last bytes were never written: what fresh memory
  holds is the parameter \<open>junk\<close>.
\<close>

definition LOG_SIZE :: nat where "LOG_SIZE = 2 * 1024 * 1024"

definition PATTERN_COUNT :: nat where "PATTERN_COUNT = 200"

record int_regex_state_t =
  ir_haystack :: string
  ir_patterns :: "string list"

subsection \<open>The log\<close>

definition log_levels :: "string list" where
  "log_levels = [''INFO'', ''WARN'', ''ERROR'', ''DEBUG'']"

definition log_msgs :: "string list" where
  "log_msgs = [''processing request'', ''connection timeout'', ''disk full'', ''auth failed'', ''cache hit'',
     ''retry attempt'', ''shutdown'']"

text \<open>One line, its arguments evaluated from left to right.\<close>

definition log_line :: "world \<Rightarrow> string \<times> world" where
  "log_line w =
     (let (t, w) = c_rand w; (l, w) = c_rand w; (m, w) = c_rand w; (i, w) = c_rand w; (u, w) = c_rand w
      in (''['' @ dec t @ ''] '' @ log_levels ! (l mod 4) @ '': '' @ log_msgs ! (m mod 7) @ '' id='' @ dec (i mod 100000) @
          '' latency='' @ dec (u mod 5000) @ ''us'' @ [CHR 0x0A], w))"

lemma log_line_pos: "0 < length (fst (log_line w))"
  by (simp add: log_line_def case_prod_beta)

text \<open>\<open>snprintf(p, remaining, ...)\<close> writes at most \<open>remaining - 1\<close> characters and returns the length of the whole line.\<close>

function log_loop :: "nat \<Rightarrow> string \<Rightarrow> world \<Rightarrow> string \<times> nat \<times> world" where
  "log_loop remaining body w =
     (if remaining > 80 then
        let (line, w) = log_line w
        in log_loop (remaining - length line) (body @ take (remaining - 1) line) w
      else (body, remaining, w))"
  by pat_completeness auto
termination
proof (relation "measure (\<lambda>(r, t, w). r)", goal_cases)
  case (2 remaining body w x line w')
  then have "line = fst (log_line w)" by (metis fst_conv)
  then show ?case using 2(1) log_line_pos [of w] by simp
qed simp

declare log_loop.simps [simp del]

fun rand_patterns :: "nat \<Rightarrow> world \<Rightarrow> (string list \<times> world) outcome" where
  "rand_patterns 0 w = Ret ([], w)"
| "rand_patterns (Suc n) w =
     (let (p, w) = c_malloc w
      in if \<not> p then Undef NullDeref
         else let (r, w) = c_rand w
           in out_bind (rand_patterns n w) (\<lambda>(ps, w). Ret ((''id='' @ dec (r mod 100000)) # ps, w)))"

subsection \<open>The operations\<close>

text \<open>The terminating zero of the last line stands before the bytes that nobody wrote.\<close>

definition int_regex_init :: "(nat \<Rightarrow> char) \<Rightarrow> world \<Rightarrow> (int \<times> int_regex_state_t option \<times> world) outcome" where
  "int_regex_init junk w =
     (let (p, w) = c_malloc w in
      if \<not> p then Ret (-1, None, w)
      else let (h, w) = c_malloc w; (a, w) = c_malloc w; (l, w) = c_malloc w
        in if \<not> h \<or> \<not> a \<or> \<not> l then Ret (-1, None, c_free p (c_free l (c_free a (c_free h w))))
           else let (body, remaining, w) = log_loop LOG_SIZE [] w;
                    haystack = body @ [CHR 0x00] @ map junk [0..<LOG_SIZE - length body]
                in out_bind (rand_patterns PATTERN_COUNT w)
                     (\<lambda>(ps, w). Ret (0, Some \<lparr>ir_haystack = haystack, ir_patterns = ps\<rparr>, w)))"

definition count_matches :: "int_regex_state_t \<Rightarrow> nat \<Rightarrow> int" where
  "count_matches s n = (\<Sum>i \<leftarrow> [0..<n]. simple_match (ir_haystack s) (int LOG_SIZE) (ir_patterns s ! i))"

definition int_regex_warmup :: "int_regex_state_t \<Rightarrow> int \<times> int" where
  "int_regex_warmup s = (0, count_matches s 20)"

definition int_regex_measure :: "int_regex_state_t \<Rightarrow> world \<Rightarrow> int \<times> measurement_t option \<times> world" where
  "int_regex_measure s w =
     (let (t0, w) = clock_monotonic w;
          sink = count_matches s PATTERN_COUNT
      in if sink = 0 then (-1, None, w)
         else let (t1, w) = clock_monotonic w; el = elapsed t0 t1
           in (0, Some (plain_result (rate (real LOG_SIZE * real PATTERN_COUNT) el) el), w))"

definition int_regex_cleanup :: "world \<Rightarrow> int \<times> world" where
  "int_regex_cleanup w = (0, (c_free True ^^ (PATTERN_COUNT + 4)) w)"

subsection \<open>The log fits\<close>

lemma length_dec: "n < 10 ^ k \<Longrightarrow> 0 < k \<Longrightarrow> length (dec n) \<le> k"
proof (induction k arbitrary: n)
  case (Suc k)
  show ?case
  proof (cases "n < 10")
    case True
    then show ?thesis by (subst dec.simps) simp
  next
    case False
    then have "0 < k" using Suc.prems by (cases k) auto
    moreover have "n div 10 < 10 ^ k" using Suc.prems by simp
    ultimately show ?thesis using Suc.IH False by (subst dec.simps) simp
  qed
qed simp

lemma nth_short: "i < length xs \<Longrightarrow> \<forall>x \<in> set xs. length x \<le> b \<Longrightarrow> length (xs ! i) \<le> b"
  by simp

lemma log_line_short: "length (fst (log_line w)) \<le> 63"
proof -
  have rand: "fst (c_rand w) < 10 ^ 10" for w
    using mod_less_divisor [of 2147483648 "w_rand w (w_rand_pos w)"] by (simp add: c_rand_def)
  have stamp: "length (dec (fst (c_rand w))) \<le> 10" for w by (intro length_dec rand) simp
  have number: "length (dec (i mod 100000)) \<le> 5" for i by (intro length_dec) simp_all
  have latency: "length (dec (u mod 5000)) \<le> 4" for u
    using mod_less_divisor [of 5000 u] by (intro length_dec) simp_all
  have level: "length (log_levels ! (l mod 4)) \<le> 5" for l
    by (rule nth_short) (simp_all add: log_levels_def)
  have msg: "length (log_msgs ! (m mod 7)) \<le> 18" for m
    by (rule nth_short) (simp_all add: log_msgs_def)
  let ?w1 = "snd (c_rand w)"
  let ?w2 = "snd (c_rand ?w1)"
  let ?w3 = "snd (c_rand ?w2)"
  let ?w4 = "snd (c_rand ?w3)"
  show ?thesis
    using stamp [of w] level [of "fst (c_rand ?w1)"] msg [of "fst (c_rand ?w2)"] number [of "fst (c_rand ?w3)"]
      latency [of "fst (c_rand ?w4)"]
    by (simp add: log_line_def case_prod_beta)
qed

text \<open>No line is cut, and 18 to 80 bytes stay free.\<close>

lemma log_loop_fits:
  assumes "80 < remaining \<or> 17 < remaining"
  shows "\<exists>ls. fst (log_loop remaining body w) = body @ concat ls \<and> (\<forall>l \<in> set ls. \<exists>w. l = fst (log_line w)) \<and>
    length (concat ls) + fst (snd (log_loop remaining body w)) = remaining \<and>
    17 < fst (snd (log_loop remaining body w)) \<and> fst (snd (log_loop remaining body w)) \<le> 80"
  using assms
proof (induction remaining body w rule: log_loop.induct)
  case (1 remaining body w)
  show ?case
  proof (cases "remaining > 80")
    case False
    then show ?thesis using 1(2) by (subst (1 2 3 4) log_loop.simps) (auto intro: exI [of _ "[]"])
  next
    case True
    obtain line w' where l: "log_line w = (line, w')" by fastforce
    have short: "length line \<le> 63" using log_line_short [of w] l by simp
    then have step: "log_loop remaining body w = log_loop (remaining - length line) (body @ line) w'"
      using True l by (subst log_loop.simps) simp
    have "80 < remaining - length line \<or> 17 < remaining - length line" using True short by linarith
    from 1(1) [OF True l [symmetric] refl this] obtain ls where
      ls: "fst (log_loop (remaining - length line) (body @ line) w') = (body @ line) @ concat ls"
        "\<forall>l \<in> set ls. \<exists>w. l = fst (log_line w)"
        "length (concat ls) + fst (snd (log_loop (remaining - length line) (body @ line) w')) = remaining - length line"
        "17 < fst (snd (log_loop (remaining - length line) (body @ line) w'))"
        "fst (snd (log_loop (remaining - length line) (body @ line) w')) \<le> 80"
      using short True by auto
    have "\<forall>l \<in> set (line # ls). \<exists>w. l = fst (log_line w)" using ls(2) l by (metis fst_conv set_ConsD)
    then show ?thesis
      unfolding step using ls True short by (intro exI [of _ "line # ls"]) auto
  qed
qed

subsection \<open>The operations are safe\<close>

lemma log_line_world [simp]:
  "held (snd (log_line w)) = held w" "memory_left (snd (log_line w)) \<longleftrightarrow> memory_left w"
  by (simp_all add: log_line_def case_prod_beta)

lemma log_loop_world:
  "held (snd (snd (log_loop r body w))) = held w \<and> (memory_left (snd (snd (log_loop r body w))) \<longleftrightarrow> memory_left w)"
proof (induction r body w rule: log_loop.induct)
  case (1 r body w)
  obtain line w' where l: "log_line w = (line, w')" by fastforce
  then have "held w' = held w" "memory_left w' \<longleftrightarrow> memory_left w" using log_line_world [of w] by simp_all
  then show ?case using 1 [OF _ l [symmetric] refl] l by (subst (1 2) log_loop.simps) simp
qed

lemma rand_patterns_ok:
  "memory_left w \<Longrightarrow> \<exists>ps w'. rand_patterns n w = Ret (ps, w') \<and> length ps = n \<and> held w' = owning (int n) (held w) \<and>
     (\<forall>p \<in> set ps. 4 \<le> length p \<and> length p \<le> 8)"
proof (induction n arbitrary: w)
  case (Suc n)
  define w1 where "w1 = snd (c_rand (snd (c_malloc w)))"
  have "memory_left w1" using Suc.prems by (simp add: w1_def)
  then obtain ps w' where ps: "rand_patterns n w1 = Ret (ps, w')" "length ps = n" "held w' = owning (int n) (held w1)"
    "\<forall>p \<in> set ps. 4 \<le> length p \<and> length p \<le> 8" using Suc.IH by blast
  have "held w1 = owning 1 (held w)" using Suc.prems by (simp add: w1_def held_own)
  moreover have "dec m \<noteq> []" for m by (subst dec.simps) simp
  moreover have "length (dec (m mod 100000)) < 6" for m using length_dec [of "m mod 100000" 5] by simp
  ultimately show ?case
    using ps Suc.prems by (auto simp: case_prod_beta w1_def [symmetric] add.commute Suc_le_eq)
qed simp

lemma int_regex_init_ok:
  assumes "memory_left w"
  shows "\<exists>s w'. int_regex_init junk w = Ret (0, Some s, w') \<and> length (ir_haystack s) = LOG_SIZE + 1 \<and>
    length (ir_patterns s) = PATTERN_COUNT \<and> held w' = owning 204 (held w)"
proof -
  define w4 where "w4 = snd (c_malloc (snd (c_malloc (snd (c_malloc (snd (c_malloc w)))))))"
  obtain body r w5 where l: "log_loop LOG_SIZE [] w4 = (body, r, w5)" by (rule prod_cases3)
  have w4: "held w4 = owning 4 (held w)" "memory_left w4" using assms by (simp_all add: w4_def held_own)
  then have w5: "held w5 = owning 4 (held w)" "memory_left w5" using log_loop_world [of LOG_SIZE "[]" w4] l by simp_all
  then obtain ps w6 where ps: "rand_patterns PATTERN_COUNT w5 = Ret (ps, w6)" "length ps = PATTERN_COUNT"
    "held w6 = owning (int PATTERN_COUNT) (held w5)" using rand_patterns_ok by blast
  have "length body \<le> LOG_SIZE"
    using log_loop_fits [of LOG_SIZE "[]" w4] l by (auto simp: LOG_SIZE_def)
  then show ?thesis
    using assms l ps w5 by (simp add: int_regex_init_def Let_def case_prod_beta w4_def [symmetric] PATTERN_COUNT_def)
qed

text \<open>The search looks at the first \<open>n\<close> characters only.\<close>

lemma match_len_take:
  "i + length needle \<le> n \<Longrightarrow> match_len (take n h) i needle j = match_len h i needle j"
proof (induction h i needle j rule: match_len.induct)
  case (1 h i needle j)
  then show ?case by (subst (1 2) match_len.simps) auto
qed

lemma match_from_take: "match_from (take n h) (int n) needle i = match_from h (int n) needle i"
proof (induction h "int n" needle i rule: match_from.induct)
  case (1 h needle i)
  show ?case
  proof (cases "i + length needle \<le> n")
    case True
    then show ?thesis using 1 match_len_take [OF True, of h 0] by (subst (1 2) match_from.simps) auto
  next
    case False
    then show ?thesis by (subst (1 2) match_from.simps) auto
  qed
qed

lemma simple_match_prefix:
  assumes "n \<le> length h"
  shows "simple_match h (int n) needle = (if needle \<noteq> [] \<and> sublist needle (take n h) then 1 else 0)"
proof -
  have "simple_match h (int n) needle = simple_match (take n h) (int (length (take n h))) needle"
    using assms by (simp add: simple_match_def match_from_take)
  then show ?thesis by (simp only: simple_match_correct)
qed

lemma sum_indicator: "(\<Sum>p \<leftarrow> ps. if P p then 1 else 0) = int (length (filter P ps))"
  by (induction ps) simp_all

text \<open>The measurement counts the patterns that occur in the buffer and fails when none does.\<close>

lemma int_regex_measure_counts:
  assumes "length (ir_haystack s) = LOG_SIZE + 1" "length (ir_patterns s) = PATTERN_COUNT"
  shows "count_matches s PATTERN_COUNT =
    int (length (filter (\<lambda>p. p \<noteq> [] \<and> sublist p (take LOG_SIZE (ir_haystack s))) (ir_patterns s)))"
proof -
  have "count_matches s PATTERN_COUNT =
      (\<Sum>p \<leftarrow> map ((!) (ir_patterns s)) [0..<PATTERN_COUNT]. simple_match (ir_haystack s) (int LOG_SIZE) p)"
    by (simp add: count_matches_def comp_def)
  also have "map ((!) (ir_patterns s)) [0..<PATTERN_COUNT] = ir_patterns s" using assms(2) map_nth [of "ir_patterns s"] by simp
  also have "(\<Sum>p \<leftarrow> ir_patterns s. simple_match (ir_haystack s) (int LOG_SIZE) p) =
      (\<Sum>p \<leftarrow> ir_patterns s. if p \<noteq> [] \<and> sublist p (take LOG_SIZE (ir_haystack s)) then 1 else 0)"
    using assms(1) by (intro arg_cong [where f = sum_list] map_cong refl) (simp add: simple_match_prefix)
  also have "\<dots> = int (length (filter (\<lambda>p. p \<noteq> [] \<and> sublist p (take LOG_SIZE (ir_haystack s))) (ir_patterns s)))"
    by (rule sum_indicator)
  finally show ?thesis .
qed

end
