(* ===== verification/MatBench.thy ===== *)
theory MatBench
  imports KernelOps
begin

text \<open>
  \<^verbatim>\<open>src/benchmarks/compute/fp_gemm.c\<close> and \<^verbatim>\<open>fp_conv.c\<close>: the matrix product and the convolution on flat arrays, on real
  numbers, against the sums they stand for. The dimensions of the source are constants; the loops take them
  as parameters.
\<close>

subsection \<open>The product\<close>

definition GEMM_N :: nat where "GEMM_N = 512"

record fp_gemm_state_t =
  gm_A :: "real list"
  gm_B :: "real list"
  gm_C :: "real list"

text \<open>The loop over \<open>j\<close> for one \<open>i\<close> and \<open>k\<close>, and all three loops.\<close>

definition gemm_row :: "nat \<Rightarrow> real list \<Rightarrow> real list \<Rightarrow> nat \<Rightarrow> real list \<Rightarrow> nat \<Rightarrow> real list" where
  "gemm_row n A B i C k =
     (let aik = A ! (i * n + k)
      in foldl (\<lambda>C j. C[i * n + j := C ! (i * n + j) + aik * B ! (k * n + j)]) C [0..<n])"

definition gemm :: "nat \<Rightarrow> real list \<Rightarrow> real list \<Rightarrow> real list \<Rightarrow> real list" where
  "gemm n A B C = foldl (\<lambda>C i. foldl (gemm_row n A B i) C [0..<n]) C [0..<n]"

text \<open>\<open>2 * (rand() / RAND_MAX - 0.5)\<close> for \<open>A\<close> and \<open>B\<close> in turn.\<close>

fun rand_pairs :: "nat \<Rightarrow> world \<Rightarrow> (real \<times> real) list \<times> world" where
  "rand_pairs 0 w = ([], w)"
| "rand_pairs (Suc n) w =
     (let (a, w) = c_rand w; (b, w) = c_rand w; (ps, w) = rand_pairs n w
      in (((real a / 2147483647 - 1 / 2) * 2, (real b / 2147483647 - 1 / 2) * 2) # ps, w))"

definition fp_gemm_init :: "world \<Rightarrow> int \<times> fp_gemm_state_t option \<times> world" where
  "fp_gemm_init w =
     (let (p, w) = c_malloc w in
      if \<not> p then (-1, None, w)
      else let (a, w) = c_malloc w; (b, w) = c_malloc w; (c, w) = c_malloc w
        in if \<not> a \<or> \<not> b \<or> \<not> c then (-1, None, c_free p (c_free c (c_free b (c_free a w))))
           else let (ps, w) = rand_pairs (GEMM_N * GEMM_N) w
             in (0, Some \<lparr>gm_A = map fst ps, gm_B = map snd ps, gm_C = replicate (GEMM_N * GEMM_N) 0\<rparr>, w))"

text \<open>The warm-up sums the products of a quarter into a volatile sink.\<close>

definition fp_gemm_warmup :: "fp_gemm_state_t \<Rightarrow> int \<times> real" where
  "fp_gemm_warmup s =
     (let n = GEMM_N div 4
      in (0, \<Sum>i \<leftarrow> [0..<n]. \<Sum>j \<leftarrow> [0..<n]. \<Sum>k \<leftarrow> [0..<n]. gm_A s ! (i * GEMM_N + k) * gm_B s ! (k * GEMM_N + j)))"

text \<open>The checksum of column 0 is the fourth component; the code compares it with nothing.\<close>

definition fp_gemm_measure :: "fp_gemm_state_t \<Rightarrow> world \<Rightarrow> int \<times> fp_gemm_state_t \<times> measurement_t \<times> real \<times> world" where
  "fp_gemm_measure s w =
     (let C = replicate (GEMM_N * GEMM_N) 0;
          (t0, w) = clock_monotonic w;
          C = gemm GEMM_N (gm_A s) (gm_B s) C;
          (t1, w) = clock_monotonic w;
          chk = (\<Sum>i \<leftarrow> [0..<GEMM_N]. C ! (i * GEMM_N));
          el = elapsed t0 t1
      in (0, s\<lparr>gm_C := C\<rparr>, plain_result (rate (2 * real GEMM_N * real GEMM_N * real GEMM_N) el) el, chk, w))"

definition fp_gemm_cleanup :: "world \<Rightarrow> int \<times> world" where
  "fp_gemm_cleanup w = (0, c_free True (c_free True (c_free True (c_free True w))))"

lemma flat_index:
  fixes n i j r c :: nat
  assumes "j < n" "c < n"
  shows "r * n + c = i * n + j \<longleftrightarrow> r = i \<and> c = j"
proof
  assume e: "r * n + c = i * n + j"
  have "r = (r * n + c) div n" "i = (i * n + j) div n" using assms by simp_all
  then have "r = i" using e by simp
  then show "r = i \<and> c = j" using e by simp
qed simp

lemma flat_less:
  fixes n r c m :: nat
  assumes "c < n" "r < m"
  shows "r * n + c < m * n"
proof -
  have "Suc r * n \<le> m * n" using assms(2) by (intro mult_le_mono1) simp
  then show ?thesis using assms(1) by simp
qed

lemma gemm_row_nth:
  assumes "length C = n * n" "i < n" "r < n" "c < n"
  shows "gemm_row n A B i C k ! (r * n + c) =
    (if r = i then C ! (r * n + c) + A ! (i * n + k) * B ! (k * n + c) else C ! (r * n + c))"
    "length (gemm_row n A B i C k) = length C"
proof -
  let ?f = "\<lambda>C j. C[i * n + j := C ! (i * n + j) + A ! (i * n + k) * B ! (k * n + j)]"
  have len: "length (foldl ?f C js) = length C" for js
    by (induction js arbitrary: C) simp_all
  have "foldl ?f C [0..<h] ! (r * n + c) =
      (if r = i \<and> c < h then C ! (r * n + c) + A ! (i * n + k) * B ! (k * n + c) else C ! (r * n + c))" if "h \<le> n" for h
    using that
  proof (induction h)
    case (Suc h)
    have "i * n + h < length C" using flat_less [of h n i n] Suc.prems assms(1,2) by simp
    then show ?case
      using Suc flat_index [of h n c r i] assms(4) by (auto simp: len nth_list_update less_Suc_eq)
  qed simp
  from this [of n] show "gemm_row n A B i C k ! (r * n + c) =
    (if r = i then C ! (r * n + c) + A ! (i * n + k) * B ! (k * n + c) else C ! (r * n + c))"
    using assms(4) by (simp add: gemm_row_def)
  show "length (gemm_row n A B i C k) = length C" by (simp add: gemm_row_def len)
qed

lemma gemm_rows_nth:
  assumes "length C = n * n" "i < n" "r < n" "c < n"
  shows "foldl (gemm_row n A B i) C [0..<h] ! (r * n + c) =
    (if r = i then C ! (r * n + c) + (\<Sum>k < h. A ! (i * n + k) * B ! (k * n + c)) else C ! (r * n + c)) \<and>
    length (foldl (gemm_row n A B i) C [0..<h]) = length C"
proof (induction h)
  case (Suc h)
  then show ?case using gemm_row_nth [of "foldl (gemm_row n A B i) C [0..<h]" n i r c A B h] assms by (cases "r = i") simp_all
qed simp

lemma gemm_nth:
  assumes "length C = n * n" "r < n" "c < n"
  shows "gemm n A B C ! (r * n + c) = C ! (r * n + c) + (\<Sum>k < n. A ! (r * n + k) * B ! (k * n + c))"
proof -
  have "foldl (\<lambda>C i. foldl (gemm_row n A B i) C [0..<n]) C [0..<h] ! (r * n + c) =
      (if r < h then C ! (r * n + c) + (\<Sum>k < n. A ! (r * n + k) * B ! (k * n + c)) else C ! (r * n + c)) \<and>
      length (foldl (\<lambda>C i. foldl (gemm_row n A B i) C [0..<n]) C [0..<h]) = length C" if "h \<le> n" for h
    using that
  proof (induction h)
    case (Suc h)
    let ?C = "foldl (\<lambda>C i. foldl (gemm_row n A B i) C [0..<n]) C [0..<h]"
    have "length ?C = n * n" using Suc assms(1) by simp
    from gemm_rows_nth [OF this, of h r c A B n] show ?case using Suc assms by auto
  qed simp
  from this [of n] show ?thesis using assms(2) by (simp add: gemm_def)
qed

lemma fp_gemm_measure_product:
  assumes "fp_gemm_measure s w = (ret, s', res, chk, w')" "r < 512" "c < 512"
  shows "gm_C s' ! (r * 512 + c) = (\<Sum>k < 512. gm_A s ! (r * 512 + k) * gm_B s ! (k * 512 + c))"
proof -
  have n: "GEMM_N = 512" by (simp add: GEMM_N_def)
  have rc: "r < GEMM_N" "c < GEMM_N" using assms(2,3) n by simp_all
  have "gm_C s' = gemm GEMM_N (gm_A s) (gm_B s) (replicate (GEMM_N * GEMM_N) 0)"
    using assms(1) by (auto simp: fp_gemm_measure_def Let_def case_prod_beta)
  then show ?thesis
    using gemm_nth [of "replicate (GEMM_N * GEMM_N) 0" GEMM_N r c "gm_A s" "gm_B s"] rc flat_less [OF rc(2,1)]
    unfolding n [symmetric] by simp
qed

subsection \<open>The convolution\<close>

definition CONV_H :: nat where "CONV_H = 128"

definition CONV_W :: nat where "CONV_W = 128"

definition CONV_K :: nat where "CONV_K = 3"

definition FLOP_PER_CONV :: real where
  "FLOP_PER_CONV = 2 * real (CONV_H - CONV_K + 1) * real (CONV_W - CONV_K + 1) * real CONV_K * real CONV_K"

record fp_conv_state_t =
  cv_input :: "real list"
  cv_kernel :: "real list"
  cv_output :: "real list"

definition conv_acc :: "fp_conv_state_t \<Rightarrow> nat \<Rightarrow> nat \<Rightarrow> real" where
  "conv_acc s y x =
     foldl (\<lambda>acc ky. foldl (\<lambda>acc kx. acc + cv_input s ! ((y + ky) * CONV_W + (x + kx)) * cv_kernel s ! (ky * CONV_K + kx))
       acc [0..<CONV_K]) 0 [0..<CONV_K]"

definition conv_row :: "fp_conv_state_t \<Rightarrow> real list \<Rightarrow> nat \<Rightarrow> real list" where
  "conv_row s out y =
     foldl (\<lambda>out x. out[y * (CONV_W - CONV_K + 1) + x := conv_acc s y x]) out [0..<CONV_W - CONV_K + 1]"

definition conv_pass :: "fp_conv_state_t \<Rightarrow> real list \<Rightarrow> real list" where
  "conv_pass s out = foldl (conv_row s) out [0..<CONV_H - CONV_K + 1]"

fun rand_units :: "nat \<Rightarrow> world \<Rightarrow> real list \<times> world" where
  "rand_units 0 w = ([], w)"
| "rand_units (Suc n) w = (let (r, w) = c_rand w; (xs, w) = rand_units n w in (real r / 2147483647 # xs, w))"

definition fp_conv_init :: "real \<Rightarrow> world \<Rightarrow> int \<times> fp_conv_state_t option \<times> world" where
  "fp_conv_init junk w =
     (let (p, w) = c_malloc w in
      if \<not> p then (-1, None, w)
      else let (i, w) = c_malloc w; (k, w) = c_malloc w; (out, w) = c_malloc w
        in if \<not> i \<or> \<not> k \<or> \<not> out then (-1, None, c_free p (c_free out (c_free k (c_free i w))))
           else let (xs, w) = rand_units (CONV_H * CONV_W) w; (ks, w) = rand_units (CONV_K * CONV_K) w
             in (0, Some \<lparr>cv_input = xs, cv_kernel = ks,
                   cv_output = replicate ((CONV_H - CONV_K + 1) * (CONV_W - CONV_K + 1)) junk\<rparr>, w))"

definition fp_conv_warmup :: "fp_conv_state_t \<Rightarrow> int \<times> real" where
  "fp_conv_warmup s =
     (0, \<Sum>y \<leftarrow> [0..<(CONV_H - CONV_K + 1) div 4]. \<Sum>x \<leftarrow> [0..<(CONV_W - CONV_K + 1) div 4]. conv_acc s y x)"

text \<open>100 passes, then one element again. The result is written only when it is confirmed.\<close>

definition fp_conv_measure :: "fp_conv_state_t \<Rightarrow> world \<Rightarrow> int \<times> fp_conv_state_t \<times> measurement_t option \<times> world" where
  "fp_conv_measure s w =
     (let (t0, w) = clock_monotonic w;
          out = (conv_pass s ^^ 100) (cv_output s);
          (t1, w) = clock_monotonic w;
          verify = conv_acc s 0 0;
          s = s\<lparr>cv_output := out\<rparr>;
          el = elapsed t0 t1
      in if \<bar>out ! 0 - verify\<bar> > 1 / 10 ^ 6 * \<bar>verify\<bar> then (-1, s, None, w)
         else (0, s, Some (plain_result (rate (100 * FLOP_PER_CONV) el) el), w))"

definition fp_conv_cleanup :: "world \<Rightarrow> int \<times> world" where
  "fp_conv_cleanup w = (0, c_free True (c_free True (c_free True (c_free True w))))"

lemma conv_acc_sum:
  "conv_acc s y x = (\<Sum>ky < 3. \<Sum>kx < 3. cv_input s ! ((y + ky) * 128 + (x + kx)) * cv_kernel s ! (ky * 3 + kx))"
  by (simp add: conv_acc_def CONV_W_def CONV_K_def upt_rec eval_nat_numeral)

lemma conv_row_nth:
  assumes "length out = CONV_N * CONV_N" "y < CONV_N" "r < CONV_N" "c < CONV_N" "CONV_N = CONV_W - CONV_K + 1"
  shows "conv_row s out y ! (r * CONV_N + c) = (if r = y then conv_acc s y c else out ! (r * CONV_N + c)) \<and>
    length (conv_row s out y) = length out"
proof -
  have "foldl (\<lambda>out x. out[y * CONV_N + x := conv_acc s y x]) out [0..<h] ! (r * CONV_N + c) =
      (if r = y \<and> c < h then conv_acc s y c else out ! (r * CONV_N + c)) \<and>
      length (foldl (\<lambda>out x. out[y * CONV_N + x := conv_acc s y x]) out [0..<h]) = length out" if "h \<le> CONV_N" for h
    using that
  proof (induction h)
    case (Suc h)
    have "y * CONV_N + h < length out" using flat_less [of h CONV_N y CONV_N] Suc.prems assms(1,2) by simp
    then show ?case
      using Suc flat_index [of h CONV_N c r y] assms(4) by (auto simp: nth_list_update less_Suc_eq)
  qed simp
  from this [of CONV_N] show ?thesis using assms(4) unfolding conv_row_def assms(5) [symmetric] by simp
qed

lemma conv_pass_nth:
  assumes "length out = 126 * 126" "r < 126" "c < 126"
  shows "conv_pass s out ! (r * 126 + c) = conv_acc s r c" "length (conv_pass s out) = 126 * 126"
proof -
  have dims: "126 = CONV_W - CONV_K + 1" "CONV_H - CONV_K + 1 = 126"
    by (simp_all add: CONV_W_def CONV_H_def CONV_K_def)
  have "foldl (conv_row s) out [0..<h] ! (r * 126 + c) = (if r < h then conv_acc s r c else out ! (r * 126 + c)) \<and>
      length (foldl (conv_row s) out [0..<h]) = length out" if "h \<le> 126" for h
    using that
  proof (induction h)
    case (Suc h)
    then show ?case
      using conv_row_nth [OF _ _ assms(2,3) dims(1), of "foldl (conv_row s) out [0..<h]" h s] assms(1)
      by (auto simp: less_Suc_eq)
  qed simp
  from this [of 126] show "conv_pass s out ! (r * 126 + c) = conv_acc s r c" "length (conv_pass s out) = 126 * 126"
    using assms unfolding conv_pass_def dims(2) by simp_all
qed

subsection \<open>The benchmarks under the harness\<close>

lemma conv_first:
  assumes "length out = 126 * 126" "0 < k"
  shows "length ((conv_pass s ^^ k) out) = 126 * 126 \<and>
    (\<forall>r < 126. \<forall>c < 126. (conv_pass s ^^ k) out ! (r * 126 + c) = conv_acc s r c)"
  using assms(2)
proof (induction k)
  case (Suc k)
  have "length ((conv_pass s ^^ k) out) = 126 * 126" using Suc assms(1) by (cases k) simp_all
  then show ?case using conv_pass_nth(1) conv_pass_nth(2) [of "(conv_pass s ^^ k) out" 0 0 s] by simp
qed simp

definition conv_state_ok :: "fp_conv_state_t \<Rightarrow> bool" where
  "conv_state_ok s \<longleftrightarrow> length (cv_output s) = 126 * 126"

text \<open>The check of the convolution never fails, and the output is the convolution.\<close>

lemma fp_conv_measure_correct:
  assumes "conv_state_ok s"
  shows "\<exists>s' m w'. fp_conv_measure s w = (0, s', Some m, w') \<and> conv_state_ok s' \<and> held w' = held w \<and>
    (\<forall>r < 126. \<forall>c < 126. cv_output s' ! (r * 126 + c) =
       (\<Sum>ky < 3. \<Sum>kx < 3. cv_input s ! ((r + ky) * 128 + (c + kx)) * cv_kernel s ! (ky * 3 + kx)))"
proof -
  let ?out = "(conv_pass s ^^ 100) (cv_output s)"
  have out: "length ?out = 126 * 126" "\<forall>r < 126. \<forall>c < 126. ?out ! (r * 126 + c) = conv_acc s r c"
    using conv_first [of "cv_output s" 100 s] assms by (simp_all add: conv_state_ok_def)
  have "?out ! 0 = conv_acc s 0 0" using out(2) [rule_format, of 0 0] by simp
  then show ?thesis
    using out by (simp add: fp_conv_measure_def Let_def case_prod_beta conv_state_ok_def conv_acc_sum)
qed

definition fp_gemm_ops :: "fp_gemm_state_t option bench_ops" where
  "fp_gemm_ops = pointed_ops fp_gemm_init (\<lambda>s. (fst (fp_gemm_warmup s), s))
     (\<lambda>s w. let (r, s, m, chk, w) = fp_gemm_measure s w in (r, s, m, w)) fp_gemm_cleanup"

definition fp_conv_ops :: "real \<Rightarrow> measurement_t \<Rightarrow> fp_conv_state_t option bench_ops" where
  "fp_conv_ops junk stale = pointed_ops (fp_conv_init junk) (\<lambda>s. (fst (fp_conv_warmup s), s))
     (\<lambda>s w. let (r, s, m, w) = fp_conv_measure s w in written_result stale (r, m, w) s) fp_conv_cleanup"

lemma rand_lists_held [simp]: "held (snd (rand_pairs n w)) = held w" "held (snd (rand_units n w)) = held w"
  by (induction n arbitrary: w) (simp_all add: case_prod_beta)

lemma rand_units_length [simp]: "length (fst (rand_units n w)) = n"
  by (induction n arbitrary: w) (simp_all add: case_prod_beta)

interpretation fp_gemm: bench_tidy fp_gemm_ops "pointed (\<lambda>_. True)" "\<lambda>_. 4"
  unfolding fp_gemm_ops_def
proof (rule pointed_tidy)
  fix w r st w' assume "fp_gemm_init w = (r, st, w')"
  then show "held w' = (if r = 0 then owning 4 (held w) else held w) \<and> (r = 0 \<longrightarrow> pointed (\<lambda>_. True) st)"
    by (auto simp: fp_gemm_init_def Let_def case_prod_beta held_own pointed_def split: if_splits)
next
  fix s w r s' m w' assume "(let (r, s, m, chk, w) = fp_gemm_measure s w in (r, s, m, w)) = (r, s', m, w')"
  then show "True \<and> held w' = held w" by (auto simp: fp_gemm_measure_def Let_def case_prod_beta)
next
  fix w r w' assume "fp_gemm_cleanup w = (r, w')"
  then show "held w' = owning (- 4) (held w)" by (auto simp: fp_gemm_cleanup_def held_own)
qed simp

interpretation fp_conv: bench_tidy "fp_conv_ops junk stale" "pointed conv_state_ok" "\<lambda>_. 4" for junk stale
  unfolding fp_conv_ops_def
proof (rule pointed_tidy)
  fix w r st w' assume "fp_conv_init junk w = (r, st, w')"
  then show "held w' = (if r = 0 then owning 4 (held w) else held w) \<and> (r = 0 \<longrightarrow> pointed conv_state_ok st)"
    by (auto simp: fp_conv_init_def Let_def case_prod_beta held_own pointed_def conv_state_ok_def CONV_H_def CONV_W_def
        CONV_K_def split: if_splits)
next
  fix s w r s' m w' assume "conv_state_ok s"
    "(let (r, s, m, w) = fp_conv_measure s w in written_result stale (r, m, w) s) = (r, s', m, w')"
  then show "conv_state_ok s' \<and> held w' = held w"
    using fp_conv_measure_correct [of s w] by (auto simp: written_result_def)
next
  fix w r w' assume "fp_conv_cleanup w = (r, w')"
  then show "held w' = owning (- 4) (held w)" by (auto simp: fp_conv_cleanup_def held_own)
qed simp_all

text \<open>Under the iteration loop of the harness the two benchmarks end with defined results and leak nothing.\<close>

lemma fp_gemm_instance:
  "\<exists>ret it us w'. run_benchmark_instance bench_fp_gemm fp_gemm_ops fresh_values w = Ret (ret, it, us, w') \<and> held w' = held w"
  by (rule fp_gemm.instance_never_leaks) (simp add: instance_limits_def bench_fp_gemm_def ssb_consts)

lemma fp_conv_instance:
  "\<exists>ret it us w'. run_benchmark_instance bench_fp_conv (fp_conv_ops junk stale) fresh_values w = Ret (ret, it, us, w') \<and>
     held w' = held w"
  by (rule fp_conv.instance_never_leaks) (simp add: instance_limits_def bench_fp_conv_def ssb_consts)

end
