(* ===== verification/FftBench.thy ===== *)
theory FftBench
  imports KernelOps
begin

text \<open>
  \<^verbatim>\<open>src/benchmarks/compute/fp_fft.c\<close>: the radix-2 transform on two arrays of numbers, with the tables \<^verbatim>\<open>init\<close> computes,
  and the benchmark that transforms, transforms back and compares. The reference is the discrete Fourier sum over
  the complex numbers; arithmetic is that of the real numbers.
\<close>

unbundle bit_operations_syntax

subsection \<open>The code\<close>

definition FFT_N :: nat where "FFT_N = 2048"

type_synonym fft_arrays = "real list \<times> real list"

text \<open>The bit reversal: exchange \<open>i\<close> and \<^verbatim>\<open>rev[i]\<close>, once for each pair.\<close>

definition swap_at :: "nat \<Rightarrow> nat \<Rightarrow> 'a list \<Rightarrow> 'a list" where
  "swap_at i j xs = (let t = xs ! i; xs = xs[i := xs ! j] in xs[j := t])"

definition reverse_step :: "nat list \<Rightarrow> fft_arrays \<Rightarrow> nat \<Rightarrow> fft_arrays" where
  "reverse_step revs v i =
     (let j = revs ! i in if i < j then (swap_at i j (fst v), swap_at i j (snd v)) else v)"

definition butterfly :: "nat \<Rightarrow> real list \<Rightarrow> real list \<Rightarrow> nat \<Rightarrow> nat \<Rightarrow> fft_arrays \<Rightarrow> nat \<Rightarrow> fft_arrays" where
  "butterfly n cos_t sin_t len i v j =
     (let (re, im) = v; half = len div 2;
          wr = cos_t ! (j * (n div len)); wi = sin_t ! (j * (n div len));
          tr = re ! (i + j + half) * wr - im ! (i + j + half) * wi;
          ti = re ! (i + j + half) * wi + im ! (i + j + half) * wr;
          re = re[i + j + half := re ! (i + j) - tr];
          im = im[i + j + half := im ! (i + j) - ti];
          re = re[i + j := re ! (i + j) + tr];
          im = im[i + j := im ! (i + j) + ti]
      in (re, im))"

text \<open>One value of \<^verbatim>\<open>len\<close>: the block starts are the multiples of \<^verbatim>\<open>len\<close> below \<^verbatim>\<open>n\<close>.\<close>

definition fft_stage :: "nat \<Rightarrow> real list \<Rightarrow> real list \<Rightarrow> nat \<Rightarrow> fft_arrays \<Rightarrow> fft_arrays" where
  "fft_stage n cos_t sin_t len v =
     foldl (\<lambda>v i. foldl (butterfly n cos_t sin_t len i) v [0..<len div 2]) v (filter (\<lambda>i. i mod len = 0) [0..<n])"

function fft_loop :: "nat \<Rightarrow> real list \<Rightarrow> real list \<Rightarrow> nat \<Rightarrow> fft_arrays \<Rightarrow> fft_arrays" where
  "fft_loop n cos_t sin_t len v =
     (if 0 < len \<and> len \<le> n then fft_loop n cos_t sin_t (len * 2) (fft_stage n cos_t sin_t len v) else v)"
  by pat_completeness auto
termination by (relation "measure (\<lambda>(n, c, s, len, v). Suc n - len)") auto

declare fft_loop.simps [simp del]

definition fft_radix2 :: "fft_arrays \<Rightarrow> nat \<Rightarrow> real list \<Rightarrow> real list \<Rightarrow> nat list \<Rightarrow> fft_arrays" where
  "fft_radix2 v n cos_t sin_t revs = fft_loop n cos_t sin_t 2 (foldl (reverse_step revs) v [0..<n])"

text \<open>The tables. \<open>bit_rev_entry\<close> is the inner loop over the bits \<open>b\<close> with \<^verbatim>\<open>(1 << b) < n\<close>.\<close>

definition bit_rev_entry :: "nat \<Rightarrow> nat \<Rightarrow> nat" where
  "bit_rev_entry n i =
     foldl (\<lambda>r b. if bit i b then r OR drop_bit (b + 1) n else r) 0 (takeWhile (\<lambda>b. 2 ^ b < n) [0..<n])"

definition twiddle_angle :: "nat \<Rightarrow> nat \<Rightarrow> real" where
  "twiddle_angle n i = - 2 * pi * real i / real n"

record fp_fft_state_t =
  ff_real :: "real list"
  ff_cos :: "real list"
  ff_sin :: "real list"
  ff_rev :: "nat list"
  ff_work :: fft_arrays

text \<open>\<open>junk\<close> is what fresh memory holds; \<^verbatim>\<open>s->imag\<close> is set to zeros that nothing reads. The data are
  \<open>(double)rand()/RAND_MAX - 0.5\<close>.\<close>

fun rand_reals :: "nat \<Rightarrow> world \<Rightarrow> real list \<times> world" where
  "rand_reals 0 w = ([], w)"
| "rand_reals (Suc n) w =
     (let (r, w) = c_rand w; (xs, w) = rand_reals n w in ((real r / 2147483647 - 1 / 2) # xs, w))"

definition fp_fft_init :: "real \<Rightarrow> world \<Rightarrow> int \<times> fp_fft_state_t option \<times> world" where
  "fp_fft_init junk w =
     (let (p, w) = c_malloc w in
      if \<not> p then (-1, None, w)
      else let (re, w) = c_malloc w; (im, w) = c_malloc w; (tc, w) = c_malloc w; (ts, w) = c_malloc w;
               (br, w) = c_malloc w; (wr, w) = c_malloc w; (wi, w) = c_malloc w
        in if \<not> re \<or> \<not> im \<or> \<not> tc \<or> \<not> ts \<or> \<not> br \<or> \<not> wr \<or> \<not> wi
           then (-1, None, c_free p (c_free wi (c_free wr (c_free br (c_free ts (c_free tc (c_free im (c_free re w))))))))
           else let (xs, w) = rand_reals FFT_N w
             in (0, Some \<lparr>ff_real = xs,
                   ff_cos = map (\<lambda>i. cos (twiddle_angle FFT_N i)) [0..<FFT_N],
                   ff_sin = map (\<lambda>i. sin (twiddle_angle FFT_N i)) [0..<FFT_N],
                   ff_rev = map (bit_rev_entry FFT_N) [0..<FFT_N],
                   ff_work = (replicate FFT_N junk, replicate FFT_N 0)\<rparr>, w))"

definition load_work :: "fp_fft_state_t \<Rightarrow> fft_arrays" where
  "load_work s = (ff_real s, replicate FFT_N 0)"

definition fp_fft_warmup :: "fp_fft_state_t \<Rightarrow> int \<times> fp_fft_state_t" where
  "fp_fft_warmup s = (0, s\<lparr>ff_work := fft_radix2 (load_work s) FFT_N (ff_cos s) (ff_sin s) (ff_rev s)\<rparr>)"

definition FLOPS_PER_FFT :: real where
  "FLOPS_PER_FFT = 5 * real FFT_N * log 2 (real FFT_N)"

text \<open>The fourth component is the sum of deviations, which only goes to a volatile sink.\<close>

definition fp_fft_measure :: "fp_fft_state_t \<Rightarrow> world \<Rightarrow> int \<times> fp_fft_state_t \<times> measurement_t \<times> real \<times> world" where
  "fp_fft_measure s w =
     (let work = load_work s;
          (t0, w) = clock_monotonic w;
          work = fft_radix2 work FFT_N (ff_cos s) (ff_sin s) (ff_rev s);
          (t1, w) = clock_monotonic w;
          s = s\<lparr>ff_sin := map uminus (ff_sin s)\<rparr>;
          (re, im) = fft_radix2 work FFT_N (ff_cos s) (ff_sin s) (ff_rev s);
          re = map (\<lambda>x. x / real FFT_N) re; im = map (\<lambda>x. x / real FFT_N) im;
          sink = (\<Sum>i \<leftarrow> [0..<FFT_N]. \<bar>re ! i - ff_real s ! i\<bar>);
          s = s\<lparr>ff_sin := map uminus (ff_sin s), ff_work := (re, im)\<rparr>;
          el = elapsed t0 t1
      in (0, s, plain_result (rate FLOPS_PER_FFT el) el, sink, w))"

definition fp_fft_cleanup :: "world \<Rightarrow> int \<times> world" where
  "fp_fft_cleanup w = (0, (c_free True ^^ 8) w)"

subsection \<open>Arrays as functions to the complex numbers\<close>

definition cvec :: "fft_arrays \<Rightarrow> nat \<Rightarrow> complex" where
  "cvec v i = Complex (fst v ! i) (snd v ! i)"

definition sized :: "nat \<Rightarrow> fft_arrays \<Rightarrow> bool" where
  "sized n v \<longleftrightarrow> length (fst v) = n \<and> length (snd v) = n"

definition bfly :: "complex \<Rightarrow> nat \<Rightarrow> nat \<Rightarrow> (nat \<Rightarrow> complex) \<Rightarrow> nat \<Rightarrow> complex" where
  "bfly w p q f = f(q := f p - w * f q, p := f p + w * f q)"

lemma butterfly_sized [simp]: "sized n (butterfly m c s len i v j) \<longleftrightarrow> sized n v"
  by (simp add: butterfly_def sized_def case_prod_beta Let_def)

lemma butterfly_cvec:
  assumes "sized n v" "i + j + len div 2 < n" "0 < len div 2"
  shows "cvec (butterfly n c s len i v j) =
    bfly (Complex (c ! (j * (n div len))) (s ! (j * (n div len)))) (i + j) (i + j + len div 2) (cvec v)"
  using assms
  by (auto simp: fun_eq_iff cvec_def bfly_def butterfly_def sized_def case_prod_beta Let_def nth_list_update complex_eq_iff)

text \<open>A block, and all blocks.\<close>

lemma foldl_sized:
  "(\<And>v j. sized n (g v j) \<longleftrightarrow> sized n v) \<Longrightarrow> sized n (foldl g v js) \<longleftrightarrow> sized n v"
  by (induction js arbitrary: v) simp_all

lemma block_fun:
  fixes i h half :: nat
  assumes "h \<le> half"
  shows "foldl (\<lambda>f j. bfly (w j) (i + j) (i + j + half) f) f [0..<h] k =
    (if i \<le> k \<and> k < i + h then f k + w (k - i) * f (k + half)
     else if i + half \<le> k \<and> k < i + half + h then f (k - half) - w (k - i - half) * f k else f k)"
  using assms
proof (induction h arbitrary: k)
  case (Suc h)
  define g where "g = foldl (\<lambda>f j. bfly (w j) (i + j) (i + j + half) f) f [0..<h]"
  have g: "g k = (if i \<le> k \<and> k < i + h then f k + w (k - i) * f (k + half)
     else if i + half \<le> k \<and> k < i + half + h then f (k - half) - w (k - i - half) * f k else f k)" for k
    unfolding g_def using Suc by simp
  have "foldl (\<lambda>f j. bfly (w j) (i + j) (i + j + half) f) f [0..<Suc h] k = bfly (w h) (i + h) (i + h + half) g k"
    by (simp add: g_def)
  also have "\<dots> = (if k = i + h then g (i + h) + w h * g (i + h + half)
      else if k = i + h + half then g (i + h) - w h * g (i + h + half) else g k)"
    by (simp add: bfly_def)
  also have "\<dots> = (if i \<le> k \<and> k < i + Suc h then f k + w (k - i) * f (k + half)
     else if i + half \<le> k \<and> k < i + half + Suc h then f (k - half) - w (k - i - half) * f k else f k)"
    unfolding g using Suc.prems by auto
  finally show ?case .
qed auto

text \<open>What a stage makes of every place: the two halves of its block, combined.\<close>

definition combined :: "nat \<Rightarrow> (nat \<Rightarrow> complex) \<Rightarrow> (nat \<Rightarrow> complex) \<Rightarrow> nat \<Rightarrow> complex" where
  "combined half w f k =
     (let j = k mod (2 * half)
      in if j < half then f k + w j * f (k + half) else f (k - half) - w (j - half) * f k)"

lemma in_block:
  fixes c half k :: nat
  assumes "c * (2 * half) \<le> k" "k < Suc c * (2 * half)"
  shows "k mod (2 * half) = k - c * (2 * half)"
proof -
  obtain d where d: "k = c * (2 * half) + d" using assms(1) le_Suc_ex by blast
  then have "d < 2 * half" using assms(2) by simp
  then show ?thesis unfolding d by (simp only: mod_mult_self3 add_diff_cancel_left' mod_less)
qed

lemma block_combined:
  "foldl (\<lambda>f j. bfly (w j) (c * (2 * half) + j) (c * (2 * half) + j + half) f) f [0..<half] k =
    (if c * (2 * half) \<le> k \<and> k < Suc c * (2 * half) then combined half w f k else f k)"
proof (cases "c * (2 * half) \<le> k \<and> k < Suc c * (2 * half)")
  case True
  define i where "i = c * (2 * half)"
  have k: "k mod (2 * half) = k - i" "i \<le> k" "k < i + 2 * half" using True in_block [of c half k] by (simp_all add: i_def)
  show ?thesis using True unfolding block_fun [OF order_refl] combined_def Let_def i_def [symmetric] k(1)
    using k(2,3) by auto
next
  case False
  then show ?thesis unfolding block_fun [OF order_refl] by auto
qed

lemma combined_cong:
  assumes "c * (2 * half) \<le> k" "k < Suc c * (2 * half)" "\<And>x. c * (2 * half) \<le> x \<Longrightarrow> g x = f x"
  shows "combined half w g k = combined half w f k"
proof -
  have "c * (2 * half) \<le> k - half" if "\<not> k - c * (2 * half) < half" using that assms(1) by linarith
  then show ?thesis using assms by (auto simp: combined_def in_block Let_def)
qed

lemma blocks_combined:
  "foldl (\<lambda>f i. foldl (\<lambda>f j. bfly (w j) (i + j) (i + j + half) f) f [0..<half]) f (map (\<lambda>c. c * (2 * half)) [0..<cs]) k =
    (if k < cs * (2 * half) then combined half w f k else f k)"
proof (induction cs arbitrary: k)
  case (Suc cs)
  define g where "g = foldl (\<lambda>f i. foldl (\<lambda>f j. bfly (w j) (i + j) (i + j + half) f) f [0..<half]) f (map (\<lambda>c. c * (2 * half)) [0..<cs])"
  have g: "g k = (if k < cs * (2 * half) then combined half w f k else f k)" for k unfolding g_def by (rule Suc)
  have "foldl (\<lambda>f i. foldl (\<lambda>f j. bfly (w j) (i + j) (i + j + half) f) f [0..<half]) f (map (\<lambda>c. c * (2 * half)) [0..<Suc cs]) k
    = (if cs * (2 * half) \<le> k \<and> k < Suc cs * (2 * half) then combined half w g k else g k)"
    using block_combined [of w cs half g k] by (simp add: g_def)
  also have "\<dots> = (if k < Suc cs * (2 * half) then combined half w f k else f k)"
    using combined_cong [where c = cs and half = half and k = k and g = g and f = f and w = w] by (auto simp: g)
  finally show ?case .
qed simp

lemma block_starts: "0 < len \<Longrightarrow> filter (\<lambda>i. i mod len = 0) [0..<cs * len] = map (\<lambda>c. c * len) [0..<cs]" for len :: nat
proof (induction cs)
  case (Suc cs)
  have "[0..<Suc cs * len] = [0..<cs * len] @ [cs * len..<cs * len + len]"
    by (metis add.commute mult_Suc upt_add_eq_append zero_le)
  moreover have "[cs * len..<cs * len + len] = cs * len # [Suc (cs * len)..<cs * len + len]"
    using Suc.prems by (simp add: upt_conv_Cons)
  moreover have "filter (\<lambda>i. i mod len = 0) [Suc (cs * len)..<cs * len + len] = []"
  proof (rule filter_False, rule ballI)
    fix x assume "x \<in> set [Suc (cs * len)..<cs * len + len]"
    then have "x = (x - cs * len) + cs * len" "0 < x - cs * len" "x - cs * len < len" by auto
    then show "x mod len \<noteq> 0" by (metis mod_less mod_mult_self1 less_irrefl)
  qed
  ultimately show ?case using Suc by simp
qed simp

lemma foldl_cvec:
  assumes "\<And>v j. j \<in> set js \<Longrightarrow> sized n v \<Longrightarrow> sized n (g v j) \<and> cvec (g v j) = h (cvec v) j" "sized n v"
  shows "sized n (foldl g v js) \<and> cvec (foldl g v js) = foldl h (cvec v) js"
  using assms by (induction js arbitrary: v) auto

definition twiddle :: "real list \<Rightarrow> real list \<Rightarrow> nat \<Rightarrow> complex" where
  "twiddle c s i = Complex (c ! i) (s ! i)"

lemma stage_cvec:
  assumes "sized (cs * (2 * half)) v" "0 < half"
  shows "sized (cs * (2 * half)) (fft_stage (cs * (2 * half)) c s (2 * half) v) \<and>
    (\<forall>k < cs * (2 * half). cvec (fft_stage (cs * (2 * half)) c s (2 * half) v) k =
       combined half (\<lambda>j. twiddle c s (j * cs)) (cvec v) k)"
proof -
  let ?n = "cs * (2 * half)"
  let ?h = "\<lambda>i f j. bfly (twiddle c s (j * cs)) (i + j) (i + j + half) f"
  have inner: "sized ?n (foldl (butterfly ?n c s (2 * half) i) v [0..<half]) \<and>
      cvec (foldl (butterfly ?n c s (2 * half) i) v [0..<half]) = foldl (?h i) (cvec v) [0..<half]"
    if "sized ?n v" "i \<in> set (map (\<lambda>c. c * (2 * half)) [0..<cs])" for v i
  proof (rule foldl_cvec [OF _ that(1)])
    from that(2) obtain b where b: "i = b * (2 * half)" "b < cs" unfolding set_map set_upt by fastforce
    fix v j assume v: "sized ?n v" and "j \<in> set [0..<half]"
    from b have "Suc b * (2 * half) \<le> ?n" by (intro mult_le_mono1) simp
    then have "i + j + half < ?n" using b(1) \<open>j \<in> set [0..<half]\<close> by simp
    then show "sized ?n (butterfly ?n c s (2 * half) i v j) \<and> cvec (butterfly ?n c s (2 * half) i v j) = ?h i (cvec v) j"
      using butterfly_cvec [OF v, of i j "2 * half" c s] v assms(2) by (simp add: twiddle_def)
  qed
  have starts: "filter (\<lambda>i. i mod (2 * half) = 0) [0..<?n] = map (\<lambda>c. c * (2 * half)) [0..<cs]"
    using assms(2) by (intro block_starts) simp
  have "sized ?n (fft_stage ?n c s (2 * half) v) \<and> cvec (fft_stage ?n c s (2 * half) v) =
      foldl (\<lambda>f i. foldl (?h i) f [0..<half]) (cvec v) (map (\<lambda>c. c * (2 * half)) [0..<cs])"
    unfolding fft_stage_def starts using inner assms by (intro foldl_cvec) simp_all
  then show ?thesis using blocks_combined [where half = half and w = "\<lambda>j. twiddle c s (j * cs)" and f = "cvec v" and cs = cs] by simp
qed

subsection \<open>The discrete Fourier sum\<close>

text \<open>The reversal of the last \<open>m\<close> bits.\<close>

fun reversed :: "nat \<Rightarrow> nat \<Rightarrow> nat" where
  "reversed 0 i = 0"
| "reversed (Suc m) i = (if odd i then 2 ^ m else 0) + reversed m (i div 2)"

text \<open>The sum over the elements that block \<open>b\<close> of stage \<open>s\<close> stands for.\<close>

definition partial_sum :: "complex \<Rightarrow> nat \<Rightarrow> (nat \<Rightarrow> complex) \<Rightarrow> nat \<Rightarrow> nat \<Rightarrow> nat \<Rightarrow> complex" where
  "partial_sum z m x s b k =
     (\<Sum>t < 2 ^ s. x (t * 2 ^ (m - s) + reversed (m - s) b) * z ^ (k * t * 2 ^ (m - s)))"

lemma sum_even_odd: "(\<Sum>t < 2 * N. g t) = (\<Sum>t < N. g (2 * t)) + (\<Sum>t < N. g (Suc (2 * t)))"
  for g :: "nat \<Rightarrow> complex"
  by (induction N) (simp_all add: algebra_simps)

lemma partial_sum_step:
  assumes "s < m"
  shows "partial_sum z m x (Suc s) b k =
    partial_sum z m x s (2 * b) k + z ^ (k * 2 ^ (m - Suc s)) * partial_sum z m x s (Suc (2 * b)) k"
proof -
  obtain d where d: "m - s = Suc d" "m - Suc s = d" using assms by (metis Suc_diff_Suc)
  have "(\<Sum>t < 2 ^ s. x (Suc (2 * t) * 2 ^ d + reversed d b) * z ^ (k * Suc (2 * t) * 2 ^ d))
      = z ^ (k * 2 ^ d) * (\<Sum>t < 2 ^ s. x (t * 2 ^ Suc d + (2 ^ d + reversed d b)) * z ^ (k * t * 2 ^ Suc d))"
    unfolding sum_distrib_left by (intro sum.cong) (simp_all add: algebra_simps power_add)
  then show ?thesis
    unfolding partial_sum_def d power_Suc [of 2 s] sum_even_odd by (simp add: algebra_simps)
qed

text \<open>The other half of the block: the root of unity changes the sign.\<close>

lemma partial_sum_half:
  assumes "s < m" "z ^ 2 ^ (m - 1) = - 1"
  shows "partial_sum z m x s b (2 ^ s + k) = partial_sum z m x s b k" "z ^ ((2 ^ s + k) * 2 ^ (m - Suc s)) = - (z ^ (k * 2 ^ (m - Suc s)))"
proof -
  have "(2 :: nat) ^ m = 2 * 2 ^ (m - 1)" using assms(1) by (cases m) simp_all
  then have one: "z ^ 2 ^ m = 1" using assms(2) by (simp add: power_mult mult.commute [of 2])
  have e: "(2 :: nat) ^ s * 2 ^ (m - s) = 2 ^ m" "(2 :: nat) ^ s * 2 ^ (m - Suc s) = 2 ^ (m - 1)"
    using assms(1) by (simp_all flip: power_add)
  have "z ^ ((2 ^ s + k) * t * 2 ^ (m - s)) = z ^ (k * t * 2 ^ (m - s))" for t
  proof -
    have "(2 ^ s + k) * t * 2 ^ (m - s) = 2 ^ m * t + k * t * 2 ^ (m - s)"
      unfolding e(1) [symmetric] by (simp add: algebra_simps)
    then show ?thesis using one by (simp add: power_add power_mult)
  qed
  then show "partial_sum z m x s b (2 ^ s + k) = partial_sum z m x s b k" by (simp add: partial_sum_def)
  show "z ^ ((2 ^ s + k) * 2 ^ (m - Suc s)) = - (z ^ (k * 2 ^ (m - Suc s)))"
    unfolding distrib_right e(2) power_add assms(2) by simp
qed

subsection \<open>All stages\<close>

definition sums_at :: "complex \<Rightarrow> nat \<Rightarrow> (nat \<Rightarrow> complex) \<Rightarrow> nat \<Rightarrow> (nat \<Rightarrow> complex) \<Rightarrow> bool" where
  "sums_at z m x s f \<longleftrightarrow> (\<forall>b < 2 ^ (m - s). \<forall>k < 2 ^ s. f (b * 2 ^ s + k) = partial_sum z m x s b k)"

lemma sums_at_step:
  assumes "sums_at z m x s f" "s < m" "z ^ 2 ^ (m - 1) = - 1"
    and w: "\<And>j. j < 2 ^ s \<Longrightarrow> w j = z ^ (j * 2 ^ (m - Suc s))"
    and f': "\<And>k. k < 2 ^ m \<Longrightarrow> f' k = combined (2 ^ s) w f k"
  shows "sums_at z m x (Suc s) f'"
  unfolding sums_at_def
proof (intro allI impI)
  fix b k :: nat assume b: "b < 2 ^ (m - Suc s)" and k: "k < 2 ^ Suc s"
  have m: "(2 :: nat) ^ (m - s) = 2 * 2 ^ (m - Suc s)" "(2 :: nat) ^ m = 2 ^ (m - Suc s) * 2 ^ Suc s"
    using assms(2) by (simp_all add: Suc_diff_Suc flip: power_Suc power_add)
  have "Suc b * 2 ^ Suc s \<le> 2 ^ (m - Suc s) * 2 ^ Suc s" using b by (intro mult_le_mono1) simp
  then have "b * 2 ^ Suc s + k < 2 ^ m" using k unfolding m(2) by simp
  then have f'k: "f' (b * 2 ^ Suc s + k) = combined (2 ^ s) w f (b * 2 ^ Suc s + k)" by (rule f')
  have mod: "(b * 2 ^ Suc s + k) mod (2 * 2 ^ s) = k" using k by simp
  have old: "f (2 * b * 2 ^ s + j) = partial_sum z m x s (2 * b) j" "f (Suc (2 * b) * 2 ^ s + j) = partial_sum z m x s (Suc (2 * b)) j"
    if "j < 2 ^ s" for j
  proof -
    have "2 * b < 2 ^ (m - s)" "Suc (2 * b) < 2 ^ (m - s)" using b m(1) by linarith+
    then show "f (2 * b * 2 ^ s + j) = partial_sum z m x s (2 * b) j" "f (Suc (2 * b) * 2 ^ s + j) = partial_sum z m x s (Suc (2 * b)) j"
      using assms(1) that unfolding sums_at_def by blast+
  qed
  show "f' (b * 2 ^ Suc s + k) = partial_sum z m x (Suc s) b k"
  proof (cases "k < 2 ^ s")
    case True
    then show ?thesis
      using old [OF True] w [OF True] f'k mod unfolding partial_sum_step [OF assms(2)] combined_def Let_def
      by (simp add: algebra_simps)
  next
    case False
    then obtain j where j: "k = 2 ^ s + j" "j < 2 ^ s" using k le_Suc_ex [of "2 ^ s" k] by auto
    show ?thesis
      using old [OF j(2)] w [OF j(2)] f'k mod partial_sum_half [OF assms(2,3)] False
      unfolding partial_sum_step [OF assms(2)] combined_def Let_def j(1)
      by (simp add: algebra_simps)
  qed
qed

lemma fft_loop_sums:
  assumes "k \<le> m" "sized (2 ^ m) v" "sums_at z m x k (cvec v)" "m = 0 \<or> z ^ 2 ^ (m - 1) = - 1"
    and table: "\<And>i. i < 2 ^ (m - 1) \<Longrightarrow> twiddle c s i = z ^ i"
  shows "sums_at z m x m (cvec (fft_loop (2 ^ m) c s (2 ^ Suc k) v)) \<and> sized (2 ^ m) (fft_loop (2 ^ m) c s (2 ^ Suc k) v)"
  using assms(1-3)
proof (induction "m - k" arbitrary: k v)
  case 0
  then show ?case by (subst (1 2) fft_loop.simps) simp
next
  case (Suc d)
  then have k: "k < m" by simp
  have n: "(2 :: nat) ^ m = 2 ^ (m - Suc k) * (2 * 2 ^ k)" using k by (simp flip: power_add power_Suc)
  let ?v = "fft_stage (2 ^ m) c s (2 * 2 ^ k) v"
  have stage: "sized (2 ^ m) ?v" "\<And>i. i < 2 ^ m \<Longrightarrow> cvec ?v i = combined (2 ^ k) (\<lambda>j. twiddle c s (j * 2 ^ (m - Suc k))) (cvec v) i"
    using stage_cvec [of "2 ^ (m - Suc k)" "2 ^ k" v c s] Suc.prems(2) by (simp_all flip: n)
  have "twiddle c s (j * 2 ^ (m - Suc k)) = z ^ (j * 2 ^ (m - Suc k))" if "j < 2 ^ k" for j
  proof (rule table)
    have "j * 2 ^ (m - Suc k) < 2 ^ k * 2 ^ (m - Suc k)" using that by simp
    also have "\<dots> = 2 ^ (m - 1)" using k by (simp flip: power_add)
    finally show "j * 2 ^ (m - Suc k) < 2 ^ (m - 1)" .
  qed
  then have "sums_at z m x (Suc k) (cvec ?v)"
    using sums_at_step [OF Suc.prems(3) k _ _ stage(2)] assms(4) k by auto
  then have "sums_at z m x m (cvec (fft_loop (2 ^ m) c s (2 ^ Suc (Suc k)) ?v)) \<and> sized (2 ^ m) (fft_loop (2 ^ m) c s (2 ^ Suc (Suc k)) ?v)"
    using Suc.hyps(1) [of "Suc k" ?v] Suc.hyps(2) k stage(1) by simp
  moreover have "fft_loop (2 ^ m) c s (2 ^ Suc k) v = fft_loop (2 ^ m) c s (2 ^ Suc (Suc k)) ?v"
    using k power_increasing [of "Suc k" m "2 :: nat"] by (subst fft_loop.simps) (simp add: mult.commute)
  ultimately show ?case by simp
qed

subsection \<open>Bit reversal\<close>

lemma reversed_less: "reversed m i < 2 ^ m"
proof (induction m arbitrary: i)
  case (Suc m)
  from Suc [of "i div 2"] show ?case by simp
qed simp

lemma no_bit: "r < 2 ^ m \<Longrightarrow> m \<le> k \<Longrightarrow> \<not> bit r k" for r :: nat
  by (metis bit_take_bit_iff not_less take_bit_nat_eq_self)

lemma bit_reversed: "bit (reversed m i) k \<longleftrightarrow> k < m \<and> bit i (m - 1 - k)"
proof (induction m arbitrary: i)
  case (Suc m)
  let ?r = "reversed m (i div 2)"
  have r: "?r < 2 ^ m" by (rule reversed_less)
  then have "2 ^ m AND ?r = 0" by (intro bit_eqI) (auto simp: bit_simps no_bit)
  then have "2 ^ m + ?r = 2 ^ m OR ?r" by (rule disjunctive_add_eq_or)
  then have "bit (reversed (Suc m) i) k \<longleftrightarrow> odd i \<and> k = m \<or> bit ?r k" by (auto simp: bit_simps)
  also have "\<dots> \<longleftrightarrow> k < Suc m \<and> bit i (Suc m - 1 - k)"
    unfolding Suc using Suc_diff_Suc [of k m] by (auto simp: less_Suc_eq bit_0 simp flip: bit_Suc)
  finally show ?case .
qed simp

lemma reversed_reversed: "i < 2 ^ m \<Longrightarrow> reversed m (reversed m i) = i"
proof (rule bit_eqI)
  fix n assume i: "i < 2 ^ m"
  have "m - 1 - (m - 1 - n) = n" if "n < m" using that by simp
  then show "bit (reversed m (reversed m i)) n = bit i n"
    using no_bit [OF i] by (cases "n < m") (auto simp: bit_reversed)
qed

lemma bit_rev_entry: "i < 2 ^ m \<Longrightarrow> bit_rev_entry (2 ^ m) i = reversed m i"
proof -
  have "m \<le> 2 ^ m" by simp
  then have "[0..<2 ^ m] = [0..<m] @ [m..<2 ^ m]" by (metis le_add_diff_inverse upt_add_eq_append zero_le)
  then have bits: "takeWhile (\<lambda>b. 2 ^ b < (2 :: nat) ^ m) [0..<2 ^ m] = [0..<m]"
    by (cases "[m..<2 ^ m]") (auto simp: takeWhile_append upt_eq_Cons_conv)
  have fold: "bit (foldl (\<lambda>r b. if bit i b then r OR drop_bit (b + 1) (2 ^ m) else r) (0 :: nat) [0..<h]) k \<longleftrightarrow>
      (\<exists>b < h. bit i b \<and> b + 1 + k = m)" for h k
  proof (induction h)
    case (Suc h)
    then show ?case by (auto simp: bit_simps less_Suc_eq)
  qed simp
  show ?thesis
    unfolding bit_rev_entry_def bits
  proof (rule bit_eqI)
    fix k
    show "bit (foldl (\<lambda>r b. if bit i b then r OR drop_bit (b + 1) (2 ^ m) else r) (0 :: nat) [0..<m]) k = bit (reversed m i) k"
      unfolding fold bit_reversed by (auto intro!: exI [of _ "m - Suc k"])
  qed
qed

text \<open>Exchanging \<open>i\<close> and \<open>revs ! i\<close> for every \<open>i\<close> below permutes by an involution.\<close>

lemma swap_at_nth: "i < length xs \<Longrightarrow> j < length xs \<Longrightarrow> swap_at i j xs ! k = (if k = j then xs ! i else if k = i then xs ! j else xs ! k)"
  by (auto simp: swap_at_def nth_list_update Let_def)

lemma reverse_step_cvec:
  assumes "sized n v" "revs ! i < n" "i < n"
  shows "sized n (reverse_step revs v i)" "cvec (reverse_step revs v i) k =
    (if i < revs ! i then (if k = revs ! i then cvec v i else if k = i then cvec v (revs ! i) else cvec v k) else cvec v k)"
  using assms by (auto simp: reverse_step_def sized_def cvec_def swap_at_nth Let_def) (auto simp: swap_at_def Let_def)

lemma reverse_loop:
  assumes "sized n v" "\<And>i. i < n \<Longrightarrow> revs ! i < n \<and> revs ! (revs ! i) = i" "h \<le> n"
  shows "sized n (foldl (reverse_step revs) v [0..<h]) \<and>
    (\<forall>k < n. cvec (foldl (reverse_step revs) v [0..<h]) k =
       (if k < h \<or> revs ! k < h then cvec v (revs ! k) else cvec v k))"
  using assms(3)
proof (induction h)
  case 0
  then show ?case using assms(1) by simp
next
  case (Suc h)
  let ?u = "foldl (reverse_step revs) v [0..<h]"
  have u: "sized n ?u" "\<And>k. k < n \<Longrightarrow> cvec ?u k = (if k < h \<or> revs ! k < h then cvec v (revs ! k) else cvec v k)"
    using Suc by simp_all
  have h: "h < n" "revs ! h < n" "revs ! (revs ! h) = h" using Suc.prems assms(2) [of h] by simp_all
  have other: "revs ! k = h \<longleftrightarrow> k = revs ! h" if "k < n" for k using assms(2) [OF that] h(3) by auto
  have "cvec (reverse_step revs ?u h) k = (if k < Suc h \<or> revs ! k < Suc h then cvec v (revs ! k) else cvec v k)"
    if k: "k < n" for k
    using k u(2) [OF k] u(2) [OF h(1)] u(2) [OF h(2)] other [OF k] h(3) assms(2) [OF k]
    unfolding reverse_step_cvec(2) [OF u(1) h(2,1)] by (auto simp: less_Suc_eq)
  then show ?case using reverse_step_cvec(1) [OF u(1) h(2,1)] by simp
qed

subsection \<open>The transform is the Fourier sum\<close>

definition dft :: "complex \<Rightarrow> nat \<Rightarrow> (nat \<Rightarrow> complex) \<Rightarrow> nat \<Rightarrow> complex" where
  "dft z n x k = (\<Sum>t < n. x t * z ^ (k * t))"

lemma fft_dft:
  assumes "sized (2 ^ m) v" "m = 0 \<or> z ^ 2 ^ (m - 1) = - 1"
    and "\<And>i. i < 2 ^ (m - 1) \<Longrightarrow> twiddle c s i = z ^ i"
    and "revs = map (bit_rev_entry (2 ^ m)) [0..<2 ^ m]"
  shows "sized (2 ^ m) (fft_radix2 v (2 ^ m) c s revs) \<and>
    (\<forall>k < 2 ^ m. cvec (fft_radix2 v (2 ^ m) c s revs) k = dft z (2 ^ m) (cvec v) k)"
proof -
  have revs: "revs ! i = reversed m i" if "i < 2 ^ m" for i using that assms(4) by (simp add: bit_rev_entry)
  let ?u = "foldl (reverse_step revs) v [0..<2 ^ m]"
  have u: "sized (2 ^ m) ?u" "\<And>k. k < 2 ^ m \<Longrightarrow> cvec ?u k = cvec v (reversed m k)"
    using reverse_loop [OF assms(1), of revs "2 ^ m"] by (simp_all add: revs reversed_less reversed_reversed)
  have "sums_at z m (cvec v) 0 (cvec ?u)" by (simp add: sums_at_def u(2) partial_sum_def)
  from fft_loop_sums [OF le0 u(1) this assms(2,3)] show ?thesis
    by (simp add: fft_radix2_def sums_at_def partial_sum_def dft_def)
qed

lemma dft_cong: "(\<And>t. t < n \<Longrightarrow> x t = y t) \<Longrightarrow> dft z n x k = dft z n y k"
  by (simp add: dft_def)

text \<open>Transforming with the inverse root gives \<open>n\<close> times the data back.\<close>

lemma dft_inverse:
  assumes "z * y = 1" "\<And>j. 0 < j \<Longrightarrow> j < n \<Longrightarrow> z ^ j \<noteq> 1" "z ^ n = 1" "k < n"
  shows "dft y n (dft z n x) k = of_nat n * x k"
proof -
  have pow: "z ^ j * y ^ j = 1" for j using assms(1) by (simp flip: power_mult_distrib)
  have geo: "(\<Sum>t < n. (z ^ u * y ^ k) ^ t) = (if u = k then of_nat n else 0)" if "u < n" for u
  proof (cases "u = k")
    case False
    have "z ^ u * y ^ k \<noteq> 1"
    proof
      assume 1: "z ^ u * y ^ k = 1"
      have "z ^ u = z ^ u * (z ^ k * y ^ k)" using pow by simp
      also have "\<dots> = z ^ k" using 1 by (simp add: mult.commute mult.left_commute)
      finally have e: "z ^ u = z ^ k" .
      define i j where "i = min u k" and "j = max u k - min u k"
      have "z ^ i * z ^ j = z ^ i" using e by (auto simp: i_def j_def min_def max_def simp flip: power_add)
      moreover have "z \<noteq> 0" using assms(1) by auto
      ultimately have "z ^ j = 1" by simp
      moreover have "0 < j" "j < n" using False \<open>u < n\<close> assms(4) by (auto simp: j_def)
      ultimately show False using assms(2) by blast
    qed
    moreover have "(z ^ u * y ^ k) ^ n = 1"
    proof -
      have "y ^ n = 1" using pow [of n] assms(3) by simp
      moreover have "(z ^ u * y ^ k) ^ n = (z ^ n) ^ u * (y ^ n) ^ k"
        by (simp add: power_mult_distrib mult.commute flip: power_mult)
      ultimately show ?thesis using assms(3) by simp
    qed
    ultimately show ?thesis using False by (simp add: geometric_sum)
  qed (use pow in simp)
  have "dft y n (dft z n x) k = (\<Sum>t < n. \<Sum>u < n. x u * (z ^ u * y ^ k) ^ t)"
    unfolding dft_def sum_distrib_right
    by (intro sum.cong refl) (simp add: power_mult_distrib mult.commute mult.left_commute flip: power_mult)
  also have "\<dots> = (\<Sum>u < n. x u * (\<Sum>t < n. (z ^ u * y ^ k) ^ t))"
    unfolding sum_distrib_left by (rule sum.swap)
  also have "\<dots> = (\<Sum>u < n. x u * (if u = k then of_nat n else 0))" by (intro sum.cong) (simp_all add: geo)
  also have "\<dots> = of_nat n * x k" using assms(4) by (simp add: if_distrib [of "(*) _"] sum.delta' cong: if_cong)
  finally show ?thesis .
qed

subsection \<open>The tables of the benchmark\<close>

definition fft_root :: complex where
  "fft_root = cis (- 2 * pi / real FFT_N)"

lemma FFT_N_pow: "FFT_N = 2 ^ 11"
  by (simp add: FFT_N_def)

lemma root_pow: "fft_root ^ i = cis (twiddle_angle FFT_N i)"
  by (simp add: fft_root_def DeMoivre twiddle_angle_def mult.commute)

lemma root_facts: "fft_root ^ FFT_N = 1" "fft_root ^ 2 ^ (11 - 1) = - 1" "fft_root * cnj fft_root = 1"
  "0 < j \<Longrightarrow> j < FFT_N \<Longrightarrow> fft_root ^ j \<noteq> 1"
proof -
  show "fft_root ^ FFT_N = 1" by (simp add: root_pow twiddle_angle_def FFT_N_def complex_eq_iff)
  show "fft_root ^ 2 ^ (11 - 1) = - 1" by (simp add: root_pow twiddle_angle_def FFT_N_def complex_eq_iff)
  show "fft_root * cnj fft_root = 1" by (simp add: fft_root_def cis_cnj cis_mult)
  assume j: "0 < j" "j < FFT_N"
  show "fft_root ^ j \<noteq> 1"
  proof
    assume "fft_root ^ j = 1"
    then have "cos (2 * pi * real j / real FFT_N) = 1" by (simp add: root_pow twiddle_angle_def complex_eq_iff)
    then obtain i :: int where "2 * pi * real j / real FFT_N = of_int i * 2 * pi" using cos_one_2pi_int by blast
    then have "real j = of_int i * real FFT_N" by (simp add: field_simps FFT_N_def)
    then have "int j = i * int FFT_N" by (metis of_int_eq_iff of_int_mult of_int_of_nat_eq)
    then have "int FFT_N dvd int j" by simp
    then show False using j by (simp add: nat_dvd_not_less)
  qed
qed

text \<open>The state as \<open>init\<close> leaves it, up to the work arrays.\<close>

definition fft_state_ok :: "fp_fft_state_t \<Rightarrow> bool" where
  "fft_state_ok s \<longleftrightarrow> length (ff_real s) = FFT_N \<and>
     ff_cos s = map (\<lambda>i. cos (twiddle_angle FFT_N i)) [0..<FFT_N] \<and>
     ff_sin s = map (\<lambda>i. sin (twiddle_angle FFT_N i)) [0..<FFT_N] \<and>
     ff_rev s = map (bit_rev_entry FFT_N) [0..<FFT_N]"

lemma rand_reals_facts [simp]: "length (fst (rand_reals n w)) = n" "held (snd (rand_reals n w)) = held w"
  by (induction n arbitrary: w) (simp_all add: case_prod_beta)

lemma fp_fft_init_keeps:
  "fp_fft_init junk w = (ret, st, w') \<Longrightarrow>
     held w' = (if ret = 0 then owning 8 (held w) else held w) \<and> (\<forall>s. st = Some s \<longrightarrow> fft_state_ok s)"
  by (auto simp: fp_fft_init_def Let_def case_prod_beta held_own fft_state_ok_def split: if_splits)

lemma tables:
  assumes "fft_state_ok s" "i < FFT_N"
  shows "twiddle (ff_cos s) (ff_sin s) i = fft_root ^ i" "twiddle (ff_cos s) (map uminus (ff_sin s)) i = cnj fft_root ^ i"
  using assms by (simp_all add: fft_state_ok_def twiddle_def root_pow complex_eq_iff flip: complex_cnj_power)

lemma forward_dft:
  assumes "fft_state_ok s" "sized FFT_N v"
  shows "sized FFT_N (fft_radix2 v FFT_N (ff_cos s) (ff_sin s) (ff_rev s))"
    "k < FFT_N \<Longrightarrow> cvec (fft_radix2 v FFT_N (ff_cos s) (ff_sin s) (ff_rev s)) k = dft fft_root FFT_N (cvec v) k"
    "sized FFT_N (fft_radix2 v FFT_N (ff_cos s) (map uminus (ff_sin s)) (ff_rev s))"
    "k < FFT_N \<Longrightarrow> cvec (fft_radix2 v FFT_N (ff_cos s) (map uminus (ff_sin s)) (ff_rev s)) k = dft (cnj fft_root) FFT_N (cvec v) k"
proof -
  have i: "i < FFT_N" if "i < 2 ^ (11 - 1)" for i :: nat using that by (simp add: FFT_N_def)
  have revs: "ff_rev s = map (bit_rev_entry (2 ^ 11)) [0..<2 ^ 11]" using assms(1) by (simp add: fft_state_ok_def FFT_N_pow)
  have mirrored: "cnj fft_root ^ 2 ^ (11 - 1) = - 1"
    using arg_cong [OF root_facts(2), of cnj] by (simp only: complex_cnj_power complex_cnj_minus complex_cnj_one)
  note f = fft_dft [of 11, OF assms(2) [unfolded FFT_N_pow] disjI2 _ revs, folded FFT_N_pow]
  show "sized FFT_N (fft_radix2 v FFT_N (ff_cos s) (ff_sin s) (ff_rev s))"
    "k < FFT_N \<Longrightarrow> cvec (fft_radix2 v FFT_N (ff_cos s) (ff_sin s) (ff_rev s)) k = dft fft_root FFT_N (cvec v) k"
    using f [OF root_facts(2) tables(1) [OF assms(1) i]] by blast+
  show "sized FFT_N (fft_radix2 v FFT_N (ff_cos s) (map uminus (ff_sin s)) (ff_rev s))"
    "k < FFT_N \<Longrightarrow> cvec (fft_radix2 v FFT_N (ff_cos s) (map uminus (ff_sin s)) (ff_rev s)) k = dft (cnj fft_root) FFT_N (cvec v) k"
    using f [OF mirrored tables(2) [OF assms(1) i]] by blast+
qed

lemma load_work_cvec: "fft_state_ok s \<Longrightarrow> sized FFT_N (load_work s)"
  "k < FFT_N \<Longrightarrow> cvec (load_work s) k = complex_of_real (ff_real s ! k)"
  by (simp_all add: load_work_def sized_def fft_state_ok_def cvec_def complex_of_real_def)

text \<open>Both transforms of a measurement, one after the other.\<close>

lemma there_and_back:
  assumes "fft_state_ok s" "k < FFT_N"
  shows "cvec (fft_radix2 (fft_radix2 (load_work s) FFT_N (ff_cos s) (ff_sin s) (ff_rev s)) FFT_N
      (ff_cos s) (map uminus (ff_sin s)) (ff_rev s)) k = complex_of_real (real FFT_N * ff_real s ! k)"
proof -
  let ?v = "fft_radix2 (load_work s) FFT_N (ff_cos s) (ff_sin s) (ff_rev s)"
  note f = forward_dft(1,2) [OF assms(1) load_work_cvec(1) [OF assms(1)]]
  have "cvec (fft_radix2 ?v FFT_N (ff_cos s) (map uminus (ff_sin s)) (ff_rev s)) k = dft (cnj fft_root) FFT_N (cvec ?v) k"
    using forward_dft(4) [OF assms(1) f(1) assms(2)] .
  also have "\<dots> = dft (cnj fft_root) FFT_N (dft fft_root FFT_N (cvec (load_work s))) k"
    by (intro dft_cong f(2))
  also have "\<dots> = of_nat FFT_N * cvec (load_work s) k"
    by (rule dft_inverse) (use root_facts assms(2) in auto)
  finally show ?thesis using load_work_cvec(2) [OF assms(2)] by simp
qed

lemma map_uminus [simp]: "map (uminus \<circ> uminus) xs = (xs :: real list)"
  by (simp add: comp_def)

lemma fp_fft_measure_verifies:
  assumes "fft_state_ok s"
  shows "\<exists>s' res w'. fp_fft_measure s w = (0, s', res, 0, w') \<and> fft_state_ok s' \<and> ff_real s' = ff_real s \<and> held w' = held w"
proof -
  let ?u = "fft_radix2 (load_work s) FFT_N (ff_cos s) (ff_sin s) (ff_rev s)"
  let ?v = "fft_radix2 ?u FFT_N (ff_cos s) (map uminus (ff_sin s)) (ff_rev s)"
  have v: "sized FFT_N ?v"
    using forward_dft(3) [OF assms] forward_dft(1) [OF assms] load_work_cvec(1) [OF assms] by blast
  have "fst ?v ! k = real FFT_N * ff_real s ! k" if "k < FFT_N" for k
    using there_and_back [OF assms that] by (simp add: cvec_def complex_eq_iff)
  moreover have "0 < FFT_N" by (simp add: FFT_N_def)
  ultimately have "(\<Sum>i \<leftarrow> [0..<FFT_N]. \<bar>map (\<lambda>x. x / real FFT_N) (fst ?v) ! i - ff_real s ! i\<bar>) = 0"
    using v by (simp add: interv_sum_list_conv_sum_set_nat sized_def)
  then show ?thesis
    using assms by (simp add: fp_fft_measure_def Let_def case_prod_beta fft_state_ok_def)
qed

lemma cvec_pair: "cvec (re, im) t = Complex (re ! t) (im ! t)"
  by (simp add: cvec_def)

lemma root_at: "fft_root ^ (k * t) = cis (- 2 * pi * real k * real t / 2048)"
  by (simp add: root_pow twiddle_angle_def FFT_N_def mult.assoc)

subsection \<open>Under the harness\<close>

definition fp_fft_ops :: "real \<Rightarrow> fp_fft_state_t option bench_ops" where
  "fp_fft_ops junk = pointed_ops (fp_fft_init junk) fp_fft_warmup
     (\<lambda>s w. let (r, s, m, sink, w) = fp_fft_measure s w in (r, s, m, w)) fp_fft_cleanup"

lemma free_many: "held ((c_free True ^^ k) w) = owning (- int k) (held w)"
  by (induction k) (simp_all add: held_own)

interpretation fp_fft: bench_tidy "fp_fft_ops junk" "pointed fft_state_ok" "\<lambda>_. 8" for junk
  unfolding fp_fft_ops_def
proof (rule pointed_tidy)
  fix w r st w' assume i: "fp_fft_init junk w = (r, st, w')"
  then have "r = 0 \<longrightarrow> st \<noteq> None" by (auto simp: fp_fft_init_def Let_def case_prod_beta split: if_splits)
  then show "held w' = (if r = 0 then owning 8 (held w) else held w) \<and> (r = 0 \<longrightarrow> pointed fft_state_ok st)"
    using fp_fft_init_keeps [OF i] by (auto simp: pointed_def)
next
  fix s r s' assume "fft_state_ok s" "fp_fft_warmup s = (r, s')"
  then show "fft_state_ok s'" by (auto simp: fp_fft_warmup_def fft_state_ok_def)
next
  fix s w r s' m w'
  assume "fft_state_ok s" "(let (r, s, m, sink, w) = fp_fft_measure s w in (r, s, m, w)) = (r, s', m, w')"
  then show "fft_state_ok s' \<and> held w' = held w" using fp_fft_measure_verifies [of s w] by auto
next
  fix w r w' assume "fp_fft_cleanup w = (r, w')"
  then show "held w' = owning (- 8) (held w)" using free_many [of 8 w] by (simp add: fp_fft_cleanup_def)
qed

lemma fp_fft_instance:
  "\<exists>ret it us w'. run_benchmark_instance bench_fp_fft (fp_fft_ops junk) fresh_values w = Ret (ret, it, us, w') \<and> held w' = held w"
  by (rule fp_fft.instance_never_leaks) (simp add: instance_limits_def bench_fp_fft_def ssb_consts)

subsection \<open>The properties\<close>

text \<open>
  C10. \<^verbatim>\<open>fft_radix2\<close> computes the discrete Fourier transform: on a state as \<^verbatim>\<open>init\<close> leaves it, and for any two arrays of
  2048 numbers, entry \<open>k\<close> of the result is the sum of all entries turned by \<open>- 2 pi k t / 2048\<close>.
\<close>

theorem fft_radix2_correct:
  assumes "fp_fft_init junk w = (0, Some s, w')" "length re = 2048" "length im = 2048" "k < 2048"
  shows "cvec (fft_radix2 (re, im) 2048 (ff_cos s) (ff_sin s) (ff_rev s)) k =
    (\<Sum>t < 2048. Complex (re ! t) (im ! t) * cis (- 2 * pi * real k * real t / 2048))"
proof -
  have n: "FFT_N = 2048" by (simp add: FFT_N_def)
  have ok: "fft_state_ok s" using fp_fft_init_keeps [OF assms(1)] by blast
  have "sized FFT_N (re, im)" "k < FFT_N" using assms(2-4) by (simp_all add: sized_def n)
  from forward_dft(2) [OF ok this] show ?thesis unfolding dft_def cvec_pair root_at n .
qed

text \<open>
  The verification of fp-fft holds: on a state as \<^verbatim>\<open>init\<close> leaves it, a measurement returns 0, the sum of the
  deviations after transforming there and back is 0, and state and resources are ready for the next measurement.
\<close>

theorem fp_fft_verifies:
  assumes "fp_fft_init junk w = (0, Some s, w')"
  shows "\<exists>s' res w''. fp_fft_measure s w' = (0, s', res, 0, w'') \<and> ff_real s' = ff_real s \<and>
    ff_cos s' = ff_cos s \<and> ff_sin s' = ff_sin s \<and> held w'' = owning 8 (held w)"
proof -
  have ok: "fft_state_ok s" "held w' = owning 8 (held w)" using fp_fft_init_keeps [OF assms] by simp_all
  from fp_fft_measure_verifies [OF ok(1), of w'] ok show ?thesis by (auto simp: fft_state_ok_def)
qed

lemma fp_fft_init_example: "\<exists>s w'. fp_fft_init 0 quiet_world = (0, Some s, w')"
  by (simp add: fp_fft_init_def Let_def case_prod_beta)

theorem fft_radix2_correct_witness:
  "\<exists>s w'. fp_fft_init 0 quiet_world = (0, Some s, w') \<and>
     cvec (fft_radix2 (replicate 2048 1, replicate 2048 0) 2048 (ff_cos s) (ff_sin s) (ff_rev s)) 0 = 2048"
proof -
  obtain s w' where s: "fp_fft_init 0 quiet_world = (0, Some s, w')" using fp_fft_init_example by blast
  have "cvec (fft_radix2 (replicate 2048 1, replicate 2048 0) 2048 (ff_cos s) (ff_sin s) (ff_rev s)) 0 =
      (\<Sum>t < 2048. Complex (replicate 2048 1 ! t) (replicate 2048 0 ! t) * cis (- 2 * pi * real 0 * real t / 2048))"
    by (rule fft_radix2_correct [OF s]) simp_all
  also have "\<dots> = (\<Sum>t < (2048 :: nat). 1)" by (intro sum.cong) (auto simp: complex_eq_iff)
  finally show ?thesis using s by simp
qed

theorem fp_fft_verifies_witness:
  "\<exists>s w' s' res w''. fp_fft_init 0 quiet_world = (0, Some s, w') \<and> fp_fft_measure s w' = (0, s', res, 0, w'')"
proof -
  obtain s w' where s: "fp_fft_init 0 quiet_world = (0, Some s, w')" using fp_fft_init_example by blast
  from fp_fft_verifies [OF s] s show ?thesis by blast
qed

end
