(* ===== verification/RayBench.thy ===== *)
theory RayBench
  imports KernelOps
begin

text \<open>
  \<^verbatim>\<open>src/benchmarks/compute/fp_ray.c\<close>: the intersection test of a ray and a triangle, with the \<^verbatim>\<open>float\<close>s of the code
  as real numbers, and the benchmark that runs it on all pairs. The reference is geometry: the ray meets the
  triangle when some point of it is a convex combination of the corners.
\<close>

subsection \<open>The code\<close>

record vec3 = vx :: real vy :: real vz :: real

record ray = r_orig :: vec3 r_dir :: vec3

record tri = t_v0 :: vec3 t_v1 :: vec3 t_v2 :: vec3

abbreviation v3 :: "real \<Rightarrow> real \<Rightarrow> real \<Rightarrow> vec3" where
  "v3 x y z \<equiv> \<lparr>vx = x, vy = y, vz = z\<rparr>"

definition v3_sub :: "vec3 \<Rightarrow> vec3 \<Rightarrow> vec3" where
  "v3_sub a b = v3 (vx a - vx b) (vy a - vy b) (vz a - vz b)"

definition v3_cross :: "vec3 \<Rightarrow> vec3 \<Rightarrow> vec3" where
  "v3_cross a b = v3 (vy a * vz b - vz a * vy b) (vz a * vx b - vx a * vz b) (vx a * vy b - vy a * vx b)"

definition v3_dot :: "vec3 \<Rightarrow> vec3 \<Rightarrow> real" where
  "v3_dot a b = vx a * vx b + vy a * vy b + vz a * vz b"

definition ray_tri_intersect :: "ray \<Rightarrow> tri \<Rightarrow> int" where
  "ray_tri_intersect r t =
     (let e1 = v3_sub (t_v1 t) (t_v0 t); e2 = v3_sub (t_v2 t) (t_v0 t);
          h = v3_cross (r_dir r) e2; a = v3_dot e1 h
      in if a > - 1 / 10 ^ 7 \<and> a < 1 / 10 ^ 7 then 0
         else let f = 1 / a; s = v3_sub (r_orig r) (t_v0 t); u = f * v3_dot s h
           in if u < 0 \<or> u > 1 then 0
              else let q = v3_cross s e1; v = f * v3_dot (r_dir r) q
                in if v < 0 \<or> u + v > 1 then 0
                   else let td = f * v3_dot e2 q in if td > 1 / 10 ^ 7 then 1 else 0)"

definition NUM_RAYS :: nat where "NUM_RAYS = 200000"

definition NUM_TRIS :: nat where "NUM_TRIS = 500"

record fp_ray_state_t =
  fr_rays :: "ray list"
  fr_tris :: "tri list"

text \<open>\<open>(float)rand()/RAND_MAX\<close>. The initialisers are evaluated from left to right.\<close>

definition unit_rand :: "world \<Rightarrow> real \<times> world" where
  "unit_rand w = (let (r, w) = c_rand w in (real r / 2147483647, w))"

definition rand_ray :: "world \<Rightarrow> ray \<times> world" where
  "rand_ray w =
     (let (a, w) = unit_rand w; (b, w) = unit_rand w; (c, w) = unit_rand w; (d, w) = unit_rand w;
          ox = (a - 1 / 2) * (1 / 2); oy = (b - 1 / 2) * (1 / 2)
      in (\<lparr>r_orig = v3 ox oy (- 5), r_dir = v3 (c - 1 / 2) (d - 1 / 2) 1\<rparr>, w))"

definition rand_tri :: "world \<Rightarrow> tri \<times> world" where
  "rand_tri w =
     (let (a, w) = unit_rand w; (b, w) = unit_rand w; (c, w) = unit_rand w;
          cx = (a - 1 / 2) * 2; cy = (b - 1 / 2) * 2; cz = c * 5
      in (\<lparr>t_v0 = v3 (cx - 1 / 10) (cy - 1 / 10) cz, t_v1 = v3 (cx + 1 / 10) (cy - 1 / 10) cz,
            t_v2 = v3 cx (cy + 1 / 10) cz\<rparr>, w))"

fun drawn :: "(world \<Rightarrow> 'a \<times> world) \<Rightarrow> nat \<Rightarrow> world \<Rightarrow> 'a list \<times> world" where
  "drawn f 0 w = ([], w)"
| "drawn f (Suc n) w = (let (x, w) = f w; (xs, w) = drawn f n w in (x # xs, w))"

definition fp_ray_init :: "world \<Rightarrow> int \<times> fp_ray_state_t option \<times> world" where
  "fp_ray_init w =
     (let (p, w) = c_malloc w in
      if \<not> p then (-1, None, w)
      else let (r, w) = c_malloc w; (t, w) = c_malloc w; (h, w) = c_malloc w
        in if \<not> r \<or> \<not> t \<or> \<not> h then (-1, None, c_free p (c_free h (c_free t (c_free r w))))
           else let (rays, w) = drawn rand_ray NUM_RAYS w; (tris, w) = drawn rand_tri NUM_TRIS w
             in (0, Some \<lparr>fr_rays = rays, fr_tris = tris\<rparr>, w))"

definition fp_ray_warmup :: "fp_ray_state_t \<Rightarrow> int \<times> int" where
  "fp_ray_warmup s =
     (0, sum_list (map (\<lambda>i. ray_tri_intersect (fr_rays s ! (i mod NUM_RAYS)) (fr_tris s ! (i mod NUM_TRIS))) [0..<1000]))"

text \<open>The count of hits, and the measurement: \<open>None\<close> when the result is left as it was.\<close>

definition count_hits :: "ray list \<Rightarrow> tri list \<Rightarrow> int" where
  "count_hits rays tris = (\<Sum>r \<leftarrow> rays. \<Sum>t \<leftarrow> tris. ray_tri_intersect r t)"

definition fp_ray_measure :: "fp_ray_state_t \<Rightarrow> world \<Rightarrow> int \<times> measurement_t option \<times> world" where
  "fp_ray_measure s w =
     (let (t0, w) = clock_monotonic w;
          sink = count_hits (fr_rays s) (fr_tris s);
          total_tests = NUM_RAYS * NUM_TRIS;
          (t1, w) = clock_monotonic w
      in if sink = 0 \<or> sink \<ge> int (NUM_RAYS * NUM_TRIS) then (-1, None, w)
         else (0, Some (plain_result (rate (real total_tests) (elapsed t0 t1)) (elapsed t0 t1)), w))"

definition fp_ray_cleanup :: "world \<Rightarrow> int \<times> world" where
  "fp_ray_cleanup w = (0, c_free True (c_free True (c_free True (c_free True w))))"

subsection \<open>Geometry\<close>

text \<open>The point at parameter \<open>d\<close> of the ray, and the combination of the corners with weights \<open>1 - u - v\<close>, \<open>u\<close>, \<open>v\<close>.\<close>

definition ray_point :: "ray \<Rightarrow> real \<Rightarrow> vec3" where
  "ray_point r d = v3 (vx (r_orig r) + d * vx (r_dir r)) (vy (r_orig r) + d * vy (r_dir r)) (vz (r_orig r) + d * vz (r_dir r))"

definition tri_point :: "tri \<Rightarrow> real \<Rightarrow> real \<Rightarrow> vec3" where
  "tri_point t u v =
     (let w = 1 - u - v
      in v3 (w * vx (t_v0 t) + u * vx (t_v1 t) + v * vx (t_v2 t))
            (w * vy (t_v0 t) + u * vy (t_v1 t) + v * vy (t_v2 t))
            (w * vz (t_v0 t) + u * vz (t_v1 t) + v * vz (t_v2 t)))"

text \<open>The volume the direction and the two edges span: 0 when the ray is parallel to the triangle.\<close>

definition spanned :: "ray \<Rightarrow> tri \<Rightarrow> real" where
  "spanned r t = v3_dot (v3_cross (v3_sub (t_v1 t) (t_v0 t)) (r_dir r)) (v3_sub (t_v2 t) (t_v0 t))"

lemma vec3_eq: "(a :: vec3) = b \<longleftrightarrow> vx a = vx b \<and> vy a = vy b \<and> vz a = vz b"
  by auto

text \<open>Cramer's rule on the three coordinates.\<close>

lemma cramer:
  fixes a s1 s2 s3 d1 d2 d3 e1 e2 e3 f1 f2 f3 u v td :: real
  assumes "a \<noteq> 0"
    "a = e1 * (d2 * f3 - d3 * f2) + e2 * (d3 * f1 - d1 * f3) + e3 * (d1 * f2 - d2 * f1)"
  shows "(s1 = u * e1 + v * f1 - td * d1 \<and> s2 = u * e2 + v * f2 - td * d2 \<and> s3 = u * e3 + v * f3 - td * d3) \<longleftrightarrow>
     (u * a = s1 * (d2 * f3 - d3 * f2) + s2 * (d3 * f1 - d1 * f3) + s3 * (d1 * f2 - d2 * f1) \<and>
      v * a = d1 * (s2 * e3 - s3 * e2) + d2 * (s3 * e1 - s1 * e3) + d3 * (s1 * e2 - s2 * e1) \<and>
      td * a = f1 * (s2 * e3 - s3 * e2) + f2 * (s3 * e1 - s1 * e3) + f3 * (s1 * e2 - s2 * e1))"
    (is "?sol \<longleftrightarrow> ?u \<and> ?v \<and> ?t")
proof
  assume ?sol
  then have s: "s1 = u * e1 + v * f1 - td * d1" "s2 = u * e2 + v * f2 - td * d2" "s3 = u * e3 + v * f3 - td * d3"
    by simp_all
  show "?u \<and> ?v \<and> ?t" unfolding s assms(2) by (intro conjI; algebra)
next
  assume r: "?u \<and> ?v \<and> ?t"
  then have r: ?u ?v ?t by simp_all
  have "a * s1 = a * (u * e1 + v * f1 - td * d1)" using r assms(2) by algebra
  moreover have "a * s2 = a * (u * e2 + v * f2 - td * d2)" using r assms(2) by algebra
  moreover have "a * s3 = a * (u * e3 + v * f3 - td * d3)" using r assms(2) by algebra
  ultimately show ?sol using assms(1) by simp
qed

lemma times_eq_iff: "a \<noteq> 0 \<Longrightarrow> x * a = y \<longleftrightarrow> x = 1 / a * y" for a :: real
  by (auto simp: field_simps)

text \<open>The four numbers of the test, and what they solve.\<close>

lemma meet_iff:
  assumes "a = v3_dot (v3_sub (t_v1 t) (t_v0 t)) (v3_cross (r_dir r) (v3_sub (t_v2 t) (t_v0 t)))" "a \<noteq> 0"
    and s: "s = v3_sub (r_orig r) (t_v0 t)" and q: "q = v3_cross s (v3_sub (t_v1 t) (t_v0 t))"
  shows "ray_point r td = tri_point t u v \<longleftrightarrow>
    u = 1 / a * v3_dot s (v3_cross (r_dir r) (v3_sub (t_v2 t) (t_v0 t))) \<and>
    v = 1 / a * v3_dot (r_dir r) q \<and> td = 1 / a * v3_dot (v3_sub (t_v2 t) (t_v0 t)) q"
proof -
  have "ray_point r td = tri_point t u v \<longleftrightarrow>
      vx s = u * (vx (t_v1 t) - vx (t_v0 t)) + v * (vx (t_v2 t) - vx (t_v0 t)) - td * vx (r_dir r) \<and>
      vy s = u * (vy (t_v1 t) - vy (t_v0 t)) + v * (vy (t_v2 t) - vy (t_v0 t)) - td * vy (r_dir r) \<and>
      vz s = u * (vz (t_v1 t) - vz (t_v0 t)) + v * (vz (t_v2 t) - vz (t_v0 t)) - td * vz (r_dir r)"
    by (auto simp: ray_point_def tri_point_def Let_def s v3_sub_def algebra_simps)
  also have "\<dots> \<longleftrightarrow> u * a = v3_dot s (v3_cross (r_dir r) (v3_sub (t_v2 t) (t_v0 t))) \<and>
      v * a = v3_dot (r_dir r) q \<and> td * a = v3_dot (v3_sub (t_v2 t) (t_v0 t)) q"
    unfolding q using assms(1)
    by (subst cramer [OF assms(2)]) (simp_all add: v3_dot_def v3_cross_def v3_sub_def)
  also have "\<dots> \<longleftrightarrow>
      u = 1 / a * v3_dot s (v3_cross (r_dir r) (v3_sub (t_v2 t) (t_v0 t))) \<and>
      v = 1 / a * v3_dot (r_dir r) q \<and> td = 1 / a * v3_dot (v3_sub (t_v2 t) (t_v0 t)) q"
    by (simp only: times_eq_iff [OF assms(2)])
  finally show ?thesis .
qed

lemma spanned_alt:
  "spanned r t = - v3_dot (v3_sub (t_v1 t) (t_v0 t)) (v3_cross (r_dir r) (v3_sub (t_v2 t) (t_v0 t))) \<or>
   spanned r t = v3_dot (v3_sub (t_v1 t) (t_v0 t)) (v3_cross (r_dir r) (v3_sub (t_v2 t) (t_v0 t)))"
  by (simp add: spanned_def v3_dot_def v3_cross_def v3_sub_def algebra_simps)

lemma intersect_01: "ray_tri_intersect r t = 0 \<or> ray_tri_intersect r t = 1"
  by (simp add: ray_tri_intersect_def Let_def)

lemma hits_bounds: "0 \<le> count_hits rays tris \<and> count_hits rays tris \<le> int (length rays * length tris)"
proof -
  have row: "0 \<le> (\<Sum>t \<leftarrow> tris. ray_tri_intersect r t) \<and> (\<Sum>t \<leftarrow> tris. ray_tri_intersect r t) \<le> int (length tris)" for r
  proof (induction tris)
    case (Cons t tris)
    then show ?case using intersect_01 [of r t] by auto
  qed simp
  show ?thesis
  proof (induction rays)
    case (Cons r rays)
    then show ?case using row [of r] by (simp add: count_hits_def)
  qed (simp add: count_hits_def)
qed

lemma drawn_facts:
  assumes "\<And>w. held (snd (f w)) = held w"
  shows "held (snd (drawn f n w)) = held w" "length (fst (drawn f n w)) = n"
  by (induction n arbitrary: w) (simp_all add: case_prod_beta assms)

lemma rand_held [simp]: "held (snd (rand_ray w)) = held w" "held (snd (rand_tri w)) = held w"
  by (simp_all add: rand_ray_def rand_tri_def unit_rand_def case_prod_beta Let_def)

lemma fp_ray_init_keeps:
  "fp_ray_init w = (ret, st, w') \<Longrightarrow>
     held w' = (if ret = 0 then owning 4 (held w) else held w) \<and>
     (\<forall>s. st = Some s \<longrightarrow> length (fr_rays s) = NUM_RAYS \<and> length (fr_tris s) = NUM_TRIS)"
  by (auto simp: fp_ray_init_def Let_def case_prod_beta held_own drawn_facts split: if_splits)

definition fp_ray_ops :: "measurement_t \<Rightarrow> fp_ray_state_t option bench_ops" where
  "fp_ray_ops stale = pointed_ops fp_ray_init (\<lambda>s. (fst (fp_ray_warmup s), s))
     (\<lambda>s w. written_result stale (fp_ray_measure s w) s) fp_ray_cleanup"

interpretation fp_ray: bench_tidy "fp_ray_ops stale"
  "pointed (\<lambda>s. length (fr_rays s) = NUM_RAYS \<and> length (fr_tris s) = NUM_TRIS)" "\<lambda>_. 4" for stale
  unfolding fp_ray_ops_def
proof (rule pointed_tidy)
  fix w r st w' assume i: "fp_ray_init w = (r, st, w')"
  then have "r = 0 \<longrightarrow> st \<noteq> None" by (auto simp: fp_ray_init_def Let_def case_prod_beta split: if_splits)
  then show "held w' = (if r = 0 then owning 4 (held w) else held w) \<and>
      (r = 0 \<longrightarrow> pointed (\<lambda>s. length (fr_rays s) = NUM_RAYS \<and> length (fr_tris s) = NUM_TRIS) st)"
    using fp_ray_init_keeps [OF i] by (auto simp: pointed_def)
next
  fix s w r s' m w'
  assume "length (fr_rays s) = NUM_RAYS \<and> length (fr_tris s) = NUM_TRIS" "written_result stale (fp_ray_measure s w) s = (r, s', m, w')"
  then show "(length (fr_rays s') = NUM_RAYS \<and> length (fr_tris s') = NUM_TRIS) \<and> held w' = held w"
    by (auto simp: fp_ray_measure_def written_result_def Let_def case_prod_beta split: if_splits)
next
  fix w r w' assume "fp_ray_cleanup w = (r, w')"
  then show "held w' = owning (- 4) (held w)" by (auto simp: fp_ray_cleanup_def held_own)
qed simp

lemma fp_ray_instance:
  "\<exists>ret it us w'. run_benchmark_instance bench_fp_ray (fp_ray_ops stale) fresh_values w = Ret (ret, it, us, w') \<and> held w' = held w"
  by (rule fp_ray.instance_never_leaks) (simp add: instance_limits_def bench_fp_ray_def ssb_consts)

text \<open>
  C19. The intersection test decides geometry: it answers 1 exactly when the ray is not nearly parallel to the triangle
  (the volume is at least 1e-7) and a point of the ray in front of its origin, at a parameter above
  1e-7, is a convex combination of the corners of the triangle.
\<close>

theorem ray_tri_intersect_correct:
  "ray_tri_intersect r t = (if 1 / 10 ^ 7 \<le> \<bar>spanned r t\<bar> \<and>
     (\<exists>d u v. d > 1 / 10 ^ 7 \<and> 0 \<le> u \<and> 0 \<le> v \<and> u + v \<le> 1 \<and> ray_point r d = tri_point t u v) then 1 else 0)"
proof -
  define a where "a = v3_dot (v3_sub (t_v1 t) (t_v0 t)) (v3_cross (r_dir r) (v3_sub (t_v2 t) (t_v0 t)))"
  have abs: "\<bar>spanned r t\<bar> = \<bar>a\<bar>" using spanned_alt [of r t] by (auto simp: a_def)
  show ?thesis
  proof (cases "\<bar>a\<bar> < 1 / 10 ^ 7")
    case True
    then have "a > - 1 / 10 ^ 7 \<and> a < 1 / 10 ^ 7" by linarith
    then show ?thesis using True abs by (simp add: ray_tri_intersect_def Let_def flip: a_def)
  next
    case False
    then have "a \<noteq> 0" "\<not> (a > - 1 / 10 ^ 7 \<and> a < 1 / 10 ^ 7)" by (auto simp: abs_less_iff)
    note meet = meet_iff [OF a_def this(1) refl refl]
    show ?thesis
      using False abs \<open>\<not> (a > - 1 / 10 ^ 7 \<and> a < 1 / 10 ^ 7)\<close>
      by (auto simp: ray_tri_intersect_def Let_def meet simp flip: a_def)
  qed
qed

end
