(* ===== verification/ChaseBench.thy ===== *)
theory ChaseBench
  imports "HOL-Library.Multiset" Env
begin

text \<open>
  \<^verbatim>\<open>src/benchmarks/memory/mem_latency.c\<close> and \<^verbatim>\<open>numa_latency.c\<close>: a buffer is cut into slots of one cache line, a
  random order of the slots is drawn, every slot gets the address of the next one in that order, and the
  benchmark follows the addresses. The memory of the model maps an offset in the buffer to the offset whose
  address is stored there; the slots do not overlap, which takes a stride of at least the 8 bytes of an address.
\<close>

type_synonym chain = "nat \<Rightarrow> nat option"

subsection \<open>The code\<close>

text \<open>The loop from the last place down to 1: \<open>Suc i\<close> is the \<^verbatim>\<open>i\<close> of the source.\<close>

fun shuffle :: "nat \<Rightarrow> nat list \<Rightarrow> world \<Rightarrow> nat list \<times> world" where
  "shuffle 0 order w = (order, w)"
| "shuffle (Suc i) order w =
     (let (r, w) = c_rand w; j = r mod (Suc i + 1); tmp = order ! Suc i;
          order = order[Suc i := order ! j]; order = order[j := tmp]
      in shuffle i order w)"

fun link_slots :: "nat \<Rightarrow> nat list \<Rightarrow> chain \<Rightarrow> nat list \<Rightarrow> chain" where
  "link_slots stride order m [] = m"
| "link_slots stride order m (i # js) =
     link_slots stride order (m(order ! i * stride \<mapsto> order ! (i + 1) * stride)) js"

definition setup_pointer_chase :: "nat \<Rightarrow> nat \<Rightarrow> chain \<Rightarrow> world \<Rightarrow> (chain \<times> world) outcome" where
  "setup_pointer_chase sz stride m w =
     (let num_slots = sz div stride in
      if num_slots < 2 then Ret (m, w)
      else let (p, w) = c_malloc w
        in if \<not> p then Undef NullDeref
           else let (order, w) = shuffle (num_slots - 1) [0..<num_slots] w;
                    m = link_slots stride order m [0..<num_slots - 1];
                    m = m(order ! (num_slots - 1) * stride \<mapsto> order ! 0 * stride)
                in Ret (m, c_free p w))"

text \<open>\<open>chase m k p\<close>: follow \<open>k\<close> addresses from \<open>p\<close>.\<close>

fun chase :: "chain \<Rightarrow> nat \<Rightarrow> nat \<Rightarrow> nat outcome" where
  "chase m 0 p = Ret p"
| "chase m (Suc k) p = (case m p of None \<Rightarrow> Undef UninitRead | Some q \<Rightarrow> chase m k q)"

definition chase_latency :: "nat \<Rightarrow> nat \<Rightarrow> nat \<Rightarrow> chain \<Rightarrow> world \<Rightarrow> (real \<times> chain \<times> world) outcome" where
  "chase_latency rs stride nc m w =
     (let ns = rs div stride in
      if ns < 2 then Ret (0, m, w)
      else out_bind (setup_pointer_chase rs stride m w) (\<lambda>(m, w).
        let (t0, w) = clock_monotonic w
        in out_bind (chase m nc 0) (\<lambda>p.
             let (t1, w) = clock_monotonic w in Ret (elapsed t0 t1 * 10 ^ 9 / real nc, m, w))))"

definition CHASES :: nat where "CHASES = 2000000"

definition size_levels :: "nat list" where
  "size_levels = [8 * 1024, 32 * 1024, 256 * 1024, 1024 * 1024,
     8 * 1024 * 1024, 32 * 1024 * 1024, 128 * 1024 * 1024, 256 * 1024 * 1024]"

definition MAX_SIZE :: nat where "MAX_SIZE = 256 * 1024 * 1024"

record mem_latency_state_t =
  ml_buffer :: chain
  ml_size :: nat
  ml_stride :: nat

text \<open>\<open>cls\<close> is the value of \<^verbatim>\<open>sysconf(_SC_LEVEL1_DCACHE_LINESIZE)\<close>; nothing is stored in a fresh buffer.\<close>

definition line_stride :: "int \<Rightarrow> nat" where
  "line_stride cls = (if cls > 0 then nat cls else 64)"

definition mem_latency_init :: "int \<Rightarrow> world \<Rightarrow> (int \<times> mem_latency_state_t option \<times> world) outcome" where
  "mem_latency_init cls w =
     (let (p, w) = c_malloc w in
      if \<not> p then Ret (-1, None, w)
      else let (b, w) = c_malloc w
        in if \<not> b then Ret (-1, None, c_free p w)
           else out_bind (setup_pointer_chase MAX_SIZE (line_stride cls) (\<lambda>_. None) w)
             (\<lambda>(m, w). Ret (0, Some \<lparr>ml_buffer = m, ml_size = MAX_SIZE, ml_stride = line_stride cls\<rparr>, w)))"

definition mem_latency_warmup :: "mem_latency_state_t \<Rightarrow> int outcome" where
  "mem_latency_warmup s = out_bind (chase (ml_buffer s) 500000 0) (\<lambda>p. Ret 0)"

fun latency_levels :: "nat list \<Rightarrow> mem_latency_state_t \<Rightarrow> real \<Rightarrow> world \<Rightarrow> (mem_latency_state_t \<times> real \<times> world) outcome" where
  "latency_levels [] s dram_lat w = Ret (s, dram_lat, w)"
| "latency_levels (lv # lvs) s dram_lat w =
     (if size_levels ! lv > ml_size s then latency_levels lvs s dram_lat w
      else out_bind (chase_latency (size_levels ! lv) (ml_stride s) CHASES (ml_buffer s) w)
        (\<lambda>(lat, m, w). latency_levels lvs (s\<lparr>ml_buffer := m\<rparr>)
           (if lv = length size_levels - 1 then lat else dram_lat) w))"

definition mem_latency_measure ::
    "mem_latency_state_t \<Rightarrow> world \<Rightarrow> (int \<times> mem_latency_state_t \<times> measurement_t \<times> world) outcome" where
  "mem_latency_measure s w =
     out_bind (latency_levels [0..<length size_levels] s 0 w)
       (\<lambda>(s, dram_lat, w). Ret (0, s,
          plain_result dram_lat (dram_lat * real CHASES / 10 ^ 9 * real (length size_levels)), w))"

definition mem_latency_cleanup :: "mem_latency_state_t \<Rightarrow> world \<Rightarrow> int \<times> world" where
  "mem_latency_cleanup s w = (0, c_free True (c_free True w))"

subsection \<open>The order is a permutation\<close>

lemma shuffle_mset:
  "k < length order \<Longrightarrow> mset (fst (shuffle k order w)) = mset order"
proof (induction k order w rule: shuffle.induct)
  case (2 i order w)
  obtain r w' where r: "c_rand w = (r, w')" by fastforce
  let ?j = "r mod (Suc i + 1)"
  let ?order = "order[Suc i := order ! ?j, ?j := order ! Suc i]"
  have j: "?j < length order" using mod_less_divisor [of "Suc i + 1" r] 2(2) by linarith
  have "mset (fst (shuffle i ?order w')) = mset ?order"
    using 2 r by (intro 2(1)) auto
  also have "mset ?order = mset order" by (rule mset_swap) (use 2(2) j in auto)
  finally show ?case by (simp add: r Let_def)
qed simp

lemma shuffle_held: "held (snd (shuffle k order w)) = held w"
proof (induction k order w rule: shuffle.induct)
  case (2 i order w)
  obtain r w' where r: "c_rand w = (r, w')" by fastforce
  then have "held w' = held w" using held_simps(1) [of w] by simp
  then show ?case using 2(1) [OF r [symmetric] refl refl refl refl refl] r by (simp add: Let_def)
qed simp

subsection \<open>The chain is a ring\<close>

lemma link_slots_other:
  "x \<notin> (\<lambda>i. order ! i * stride) ` set js \<Longrightarrow> link_slots stride order m js x = m x"
  by (induction js arbitrary: m) auto

lemma link_slots_at:
  assumes "inj_on (\<lambda>i. order ! i * stride) (set js)" "distinct js" "i \<in> set js"
  shows "link_slots stride order m js (order ! i * stride) = Some (order ! (i + 1) * stride)"
  using assms
proof (induction js arbitrary: m)
  case (Cons j js)
  show ?case
  proof (cases "i = j")
    case True
    then have "order ! i * stride \<notin> (\<lambda>i. order ! i * stride) ` set js" using Cons.prems by auto
    then show ?thesis using True by (simp add: link_slots_other)
  next
    case False
    then show ?thesis using Cons by auto
  qed
qed simp

text \<open>What the chase finds: the offset of place \<open>i\<close> of the order leads to that of the next place.\<close>

definition ring :: "nat \<Rightarrow> nat list \<Rightarrow> chain \<Rightarrow> bool" where
  "ring stride order m \<longleftrightarrow>
     (\<forall>i < length order. m (order ! i * stride) = Some (order ! ((i + 1) mod length order) * stride))"

lemma setup_ring:
  assumes "distinct order" "length order = n" "2 \<le> n" "0 < stride"
  shows "ring stride order ((link_slots stride order m [0..<n - 1])(order ! (n - 1) * stride \<mapsto> order ! 0 * stride))"
  unfolding ring_def
proof (intro allI impI)
  fix i assume i: "i < length order"
  have inj: "inj_on (\<lambda>i. order ! i * stride) {..<n}"
    using assms by (auto simp: inj_on_def nth_eq_iff_index_eq)
  show "((link_slots stride order m [0..<n - 1])(order ! (n - 1) * stride \<mapsto> order ! 0 * stride)) (order ! i * stride)
      = Some (order ! ((i + 1) mod length order) * stride)"
  proof (cases "i = n - 1")
    case False
    then have "order ! i * stride \<noteq> order ! (n - 1) * stride"
      using assms i by (auto simp: nth_eq_iff_index_eq)
    moreover have "inj_on (\<lambda>i. order ! i * stride) (set [0..<n - 1])" using inj by (auto simp: inj_on_def)
    ultimately show ?thesis using link_slots_at [of order stride "[0..<n - 1]" i m] False i assms by simp
  qed (use assms in simp)
qed

lemma chase_ring:
  assumes "ring stride order m" "p < length order"
  shows "chase m k (order ! p * stride) = Ret (order ! ((p + k) mod length order) * stride)"
  using assms(2)
proof (induction k arbitrary: p)
  case (Suc k)
  have "(p + 1) mod length order < length order" using Suc.prems by (intro mod_less_divisor) auto
  from Suc.IH [OF this] show ?case
    using assms(1) Suc.prems by (simp add: ring_def mod_add_left_eq)
qed simp

lemma mset_rotate: "mset (rotate k xs) = mset xs"
  by (metis append_take_drop_id mset_append rotate_drop_take union_commute)

lemma rotate_image: "p < n \<Longrightarrow> image_mset (\<lambda>k. (p + k) mod n) (mset [0..<n]) = mset [0..<n]" for n :: nat
proof -
  assume p: "p < n"
  have "map (\<lambda>k. (p + k) mod n) [0..<n] = rotate p [0..<n]"
    using p by (intro nth_equalityI) (auto simp: nth_rotate add.commute)
  then show ?thesis by (metis mset_map mset_rotate)
qed

lemma ring_visits:
  assumes "ring stride order m" "mset order = mset [0..<n]" "0 < n"
  shows "mset (map (\<lambda>k. chase m k 0) [0..<n]) = mset (map (\<lambda>i. Ret (i * stride)) [0..<n])"
    and "chase m n 0 = Ret 0"
proof -
  have len: "length order = n" using assms(2) by (metis diff_zero length_upt size_mset)
  have "0 \<in> set order" using assms(2,3) by (metis atLeastLessThan_iff le0 set_mset_mset set_upt)
  then obtain p where p: "p < n" "order ! p = 0" using len by (auto simp: in_set_conv_nth)
  have chase: "chase m k 0 = Ret (order ! ((p + k) mod n) * stride)" for k
    using chase_ring [OF assms(1), of p k] p len by simp
  have "mset (map (\<lambda>k. chase m k 0) [0..<n]) = image_mset (\<lambda>i. Ret (order ! i * stride)) (mset (map (\<lambda>k. (p + k) mod n) [0..<n]))"
    by (simp add: chase image_mset.compositionality comp_def)
  also have "\<dots> = image_mset (\<lambda>i. Ret (i * stride)) (mset (map ((!) order) [0..<n]))"
    using rotate_image [OF p(1)] by (simp add: image_mset.compositionality comp_def)
  also have "map ((!) order) [0..<n] = order" using len map_nth [of order] by simp
  finally show "mset (map (\<lambda>k. chase m k 0) [0..<n]) = mset (map (\<lambda>i. Ret (i * stride)) [0..<n])"
    using assms(2) by simp
  show "chase m n 0 = Ret 0" using chase [of n] p by simp
qed

lemma setup_shape:
  assumes "2 \<le> sz div stride" "fst (c_malloc w)"
  obtains order m' w' where "setup_pointer_chase sz stride m w = Ret (m', w')" "held w' = held w"
    "ring stride order m'" "mset order = mset [0..<sz div stride]"
proof -
  define n where "n = sz div stride"
  obtain w1 where w1: "c_malloc w = (True, w1)" using assms(2) by (cases "c_malloc w") auto
  obtain order w2 where sh: "shuffle (n - 1) [0..<n] w1 = (order, w2)" by fastforce
  have n: "2 \<le> n" using assms(1) n_def by simp
  then have stride: "0 < stride" using n_def by (cases stride) auto
  have order: "mset order = mset [0..<n]" using shuffle_mset [of "n - 1" "[0..<n]" w1] sh n by simp
  then have len: "length order = n" "distinct order" by (metis diff_zero length_upt size_mset, metis distinct_upt mset_eq_imp_distinct_iff)
  have "held w2 = held w1" using shuffle_held [of "n - 1" "[0..<n]" w1] sh by simp
  then have "held (c_free True w2) = held w" using held_own(1) [of w] w1 by (simp add: held_own(2))
  moreover have "setup_pointer_chase sz stride m w = Ret ((link_slots stride order m [0..<n - 1])
      (order ! (n - 1) * stride \<mapsto> order ! 0 * stride), c_free True w2)"
    using n w1 sh by (simp add: setup_pointer_chase_def Let_def flip: n_def)
  ultimately show ?thesis using that setup_ring [OF len(2,1) n stride] order n_def by blast
qed

text \<open>
  C18. The pointer chase visits everything: whatever \<^verbatim>\<open>rand\<close> returns, \<^verbatim>\<open>setup_pointer_chase\<close> frees what it
  allocates and links the slots into one ring, so that following the addresses from the start of the
  buffer meets every slot exactly once before it is back at the start.
\<close>

theorem pointer_chase_ring:
  assumes "2 \<le> sz div stride" "fst (c_malloc w)" "8 \<le> stride"
  shows "\<exists>m' w'. setup_pointer_chase sz stride m w = Ret (m', w') \<and> held w' = held w \<and>
    mset (map (\<lambda>k. chase m' k 0) [0..<sz div stride]) = mset (map (\<lambda>i. Ret (i * stride)) [0..<sz div stride]) \<and>
    chase m' (sz div stride) 0 = Ret 0"
proof -
  obtain order m' w' where s: "setup_pointer_chase sz stride m w = Ret (m', w')" "held w' = held w"
    "ring stride order m'" "mset order = mset [0..<sz div stride]" by (rule setup_shape [OF assms(1,2)])
  have "0 < sz div stride" using assms(1) by simp
  from ring_visits [OF s(3,4) this] s(1,2) show ?thesis by blast
qed

theorem pointer_chase_ring_witness:
  "\<exists>m' w'. setup_pointer_chase 268435456 64 (\<lambda>_. None) quiet_world = Ret (m', w') \<and> chase m' 4194304 0 = Ret 0"
  using pointer_chase_ring [of 268435456 64 quiet_world "\<lambda>_. None"] by (auto simp: quiet_world_def c_malloc_def)

text \<open>With memory, a measurement follows stored addresses only, at every level.\<close>

lemma chase_defined:
  assumes "ring stride order m" "mset order = mset [0..<n]" "0 < n"
  shows "\<exists>p. chase m k 0 = Ret p"
proof -
  have "length order = n" using assms(2) by (metis diff_zero length_upt size_mset)
  moreover have "0 \<in> set order" using assms(2,3) by (metis atLeastLessThan_iff le0 set_mset_mset set_upt)
  ultimately show ?thesis using chase_ring [OF assms(1)] by (metis in_set_conv_nth mult_0)
qed

lemma shuffle_memory: "memory_left (snd (shuffle k order w)) \<longleftrightarrow> memory_left w"
proof (induction k order w rule: shuffle.induct)
  case (2 i order w)
  then show ?case by (simp add: c_rand_def Let_def memory_left_def)
qed simp

lemma chase_latency_returns:
  assumes "memory_left w"
  shows "\<exists>lat m' w'. chase_latency rs stride nc m w = Ret (lat, m', w') \<and> held w' = held w \<and> memory_left w'"
proof (cases "rs div stride < 2")
  case False
  have alloc: "fst (c_malloc w)" using assms by (simp add: c_malloc_def memory_left_def)
  obtain order m' w' where s: "setup_pointer_chase rs stride m w = Ret (m', w')" "held w' = held w"
    "ring stride order m'" "mset order = mset [0..<rs div stride]" using setup_shape [OF _ alloc] False by (metis not_less)
  have "memory_left w'"
    using s(1) False assms alloc shuffle_memory [of "rs div stride - 1" "[0..<rs div stride]" "snd (c_malloc w)"]
    by (auto simp: setup_pointer_chase_def Let_def c_malloc_def c_free_def memory_left_def case_prod_beta)
  moreover obtain p where "chase m' nc 0 = Ret p" using chase_defined [OF s(3,4)] False by fastforce
  ultimately show ?thesis using False s(1,2)
    by (simp add: chase_latency_def Let_def clock_monotonic_def held_def memory_left_def)
qed (use assms in \<open>simp add: chase_latency_def\<close>)

lemma latency_levels_return:
  "memory_left w \<Longrightarrow> \<exists>s' lat w'. latency_levels lvs s d w = Ret (s', lat, w') \<and> held w' = held w"
proof (induction lvs arbitrary: s d w)
  case (Cons lv lvs)
  obtain lat m' w' where "chase_latency (size_levels ! lv) (ml_stride s) CHASES (ml_buffer s) w = Ret (lat, m', w')"
    "held w' = held w" "memory_left w'" using chase_latency_returns [OF Cons.prems] by blast
  then show ?case using Cons.IH [OF Cons.prems] Cons.IH [of w'] by simp
qed simp

lemma mem_latency_measure_returns:
  assumes "memory_left w"
  shows "\<exists>s' res w'. mem_latency_measure s w = Ret (0, s', res, w') \<and> held w' = held w"
proof -
  obtain s' lat w' where "latency_levels [0..<length size_levels] s 0 w = Ret (s', lat, w')" "held w' = held w"
    using latency_levels_return [OF assms] by blast
  then show ?thesis by (simp add: mem_latency_measure_def)
qed

end
