(* ===== verification/MemBench.thy ===== *)
theory MemBench
  imports ChaseBench CStr
begin

text \<open>
  Three more kernels over memory. \<^verbatim>\<open>src/benchmarks/memory/mem_stream.c\<close>: threads that each fill a part of an array, under
  any interleaving of their stores. \<^verbatim>\<open>mem_random.c\<close>: sums over random places, in the arithmetic of \<^verbatim>\<open>int64_t\<close>.
  \<^verbatim>\<open>numa_latency.c\<close>: the pointer chase on memory of a node; libnuma's answers are parameters.
\<close>

subsection \<open>mem-stream\<close>

definition STREAM_SIZE :: nat where "STREAM_SIZE = 64 * 1024 * 1024"

text \<open>\<open>siblings\<close> is the first line of \<^verbatim>\<open>thread_siblings_list\<close>, cut to the 63 characters of the buffer, when the file
  can be read.\<close>

definition stream_threads :: "int \<Rightarrow> string option \<Rightarrow> int" where
  "stream_threads n siblings =
     (let ncpu = SSB_NUM_CPUS n;
          nthreads = (case siblings of
             None \<Rightarrow> ncpu
           | Some sl \<Rightarrow> (case sscanf_range (take 63 sl) of
               Range a b \<Rightarrow> (let sw = b - a + 1 in if sw > 1 then ncpu div sw else ncpu)
             | _ \<Rightarrow> ncpu))
      in if nthreads < 1 then 1 else nthreads)"

text \<open>The places thread \<open>tid\<close> stores to, in order, and one store.\<close>

definition stream_part :: "nat \<Rightarrow> nat \<Rightarrow> nat \<Rightarrow> nat list" where
  "stream_part size_n nthreads tid =
     (let chunk = size_n div nthreads; first = tid * chunk; last = first + chunk
      in [first..<if tid = nthreads - 1 then size_n else last])"

definition stream_store :: "real list \<Rightarrow> real list \<Rightarrow> real list \<Rightarrow> nat \<Rightarrow> real list" where
  "stream_store a b c i = c[i := a ! i + 3 * b ! i]"

text \<open>The parts of the first \<open>k\<close> threads, one after the other.\<close>

lemma parts_prefix:
  "k < n \<Longrightarrow> concat (map (stream_part N n) [0..<k]) = [0..<k * (N div n)]"
proof (induction k)
  case (Suc k)
  then have "stream_part N n k = [k * (N div n)..<k * (N div n) + N div n]"
    by (simp add: stream_part_def Let_def)
  then show ?case using Suc upt_add_eq_append [of 0 "k * (N div n)" "N div n"] by (simp add: add.commute)
qed simp

lemma parts_all:
  assumes "0 < n"
  shows "concat (map (stream_part N n) [0..<n]) = [0..<N]"
proof -
  obtain k where k: "n = Suc k" using assms by (cases n) auto
  have "k * (N div n) \<le> n * (N div n)" using k by simp
  also have "\<dots> \<le> N" by simp
  finally have "[0..<k * (N div n)] @ [k * (N div n)..<N] = [0..<N]"
    by (metis le_add_diff_inverse upt_add_eq_append zero_le)
  moreover have "stream_part N n k = [k * (N div n)..<N]" using k by (simp add: stream_part_def Let_def)
  ultimately show ?thesis using parts_prefix [of k n N] k by simp
qed

lemma stores_nth:
  "distinct js \<Longrightarrow> set js \<subseteq> {..<length c} \<Longrightarrow>
   length (foldl (stream_store a b) c js) = length c \<and>
   (\<forall>i < length c. foldl (stream_store a b) c js ! i = (if i \<in> set js then a ! i + 3 * b ! i else c ! i))"
  by (induction js arbitrary: c) (auto simp: stream_store_def nth_list_update)

text \<open>
  The triad is computed by any number of threads under any interleaving: whenever the stores of all threads are
  executed in some order, the array ends as \<open>a + 3 b\<close> at every place.
\<close>

theorem stream_triad:
  assumes "0 < n" "mset js = mset (concat (map (stream_part N n) [0..<n]))" "length c = N"
  shows "foldl (stream_store a b) c js = map (\<lambda>i. a ! i + 3 * b ! i) [0..<N]"
proof -
  have js: "mset js = mset [0..<N]" using assms(1,2) parts_all by simp
  then have "distinct js" "set js = {..<N}"
    by (metis distinct_upt mset_eq_imp_distinct_iff, metis atLeast_upt set_mset_mset)
  with stores_nth [of js c a b] assms(3) show ?thesis by (intro nth_equalityI) auto
qed

subsection \<open>mem-random\<close>

definition RANDOM_BUF_SIZE :: int where "RANDOM_BUF_SIZE = 32 * 1024 * 1024"

definition NUM_ACCESSES :: nat where "NUM_ACCESSES = 2000000"

record mem_random_state_t =
  mr_buffer :: "int list"
  mr_indices :: "nat list"

text \<open>The conversion of an unsigned 64-bit value to \<^verbatim>\<open>int64_t\<close>, and the value stored at place \<open>i\<close>.\<close>

definition to_int64 :: "int \<Rightarrow> int" where
  "to_int64 u = (if u < 2 ^ 63 then u else u - 2 ^ 64)"

definition random_value :: "nat \<Rightarrow> int" where
  "random_value i = to_int64 (xor (int i) 16045690984503087668)"

fun rand_indices :: "nat \<Rightarrow> nat \<Rightarrow> world \<Rightarrow> nat list \<times> world" where
  "rand_indices 0 n w = ([], w)"
| "rand_indices (Suc k) n w = (let (r, w) = c_rand w; (js, w) = rand_indices k n w in (r mod n # js, w))"

definition mem_random_init :: "world \<Rightarrow> int \<times> mem_random_state_t option \<times> world" where
  "mem_random_init w =
     (let (p, w) = c_malloc w in
      if \<not> p then (-1, None, w)
      else let (b, w) = c_malloc w; (i, w) = c_malloc w
        in if \<not> b \<or> \<not> i then (-1, None, c_free p (c_free i (c_free b w)))
           else let num_elements = nat (RANDOM_BUF_SIZE div 8); (js, w) = rand_indices NUM_ACCESSES num_elements w
             in (0, Some \<lparr>mr_buffer = map random_value [0..<num_elements], mr_indices = js\<rparr>, w))"

text \<open>\<open>sink += s->buffer[s->indices[i]]\<close> over the given places.\<close>

fun sum_accesses :: "int list \<Rightarrow> nat list \<Rightarrow> int \<Rightarrow> int outcome" where
  "sum_accesses buf [] sink = Ret sink"
| "sum_accesses buf (j # js) sink =
     (if length buf \<le> j then Undef OobRead
      else let t = sink + buf ! j
        in if - (2 ^ 63) \<le> t \<and> t < 2 ^ 63 then sum_accesses buf js t else Undef IntOverflow)"

definition mem_random_warmup :: "mem_random_state_t \<Rightarrow> int outcome" where
  "mem_random_warmup s = out_bind (sum_accesses (mr_buffer s) (take 50000 (mr_indices s)) 0) (\<lambda>sink. Ret 0)"

definition mem_random_measure :: "mem_random_state_t \<Rightarrow> world \<Rightarrow> (int \<times> measurement_t \<times> world) outcome" where
  "mem_random_measure s w =
     (let (t0, w) = clock_monotonic w
      in out_bind (sum_accesses (mr_buffer s) (mr_indices s) 0) (\<lambda>sink.
           let (t1, w) = clock_monotonic w; el = elapsed t0 t1
           in Ret (0, plain_result (el * 10 ^ 9 / real NUM_ACCESSES) el, w)))"

definition mem_random_cleanup :: "world \<Rightarrow> int \<times> world" where
  "mem_random_cleanup w = (0, c_free True (c_free True (c_free True w)))"

text \<open>The upper 42 bits of the constant stay, so every value is below \<open>- 2 ^ 61\<close>.\<close>

lemma random_value_low:
  assumes "i < 2 ^ 22"
  shows "- (2 ^ 63) < random_value i \<and> random_value i < - (2 ^ 61)"
proof -
  define u where "u = xor (int i) 16045690984503087668"
  have "drop_bit 22 (int i) = 0" using assms by (simp add: drop_bit_eq_div)
  then have "drop_bit 22 u = drop_bit 22 (16045690984503087668 :: int)"
    by (simp add: u_def drop_bit_xor)
  then have "u div 2 ^ 22 = 3825590845227" by (simp add: drop_bit_eq_div)
  then have "3825590845227 * 2 ^ 22 \<le> u" "u < 3825590845228 * 2 ^ 22"
    using div_mult_mod_eq [of u "2 ^ 22"] pos_mod_bound [of "2 ^ 22" u] pos_mod_sign [of "2 ^ 22" u] by simp_all
  then show ?thesis by (simp add: random_value_def to_int64_def flip: u_def)
qed

lemma rand_indices_facts:
  "0 < n \<Longrightarrow> length (fst (rand_indices k n w)) = k \<and> (\<forall>j \<in> set (fst (rand_indices k n w)). j < n)"
  by (induction k arbitrary: w) (simp_all add: case_prod_beta)

text \<open>Four accesses are enough.\<close>

lemma sum_overflows:
  assumes "4 \<le> length js" "\<forall>j \<in> set js. j < length buf"
    "\<forall>x \<in> set buf. - (2 ^ 63) < x \<and> x < - (2 ^ 61)"
  shows "sum_accesses buf js 0 = Undef IntOverflow"
proof -
  obtain j1 j2 j3 j4 ks where js: "js = j1 # j2 # j3 # j4 # ks"
    using assms(1) by (auto simp: Suc_le_length_iff numeral_eq_Suc)
  have b: "- (2 ^ 63) < buf ! j \<and> buf ! j < - (2 ^ 61)" if "j \<in> {j1, j2, j3, j4}" for j
    using assms(2,3) that by (auto simp: js)
  show ?thesis using b [of j1] b [of j2] b [of j3] b [of j4] assms(2) by (auto simp: js Let_def)
qed



subsection \<open>numa-latency\<close>

definition NUMA_BUF_SIZE :: nat where "NUMA_BUF_SIZE = 64 * 1024 * 1024"

text \<open>\<open>setup_chase\<close> is \<open>setup_pointer_chase\<close> without the test for two slots; with none, \<open>slots - 1\<close> wraps around.\<close>

definition setup_chase :: "nat \<Rightarrow> nat \<Rightarrow> chain \<Rightarrow> world \<Rightarrow> (chain \<times> world) outcome" where
  "setup_chase sz stride m w =
     (let slots = sz div stride; (p, w) = c_malloc w
      in if \<not> p then Undef NullDeref
         else if slots = 0 then Undef OobRead
         else let (order, w) = shuffle (slots - 1) [0..<slots] w;
                  m = link_slots stride order m [0..<slots - 1];
                  m = m(order ! (slots - 1) * stride \<mapsto> order ! 0 * stride)
              in Ret (m, c_free p w))"

record numa_latency_state_t =
  nl_buffer :: chain
  nl_stride :: nat

text \<open>\<open>available\<close> is what \<^verbatim>\<open>numa_available\<close> returns, \<open>onnode\<close> whether \<^verbatim>\<open>numa_alloc_onnode\<close> returns memory.\<close>

definition numa_latency_init ::
    "int \<Rightarrow> bool \<Rightarrow> int \<Rightarrow> world \<Rightarrow> (int \<times> numa_latency_state_t option \<times> world) outcome" where
  "numa_latency_init available onnode cls w =
     (let (p, w) = c_malloc w in
      if \<not> p then Ret (-1, None, w)
      else if available < 0 then Ret (-1, None, c_free p w)
      else if \<not> onnode then Ret (-1, None, c_free p w)
      else out_bind (setup_chase NUMA_BUF_SIZE (line_stride cls) (\<lambda>_. None) w)
        (\<lambda>(m, w). Ret (0, Some \<lparr>nl_buffer = m, nl_stride = line_stride cls\<rparr>, w)))"

definition numa_latency_warmup :: "numa_latency_state_t \<Rightarrow> int outcome" where
  "numa_latency_warmup s = out_bind (chase (nl_buffer s) 50000 0) (\<lambda>p. Ret 0)"

definition numa_latency_measure ::
    "numa_latency_state_t \<Rightarrow> world \<Rightarrow> (int \<times> measurement_t \<times> world) outcome" where
  "numa_latency_measure s w =
     (let (t0, w) = clock_monotonic w
      in out_bind (chase (nl_buffer s) CHASES 0) (\<lambda>p.
           let (t1, w) = clock_monotonic w; el = elapsed t0 t1
           in Ret (0, plain_result (el * 10 ^ 9 / real CHASES) el, w)))"

definition numa_latency_cleanup :: "world \<Rightarrow> int \<times> world" where
  "numa_latency_cleanup w = (0, c_free True w)"

lemma setup_chase_eq: "2 \<le> sz div stride \<Longrightarrow> setup_chase sz stride m w = setup_pointer_chase sz stride m w"
  by (auto simp: setup_chase_def setup_pointer_chase_def Let_def split: prod.splits)

text \<open>With memory and a cache line of at most half the buffer the benchmark follows stored addresses only.\<close>

lemma numa_latency_defined:
  assumes "memory_left w" "line_stride cls \<le> NUMA_BUF_SIZE div 2"
    "numa_latency_init available onnode cls w = Ret (0, Some s, w')"
  shows "(\<exists>r. numa_latency_warmup s = Ret r) \<and> (\<exists>r. numa_latency_measure s v = Ret r)"
proof -
  let ?st = "line_stride cls"
  have "0 < ?st" by (simp add: line_stride_def)
  moreover have "2 * ?st \<le> NUMA_BUF_SIZE" using assms(2) by simp
  ultimately have slots: "2 \<le> NUMA_BUF_SIZE div ?st" by (simp add: less_eq_div_iff_mult_less_eq)
  have mem: "fst (c_malloc (snd (c_malloc w)))" using assms(1) by simp
  obtain order m' w1 where r: "setup_pointer_chase NUMA_BUF_SIZE ?st (\<lambda>_. None) (snd (c_malloc w)) = Ret (m', w1)"
    "ring ?st order m'" "mset order = mset [0..<NUMA_BUF_SIZE div ?st]" using setup_shape [OF slots mem] by metis
  have "nl_buffer s = m'"
    using assms r(1) by (auto simp: numa_latency_init_def Let_def case_prod_beta setup_chase_eq [OF slots] split: if_splits)
  moreover have "\<exists>p. chase m' k 0 = Ret p" for k using chase_defined [OF r(2,3)] slots by simp
  ultimately show ?thesis by (simp add: numa_latency_warmup_def numa_latency_measure_def case_prod_beta) (metis out_bind.simps(1))
qed

end
