(* ===== verification/Finishing.thy ===== *)
theory Finishing
  imports Prelude
begin

text \<open>
  Liveness of the threaded benchmarks. A measurement is a step relation over all interleavings of its threads;
  what it owes the harness is that it ends. The interface \<open>finishing_system\<close> asks for an invariant, a measure
  that every step decreases and progress, and gives that no execution is infinite or stuck before the end.
  Spinning on a flag is no step: the thread waits until the flag is set.
\<close>

definition always_ends :: "('s \<Rightarrow> 's \<Rightarrow> bool) \<Rightarrow> ('s \<Rightarrow> bool) \<Rightarrow> 's \<Rightarrow> bool" where
  "always_ends step finished s \<longleftrightarrow>
     (\<forall>t. step\<^sup>*\<^sup>* s t \<longrightarrow> finished t \<or> (\<exists>u. step t u)) \<and>
     (\<nexists>run. run 0 = s \<and> (\<forall>n :: nat. step (run n) (run (Suc n))))"

locale finishing_system =
  fixes step :: "'s \<Rightarrow> 's \<Rightarrow> bool" and inv :: "'s \<Rightarrow> bool" and mu :: "'s \<Rightarrow> nat" and finished :: "'s \<Rightarrow> bool"
  assumes inv_step: "step s t \<Longrightarrow> inv s \<Longrightarrow> inv t"
    and mu_step: "step s t \<Longrightarrow> inv s \<Longrightarrow> mu t < mu s"
    and progress: "inv s \<Longrightarrow> \<not> finished s \<Longrightarrow> \<exists>t. step s t"
begin

lemma reach_inv: "step\<^sup>*\<^sup>* s t \<Longrightarrow> inv s \<Longrightarrow> inv t"
  by (induction rule: rtranclp_induct) (auto intro: inv_step)

lemma run_bound:
  assumes "inv (run 0)" "\<forall>n. step (run n) (run (Suc n))"
  shows "inv (run n) \<and> mu (run n) + n \<le> mu (run 0)"
proof (induction n)
  case (Suc n)
  then show ?case
    using assms(2) inv_step [of "run n" "run (Suc n)"] mu_step [of "run n" "run (Suc n)"] by fastforce
qed (simp add: assms(1))

lemma ends: "inv s \<Longrightarrow> always_ends step finished s"
  unfolding always_ends_def
proof (intro conjI allI impI notI)
  fix t assume "inv s" "step\<^sup>*\<^sup>* s t"
  then show "finished t \<or> (\<exists>u. step t u)" using reach_inv progress by blast
next
  assume "inv s" "\<exists>run. run 0 = s \<and> (\<forall>n. step (run n) (run (Suc n)))"
  then obtain run where "run 0 = s" "\<forall>n. step (run n) (run (Suc n))" by blast
  then have "mu (run (Suc (mu s))) + Suc (mu s) \<le> mu s" using run_bound [of run "Suc (mu s)"] \<open>inv s\<close> by simp
  then show False by simp
qed

lemma can_finish: "inv s \<Longrightarrow> \<exists>t. step\<^sup>*\<^sup>* s t \<and> finished t \<and> inv t"
proof (induction "mu s" arbitrary: s rule: less_induct)
  case less
  show ?case
  proof (cases "finished s")
    case False
    then obtain u where u: "step s u" using progress less.prems by blast
    from less.hyps [OF mu_step [OF u less.prems] inv_step [OF u less.prems]] show ?thesis
      using u by (meson converse_rtranclp_into_rtranclp)
  qed (use less.prems in blast)
qed

end

text \<open>The sum over a list changes at the updated place only.\<close>

lemma sum_list_at:
  "i < length xs \<Longrightarrow> (\<Sum>x \<leftarrow> xs[i := y]. f x) + f (xs ! i) = (\<Sum>x \<leftarrow> xs. f x) + (f y :: 'a::ab_group_add)"
proof (induction xs arbitrary: i)
  case (Cons x xs)
  then show ?case by (cases i) (simp_all add: algebra_simps)
qed simp

lemma sum_list_at_nat:
  "i < length xs \<Longrightarrow> (\<Sum>x \<leftarrow> xs[i := y]. f x) + f (xs ! i) = (\<Sum>x \<leftarrow> xs. f x) + (f y :: nat)"
proof (induction xs arbitrary: i)
  case (Cons x xs)
  then show ?case by (cases i) simp_all
qed simp

end
