(* ===== verification/LockBench.thy ===== *)
theory LockBench
  imports Finishing Env
begin

text \<open>
  \<^verbatim>\<open>src/benchmarks/sync/sync_mutex.c\<close> and \<^verbatim>\<open>sync_rwlock.c\<close>: the measuring thread creates \<open>n\<close> workers, sets the
  flag \<^verbatim>\<open>ready\<close> and joins them; every worker waits for the flag, then takes the lock, counts and releases the lock,
  a fixed number of times. The two programs differ in what the lock admits: a mutex is a lock that all
  threads take as writers. A state is the program counters of all threads and the counters; who holds the
  lock is read off the program counters, and the library's promise is the guard of the step that takes it.
  Creating a thread is taken to succeed (the code does not check).
\<close>

subsection \<open>The threads\<close>

text \<open>\<open>Loop k\<close>: before the lock, \<open>k\<close> rounds to go; \<open>Held k\<close> and \<open>Counted k\<close>: inside, \<open>k\<close> rounds to go afterwards.\<close>

datatype worker = Spin | Loop nat | Held nat | Counted nat

datatype measuring = Create nat | Join nat

record lock_sys =
  ls_main :: measuring
  ls_workers :: "worker list"
  ls_data :: int
  ls_total_ops :: int

text \<open>\<open>writer t\<close> is the field \<^verbatim>\<open>is_writer\<close> of worker \<open>t\<close> and \<open>ops t\<close> its number of rounds.\<close>

definition lock_start :: lock_sys where
  "lock_start = \<lparr>ls_main = Create 0, ls_workers = [], ls_data = 0, ls_total_ops = 0\<rparr>"

fun inside :: "worker \<Rightarrow> bool" where
  "inside (Held k) = True"
| "inside (Counted k) = True"
| "inside _ = False"

definition admitted :: "(nat \<Rightarrow> bool) \<Rightarrow> worker list \<Rightarrow> nat \<Rightarrow> bool" where
  "admitted writer ws i \<longleftrightarrow> (\<forall>j < length ws. inside (ws ! j) \<longrightarrow> \<not> writer i \<and> \<not> writer j)"

inductive lock_step :: "nat \<Rightarrow> (nat \<Rightarrow> bool) \<Rightarrow> (nat \<Rightarrow> nat) \<Rightarrow> lock_sys \<Rightarrow> lock_sys \<Rightarrow> bool"
  for n writer ops where
  create: "ls_main s = Create t \<Longrightarrow> t < n \<Longrightarrow>
     lock_step n writer ops s (s\<lparr>ls_main := Create (t + 1), ls_workers := ls_workers s @ [Spin]\<rparr>)"
| ready: "ls_main s = Create n \<Longrightarrow> lock_step n writer ops s (s\<lparr>ls_main := Join 0\<rparr>)"
| join: "ls_main s = Join t \<Longrightarrow> t < n \<Longrightarrow> ls_workers s ! t = Loop 0 \<Longrightarrow>
     lock_step n writer ops s (s\<lparr>ls_main := Join (t + 1)\<rparr>)"
| start: "i < length (ls_workers s) \<Longrightarrow> ls_workers s ! i = Spin \<Longrightarrow> ls_main s = Join t \<Longrightarrow>
     lock_step n writer ops s (s\<lparr>ls_workers := (ls_workers s)[i := Loop (ops i)]\<rparr>)"
| lock: "i < length (ls_workers s) \<Longrightarrow> ls_workers s ! i = Loop (Suc k) \<Longrightarrow> admitted writer (ls_workers s) i \<Longrightarrow>
     lock_step n writer ops s (s\<lparr>ls_workers := (ls_workers s)[i := Held k]\<rparr>)"
| count_write: "i < length (ls_workers s) \<Longrightarrow> ls_workers s ! i = Held k \<Longrightarrow> writer i \<Longrightarrow>
     lock_step n writer ops s (s\<lparr>ls_workers := (ls_workers s)[i := Counted k], ls_data := ls_data s + 1\<rparr>)"
| count_read: "i < length (ls_workers s) \<Longrightarrow> ls_workers s ! i = Held k \<Longrightarrow> \<not> writer i \<Longrightarrow>
     lock_step n writer ops s (s\<lparr>ls_workers := (ls_workers s)[i := Counted k], ls_total_ops := ls_total_ops s + 1\<rparr>)"
| unlock: "i < length (ls_workers s) \<Longrightarrow> ls_workers s ! i = Counted k \<Longrightarrow>
     lock_step n writer ops s (s\<lparr>ls_workers := (ls_workers s)[i := Loop k]\<rparr>)"

inductive_cases lock_stepE: "lock_step n writer ops s s'"

definition lock_finished :: "nat \<Rightarrow> lock_sys \<Rightarrow> bool" where
  "lock_finished n s \<longleftrightarrow> ls_main s = Join n"

subsection \<open>The two benchmarks\<close>

definition nthreads :: "int \<Rightarrow> nat" where
  "nthreads ncpu = nat (if SSB_NUM_CPUS ncpu < 2 then 2 else SSB_NUM_CPUS ncpu)"

text \<open>\<^verbatim>\<open>init\<close> allocates the state and keeps the number of threads; \<^verbatim>\<open>warmup\<close> counts to 10000 alone; \<^verbatim>\<open>measure\<close>
  resets the counters and the flag (\<open>lock_start\<close>) whatever they were.\<close>

definition sync_mutex_init :: "int \<Rightarrow> world \<Rightarrow> int \<times> nat option \<times> world" where
  "sync_mutex_init ncpu w =
     (let (p, w) = c_malloc w in if \<not> p then (-1, None, w) else (0, Some (nthreads ncpu), w))"

definition sync_rwlock_init :: "int \<Rightarrow> world \<Rightarrow> int \<times> nat option \<times> world" where
  "sync_rwlock_init ncpu w =
     (let (p, w) = c_malloc w in if \<not> p then (-1, None, w) else (0, Some (nthreads ncpu), w))"

definition sync_mutex_warmup :: "lock_sys \<Rightarrow> int \<times> lock_sys" where
  "sync_mutex_warmup s = (0, s\<lparr>ls_data := ls_data s + 10000\<rparr>)"

definition sync_rwlock_warmup :: "lock_sys \<Rightarrow> int \<times> lock_sys" where
  "sync_rwlock_warmup s = (0, s\<lparr>ls_data := ls_data s + 10000\<rparr>)"

definition sync_mutex_cleanup :: "world \<Rightarrow> int \<times> world" where
  "sync_mutex_cleanup w = (0, c_free True w)"

definition sync_rwlock_cleanup :: "world \<Rightarrow> int \<times> world" where
  "sync_rwlock_cleanup w = (0, c_free True w)"

definition MUTEX_OPS :: nat where "MUTEX_OPS = 200000"

definition mutex_step :: "nat \<Rightarrow> lock_sys \<Rightarrow> lock_sys \<Rightarrow> bool" where
  "mutex_step n = lock_step n (\<lambda>_. True) (\<lambda>_. MUTEX_OPS)"

definition RWLOCK_OPS :: nat where "RWLOCK_OPS = 150000"

definition nwriters :: "nat \<Rightarrow> nat" where
  "nwriters n = (let nreaders = n * 3 div 4; nwriters = n - nreaders in if nwriters < 1 then 1 else nwriters)"

definition rwlock_ops :: "nat \<Rightarrow> nat \<Rightarrow> nat" where
  "rwlock_ops n t = (if t < nwriters n then RWLOCK_OPS div 3 else RWLOCK_OPS)"

definition rwlock_step :: "nat \<Rightarrow> lock_sys \<Rightarrow> lock_sys \<Rightarrow> bool" where
  "rwlock_step n = lock_step n (\<lambda>t. t < nwriters n) (rwlock_ops n)"

text \<open>The reported rate: all operations of the mutex benchmark, the readers' operations of the other.\<close>

definition mutex_result :: "lock_sys \<Rightarrow> real \<Rightarrow> measurement_t" where
  "mutex_result s seconds = plain_result (rate (real_of_int (ls_data s)) seconds) seconds"

definition rwlock_result :: "lock_sys \<Rightarrow> real \<Rightarrow> measurement_t" where
  "rwlock_result s seconds = plain_result (rate (real_of_int (ls_total_ops s)) seconds) seconds"

subsection \<open>The invariant\<close>

text \<open>The rounds a worker has counted, and the steps it has before it.\<close>

fun counted :: "nat \<Rightarrow> worker \<Rightarrow> int" where
  "counted m Spin = 0"
| "counted m (Loop k) = int m - int k"
| "counted m (Held k) = int m - int k - 1"
| "counted m (Counted k) = int m - int k"

fun to_do :: "nat \<Rightarrow> worker \<Rightarrow> nat" where
  "to_do m Spin = 3 * m + 1"
| "to_do m (Loop k) = 3 * k"
| "to_do m (Held k) = 3 * k + 2"
| "to_do m (Counted k) = 3 * k + 1"

definition exclusive :: "(nat \<Rightarrow> bool) \<Rightarrow> worker list \<Rightarrow> bool" where
  "exclusive writer ws \<longleftrightarrow>
     (\<forall>i < length ws. \<forall>j < length ws. inside (ws ! i) \<longrightarrow> inside (ws ! j) \<longrightarrow> writer i \<longrightarrow> i = j)"

definition counted_by :: "(nat \<Rightarrow> bool) \<Rightarrow> (nat \<Rightarrow> nat) \<Rightarrow> worker list \<Rightarrow> int" where
  "counted_by sel ops ws = (\<Sum>i < length ws. if sel i then counted (ops i) (ws ! i) else 0)"

definition lock_inv :: "nat \<Rightarrow> (nat \<Rightarrow> bool) \<Rightarrow> (nat \<Rightarrow> nat) \<Rightarrow> lock_sys \<Rightarrow> bool" where
  "lock_inv n writer ops s \<longleftrightarrow>
     exclusive writer (ls_workers s) \<and>
     ls_data s = counted_by writer ops (ls_workers s) \<and>
     ls_total_ops s = counted_by (\<lambda>i. \<not> writer i) ops (ls_workers s) \<and>
     (case ls_main s of
        Create t \<Rightarrow> t \<le> n \<and> ls_workers s = replicate t Spin
      | Join t \<Rightarrow> t \<le> n \<and> length (ls_workers s) = n \<and> (\<forall>i < t. ls_workers s ! i = Loop 0))"

definition lock_mu :: "nat \<Rightarrow> (nat \<Rightarrow> nat) \<Rightarrow> lock_sys \<Rightarrow> nat" where
  "lock_mu n ops s =
     (case ls_main s of
        Create t \<Rightarrow> (\<Sum>i = t..<n. 3 * ops i + 2) + (\<Sum>i < t. to_do (ops i) (ls_workers s ! i)) + n + 1
      | Join t \<Rightarrow> (\<Sum>i < n. to_do (ops i) (ls_workers s ! i)) + (n - t))"

lemma sum_at:
  fixes f :: "nat \<Rightarrow> 'a \<Rightarrow> 'b::comm_monoid_add"
  assumes "i < length ws"
  shows "(\<Sum>j < length ws. f j (ws[i := w] ! j)) + f i (ws ! i) = (\<Sum>j < length ws. f j (ws ! j)) + f i w"
proof -
  have split: "(\<Sum>j < length ws. g j) = g i + (\<Sum>j \<in> {..<length ws} - {i}. g j)" for g :: "nat \<Rightarrow> 'b"
    using assms by (simp add: sum.remove)
  have "(\<Sum>j \<in> {..<length ws} - {i}. f j (ws[i := w] ! j)) = (\<Sum>j \<in> {..<length ws} - {i}. f j (ws ! j))"
    by (intro sum.cong) auto
  then show ?thesis
    using assms split [of "\<lambda>j. f j (ws[i := w] ! j)"] split [of "\<lambda>j. f j (ws ! j)"] by (simp add: ac_simps)
qed

lemma counted_by_at:
  "i < length ws \<Longrightarrow> counted_by sel ops (ws[i := w]) =
     counted_by sel ops ws + (if sel i then counted (ops i) w - counted (ops i) (ws ! i) else 0)"
  using sum_at [of i ws "\<lambda>j w. if sel j then counted (ops j) w else 0" w] by (auto simp: counted_by_def)

lemma counted_by_spin: "counted_by sel ops (replicate t Spin) = 0"
  unfolding counted_by_def by (intro sum.neutral) auto

lemma exclusive_at:
  assumes "exclusive writer ws" "i < length ws" "inside w \<longrightarrow> inside (ws ! i) \<or> admitted writer ws i"
  shows "exclusive writer (ws[i := w])"
  using assms unfolding exclusive_def admitted_def by (auto simp: nth_list_update split: if_splits) 

lemma lock_inv_start: "lock_inv n writer ops lock_start"
  by (simp add: lock_inv_def lock_start_def exclusive_def counted_by_def)

lemma lock_inv_step:
  assumes "lock_step n writer ops s s'" "lock_inv n writer ops s"
  shows "lock_inv n writer ops s'"
  using assms
proof cases
  case (create t)
  then show ?thesis using assms(2) counted_by_spin [of _ ops "Suc t"]
    by (auto simp: lock_inv_def exclusive_def counted_by_spin replicate_append_same nth_Cons split: nat.splits)
next
  case ready
  then show ?thesis using assms(2) by (auto simp: lock_inv_def)
next
  case (join t)
  then show ?thesis using assms(2) by (auto simp: lock_inv_def less_Suc_eq)
next
  case (start i t)
  then show ?thesis using assms(2) by (auto simp: lock_inv_def counted_by_at exclusive_at nth_list_update)
next
  case (lock i k)
  then show ?thesis using assms(2)
    by (auto simp: lock_inv_def counted_by_at exclusive_at nth_list_update split: measuring.splits)
next
  case (count_write i k)
  then show ?thesis using assms(2)
    by (auto simp: lock_inv_def counted_by_at exclusive_at nth_list_update split: measuring.splits)
next
  case (count_read i k)
  then show ?thesis using assms(2)
    by (auto simp: lock_inv_def counted_by_at exclusive_at nth_list_update split: measuring.splits)
next
  case (unlock i k)
  then show ?thesis using assms(2)
    by (auto simp: lock_inv_def counted_by_at exclusive_at nth_list_update split: measuring.splits)
qed

lemma to_do_at:
  "i < length ws \<Longrightarrow> (\<Sum>j < length ws. to_do (ops j) (ws[i := w] ! j)) + to_do (ops i) (ws ! i) =
     (\<Sum>j < length ws. to_do (ops j) (ws ! j)) + to_do (ops i) w"
  by (rule sum_at)

lemma lock_running:
  assumes "lock_inv n writer ops s" "i < length (ls_workers s)" "ls_workers s ! i \<noteq> Spin"
  obtains t where "ls_main s = Join t" "length (ls_workers s) = n"
  using assms by (cases "ls_main s") (auto simp: lock_inv_def)

lemma lock_mu_at:
  assumes "ls_main s = Join t" "length (ls_workers s) = n" "i < n" "to_do (ops i) w < to_do (ops i) (ls_workers s ! i)"
    "ls_main s' = Join t" "ls_workers s' = (ls_workers s)[i := w]"
  shows "lock_mu n ops s' < lock_mu n ops s"
  using assms to_do_at [of i "ls_workers s" ops w] by (simp add: lock_mu_def)

lemma lock_mu_step:
  assumes "lock_step n writer ops s s'" "lock_inv n writer ops s"
  shows "lock_mu n ops s' < lock_mu n ops s"
  using assms
proof cases
  case (create t)
  then have "ls_workers s = replicate t Spin" using assms(2) by (simp add: lock_inv_def)
  moreover have "(\<Sum>i < t. to_do (ops i) ((replicate t Spin @ [Spin]) ! i)) = (\<Sum>i < t. to_do (ops i) (replicate t Spin ! i))"
    by (intro sum.cong) (auto simp: nth_append)
  moreover have "(replicate t Spin @ [Spin]) ! t = Spin" by (simp add: nth_append)
  ultimately show ?thesis using create by (simp add: lock_mu_def sum.atLeast_Suc_lessThan)
next
  case ready
  then show ?thesis by (simp add: lock_mu_def)
next
  case (join t)
  then show ?thesis by (simp add: lock_mu_def)
next
  case (start i t)
  then show ?thesis using assms(2) by (intro lock_mu_at [where i = i and t = t]) (auto simp: lock_inv_def)
next
  case (lock i k)
  then obtain t where "ls_main s = Join t" "length (ls_workers s) = n" using lock_running [OF assms(2)] by fastforce
  with lock show ?thesis by (intro lock_mu_at [where i = i and t = t]) auto
next
  case (count_write i k)
  then obtain t where "ls_main s = Join t" "length (ls_workers s) = n" using lock_running [OF assms(2)] by fastforce
  with count_write show ?thesis by (intro lock_mu_at [where i = i and t = t]) auto
next
  case (count_read i k)
  then obtain t where "ls_main s = Join t" "length (ls_workers s) = n" using lock_running [OF assms(2)] by fastforce
  with count_read show ?thesis by (intro lock_mu_at [where i = i and t = t]) auto
next
  case (unlock i k)
  then obtain t where "ls_main s = Join t" "length (ls_workers s) = n" using lock_running [OF assms(2)] by fastforce
  with unlock show ?thesis by (intro lock_mu_at [where i = i and t = t]) auto
qed

text \<open>Whoever is inside can go on, and when nobody is inside the lock is free.\<close>

lemma inside_moves:
  assumes "i < length (ls_workers s)" "inside (ls_workers s ! i)"
  shows "\<exists>s'. lock_step n writer ops s s'"
proof (cases "ls_workers s ! i")
  case (Held k)
  then show ?thesis using assms lock_step.count_write lock_step.count_read by blast
next
  case (Counted k)
  then show ?thesis using assms lock_step.unlock by blast
qed (use assms in auto)

lemma lock_progress:
  assumes "lock_inv n writer ops s" "\<not> lock_finished n s"
  shows "\<exists>s'. lock_step n writer ops s s'"
proof (cases "ls_main s")
  case (Create t)
  then have "t < n \<or> t = n" using assms(1) by (auto simp: lock_inv_def)
  then show ?thesis using Create lock_step.create lock_step.ready by blast
next
  case (Join t)
  then have t: "t < n" "t < length (ls_workers s)"
    using assms by (auto simp: lock_inv_def lock_finished_def)
  show ?thesis
  proof (cases "\<exists>i < length (ls_workers s). inside (ls_workers s ! i)")
    case True
    then show ?thesis using inside_moves by blast
  next
    case False
    then have free: "admitted writer (ls_workers s) t" by (simp add: admitted_def)
    show ?thesis
    proof (cases "ls_workers s ! t")
      case Spin
      then show ?thesis using t Join lock_step.start by blast
    next
      case (Loop k)
      then show ?thesis
        using t Join free lock_step.join [OF Join t(1)] lock_step.lock [OF t(2)] by (cases k) blast+
    qed (use False t in auto)
  qed
qed

interpretation locked: finishing_system "lock_step n writer ops" "lock_inv n writer ops" "lock_mu n ops"
  "lock_finished n" for n writer ops
  by unfold_locales (auto intro: lock_inv_step lock_mu_step lock_progress)

text \<open>At the end every worker has counted all its rounds.\<close>

lemma finished_counts:
  assumes "lock_inv n writer ops s" "lock_finished n s"
  shows "ls_data s = (\<Sum>i < n. if writer i then int (ops i) else 0)"
    "ls_total_ops s = (\<Sum>i < n. if writer i then 0 else int (ops i))"
  using assms unfolding lock_inv_def lock_finished_def
  by (auto simp: counted_by_def intro!: sum.cong)

lemma nwriters_le: "0 < n \<Longrightarrow> nwriters n \<le> n"
  by (auto simp: nwriters_def Let_def)

lemma sum_first: "m \<le> n \<Longrightarrow> (\<Sum>i < n. if i < m then c else d :: int) = int m * c + int (n - m) * d"
proof -
  assume "m \<le> n"
  then have "{..<n} = {..<m} \<union> {m..<n}" by auto
  moreover have "(\<Sum>i \<in> {..<m} \<union> {m..<n}. if i < m then c else d)
      = (\<Sum>i < m. if i < m then c else d) + (\<Sum>i = m..<n. if i < m then c else d)"
    by (intro sum.union_disjoint) auto
  moreover have "(\<Sum>i = m..<n. if i < m then c else d) = (\<Sum>i = m..<n. d)" by (intro sum.cong) auto
  ultimately show ?thesis by simp
qed

lemma rwlock_finished:
  assumes "(rwlock_step n)\<^sup>*\<^sup>* lock_start s" "lock_finished n s" "0 < n"
  shows "ls_total_ops s = 150000 * int (n - nwriters n)" "ls_data s = 50000 * int (nwriters n)"
proof -
  have inv: "lock_inv n (\<lambda>t. t < nwriters n) (rwlock_ops n) s"
    using assms(1) locked.reach_inv lock_inv_start unfolding rwlock_step_def by blast
  note le = nwriters_le [OF assms(3)]
  have "ls_data s = (\<Sum>i < n. if i < nwriters n then 50000 else 0)"
    unfolding finished_counts(1) [OF inv assms(2)]
    by (intro sum.cong) (auto simp: rwlock_ops_def RWLOCK_OPS_def)
  then show "ls_data s = 50000 * int (nwriters n)" using sum_first [OF le, of 50000 0] by simp
  have "ls_total_ops s = (\<Sum>i < n. if i < nwriters n then 0 else 150000)"
    unfolding finished_counts(2) [OF inv assms(2)]
    by (intro sum.cong) (auto simp: rwlock_ops_def RWLOCK_OPS_def)
  then show "ls_total_ops s = 150000 * int (n - nwriters n)" using sum_first [OF le, of 0 150000] by simp
qed

lemma rwlock_excludes:
  assumes "(rwlock_step n)\<^sup>*\<^sup>* lock_start s" "i < length (ls_workers s)" "j < length (ls_workers s)"
    "inside (ls_workers s ! i)" "inside (ls_workers s ! j)" "i < nwriters n"
  shows "i = j"
proof -
  have "lock_inv n (\<lambda>t. t < nwriters n) (rwlock_ops n) s"
    using assms(1) locked.reach_inv lock_inv_start unfolding rwlock_step_def by blast
  then show ?thesis using assms(2-) by (simp add: lock_inv_def exclusive_def)
qed

subsection \<open>The properties\<close>

lemma mutex_measure_ends: "always_ends (mutex_step n) (lock_finished n) lock_start"
  unfolding mutex_step_def by (rule locked.ends [OF lock_inv_start])

lemma mutex_measure_counts:
  assumes "(mutex_step n)\<^sup>*\<^sup>* lock_start s" "lock_finished n s"
  shows "mutex_result s seconds = plain_result (200000 * real n / seconds) seconds"
proof -
  have inv: "lock_inv n (\<lambda>_. True) (\<lambda>_. MUTEX_OPS) s"
    using assms(1) locked.reach_inv lock_inv_start unfolding mutex_step_def by blast
  show ?thesis using finished_counts(1) [OF inv assms(2)] by (simp add: mutex_result_def MUTEX_OPS_def rate_def mult.commute)
qed

text \<open>
  The reader-writer benchmark returns: whatever the interleaving of its threads and of the admissions to the
  lock, no execution of the measurement is infinite, and none is stuck before all workers are joined.
\<close>

theorem rwlock_measure_ends: "always_ends (rwlock_step n) (lock_finished n) lock_start"
  unfolding rwlock_step_def by (rule locked.ends [OF lock_inv_start])

text \<open>
  C20. When all workers of the reader-writer benchmark are joined, under every interleaving, the reported
  rate is 150000 operations for every reader over the elapsed time: the 50000 operations of every writer,
  which are in \<^verbatim>\<open>data\<close>, are not part of it.
\<close>

theorem rwlock_measure_counts:
  assumes "(rwlock_step n)\<^sup>*\<^sup>* lock_start s" "lock_finished n s" "0 < n"
  shows "(rwlock_result s seconds, ls_data s) =
    (plain_result (150000 * real (n - nwriters n) / seconds) seconds, 50000 * int (nwriters n))"
  by (simp add: rwlock_finished [OF assms] rwlock_result_def rate_def)

theorem rwlock_measure_counts_witness:
  "\<exists>s. (rwlock_step 8)\<^sup>*\<^sup>* lock_start s \<and> lock_finished 8 s \<and> ls_data s = 100000 \<and>
     rwlock_result s 2 = plain_result 450000 2"
proof -
  obtain s where s: "(rwlock_step 8)\<^sup>*\<^sup>* lock_start s" "lock_finished 8 s"
    using locked.can_finish [OF lock_inv_start] unfolding rwlock_step_def by blast
  have "nwriters 8 = 2" by (simp add: nwriters_def)
  then show ?thesis using s rwlock_measure_counts [OF s, of 2] by auto
qed

end
