(* ===== verification/SemBench.thy ===== *)
theory SemBench
  imports Finishing Env
begin

text \<open>
  \<^verbatim>\<open>src/benchmarks/sync/sync_semaphore.c\<close>: the measuring thread posts the semaphore 100000 times and counts the
  posts as wake-ups, sets \<^verbatim>\<open>done\<close>, posts once more for every waiter and joins them; every waiter waits on the
  semaphore until it sees \<^verbatim>\<open>done\<close>. The extra posts are what makes the benchmark return. The value of the
  semaphore survives a measurement, so it is the parameter of the start state.
\<close>

definition SEM_OPS :: nat where "SEM_OPS = 100000"

text \<open>The measuring thread: \<open>SPost i\<close> and \<open>SCount i\<close> are the two statements of round \<open>i\<close>.\<close>

datatype sem_main = SCreate nat | SPost nat | SCount nat | Flush nat | SJoin nat

text \<open>A waiter spins on \<^verbatim>\<open>ready\<close>, is about to read \<^verbatim>\<open>done\<close>, is in \<^verbatim>\<open>sem_wait\<close>, or has returned.\<close>

datatype waiter = WSpin | WCheck | WWait | WDone

record sem_sys =
  ss_main :: sem_main
  ss_sem :: nat
  ss_done :: bool
  ss_wakeups :: int
  ss_waiters :: "waiter list"

definition nwaiters :: "int \<Rightarrow> nat" where
  "nwaiters ncpu = nat (if SSB_NUM_CPUS ncpu < 1 then 1 else SSB_NUM_CPUS ncpu)"

definition sync_semaphore_init :: "int \<Rightarrow> world \<Rightarrow> int \<times> nat option \<times> world" where
  "sync_semaphore_init ncpu w =
     (let (p, w) = c_malloc w in if \<not> p then (-1, None, w) else (0, Some (nwaiters ncpu), w))"

text \<open>1000 posts, each waited for: the value is what it was.\<close>

definition sync_semaphore_warmup :: "nat \<Rightarrow> int \<times> nat" where
  "sync_semaphore_warmup sem = (0, ((\<lambda>v. v + 1 - 1) ^^ 1000) sem)"

definition sync_semaphore_cleanup :: "world \<Rightarrow> int \<times> world" where
  "sync_semaphore_cleanup w = (0, c_free True w)"

definition sem_start :: "nat \<Rightarrow> sem_sys" where
  "sem_start sem = \<lparr>ss_main = SCreate 0, ss_sem = sem, ss_done = False, ss_wakeups = 0, ss_waiters = []\<rparr>"

inductive sem_step :: "nat \<Rightarrow> sem_sys \<Rightarrow> sem_sys \<Rightarrow> bool" for n where
  create: "ss_main s = SCreate t \<Longrightarrow> t < n \<Longrightarrow>
     sem_step n s (s\<lparr>ss_main := SCreate (t + 1), ss_waiters := ss_waiters s @ [WSpin]\<rparr>)"
| ready: "ss_main s = SCreate n \<Longrightarrow> sem_step n s (s\<lparr>ss_main := SPost 0\<rparr>)"
| post: "ss_main s = SPost i \<Longrightarrow> i < SEM_OPS \<Longrightarrow>
     sem_step n s (s\<lparr>ss_main := SCount i, ss_sem := ss_sem s + 1\<rparr>)"
| count: "ss_main s = SCount i \<Longrightarrow>
     sem_step n s (s\<lparr>ss_main := SPost (i + 1), ss_wakeups := ss_wakeups s + 1\<rparr>)"
| set_done: "ss_main s = SPost SEM_OPS \<Longrightarrow> sem_step n s (s\<lparr>ss_main := Flush 0, ss_done := True\<rparr>)"
| flush: "ss_main s = Flush t \<Longrightarrow> t < n \<Longrightarrow>
     sem_step n s (s\<lparr>ss_main := Flush (t + 1), ss_sem := ss_sem s + 1\<rparr>)"
| flushed: "ss_main s = Flush n \<Longrightarrow> sem_step n s (s\<lparr>ss_main := SJoin 0\<rparr>)"
| join: "ss_main s = SJoin t \<Longrightarrow> t < n \<Longrightarrow> ss_waiters s ! t = WDone \<Longrightarrow>
     sem_step n s (s\<lparr>ss_main := SJoin (t + 1)\<rparr>)"
| wstart: "j < length (ss_waiters s) \<Longrightarrow> ss_waiters s ! j = WSpin \<Longrightarrow> \<nexists>t. ss_main s = SCreate t \<Longrightarrow>
     sem_step n s (s\<lparr>ss_waiters := (ss_waiters s)[j := WCheck]\<rparr>)"
| wagain: "j < length (ss_waiters s) \<Longrightarrow> ss_waiters s ! j = WCheck \<Longrightarrow> \<not> ss_done s \<Longrightarrow>
     sem_step n s (s\<lparr>ss_waiters := (ss_waiters s)[j := WWait]\<rparr>)"
| wdone: "j < length (ss_waiters s) \<Longrightarrow> ss_waiters s ! j = WCheck \<Longrightarrow> ss_done s \<Longrightarrow>
     sem_step n s (s\<lparr>ss_waiters := (ss_waiters s)[j := WDone]\<rparr>)"
| wtake: "j < length (ss_waiters s) \<Longrightarrow> ss_waiters s ! j = WWait \<Longrightarrow> 0 < ss_sem s \<Longrightarrow>
     sem_step n s (s\<lparr>ss_waiters := (ss_waiters s)[j := WCheck], ss_sem := ss_sem s - 1\<rparr>)"

definition sem_finished :: "nat \<Rightarrow> sem_sys \<Rightarrow> bool" where
  "sem_finished n s \<longleftrightarrow> ss_main s = SJoin n"

definition semaphore_result :: "sem_sys \<Rightarrow> real \<Rightarrow> measurement_t" where
  "semaphore_result s seconds = plain_result (rate (real_of_int (ss_wakeups s)) seconds) seconds"

subsection \<open>The invariant\<close>

definition waiting :: "waiter list \<Rightarrow> nat" where
  "waiting ws = (\<Sum>w \<leftarrow> ws. if w = WWait then 1 else 0)"

fun wakes :: "waiter \<Rightarrow> nat" where
  "wakes WSpin = 3"
| "wakes WCheck = 2"
| "wakes WWait = 1"
| "wakes WDone = 0"

fun main_inv :: "nat \<Rightarrow> sem_main \<Rightarrow> sem_sys \<Rightarrow> bool" where
  "main_inv n (SCreate t) s \<longleftrightarrow> t \<le> n \<and> ss_waiters s = replicate t WSpin \<and> \<not> ss_done s \<and> ss_wakeups s = 0"
| "main_inv n (SPost i) s \<longleftrightarrow> i \<le> SEM_OPS \<and> length (ss_waiters s) = n \<and> \<not> ss_done s \<and> ss_wakeups s = int i"
| "main_inv n (SCount i) s \<longleftrightarrow> i < SEM_OPS \<and> length (ss_waiters s) = n \<and> \<not> ss_done s \<and> ss_wakeups s = int i"
| "main_inv n (Flush t) s \<longleftrightarrow> t \<le> n \<and> length (ss_waiters s) = n \<and> ss_done s \<and> ss_wakeups s = int SEM_OPS \<and>
     waiting (ss_waiters s) \<le> ss_sem s + (n - t)"
| "main_inv n (SJoin t) s \<longleftrightarrow> t \<le> n \<and> length (ss_waiters s) = n \<and> ss_done s \<and> ss_wakeups s = int SEM_OPS \<and>
     waiting (ss_waiters s) \<le> ss_sem s"

definition sem_inv :: "nat \<Rightarrow> sem_sys \<Rightarrow> bool" where
  "sem_inv n s \<longleftrightarrow> main_inv n (ss_main s) s"

fun main_mu :: "nat \<Rightarrow> sem_main \<Rightarrow> nat" where
  "main_mu n (SCreate t) = (n - t) * 4 + 4 * SEM_OPS + 4 * n + 5"
| "main_mu n (SPost i) = (SEM_OPS - i) * 4 + 4 * n + 4"
| "main_mu n (SCount i) = (SEM_OPS - i) * 4 + 4 * n + 1"
| "main_mu n (Flush t) = (n - t) * 3 + n + 2"
| "main_mu n (SJoin t) = n - t"

definition sem_mu :: "nat \<Rightarrow> sem_sys \<Rightarrow> nat" where
  "sem_mu n s = main_mu n (ss_main s) + (\<Sum>w \<leftarrow> ss_waiters s. wakes w) + 2 * ss_sem s"

lemma waiting_at:
  "j < length ws \<Longrightarrow> waiting (ws[j := w]) + (if ws ! j = WWait then 1 else 0) = waiting ws + (if w = WWait then 1 else 0)"
  using sum_list_at_nat [of j ws "\<lambda>w. if w = WWait then 1 else 0" w] by (simp add: waiting_def)

lemma waiting_le: "waiting ws \<le> length ws"
  by (induction ws) (auto simp: waiting_def)

lemma waiting_pos: "j < length ws \<Longrightarrow> ws ! j = WWait \<Longrightarrow> 0 < waiting ws"
  using waiting_at [of j ws WDone] by simp

lemma wakes_at:
  "j < length ws \<Longrightarrow> (\<Sum>w \<leftarrow> ws[j := w]. wakes w) + wakes (ws ! j) = (\<Sum>w \<leftarrow> ws. wakes w) + wakes w"
  by (rule sum_list_at_nat)

lemma sem_inv_start: "sem_inv n (sem_start sem)"
  by (simp add: sem_inv_def sem_start_def)

text \<open>A waiter's step keeps the invariant when it does not take more than it leaves.\<close>

lemma waiter_inv:
  assumes "main_inv n m s" "j < length (ss_waiters s)" "ss_waiters s ! j \<noteq> WSpin \<or> (\<nexists>t. m = SCreate t)"
    "ss_done s \<Longrightarrow> waiting ((ss_waiters s)[j := w]) + ss_sem s \<le> waiting (ss_waiters s) + sem"
  shows "main_inv n m (s\<lparr>ss_waiters := (ss_waiters s)[j := w], ss_sem := sem\<rparr>)"
  using assms by (cases m) auto

lemma waiter_only: "s\<lparr>ss_waiters := ws\<rparr> = s\<lparr>ss_waiters := ws, ss_sem := ss_sem s\<rparr>"
  by simp

lemma sem_inv_step:
  assumes "sem_step n s s'" "sem_inv n s"
  shows "sem_inv n s'"
  using assms
proof cases
  case set_done
  then show ?thesis using assms(2) waiting_le [of "ss_waiters s"] by (simp add: sem_inv_def)
next
  case (wstart j)
  then show ?thesis using assms(2) waiting_at [of j "ss_waiters s" WCheck] waiter_inv [of n "ss_main s" s j WCheck "ss_sem s"]
    by (simp add: sem_inv_def)
next
  case (wagain j)
  then show ?thesis using assms(2) waiter_inv [of n "ss_main s" s j WWait "ss_sem s"] by (simp add: sem_inv_def)
next
  case (wdone j)
  then show ?thesis using assms(2) waiting_at [of j "ss_waiters s" WDone] waiter_inv [of n "ss_main s" s j WDone "ss_sem s"]
    by (simp add: sem_inv_def)
next
  case (wtake j)
  then show ?thesis using assms(2) waiting_at [of j "ss_waiters s" WCheck]
      waiter_inv [of n "ss_main s" s j WCheck "ss_sem s - 1"]
    by (simp add: sem_inv_def)
qed (auto simp: sem_inv_def replicate_append_same)

lemma sem_mu_step:
  assumes "sem_step n s s'" "sem_inv n s"
  shows "sem_mu n s' < sem_mu n s"
  using assms
proof cases
  case (wstart j)
  then show ?thesis using wakes_at [of j "ss_waiters s" WCheck] by (simp add: sem_mu_def)
next
  case (wagain j)
  then show ?thesis using wakes_at [of j "ss_waiters s" WWait] by (simp add: sem_mu_def)
next
  case (wdone j)
  then show ?thesis using wakes_at [of j "ss_waiters s" WDone] by (simp add: sem_mu_def)
next
  case (wtake j)
  then show ?thesis using wakes_at [of j "ss_waiters s" WCheck] by (simp add: sem_mu_def)
qed (use assms(2) in \<open>auto simp: sem_mu_def sem_inv_def\<close>)

lemma sem_progress:
  assumes "sem_inv n s" "\<not> sem_finished n s"
  shows "\<exists>s'. sem_step n s s'"
proof (cases "ss_main s")
  case (SCreate t)
  then have "t < n \<or> t = n" using assms(1) by (auto simp: sem_inv_def)
  then show ?thesis using SCreate sem_step.create sem_step.ready by blast
next
  case (SPost i)
  then have "i < SEM_OPS \<or> i = SEM_OPS" using assms(1) by (auto simp: sem_inv_def)
  then show ?thesis using SPost sem_step.post sem_step.set_done by blast
next
  case (SCount i)
  then show ?thesis using sem_step.count by blast
next
  case (Flush t)
  then have "t < n \<or> t = n" using assms(1) by (auto simp: sem_inv_def)
  then show ?thesis using Flush sem_step.flush sem_step.flushed by blast
next
  case (SJoin t)
  then have t: "t < n" "t < length (ss_waiters s)" "ss_done s" "waiting (ss_waiters s) \<le> ss_sem s"
    "\<nexists>t. ss_main s = SCreate t"
    using assms by (auto simp: sem_inv_def sem_finished_def)
  show ?thesis
  proof (cases "ss_waiters s ! t")
    case WSpin
    then show ?thesis using sem_step.wstart [OF t(2)] t(5) by blast
  next
    case WCheck
    then show ?thesis using sem_step.wdone [OF t(2)] t(3) by blast
  next
    case WWait
    then have "0 < ss_sem s" using waiting_pos [OF t(2)] t(4) by simp
    then show ?thesis using sem_step.wtake [OF t(2)] WWait by blast
  next
    case WDone
    then show ?thesis using sem_step.join [OF SJoin t(1)] by blast
  qed
qed

interpretation posted: finishing_system "sem_step n" "sem_inv n" "sem_mu n" "sem_finished n" for n
  by unfold_locales (auto intro: sem_inv_step sem_mu_step sem_progress)

subsection \<open>An execution in which nobody waits\<close>

abbreviation sem_at :: "sem_main \<Rightarrow> nat \<Rightarrow> bool \<Rightarrow> int \<Rightarrow> waiter list \<Rightarrow> sem_sys" where
  "sem_at m v d c ws \<equiv> \<lparr>ss_main = m, ss_sem = v, ss_done = d, ss_wakeups = c, ss_waiters = ws\<rparr>"

lemma run_create: "k \<le> n \<Longrightarrow> (sem_step n)\<^sup>*\<^sup>* (sem_start v) (sem_at (SCreate k) v False 0 (replicate k WSpin))"
proof (induction k)
  case (Suc k)
  have "sem_step n (sem_at (SCreate k) v False 0 (replicate k WSpin)) (sem_at (SCreate (Suc k)) v False 0 (replicate (Suc k) WSpin))"
    using sem_step.create [of "sem_at (SCreate k) v False 0 (replicate k WSpin)" k n] Suc.prems
    by (simp add: replicate_append_same)
  then show ?case using Suc by (meson Suc_leD rtranclp.rtrancl_into_rtrancl)
qed (simp add: sem_start_def)

lemma run_posts:
  "k \<le> SEM_OPS \<Longrightarrow> (sem_step n)\<^sup>*\<^sup>* (sem_at (SPost 0) v False 0 ws) (sem_at (SPost k) (v + k) False (int k) ws)"
proof (induction k)
  case (Suc k)
  have "sem_step n (sem_at (SPost k) (v + k) False (int k) ws) (sem_at (SCount k) (v + Suc k) False (int k) ws)"
    using sem_step.post [of "sem_at (SPost k) (v + k) False (int k) ws" k n] Suc.prems by simp
  moreover have "sem_step n (sem_at (SCount k) (v + Suc k) False (int k) ws) (sem_at (SPost (Suc k)) (v + Suc k) False (int (Suc k)) ws)"
    using sem_step.count [of "sem_at (SCount k) (v + Suc k) False (int k) ws" k n] by (simp add: add.commute)
  ultimately show ?case using Suc by (meson Suc_leD rtranclp.rtrancl_into_rtrancl)
qed simp

lemma run_flush:
  "k \<le> n \<Longrightarrow> (sem_step n)\<^sup>*\<^sup>* (sem_at (Flush 0) v True c ws) (sem_at (Flush k) (v + k) True c ws)"
proof (induction k)
  case (Suc k)
  have "sem_step n (sem_at (Flush k) (v + k) True c ws) (sem_at (Flush (Suc k)) (v + Suc k) True c ws)"
    using sem_step.flush [of "sem_at (Flush k) (v + k) True c ws" k n] Suc.prems by simp
  then show ?case using Suc by (meson Suc_leD rtranclp.rtrancl_into_rtrancl)
qed simp

text \<open>Every waiter looks at the flags only now.\<close>

lemma run_exit:
  "k \<le> n \<Longrightarrow> (sem_step n)\<^sup>*\<^sup>* (sem_at (SJoin 0) v True c (replicate n WSpin))
     (sem_at (SJoin k) v True c (replicate k WDone @ replicate (n - k) WSpin))"
proof (induction k)
  case (Suc k)
  define ws where "ws x = replicate k WDone @ x # replicate (n - Suc k) WSpin" for x
  have ws: "replicate k WDone @ replicate (n - k) WSpin = ws WSpin" "ws WDone = replicate (Suc k) WDone @ replicate (n - Suc k) WSpin"
    "k < length (ws x)" "ws x ! k = x" "(ws x)[k := y] = ws y" for x y
    using Suc.prems Suc_diff_Suc [of k n]
    by (simp_all add: ws_def nth_append list_update_append replicate_app_Cons_same flip: replicate_Suc)
  have "sem_step n (sem_at (SJoin k) v True c (ws WSpin)) (sem_at (SJoin k) v True c (ws WCheck))"
    using sem_step.wstart [of k "sem_at (SJoin k) v True c (ws WSpin)" n] by (simp add: ws)
  moreover have "sem_step n (sem_at (SJoin k) v True c (ws WCheck)) (sem_at (SJoin k) v True c (ws WDone))"
    using sem_step.wdone [of k "sem_at (SJoin k) v True c (ws WCheck)" n] by (simp add: ws)
  moreover have "sem_step n (sem_at (SJoin k) v True c (ws WDone)) (sem_at (SJoin (Suc k)) v True c (ws WDone))"
    using sem_step.join [of "sem_at (SJoin k) v True c (ws WDone)" k n] Suc.prems by (simp add: ws(3-5))
  ultimately show ?case
    using Suc unfolding ws(1) ws(2) [symmetric] by (meson Suc_leD rtranclp.rtrancl_into_rtrancl)
qed simp

lemma run_idle:
  "(sem_step n)\<^sup>*\<^sup>* (sem_start v) (sem_at (SJoin n) (v + SEM_OPS + n) True (int SEM_OPS) (replicate n WDone))"
proof -
  let ?ws = "replicate n WSpin"
  let ?v = "v + SEM_OPS"
  have ready: "(sem_step n)\<^sup>*\<^sup>* (sem_at (SCreate n) v False 0 ?ws) (sem_at (SPost 0) v False 0 ?ws)"
    using sem_step.ready [of "sem_at (SCreate n) v False 0 ?ws" n] by simp
  have last: "(sem_step n)\<^sup>*\<^sup>* (sem_at (SPost SEM_OPS) ?v False (int SEM_OPS) ?ws) (sem_at (Flush 0) ?v True (int SEM_OPS) ?ws)"
    using sem_step.set_done [of "sem_at (SPost SEM_OPS) ?v False (int SEM_OPS) ?ws" n] by simp
  have flushed: "(sem_step n)\<^sup>*\<^sup>* (sem_at (Flush n) (?v + n) True (int SEM_OPS) ?ws) (sem_at (SJoin 0) (?v + n) True (int SEM_OPS) ?ws)"
    using sem_step.flushed [of "sem_at (Flush n) (?v + n) True (int SEM_OPS) ?ws" n] by simp
  note rtranclp_trans [OF run_create [OF le_refl] ready]
  note rtranclp_trans [OF this run_posts [OF le_refl]]
  note rtranclp_trans [OF this last]
  note rtranclp_trans [OF this run_flush [OF le_refl]]
  note rtranclp_trans [OF this flushed]
  note rtranclp_trans [OF this run_exit [OF le_refl]]
  then show ?thesis by simp
qed

lemma semaphore_counts:
  assumes "(sem_step n)\<^sup>*\<^sup>* (sem_start v) s" "sem_finished n s"
  shows "semaphore_result s seconds = plain_result (100000 / seconds) seconds"
  using posted.reach_inv [OF assms(1) sem_inv_start] assms(2)
  by (simp add: sem_inv_def sem_finished_def semaphore_result_def rate_def SEM_OPS_def)

subsection \<open>The properties\<close>

text \<open>
  C11. The semaphore benchmark returns: whatever the interleaving and whatever value earlier measurements left in
  the semaphore, no execution is infinite, and no waiter stays asleep when the measuring thread joins it.
\<close>

theorem semaphore_measure_ends: "always_ends (sem_step n) (sem_finished n) (sem_start v)"
  by (rule posted.ends [OF sem_inv_start])

text \<open>
  The reported wake-ups are posts: there is an execution that ends with the full rate of 100000 wake-ups
  although no waiter ever waited, so that all 100000 posts and the one per waiter are still in the
  semaphore, where the next measurement finds them.
\<close>

theorem semaphore_no_wakeup:
  "\<exists>s. (sem_step n)\<^sup>*\<^sup>* (sem_start v) s \<and> sem_finished n s \<and>
     semaphore_result s seconds = plain_result (100000 / seconds) seconds \<and> ss_sem s = v + 100000 + n"
  using run_idle [of n v] semaphore_counts [OF run_idle [of n v]] by (auto simp: sem_finished_def SEM_OPS_def)

end
