(* ===== verification/FutexBench.thy ===== *)
theory FutexBench
  imports Finishing Env
begin

text \<open>
  \<^verbatim>\<open>src/benchmarks/os/cswitch_futex.c\<close>: the measuring thread and a second thread hand a futex word to each
  other, each \<^verbatim>\<open>SWITCHES / 2\<close> times. \<^verbatim>\<open>FUTEX_WAIT\<close> sleeps when the word has the expected value and returns at once when
  it has not; \<^verbatim>\<open>FUTEX_WAKE\<close> wakes the thread that sleeps, if one does. Neither side looks at the result of its
  wait, so the hand-over is not a rendezvous: a wake-up can overtake the store that belongs to it.
\<close>

definition SWITCHES :: nat where "SWITCHES = 1000000"

definition ROUNDS :: nat where "ROUNDS = SWITCHES div 2"

text \<open>The measuring thread: spinning on \<^verbatim>\<open>ready\<close>, before the store, before the wake, before the wait and asleep
  in the wait of a round, in \<^verbatim>\<open>pthread_join\<close>, and behind it.\<close>

datatype ping = PSpin | PStore nat | PWake nat | PWait nat | PSleep nat | PJoin | PDone

text \<open>The second thread: at the start, before the wait, asleep in it, before the store, the wake and the count of a
  round, and returned.\<close>

datatype pong = QStart | QWait nat | QSleep nat | QStore nat | QWake nat | QCount nat | QDone

record futex_sys =
  fs_ping :: ping
  fs_pong :: pong
  fs_word :: int
  fs_switches :: int

definition cswitch_futex_init :: "world \<Rightarrow> int \<times> int option \<times> world" where
  "cswitch_futex_init w = (let (p, w) = c_malloc w in if \<not> p then (-1, None, w) else (0, Some 0, w))"

text \<open>The warm-up stores 1 and wakes nobody.\<close>

definition cswitch_futex_warmup :: "int \<Rightarrow> int \<times> int" where
  "cswitch_futex_warmup futex_word = (0, 1)"

definition cswitch_futex_cleanup :: "world \<Rightarrow> int \<times> world" where
  "cswitch_futex_cleanup w = (0, c_free True w)"

definition futex_start :: futex_sys where
  "futex_start = \<lparr>fs_ping = PSpin, fs_pong = QStart, fs_word = 0, fs_switches = 0\<rparr>"

text \<open>\<open>FUTEX_WAKE\<close> by one side, on what the other side does.\<close>

fun wake_pong :: "pong \<Rightarrow> pong" where
  "wake_pong (QSleep j) = QStore j"
| "wake_pong q = q"

fun wake_ping :: "ping \<Rightarrow> ping" where
  "wake_ping (PSleep i) = PStore (i + 1)"
| "wake_ping p = p"

inductive futex_step :: "futex_sys \<Rightarrow> futex_sys \<Rightarrow> bool" where
  p_ready: "fs_ping s = PSpin \<Longrightarrow> fs_pong s \<noteq> QStart \<Longrightarrow> futex_step s (s\<lparr>fs_ping := PStore 0\<rparr>)"
| p_store: "fs_ping s = PStore i \<Longrightarrow> i < ROUNDS \<Longrightarrow> futex_step s (s\<lparr>fs_ping := PWake i, fs_word := 1\<rparr>)"
| p_wake: "fs_ping s = PWake i \<Longrightarrow> futex_step s (s\<lparr>fs_ping := PWait i, fs_pong := wake_pong (fs_pong s)\<rparr>)"
| p_sleep: "fs_ping s = PWait i \<Longrightarrow> fs_word s = 1 \<Longrightarrow> futex_step s (s\<lparr>fs_ping := PSleep i\<rparr>)"
| p_again: "fs_ping s = PWait i \<Longrightarrow> fs_word s \<noteq> 1 \<Longrightarrow> futex_step s (s\<lparr>fs_ping := PStore (i + 1)\<rparr>)"
| p_end: "fs_ping s = PStore ROUNDS \<Longrightarrow> futex_step s (s\<lparr>fs_ping := PJoin\<rparr>)"
| p_join: "fs_ping s = PJoin \<Longrightarrow> fs_pong s = QDone \<Longrightarrow> futex_step s (s\<lparr>fs_ping := PDone\<rparr>)"
| q_ready: "fs_pong s = QStart \<Longrightarrow> futex_step s (s\<lparr>fs_pong := QWait 0\<rparr>)"
| q_sleep: "fs_pong s = QWait j \<Longrightarrow> j < ROUNDS \<Longrightarrow> fs_word s = 0 \<Longrightarrow> futex_step s (s\<lparr>fs_pong := QSleep j\<rparr>)"
| q_again: "fs_pong s = QWait j \<Longrightarrow> j < ROUNDS \<Longrightarrow> fs_word s \<noteq> 0 \<Longrightarrow> futex_step s (s\<lparr>fs_pong := QStore j\<rparr>)"
| q_store: "fs_pong s = QStore j \<Longrightarrow> futex_step s (s\<lparr>fs_pong := QWake j, fs_word := 0\<rparr>)"
| q_wake: "fs_pong s = QWake j \<Longrightarrow> futex_step s (s\<lparr>fs_pong := QCount j, fs_ping := wake_ping (fs_ping s)\<rparr>)"
| q_count: "fs_pong s = QCount j \<Longrightarrow> futex_step s (s\<lparr>fs_pong := QWait (j + 1), fs_switches := fs_switches s + 2\<rparr>)"
| q_end: "fs_pong s = QWait ROUNDS \<Longrightarrow> futex_step s (s\<lparr>fs_pong := QDone\<rparr>)"

inductive_cases futex_stepE: "futex_step s s'"

definition futex_finished :: "futex_sys \<Rightarrow> bool" where
  "futex_finished s \<longleftrightarrow> fs_ping s = PDone"

definition futex_result :: "futex_sys \<Rightarrow> real \<Rightarrow> measurement_t" where
  "futex_result s seconds = plain_result (rate (real_of_int (fs_switches s)) seconds) seconds"

subsection \<open>What every execution keeps\<close>

text \<open>The rounds the second thread has counted.\<close>

fun pong_rounds :: "pong \<Rightarrow> nat" where
  "pong_rounds QStart = 0"
| "pong_rounds (QWait j) = j"
| "pong_rounds (QSleep j) = j"
| "pong_rounds (QStore j) = j"
| "pong_rounds (QWake j) = j"
| "pong_rounds (QCount j) = j"
| "pong_rounds QDone = ROUNDS"

definition futex_inv :: "futex_sys \<Rightarrow> bool" where
  "futex_inv s \<longleftrightarrow> fs_switches s = 2 * int (pong_rounds (fs_pong s)) \<and> pong_rounds (fs_pong s) \<le> ROUNDS \<and>
     (fs_ping s = PDone \<longrightarrow> fs_pong s = QDone) \<and>
     (\<forall>j. fs_pong s \<in> {QSleep j, QStore j, QWake j, QCount j} \<longrightarrow> j < ROUNDS)"

lemma wake_pong_rounds [simp]: "pong_rounds (wake_pong q) = pong_rounds q" "wake_pong q = QDone \<longleftrightarrow> q = QDone"
  by (cases q; simp)+

lemma wake_ping_done [simp]: "wake_ping p = PDone \<longleftrightarrow> p = PDone"
  by (cases p) simp_all

lemma futex_inv_step: "futex_step s s' \<Longrightarrow> futex_inv s \<Longrightarrow> futex_inv s'"
proof (induction rule: futex_step.induct)
  case (p_wake s i)
  then show ?case by (cases "fs_pong s") (auto simp: futex_inv_def)
qed (auto simp: futex_inv_def)

lemma futex_reach: "futex_step\<^sup>*\<^sup>* futex_start s \<Longrightarrow> futex_inv s"
proof (induction rule: rtranclp_induct)
  case base
  then show ?case by (simp add: futex_inv_def futex_start_def)
qed (rule futex_inv_step)

subsection \<open>An execution that hangs\<close>

abbreviation futex_at :: "ping \<Rightarrow> pong \<Rightarrow> int \<Rightarrow> int \<Rightarrow> futex_sys" where
  "futex_at p q w c \<equiv> \<lparr>fs_ping = p, fs_pong = q, fs_word = w, fs_switches = c\<rparr>"

text \<open>The steps on states written out.\<close>

lemma futex_moves:
  "i < ROUNDS \<Longrightarrow> futex_step (futex_at (PStore i) q w c) (futex_at (PWake i) q 1 c)"
  "futex_step (futex_at (PWake i) q w c) (futex_at (PWait i) (wake_pong q) w c)"
  "futex_step (futex_at (PWait i) q 1 c) (futex_at (PSleep i) q 1 c)"
  "futex_step (futex_at (PWait i) q 0 c) (futex_at (PStore (Suc i)) q 0 c)"
  "j < ROUNDS \<Longrightarrow> futex_step (futex_at p (QWait j) 1 c) (futex_at p (QStore j) 1 c)"
  "j < ROUNDS \<Longrightarrow> futex_step (futex_at p (QWait j) 0 c) (futex_at p (QSleep j) 0 c)"
  "futex_step (futex_at p (QStore j) w c) (futex_at p (QWake j) 0 c)"
  "futex_step (futex_at p (QWake j) w c) (futex_at (wake_ping p) (QCount j) w c)"
  "futex_step (futex_at p (QCount j) w c) (futex_at p (QWait (Suc j)) w (c + 2))"
  using p_store [of "futex_at (PStore i) q w c" i] p_wake [of "futex_at (PWake i) q w c" i]
    p_sleep [of "futex_at (PWait i) q 1 c" i] p_again [of "futex_at (PWait i) q 0 c" i]
    q_again [of "futex_at p (QWait j) 1 c" j] q_sleep [of "futex_at p (QWait j) 0 c" j]
    q_store [of "futex_at p (QStore j) w c" j] q_wake [of "futex_at p (QWake j) w c" j]
    q_count [of "futex_at p (QCount j) w c" j]
  by (simp_all add: add.commute)

lemma futex_then: "futex_step s t \<Longrightarrow> futex_step\<^sup>*\<^sup>* t u \<Longrightarrow> futex_step\<^sup>*\<^sup>* s u"
  by (rule converse_rtranclp_into_rtranclp)

text \<open>A round in which both sides find the word changed and nobody sleeps.\<close>

lemma round_even:
  assumes "i < ROUNDS" "j < ROUNDS"
  shows "futex_step\<^sup>*\<^sup>* (futex_at (PStore i) (QWait j) 0 c) (futex_at (PStore (Suc i)) (QWait (Suc j)) 0 (c + 2))"
proof -
  note r = futex_then
  show ?thesis
    by (rule r [OF futex_moves(1) [OF assms(1)]], rule r [OF futex_moves(2)], simp only: wake_pong.simps,
        rule r [OF futex_moves(5) [OF assms(2)]], rule r [OF futex_moves(7)], rule r [OF futex_moves(8)],
        simp only: wake_ping.simps, rule r [OF futex_moves(9)], rule r [OF futex_moves(4)], rule rtranclp.rtrancl_refl)
qed

text \<open>Three rounds of the measuring thread in two of the other: the wake-up of the first hand-over finds the
  measuring thread already asleep in its second round, and its store of the third falls together with the second.\<close>

lemma round_uneven:
  assumes "Suc (Suc i) < ROUNDS" "Suc j < ROUNDS"
  shows "futex_step\<^sup>*\<^sup>* (futex_at (PStore i) (QWait j) 0 c) (futex_at (PStore (i + 3)) (QWait (j + 2)) 0 (c + 4))"
proof -
  note r = futex_then
  have i: "i < ROUNDS" "Suc i < ROUNDS" "j < ROUNDS" using assms by simp_all
  have a: "futex_step\<^sup>*\<^sup>* (futex_at (PStore i) (QWait j) 0 c) (futex_at (PStore (Suc i)) (QWake j) 0 c)"
    by (rule r [OF futex_moves(1) [OF i(1)]], rule r [OF futex_moves(5) [OF i(3)]], rule r [OF futex_moves(7)],
        rule r [OF futex_moves(2)], simp only: wake_pong.simps, rule r [OF futex_moves(4)], rule rtranclp.rtrancl_refl)
  have b: "futex_step\<^sup>*\<^sup>* (futex_at (PStore (Suc i)) (QWake j) 0 c) (futex_at (PStore (Suc (Suc i))) (QCount j) 1 c)"
    by (rule r [OF futex_moves(1) [OF i(2)]], rule r [OF futex_moves(2)], simp only: wake_pong.simps,
        rule r [OF futex_moves(3)], rule r [OF futex_moves(8)], simp only: wake_ping.simps Suc_eq_plus1 [symmetric])
  have d: "futex_step\<^sup>*\<^sup>* (futex_at (PStore (Suc (Suc i))) (QCount j) 1 c)
      (futex_at (PStore (Suc (Suc (Suc i)))) (QWait (Suc (Suc j))) 0 (c + 2 + 2))"
    by (rule r [OF futex_moves(1) [OF assms(1)]], rule r [OF futex_moves(2)], simp only: wake_pong.simps,
        rule r [OF futex_moves(3)], rule r [OF futex_moves(9)], rule r [OF futex_moves(5) [OF assms(2)]],
        rule r [OF futex_moves(7)], rule r [OF futex_moves(8)],
        simp only: wake_ping.simps Suc_eq_plus1 [symmetric], rule r [OF futex_moves(9)], rule rtranclp.rtrancl_refl)
  show ?thesis using rtranclp_trans [OF rtranclp_trans [OF a b] d] by (simp add: eval_nat_numeral add.commute)
qed

lemma rounds_even:
  "i + k \<le> ROUNDS \<Longrightarrow> j + k \<le> ROUNDS \<Longrightarrow>
   futex_step\<^sup>*\<^sup>* (futex_at (PStore i) (QWait j) 0 c) (futex_at (PStore (i + k)) (QWait (j + k)) 0 (c + 2 * int k))"
proof (induction k)
  case (Suc k)
  then have "futex_step\<^sup>*\<^sup>* (futex_at (PStore i) (QWait j) 0 c) (futex_at (PStore (i + k)) (QWait (j + k)) 0 (c + 2 * int k))"
    by simp
  moreover have "futex_step\<^sup>*\<^sup>* (futex_at (PStore (i + k)) (QWait (j + k)) 0 (c + 2 * int k))
      (futex_at (PStore (Suc (i + k))) (QWait (Suc (j + k))) 0 (c + 2 * int k + 2))"
    using Suc.prems by (intro round_even) simp_all
  ultimately show ?case by (simp add: algebra_simps)
qed simp

definition futex_hung :: futex_sys where
  "futex_hung = futex_at PJoin (QSleep (ROUNDS - 1)) 0 (2 * int ROUNDS - 2)"

lemma rounds_enough: "3 \<le> ROUNDS"
  by (simp add: ROUNDS_def SWITCHES_def)

lemma run_hang: "futex_step\<^sup>*\<^sup>* futex_start futex_hung"
proof -
  have first: "futex_step\<^sup>*\<^sup>* futex_start (futex_at (PStore 0) (QWait 0) 0 0)"
    using q_ready [of futex_start] p_ready [of "futex_at PSpin (QWait 0) 0 0"]
    by (auto simp: futex_start_def intro: futex_then)
  have "ROUNDS - 1 = 2 + (ROUNDS - 3)" "ROUNDS = 3 + (ROUNDS - 3)" using rounds_enough by simp_all
  then have all: "futex_step\<^sup>*\<^sup>* (futex_at (PStore 3) (QWait 2) 0 4)
      (futex_at (PStore ROUNDS) (QWait (ROUNDS - 1)) 0 (2 * int ROUNDS - 2))"
    using rounds_even [of 3 "ROUNDS - 3" 2 4] rounds_enough by (simp only: of_nat_diff) (simp add: algebra_simps)
  have last: "futex_step\<^sup>*\<^sup>* (futex_at (PStore ROUNDS) (QWait (ROUNDS - 1)) 0 c) (futex_at PJoin (QSleep (ROUNDS - 1)) 0 c)" for c
    using p_end [of "futex_at (PStore ROUNDS) (QWait (ROUNDS - 1)) 0 c"] futex_moves(6) [of "ROUNDS - 1" PJoin c] rounds_enough
    by (auto intro: futex_then)
  have uneven: "futex_step\<^sup>*\<^sup>* (futex_at (PStore 0) (QWait 0) 0 0) (futex_at (PStore 3) (QWait 2) 0 4)"
    using round_uneven [of 0 0 0] rounds_enough by (simp add: eval_nat_numeral)
  show ?thesis
    unfolding futex_hung_def
    by (rule rtranclp_trans [OF first rtranclp_trans [OF uneven rtranclp_trans [OF all last]]])
qed

lemma hung_stuck: "\<nexists>s. futex_step futex_hung s"
  by (auto simp: futex_hung_def elim: futex_stepE)

lemma futex_counts:
  assumes "futex_step\<^sup>*\<^sup>* futex_start s" "futex_finished s"
  shows "futex_result s seconds = plain_result (1000000 / seconds) seconds"
  using futex_reach [OF assms(1)] assms(2)
  by (auto simp: futex_inv_def futex_finished_def futex_result_def rate_def ROUNDS_def SWITCHES_def)

subsection \<open>The property\<close>

text \<open>
  C12. The futex ping-pong can hang: there is an execution of the measurement, with the rounds of the source, that
  ends with the measuring thread in \<^verbatim>\<open>pthread_join\<close> and the other thread asleep in its last wait, where no step
  is possible any more.
\<close>

theorem futex_can_hang:
  "\<exists>s. futex_step\<^sup>*\<^sup>* futex_start s \<and> fs_ping s = PJoin \<and> fs_pong s = QSleep 499999 \<and> (\<nexists>t. futex_step s t)"
  using run_hang hung_stuck by (intro exI [of _ futex_hung]) (simp add: futex_hung_def ROUNDS_def SWITCHES_def)

lemma futex_not_live: "\<not> always_ends futex_step futex_finished futex_start"
  using run_hang hung_stuck unfolding always_ends_def by (auto simp: futex_finished_def futex_hung_def)

end
