(* ===== verification/PipeBench.thy ===== *)
theory PipeBench
  imports Finishing Env
begin

text \<open>
  The two benchmarks over a pipe. \<^verbatim>\<open>src/benchmarks/os/cswitch_pipe.c\<close>: two threads that each write and read the
  same pipe, as a step relation over their interleavings; whether a system call may fail is the parameter
  \<open>faults\<close>. \<^verbatim>\<open>src/benchmarks/io/ipc_pipe.c\<close>: a child reads what the measuring process writes, as functions on the
  open descriptors of the world.
\<close>

subsection \<open>cswitch-pipe-ping\<close>

definition SWITCHES_PER_ITER :: nat where "SWITCHES_PER_ITER = 1000000"

definition PAIRS :: nat where "PAIRS = SWITCHES_PER_ITER div 2"

text \<open>The bytes a pipe holds before a write blocks, 64 KB as the comment of the source says.\<close>

definition PIPE_CAPACITY :: nat where "PIPE_CAPACITY = 65536"

datatype ping_thread = TStart | TWrite nat | TRead nat | TCount nat | TDone

datatype pong_main = MSpin | MRead nat | MWrite nat | MJoin | MDone

record cpipe_sys =
  cp_ping :: ping_thread
  cp_main :: pong_main
  cp_bytes :: nat
  thread_failed :: bool
  switch_count :: int

definition cswitch_pipe_init :: "world \<Rightarrow> int \<times> (int \<times> int) option \<times> world" where
  "cswitch_pipe_init w =
     (let (p, w) = c_malloc w in
      if \<not> p then (-1, None, w)
      else let (ends, w) = c_pipe w
        in case ends of None \<Rightarrow> (-1, None, c_free True w) | Some e \<Rightarrow> (0, Some e, w))"

definition cswitch_pipe_warmup :: "nat \<Rightarrow> int \<times> nat" where
  "cswitch_pipe_warmup bytes = (0, ((\<lambda>b. b + 1 - 1) ^^ 10000) bytes)"

definition cswitch_pipe_cleanup :: "int \<times> int \<Rightarrow> world \<Rightarrow> int \<times> world" where
  "cswitch_pipe_cleanup ends w = (0, c_free True (c_close (snd ends) (c_close (fst ends) w)))"

text \<open>\<^verbatim>\<open>warmup\<close> writes and reads a byte 10000 times; the flags and the count are reset by \<^verbatim>\<open>measure\<close>, the pipe keeps
  its bytes.\<close>

definition cpipe_start :: "nat \<Rightarrow> cpipe_sys" where
  "cpipe_start bytes =
     \<lparr>cp_ping = TStart, cp_main = MSpin, cp_bytes = bytes, thread_failed = False, switch_count = 0\<rparr>"

inductive cpipe_step :: "bool \<Rightarrow> cpipe_sys \<Rightarrow> cpipe_sys \<Rightarrow> bool" for faults where
  t_ready: "cp_ping s = TStart \<Longrightarrow> cpipe_step faults s (s\<lparr>cp_ping := TWrite 0\<rparr>)"
| t_write: "cp_ping s = TWrite i \<Longrightarrow> i < PAIRS \<Longrightarrow> cp_bytes s < PIPE_CAPACITY \<Longrightarrow>
     cpipe_step faults s (s\<lparr>cp_ping := TRead i, cp_bytes := cp_bytes s + 1\<rparr>)"
| t_read: "cp_ping s = TRead i \<Longrightarrow> 0 < cp_bytes s \<Longrightarrow>
     cpipe_step faults s (s\<lparr>cp_ping := TCount i, cp_bytes := cp_bytes s - 1\<rparr>)"
| t_count: "cp_ping s = TCount i \<Longrightarrow>
     cpipe_step faults s (s\<lparr>cp_ping := TWrite (i + 1), switch_count := switch_count s + 2\<rparr>)"
| t_end: "cp_ping s = TWrite PAIRS \<Longrightarrow> cpipe_step faults s (s\<lparr>cp_ping := TDone\<rparr>)"
| t_write_fails: "faults \<Longrightarrow> cp_ping s = TWrite i \<Longrightarrow> i < PAIRS \<Longrightarrow>
     cpipe_step faults s (s\<lparr>cp_ping := TDone, thread_failed := True\<rparr>)"
| t_read_fails: "faults \<Longrightarrow> cp_ping s = TRead i \<Longrightarrow>
     cpipe_step faults s (s\<lparr>cp_ping := TDone, thread_failed := True\<rparr>)"
| m_ready: "cp_main s = MSpin \<Longrightarrow> cp_ping s \<noteq> TStart \<Longrightarrow> cpipe_step faults s (s\<lparr>cp_main := MRead 0\<rparr>)"
| m_read: "cp_main s = MRead i \<Longrightarrow> i < PAIRS \<Longrightarrow> 0 < cp_bytes s \<Longrightarrow>
     cpipe_step faults s (s\<lparr>cp_main := MWrite i, cp_bytes := cp_bytes s - 1\<rparr>)"
| m_write: "cp_main s = MWrite i \<Longrightarrow> cp_bytes s < PIPE_CAPACITY \<Longrightarrow>
     cpipe_step faults s (s\<lparr>cp_main := MRead (i + 1), cp_bytes := cp_bytes s + 1\<rparr>)"
| m_end: "cp_main s = MRead PAIRS \<Longrightarrow> cpipe_step faults s (s\<lparr>cp_main := MJoin\<rparr>)"
| m_read_fails: "faults \<Longrightarrow> cp_main s = MRead i \<Longrightarrow> i < PAIRS \<Longrightarrow> cpipe_step faults s (s\<lparr>cp_main := MJoin\<rparr>)"
| m_write_fails: "faults \<Longrightarrow> cp_main s = MWrite i \<Longrightarrow> cpipe_step faults s (s\<lparr>cp_main := MJoin\<rparr>)"
| m_join: "cp_main s = MJoin \<Longrightarrow> cp_ping s = TDone \<Longrightarrow> cpipe_step faults s (s\<lparr>cp_main := MDone\<rparr>)"

inductive_cases cpipe_stepE: "cpipe_step faults s s'"

text \<open>The return value and the result, once the thread is joined.\<close>

definition cpipe_result :: "cpipe_sys \<Rightarrow> real \<Rightarrow> int \<times> measurement_t" where
  "cpipe_result s seconds =
     (if thread_failed s then (-1, plain_result 0 0)
      else (0, plain_result (rate (real_of_int (switch_count s)) seconds) seconds))"

text \<open>The count follows the thread's rounds, whatever fails.\<close>

fun ping_inv :: "ping_thread \<Rightarrow> cpipe_sys \<Rightarrow> bool" where
  "ping_inv TStart s \<longleftrightarrow> switch_count s = 0 \<and> \<not> thread_failed s"
| "ping_inv (TWrite i) s \<longleftrightarrow> i \<le> PAIRS \<and> switch_count s = 2 * int i \<and> \<not> thread_failed s"
| "ping_inv (TRead i) s \<longleftrightarrow> i < PAIRS \<and> switch_count s = 2 * int i \<and> \<not> thread_failed s"
| "ping_inv (TCount i) s \<longleftrightarrow> i < PAIRS \<and> switch_count s = 2 * int i \<and> \<not> thread_failed s"
| "ping_inv TDone s \<longleftrightarrow> thread_failed s \<or> switch_count s = 2 * int PAIRS"

definition cpipe_inv :: "cpipe_sys \<Rightarrow> bool" where
  "cpipe_inv s \<longleftrightarrow> ping_inv (cp_ping s) s \<and> (cp_main s = MDone \<longrightarrow> cp_ping s = TDone)"

lemma ping_inv_upd [simp]:
  "ping_inv p (s\<lparr>cp_main := m\<rparr>) = ping_inv p s" "ping_inv p (s\<lparr>cp_bytes := b\<rparr>) = ping_inv p s"
  "ping_inv p (s\<lparr>cp_ping := q\<rparr>) = ping_inv p s"
  by (cases p; simp)+

lemma cpipe_inv_step: "cpipe_step faults s s' \<Longrightarrow> cpipe_inv s \<Longrightarrow> cpipe_inv s'"
proof (induction rule: cpipe_step.induct)
  case (m_join s)
  then show ?case by (auto simp: cpipe_inv_def)
qed (auto simp: cpipe_inv_def)

lemma cpipe_reach: "(cpipe_step faults)\<^sup>*\<^sup>* (cpipe_start bytes) s \<Longrightarrow> cpipe_inv s"
proof (induction rule: rtranclp_induct)
  case base
  then show ?case by (simp add: cpipe_inv_def cpipe_start_def)
qed (rule cpipe_inv_step)

lemma cpipe_counts:
  assumes "(cpipe_step faults)\<^sup>*\<^sup>* (cpipe_start bytes) s" "cp_main s = MDone"
  shows "cpipe_result s seconds \<in> {(-1, plain_result 0 0), (0, plain_result (1000000 / seconds) seconds)}"
  using cpipe_reach [OF assms(1)] assms(2)
  by (auto simp: cpipe_inv_def cpipe_result_def rate_def PAIRS_def SWITCHES_PER_ITER_def)

text \<open>An execution in which the thread reads every byte it has written.\<close>

abbreviation cpipe_at :: "ping_thread \<Rightarrow> pong_main \<Rightarrow> nat \<Rightarrow> int \<Rightarrow> cpipe_sys" where
  "cpipe_at p m b c \<equiv> \<lparr>cp_ping = p, cp_main = m, cp_bytes = b, thread_failed = False, switch_count = c\<rparr>"

lemma cpipe_alone:
  "k \<le> PAIRS \<Longrightarrow> (cpipe_step faults)\<^sup>*\<^sup>* (cpipe_at (TWrite 0) m 0 0) (cpipe_at (TWrite k) m 0 (2 * int k))"
proof (induction k)
  case (Suc k)
  have "cpipe_step faults (cpipe_at (TWrite k) m 0 (2 * int k)) (cpipe_at (TRead k) m 1 (2 * int k))"
    using t_write [of "cpipe_at (TWrite k) m 0 (2 * int k)" k faults] Suc.prems by (simp add: PIPE_CAPACITY_def)
  moreover have "cpipe_step faults (cpipe_at (TRead k) m 1 (2 * int k)) (cpipe_at (TCount k) m 0 (2 * int k))"
    using t_read [of "cpipe_at (TRead k) m 1 (2 * int k)" k faults] by simp
  moreover have "cpipe_step faults (cpipe_at (TCount k) m 0 (2 * int k)) (cpipe_at (TWrite (Suc k)) m 0 (2 * int (Suc k)))"
    using t_count [of "cpipe_at (TCount k) m 0 (2 * int k)" k faults] by (simp add: algebra_simps)
  moreover have "(cpipe_step faults)\<^sup>*\<^sup>* (cpipe_at (TWrite 0) m 0 0) (cpipe_at (TWrite k) m 0 (2 * int k))"
    using Suc by simp
  ultimately show ?case by (meson rtranclp.rtrancl_into_rtrancl)
qed simp

lemma run_alone: "(cpipe_step False)\<^sup>*\<^sup>* (cpipe_start 0) (cpipe_at TDone (MRead 0) 0 (2 * int PAIRS))"
proof -
  have "cpipe_step False (cpipe_start 0) (cpipe_at (TWrite 0) MSpin 0 0)"
    using t_ready [of "cpipe_start 0" False] by (simp add: cpipe_start_def)
  moreover have "cpipe_step False (cpipe_at (TWrite 0) MSpin 0 0) (cpipe_at (TWrite 0) (MRead 0) 0 0)"
    using m_ready [of "cpipe_at (TWrite 0) MSpin 0 0" False] by simp
  moreover have "cpipe_step False (cpipe_at (TWrite PAIRS) (MRead 0) 0 (2 * int PAIRS)) (cpipe_at TDone (MRead 0) 0 (2 * int PAIRS))"
    using t_end [of "cpipe_at (TWrite PAIRS) (MRead 0) 0 (2 * int PAIRS)" False] by simp
  moreover note cpipe_alone [of PAIRS False "MRead 0"]
  ultimately show ?thesis
    by (meson le_refl converse_rtranclp_into_rtranclp rtranclp.rtrancl_into_rtrancl)
qed

text \<open>
  The pipe ping-pong can hang without any system call failing: there is an execution in which the second
  thread reads back each of its own bytes and counts all 1000000 switches, after which the measuring thread, still in
  its first read, waits for ever on the empty pipe.
\<close>

theorem cpipe_can_hang:
  "\<exists>s. (cpipe_step False)\<^sup>*\<^sup>* (cpipe_start 0) s \<and> cp_main s = MRead 0 \<and> switch_count s = 1000000 \<and>
     (\<nexists>t. cpipe_step False s t)"
proof (intro exI conjI)
  show "(cpipe_step False)\<^sup>*\<^sup>* (cpipe_start 0) (cpipe_at TDone (MRead 0) 0 (2 * int PAIRS))" by (rule run_alone)
  show "\<nexists>t. cpipe_step False (cpipe_at TDone (MRead 0) 0 (2 * int PAIRS)) t"
    by (auto simp: PAIRS_def SWITCHES_PER_ITER_def elim: cpipe_stepE)
qed (simp_all add: PAIRS_def SWITCHES_PER_ITER_def)

subsection \<open>ipc-pipe\<close>

definition MSG_SIZE :: int where "MSG_SIZE = 512"

definition NUM_MSGS :: nat where "NUM_MSGS = 500000"

record ipc_pipe_state_t =
  ip_rd :: int
  ip_wr :: int

definition ipc_pipe_init :: "world \<Rightarrow> int \<times> ipc_pipe_state_t option \<times> world" where
  "ipc_pipe_init w =
     (let (p, w) = c_malloc w in
      if \<not> p then (-1, None, w)
      else let (ends, w) = c_pipe w
        in case ends of None \<Rightarrow> (-1, None, c_free True w)
           | Some (rd, wr) \<Rightarrow>
               (let (b, w) = c_malloc w
                in if \<not> b then (-1, None, c_free True (c_close wr (c_close rd w)))
                   else (0, Some \<lparr>ip_rd = rd, ip_wr = wr\<rparr>, w)))"

text \<open>What \<^verbatim>\<open>n\<close> writes of a message transfer: the child reads until it has everything, so a write to an open end
  ends with all its bytes taken; a write to a closed end returns -1, which the code does not look at.\<close>

definition bytes_sent :: "nat \<Rightarrow> int \<Rightarrow> world \<Rightarrow> int" where
  "bytes_sent n wr w = (if wr \<in> set (w_fds w) then int n * MSG_SIZE else 0)"

text \<open>\<open>pid\<close> is what \<^verbatim>\<open>fork\<close> returns to the measuring process.\<close>

definition ipc_pipe_warmup :: "int \<Rightarrow> ipc_pipe_state_t \<Rightarrow> world \<Rightarrow> int \<times> ipc_pipe_state_t \<times> world" where
  "ipc_pipe_warmup pid s w =
     (let w = (if pid > 0 then c_close (ip_wr s) (c_close (ip_rd s) w) else w);
          (ends, w) = c_pipe w
      in case ends of None \<Rightarrow> (-1, s, w) | Some (rd, wr) \<Rightarrow> (0, s\<lparr>ip_rd := rd, ip_wr := wr\<rparr>, w))"

text \<open>The return value, the bytes really transferred, the bytes the metric counts, and the world.\<close>

definition ipc_pipe_measure :: "int \<Rightarrow> ipc_pipe_state_t \<Rightarrow> world \<Rightarrow> int \<times> int \<times> int \<times> world" where
  "ipc_pipe_measure pid s w =
     (if pid < 0 then (-1, 0, 0, w)
      else let w = c_close (ip_rd s) w;
               sent = bytes_sent NUM_MSGS (ip_wr s) w;
               total_bytes = int NUM_MSGS * MSG_SIZE
           in (0, sent, total_bytes, c_close (ip_wr s) w))"

definition ipc_pipe_result :: "int \<Rightarrow> real \<Rightarrow> measurement_t" where
  "ipc_pipe_result total_bytes seconds = plain_result (rate (real_of_int total_bytes) seconds) seconds"

definition ipc_pipe_cleanup :: "ipc_pipe_state_t \<Rightarrow> world \<Rightarrow> int \<times> world" where
  "ipc_pipe_cleanup s w = (0, c_free True (c_free True (c_close (ip_wr s) (c_close (ip_rd s) w))))"

text \<open>The iterations of the harness: one measurement after the other on one state.\<close>

fun ipc_pipe_series :: "int list \<Rightarrow> ipc_pipe_state_t \<Rightarrow> world \<Rightarrow> (int \<times> int \<times> int) list \<times> world" where
  "ipc_pipe_series [] s w = ([], w)"
| "ipc_pipe_series (pid # pids) s w =
     (let (ret, sent, bytes, w) = ipc_pipe_measure pid s w; (rs, w) = ipc_pipe_series pids s w
      in ((ret, sent, bytes) # rs, w))"

lemma series_closed:
  assumes "ip_rd s \<notin> set (w_fds w)" "ip_wr s \<notin> set (w_fds w)" "\<forall>pid \<in> set pids. 0 < pid"
  shows "ipc_pipe_series pids s w = (replicate (length pids) (0, 0, 256000000), w)"
  using assms
proof (induction pids)
  case (Cons pid pids)
  have closed: "c_close fd w = w" if "fd \<notin> set (w_fds w)" for fd
    using that by (simp add: c_close_def remove1_idem)
  show ?case
    using Cons by (simp add: ipc_pipe_measure_def bytes_sent_def closed NUM_MSGS_def MSG_SIZE_def Let_def)
qed simp

text \<open>
  C17. After the warm-up only the first measurement of ipc-pipe transfers anything: it closes both ends of the pipe, so
  every later one writes to closed descriptors, ignores that every write fails and still reports 256000000 bytes.
\<close>

theorem ipc_pipe_repeats:
  assumes "distinct (w_fds w)" "ip_rd s \<noteq> ip_wr s" "{ip_rd s, ip_wr s} \<subseteq> set (w_fds w)" "\<forall>pid \<in> set (p # pids). 0 < pid"
  shows "fst (ipc_pipe_series (p # pids) s w) = (0, 256000000, 256000000) # replicate (length pids) (0, 0, 256000000)"
proof -
  let ?w = "c_close (ip_wr s) (c_close (ip_rd s) w)"
  have "ip_rd s \<notin> set (w_fds ?w)" "ip_wr s \<notin> set (w_fds ?w)"
    using assms(1) by (auto simp: c_close_def)
  from series_closed [OF this] have "ipc_pipe_series pids s ?w = (replicate (length pids) (0, 0, 256000000), ?w)"
    using assms(4) by simp
  moreover have "ip_wr s \<in> set (w_fds (c_close (ip_rd s) w))" using assms(2,3) by (simp add: c_close_def)
  ultimately show ?thesis using assms(4)
    by (simp add: ipc_pipe_measure_def bytes_sent_def NUM_MSGS_def MSG_SIZE_def Let_def)
qed

theorem ipc_pipe_repeats_witness:
  "fst (ipc_pipe_series [100, 101, 102] \<lparr>ip_rd = 3, ip_wr = 4\<rparr> (quiet_world\<lparr>w_fds := [4, 3]\<rparr>))
     = [(0, 256000000, 256000000), (0, 0, 256000000), (0, 0, 256000000)]"
  using ipc_pipe_repeats [of "quiet_world\<lparr>w_fds := [4, 3]\<rparr>" "\<lparr>ip_rd = 3, ip_wr = 4\<rparr>" 100 "[101, 102]"] by simp

end
