(* ===== verification/SieveBench.thy ===== *)
theory SieveBench
  imports KernelOps
begin

text \<open>
  \<^verbatim>\<open>src/benchmarks/virt/vm_cpu_overhead.c\<close>: the sieve of Eratosthenes on an array of flags, with its C indices and
  products, against the prime numbers.
\<close>

definition SIEVE_LIMIT :: nat where "SIEVE_LIMIT = 2000000"

definition SIEVE_PASSES :: nat where "SIEVE_PASSES = 10"

text \<open>The inner loop \<open>for (int i = ...; i <= limit; i += p) ip[i] = 0\<close>: an index above the array or above
  \<^verbatim>\<open>INT_MAX\<close> is undefined; with \<open>p = 0\<close> it would not end, so a step is at least 1.\<close>

function strike :: "nat \<Rightarrow> nat \<Rightarrow> nat \<Rightarrow> int list \<Rightarrow> int list outcome" where
  "strike limit p i ip =
     (if 2 ^ 31 \<le> i then Undef IntOverflow
      else if limit < i then Ret ip
      else if length ip \<le> i then Undef OobWrite
      else strike limit p (i + max 1 p) (ip[i := 0]))"
  by pat_completeness auto
termination
  by (relation "measure (\<lambda>(limit, p, i, ip). Suc limit - i)") auto

declare strike.simps [simp del]

text \<open>The outer loop, \<open>p * p\<close> being computed before it is compared.\<close>

function sieve_loop :: "nat \<Rightarrow> nat \<Rightarrow> int list \<Rightarrow> int list outcome" where
  "sieve_loop limit p ip =
     (if 2 ^ 31 \<le> p * p then Undef IntOverflow
      else if limit < p * p then Ret ip
      else if length ip \<le> p then Undef OobRead
      else if ip ! p \<noteq> 0 then out_bind (strike limit p (p * p) ip) (\<lambda>ip. sieve_loop limit (p + 1) ip)
      else sieve_loop limit (p + 1) ip)"
  by pat_completeness auto
termination
proof (relation "measure (\<lambda>(limit, p, ip). Suc limit - p)")
  fix limit p :: nat assume "\<not> limit < p * p"
  then have "p \<le> limit" using le_square [of p] by linarith
  then show "((limit, p + 1, ip), limit, p, ip') \<in> measure (\<lambda>(limit, p, ip). Suc limit - p)" for ip ip' :: "int list" by simp
  then show "((limit, p + 1, ip), limit, p, ip') \<in> measure (\<lambda>(limit, p, ip). Suc limit - p)" for ip ip' :: "int list" .
qed simp

declare sieve_loop.simps [simp del]

text \<open>\<open>memset(ip, 1, limit + 1)\<close> on an array that may be longer, both loops, and the count of the flags set.\<close>

definition sieve :: "int list \<Rightarrow> nat \<Rightarrow> (nat \<times> int list) outcome" where
  "sieve ip limit =
     (if length ip < limit + 1 \<or> length ip < 2 then Undef OobWrite
      else let ip = replicate (limit + 1) 1 @ drop (limit + 1) ip; ip = ip[0 := 0, 1 := 0]
        in out_bind (sieve_loop limit 2 ip)
             (\<lambda>ip. Ret (foldl (\<lambda>c i. if ip ! i \<noteq> 0 then c + 1 else c) 0 [2..<limit + 1], ip)))"

subsection \<open>The benchmark\<close>

record vm_cpu_overhead_state_t =
  vm_is_prime :: "int list"

text \<open>\<open>for (pass ...) tp += sieve(...)\<close>.\<close>

fun sieve_passes :: "nat \<Rightarrow> nat \<Rightarrow> int list \<Rightarrow> nat \<Rightarrow> (nat \<times> int list) outcome" where
  "sieve_passes 0 limit ip tp = Ret (tp, ip)"
| "sieve_passes (Suc k) limit ip tp =
     out_bind (sieve ip limit) (\<lambda>(c, ip). if 2 ^ 31 \<le> tp + c then Undef IntOverflow else sieve_passes k limit ip (tp + c))"

definition vm_cpu_overhead_init :: "int \<Rightarrow> world \<Rightarrow> int \<times> vm_cpu_overhead_state_t option \<times> world" where
  "vm_cpu_overhead_init junk w =
     (let (p, w) = c_malloc w in
      if \<not> p then (-1, None, w)
      else let (a, w) = c_malloc w
        in if \<not> a then (-1, None, c_free p w)
           else (0, Some \<lparr>vm_is_prime = replicate (SIEVE_LIMIT + 1) junk\<rparr>, w))"

definition vm_cpu_overhead_warmup :: "vm_cpu_overhead_state_t \<Rightarrow> (int \<times> vm_cpu_overhead_state_t) outcome" where
  "vm_cpu_overhead_warmup s =
     out_bind (sieve (vm_is_prime s) (SIEVE_LIMIT div 4)) (\<lambda>(r, ip). Ret (0, s\<lparr>vm_is_prime := ip\<rparr>))"

text \<open>The total goes to a volatile sink; it is the fourth component.\<close>

definition vm_cpu_overhead_measure ::
    "vm_cpu_overhead_state_t \<Rightarrow> world \<Rightarrow> (int \<times> vm_cpu_overhead_state_t \<times> measurement_t \<times> nat \<times> world) outcome" where
  "vm_cpu_overhead_measure s w =
     (let (t0, w) = clock_monotonic w
      in out_bind (sieve_passes SIEVE_PASSES SIEVE_LIMIT (vm_is_prime s) 0)
        (\<lambda>(tp, ip). let (t1, w) = clock_monotonic w; el = elapsed t0 t1
          in Ret (0, s\<lparr>vm_is_prime := ip\<rparr>, plain_result (rate (real SIEVE_PASSES) el) el, tp, w)))"

definition vm_cpu_overhead_cleanup :: "world \<Rightarrow> int \<times> world" where
  "vm_cpu_overhead_cleanup w = (0, c_free True (c_free True w))"

definition vm_cpu_overhead_ops :: "int \<Rightarrow> vm_cpu_overhead_state_t option bench_ops" where
  "vm_cpu_overhead_ops junk = pointed_ops (vm_cpu_overhead_init junk)
     (\<lambda>s. the_ret (vm_cpu_overhead_warmup s))
     (\<lambda>s w. let (r, s, m, tp, w) = the_ret (vm_cpu_overhead_measure s w) in (r, s, m, w)) vm_cpu_overhead_cleanup"

subsection \<open>Prime numbers\<close>

definition prime_number :: "nat \<Rightarrow> bool" where
  "prime_number n \<longleftrightarrow> 1 < n \<and> (\<forall>d. d dvd n \<longrightarrow> d = 1 \<or> d = n)"

definition prime_below :: "nat \<Rightarrow> nat \<Rightarrow> bool" where
  "prime_below p n \<longleftrightarrow> 1 < n \<and> (\<forall>d. 1 < d \<longrightarrow> d < p \<longrightarrow> d < n \<longrightarrow> \<not> d dvd n)"


lemma strike_result:
  assumes "limit < length ip" "limit + p < 2 ^ 31" "0 < p" "p dvd i" "i \<le> limit + p"
  shows "\<exists>ip'. strike limit p i ip = Ret ip' \<and> length ip' = length ip \<and>
    (\<forall>n \<le> limit. ip' ! n = (if p dvd n \<and> i \<le> n then 0 else ip ! n))"
  using assms
proof (induction limit p i ip rule: strike.induct)
  case (1 limit p i ip)
  show ?case
  proof (cases "limit < i")
    case True
    then show ?thesis using "1.prems" by (subst strike.simps) auto
  next
    case False
    have s: "strike limit p i ip = strike limit p (i + p) (ip[i := 0])"
      using False "1.prems" by (subst strike.simps) (simp add: max_def)
    have "\<exists>ip'. strike limit p (i + p) (ip[i := 0]) = Ret ip' \<and> length ip' = length (ip[i := 0]) \<and>
        (\<forall>n \<le> limit. ip' ! n = (if p dvd n \<and> i + p \<le> n then 0 else ip[i := 0] ! n))"
      using "1.IH" False "1.prems" by (simp add: max_def)
    moreover have "p dvd n \<and> i \<le> n \<longleftrightarrow> p dvd n \<and> i + p \<le> n \<or> n = i" if "n \<le> limit" for n
    proof
      assume n: "p dvd n \<and> i \<le> n"
      then have "p dvd n - i" using "1.prems" by (simp add: dvd_diff_nat)
      then show "p dvd n \<and> i + p \<le> n \<or> n = i" using n by (auto dest: dvd_imp_le)
    qed (use "1.prems" in auto)
    ultimately show ?thesis unfolding s using False "1.prems" by (auto simp: nth_list_update)
  qed
qed

lemma prime_below_step:
  "prime_below (Suc p) n \<longleftrightarrow> prime_below p n \<and> \<not> (1 < p \<and> p < n \<and> p dvd n)"
  by (auto simp: prime_below_def less_Suc_eq)

text \<open>A struck \<open>p\<close> has a smaller divisor, which divides every multiple as well.\<close>

lemma prime_below_struck:
  assumes "\<not> prime_below p p" "1 < p"
  shows "prime_below (Suc p) n \<longleftrightarrow> prime_below p n"
proof -
  obtain d where "1 < d" "d < p" "d dvd p" using assms by (auto simp: prime_below_def)
  then show ?thesis unfolding prime_below_step by (auto simp: prime_below_def dest: dvd_trans)
qed

text \<open>Multiples below the square have the other factor as a smaller divisor.\<close>

lemma prime_below_square:
  assumes "prime_below p n" "1 < p" "p dvd n" "p < n"
  shows "p * p \<le> n"
proof (rule ccontr)
  assume "\<not> p * p \<le> n"
  moreover obtain k where k: "n = p * k" using assms(3) by (elim dvdE)
  ultimately have "1 < k" "k < p" using assms(2,4) by auto
  moreover have "k < n" using k assms(2) \<open>1 < k\<close> by simp
  ultimately have "\<not> k dvd n" using assms(1) by (simp add: prime_below_def)
  then show False using k by simp
qed

lemma prime_below_prime:
  assumes "n < p * p"
  shows "prime_below p n \<longleftrightarrow> prime_number n"
proof
  assume b: "prime_below p n"
  have "d = 1 \<or> d = n" if dn: "d dvd n" for d
  proof (rule ccontr)
    assume c: "\<not> (d = 1 \<or> d = n)"
    from dn obtain k where k: "n = d * k" by (rule dvdE)
    have n: "1 < n" using b by (simp add: prime_below_def)
    have "1 < d" "1 < k" using c k n by (cases d; cases k; auto)+
    moreover from this have "d < n" "k < n" using k by simp_all
    moreover have "d < p \<or> k < p"
    proof (rule ccontr)
      assume "\<not> (d < p \<or> k < p)"
      then have "p * p \<le> d * k" by (intro mult_le_mono) simp_all
      then show False using assms k by simp
    qed
    ultimately show False using b k by (auto simp: prime_below_def)
  qed
  then show "prime_number n" using b by (simp add: prime_number_def prime_below_def)
qed (auto simp: prime_below_def prime_number_def)

text \<open>Before round \<open>p\<close> exactly the numbers without a divisor below \<open>p\<close> are set.\<close>

definition sieved :: "nat \<Rightarrow> nat \<Rightarrow> int list \<Rightarrow> bool" where
  "sieved limit p ip \<longleftrightarrow> limit < length ip \<and> (\<forall>n \<le> limit. ip ! n = of_bool (prime_below p n))"

lemma sieve_loop_result:
  assumes "sieved limit p ip" "1 < p" "limit < 2 ^ 30" "(p - 1) * (p - 1) \<le> limit"
  shows "\<exists>ip'. sieve_loop limit p ip = Ret ip' \<and> length ip' = length ip \<and>
    (\<forall>n \<le> limit. ip' ! n = of_bool (prime_number n))"
  using assms
proof (induction limit p ip rule: sieve_loop.induct)
  case (1 limit p ip)
  have "p - 1 \<le> 2 ^ 15"
  proof (rule ccontr)
    assume "\<not> p - 1 \<le> 2 ^ 15"
    then have "(2 ^ 15 + 1) * (2 ^ 15 + 1) \<le> (p - 1) * (p - 1)" by (intro mult_le_mono) simp_all
    then show False using "1.prems" by simp
  qed
  then have "p * p \<le> (2 ^ 15 + 1) * (2 ^ 15 + 1)" by (intro mult_le_mono) simp_all
  then have ov: "\<not> 2 ^ 31 \<le> p * p" by simp
  show ?case
  proof (cases "limit < p * p")
    case True
    then have "sieve_loop limit p ip = Ret ip" using ov by (subst sieve_loop.simps) simp
    moreover have "prime_below p n \<longleftrightarrow> prime_number n" if "n \<le> limit" for n
      using that True by (intro prime_below_prime) simp
    ultimately show ?thesis using "1.prems"(1) by (simp add: sieved_def)
  next
    case False
    then have p: "p \<le> limit" "p < length ip" using le_square [of p] "1.prems"(1) unfolding sieved_def by linarith+
    have bound: "limit + p < 2 ^ 31" using "1.prems"(3) p by simp
    show ?thesis
    proof (cases "ip ! p = 0")
      case True
      then have "\<not> prime_below p p" using "1.prems"(1) p by (simp add: sieved_def)
      then have "sieved limit (Suc p) ip" using "1.prems"(1,2) prime_below_struck [of p] by (simp add: sieved_def)
      moreover have "sieve_loop limit p ip = sieve_loop limit (p + 1) ip"
        using True False ov p by (subst sieve_loop.simps) simp
      ultimately show ?thesis using "1.IH"(2) True False ov p "1.prems" by simp
    next
      case c: False
      obtain ip1 where s: "strike limit p (p * p) ip = Ret ip1" "length ip1 = length ip"
        "\<forall>n \<le> limit. ip1 ! n = (if p dvd n \<and> p * p \<le> n then 0 else ip ! n)"
        using strike_result [of limit ip p "p * p"] "1.prems" p False bound by (auto simp: sieved_def)
      have "prime_below (Suc p) n \<longleftrightarrow> prime_below p n \<and> \<not> (p dvd n \<and> p * p \<le> n)" for n
        using prime_below_square [of p n] "1.prems"(2) unfolding prime_below_step
        by (metis less_le_trans mult_less_cancel1 nat_mult_1_right less_trans zero_less_one)
      then have "sieved limit (Suc p) ip1" using "1.prems"(1) s(2,3) by (auto simp: sieved_def)
      moreover have "sieve_loop limit p ip = sieve_loop limit (p + 1) ip1"
        using c s(1) False ov p by (subst sieve_loop.simps) simp
      ultimately show ?thesis using "1.IH"(1) [of ip1] s c False ov p "1.prems" by fastforce
    qed
  qed
qed

lemma count_flags:
  "foldl (\<lambda>c i. if P i then c + 1 else c) k [a..<b] = k + card {i. a \<le> i \<and> i < b \<and> P i}"
proof (induction b)
  case (Suc b)
  have "{i. a \<le> i \<and> i < Suc b \<and> P i} = (if a \<le> b \<and> P b then insert b {i. a \<le> i \<and> i < b \<and> P i} else {i. a \<le> i \<and> i < b \<and> P i})"
    by (auto simp: less_Suc_eq)
  then show ?case using Suc by (simp add: not_le)
qed simp

lemma sieve_primes:
  assumes "limit < length ip" "1 \<le> limit" "limit < 2 ^ 30"
  shows "\<exists>ip'. sieve ip limit = Ret (card {n. n \<le> limit \<and> prime_number n}, ip') \<and> length ip' = length ip \<and>
    (\<forall>n \<le> limit. ip' ! n = of_bool (prime_number n))"
proof -
  let ?ip = "(replicate (limit + 1) 1 @ drop (limit + 1) ip)[0 := 0, 1 := 0 :: int]"
  have "sieved limit 2 ?ip"
  proof -
    have "?ip ! n = of_bool (prime_below 2 n)" if "n \<le> limit" for n
      using that assms by (cases "n = 0"; cases "n = 1") (auto simp: prime_below_def nth_append)
    then show ?thesis using assms by (simp add: sieved_def)
  qed
  then obtain ip' where s: "sieve_loop limit 2 ?ip = Ret ip'" "length ip' = length ?ip"
      "\<forall>n \<le> limit. ip' ! n = of_bool (prime_number n)"
    using sieve_loop_result [of limit 2 ?ip] assms by auto
  have "{i. 2 \<le> i \<and> i < limit + 1 \<and> ip' ! i \<noteq> 0} = {n. n \<le> limit \<and> prime_number n}"
    using s(3) by (auto simp: prime_number_def)
  then have "foldl (\<lambda>c i. if ip' ! i \<noteq> 0 then c + 1 else c) 0 [2..<limit + 1] = card {n. n \<le> limit \<and> prime_number n}"
    by (simp only: count_flags add_0)
  then show ?thesis using s assms by (auto simp: sieve_def Let_def simp del: upt_Suc)
qed


lemma card_primes_le: "card {n. n \<le> limit \<and> prime_number n} \<le> limit"
proof -
  have "card {n. n \<le> limit \<and> prime_number n} \<le> card {1..limit}"
    by (intro card_mono) (auto simp: prime_number_def)
  then show ?thesis by simp
qed

lemma sieve_passes_result:
  assumes "limit < length ip" "1 \<le> limit" "limit < 2 ^ 30" "tp + k * limit < 2 ^ 31"
  shows "\<exists>ip'. sieve_passes k limit ip tp = Ret (tp + k * card {n. n \<le> limit \<and> prime_number n}, ip') \<and>
    length ip' = length ip \<and> (0 < k \<longrightarrow> (\<forall>n \<le> limit. ip' ! n = of_bool (prime_number n)))"
  using assms
proof (induction k arbitrary: ip tp)
  case (Suc k)
  let ?c = "card {n. n \<le> limit \<and> prime_number n}"
  obtain ip1 where s: "sieve ip limit = Ret (?c, ip1)" "length ip1 = length ip"
    "\<forall>n \<le> limit. ip1 ! n = of_bool (prime_number n)" using sieve_primes Suc.prems by metis
  have c: "?c \<le> limit" by (rule card_primes_le)
  then have b: "tp + ?c < 2 ^ 31" "(tp + ?c) + k * limit < 2 ^ 31" using Suc.prems(4) by simp_all
  obtain ip2 where t: "sieve_passes k limit ip1 (tp + ?c) = Ret ((tp + ?c) + k * ?c, ip2)" "length ip2 = length ip1"
    "0 < k \<longrightarrow> (\<forall>n \<le> limit. ip2 ! n = of_bool (prime_number n))"
    using Suc.IH [of ip1 "tp + ?c"] Suc.prems s(2) b(2) by auto
  have "ip2 = ip1" if "k = 0" using t(1) that by simp
  then show ?case using s t b(1) by (cases k) (simp_all add: algebra_simps)
qed simp

definition vm_state_ok :: "vm_cpu_overhead_state_t \<Rightarrow> bool" where
  "vm_state_ok s \<longleftrightarrow> length (vm_is_prime s) = SIEVE_LIMIT + 1"

lemma vm_warmup_ok:
  assumes "vm_state_ok s"
  shows "\<exists>s'. vm_cpu_overhead_warmup s = Ret (0, s') \<and> vm_state_ok s'"
proof -
  obtain ip where "sieve (vm_is_prime s) (SIEVE_LIMIT div 4) = Ret (card {n. n \<le> SIEVE_LIMIT div 4 \<and> prime_number n}, ip)"
    "length ip = length (vm_is_prime s)"
    using sieve_primes [of "SIEVE_LIMIT div 4" "vm_is_prime s"] assms by (auto simp: vm_state_ok_def SIEVE_LIMIT_def)
  then show ?thesis using assms by (simp add: vm_cpu_overhead_warmup_def vm_state_ok_def)
qed

lemma vm_measure_ok:
  assumes "vm_state_ok s"
  shows "\<exists>s' m w'. vm_cpu_overhead_measure s w = Ret (0, s', m, SIEVE_PASSES * card {n. n \<le> SIEVE_LIMIT \<and> prime_number n}, w') \<and>
    vm_state_ok s' \<and> held w' = held w \<and> (\<forall>n \<le> SIEVE_LIMIT. vm_is_prime s' ! n = of_bool (prime_number n))"
proof -
  have "SIEVE_LIMIT < length (vm_is_prime s)" "1 \<le> SIEVE_LIMIT" "SIEVE_LIMIT < 2 ^ 30" "0 + SIEVE_PASSES * SIEVE_LIMIT < 2 ^ 31"
    using assms by (simp_all add: vm_state_ok_def SIEVE_LIMIT_def SIEVE_PASSES_def)
  from sieve_passes_result [OF this] obtain ip where
    "sieve_passes SIEVE_PASSES SIEVE_LIMIT (vm_is_prime s) 0 = Ret (SIEVE_PASSES * card {n. n \<le> SIEVE_LIMIT \<and> prime_number n}, ip)"
    "length ip = length (vm_is_prime s)" "\<forall>n \<le> SIEVE_LIMIT. ip ! n = of_bool (prime_number n)"
    by (auto simp: SIEVE_PASSES_def)
  then show ?thesis using assms by (simp add: vm_cpu_overhead_measure_def Let_def case_prod_beta vm_state_ok_def)
qed

interpretation vm_cpu: bench_tidy "vm_cpu_overhead_ops junk" "pointed vm_state_ok" "\<lambda>_. 2" for junk
  unfolding vm_cpu_overhead_ops_def
proof (rule pointed_tidy)
  fix w r st w' assume "vm_cpu_overhead_init junk w = (r, st, w')"
  then show "held w' = (if r = 0 then owning 2 (held w) else held w) \<and> (r = 0 \<longrightarrow> pointed vm_state_ok st)"
    by (auto simp: vm_cpu_overhead_init_def Let_def case_prod_beta held_own pointed_def vm_state_ok_def split: if_splits)
next
  fix s r s' assume "vm_state_ok s" "the_ret (vm_cpu_overhead_warmup s) = (r, s')"
  then show "vm_state_ok s'" using vm_warmup_ok [of s] by auto
next
  fix s w r s' m w' assume "vm_state_ok s"
    "(let (r, s, m, tp, w) = the_ret (vm_cpu_overhead_measure s w) in (r, s, m, w)) = (r, s', m, w')"
  then show "vm_state_ok s' \<and> held w' = held w" using vm_measure_ok [of s w] by auto
next
  fix w r w' assume "vm_cpu_overhead_cleanup w = (r, w')"
  then show "held w' = owning (- 2) (held w)" by (auto simp: vm_cpu_overhead_cleanup_def held_own)
qed

text \<open>
  C22. The sieve: on any array of more than \<open>limit\<close> flags, for a limit below \<open>2 ^ 30\<close>, every index is inside the array and
  below \<^verbatim>\<open>INT_MAX\<close>, the flags up to the limit become 1 exactly at the prime numbers, and the number returned is how
  many prime numbers there are up to the limit.
\<close>

theorem sieve_correct:
  assumes "limit < length ip" "1 \<le> limit" "limit < 2 ^ 30"
  shows "\<exists>ip'. sieve ip limit = Ret (card {n. n \<le> limit \<and> prime_number n}, ip') \<and> length ip' = length ip \<and>
    (\<forall>n \<le> limit. ip' ! n = of_bool (prime_number n))"
  by (rule sieve_primes [OF assms])

lemma sieve_correct_witness:
  "\<exists>c ip'. sieve (replicate 20 7) 15 = Ret (c, ip') \<and> ip' ! 2 = 1 \<and> ip' ! 15 = 0"
proof -
  have "d = 1 \<or> d = 2" if "d dvd 2" for d :: nat
    using dvd_imp_le [OF that] that by (cases d) auto
  then have "prime_number 2" by (simp add: prime_number_def)
  moreover have "\<not> prime_number 15"
  proof
    assume "prime_number 15"
    moreover have "(3 :: nat) dvd 15" by simp
    ultimately have "(3 :: nat) = 1 \<or> (3 :: nat) = 15" unfolding prime_number_def by blast
    then show False by simp
  qed
  ultimately show ?thesis using sieve_correct [of 15 "replicate 20 7"] by auto
qed

end
