(* ===== verification/FileBench.thy ===== *)
theory FileBench
  imports Env CStr
begin

text \<open>
  The benchmarks over files, \<^verbatim>\<open>src/benchmarks/io/fs_copy.c\<close>, \<^verbatim>\<open>fs_seq_rw.c\<close>, \<^verbatim>\<open>fs_rand_rw.c\<close>, \<^verbatim>\<open>fs_uring.c\<close>, \<^verbatim>\<open>fs_fsync.c\<close> and
  \<^verbatim>\<open>fs_meta.c\<close>. The files are a map from paths to bytes, an argument beside the world. What the kernel decides is the
  parameter \<open>env\<close>: which paths can be opened, how much a read or a write at a position moves (a read may be short, a
  write to a full disk takes less or nothing) and the alignment it asks for with \<^verbatim>\<open>O_DIRECT\<close>.
\<close>

subsection \<open>Files\<close>

type_synonym bytes = "8 word list"

type_synonym files = "string \<rightharpoonup> bytes"

record fs_env =
  fe_opens :: "string \<Rightarrow> bool"
  fe_reads :: "nat \<Rightarrow> nat"
  fe_writes :: "nat \<Rightarrow> nat"
  fe_direct :: bool
  fe_align :: nat

definition can_read :: "fs_env \<Rightarrow> string \<Rightarrow> files \<Rightarrow> bool" where
  "can_read env path fs \<longleftrightarrow> fe_opens env path \<and> fs path \<noteq> None"

text \<open>\<^verbatim>\<open>open(path, O_WRONLY | O_CREAT | O_TRUNC, 0644)\<close>\<close>

definition f_creat :: "fs_env \<Rightarrow> string \<Rightarrow> files \<Rightarrow> bool \<times> files" where
  "f_creat env path fs = (if fe_opens env path then (True, fs(path \<mapsto> [])) else (False, fs))"

text \<open>A read of a regular file gives at least one byte before its end; a write appends what it takes.\<close>

definition f_read :: "fs_env \<Rightarrow> bytes \<Rightarrow> nat \<Rightarrow> nat \<Rightarrow> bytes" where
  "f_read env content pos n = take (min n (max 1 (fe_reads env pos))) (drop pos content)"

definition f_write :: "fs_env \<Rightarrow> bytes \<Rightarrow> bytes \<Rightarrow> bytes" where
  "f_write env content bs = content @ take (fe_writes env (length content)) bs"

definition writes_all :: "fs_env \<Rightarrow> bool" where
  "writes_all env \<longleftrightarrow> (\<forall>pos. 2 ^ 20 \<le> fe_writes env pos)"

lemma f_write_all: "writes_all env \<Longrightarrow> length bs \<le> 2 ^ 20 \<Longrightarrow> f_write env content bs = content @ bs"
  unfolding writes_all_def f_write_def by (metis order_trans take_all)

text \<open>\<open>k\<close> writes of the blocks \<open>block i\<close>.\<close>

definition write_blocks :: "fs_env \<Rightarrow> (nat \<Rightarrow> bytes) \<Rightarrow> nat \<Rightarrow> bytes \<Rightarrow> bytes" where
  "write_blocks env block k content = foldl (\<lambda>content i. f_write env content (block i)) content [0..<k]"

lemma write_blocks_all:
  assumes "writes_all env" "\<And>i. length (block i) = n" "n \<le> 2 ^ 20"
  shows "length (write_blocks env block k content) = length content + k * n"
  unfolding write_blocks_def
proof (induction k)
  case (Suc k)
  then show ?case using f_write_all [OF assms(1), of "block k"] assms(2,3) by simp
qed simp

subsection \<open>fs-copy\<close>

definition COPY_FILE_SIZE :: nat where "COPY_FILE_SIZE = 16 * 1024 * 1024"

definition COPY_BUF_SIZE :: nat where "COPY_BUF_SIZE = 4096"

definition COPY_PASSES :: nat where "COPY_PASSES = 10"

definition copy_src :: string where "copy_src = ''/tmp/ssb_fscopy_src.bin''"

definition copy_dst :: string where "copy_dst = ''/tmp/ssb_fscopy_dst.bin''"

text \<open>\<open>rand() & 0xFF\<close>\<close>

fun rand_bytes :: "nat \<Rightarrow> world \<Rightarrow> bytes \<times> world" where
  "rand_bytes 0 w = ([], w)"
| "rand_bytes (Suc n) w = (let (r, w) = c_rand w; (bs, w) = rand_bytes n w in (word_of_nat r # bs, w))"

fun rand_file :: "fs_env \<Rightarrow> nat \<Rightarrow> bytes \<Rightarrow> world \<Rightarrow> bytes \<times> world" where
  "rand_file env 0 content w = (content, w)"
| "rand_file env (Suc k) content w =
     (let (bs, w) = rand_bytes COPY_BUF_SIZE w in rand_file env k (f_write env content bs) w)"

definition fs_copy_init :: "fs_env \<Rightarrow> files \<Rightarrow> world \<Rightarrow> int \<times> files \<times> world" where
  "fs_copy_init env fs w =
     (let (p, w) = c_malloc w in
      if \<not> p then (-1, fs, w)
      else let (a, w) = c_malloc w; (b, w) = c_malloc w; (c, w) = c_malloc w
        in if \<not> a \<or> \<not> b \<or> \<not> c then (-1, fs, c_free p (c_free c (c_free b (c_free a w))))
           else let (ok, fs) = f_creat env copy_src fs
             in if \<not> ok then (-1, fs, c_free p (c_free c (c_free b (c_free a w))))
                else let (content, w) = rand_file env (COPY_FILE_SIZE div COPY_BUF_SIZE) [] w
                  in (0, fs(copy_src \<mapsto> content), w))"

text \<open>\<open>while ((n = read(sfd, ...)) > 0) write(dfd, ...)\<close>, with the number of bytes read.\<close>

function copy_loop :: "fs_env \<Rightarrow> bytes \<Rightarrow> nat \<Rightarrow> bytes \<Rightarrow> nat \<Rightarrow> bytes \<times> nat" where
  "copy_loop env src pos dst copied =
     (let bs = f_read env src pos COPY_BUF_SIZE
      in if bs = [] then (dst, copied) else copy_loop env src (pos + length bs) (f_write env dst bs) (copied + length bs))"
  by pat_completeness auto
termination
  by (relation "measure (\<lambda>(env, src, pos, dst, copied). length src - pos)") (auto simp: f_read_def)

declare copy_loop.simps [simp del]

text \<open>One pass: the destination is truncated even when the source cannot be opened.\<close>

definition copy_pass :: "fs_env \<Rightarrow> files \<times> nat \<Rightarrow> files \<times> nat" where
  "copy_pass env s =
     (let (fs, copied) = s; sfd = can_read env copy_src fs; (dfd, fs) = f_creat env copy_dst fs
      in if \<not> sfd \<or> \<not> dfd then (fs, copied)
         else let (dst, copied) = copy_loop env (the (fs copy_src)) 0 (the (fs copy_dst)) copied
           in (fs(copy_dst \<mapsto> dst), copied))"

definition fs_copy_warmup :: "fs_env \<Rightarrow> files \<Rightarrow> int \<times> files" where
  "fs_copy_warmup env fs = (0, fst (copy_pass env (fs, 0)))"

definition fs_copy_measure :: "fs_env \<Rightarrow> files \<Rightarrow> world \<Rightarrow> int \<times> files \<times> measurement_t \<times> world" where
  "fs_copy_measure env fs w =
     (let (t0, w) = clock_monotonic w;
          (fs, total_copied) = (copy_pass env ^^ COPY_PASSES) (fs, 0);
          (t1, w) = clock_monotonic w; el = elapsed t0 t1
      in (0, fs, plain_result (rate (real total_copied) el) el, w))"

definition fs_copy_cleanup :: "files \<Rightarrow> world \<Rightarrow> int \<times> files \<times> world" where
  "fs_copy_cleanup fs w = (0, fs(copy_src := None, copy_dst := None), c_free True (c_free True (c_free True (c_free True w))))"

lemma f_read_nonempty: "pos < length src \<Longrightarrow> 0 < n \<Longrightarrow> f_read env src pos n \<noteq> []"
  by (simp add: f_read_def)

lemma f_read_length:
  "length (f_read env src pos n) \<le> n" "pos \<le> length src \<Longrightarrow> pos + length (f_read env src pos n) \<le> length src"
  by (auto simp: f_read_def)

lemma take_then_drop: "take m ys @ drop (length (take m ys)) ys = ys"
  by (cases "m \<le> length ys") simp_all

lemma f_read_rest: "f_read env src pos n @ drop (pos + length (f_read env src pos n)) src = drop pos src"
  using take_then_drop [of _ "drop pos src"] unfolding f_read_def by (simp only: drop_drop add.commute)

text \<open>Every byte is read once and counted once, whatever the lengths of the reads; all are written when writes take all.\<close>

lemma copy_loop_copies:
  assumes "pos \<le> length src"
  shows "snd (copy_loop env src pos dst copied) = copied + (length src - pos) \<and>
    (writes_all env \<longrightarrow> fst (copy_loop env src pos dst copied) = dst @ drop pos src)"
  using assms
proof (induction env src pos dst copied rule: copy_loop.induct)
  case (1 env src pos dst copied)
  let ?bs = "f_read env src pos COPY_BUF_SIZE"
  show ?case
  proof (cases "?bs = []")
    case True
    then have "pos = length src" using f_read_nonempty [of pos src COPY_BUF_SIZE env] "1.prems" by (force simp: COPY_BUF_SIZE_def)
    then show ?thesis using True by (subst (1 2) copy_loop.simps) simp
  next
    case False
    have b: "pos + length ?bs \<le> length src" using f_read_length(2) [of pos src env COPY_BUF_SIZE] "1.prems" by simp
    have l: "length ?bs \<le> 2 ^ 20" using f_read_length(1) [of env src pos COPY_BUF_SIZE] by (simp add: COPY_BUF_SIZE_def)
    have "copy_loop env src pos dst copied =
        copy_loop env src (pos + length ?bs) (f_write env dst ?bs) (copied + length ?bs)"
      using False by (subst copy_loop.simps) (simp add: Let_def)
    then show ?thesis
      using "1.IH" [OF refl False] b f_write_all [OF _ l] f_read_rest [of env src pos COPY_BUF_SIZE] by simp
  qed
qed


lemma copy_loop_full_disk:
  assumes "\<And>p. fe_writes env p = 0"
  shows "fst (copy_loop env src pos dst copied) = dst"
  using assms
proof (induction env src pos dst copied rule: copy_loop.induct)
  case (1 env src pos dst copied)
  then show ?case by (subst copy_loop.simps) (simp add: Let_def f_write_def)
qed

lemma rand_bytes_held [simp]: "held (snd (rand_bytes n w)) = held w"
  by (induction n arbitrary: w) (simp_all add: case_prod_beta)

lemma rand_bytes_length [simp]: "length (fst (rand_bytes n w)) = n"
  by (induction n arbitrary: w) (simp_all add: case_prod_beta)

lemma rand_file_length:
  assumes "writes_all env"
  shows "length (fst (rand_file env k content w)) = length content + k * COPY_BUF_SIZE"
proof (induction k arbitrary: content w)
  case (Suc k)
  have "f_write env content (fst (rand_bytes COPY_BUF_SIZE w)) = content @ fst (rand_bytes COPY_BUF_SIZE w)"
    by (rule f_write_all [OF assms]) (simp add: COPY_BUF_SIZE_def)
  then show ?case by (simp add: Suc case_prod_beta)
qed simp

text \<open>What a pass leaves in the destination.\<close>

definition copied_ok :: "fs_env \<Rightarrow> bytes \<Rightarrow> files \<Rightarrow> bool" where
  "copied_ok env src fs \<longleftrightarrow> fs copy_src = Some src \<and>
     (\<exists>d. fs copy_dst = Some d \<and> (writes_all env \<longrightarrow> d = src) \<and> ((\<forall>p. fe_writes env p = 0) \<longrightarrow> d = []))"

lemma copy_paths: "copy_src \<noteq> copy_dst"
  by (simp add: copy_src_def copy_dst_def)

lemma copy_pass_ok:
  assumes "fe_opens env copy_src" "fe_opens env copy_dst" "fs copy_src = Some src"
  shows "copied_ok env src (fst (copy_pass env (fs, n))) \<and> snd (copy_pass env (fs, n)) = n + length src"
  using assms copy_paths copy_loop_copies [of 0 src env "[]" n] copy_loop_full_disk [of env src 0 "[]" n]
  by (auto simp: copy_pass_def f_creat_def can_read_def copied_ok_def case_prod_beta Let_def)

lemma copy_passes_ok:
  assumes "fe_opens env copy_src" "fe_opens env copy_dst" "fs copy_src = Some src"
  shows "snd ((copy_pass env ^^ k) (fs, 0)) = k * length src \<and> fst ((copy_pass env ^^ k) (fs, 0)) copy_src = Some src \<and>
    (0 < k \<longrightarrow> copied_ok env src (fst ((copy_pass env ^^ k) (fs, 0))))"
proof (induction k)
  case (Suc k)
  obtain fs1 n where p: "(copy_pass env ^^ k) (fs, 0) = (fs1, n)" by (metis prod.collapse)
  have "fs1 copy_src = Some src" "n = k * length src" using Suc p by simp_all
  then show ?case using copy_pass_ok [OF assms(1,2), of fs1 src n] p by (auto simp: copied_ok_def)
qed (simp add: assms(3))

text \<open>
  C23. The benchmark fs-copy copies: with files that can be opened and whatever the lengths of the reads, the rate counts every byte
  of the source file ten times and leaves the source as it is; when every write takes its bytes, the destination equals the source and
  the source has its 16 MB. The writes are not looked at: on a full disk the same rate is reported for an empty copy.
\<close>

theorem fs_copy_copies:
  assumes "fs_copy_init env fs w = (0, fs1, w1)" "fe_opens env' copy_src" "fe_opens env' copy_dst"
    "fs_copy_measure env' fs1 v = (ret, fs2, m, v')"
  shows "\<exists>src d. fs1 copy_src = Some src \<and> fs2 copy_src = Some src \<and> fs2 copy_dst = Some d \<and> ret = 0 \<and>
    m = plain_result (rate (real (10 * length src)) (wall_seconds m)) (wall_seconds m) \<and>
    (writes_all env \<longrightarrow> length src = 16 * 1024 * 1024) \<and> (writes_all env' \<longrightarrow> d = src) \<and>
    ((\<forall>p. fe_writes env' p = 0) \<longrightarrow> d = [])"
proof -
  obtain w0 where s: "fs1 copy_src = Some (fst (rand_file env (COPY_FILE_SIZE div COPY_BUF_SIZE) [] w0))"
    using assms(1) by (auto simp: fs_copy_init_def Let_def case_prod_beta split: if_splits)
  define src where "src = fst (rand_file env (COPY_FILE_SIZE div COPY_BUF_SIZE) [] w0)"
  have len: "writes_all env \<longrightarrow> length src = 16 * 1024 * 1024"
    unfolding src_def by (simp add: rand_file_length COPY_FILE_SIZE_def COPY_BUF_SIZE_def)
  note p = copy_passes_ok [where fs = fs1 and src = src and k = COPY_PASSES, OF assms(2,3) s [folded src_def]]
  have m: "ret = 0" "fs2 = fst ((copy_pass env' ^^ COPY_PASSES) (fs1, 0))"
    "m = plain_result (rate (real (snd ((copy_pass env' ^^ COPY_PASSES) (fs1, 0)))) (wall_seconds m)) (wall_seconds m)"
    using assms(4) by (auto simp: fs_copy_measure_def Let_def case_prod_beta plain_result_def)
  have ten: "COPY_PASSES = 10" by (simp add: COPY_PASSES_def)
  show ?thesis using p m s len unfolding copied_ok_def src_def [symmetric] ten by auto
qed


text \<open>A kernel that opens and writes everything, reads 512 bytes at a time and asks direct reads for that alignment.\<close>

definition direct_env :: fs_env where
  "direct_env = \<lparr>fe_opens = (\<lambda>_. True), fe_reads = (\<lambda>_. 512), fe_writes = (\<lambda>_. 2 ^ 20), fe_direct = True, fe_align = 512\<rparr>"

lemma fs_copy_copies_witness:
  "\<exists>fs1 w1 fs2 m v'. fs_copy_init direct_env Map.empty quiet_world = (0, fs1, w1) \<and>
     fs_copy_measure direct_env fs1 w1 = (0, fs2, m, v') \<and> fs2 copy_dst = fs1 copy_src \<and> fs1 copy_src \<noteq> None"
proof -
  obtain fs1 w1 where i: "fs_copy_init direct_env Map.empty quiet_world = (0, fs1, w1)"
    by (simp add: fs_copy_init_def f_creat_def direct_env_def Let_def case_prod_beta)
  obtain ret fs2 m v' where m: "fs_copy_measure direct_env fs1 w1 = (ret, fs2, m, v')" by (metis prod.collapse)
  have "fe_opens direct_env p" "writes_all direct_env" for p by (simp_all add: direct_env_def writes_all_def)
  then show ?thesis using fs_copy_copies [OF i _ _ m] i m by auto
qed

subsection \<open>fs-seq-rw\<close>

definition SEQ_FILE_SIZE :: nat where "SEQ_FILE_SIZE = 128 * 1024 * 1024"

definition SEQ_BLOCK_SIZE :: nat where "SEQ_BLOCK_SIZE = 64 * 1024"

definition seq_path :: string where "seq_path = ''/tmp/ssb_seq_rw.dat''"

text \<open>A file that cannot be created is not an error.\<close>

definition create_file :: "fs_env \<Rightarrow> string \<Rightarrow> (nat \<Rightarrow> bytes) \<Rightarrow> nat \<Rightarrow> files \<Rightarrow> files" where
  "create_file env path block k fs =
     (let (ok, fs) = f_creat env path fs in if ok then fs(path \<mapsto> write_blocks env block k []) else fs)"

text \<open>\<open>aligned\<close> is whether \<^verbatim>\<open>posix_memalign\<close> succeeds.\<close>

definition c_memalign :: "bool \<Rightarrow> world \<Rightarrow> world" where
  "c_memalign aligned w = (if aligned then w\<lparr>w_live := w_live w + 1\<rparr> else w)"

lemma memory_left_memalign [simp]: "memory_left (c_memalign aligned w) \<longleftrightarrow> memory_left w"
  by (simp add: c_memalign_def memory_left_def)

definition fs_seq_rw_init :: "fs_env \<Rightarrow> bool \<Rightarrow> files \<Rightarrow> world \<Rightarrow> int \<times> files \<times> world" where
  "fs_seq_rw_init env aligned fs w =
     (let (p, w) = c_malloc w in
      if \<not> p then (-1, fs, w)
      else let (a, w) = c_malloc w; w = c_memalign aligned w; (c, w) = c_malloc w
        in if \<not> a \<or> \<not> aligned \<or> \<not> c then (-1, fs, c_free p (c_free c (c_free aligned (c_free a w))))
           else (0, create_file env seq_path (\<lambda>_. replicate SEQ_BLOCK_SIZE 65) (SEQ_FILE_SIZE div SEQ_BLOCK_SIZE) fs, w))"

text \<open>\<open>while ((n = read(fd, ...)) > 0) total_read += n\<close>\<close>

function read_loop :: "fs_env \<Rightarrow> bytes \<Rightarrow> nat \<Rightarrow> nat \<Rightarrow> nat" where
  "read_loop env content pos so_far =
     (let bs = f_read env content pos SEQ_BLOCK_SIZE
      in if bs = [] then so_far else read_loop env content (pos + length bs) (so_far + length bs))"
  by pat_completeness auto
termination
  by (relation "measure (\<lambda>(env, content, pos, so_far). length content - pos)") (auto simp: f_read_def)

declare read_loop.simps [simp del]

text \<open>With \<^verbatim>\<open>O_DIRECT\<close> or without, the first that opens; a buffer, sizes and positions that are multiples of 4096 satisfy the
  alignment.\<close>

definition fs_seq_rw_measure :: "fs_env \<Rightarrow> files \<Rightarrow> world \<Rightarrow> int \<times> measurement_t \<times> world" where
  "fs_seq_rw_measure env fs w =
     (let (t0, w) = clock_monotonic w;
          total_read = (if can_read env seq_path fs then read_loop env (the (fs seq_path)) 0 0 else 0);
          (t1, w) = clock_monotonic w; el = elapsed t0 t1
      in (0, plain_result (rate (real total_read) el) el, w))"

text \<open>The warm-up reads one block, with the cache; the second component is what it got.\<close>

definition fs_seq_rw_warmup :: "fs_env \<Rightarrow> files \<Rightarrow> int \<times> bytes" where
  "fs_seq_rw_warmup env fs = (0, if can_read env seq_path fs then f_read env (the (fs seq_path)) 0 SEQ_BLOCK_SIZE else [])"

definition fs_seq_rw_cleanup :: "files \<Rightarrow> world \<Rightarrow> int \<times> files \<times> world" where
  "fs_seq_rw_cleanup fs w = (0, fs(seq_path := None), c_free True (c_free True (c_free True (c_free True w))))"

lemma read_loop_all: "pos \<le> length content \<Longrightarrow> read_loop env content pos so_far = so_far + (length content - pos)"
proof (induction env content pos so_far rule: read_loop.induct)
  case (1 env content pos so_far)
  let ?bs = "f_read env content pos SEQ_BLOCK_SIZE"
  show ?case
  proof (cases "?bs = []")
    case True
    then have "pos = length content"
      using f_read_nonempty [of pos content SEQ_BLOCK_SIZE env] "1.prems" by (force simp: SEQ_BLOCK_SIZE_def)
    then show ?thesis using True by (subst read_loop.simps) simp
  next
    case False
    have b: "pos + length ?bs \<le> length content" using f_read_length(2) [of pos content env SEQ_BLOCK_SIZE] "1.prems" by simp
    then show ?thesis using "1.IH" [OF refl False b] False by (subst read_loop.simps) (simp add: Let_def)
  qed
qed

lemma create_file_length:
  assumes "writes_all env" "fe_opens env path" "\<And>i. length (block i) = n" "n \<le> 2 ^ 20"
  shows "\<exists>content. create_file env path block k fs path = Some content \<and> length content = k * n"
  using write_blocks_all [where block = block and k = k and content = "[]", OF assms(1,3,4)] assms(2) by (simp add: create_file_def f_creat_def)

subsection \<open>fs-rand-rw and fs-uring\<close>

definition RAND_FILE_SIZE :: nat where "RAND_FILE_SIZE = 64 * 1024 * 1024"

definition RAND_BLOCK_SIZE :: nat where "RAND_BLOCK_SIZE = 4096"

definition NUM_OPS :: nat where "NUM_OPS = 50000"

definition NUM_IOS :: nat where "NUM_IOS = 20000"

definition rand_path :: string where "rand_path = ''/tmp/ssb_rand_rw.dat''"

definition uring_path :: string where "uring_path = ''/tmp/ssb_uring.dat''"

text \<open>The state: where the buffer is and the offsets.\<close>

record rand_rw_state_t =
  rr_buffer :: nat
  rr_offsets :: "int list"

text \<open>\<open>(rand() % max_blocks) * BLOCK_SIZE\<close> as \<^verbatim>\<open>int\<close>s.\<close>

fun rand_offsets :: "nat \<Rightarrow> nat \<Rightarrow> world \<Rightarrow> int list \<times> world" where
  "rand_offsets 0 max_blocks w = ([], w)"
| "rand_offsets (Suc n) max_blocks w =
     (let (r, w) = c_rand w; (os, w) = rand_offsets n max_blocks w
      in (c_int (int (r mod max_blocks) * int RAND_BLOCK_SIZE) # os, w))"

text \<open>\<open>addr\<close> is the address \<^verbatim>\<open>posix_memalign\<close> returns, \<open>None\<close> when it fails; the block to be written is allocated without a test.\<close>

definition fs_rand_rw_init ::
    "fs_env \<Rightarrow> nat option \<Rightarrow> files \<Rightarrow> world \<Rightarrow> (int \<times> rand_rw_state_t option \<times> files \<times> world) outcome" where
  "fs_rand_rw_init env addr fs w =
     (let (p, w) = c_malloc w in
      if \<not> p then Ret (-1, None, fs, w)
      else let (a, w) = c_malloc w; w = c_memalign (addr \<noteq> None) w; (c, w) = c_malloc w
        in if \<not> a \<or> addr = None \<or> \<not> c then Ret (-1, None, fs, c_free p (c_free c (c_free (addr \<noteq> None) (c_free a w))))
           else let (tmp, w) = (if fe_opens env rand_path then c_malloc w else (True, w))
             in if \<not> tmp then Undef NullDeref
                else let w = c_free (fe_opens env rand_path) w;
                         fs = create_file env rand_path (\<lambda>_. replicate RAND_BLOCK_SIZE 66) (RAND_FILE_SIZE div RAND_BLOCK_SIZE) fs;
                         (os, w) = rand_offsets NUM_OPS (RAND_FILE_SIZE div RAND_BLOCK_SIZE) w
                  in Ret (0, Some \<lparr>rr_buffer = the addr, rr_offsets = os\<rparr>, fs, w))"

text \<open>The same with a buffer from \<^verbatim>\<open>malloc\<close>, at the address \<open>addr\<close>.\<close>

definition fs_uring_init ::
    "fs_env \<Rightarrow> nat \<Rightarrow> files \<Rightarrow> world \<Rightarrow> (int \<times> rand_rw_state_t option \<times> files \<times> world) outcome" where
  "fs_uring_init env addr fs w =
     (let (p, w) = c_malloc w in
      if \<not> p then Ret (-1, None, fs, w)
      else let (a, w) = c_malloc w; (b, w) = c_malloc w; (c, w) = c_malloc w
        in if \<not> a \<or> \<not> b \<or> \<not> c then Ret (-1, None, fs, c_free p (c_free c (c_free b (c_free a w))))
           else let (tmp, w) = (if fe_opens env uring_path then c_malloc w else (True, w))
             in if \<not> tmp then Undef NullDeref
                else let w = c_free (fe_opens env uring_path) w;
                         fs = create_file env uring_path (\<lambda>_. replicate RAND_BLOCK_SIZE 85) (RAND_FILE_SIZE div RAND_BLOCK_SIZE) fs;
                         (os, w) = rand_offsets NUM_IOS (RAND_FILE_SIZE div RAND_BLOCK_SIZE) w
                  in Ret (0, Some \<lparr>rr_buffer = addr, rr_offsets = os\<rparr>, fs, w))"

text \<open>\<^verbatim>\<open>pread\<close>: with \<^verbatim>\<open>O_DIRECT\<close> the buffer, the offset and the length must be multiples of \<open>fe_align\<close>, or the
  call fails.\<close>

definition f_pread :: "fs_env \<Rightarrow> bool \<Rightarrow> nat \<Rightarrow> bytes \<Rightarrow> nat \<Rightarrow> int \<Rightarrow> int" where
  "f_pread env direct addr content n off =
     (if off < 0 \<or> direct \<and> \<not> (fe_align env dvd addr \<and> int (fe_align env) dvd off \<and> fe_align env dvd n) then -1
      else int (length (f_read env content (nat off) n)))"

text \<open>The measurement of both: \<open>total_ops\<close> counts the reads that return something; opening with \<^verbatim>\<open>O_DIRECT\<close> is tried first.\<close>

definition pread_ops :: "fs_env \<Rightarrow> string \<Rightarrow> rand_rw_state_t \<Rightarrow> files \<Rightarrow> nat" where
  "pread_ops env path s fs =
     foldl (\<lambda>ops off. if f_pread env (fe_direct env) (rr_buffer s) (the (fs path)) RAND_BLOCK_SIZE off > 0 then ops + 1 else ops)
       0 (rr_offsets s)"

definition fs_rand_rw_measure ::
    "fs_env \<Rightarrow> measurement_t \<Rightarrow> rand_rw_state_t \<Rightarrow> files \<Rightarrow> world \<Rightarrow> int \<times> measurement_t \<times> world" where
  "fs_rand_rw_measure env stale s fs w =
     (if \<not> can_read env rand_path fs then (-1, stale, w)
      else let (t0, w) = clock_monotonic w; total_ops = pread_ops env rand_path s fs; (t1, w) = clock_monotonic w;
               el = elapsed t0 t1
           in (0, plain_result (rate (real total_ops) el) el, w))"

definition fs_uring_measure ::
    "fs_env \<Rightarrow> measurement_t \<Rightarrow> rand_rw_state_t \<Rightarrow> files \<Rightarrow> world \<Rightarrow> int \<times> measurement_t \<times> world" where
  "fs_uring_measure env stale s fs w =
     (if \<not> can_read env uring_path fs then (-1, stale, w)
      else let (t0, w) = clock_monotonic w; total_ops = pread_ops env uring_path s fs; (t1, w) = clock_monotonic w;
               el = elapsed t0 t1
           in (0, plain_result (rate (real total_ops) el) el, w))"

text \<open>The warm-ups read the first 100 offsets, without \<^verbatim>\<open>O_DIRECT\<close>; the second component is what each call returned.\<close>

definition warm_preads :: "fs_env \<Rightarrow> string \<Rightarrow> rand_rw_state_t \<Rightarrow> files \<Rightarrow> int list" where
  "warm_preads env path s fs =
     (if can_read env path fs
      then map (f_pread env False (rr_buffer s) (the (fs path)) RAND_BLOCK_SIZE) (take 100 (rr_offsets s)) else [])"

definition fs_rand_rw_warmup :: "fs_env \<Rightarrow> rand_rw_state_t \<Rightarrow> files \<Rightarrow> int \<times> int list" where
  "fs_rand_rw_warmup env s fs = (0, warm_preads env rand_path s fs)"

definition fs_uring_warmup :: "fs_env \<Rightarrow> rand_rw_state_t \<Rightarrow> files \<Rightarrow> int \<times> int list" where
  "fs_uring_warmup env s fs = (0, warm_preads env uring_path s fs)"

definition fs_rand_rw_cleanup :: "files \<Rightarrow> world \<Rightarrow> int \<times> files \<times> world" where
  "fs_rand_rw_cleanup fs w = (0, fs(rand_path := None), c_free True (c_free True (c_free True (c_free True w))))"

definition fs_uring_cleanup :: "files \<Rightarrow> world \<Rightarrow> int \<times> files \<times> world" where
  "fs_uring_cleanup fs w = (0, fs(uring_path := None), c_free True (c_free True (c_free True (c_free True w))))"

text \<open>Every offset is that of a block of the file.\<close>

lemma c_int_nat: "n < 2 ^ 31 \<Longrightarrow> c_int (int n) = int n"
  by (rule c_int_id) simp_all

lemma rand_offsets_facts:
  assumes "0 < m" "m * RAND_BLOCK_SIZE < 2 ^ 31"
  shows "length (fst (rand_offsets n m w)) = n \<and>
    (\<forall>off \<in> set (fst (rand_offsets n m w)). \<exists>b < m. off = int (b * RAND_BLOCK_SIZE))"
proof (induction n arbitrary: w)
  case (Suc n)
  let ?b = "fst (c_rand w) mod m"
  have b: "?b < m" using assms(1) by simp
  then have "?b * RAND_BLOCK_SIZE < 2 ^ 31" using assms(2) by (meson less_imp_le_nat mult_le_mono1 order_le_less_trans)
  from c_int_nat [OF this] have "c_int (int ?b * int RAND_BLOCK_SIZE) = int (?b * RAND_BLOCK_SIZE)" by simp
  then show ?case using Suc b by (auto simp: case_prod_beta)
qed simp

text \<open>All reads succeed, or with a buffer that is not aligned none.\<close>

lemma count_if: "foldl (\<lambda>k x. if P x then k + 1 else k) n xs = n + length (filter P xs)"
  by (induction xs arbitrary: n) simp_all

lemma pread_ops_value:
  assumes offs: "\<forall>off \<in> set (rr_offsets s). \<exists>b. off = int (b * RAND_BLOCK_SIZE) \<and> b * RAND_BLOCK_SIZE < length (the (fs path))"
    and "fe_align env dvd RAND_BLOCK_SIZE"
  shows "pread_ops env path s fs =
    (if fe_direct env \<and> \<not> fe_align env dvd rr_buffer s then 0 else length (rr_offsets s))"
proof -
  have "f_pread env (fe_direct env) (rr_buffer s) (the (fs path)) RAND_BLOCK_SIZE off > 0 \<longleftrightarrow>
      \<not> (fe_direct env \<and> \<not> fe_align env dvd rr_buffer s)" if off: "off \<in> set (rr_offsets s)" for off
  proof -
    obtain b where b: "off = int (b * RAND_BLOCK_SIZE)" "b * RAND_BLOCK_SIZE < length (the (fs path))"
      using offs off by blast
    have "int (fe_align env) dvd off" using assms(2) b(1) by (metis dvd_mult int_dvd_int_iff)
    moreover have "f_read env (the (fs path)) (nat off) RAND_BLOCK_SIZE \<noteq> []"
      using b by (intro f_read_nonempty) (simp_all add: RAND_BLOCK_SIZE_def)
    moreover have "0 \<le> off" using b(1) by (metis of_nat_0_le_iff)
    ultimately show ?thesis using assms(2) by (auto simp: f_pread_def)
  qed
  then show ?thesis unfolding pread_ops_def count_if by (auto simp: filter_id_conv filter_empty_conv)
qed


lemma rand_file_blocks:
  assumes "off = int (b * RAND_BLOCK_SIZE)" "b < RAND_FILE_SIZE div RAND_BLOCK_SIZE"
    "length content = RAND_FILE_SIZE div RAND_BLOCK_SIZE * RAND_BLOCK_SIZE"
  shows "\<exists>b. off = int (b * RAND_BLOCK_SIZE) \<and> b * RAND_BLOCK_SIZE < length content"
  using assms by (intro exI [of _ b]) (simp add: RAND_BLOCK_SIZE_def)

lemma created_reads:
  assumes "writes_all env" "fe_opens env path" "fe_align env dvd 4096"
    "fs1 = create_file env path (\<lambda>_. replicate RAND_BLOCK_SIZE x) (RAND_FILE_SIZE div RAND_BLOCK_SIZE) fs"
    "rr_offsets s = fst (rand_offsets n (RAND_FILE_SIZE div RAND_BLOCK_SIZE) w)"
  shows "can_read env path fs1"
    "pread_ops env path s fs1 = (if fe_direct env \<and> \<not> fe_align env dvd rr_buffer s then 0 else n)"
proof -
  let ?m = "RAND_FILE_SIZE div RAND_BLOCK_SIZE"
  obtain content where c: "fs1 path = Some content" "length content = ?m * RAND_BLOCK_SIZE"
    using create_file_length [OF assms(1,2), where block = "\<lambda>_. replicate RAND_BLOCK_SIZE x" and n = RAND_BLOCK_SIZE] assms(4)
    by (auto simp: RAND_BLOCK_SIZE_def)
  then show "can_read env path fs1" using assms(2) by (simp add: can_read_def)
  have "0 < ?m" "?m * RAND_BLOCK_SIZE < 2 ^ 31" by (simp_all add: RAND_FILE_SIZE_def RAND_BLOCK_SIZE_def)
  note f = rand_offsets_facts [OF this, of n w, folded assms(5)]
  have "\<forall>off \<in> set (rr_offsets s). \<exists>b. off = int (b * RAND_BLOCK_SIZE) \<and> b * RAND_BLOCK_SIZE < length (the (fs1 path))"
    using f rand_file_blocks [OF _ _ c(2)] c(1) by fastforce
  from pread_ops_value [where path = path and fs = fs1, OF this] assms(3) f show
    "pread_ops env path s fs1 = (if fe_direct env \<and> \<not> fe_align env dvd rr_buffer s then 0 else n)"
    by (simp add: RAND_BLOCK_SIZE_def)
qed

text \<open>
  The random reads of fs-rand-rw and fs-uring, on files written in full and a file system whose direct reads ask for an
  alignment that divides 4096: every offset is inside the file, and fs-rand-rw, whose buffer is aligned, counts all its
  50000 reads. fs-uring counts its 20000 reads only when direct reads are not available or \<^verbatim>\<open>malloc\<close> happens to return an aligned
  buffer; otherwise every read fails and it reports the rate 0 as a success.
\<close>

theorem direct_reads:
  assumes "writes_all env" "fe_opens env rand_path" "fe_opens env uring_path" "fe_align env dvd 4096"
    "fs_rand_rw_init env (Some (4096 * page)) fs w = Ret (0, Some s, fs1, w1)"
    "fs_uring_init env addr fs' u = Ret (0, Some t, fs2, u1)"
  shows "(\<exists>sec v'. fs_rand_rw_measure env stale s fs1 v = (0, plain_result (rate 50000 sec) sec, v')) \<and>
    (\<exists>sec v'. fs_uring_measure env stale t fs2 v =
       (0, plain_result (rate (if fe_direct env \<and> \<not> fe_align env dvd addr then 0 else 20000) sec) sec, v'))"
proof -
  let ?m = "RAND_FILE_SIZE div RAND_BLOCK_SIZE"
  obtain w0 where s: "rr_buffer s = 4096 * page" "rr_offsets s = fst (rand_offsets NUM_OPS ?m w0)"
    "fs1 = create_file env rand_path (\<lambda>_. replicate RAND_BLOCK_SIZE 66) ?m fs"
    using assms(5) by (auto simp: fs_rand_rw_init_def Let_def case_prod_beta split: if_splits)
  obtain u0 where t: "rr_buffer t = addr" "rr_offsets t = fst (rand_offsets NUM_IOS ?m u0)"
    "fs2 = create_file env uring_path (\<lambda>_. replicate RAND_BLOCK_SIZE 85) ?m fs'"
    using assms(6) by (auto simp: fs_uring_init_def Let_def case_prod_beta split: if_splits)
  have "fe_align env dvd rr_buffer s" using assms(4) s(1) by simp
  then show ?thesis
    using created_reads [OF assms(1,2,4) s(3,2)] created_reads [OF assms(1,3,4) t(3,2)] t(1)
    by (auto simp: fs_rand_rw_measure_def fs_uring_measure_def case_prod_beta Let_def NUM_OPS_def NUM_IOS_def)
qed

lemma direct_reads_witness:
  "\<exists>s fs1 w1 t fs2 u1 sec v'. fs_rand_rw_init direct_env (Some 4096) Map.empty quiet_world = Ret (0, Some s, fs1, w1) \<and>
     fs_uring_init direct_env 16 Map.empty quiet_world = Ret (0, Some t, fs2, u1) \<and>
     fs_uring_measure direct_env stale t fs2 quiet_world = (0, plain_result (rate 0 sec) sec, v')"
proof -
  have e: "writes_all direct_env" "fe_opens direct_env rand_path" "fe_opens direct_env uring_path"
    "fe_align direct_env dvd 4096" "fe_direct direct_env \<and> \<not> fe_align direct_env dvd 16"
    by (simp_all add: direct_env_def writes_all_def)
  obtain s fs1 w1 where a: "fs_rand_rw_init direct_env (Some (4096 * 1)) Map.empty quiet_world = Ret (0, Some s, fs1, w1)"
    using e(2) by (simp add: fs_rand_rw_init_def Let_def case_prod_beta)
  obtain t fs2 u1 where b: "fs_uring_init direct_env 16 Map.empty quiet_world = Ret (0, Some t, fs2, u1)"
    using e(3) by (simp add: fs_uring_init_def Let_def case_prod_beta)
  show ?thesis using direct_reads [OF e(1-4) a b, of stale quiet_world] e(5) a b by auto
qed

subsection \<open>fs-fsync\<close>

definition FSYNC_SIZE :: nat where "FSYNC_SIZE = 128 * 1024"

definition NUM_FSYNCS :: nat where "NUM_FSYNCS = 5000"

definition fsync_path :: string where "fsync_path = ''/tmp/ssb_fsync.dat''"

text \<open>\<open>lseek(fd, 0, SEEK_SET)\<close> and a write: the first bytes are replaced.\<close>

definition f_rewrite :: "fs_env \<Rightarrow> bytes \<Rightarrow> bytes \<Rightarrow> bytes" where
  "f_rewrite env bs content = (let new = take (fe_writes env 0) bs in new @ drop (length new) content)"

definition fs_fsync_init :: "world \<Rightarrow> int \<times> bytes option \<times> world" where
  "fs_fsync_init w =
     (let (p, w) = c_malloc w in
      if \<not> p then (-1, None, w)
      else let (a, w) = c_malloc w; (b, w) = c_malloc w
        in if \<not> a \<or> \<not> b then (-1, None, c_free p (c_free b (c_free a w)))
           else (0, Some (replicate FSYNC_SIZE 70), w))"

definition fs_fsync_warmup :: "fs_env \<Rightarrow> bytes \<Rightarrow> files \<Rightarrow> int \<times> files" where
  "fs_fsync_warmup env buffer fs =
     (let (ok, fs) = f_creat env fsync_path fs
      in (0, if ok then fs(fsync_path \<mapsto> f_write env [] buffer) else fs))"

definition fs_fsync_measure ::
    "fs_env \<Rightarrow> measurement_t \<Rightarrow> bytes \<Rightarrow> files \<Rightarrow> world \<Rightarrow> int \<times> files \<times> measurement_t \<times> world" where
  "fs_fsync_measure env stale buffer fs w =
     (let (ok, fs) = f_creat env fsync_path fs
      in if \<not> ok then (-1, fs, stale, w)
         else let (t0, w) = clock_monotonic w; content = (f_rewrite env buffer ^^ NUM_FSYNCS) [];
                  (t1, w) = clock_monotonic w; el = elapsed t0 t1
              in (0, fs(fsync_path \<mapsto> content), plain_result (el * 10 ^ 6 / real NUM_FSYNCS) el, w))"

definition fs_fsync_cleanup :: "files \<Rightarrow> world \<Rightarrow> int \<times> files \<times> world" where
  "fs_fsync_cleanup fs w = (0, fs(fsync_path := None), c_free True (c_free True (c_free True w)))"

text \<open>Writing the same again at the start changes nothing: the file never grows.\<close>

lemma f_rewrite_again: "f_rewrite env bs (f_rewrite env bs content) = f_rewrite env bs content"
  by (simp add: f_rewrite_def Let_def)

lemma fsync_content: "0 < k \<Longrightarrow> (f_rewrite env bs ^^ k) [] = take (fe_writes env 0) bs"
proof (induction k)
  case (Suc k)
  then show ?case by (cases k) (simp_all add: f_rewrite_again, simp_all add: f_rewrite_def Let_def)
qed simp


subsection \<open>fs-meta\<close>

definition NUM_FILES :: nat where "NUM_FILES = 50000"

definition TEST_DIR :: string where "TEST_DIR = ''/tmp/ssb_meta_test''"

definition meta_path :: "nat \<Rightarrow> string" where
  "meta_path i = TEST_DIR @ ''/f_'' @ dec i"

record tree =
  t_files :: files
  t_dirs :: "string list"

text \<open>\<^verbatim>\<open>mkdir\<close>, opening with \<^verbatim>\<open>O_CREAT\<close> in a directory, \<^verbatim>\<open>unlink\<close>, and \<^verbatim>\<open>rmdir\<close>, which fails while \<open>names\<close>, the entries of the
  directory, are not empty. The code looks at none of their results.\<close>

definition c_mkdir :: "fs_env \<Rightarrow> string \<Rightarrow> tree \<Rightarrow> tree" where
  "c_mkdir env dir t = (if dir \<in> set (t_dirs t) \<or> \<not> fe_opens env dir then t else t\<lparr>t_dirs := dir # t_dirs t\<rparr>)"

definition c_touch :: "fs_env \<Rightarrow> string \<Rightarrow> string \<Rightarrow> tree \<Rightarrow> tree" where
  "c_touch env dir path t =
     (if fe_opens env path \<and> dir \<in> set (t_dirs t) \<and> t_files t path = None then t\<lparr>t_files := (t_files t)(path \<mapsto> [])\<rparr> else t)"

definition c_unlink :: "string \<Rightarrow> tree \<Rightarrow> tree" where
  "c_unlink path t = t\<lparr>t_files := (t_files t)(path := None)\<rparr>"

definition c_rmdir :: "string \<Rightarrow> string list \<Rightarrow> tree \<Rightarrow> tree" where
  "c_rmdir dir names t =
     (if \<forall>p \<in> set names. t_files t p = None then t\<lparr>t_dirs := removeAll dir (t_dirs t)\<rparr> else t)"

text \<open>The copy of the name is not checked before it is printed.\<close>

definition fs_meta_init :: "fs_env \<Rightarrow> tree \<Rightarrow> world \<Rightarrow> (int \<times> tree \<times> world) outcome" where
  "fs_meta_init env t w =
     (let (p, w) = c_malloc w in
      if \<not> p then Ret (-1, t, w)
      else let (d, w) = c_malloc w
        in if \<not> d then Undef NullDeref
           else Ret (0, foldl (\<lambda>t i. c_touch env TEST_DIR (meta_path i) t) (c_mkdir env TEST_DIR t) [0..<NUM_FILES], w))"

text \<open>\<^verbatim>\<open>stat\<close> of the first \<open>n\<close> files: how many are there, and the sum of their sizes, which goes to a volatile \<^verbatim>\<open>int\<close>.\<close>

definition stat_files :: "nat \<Rightarrow> tree \<Rightarrow> nat \<times> int" where
  "stat_files n t =
     foldl (\<lambda>(k, sink) i. case t_files t (meta_path i) of None \<Rightarrow> (k, sink)
       | Some content \<Rightarrow> (k + 1, c_int (sink + int (length content)))) (0, 0) [0..<n]"

definition fs_meta_warmup :: "tree \<Rightarrow> int \<times> nat" where
  "fs_meta_warmup t = (0, fst (stat_files 100 t))"

definition fs_meta_measure :: "tree \<Rightarrow> world \<Rightarrow> int \<times> measurement_t \<times> (nat \<times> int) \<times> world" where
  "fs_meta_measure t w =
     (let (t0, w) = clock_monotonic w; sink = stat_files NUM_FILES t; (t1, w) = clock_monotonic w; el = elapsed t0 t1
      in (0, plain_result (rate (real NUM_FILES) el) el, sink, w))"

definition fs_meta_cleanup :: "string list \<Rightarrow> tree \<Rightarrow> world \<Rightarrow> int \<times> tree \<times> world" where
  "fs_meta_cleanup names t w =
     (0, c_rmdir TEST_DIR names (foldl (\<lambda>t i. c_unlink (meta_path i) t) t [0..<NUM_FILES]), c_free True (c_free True w))"

lemma dec_inj: "dec i = dec j \<longleftrightarrow> i = j"
  by (metis foldl_dec)

lemma meta_path_inj: "meta_path i = meta_path j \<longleftrightarrow> i = j"
  by (simp add: meta_path_def dec_inj)

lemma touch_all:
  assumes "TEST_DIR \<in> set (t_dirs t)" "\<And>i. fe_opens env (meta_path i)" "\<And>i. t_files t (meta_path i) = None"
  shows "foldl (\<lambda>t i. c_touch env TEST_DIR (meta_path i) t) t [0..<n] =
    t\<lparr>t_files := \<lambda>p. if p \<in> meta_path ` {..<n} then Some [] else t_files t p\<rparr>"
proof (induction n)
  case (Suc n)
  show ?case
    unfolding upt_Suc_append [OF le0] foldl_append Suc foldl.simps
    using assms by (auto simp: c_touch_def meta_path_inj lessThan_Suc fun_eq_iff)
qed simp

lemma unlink_all:
  "foldl (\<lambda>t i. c_unlink (meta_path i) t) t [0..<n] =
    t\<lparr>t_files := \<lambda>p. if p \<in> meta_path ` {..<n} then None else t_files t p\<rparr>"
proof (induction n)
  case (Suc n)
  show ?case
    unfolding upt_Suc_append [OF le0] foldl_append Suc foldl.simps
    by (auto simp: c_unlink_def lessThan_Suc fun_eq_iff)
qed simp

lemma stat_all:
  assumes "\<And>i. i < n \<Longrightarrow> t_files t (meta_path i) = Some []"
  shows "stat_files n t = (n, 0)"
  using assms unfolding stat_files_def
proof (induction n)
  case (Suc n)
  then show ?case by (simp add: c_int_nat [of 0, simplified])
qed simp

text \<open>
  The benchmark fs-meta leaves no trace: when its directory did not exist and can be created, \<^verbatim>\<open>init\<close> makes 50000 files of
  different names, every \<^verbatim>\<open>stat\<close> of a measurement finds its file, and \<^verbatim>\<open>cleanup\<close> brings the whole tree back to what it was.
\<close>

theorem fs_meta_restores:
  assumes "TEST_DIR \<notin> set (t_dirs t)" "\<forall>p \<in> set names \<union> range meta_path. t_files t p = None"
    "fe_opens env TEST_DIR" "\<forall>i. fe_opens env (meta_path i)"
    "fs_meta_init env t w = Ret (0, t1, w1)"
  shows "(\<exists>m v'. fs_meta_measure t1 v = (0, m, (50000, 0), v')) \<and> fst (snd (fs_meta_cleanup names t1 v)) = t"
proof -
  let ?t = "c_mkdir env TEST_DIR t"
  have t: "?t = t\<lparr>t_dirs := TEST_DIR # t_dirs t\<rparr>" using assms(1,3) by (simp add: c_mkdir_def)
  have t1: "t1 = ?t\<lparr>t_files := \<lambda>p. if p \<in> meta_path ` {..<NUM_FILES} then Some [] else t_files ?t p\<rparr>"
    using assms(5) touch_all [of ?t env NUM_FILES] assms(2,4) t
    by (auto simp: fs_meta_init_def Let_def case_prod_beta split: if_splits)
  have "stat_files NUM_FILES t1 = (NUM_FILES, 0)" by (rule stat_all) (simp add: t1)
  moreover have "(\<lambda>p. if p \<in> meta_path ` {..<NUM_FILES} then None else t_files t1 p) = t_files t"
    using assms(2) by (auto simp: t1 t fun_eq_iff)
  then have "fst (snd (fs_meta_cleanup names t1 v)) = c_rmdir TEST_DIR names (t\<lparr>t_dirs := TEST_DIR # t_dirs t\<rparr>)"
    by (simp add: fs_meta_cleanup_def unlink_all) (simp add: t1 t)
  moreover have "c_rmdir TEST_DIR names (t\<lparr>t_dirs := TEST_DIR # t_dirs t\<rparr>) = t"
    using assms(1,2) by (simp add: c_rmdir_def)
  ultimately show ?thesis
    by (simp add: fs_meta_measure_def case_prod_beta Let_def) (simp add: NUM_FILES_def)
qed

text \<open>In a directory that was there before, \<^verbatim>\<open>cleanup\<close> deletes the files of these names.\<close>

lemma fs_meta_unlinks: "i < NUM_FILES \<Longrightarrow> t_files (fst (snd (fs_meta_cleanup names t v))) (meta_path i) = None"
  by (simp add: fs_meta_cleanup_def unlink_all c_rmdir_def)

lemma fs_meta_restores_witness:
  "\<exists>t1 w1. fs_meta_init direct_env \<lparr>t_files = Map.empty, t_dirs = []\<rparr> quiet_world = Ret (0, t1, w1) \<and>
     fst (snd (fs_meta_cleanup [] t1 w1)) = \<lparr>t_files = Map.empty, t_dirs = []\<rparr>"
proof -
  obtain t1 w1 where i: "fs_meta_init direct_env \<lparr>t_files = Map.empty, t_dirs = []\<rparr> quiet_world = Ret (0, t1, w1)"
    by (simp add: fs_meta_init_def Let_def case_prod_beta)
  show ?thesis using fs_meta_restores [OF _ _ _ _ i, of "[]" w1] i by (simp add: direct_env_def)
qed

end
