(* ===== verification/ArrayBench.thy ===== *)
theory ArrayBench
  imports MatBench MemBench FileBench
begin

text \<open>
  The remaining kernels over large arrays: \<^verbatim>\<open>src/benchmarks/compute/fp_distance.c\<close> on real numbers,
  \<^verbatim>\<open>src/benchmarks/memory/numa_bandwidth.c\<close>, whose threads divide a buffer, \<^verbatim>\<open>numa_migration.c\<close>, with the pages of its buffer and
  the nodes they are on, \<^verbatim>\<open>mem_bandwidth.c\<close>, and the operations of \<^verbatim>\<open>mem_stream.c\<close> around its threads.
\<close>

subsection \<open>fp-distance\<close>

definition VEC_DIM :: nat where "VEC_DIM = 768"

definition NUM_VECTORS :: nat where "NUM_VECTORS = 2000"

record fp_distance_state_t =
  fd_vectors :: "real list"
  fd_query :: "real list"

definition fp_distance_init :: "world \<Rightarrow> int \<times> fp_distance_state_t option \<times> world" where
  "fp_distance_init w =
     (let (p, w) = c_malloc w in
      if \<not> p then (-1, None, w)
      else let (a, w) = c_malloc w; (b, w) = c_malloc w
        in if \<not> a \<or> \<not> b then (-1, None, c_free p (c_free b (c_free a w)))
           else let (vs, w) = rand_units (NUM_VECTORS * VEC_DIM) w; (qs, w) = rand_units VEC_DIM w
             in (0, Some \<lparr>fd_vectors = vs, fd_query = qs\<rparr>, w))"

text \<open>The loop over \<open>d\<close> with its two sums, and the cosine of vector \<open>i\<close>.\<close>

definition dot_loop :: "fp_distance_state_t \<Rightarrow> nat \<Rightarrow> real \<times> real" where
  "dot_loop s i =
     foldl (\<lambda>(dp, sq_norm_a) d. let va = fd_vectors s ! (i * VEC_DIM + d); vb = fd_query s ! d
       in (dp + va * vb, sq_norm_a + va * va)) (0, 0) [0..<VEC_DIM]"

definition query_sq_norm :: "fp_distance_state_t \<Rightarrow> real" where
  "query_sq_norm s = foldl (\<lambda>sum d. sum + fd_query s ! d * fd_query s ! d) 0 [0..<VEC_DIM]"

definition cosine :: "fp_distance_state_t \<Rightarrow> nat \<Rightarrow> real" where
  "cosine s i =
     (let inv_query_norm = 1 / (sqrt (query_sq_norm s) + 1 / 10 ^ 10); (dp, sq_norm_a) = dot_loop s i
      in dp * inv_query_norm / (sqrt sq_norm_a + 1 / 10 ^ 10))"

definition fp_distance_warmup :: "fp_distance_state_t \<Rightarrow> int \<times> real" where
  "fp_distance_warmup s = (0, \<Sum>i \<leftarrow> [0..<100]. fst (dot_loop s i))"

text \<open>The sum of the cosines goes to a volatile sink; it is the third component.\<close>

definition fp_distance_measure :: "fp_distance_state_t \<Rightarrow> world \<Rightarrow> int \<times> measurement_t \<times> real \<times> world" where
  "fp_distance_measure s w =
     (let (t0, w) = clock_monotonic w;
          sink = foldl (\<lambda>sink i. sink + cosine s i) 0 [0..<NUM_VECTORS];
          (t1, w) = clock_monotonic w; el = elapsed t0 t1
      in (0, plain_result (rate (real NUM_VECTORS * (4 * real VEC_DIM + 3)) el) el, sink, w))"

definition fp_distance_cleanup :: "world \<Rightarrow> int \<times> world" where
  "fp_distance_cleanup w = (0, c_free True (c_free True (c_free True w)))"

definition fp_distance_ops :: "fp_distance_state_t option bench_ops" where
  "fp_distance_ops = pointed_ops fp_distance_init (\<lambda>s. (fst (fp_distance_warmup s), s))
     (\<lambda>s w. let (r, m, sink, w) = fp_distance_measure s w in (r, s, m, w)) fp_distance_cleanup"

lemma foldl_pair_sum:
  "foldl (\<lambda>(a, b) d. (a + f d, b + g d)) (x, y) [0..<n] = (x + (\<Sum>d < n. f d), y + (\<Sum>d < n. g d))" for f g :: "nat \<Rightarrow> real"
  by (induction n) simp_all

lemma foldl_sum: "foldl (\<lambda>a d. a + f d) x [0..<n] = x + (\<Sum>d < n. f d)" for f :: "nat \<Rightarrow> real"
  by (induction n) simp_all

lemma dot_loop_sums:
  "dot_loop s i = (\<Sum>d < VEC_DIM. fd_vectors s ! (i * VEC_DIM + d) * fd_query s ! d,
     \<Sum>d < VEC_DIM. (fd_vectors s ! (i * VEC_DIM + d))\<^sup>2)"
  using foldl_pair_sum [of "\<lambda>d. fd_vectors s ! (i * VEC_DIM + d) * fd_query s ! d"
      "\<lambda>d. (fd_vectors s ! (i * VEC_DIM + d))\<^sup>2" 0 0 VEC_DIM]
  by (simp add: dot_loop_def Let_def power2_eq_square)

lemma query_norm_sum: "query_sq_norm s = (\<Sum>d < VEC_DIM. (fd_query s ! d)\<^sup>2)"
  using foldl_sum [of "\<lambda>d. (fd_query s ! d)\<^sup>2" 0 VEC_DIM] by (simp add: query_sq_norm_def power2_eq_square)

lemma cauchy_schwarz:
  fixes a b :: "nat \<Rightarrow> real"
  shows "(\<Sum>d < n. a d * b d)\<^sup>2 \<le> (\<Sum>d < n. (a d)\<^sup>2) * (\<Sum>d < n. (b d)\<^sup>2)"
proof -
  let ?A = "\<Sum>d < n. (a d)\<^sup>2" and ?B = "\<Sum>d < n. (b d)\<^sup>2" and ?C = "\<Sum>d < n. a d * b d"
  have "0 \<le> (\<Sum>d < n. (?B * a d - ?C * b d)\<^sup>2)" by (intro sum_nonneg) simp
  also have "\<dots> = (\<Sum>d < n. ?B\<^sup>2 * (a d)\<^sup>2 - 2 * ?B * ?C * (a d * b d) + ?C\<^sup>2 * (b d)\<^sup>2)"
    by (intro sum.cong refl) (simp add: power2_eq_square algebra_simps)
  also have "\<dots> = ?B\<^sup>2 * ?A - 2 * ?B * ?C * ?C + ?C\<^sup>2 * ?B"
    by (simp add: sum.distrib sum_subtractf flip: sum_distrib_left)
  also have "\<dots> = ?B * (?A * ?B - ?C\<^sup>2)" by (simp add: power2_eq_square algebra_simps)
  finally have p: "0 \<le> ?B * (?A * ?B - ?C\<^sup>2)" .
  have "0 \<le> ?B" by (intro sum_nonneg) simp
  then consider "?B = 0" | "0 < ?B" by linarith
  then show ?thesis
  proof cases
    case 1
    then have "\<forall>d < n. b d = 0" using sum_nonneg_eq_0_iff [of "{..<n}" "\<lambda>d. (b d)\<^sup>2"] by simp
    then show ?thesis using 1 by simp
  next
    case 2
    then show ?thesis using p by (simp add: zero_le_mult_iff)
  qed
qed

text \<open>Two vectors without negative entries have a cosine between 0 and 1, also when one is the null vector.\<close>

lemma cosine_range:
  assumes "\<forall>x \<in> set (fd_vectors s) \<union> set (fd_query s). 0 \<le> x" "length (fd_query s) = VEC_DIM"
    "length (fd_vectors s) = NUM_VECTORS * VEC_DIM" "i < NUM_VECTORS"
  shows "0 \<le> cosine s i \<and> cosine s i \<le> 1"
proof -
  let ?a = "\<lambda>d. fd_vectors s ! (i * VEC_DIM + d)" and ?b = "\<lambda>d. fd_query s ! d"
  let ?A = "\<Sum>d < VEC_DIM. (?a d)\<^sup>2" and ?B = "\<Sum>d < VEC_DIM. (?b d)\<^sup>2" and ?C = "\<Sum>d < VEC_DIM. ?a d * ?b d"
  define e :: real where "e = 1 / 10 ^ 10"
  have "i * VEC_DIM + d < NUM_VECTORS * VEC_DIM" if "d < VEC_DIM" for d using flat_less [OF that assms(4)] .
  then have "0 \<le> ?a d * ?b d" if "d < VEC_DIM" for d using assms that by (intro mult_nonneg_nonneg) auto
  then have C: "0 \<le> ?C" by (intro sum_nonneg) simp
  have AB: "0 \<le> ?A" "0 \<le> ?B" by (intro sum_nonneg; simp)+
  have "?C = sqrt (?C\<^sup>2)" using C by simp
  also have "\<dots> \<le> sqrt ?A * sqrt ?B"
    unfolding real_sqrt_mult [symmetric] by (rule real_sqrt_le_mono [OF cauchy_schwarz])
  also have "\<dots> \<le> (sqrt ?A + e) * (sqrt ?B + e)"
    using AB by (intro mult_mono) (simp_all add: e_def)
  finally have le: "?C \<le> (sqrt ?B + e) * (sqrt ?A + e)" by (simp add: mult.commute)
  have pos: "0 < (sqrt ?B + e) * (sqrt ?A + e)" using AB by (intro mult_pos_pos) (simp_all add: e_def add_nonneg_pos)
  have "cosine s i = ?C / ((sqrt ?B + e) * (sqrt ?A + e))"
    by (simp add: cosine_def dot_loop_sums query_norm_sum e_def)
  then show ?thesis using le pos C by simp
qed

definition distance_state_ok :: "fp_distance_state_t \<Rightarrow> bool" where
  "distance_state_ok s \<longleftrightarrow> (\<forall>x \<in> set (fd_vectors s) \<union> set (fd_query s). 0 \<le> x) \<and> length (fd_query s) = VEC_DIM \<and>
     length (fd_vectors s) = NUM_VECTORS * VEC_DIM"

lemma rand_units_nonneg: "\<forall>x \<in> set (fst (rand_units n w)). 0 \<le> x"
  by (induction n arbitrary: w) (simp_all add: case_prod_beta)

lemma distance_init_ok: "fp_distance_init w = (0, Some s, w') \<Longrightarrow> distance_state_ok s"
  using rand_units_nonneg
  by (auto simp: fp_distance_init_def Let_def case_prod_beta distance_state_ok_def split: if_splits)

interpretation fp_distance: bench_tidy fp_distance_ops "pointed distance_state_ok" "\<lambda>_. 3"
  unfolding fp_distance_ops_def
proof (rule pointed_tidy)
  fix w r st w' assume i: "fp_distance_init w = (r, st, w')"
  then have "held w' = (if r = 0 then owning 3 (held w) else held w) \<and> (r = 0 \<longrightarrow> st \<noteq> None)"
    by (auto simp: fp_distance_init_def Let_def case_prod_beta held_own split: if_splits)
  then show "held w' = (if r = 0 then owning 3 (held w) else held w) \<and> (r = 0 \<longrightarrow> pointed distance_state_ok st)"
    using i distance_init_ok by (auto simp: pointed_def)
next
  fix s w r s' m w' assume "distance_state_ok s"
    "(let (r, m, sink, w) = fp_distance_measure s w in (r, s, m, w)) = (r, s', m, w')"
  then show "distance_state_ok s' \<and> held w' = held w" by (auto simp: fp_distance_measure_def Let_def case_prod_beta)
next
  fix w r w' assume "fp_distance_cleanup w = (r, w')"
  then show "held w' = owning (- 3) (held w)" by (auto simp: fp_distance_cleanup_def held_own)
qed simp

text \<open>
  The kernel fp-distance on real numbers: whatever \<^verbatim>\<open>rand\<close> returns, every vector has a cosine to the query between 0 and 1 (null vectors
  included: no division by zero), so the sum a measurement computes lies between 0 and the number of vectors.
\<close>

theorem fp_distance_bounds:
  assumes "fp_distance_init w = (0, Some s, w')"
  shows "(\<forall>i < 2000. 0 \<le> cosine s i \<and> cosine s i \<le> 1) \<and>
    (case fp_distance_measure s v of (r, m, sink, v') \<Rightarrow> r = 0 \<and> 0 \<le> sink \<and> sink \<le> 2000)"
proof -
  have c: "0 \<le> cosine s i \<and> cosine s i \<le> 1" if "i < NUM_VECTORS" for i
    using distance_init_ok [OF assms] cosine_range that by (simp add: distance_state_ok_def)
  have "0 \<le> (\<Sum>i < NUM_VECTORS. cosine s i)" using c by (intro sum_nonneg) simp
  moreover have "(\<Sum>i < NUM_VECTORS. cosine s i) \<le> (\<Sum>i < NUM_VECTORS. 1)" using c by (intro sum_mono) simp
  ultimately show ?thesis
    using c foldl_sum [of "cosine s" 0 NUM_VECTORS]
    by (simp add: fp_distance_measure_def case_prod_beta Let_def) (simp add: NUM_VECTORS_def)
qed

lemma fp_distance_bounds_witness:
  "\<exists>s w'. fp_distance_init quiet_world = (0, Some s, w') \<and> cosine s 1999 \<le> 1"
proof -
  obtain s w' where i: "fp_distance_init quiet_world = (0, Some s, w')"
    by (simp add: fp_distance_init_def Let_def case_prod_beta)
  then show ?thesis using fp_distance_bounds [OF i] by auto
qed


subsection \<open>numa-bandwidth\<close>

text \<open>\<open>ceil (bytes / ps)\<close> steps: how often a loop with step \<open>ps\<close> over the bytes runs.\<close>

definition page_count :: "nat \<Rightarrow> nat \<Rightarrow> nat" where
  "page_count bytes ps = (bytes + ps - 1) div ps"

definition NUMA_BW_SIZE :: nat where "NUMA_BW_SIZE = 128 * 1024 * 1024"

record numa_bandwidth_state_t =
  nb_node :: int
  nb_nthreads :: int

text \<open>\<open>available\<close>, \<open>max_node\<close> and \<open>onnode\<close> are what libnuma answers.\<close>

definition numa_bandwidth_init ::
    "int \<Rightarrow> int \<Rightarrow> bool \<Rightarrow> int \<Rightarrow> world \<Rightarrow> int \<times> numa_bandwidth_state_t option \<times> world" where
  "numa_bandwidth_init available max_node onnode n w =
     (let (p, w) = c_malloc w in
      if \<not> p then (-1, None, w)
      else if available < 0 then (-1, None, c_free p w)
      else if max_node < 1 then (-1, None, c_free p w)
      else if \<not> onnode then (-1, None, c_free p w)
      else let nthreads = SSB_NUM_CPUS n
        in (0, Some \<lparr>nb_node = (if max_node > 0 then 1 else 0), nb_nthreads = (if nthreads < 1 then 1 else nthreads)\<rparr>, w))"

text \<open>The 64-bit words thread \<open>t\<close> of \<open>n\<close> reads: the bytes from \<open>t * ch\<close> to \<open>(t + 1) * ch\<close>, both divided by 8.\<close>

definition bw_words :: "nat \<Rightarrow> nat \<Rightarrow> nat \<Rightarrow> nat list" where
  "bw_words size_n n t = (let ch = size_n div n in [t * ch div 8..<(t + 1) * ch div 8])"

text \<open>The sum a worker computes, every byte of the buffer being \<open>0xAB\<close>.\<close>

definition bw_worker :: "nat \<Rightarrow> nat \<Rightarrow> nat \<Rightarrow> 64 word" where
  "bw_worker size_n n t = foldl (\<lambda>sink i. sink + 12370169555311111083) 0 (bw_words size_n n t)"

text \<open>The two arrays are allocated without a test. The metric is that of the whole buffer.\<close>

definition numa_bandwidth_measure :: "numa_bandwidth_state_t \<Rightarrow> world \<Rightarrow> (int \<times> measurement_t \<times> world) outcome" where
  "numa_bandwidth_measure s w =
     (let (a, w) = c_malloc w; (b, w) = c_malloc w; (t0, w) = clock_monotonic w
      in if \<not> a \<or> \<not> b then Undef NullDeref
         else let (t1, w) = clock_monotonic w; w = c_free b (c_free a w); el = elapsed t0 t1
           in Ret (0, plain_result (rate (real NUMA_BW_SIZE) el) el, w))"

text \<open>The warm-up sums bytes of a tenth of the buffer into a volatile sink.\<close>

definition numa_bandwidth_warmup :: "numa_bandwidth_state_t \<Rightarrow> int \<times> 8 word" where
  "numa_bandwidth_warmup s = (0, foldl (\<lambda>sk i. sk + 171) 0 [0..<page_count (NUMA_BW_SIZE div 10) 8])"

definition numa_bandwidth_cleanup :: "world \<Rightarrow> int \<times> world" where
  "numa_bandwidth_cleanup w = (0, c_free True w)"

lemma words_prefix: "concat (map (bw_words size_n n) [0..<k]) = [0..<k * (size_n div n) div 8]"
proof (induction k)
  case (Suc k)
  have "k * (size_n div n) div 8 \<le> Suc k * (size_n div n) div 8" by (intro div_le_mono) simp
  then have "[0..<k * (size_n div n) div 8] @ [k * (size_n div n) div 8..<Suc k * (size_n div n) div 8] =
      [0..<Suc k * (size_n div n) div 8]"
    by (metis le_add_diff_inverse upt_add_eq_append zero_le)
  then show ?case using Suc by (simp add: bw_words_def Let_def)
qed simp

text \<open>
  C24. The threads of numa-bandwidth read disjoint parts inside the buffer, together the words from the first on without a gap. They read
  all of them exactly when their number divides the size of the buffer; otherwise the end of the buffer is never read, and
  the reported bandwidth counts it nevertheless.
\<close>

theorem numa_bandwidth_reads:
  assumes "0 < n"
  shows "concat (map (bw_words NUMA_BW_SIZE n) [0..<n]) = [0..<n * (NUMA_BW_SIZE div n) div 8] \<and>
    n * (NUMA_BW_SIZE div n) div 8 \<le> NUMA_BW_SIZE div 8 \<and>
    (n * (NUMA_BW_SIZE div n) div 8 = NUMA_BW_SIZE div 8 \<longleftrightarrow> n dvd NUMA_BW_SIZE)"
proof (intro conjI)
  show "n * (NUMA_BW_SIZE div n) div 8 \<le> NUMA_BW_SIZE div 8" by (intro div_le_mono) simp
  show "n * (NUMA_BW_SIZE div n) div 8 = NUMA_BW_SIZE div 8 \<longleftrightarrow> n dvd NUMA_BW_SIZE"
  proof
    assume e: "n * (NUMA_BW_SIZE div n) div 8 = NUMA_BW_SIZE div 8"
    have "NUMA_BW_SIZE = 8 * (NUMA_BW_SIZE div 8)" by (simp add: NUMA_BW_SIZE_def)
    also have "\<dots> \<le> n * (NUMA_BW_SIZE div n)" unfolding e [symmetric] by simp
    finally have "NUMA_BW_SIZE = n * (NUMA_BW_SIZE div n)" by (simp add: le_antisym)
    then show "n dvd NUMA_BW_SIZE" by (metis dvd_triv_left)
  qed simp
qed (rule words_prefix)

lemma numa_bandwidth_reads_witness:
  "concat (map (bw_words NUMA_BW_SIZE 6) [0..<6]) \<noteq> [0..<NUMA_BW_SIZE div 8]"
proof -
  have "\<not> 6 dvd NUMA_BW_SIZE" by (simp add: NUMA_BW_SIZE_def)
  then have l: "6 * (NUMA_BW_SIZE div 6) div 8 \<noteq> NUMA_BW_SIZE div 8"
    and c: "concat (map (bw_words NUMA_BW_SIZE 6) [0..<6]) = [0..<6 * (NUMA_BW_SIZE div 6) div 8]"
    using numa_bandwidth_reads [of 6] by simp_all
  show ?thesis unfolding c using l by (metis diff_zero length_upt)
qed

subsection \<open>numa-migration\<close>

definition MIGRATION_SIZE :: nat where "MIGRATION_SIZE = 32 * 1024 * 1024"

definition ITERATIONS :: nat where "ITERATIONS = 100"

text \<open>The buffer as the kernel sees it: the node new pages are placed on, and the node of each page that has been touched.
  \<^verbatim>\<open>numa_tonode_memory\<close> sets the policy of the range; as the manual of libnuma says, it is for memory allocated but not yet
  faulted in.\<close>

record numa_buffer =
  pb_policy :: int
  pb_pages :: "int option list"

record numa_migration_state_t =
  nm_buffer :: numa_buffer
  nm_nodes :: "int \<times> int"
  nm_page_size :: nat

definition numa_alloc_onnode :: "nat \<Rightarrow> int \<Rightarrow> numa_buffer" where
  "numa_alloc_onnode npages node = \<lparr>pb_policy = node, pb_pages = replicate npages None\<rparr>"

definition numa_tonode_memory :: "int \<Rightarrow> numa_buffer \<Rightarrow> numa_buffer" where
  "numa_tonode_memory node b = b\<lparr>pb_policy := node\<rparr>"

definition touch_page :: "numa_buffer \<Rightarrow> nat \<Rightarrow> numa_buffer" where
  "touch_page b i = (if pb_pages b ! i = None then b\<lparr>pb_pages := (pb_pages b)[i := Some (pb_policy b)]\<rparr> else b)"

definition touch_pages :: "nat \<Rightarrow> nat \<Rightarrow> numa_buffer \<Rightarrow> numa_buffer" where
  "touch_pages bytes ps b = foldl touch_page b [0..<page_count bytes ps]"

definition numa_migration_init ::
    "int \<Rightarrow> int \<Rightarrow> bool \<Rightarrow> int \<Rightarrow> world \<Rightarrow> int \<times> numa_migration_state_t option \<times> world" where
  "numa_migration_init available max_node onnode pagesize w =
     (let (p, w) = c_malloc w in
      if \<not> p then (-1, None, w)
      else if available < 0 then (-1, None, c_free p w)
      else if max_node < 1 then (-1, None, c_free p w)
      else let ps = nat (if pagesize > 0 then pagesize else 4096)
        in if \<not> onnode then (-1, None, c_free p w)
           else (0, Some \<lparr>nm_buffer = touch_pages MIGRATION_SIZE ps (numa_alloc_onnode (page_count MIGRATION_SIZE ps) 0),
                   nm_nodes = (0, if max_node > 0 then 1 else 0), nm_page_size = ps\<rparr>, w))"

definition numa_migration_warmup :: "numa_migration_state_t \<Rightarrow> int \<times> numa_migration_state_t" where
  "numa_migration_warmup s =
     (let ps = nm_page_size s; b = touch_pages (MIGRATION_SIZE div 10) ps (nm_buffer s)
      in (0, s\<lparr>nm_buffer :=
           if snd (nm_nodes s) \<noteq> fst (nm_nodes s)
           then touch_pages (MIGRATION_SIZE div 10) ps (numa_tonode_memory (snd (nm_nodes s)) b) else b\<rparr>))"

text \<open>One round: the nodes take turns, and every page is touched.\<close>

definition migrate_once :: "numa_migration_state_t \<Rightarrow> numa_buffer \<Rightarrow> nat \<Rightarrow> numa_buffer" where
  "migrate_once s b i =
     (let dst = (if i mod 2 = 0 then fst (nm_nodes s) else snd (nm_nodes s))
      in touch_pages MIGRATION_SIZE (nm_page_size s) (numa_tonode_memory dst b))"

definition numa_migration_measure ::
    "numa_migration_state_t \<Rightarrow> world \<Rightarrow> int \<times> numa_migration_state_t \<times> measurement_t \<times> world" where
  "numa_migration_measure s w =
     (let (t0, w) = clock_monotonic w; b = foldl (migrate_once s) (nm_buffer s) [0..<ITERATIONS]; migrations = ITERATIONS;
          (t1, w) = clock_monotonic w; el = elapsed t0 t1
      in (0, s\<lparr>nm_buffer := b\<rparr>, plain_result (rate (real migrations) el) el, w))"

definition numa_migration_cleanup :: "world \<Rightarrow> int \<times> world" where
  "numa_migration_cleanup w = (0, c_free True w)"

text \<open>A page that has been touched stays where it is.\<close>

definition placed :: "numa_buffer \<Rightarrow> bool" where
  "placed b \<longleftrightarrow> None \<notin> set (pb_pages b)"

lemma touch_all_placed:
  "placed b \<Longrightarrow> \<forall>i \<in> set is. i < length (pb_pages b) \<Longrightarrow> foldl touch_page b is = b"
proof (induction "is")
  case (Cons i "is")
  then have "pb_pages b ! i \<noteq> None" unfolding placed_def by (metis list.set_intros(1) nth_mem)
  then have "touch_page b i = b" by (simp add: touch_page_def del: not_None_eq)
  then show ?case using Cons by simp
qed simp

lemma touch_first:
  "n \<le> length (pb_pages b) \<Longrightarrow> foldl touch_page b [0..<n] =
    b\<lparr>pb_pages := map (\<lambda>i. if i < n \<and> pb_pages b ! i = None then Some (pb_policy b) else pb_pages b ! i) [0..<length (pb_pages b)]\<rparr>"
proof (induction n)
  case 0
  then show ?case by (simp add: map_nth)
next
  case (Suc n)
  then have IH: "foldl touch_page b [0..<n] =
    b\<lparr>pb_pages := map (\<lambda>i. if i < n \<and> pb_pages b ! i = None then Some (pb_policy b) else pb_pages b ! i) [0..<length (pb_pages b)]\<rparr>"
    by simp
  have n: "n < length (pb_pages b)" using Suc.prems by simp
  show ?case
  proof (cases "pb_pages b ! n")
    case None
    have "(map (\<lambda>i. if i < n \<and> pb_pages b ! i = None then Some (pb_policy b) else pb_pages b ! i) [0..<length (pb_pages b)])
          [n := Some (pb_policy b)] =
        map (\<lambda>i. if i < Suc n \<and> pb_pages b ! i = None then Some (pb_policy b) else pb_pages b ! i) [0..<length (pb_pages b)]"
      using None n by (intro nth_equalityI) (auto simp: nth_list_update less_Suc_eq)
    then show ?thesis
      unfolding upt_Suc_append [OF le0] foldl_append IH foldl.simps using n None by (simp add: touch_page_def)
  next
    case (Some x)
    then have "(if i < Suc n \<and> pb_pages b ! i = None then Some (pb_policy b) else pb_pages b ! i) =
        (if i < n \<and> pb_pages b ! i = None then Some (pb_policy b) else pb_pages b ! i)" for i
      by (auto simp: less_Suc_eq)
    then show ?thesis
      unfolding upt_Suc_append [OF le0] foldl_append IH foldl.simps using n Some by (simp add: touch_page_def)
  qed
qed

definition migration_ok :: "numa_migration_state_t \<Rightarrow> bool" where
  "migration_ok s \<longleftrightarrow> placed (nm_buffer s) \<and> length (pb_pages (nm_buffer s)) = page_count MIGRATION_SIZE (nm_page_size s)"

lemma page_count_mono: "a \<le> b \<Longrightarrow> page_count a ps \<le> page_count b ps"
  by (auto simp: page_count_def intro!: div_le_mono)

lemma touch_placed:
  assumes "placed b" "length (pb_pages b) = page_count MIGRATION_SIZE ps" "n \<le> MIGRATION_SIZE"
  shows "touch_pages n ps b = b"
  unfolding touch_pages_def using assms page_count_mono [OF assms(3), of ps] by (intro touch_all_placed) auto

lemma tonode_facts [simp]:
  "placed (numa_tonode_memory node b) = placed b" "pb_pages (numa_tonode_memory node b) = pb_pages b"
  by (simp_all add: numa_tonode_memory_def placed_def)

lemma migration_init_ok:
  assumes "numa_migration_init available max_node onnode pagesize w = (0, Some s, w')"
  shows "migration_ok s \<and> set (pb_pages (nm_buffer s)) \<subseteq> {Some 0} \<and> nm_nodes s = (0, 1)"
proof -
  define ps where "ps = nat (if pagesize > 0 then pagesize else 4096)"
  let ?k = "page_count MIGRATION_SIZE ps"
  have "touch_pages MIGRATION_SIZE ps (numa_alloc_onnode ?k 0) = \<lparr>pb_policy = 0, pb_pages = map (\<lambda>i. Some 0) [0..<?k]\<rparr>"
    using touch_first [of ?k "numa_alloc_onnode ?k 0"] by (simp add: touch_pages_def numa_alloc_onnode_def)
  then show ?thesis
    using assms by (auto simp: numa_migration_init_def Let_def case_prod_beta ps_def [symmetric] migration_ok_def placed_def split: if_splits)
qed

lemma migrations_keep:
  assumes "migration_ok s"
  shows "migration_ok (s\<lparr>nm_buffer := foldl (migrate_once s) (nm_buffer s) [0..<k]\<rparr>) \<and>
    pb_pages (foldl (migrate_once s) (nm_buffer s) [0..<k]) = pb_pages (nm_buffer s)"
proof (induction k)
  case (Suc k)
  let ?b = "foldl (migrate_once s) (nm_buffer s) [0..<k]"
  have b: "placed ?b" "length (pb_pages ?b) = page_count MIGRATION_SIZE (nm_page_size s)"
    using Suc assms by (simp_all add: migration_ok_def)
  have "migrate_once s ?b k = numa_tonode_memory (if k mod 2 = 0 then fst (nm_nodes s) else snd (nm_nodes s)) ?b"
    using b by (simp add: migrate_once_def Let_def touch_placed)
  moreover have "pb_pages ?b = pb_pages (nm_buffer s)" using Suc by simp
  ultimately show ?case using b assms by (simp add: migration_ok_def)
qed (use assms in simp)

lemma warmup_keeps:
  assumes "migration_ok s"
  shows "migration_ok (snd (numa_migration_warmup s)) \<and>
    pb_pages (nm_buffer (snd (numa_migration_warmup s))) = pb_pages (nm_buffer s)"
  using assms touch_placed [of "nm_buffer s" "nm_page_size s" "MIGRATION_SIZE div 10"]
    touch_placed [of "numa_tonode_memory (snd (nm_nodes s)) (nm_buffer s)" "nm_page_size s" "MIGRATION_SIZE div 10"]
  by (simp add: numa_migration_warmup_def Let_def migration_ok_def)

text \<open>
  The benchmark numa-migration migrates nothing: \<^verbatim>\<open>init\<close> has touched every page, so all of them are on node 0, and after the warm-up and
  any number of measurements they still are; a measurement reports 100 migrations all the same.
\<close>

theorem numa_migration_moves_nothing:
  assumes "numa_migration_init available max_node onnode pagesize w = (0, Some s, w')"
    "t = ((\<lambda>s. fst (snd (numa_migration_measure s v))) ^^ k) (snd (numa_migration_warmup s))"
  shows "set (pb_pages (nm_buffer t)) \<subseteq> {Some 0} \<and> length (pb_pages (nm_buffer t)) = page_count MIGRATION_SIZE (nm_page_size s) \<and>
    (\<exists>sec t' v'. numa_migration_measure t v = (0, t', plain_result (rate 100 sec) sec, v'))"
proof -
  note s = migration_init_ok [OF assms(1)]
  have m: "fst (snd (numa_migration_measure u v)) = u\<lparr>nm_buffer := foldl (migrate_once u) (nm_buffer u) [0..<ITERATIONS]\<rparr>" for u
    by (simp add: numa_migration_measure_def case_prod_beta Let_def)
  have "migration_ok (((\<lambda>s. fst (snd (numa_migration_measure s v))) ^^ k) (snd (numa_migration_warmup s))) \<and>
    pb_pages (nm_buffer (((\<lambda>s. fst (snd (numa_migration_measure s v))) ^^ k) (snd (numa_migration_warmup s)))) =
      pb_pages (nm_buffer s)"
  proof (induction k)
    case 0
    then show ?case using warmup_keeps s by simp
  next
    case (Suc k)
    then show ?case unfolding funpow.simps comp_def m using migrations_keep by simp
  qed
  then show ?thesis
    using s unfolding assms(2) [symmetric]
    by (auto simp: migration_ok_def numa_migration_measure_def case_prod_beta Let_def ITERATIONS_def)
qed

lemma numa_migration_moves_nothing_witness:
  "\<exists>s w'. numa_migration_init 0 1 True 4096 quiet_world = (0, Some s, w') \<and>
     set (pb_pages (nm_buffer (snd (numa_migration_warmup s)))) \<subseteq> {Some 0}"
proof -
  obtain s w' where i: "numa_migration_init 0 1 True 4096 quiet_world = (0, Some s, w')"
    by (simp add: numa_migration_init_def Let_def case_prod_beta)
  show ?thesis using numa_migration_moves_nothing [where k = 0, OF i refl] i by auto
qed


subsection \<open>mem-bandwidth\<close>

definition MEM_BW_SIZE :: nat where "MEM_BW_SIZE = 256 * 1024 * 1024"

record mem_bandwidth_state_t =
  bw_src :: bytes

definition mem_bandwidth_init :: "world \<Rightarrow> int \<times> mem_bandwidth_state_t option \<times> world" where
  "mem_bandwidth_init w =
     (let (p, w) = c_malloc w in
      if \<not> p then (-1, None, w)
      else let (a, w) = c_malloc w
        in if \<not> a then (-1, None, c_free p w)
           else let (bs, w) = rand_bytes MEM_BW_SIZE w in (0, Some \<lparr>bw_src = bs\<rparr>, w))"

text \<open>\<open>src64[i]\<close>, the lowest byte first, and the sum over the buffer, modulo \<open>2 ^ 64\<close>.\<close>

definition load64 :: "bytes \<Rightarrow> nat \<Rightarrow> 64 word" where
  "load64 bs i = word_rcat (rev (take 8 (drop (8 * i) bs)))"

definition read_sum :: "bytes \<Rightarrow> 64 word" where
  "read_sum bs = foldl (\<lambda>sink i. sink + load64 bs i) 0 [0..<MEM_BW_SIZE div 8]"

definition mem_bandwidth_warmup :: "mem_bandwidth_state_t \<Rightarrow> int \<times> 64 word" where
  "mem_bandwidth_warmup s = (0, read_sum (bw_src s))"

definition mem_bandwidth_measure :: "mem_bandwidth_state_t \<Rightarrow> world \<Rightarrow> int \<times> measurement_t \<times> 64 word \<times> world" where
  "mem_bandwidth_measure s w =
     (let (t0, w) = clock_monotonic w; sink64 = read_sum (bw_src s); (t1, w) = clock_monotonic w; el = elapsed t0 t1
      in (0, plain_result (rate (real MEM_BW_SIZE) el) el, sink64, w))"

definition mem_bandwidth_cleanup :: "world \<Rightarrow> int \<times> world" where
  "mem_bandwidth_cleanup w = (0, c_free True (c_free True w))"

definition mem_bandwidth_ops :: "mem_bandwidth_state_t option bench_ops" where
  "mem_bandwidth_ops = pointed_ops mem_bandwidth_init (\<lambda>s. (fst (mem_bandwidth_warmup s), s))
     (\<lambda>s w. let (r, m, sink, w) = mem_bandwidth_measure s w in (r, s, m, w)) mem_bandwidth_cleanup"

text \<open>The words of the sum are inside the buffer.\<close>

definition bandwidth_state_ok :: "mem_bandwidth_state_t \<Rightarrow> bool" where
  "bandwidth_state_ok s \<longleftrightarrow> (\<forall>i < MEM_BW_SIZE div 8. 8 * i + 8 \<le> length (bw_src s))"

interpretation mem_bandwidth: bench_tidy mem_bandwidth_ops "pointed bandwidth_state_ok" "\<lambda>_. 2"
  unfolding mem_bandwidth_ops_def
proof (rule pointed_tidy)
  fix w r st w' assume "mem_bandwidth_init w = (r, st, w')"
  then show "held w' = (if r = 0 then owning 2 (held w) else held w) \<and> (r = 0 \<longrightarrow> pointed bandwidth_state_ok st)"
    by (auto simp: mem_bandwidth_init_def Let_def case_prod_beta held_own pointed_def bandwidth_state_ok_def split: if_splits)
next
  fix s w r s' m w' assume "bandwidth_state_ok s"
    "(let (r, m, sink, w) = mem_bandwidth_measure s w in (r, s, m, w)) = (r, s', m, w')"
  then show "bandwidth_state_ok s' \<and> held w' = held w" by (auto simp: mem_bandwidth_measure_def Let_def case_prod_beta)
next
  fix w r w' assume "mem_bandwidth_cleanup w = (r, w')"
  then show "held w' = owning (- 2) (held w)" by (auto simp: mem_bandwidth_cleanup_def held_own)
qed simp

subsection \<open>mem-stream: the operations\<close>

record mem_stream_state_t =
  ms_a :: "real list"
  ms_b :: "real list"
  ms_c :: "real list"
  ms_nthreads :: int

fun rand_unit_pairs :: "nat \<Rightarrow> world \<Rightarrow> (real \<times> real) list \<times> world" where
  "rand_unit_pairs 0 w = ([], w)"
| "rand_unit_pairs (Suc n) w =
     (let (a, w) = c_rand w; (b, w) = c_rand w; (ps, w) = rand_unit_pairs n w
      in ((real a / 2147483647, real b / 2147483647) # ps, w))"

definition mem_stream_init :: "int \<Rightarrow> string option \<Rightarrow> real \<Rightarrow> world \<Rightarrow> int \<times> mem_stream_state_t option \<times> world" where
  "mem_stream_init n siblings junk w =
     (let (p, w) = c_malloc w in
      if \<not> p then (-1, None, w)
      else let nthreads = stream_threads n siblings; (a, w) = c_malloc w; (b, w) = c_malloc w; (c, w) = c_malloc w
        in if \<not> a \<or> \<not> b \<or> \<not> c then (-1, None, c_free p (c_free c (c_free b (c_free a w))))
           else let (ps, w) = rand_unit_pairs STREAM_SIZE w
             in (0, Some \<lparr>ms_a = map fst ps, ms_b = map snd ps, ms_c = replicate STREAM_SIZE junk, ms_nthreads = nthreads\<rparr>, w))"

definition mem_stream_warmup :: "mem_stream_state_t \<Rightarrow> int \<times> mem_stream_state_t" where
  "mem_stream_warmup s = (0, s\<lparr>ms_c := foldl (stream_store (ms_a s) (ms_b s)) (ms_c s) [0..<STREAM_SIZE div 10]\<rparr>)"

text \<open>\<open>order n\<close> is the order in which the stores of the \<open>n\<close> threads are executed. The two arrays of the threads are allocated without a
  test; that a thread is pinned has no effect here.\<close>

definition mem_stream_measure ::
    "(nat \<Rightarrow> nat list) \<Rightarrow> mem_stream_state_t \<Rightarrow> world \<Rightarrow> (int \<times> mem_stream_state_t \<times> measurement_t \<times> real \<times> world) outcome" where
  "mem_stream_measure order s w =
     (let (th, w) = c_malloc w; (args, w) = c_malloc w; (t0, w) = clock_monotonic w
      in if \<not> th \<or> \<not> args then Undef NullDeref
         else let c = foldl (stream_store (ms_a s) (ms_b s)) (ms_c s) (order (nat (ms_nthreads s)));
                  (t1, w) = clock_monotonic w; w = c_free args (c_free th w); sink = c ! 0 + c ! (STREAM_SIZE - 1);
                  el = elapsed t0 t1
           in Ret (0, s\<lparr>ms_c := c\<rparr>, plain_result (rate (3 * real STREAM_SIZE * 8) el) el, sink, w))"

definition mem_stream_cleanup :: "world \<Rightarrow> int \<times> world" where
  "mem_stream_cleanup w = (0, c_free True (c_free True (c_free True (c_free True w))))"

text \<open>What the scheduler may do: all stores of all threads, in any order.\<close>

definition store_orders :: "(nat \<Rightarrow> nat list) \<Rightarrow> bool" where
  "store_orders order \<longleftrightarrow> (\<forall>n > 0. mset (order n) = mset (concat (map (stream_part STREAM_SIZE n) [0..<n])))"

lemma rand_unit_pairs_facts [simp]:
  "length (fst (rand_unit_pairs n w)) = n" "held (snd (rand_unit_pairs n w)) = held w"
  by (induction n arbitrary: w) (simp_all add: case_prod_beta)

lemma stores_length: "length (foldl (stream_store a b) c js) = length c"
  by (induction js arbitrary: c) (simp_all add: stream_store_def)

text \<open>
  The benchmark mem-stream, from \<^verbatim>\<open>init\<close> over the warm-up: while memory lasts, a measurement is defined, leaves the triad \<open>a + 3 b\<close> in the third
  array, whatever the order of the stores of its threads, and gives back what it took.
\<close>

theorem mem_stream_computes:
  assumes "mem_stream_init n siblings junk w = (0, Some s, w')" "store_orders order" "memory_left v"
  shows "\<exists>t m sink v'. mem_stream_measure order (snd (mem_stream_warmup s)) v = Ret (0, t, m, sink, v') \<and>
    ms_c t = map (\<lambda>i. ms_a s ! i + 3 * ms_b s ! i) [0..<STREAM_SIZE] \<and> held v' = held v"
proof -
  let ?u = "snd (mem_stream_warmup s)"
  have s: "length (ms_c s) = STREAM_SIZE" "1 \<le> ms_nthreads s"
    using assms(1) by (auto simp: mem_stream_init_def Let_def case_prod_beta stream_threads_def split: if_splits)
  have u: "length (ms_c ?u) = STREAM_SIZE" "ms_a ?u = ms_a s" "ms_b ?u = ms_b s" "ms_nthreads ?u = ms_nthreads s"
    using s by (simp_all add: mem_stream_warmup_def stores_length)
  have "0 < nat (ms_nthreads s)" using s(2) by simp
  moreover from this have "mset (order (nat (ms_nthreads s))) =
      mset (concat (map (stream_part STREAM_SIZE (nat (ms_nthreads s))) [0..<nat (ms_nthreads s)]))"
    using assms(2) by (simp add: store_orders_def)
  ultimately have "foldl (stream_store (ms_a s) (ms_b s)) (ms_c ?u) (order (nat (ms_nthreads s))) =
      map (\<lambda>i. ms_a s ! i + 3 * ms_b s ! i) [0..<STREAM_SIZE]"
    using stream_triad u(1) by blast
  then show ?thesis using assms(3) u by (simp add: mem_stream_measure_def Let_def case_prod_beta held_own)
qed

lemma mem_stream_computes_witness:
  "\<exists>s w' t m sink v'. mem_stream_init 4 None 0 quiet_world = (0, Some s, w') \<and>
     mem_stream_measure (\<lambda>n. concat (map (stream_part STREAM_SIZE n) [0..<n])) (snd (mem_stream_warmup s)) quiet_world =
       Ret (0, t, m, sink, v')"
proof -
  obtain s w' where i: "mem_stream_init 4 None 0 quiet_world = (0, Some s, w')"
    by (simp add: mem_stream_init_def Let_def case_prod_beta)
  have o: "store_orders (\<lambda>n. concat (map (stream_part STREAM_SIZE n) [0..<n]))" by (simp add: store_orders_def)
  show ?thesis using mem_stream_computes [OF i o, of quiet_world] i by auto
qed

end
