(* ===== verification/NetBench.thy ===== *)
theory NetBench
  imports Finishing KernelOps
begin

text \<open>
  The benchmarks over a listening TCP socket. \<^verbatim>\<open>src/benchmarks/net/net_conn_rate.c\<close>: a thread that accepts what the measuring
  thread connects, as a step relation over their interleavings; every measurement shuts its listening socket down and none
  opens another. \<^verbatim>\<open>net_zero_copy.c\<close> does the same. The interface \<open>one_shot_bench\<close> draws the conclusion for the harness,
  which always measures more than once.
\<close>

subsection \<open>Operations that work once\<close>

text \<open>A measurement that succeeds spends the state, and on a spent state it fails.\<close>

locale one_shot_bench =
  fixes ops :: "'s bench_ops" and live :: "'s \<Rightarrow> bool"
  assumes spends: "op_measure ops s w = (0, s', m, w') \<Longrightarrow> \<not> live s'"
    and refuses: "\<not> live s \<Longrightarrow> op_measure ops s w = (r, s', m, w') \<Longrightarrow> r \<noteq> 0"
begin

lemma second_fails: "fst (discard_measures ops 2 s w) \<noteq> 0"
proof -
  obtain r1 s1 m1 w1 where a: "op_measure ops s w = (r1, s1, m1, w1)" by (metis prod.collapse)
  obtain r2 s2 m2 w2 where b: "op_measure ops s1 w1 = (r2, s2, m2, w2)" by (metis prod.collapse)
  have "r2 \<noteq> 0" if "r1 = 0" using refuses [OF spends b] a that by simp
  then show ?thesis using a b by (simp add: numeral_2_eq_2)
qed

lemma warmup_fails: "fst (run_warmup ops s w) \<noteq> 0"
  using second_fails by (auto simp: run_warmup_def split: option.split prod.splits)

text \<open>No run of the benchmark succeeds, and none gives a value.\<close>

lemma instance_fails: "\<exists>r w'. run_benchmark_instance bench ops vs w = Ret (r, None, vs, w') \<and> r \<noteq> 0"
proof -
  obtain r s w1 where i: "op_init ops w = (r, s, w1)" by (metis prod.collapse)
  obtain r2 s2 w2 where u: "run_warmup ops s w1 = (r2, s2, w2)" by (metis prod.collapse)
  then have "r2 \<noteq> 0" using warmup_fails [of s w1] by simp
  then show ?thesis using i u by (simp add: run_benchmark_instance_def)
qed

lemma single_fails: "\<exists>r w'. harness_run_single bench ops stats overrides w = Ret (r, stats, w') \<and> r \<noteq> 0"
  using instance_fails [of bench fresh_values w] by (auto simp: harness_run_single_def)

end

subsection \<open>Sockets\<close>

text \<open>The lowest number that is not open, below the limit of the process.\<close>

definition lowest_free :: "nat \<Rightarrow> int list \<Rightarrow> int option" where
  "lowest_free max_fds fds = find (\<lambda>fd. fd \<notin> set fds) (map int [0..<max_fds])"

definition c_socket :: "nat \<Rightarrow> world \<Rightarrow> int \<times> world" where
  "c_socket max_fds w =
     (case lowest_free max_fds (w_fds w) of None \<Rightarrow> (-1, w) | Some fd \<Rightarrow> (fd, w\<lparr>w_fds := fd # w_fds w\<rparr>))"

lemma lowest_free_None: "lowest_free max_fds fds = None \<longleftrightarrow> int ` {..<max_fds} \<subseteq> set fds"
  by (auto simp: lowest_free_def find_None_iff)

lemma lowest_free_Some: "lowest_free max_fds fds = Some fd \<Longrightarrow> 0 \<le> fd \<and> fd \<notin> set fds"
  by (auto simp: lowest_free_def find_Some_iff)

subsection \<open>net-conn-rate: the two threads\<close>

definition NUM_CONNS :: nat where "NUM_CONNS = 10000"

definition LISTEN_BACKLOG :: nat where "LISTEN_BACKLOG = 4096"

datatype acceptor = AStart | ATest | AAccept | AEnd

datatype connector = CSpin | CConn nat | CFlag | CShut | CJoin | CEnd

record conn_sys =
  cs_acceptor :: acceptor
  cs_main :: connector
  cs_listening :: bool
  cs_pending :: nat
  cs_accepted :: nat
  cs_done :: bool
  cs_fds :: "int list"

text \<open>\<open>cs_pending\<close>: the connections established and not yet accepted. The warm-up sets the flag and then shuts the socket
  down (\<open>flag_first\<close>), the measurement the other way round. A connection refused keeps its descriptor; without a descriptor, and after waiting
  in vain for a place in the backlog, connecting fails as well. A socket shut down drops what is pending.\<close>

definition after_conns :: "bool \<Rightarrow> connector" where
  "after_conns flag_first = (if flag_first then CFlag else CShut)"

inductive conn_step :: "nat \<Rightarrow> nat \<Rightarrow> bool \<Rightarrow> nat \<Rightarrow> conn_sys \<Rightarrow> conn_sys \<Rightarrow> bool"
  for max_fds backlog flag_first n where
  a_ready: "cs_acceptor s = AStart \<Longrightarrow> conn_step max_fds backlog flag_first n s (s\<lparr>cs_acceptor := ATest\<rparr>)"
| a_test: "cs_acceptor s = ATest \<Longrightarrow>
    conn_step max_fds backlog flag_first n s (s\<lparr>cs_acceptor := if cs_done s then AEnd else AAccept\<rparr>)"
| a_take: "cs_acceptor s = AAccept \<Longrightarrow> cs_listening s \<Longrightarrow> 0 < cs_pending s \<Longrightarrow> lowest_free max_fds (cs_fds s) \<noteq> None \<Longrightarrow>
    conn_step max_fds backlog flag_first n s
      (s\<lparr>cs_acceptor := ATest, cs_pending := cs_pending s - 1, cs_accepted := cs_accepted s + 1\<rparr>)"
| a_no_fd: "cs_acceptor s = AAccept \<Longrightarrow> cs_listening s \<Longrightarrow> lowest_free max_fds (cs_fds s) = None \<Longrightarrow>
    conn_step max_fds backlog flag_first n s (s\<lparr>cs_acceptor := AEnd\<rparr>)"
| a_shut: "cs_acceptor s = AAccept \<Longrightarrow> \<not> cs_listening s \<Longrightarrow>
    conn_step max_fds backlog flag_first n s (s\<lparr>cs_acceptor := AEnd\<rparr>)"
| m_ready: "cs_main s = CSpin \<Longrightarrow> cs_acceptor s \<noteq> AStart \<Longrightarrow>
    conn_step max_fds backlog flag_first n s (s\<lparr>cs_main := CConn 0\<rparr>)"
| m_connect: "cs_main s = CConn i \<Longrightarrow> i < n \<Longrightarrow> lowest_free max_fds (cs_fds s) \<noteq> None \<Longrightarrow> cs_listening s \<Longrightarrow>
    cs_pending s < backlog \<Longrightarrow>
    conn_step max_fds backlog flag_first n s (s\<lparr>cs_main := CConn (i + 1), cs_pending := cs_pending s + 1\<rparr>)"
| m_refused: "cs_main s = CConn i \<Longrightarrow> i < n \<Longrightarrow> lowest_free max_fds (cs_fds s) = Some fd \<Longrightarrow>
    \<not> cs_listening s \<or> backlog \<le> cs_pending s \<Longrightarrow>
    conn_step max_fds backlog flag_first n s (s\<lparr>cs_main := CConn (i + 1), cs_fds := fd # cs_fds s\<rparr>)"
| m_no_fd: "cs_main s = CConn i \<Longrightarrow> i < n \<Longrightarrow> lowest_free max_fds (cs_fds s) = None \<Longrightarrow>
    conn_step max_fds backlog flag_first n s (s\<lparr>cs_main := CConn (i + 1)\<rparr>)"
| m_end: "cs_main s = CConn n \<Longrightarrow> conn_step max_fds backlog flag_first n s (s\<lparr>cs_main := after_conns flag_first\<rparr>)"
| m_flag: "cs_main s = CFlag \<Longrightarrow>
    conn_step max_fds backlog flag_first n s (s\<lparr>cs_main := if flag_first then CShut else CJoin, cs_done := True\<rparr>)"
| m_shut: "cs_main s = CShut \<Longrightarrow>
    conn_step max_fds backlog flag_first n s
      (s\<lparr>cs_main := if flag_first then CJoin else CFlag, cs_listening := False, cs_pending := 0\<rparr>)"
| m_join: "cs_main s = CJoin \<Longrightarrow> cs_acceptor s = AEnd \<Longrightarrow>
    conn_step max_fds backlog flag_first n s (s\<lparr>cs_main := CEnd\<rparr>)"

inductive_cases conn_stepE: "conn_step max_fds backlog flag_first n s t"

definition conn_start :: "bool \<Rightarrow> int list \<Rightarrow> conn_sys" where
  "conn_start listening fds =
     \<lparr>cs_acceptor = AStart, cs_main = CSpin, cs_listening = listening, cs_pending = 0, cs_accepted = 0,
      cs_done = False, cs_fds = fds\<rparr>"

definition conn_finished :: "conn_sys \<Rightarrow> bool" where
  "conn_finished s \<longleftrightarrow> cs_main s = CEnd"

subsection \<open>Every execution ends\<close>

fun acceptor_work :: "acceptor \<Rightarrow> nat" where
  "acceptor_work AStart = 4" | "acceptor_work ATest = 3" | "acceptor_work AAccept = 2" | "acceptor_work AEnd = 0"

fun connector_work :: "nat \<Rightarrow> connector \<Rightarrow> nat" where
  "connector_work n CSpin = 10 * n + 6" | "connector_work n (CConn i) = 10 * (n - i) + 5"
| "connector_work n CFlag = 3" | "connector_work n CShut = 3" | "connector_work n CJoin = 1" | "connector_work n CEnd = 0"

text \<open>The order of \<open>CFlag\<close> and \<open>CShut\<close>: the first of the two that has not been left yet.\<close>

definition conn_work :: "bool \<Rightarrow> nat \<Rightarrow> conn_sys \<Rightarrow> nat" where
  "conn_work flag_first n s = connector_work n (cs_main s) + of_bool (cs_main s = after_conns flag_first) +
     3 * cs_pending s + acceptor_work (cs_acceptor s)"

definition conn_inv :: "bool \<Rightarrow> nat \<Rightarrow> conn_sys \<Rightarrow> bool" where
  "conn_inv flag_first n s \<longleftrightarrow>
     (cs_acceptor s = AStart \<longrightarrow> cs_main s = CSpin) \<and> (\<forall>i. cs_main s = CConn i \<longrightarrow> i \<le> n) \<and>
     (cs_main s \<in> {CJoin, CEnd} \<longrightarrow> cs_done s \<and> \<not> cs_listening s) \<and>
     (cs_main s = CFlag \<and> \<not> flag_first \<longrightarrow> \<not> cs_listening s) \<and> (cs_main s = CShut \<and> flag_first \<longrightarrow> cs_done s)"

lemma conn_inv_step: "conn_step max_fds backlog flag_first n s t \<Longrightarrow> conn_inv flag_first n s \<Longrightarrow> conn_inv flag_first n t"
  by (erule conn_stepE) (auto simp: conn_inv_def after_conns_def split: if_splits)

lemma conn_work_step: "conn_step max_fds backlog flag_first n s t \<Longrightarrow> conn_inv flag_first n s \<Longrightarrow>
    conn_work flag_first n t < conn_work flag_first n s"
  by (erule conn_stepE) (auto simp: conn_inv_def conn_work_def after_conns_def split: if_splits)

lemma conn_progress:
  assumes "conn_inv flag_first n s" "\<not> conn_finished s"
  shows "\<exists>t. conn_step max_fds backlog flag_first n s t"
proof (cases "cs_main s")
  case (CConn i)
  then consider "i = n" | "i < n" "lowest_free max_fds (cs_fds s) = None"
    | fd where "i < n" "lowest_free max_fds (cs_fds s) = Some fd" "cs_listening s" "cs_pending s < backlog"
    | fd where "i < n" "lowest_free max_fds (cs_fds s) = Some fd" "\<not> cs_listening s \<or> backlog \<le> cs_pending s"
    using assms(1) by (force simp: conn_inv_def)
  then show ?thesis using CConn by cases (blast intro: conn_step.intros | metis conn_step.intros option.distinct(1))+
next
  case CSpin
  then show ?thesis by (cases "cs_acceptor s = AStart") (blast intro: conn_step.intros)+
next
  case CJoin
  then show ?thesis
    using assms(1) by (cases "cs_acceptor s") (auto simp: conn_inv_def intro: conn_step.intros)
next
  case CEnd
  then show ?thesis using assms(2) by (simp add: conn_finished_def)
qed (blast intro: conn_step.intros)+

interpretation conns: finishing_system "conn_step max_fds backlog flag_first n" "conn_inv flag_first n"
  "conn_work flag_first n" conn_finished for max_fds backlog flag_first n
  by unfold_locales (blast intro: conn_inv_step conn_work_step conn_progress)+

lemma conn_inv_start: "conn_inv flag_first n (conn_start listening fds)"
  by (simp add: conn_inv_def conn_start_def)


text \<open>No more is accepted than was connected.\<close>

definition accepted_inv :: "nat \<Rightarrow> conn_sys \<Rightarrow> bool" where
  "accepted_inv n s \<longleftrightarrow> cs_accepted s + cs_pending s \<le>
     (case cs_main s of CSpin \<Rightarrow> 0 | CConn i \<Rightarrow> min i n | _ \<Rightarrow> n)"

lemma accepted_inv_step: "conn_step max_fds backlog flag_first n s t \<Longrightarrow> accepted_inv n s \<Longrightarrow> accepted_inv n t"
  by (erule conn_stepE) (auto simp: accepted_inv_def after_conns_def split: if_splits)

lemma accepted_bound:
  assumes "(conn_step max_fds backlog flag_first n)\<^sup>*\<^sup>* (conn_start listening fds) s"
  shows "cs_accepted s \<le> n"
proof -
  have "accepted_inv n (conn_start listening fds)" by (simp add: accepted_inv_def conn_start_def)
  with assms have "accepted_inv n s" by (induction rule: rtranclp_induct) (blast intro: accepted_inv_step)+
  then show ?thesis by (auto simp: accepted_inv_def split: connector.splits)
qed

text \<open>Without a listener nothing is accepted, and every attempt keeps a descriptor while there are any.\<close>

definition refused_inv :: "nat \<Rightarrow> nat \<Rightarrow> nat \<Rightarrow> conn_sys \<Rightarrow> bool" where
  "refused_inv max_fds n k s \<longleftrightarrow> \<not> cs_listening s \<and> cs_pending s = 0 \<and> cs_accepted s = 0 \<and>
     (length (cs_fds s) = k + (case cs_main s of CSpin \<Rightarrow> 0 | CConn i \<Rightarrow> i | _ \<Rightarrow> n) \<or>
      int ` {..<max_fds} \<subseteq> set (cs_fds s))"

lemma refused_inv_step:
  "conn_step max_fds backlog flag_first n s t \<Longrightarrow> refused_inv max_fds n k s \<Longrightarrow> refused_inv max_fds n k t"
  by (erule conn_stepE) (auto simp: refused_inv_def after_conns_def lowest_free_None split: if_splits)

lemma refused:
  assumes "(conn_step max_fds backlog flag_first n)\<^sup>*\<^sup>* (conn_start False fds) s" "conn_finished s"
  shows "cs_accepted s = 0" "length (cs_fds s) = length fds + n \<or> int ` {..<max_fds} \<subseteq> set (cs_fds s)"
proof -
  have "refused_inv max_fds n (length fds) (conn_start False fds)" by (simp add: refused_inv_def conn_start_def)
  with assms(1) have "refused_inv max_fds n (length fds) s"
    by (induction rule: rtranclp_induct) (blast intro: refused_inv_step)+
  then show "cs_accepted s = 0" "length (cs_fds s) = length fds + n \<or> int ` {..<max_fds} \<subseteq> set (cs_fds s)"
    using assms(2) by (simp_all add: refused_inv_def conn_finished_def)
qed

text \<open>Whatever was open stays open, and at the end the socket is shut down.\<close>

lemma finished_shut:
  assumes "(conn_step max_fds backlog flag_first n)\<^sup>*\<^sup>* (conn_start listening fds) s" "conn_finished s"
  shows "\<not> cs_listening s"
  using conns.reach_inv [OF assms(1) conn_inv_start] assms(2) by (simp add: conn_inv_def conn_finished_def)

text \<open>A measurement can succeed: when the acceptor takes every connection at once.\<close>

lemma all_accepted:
  assumes "lowest_free max_fds fds \<noteq> None" "0 < backlog"
  shows "\<exists>s. (conn_step max_fds backlog flag_first n)\<^sup>*\<^sup>* (conn_start True fds) s \<and> conn_finished s \<and> cs_accepted s = n"
proof -
  let ?step = "conn_step max_fds backlog flag_first n"
  define taken where "taken i = \<lparr>cs_acceptor = AAccept, cs_main = CConn i, cs_listening = True, cs_pending = 0, cs_accepted = i,
      cs_done = False, cs_fds = fds\<rparr>" for i
  have "?step (conn_start True fds) (conn_start True fds\<lparr>cs_acceptor := ATest\<rparr>)"
    by (rule a_ready) (simp add: conn_start_def)
  moreover have "?step (conn_start True fds\<lparr>cs_acceptor := ATest\<rparr>) (conn_start True fds\<lparr>cs_acceptor := AAccept\<rparr>)"
    using a_test [of "conn_start True fds\<lparr>cs_acceptor := ATest\<rparr>"] by (simp add: conn_start_def)
  moreover have "?step (conn_start True fds\<lparr>cs_acceptor := AAccept\<rparr>) (taken 0)"
    using m_ready [of "conn_start True fds\<lparr>cs_acceptor := AAccept\<rparr>"] by (simp add: conn_start_def taken_def)
  ultimately have first: "?step\<^sup>*\<^sup>* (conn_start True fds) (taken 0)" by (meson converse_rtranclp_into_rtranclp rtranclp.rtrancl_refl)
  have round: "?step\<^sup>*\<^sup>* (taken i) (taken (Suc i))" if "i < n" for i
  proof -
    have "?step (taken i) (taken i\<lparr>cs_main := CConn (Suc i), cs_pending := 1\<rparr>)"
      using m_connect [of "taken i" i n max_fds backlog] that assms by (simp add: taken_def)
    moreover have "?step (taken i\<lparr>cs_main := CConn (Suc i), cs_pending := 1\<rparr>) (taken (Suc i)\<lparr>cs_acceptor := ATest\<rparr>)"
      using a_take [of "taken i\<lparr>cs_main := CConn (Suc i), cs_pending := 1\<rparr>"] assms by (simp add: taken_def)
    moreover have "?step (taken (Suc i)\<lparr>cs_acceptor := ATest\<rparr>) (taken (Suc i))"
      using a_test [of "taken (Suc i)\<lparr>cs_acceptor := ATest\<rparr>"] by (simp add: taken_def)
    ultimately show ?thesis by (meson converse_rtranclp_into_rtranclp rtranclp.rtrancl_refl)
  qed
  have "?step\<^sup>*\<^sup>* (taken 0) (taken i)" if "i \<le> n" for i
    using that
  proof (induction i)
    case (Suc i)
    then show ?case using round [of i] rtranclp_trans [of ?step "taken 0" "taken i"] by simp
  qed simp
  then have reach: "?step\<^sup>*\<^sup>* (conn_start True fds) (taken n)" using first by (meson le_refl rtranclp_trans)
  obtain t where t: "?step\<^sup>*\<^sup>* (taken n) t" "conn_finished t"
    using conns.can_finish [OF conns.reach_inv [OF reach conn_inv_start]] by blast
  have "cs_accepted t = n"
  proof -
    have "cs_accepted u = n" if "?step\<^sup>*\<^sup>* (taken n) u" for u
    proof -
      have "cs_accepted (taken n) = n \<and> cs_pending (taken n) = 0 \<and> (\<forall>i. cs_main (taken n) = CConn i \<longrightarrow> i = n) \<and> cs_main (taken n) \<noteq> CSpin"
        by (simp add: taken_def)
      with that have "cs_accepted u = n \<and> cs_pending u = 0 \<and> (\<forall>i. cs_main u = CConn i \<longrightarrow> i = n) \<and> cs_main u \<noteq> CSpin"
      proof (induction rule: rtranclp_induct)
        case (step u v)
        from step.hyps(2) step.IH step.prems show ?case
          by cases (auto simp: after_conns_def split: if_splits)
      qed
      then show ?thesis by simp
    qed
    then show ?thesis using t(1) .
  qed
  then show ?thesis using rtranclp_trans [OF reach t(1)] t(2) by blast
qed

subsection \<open>net-conn-rate: the operations\<close>

text \<open>\<open>nc_listening\<close>: a socket listens on the port.\<close>

record net_conn_rate_state_t =
  nc_listen_fd :: int
  nc_listening :: bool

text \<open>The kernel's part: the limit of descriptors, and which of the finished executions a measurement takes.\<close>

type_synonym conn_run = "bool \<Rightarrow> nat \<Rightarrow> bool \<Rightarrow> int list \<Rightarrow> conn_sys"

definition conn_runs :: "nat \<Rightarrow> conn_run \<Rightarrow> bool" where
  "conn_runs max_fds run \<longleftrightarrow> (\<forall>flag_first n listening fds.
     (conn_step max_fds LISTEN_BACKLOG flag_first n)\<^sup>*\<^sup>* (conn_start listening fds) (run flag_first n listening fds) \<and>
     conn_finished (run flag_first n listening fds))"

lemma conn_runs_exist: "\<exists>run. conn_runs max_fds run"
proof -
  have "\<forall>f n l fds. \<exists>s. (conn_step max_fds LISTEN_BACKLOG f n)\<^sup>*\<^sup>* (conn_start l fds) s \<and> conn_finished s"
    using conns.can_finish [OF conn_inv_start] by blast
  then have "\<exists>run. \<forall>x. case x of (f, n, l, fds) \<Rightarrow>
      (conn_step max_fds LISTEN_BACKLOG f n)\<^sup>*\<^sup>* (conn_start l fds) (run x) \<and> conn_finished (run x)"
    by (intro choice) auto
  then obtain run where r: "\<And>f n l fds. (conn_step max_fds LISTEN_BACKLOG f n)\<^sup>*\<^sup>* (conn_start l fds) (run (f, n, l, fds)) \<and>
      conn_finished (run (f, n, l, fds))" by fastforce
  then have "conn_runs max_fds (\<lambda>f n l fds. run (f, n, l, fds))" by (simp add: conn_runs_def)
  then show ?thesis by blast
qed

typedef conn_kernel = "{k. conn_runs (fst k) (snd k)}"
  morphisms kernel_pair Kernel
  using conn_runs_exist by auto

definition kernel_limit :: "conn_kernel \<Rightarrow> nat" where "kernel_limit k = fst (kernel_pair k)"

definition kernel_run :: "conn_kernel \<Rightarrow> conn_run" where "kernel_run k = snd (kernel_pair k)"

lemma kernel_runs:
  "(conn_step (kernel_limit k) LISTEN_BACKLOG flag_first n)\<^sup>*\<^sup>* (conn_start listening fds) (kernel_run k flag_first n listening fds)"
  "conn_finished (kernel_run k flag_first n listening fds)"
  using kernel_pair [of k] by (auto simp: kernel_limit_def kernel_run_def conn_runs_def)

text \<open>\<open>binds\<close> is whether \<^verbatim>\<open>bind\<close> succeeds.\<close>

definition net_conn_rate_init :: "conn_kernel \<Rightarrow> bool \<Rightarrow> world \<Rightarrow> int \<times> net_conn_rate_state_t option \<times> world" where
  "net_conn_rate_init k binds w =
     (let (p, w) = c_malloc w in
      if \<not> p then (-1, None, w)
      else let (fd, w) = c_socket (kernel_limit k) w
        in if fd < 0 then (-1, None, c_free p w)
           else if \<not> binds then (-1, None, c_free p (c_close fd w))
           else (0, Some \<lparr>nc_listen_fd = fd, nc_listening = True\<rparr>, w))"

text \<open>The second socket replaces the first, which stays open; what \<^verbatim>\<open>bind\<close> returns is not looked at.\<close>

definition nc_warmup :: "conn_kernel \<Rightarrow> bool \<Rightarrow> net_conn_rate_state_t \<Rightarrow> world \<Rightarrow> int \<times> net_conn_rate_state_t \<times> world" where
  "nc_warmup k binds s w =
     (let e = kernel_run k True 100 (nc_listening s) (w_fds w); w = w\<lparr>w_fds := cs_fds e\<rparr>;
          (fd, w) = c_socket (kernel_limit k) w
      in (0, \<lparr>nc_listen_fd = fd, nc_listening = (fd \<ge> 0 \<and> binds)\<rparr>, w))"

definition nc_measure :: "conn_kernel \<Rightarrow> net_conn_rate_state_t \<Rightarrow> world \<Rightarrow> int \<times> net_conn_rate_state_t \<times> measurement_t \<times> world" where
  "nc_measure k s w =
     (let (t0, w) = clock_monotonic w;
          e = kernel_run k False NUM_CONNS (nc_listening s) (w_fds w); w = w\<lparr>w_fds := cs_fds e\<rparr>;
          (t1, w) = clock_monotonic w; el = elapsed t0 t1; ac = cs_accepted e
      in (if real ac \<ge> real NUM_CONNS * (95 / 100) then 0 else -1,
          s\<lparr>nc_listening := cs_listening e\<rparr>, plain_result (rate (real ac) el) el, w))"

definition nc_cleanup :: "net_conn_rate_state_t \<Rightarrow> world \<Rightarrow> int \<times> world" where
  "nc_cleanup s w = (0, c_free True (c_close (nc_listen_fd s) w))"

definition net_conn_rate_ops :: "conn_kernel \<Rightarrow> bool \<Rightarrow> bool \<Rightarrow> net_conn_rate_state_t option bench_ops" where
  "net_conn_rate_ops k binds rebinds =
     \<lparr>op_init = net_conn_rate_init k binds,
      op_warmup = Some (\<lambda>st w. let (r, s, w) = nc_warmup k rebinds (the st) w in (r, Some s, w)),
      op_measure = (\<lambda>st w. let (r, s, m, w) = nc_measure k (the st) w in (r, Some s, m, w)),
      op_cleanup = (\<lambda>st w. nc_cleanup (the st) w)\<rparr>"

lemma kernel_shut: "\<not> cs_listening (kernel_run k flag_first n listening fds)"
  using finished_shut kernel_runs by blast

lemma kernel_refused: "cs_accepted (kernel_run k flag_first n False fds) = 0"
  using refused(1) kernel_runs by blast

definition listening_state :: "net_conn_rate_state_t option \<Rightarrow> bool" where
  "listening_state st \<longleftrightarrow> nc_listening (the st)"

interpretation conn_rate: one_shot_bench "net_conn_rate_ops k binds rebinds" listening_state for k binds rebinds
proof unfold_locales
  fix s w s' m w' assume "op_measure (net_conn_rate_ops k binds rebinds) s w = (0, s', m, w')"
  then show "\<not> listening_state s'"
    using kernel_shut by (auto simp: net_conn_rate_ops_def nc_measure_def listening_state_def case_prod_beta Let_def)
next
  fix s w r s' m w' assume "\<not> listening_state s" "op_measure (net_conn_rate_ops k binds rebinds) s w = (r, s', m, w')"
  then show "r \<noteq> 0"
    using kernel_refused
    by (auto simp: net_conn_rate_ops_def nc_measure_def listening_state_def case_prod_beta Let_def NUM_CONNS_def)
qed

text \<open>
  C16. The benchmark net-conn-rate never gives a result: whatever memory, descriptors, the kernel and the interleaving of its threads
  do, the harness reports a failure, because every measurement shuts the listening socket down and the harness measures
  three times. The measurement without a listener returns -1 and keeps a descriptor for each of its 10000 attempts, or all there are.
\<close>

theorem net_conn_rate_fails:
  "(\<exists>r w'. harness_run_single bench (net_conn_rate_ops k binds rebinds) stats overrides w = Ret (r, stats, w') \<and> r \<noteq> 0) \<and>
   (case nc_measure k \<lparr>nc_listen_fd = fd, nc_listening = False\<rparr> v of (r, s, m, v') \<Rightarrow>
      r = -1 \<and> (length (w_fds v') = length (w_fds v) + 10000 \<or> int ` {..<kernel_limit k} \<subseteq> set (w_fds v')))"
proof
  show "\<exists>r w'. harness_run_single bench (net_conn_rate_ops k binds rebinds) stats overrides w = Ret (r, stats, w') \<and> r \<noteq> 0"
    by (rule conn_rate.single_fails)
  show "case nc_measure k \<lparr>nc_listen_fd = fd, nc_listening = False\<rparr> v of (r, s, m, v') \<Rightarrow>
      r = -1 \<and> (length (w_fds v') = length (w_fds v) + 10000 \<or> int ` {..<kernel_limit k} \<subseteq> set (w_fds v'))"
    using refused [OF kernel_runs [of k False NUM_CONNS False "w_fds v"]] kernel_refused [of k False NUM_CONNS "w_fds v"]
    by (simp add: nc_measure_def case_prod_beta Let_def NUM_CONNS_def clock_monotonic_def)
qed


subsection \<open>net-zero-copy\<close>

definition ZC_FILE_SIZE :: nat where "ZC_FILE_SIZE = 64 * 1024 * 1024"

definition SENDFILE_PASSES :: nat where "SENDFILE_PASSES = 20"

text \<open>What the kernel answers: the limit of descriptors, whether a listening socket takes the connection, whether the file can be
  opened, its size, and how many bytes \<^verbatim>\<open>sendfile\<close> moves from an offset in a pass (0 for an error as well).\<close>

record zc_kernel =
  zk_limit :: nat
  zk_connects :: "world \<Rightarrow> bool"
  zk_opens :: "world \<Rightarrow> bool"
  zk_size :: nat
  zk_sends :: "nat \<Rightarrow> nat \<Rightarrow> nat"

record zc_state_t =
  zc_listen_fd :: int
  zc_listening :: bool

definition zc_open :: "zc_kernel \<Rightarrow> world \<Rightarrow> int \<times> world" where
  "zc_open k w = (if zk_opens k w then c_socket (zk_limit k) w else (-1, w))"

text \<open>The file is written in a buffer whose allocation is not checked; the results of \<^verbatim>\<open>socket\<close> and \<^verbatim>\<open>bind\<close> (\<open>binds\<close>) are
  not looked at.\<close>

definition zc_init :: "zc_kernel \<Rightarrow> bool \<Rightarrow> world \<Rightarrow> (int \<times> zc_state_t option \<times> world) outcome" where
  "zc_init k binds w =
     (let (p, w) = c_malloc w in
      if \<not> p then Ret (-1, None, w)
      else let (path, w) = c_malloc w
        in if \<not> path then Ret (-1, None, c_free p w)
           else let (fd, w) = zc_open k w
             in if fd < 0 then Ret (-1, None, c_free p (c_free path w))
                else let (buf, w) = c_malloc w
                  in if \<not> buf then Undef NullDeref
                     else let w = c_close fd (c_free buf w); (lfd, w) = c_socket (zk_limit k) w
                       in Ret (0, Some \<lparr>zc_listen_fd = lfd, zc_listening = (lfd \<ge> 0 \<and> binds)\<rparr>, w))"

definition zc_connect :: "zc_kernel \<Rightarrow> zc_state_t \<Rightarrow> world \<Rightarrow> int \<times> bool \<times> world" where
  "zc_connect k s w = (let (cl, w) = c_socket (zk_limit k) w in (cl, cl \<ge> 0 \<and> zc_listening s \<and> zk_connects k w, w))"

text \<open>When the file cannot be opened, the size is read from a structure that \<^verbatim>\<open>fstat\<close> has not filled. The socket of a
  connection refused is not closed.\<close>

definition zc_warmup :: "zc_kernel \<Rightarrow> bool \<Rightarrow> zc_state_t \<Rightarrow> world \<Rightarrow> (int \<times> zc_state_t \<times> world) outcome" where
  "zc_warmup k binds s w =
     (let (cl, connected, w) = zc_connect k s w
      in out_bind (if \<not> connected then Ret w
                   else let (fd, w) = zc_open k w in if fd < 0 then Undef UninitRead else Ret (c_close cl (c_close fd w)))
           (\<lambda>w. let (lfd, w) = c_socket (zk_limit k) w
                in Ret (0, \<lparr>zc_listen_fd = lfd, zc_listening = (lfd \<ge> 0 \<and> binds)\<rparr>, w)))"

function send_loop :: "zc_kernel \<Rightarrow> nat \<Rightarrow> nat \<Rightarrow> nat \<Rightarrow> nat" where
  "send_loop k p off moved =
     (if off < zk_size k
      then let n = min (zk_sends k p off) (zk_size k - off)
        in if n = 0 then moved else send_loop k p (off + n) (moved + n)
      else moved)"
  by pat_completeness auto
termination
  by (relation "measure (\<lambda>(k, p, off, moved). zk_size k - off)") auto

declare send_loop.simps [simp del]

definition zc_measure ::
    "zc_kernel \<Rightarrow> measurement_t \<Rightarrow> zc_state_t \<Rightarrow> world \<Rightarrow> int \<times> zc_state_t \<times> measurement_t \<times> world" where
  "zc_measure k stale s w =
     (let (cl, connected, w) = zc_connect k s w
      in if \<not> connected then (-1, s, stale, w)
         else let (fd, w) = zc_open k w
           in if fd < 0 then (-1, s, stale, c_close cl w)
              else let (t0, w) = clock_monotonic w;
                       sent = foldl (\<lambda>moved p. send_loop k p 0 moved) 0 [0..<SENDFILE_PASSES];
                       (t1, w) = clock_monotonic w; w = c_close cl (c_close fd w); el = elapsed t0 t1
                in (0, s\<lparr>zc_listening := False\<rparr>, plain_result (rate (real sent) el) el, w))"

definition zc_cleanup :: "zc_state_t \<Rightarrow> world \<Rightarrow> int \<times> world" where
  "zc_cleanup s w = (0, c_free True (c_free True (c_close (zc_listen_fd s) w)))"

definition net_zero_copy_ops :: "zc_kernel \<Rightarrow> bool \<Rightarrow> bool \<Rightarrow> measurement_t \<Rightarrow> zc_state_t option bench_ops" where
  "net_zero_copy_ops k binds rebinds stale =
     \<lparr>op_init = (\<lambda>w. the_ret (zc_init k binds w)),
      op_warmup = Some (\<lambda>st w. let (r, s, w) = the_ret (zc_warmup k rebinds (the st) w) in (r, Some s, w)),
      op_measure = (\<lambda>st w. let (r, s, m, w) = zc_measure k stale (the st) w in (r, Some s, m, w)),
      op_cleanup = (\<lambda>st w. zc_cleanup (the st) w)\<rparr>"

interpretation zero_copy: one_shot_bench "net_zero_copy_ops k binds rebinds stale" "\<lambda>st. zc_listening (the st)"
  for k binds rebinds stale
proof unfold_locales
  fix s w s' m w' assume "op_measure (net_zero_copy_ops k binds rebinds stale) s w = (0, s', m, w')"
  then show "\<not> zc_listening (the s')"
    by (auto simp: net_zero_copy_ops_def zc_measure_def case_prod_beta Let_def split: if_splits)
next
  fix s w r s' m w' assume "\<not> zc_listening (the s)"
    "op_measure (net_zero_copy_ops k binds rebinds stale) s w = (r, s', m, w')"
  then show "r \<noteq> 0"
    by (auto simp: net_zero_copy_ops_def zc_measure_def zc_connect_def case_prod_beta Let_def)
qed

text \<open>While \<^verbatim>\<open>sendfile\<close> moves something each time, a measurement that has a listener sends the file 20 times.\<close>

lemma send_loop_all:
  assumes "\<And>off. off < zk_size k \<Longrightarrow> 0 < zk_sends k p off" "off \<le> zk_size k"
  shows "send_loop k p off moved = moved + (zk_size k - off)"
  using assms
proof (induction k p off moved rule: send_loop.induct)
  case (1 k p off moved)
  show ?case
  proof (cases "off < zk_size k")
    case True
    define n where "n = min (zk_sends k p off) (zk_size k - off)"
    have n: "0 < n" "off + n \<le> zk_size k" using True "1.prems"(1) [OF True] by (auto simp: n_def)
    have "send_loop k p off moved = send_loop k p (off + n) (moved + n)"
      using True n(1) by (subst send_loop.simps) (simp add: Let_def flip: n_def)
    also have "\<dots> = moved + n + (zk_size k - (off + n))"
      using "1.IH" [OF True n_def] n "1.prems"(1) by simp
    finally show ?thesis using n(2) by simp
  next
    case False
    then show ?thesis using "1.prems"(2) by (subst send_loop.simps) simp
  qed
qed

lemma zero_copy_sends_all:
  assumes "\<And>p off. off < zk_size k \<Longrightarrow> 0 < zk_sends k p off"
  shows "foldl (\<lambda>moved p. send_loop k p 0 moved) 0 [0..<m] = m * zk_size k"
  by (induction m) (simp_all add: send_loop_all [OF assms])

lemma zero_copy_measures_passes:
  assumes "\<And>p off. off < zk_size k \<Longrightarrow> 0 < zk_sends k p off" "zk_size k = ZC_FILE_SIZE"
  shows "foldl (\<lambda>moved p. send_loop k p 0 moved) 0 [0..<SENDFILE_PASSES] = 1342177280"
  using zero_copy_sends_all [OF assms(1), of SENDFILE_PASSES] assms(2) by (simp add: SENDFILE_PASSES_def ZC_FILE_SIZE_def)

lemma net_zero_copy_fails:
  "\<exists>r w'. harness_run_single bench (net_zero_copy_ops k binds rebinds stale) stats overrides w = Ret (r, stats, w') \<and> r \<noteq> 0"
  by (rule zero_copy.single_fails)

end
