(* ===== verification/SocketBench.thy ===== *)
theory SocketBench
  imports NetBench
begin

text \<open>
  The benchmarks that move data over sockets, each as a step relation over the interleavings of its two threads:
  \<^verbatim>\<open>src/benchmarks/net/net_latency.c\<close> (64-byte messages echoed over a connection), \<^verbatim>\<open>net_tcp.c\<close> (a stream of bytes) and
  \<^verbatim>\<open>net_udp.c\<close> (datagrams that may be lost). Whether \<^verbatim>\<open>connect\<close> succeeds is a parameter; a message of 64 bytes arrives whole.
  The warm-up and the measurement of a benchmark are the same exchange with other lengths.
\<close>

subsection \<open>The sockets\<close>

text \<open>\<open>init\<close> of the three: the descriptor of the bound socket.\<close>

definition bound_socket :: "nat \<Rightarrow> bool \<Rightarrow> world \<Rightarrow> int \<times> int option \<times> world" where
  "bound_socket max_fds binds w =
     (let (p, w) = c_malloc w
      in if \<not> p then (-1, None, w)
         else let (fd, w) = c_socket max_fds w
           in if fd < 0 then (-1, None, c_free p w)
              else if \<not> binds then (-1, None, c_free p (c_close fd w)) else (0, Some fd, w))"

definition net_latency_init :: "nat \<Rightarrow> bool \<Rightarrow> world \<Rightarrow> int \<times> int option \<times> world" where
  "net_latency_init = bound_socket"

definition net_tcp_init :: "nat \<Rightarrow> bool \<Rightarrow> world \<Rightarrow> int \<times> int option \<times> world" where
  "net_tcp_init = bound_socket"

definition net_udp_init :: "nat \<Rightarrow> bool \<Rightarrow> world \<Rightarrow> int \<times> int option \<times> world" where
  "net_udp_init = bound_socket"

definition close_bound :: "int \<Rightarrow> world \<Rightarrow> int \<times> world" where
  "close_bound fd w = (0, c_free True (c_close fd w))"

definition nl_cleanup :: "int \<Rightarrow> world \<Rightarrow> int \<times> world" where
  "nl_cleanup = close_bound"

definition nt_cleanup :: "int \<Rightarrow> world \<Rightarrow> int \<times> world" where
  "nt_cleanup = close_bound"

definition nu_cleanup :: "int \<Rightarrow> world \<Rightarrow> int \<times> world" where
  "nu_cleanup = close_bound"

subsection \<open>net-latency\<close>

definition NUM_RRS :: nat where "NUM_RRS = 50000"

datatype echo_server = EsStart | EsAccept | EsCheck | EsRecv | EsSend | EsEnd

datatype echo_client = EcSpin | EcConnect | EcSend nat | EcRecv nat | EcShut | EcFlag | EcJoin | EcEnd

text \<open>\<open>es_up\<close> and \<open>es_down\<close>: the messages under way to the server and back.\<close>

record echo_sys =
  es_server :: echo_server
  es_client :: echo_client
  es_up :: nat
  es_down :: nat
  es_connected :: bool
  es_closed :: bool
  es_done :: bool
  es_total :: nat

definition echo_start :: echo_sys where
  "echo_start = \<lparr>es_server = EsStart, es_client = EcSpin, es_up = 0, es_down = 0, es_connected = False, es_closed = False,
     es_done = False, es_total = 0\<rparr>"

inductive echo_step :: "nat \<Rightarrow> bool \<Rightarrow> echo_sys \<Rightarrow> echo_sys \<Rightarrow> bool" for n connects where
  s_ready: "es_server s = EsStart \<Longrightarrow> echo_step n connects s (s\<lparr>es_server := EsAccept\<rparr>)"
| s_accept: "es_server s = EsAccept \<Longrightarrow> es_connected s \<Longrightarrow> echo_step n connects s (s\<lparr>es_server := EsCheck\<rparr>)"
| s_check: "es_server s = EsCheck \<Longrightarrow> echo_step n connects s (s\<lparr>es_server := if es_done s then EsEnd else EsRecv\<rparr>)"
| s_recv: "es_server s = EsRecv \<Longrightarrow> 0 < es_up s \<Longrightarrow>
    echo_step n connects s (s\<lparr>es_server := EsSend, es_up := es_up s - 1\<rparr>)"
| s_send: "es_server s = EsSend \<Longrightarrow> echo_step n connects s (s\<lparr>es_server := EsCheck, es_down := es_down s + 1\<rparr>)"
| s_eof: "es_server s = EsRecv \<Longrightarrow> es_up s = 0 \<Longrightarrow> es_closed s \<Longrightarrow> echo_step n connects s (s\<lparr>es_server := EsEnd\<rparr>)"
| c_ready: "es_client s = EcSpin \<Longrightarrow> es_server s \<noteq> EsStart \<Longrightarrow> echo_step n connects s (s\<lparr>es_client := EcConnect\<rparr>)"
| c_connect: "es_client s = EcConnect \<Longrightarrow>
    echo_step n connects s (s\<lparr>es_client := if connects then EcSend 0 else EcFlag, es_connected := connects\<rparr>)"
| c_send: "es_client s = EcSend i \<Longrightarrow> i < n \<Longrightarrow> echo_step n connects s (s\<lparr>es_client := EcRecv i, es_up := es_up s + 1\<rparr>)"
| c_recv: "es_client s = EcRecv i \<Longrightarrow> 0 < es_down s \<Longrightarrow>
    echo_step n connects s (s\<lparr>es_client := EcSend (i + 1), es_down := es_down s - 1, es_total := es_total s + 1\<rparr>)"
| c_end: "es_client s = EcSend n \<Longrightarrow> echo_step n connects s (s\<lparr>es_client := EcShut\<rparr>)"
| c_shut: "es_client s = EcShut \<Longrightarrow> echo_step n connects s (s\<lparr>es_client := EcFlag, es_closed := True\<rparr>)"
| c_flag: "es_client s = EcFlag \<Longrightarrow> echo_step n connects s (s\<lparr>es_client := EcJoin, es_done := True\<rparr>)"
| c_join: "es_client s = EcJoin \<Longrightarrow> es_server s = EsEnd \<Longrightarrow> echo_step n connects s (s\<lparr>es_client := EcEnd\<rparr>)"

definition echo_finished :: "echo_sys \<Rightarrow> bool" where
  "echo_finished s \<longleftrightarrow> es_client s = EcEnd"

text \<open>The measurement's result; without a connection it would be \<open>-1\<close>.\<close>

definition echo_result :: "echo_sys \<Rightarrow> real \<Rightarrow> int \<times> measurement_t" where
  "echo_result s seconds =
     (if es_connected s then (0, plain_result (seconds * 10 ^ 6 / real (es_total s)) seconds) else (-1, plain_result 0 0))"

text \<open>One message is under way at most: on its way up, at the server, or on its way back.\<close>

definition quiet :: "echo_sys \<Rightarrow> bool" where
  "quiet s \<longleftrightarrow> es_up s = 0 \<and> es_down s = 0 \<and> es_server s \<in> {EsAccept, EsCheck, EsRecv}"

definition under_way :: "echo_sys \<Rightarrow> bool" where
  "under_way s \<longleftrightarrow> es_up s = 1 \<and> es_down s = 0 \<and> es_server s \<in> {EsAccept, EsCheck, EsRecv} \<or>
     es_up s = 0 \<and> es_down s = 0 \<and> es_server s = EsSend \<or> es_up s = 0 \<and> es_down s = 1 \<and> es_server s \<in> {EsCheck, EsRecv}"

fun echo_order :: "nat \<Rightarrow> echo_client \<Rightarrow> echo_sys \<Rightarrow> bool" where
  "echo_order n EcSpin s \<longleftrightarrow> es_server s \<in> {EsStart, EsAccept} \<and> es_up s = 0 \<and> es_down s = 0 \<and> \<not> es_connected s \<and>
     \<not> es_closed s \<and> \<not> es_done s \<and> es_total s = 0"
| "echo_order n EcConnect s \<longleftrightarrow> es_server s = EsAccept \<and> es_up s = 0 \<and> es_down s = 0 \<and> \<not> es_connected s \<and>
     \<not> es_closed s \<and> \<not> es_done s \<and> es_total s = 0"
| "echo_order n (EcSend i) s \<longleftrightarrow> i \<le> n \<and> quiet s \<and> es_connected s \<and> \<not> es_closed s \<and> \<not> es_done s \<and> es_total s = i"
| "echo_order n (EcRecv i) s \<longleftrightarrow> i < n \<and> under_way s \<and> es_connected s \<and> \<not> es_closed s \<and> \<not> es_done s \<and> es_total s = i"
| "echo_order n EcShut s \<longleftrightarrow> quiet s \<and> es_connected s \<and> \<not> es_closed s \<and> \<not> es_done s \<and> es_total s = n"
| "echo_order n EcFlag s \<longleftrightarrow> (quiet s \<or> es_up s = 0 \<and> es_server s = EsEnd) \<and> es_connected s \<and> es_closed s \<and> es_total s = n"
| "echo_order n EcJoin s \<longleftrightarrow> (quiet s \<or> es_up s = 0 \<and> es_server s = EsEnd) \<and> es_connected s \<and> es_closed s \<and> es_total s = n"
| "echo_order n EcEnd s \<longleftrightarrow> es_server s = EsEnd \<and> es_connected s \<and> es_total s = n"

definition echo_inv :: "nat \<Rightarrow> echo_sys \<Rightarrow> bool" where
  "echo_inv n s \<longleftrightarrow> echo_order n (es_client s) s"

fun client_mu :: "nat \<Rightarrow> echo_client \<Rightarrow> nat" where
  "client_mu n EcSpin = 6 * n + 7"
| "client_mu n EcConnect = 6 * n + 6"
| "client_mu n (EcSend i) = 6 * (n - i) + 5"
| "client_mu n (EcRecv i) = 6 * (n - i)"
| "client_mu n EcShut = 4"
| "client_mu n EcFlag = 2"
| "client_mu n EcJoin = 1"
| "client_mu n EcEnd = 0"

fun server_mu :: "echo_server \<Rightarrow> nat" where
  "server_mu EsStart = 5"
| "server_mu EsAccept = 4"
| "server_mu EsSend = 4"
| "server_mu EsCheck = 3"
| "server_mu EsRecv = 2"
| "server_mu EsEnd = 0"

definition echo_mu :: "nat \<Rightarrow> echo_sys \<Rightarrow> nat" where
  "echo_mu n s = client_mu n (es_client s) + server_mu (es_server s) + 4 * es_up s"

lemma echo_inv_step:
  assumes "echo_step n True s t" "echo_inv n s"
  shows "echo_inv n t"
proof (cases "es_client s")
  case EcSpin
  with assms show ?thesis by cases (auto simp: echo_inv_def)
next
  case EcConnect
  with assms show ?thesis by cases (auto simp: echo_inv_def quiet_def)
next
  case (EcSend i)
  with assms show ?thesis by cases (auto simp: echo_inv_def quiet_def under_way_def)
next
  case (EcRecv i)
  with assms show ?thesis by cases (auto simp: echo_inv_def quiet_def under_way_def)
next
  case EcShut
  with assms show ?thesis by cases (auto simp: echo_inv_def quiet_def)
next
  case EcFlag
  with assms show ?thesis by cases (auto simp: echo_inv_def quiet_def)
next
  case EcJoin
  with assms show ?thesis by cases (auto simp: echo_inv_def quiet_def)
next
  case EcEnd
  with assms show ?thesis by cases (auto simp: echo_inv_def)
qed

lemma echo_mu_step:
  assumes "echo_step n True s t" "echo_inv n s"
  shows "echo_mu n t < echo_mu n s"
  using assms by cases (auto simp: echo_mu_def echo_inv_def)

lemma server_moves:
  assumes "es_server s \<in> {EsStart, EsCheck, EsSend} \<or> es_server s = EsAccept \<and> es_connected s \<or>
     es_server s = EsRecv \<and> (0 < es_up s \<or> es_closed s)"
  shows "\<exists>t. echo_step n connects s t"
  using assms by (cases "es_server s"; cases "es_up s = 0") (auto intro: echo_step.intros)

lemma echo_progress:
  assumes "echo_inv n s" "\<not> echo_finished s"
  shows "\<exists>t. echo_step n True s t"
proof (cases "es_client s")
  case EcSpin
  then show ?thesis using assms server_moves [of s] by (auto simp: echo_inv_def intro: echo_step.c_ready)
next
  case EcConnect
  then show ?thesis by (blast intro: echo_step.c_connect)
next
  case (EcSend i)
  then have "i < n \<or> i = n" using assms(1) by (auto simp: echo_inv_def)
  then show ?thesis using EcSend by (blast intro: echo_step.c_send echo_step.c_end)
next
  case (EcRecv i)
  then have "0 < es_down s \<or> (\<exists>t. echo_step n True s t)"
    using assms(1) server_moves [of s] by (auto simp: echo_inv_def under_way_def)
  then show ?thesis using EcRecv by (blast intro: echo_step.c_recv)
next
  case EcShut
  then show ?thesis by (blast intro: echo_step.c_shut)
next
  case EcFlag
  then show ?thesis by (blast intro: echo_step.c_flag)
next
  case EcJoin
  then have "es_server s = EsEnd \<or> (\<exists>t. echo_step n True s t)"
    using assms(1) server_moves [of s] by (auto simp: echo_inv_def quiet_def)
  then show ?thesis using EcJoin by (blast intro: echo_step.c_join)
next
  case EcEnd
  then show ?thesis using assms(2) by (simp add: echo_finished_def)
qed

interpretation echo: finishing_system "echo_step n True" "echo_inv n" "echo_mu n" echo_finished
  by unfold_locales (auto intro: echo_inv_step echo_mu_step echo_progress)

lemma echo_inv_start: "echo_inv n echo_start"
  by (simp add: echo_inv_def echo_start_def)

text \<open>A finished exchange has had all its answers.\<close>

lemma echo_all_answered:
  assumes "(echo_step n True)\<^sup>*\<^sup>* echo_start t" "echo_finished t"
  shows "es_total t = n \<and> echo_result t seconds = (0, plain_result (seconds * 10 ^ 6 / real n) seconds)"
  using echo.reach_inv [OF assms(1) echo_inv_start] assms(2) by (simp add: echo_inv_def echo_finished_def echo_result_def)

lemma nl_measure_result:
  assumes "(echo_step NUM_RRS True)\<^sup>*\<^sup>* echo_start t" "echo_finished t"
  shows "echo_result t seconds = (0, plain_result (seconds * 10 ^ 6 / 50000) seconds)"
  using echo_all_answered [OF assms] by (simp add: NUM_RRS_def)

text \<open>Without a connection the server stays in \<^verbatim>\<open>accept\<close>, and the client waits for it in \<^verbatim>\<open>pthread_join\<close>.\<close>

definition stuck_echo :: echo_sys where
  "stuck_echo = echo_start\<lparr>es_server := EsAccept, es_client := EcJoin, es_done := True\<rparr>"

lemma echo_gets_stuck: "(echo_step n False)\<^sup>*\<^sup>* echo_start stuck_echo"
proof -
  let ?a = "echo_start\<lparr>es_server := EsAccept\<rparr>"
  have a: "echo_step n False echo_start ?a" by (rule echo_step.s_ready) (simp add: echo_start_def)
  have b: "echo_step n False ?a (?a\<lparr>es_client := EcConnect\<rparr>)"
    by (rule echo_step.c_ready) (simp_all add: echo_start_def)
  have c: "echo_step n False (?a\<lparr>es_client := EcConnect\<rparr>) (?a\<lparr>es_client := EcFlag\<rparr>)"
    using echo_step.c_connect [of "?a\<lparr>es_client := EcConnect\<rparr>" n False] by (simp add: echo_start_def)
  have d: "echo_step n False (?a\<lparr>es_client := EcFlag\<rparr>) stuck_echo"
    using echo_step.c_flag [of "?a\<lparr>es_client := EcFlag\<rparr>" n False] by (simp add: stuck_echo_def)
  show ?thesis using a b c d by (meson converse_rtranclp_into_rtranclp r_into_rtranclp)
qed


subsection \<open>net-tcp\<close>

definition TCP_MSG :: nat where "TCP_MSG = 64 * 1024"

definition TCP_MSGS :: nat where "TCP_MSGS = 2000"

datatype tcp_server = TsStart | TsAccept | TsRecv | TsEnd

text \<open>\<open>TcSend left\<close>: that many bytes still to be handed over by \<^verbatim>\<open>send\<close>, which waits for room.\<close>

datatype tcp_client = TcSpin | TcConnect | TcSend nat | TcShut | TcUnlisten | TcFlag | TcJoin | TcEnd

record tcp_sys =
  ts_server :: tcp_server
  ts_client :: tcp_client
  ts_queue :: nat
  ts_connected :: bool
  ts_listening :: bool
  ts_closed :: bool
  ts_done :: bool
  ts_bytes :: nat

definition tcp_start :: tcp_sys where
  "tcp_start = \<lparr>ts_server = TsStart, ts_client = TcSpin, ts_queue = 0, ts_connected = False, ts_listening = True,
     ts_closed = False, ts_done = False, ts_bytes = 0\<rparr>"

text \<open>
  \<open>warm\<close> tells the warm-up from the measurement: only the measurement shuts the listening socket down when it cannot connect,
  and only the warm-up sets the flag after sending, which nobody reads. The connection holds \<open>Suc room\<close> bytes.
\<close>

inductive tcp_step :: "nat \<Rightarrow> bool \<Rightarrow> nat \<Rightarrow> bool \<Rightarrow> tcp_sys \<Rightarrow> tcp_sys \<Rightarrow> bool" for room warm amount connects where
  t_ready: "ts_server s = TsStart \<Longrightarrow> tcp_step room warm amount connects s (s\<lparr>ts_server := TsAccept\<rparr>)"
| t_accept: "ts_server s = TsAccept \<Longrightarrow> ts_connected s \<Longrightarrow> tcp_step room warm amount connects s (s\<lparr>ts_server := TsRecv\<rparr>)"
| t_refused: "ts_server s = TsAccept \<Longrightarrow> \<not> ts_listening s \<Longrightarrow> tcp_step room warm amount connects s (s\<lparr>ts_server := TsEnd\<rparr>)"
| t_recv: "ts_server s = TsRecv \<Longrightarrow> 0 < k \<Longrightarrow> k \<le> ts_queue s \<Longrightarrow> k \<le> TCP_MSG \<Longrightarrow>
    tcp_step room warm amount connects s (s\<lparr>ts_queue := ts_queue s - k, ts_bytes := ts_bytes s + k\<rparr>)"
| t_eof: "ts_server s = TsRecv \<Longrightarrow> ts_queue s = 0 \<Longrightarrow> ts_closed s \<Longrightarrow>
    tcp_step room warm amount connects s (s\<lparr>ts_server := TsEnd\<rparr>)"
| n_ready: "ts_client s = TcSpin \<Longrightarrow> ts_server s \<noteq> TsStart \<Longrightarrow> tcp_step room warm amount connects s (s\<lparr>ts_client := TcConnect\<rparr>)"
| n_connect: "ts_client s = TcConnect \<Longrightarrow>
    tcp_step room warm amount connects s
      (s\<lparr>ts_client := if connects then TcSend amount else if warm then TcFlag else TcUnlisten, ts_connected := connects\<rparr>)"
| n_send: "ts_client s = TcSend left \<Longrightarrow> 0 < k \<Longrightarrow> k \<le> left \<Longrightarrow> ts_queue s + k \<le> Suc room \<Longrightarrow>
    tcp_step room warm amount connects s (s\<lparr>ts_client := TcSend (left - k), ts_queue := ts_queue s + k\<rparr>)"
| n_sent: "ts_client s = TcSend 0 \<Longrightarrow> tcp_step room warm amount connects s (s\<lparr>ts_client := TcShut\<rparr>)"
| n_shut: "ts_client s = TcShut \<Longrightarrow>
    tcp_step room warm amount connects s (s\<lparr>ts_client := if warm then TcFlag else TcJoin, ts_closed := True\<rparr>)"
| n_unlisten: "ts_client s = TcUnlisten \<Longrightarrow>
    tcp_step room warm amount connects s (s\<lparr>ts_client := TcFlag, ts_listening := False\<rparr>)"
| n_flag: "ts_client s = TcFlag \<Longrightarrow> tcp_step room warm amount connects s (s\<lparr>ts_client := TcJoin, ts_done := True\<rparr>)"
| n_join: "ts_client s = TcJoin \<Longrightarrow> ts_server s = TsEnd \<Longrightarrow> tcp_step room warm amount connects s (s\<lparr>ts_client := TcEnd\<rparr>)"

definition tcp_finished :: "tcp_sys \<Rightarrow> bool" where
  "tcp_finished s \<longleftrightarrow> ts_client s = TcEnd"

definition tcp_result :: "tcp_sys \<Rightarrow> real \<Rightarrow> int \<times> measurement_t" where
  "tcp_result s seconds =
     (if ts_connected s then (0, plain_result (rate (real (ts_bytes s)) seconds) seconds) else (-1, plain_result 0 0))"

text \<open>The connection: nothing is lost between the two ends. Without one, the listening socket decides.\<close>

fun tcp_order :: "bool \<Rightarrow> nat \<Rightarrow> bool \<Rightarrow> tcp_client \<Rightarrow> tcp_sys \<Rightarrow> bool" where
  "tcp_order warm amount connects TcSpin s \<longleftrightarrow> ts_server s \<in> {TsStart, TsAccept} \<and> ts_queue s = 0 \<and> ts_bytes s = 0 \<and> \<not> ts_connected s \<and>
     ts_listening s \<and> \<not> ts_closed s"
| "tcp_order warm amount connects TcConnect s \<longleftrightarrow> ts_server s = TsAccept \<and> ts_queue s = 0 \<and> ts_bytes s = 0 \<and> \<not> ts_connected s \<and>
     ts_listening s \<and> \<not> ts_closed s"
| "tcp_order warm amount connects (TcSend left) s \<longleftrightarrow> connects \<and> ts_server s \<in> {TsAccept, TsRecv} \<and> ts_connected s \<and> ts_listening s \<and>
     \<not> ts_closed s \<and> ts_bytes s + ts_queue s + left = amount"
| "tcp_order warm amount connects TcShut s \<longleftrightarrow> connects \<and> ts_server s \<in> {TsAccept, TsRecv} \<and> ts_connected s \<and> ts_listening s \<and>
     \<not> ts_closed s \<and> ts_bytes s + ts_queue s = amount"
| "tcp_order warm amount connects TcUnlisten s \<longleftrightarrow> \<not> connects \<and> \<not> warm \<and> ts_server s = TsAccept \<and> \<not> ts_connected s \<and>
     ts_listening s"
| "tcp_order warm amount connects TcEnd s \<longleftrightarrow> ts_server s = TsEnd \<and> (connects \<longrightarrow> ts_connected s \<and> ts_bytes s = amount)"
| "tcp_order warm amount connects _ s \<longleftrightarrow>
     (if connects
      then ts_server s \<noteq> TsStart \<and> ts_connected s \<and> ts_listening s \<and> ts_closed s \<and> ts_bytes s + ts_queue s = amount \<and>
        (ts_server s = TsEnd \<longrightarrow> ts_queue s = 0)
      else \<not> warm \<and> \<not> ts_connected s \<and> \<not> ts_listening s \<and> ts_server s \<in> {TsAccept, TsEnd})"

definition tcp_inv :: "bool \<Rightarrow> nat \<Rightarrow> bool \<Rightarrow> tcp_sys \<Rightarrow> bool" where
  "tcp_inv warm amount connects s \<longleftrightarrow> tcp_order warm amount connects (ts_client s) s"

fun tcp_client_mu :: "nat \<Rightarrow> tcp_client \<Rightarrow> nat" where
  "tcp_client_mu amount TcSpin = 2 * amount + 6"
| "tcp_client_mu amount TcConnect = 2 * amount + 5"
| "tcp_client_mu amount (TcSend left) = 2 * left + 4"
| "tcp_client_mu amount TcShut = 3"
| "tcp_client_mu amount TcUnlisten = 3"
| "tcp_client_mu amount TcFlag = 2"
| "tcp_client_mu amount TcJoin = 1"
| "tcp_client_mu amount TcEnd = 0"

fun tcp_server_mu :: "tcp_server \<Rightarrow> nat" where
  "tcp_server_mu TsStart = 3"
| "tcp_server_mu TsAccept = 2"
| "tcp_server_mu TsRecv = 1"
| "tcp_server_mu TsEnd = 0"

definition tcp_mu :: "nat \<Rightarrow> tcp_sys \<Rightarrow> nat" where
  "tcp_mu amount s = tcp_client_mu amount (ts_client s) + tcp_server_mu (ts_server s) + ts_queue s"

lemma tcp_inv_step:
  assumes "tcp_step room warm amount connects s t" "tcp_inv warm amount connects s" "connects \<or> \<not> warm"
  shows "tcp_inv warm amount connects t"
proof (cases "ts_client s")
  case (TcSend left)
  with assms show ?thesis by cases (auto simp: tcp_inv_def)
next
  case TcFlag
  with assms show ?thesis by cases (auto simp: tcp_inv_def split: if_splits)
next
  case TcJoin
  with assms show ?thesis by cases (auto simp: tcp_inv_def split: if_splits)
next
  case TcSpin
  with assms show ?thesis by cases (auto simp: tcp_inv_def)
next
  case TcConnect
  with assms show ?thesis by cases (auto simp: tcp_inv_def)
next
  case TcShut
  with assms show ?thesis by cases (auto simp: tcp_inv_def)
next
  case TcUnlisten
  with assms show ?thesis by cases (auto simp: tcp_inv_def)
next
  case TcEnd
  with assms show ?thesis by cases (auto simp: tcp_inv_def)
qed

lemma tcp_mu_step:
  assumes "tcp_step room warm amount connects s t" "tcp_inv warm amount connects s"
  shows "tcp_mu amount t < tcp_mu amount s"
  using assms by cases (auto simp: tcp_mu_def tcp_inv_def)

text \<open>A server that has been connected to, or whose listening socket is shut down, can move until it ends.\<close>

lemma tcp_server_moves:
  assumes "ts_server s = TsStart \<or> ts_server s = TsAccept \<and> (ts_connected s \<or> \<not> ts_listening s) \<or>
     ts_server s = TsRecv \<and> (0 < ts_queue s \<or> ts_closed s)"
  shows "\<exists>t. tcp_step room warm amount connects s t"
proof (cases "ts_server s = TsRecv \<and> 0 < ts_queue s")
  case True
  have "1 \<le> TCP_MSG" by (simp add: TCP_MSG_def)
  then have "tcp_step room warm amount connects s (s\<lparr>ts_queue := ts_queue s - 1, ts_bytes := ts_bytes s + 1\<rparr>)"
    using True by (intro tcp_step.t_recv) simp_all
  then show ?thesis by blast
next
  case False
  then show ?thesis using assms by (auto intro: tcp_step.intros)
qed

lemma tcp_progress:
  assumes "tcp_inv warm amount connects s" "\<not> tcp_finished s" "connects \<or> \<not> warm"
  shows "\<exists>t. tcp_step room warm amount connects s t"
proof (cases "ts_client s")
  case TcSpin
  then show ?thesis using tcp_server_moves [of s] tcp_step.n_ready [of s] by (cases "ts_server s = TsStart") blast+
next
  case (TcSend left)
  consider "left = 0" | "0 < left" "ts_queue s < Suc room" | "0 < ts_queue s" by fastforce
  then show ?thesis
  proof cases
    case 2
    then show ?thesis using TcSend tcp_step.n_send [of s left 1 room] by auto
  next
    case 3
    then show ?thesis using TcSend assms(1) tcp_server_moves [of s] by (auto simp: tcp_inv_def)
  qed (use TcSend in \<open>blast intro: tcp_step.n_sent\<close>)
next
  case TcJoin
  then have "ts_server s = TsEnd \<or> (\<exists>t. tcp_step room warm amount connects s t)"
    using assms(1) tcp_server_moves [of s] by (cases "ts_server s") (auto simp: tcp_inv_def split: if_splits)
  then show ?thesis using TcJoin by (blast intro: tcp_step.n_join)
next
  case TcEnd
  then show ?thesis using assms(2) by (simp add: tcp_finished_def)
qed (blast intro: tcp_step.intros)+

text \<open>A measurement of any outcome, and a warm-up that connects.\<close>

interpretation tcp_measured: finishing_system "tcp_step room False amount connects" "tcp_inv False amount connects" "tcp_mu amount" tcp_finished
  by unfold_locales (auto intro: tcp_inv_step tcp_mu_step tcp_progress)

interpretation tcp_connected: finishing_system "tcp_step room warm amount True" "tcp_inv warm amount True" "tcp_mu amount" tcp_finished
  by unfold_locales (auto intro: tcp_inv_step tcp_mu_step tcp_progress)

lemma tcp_inv_start: "tcp_inv warm amount connects tcp_start"
  by (simp add: tcp_inv_def tcp_start_def)

text \<open>Every byte sent is received and counted before the clock is read again.\<close>

lemma tcp_counts_all:
  assumes "(tcp_step room warm amount True)\<^sup>*\<^sup>* tcp_start t" "tcp_finished t"
  shows "tcp_result t seconds = (0, plain_result (rate (real amount) seconds) seconds)"
  using tcp_connected.reach_inv [OF assms(1) tcp_inv_start] assms(2) by (simp add: tcp_inv_def tcp_finished_def tcp_result_def)

lemma nt_measure_result:
  assumes "(tcp_step room False (TCP_MSGS * TCP_MSG) True)\<^sup>*\<^sup>* tcp_start t" "tcp_finished t"
  shows "tcp_result t seconds = (0, plain_result (rate 131072000 seconds) seconds)"
  using tcp_counts_all [OF assms] by (simp add: TCP_MSGS_def TCP_MSG_def)

definition stuck_tcp :: tcp_sys where
  "stuck_tcp = tcp_start\<lparr>ts_server := TsAccept, ts_client := TcJoin, ts_done := True\<rparr>"

lemma tcp_gets_stuck: "(tcp_step room True amount False)\<^sup>*\<^sup>* tcp_start stuck_tcp"
proof -
  let ?a = "tcp_start\<lparr>ts_server := TsAccept\<rparr>"
  have a: "tcp_step room True amount False tcp_start ?a" by (rule tcp_step.t_ready) (simp add: tcp_start_def)
  have b: "tcp_step room True amount False ?a (?a\<lparr>ts_client := TcConnect\<rparr>)"
    by (rule tcp_step.n_ready) (simp_all add: tcp_start_def)
  have c: "tcp_step room True amount False (?a\<lparr>ts_client := TcConnect\<rparr>) (?a\<lparr>ts_client := TcFlag\<rparr>)"
    using tcp_step.n_connect [of "?a\<lparr>ts_client := TcConnect\<rparr>" room True amount False] by (simp add: tcp_start_def)
  have d: "tcp_step room True amount False (?a\<lparr>ts_client := TcFlag\<rparr>) stuck_tcp"
    using tcp_step.n_flag [of "?a\<lparr>ts_client := TcFlag\<rparr>" room True amount False] by (simp add: stuck_tcp_def)
  show ?thesis using a b c d by (meson converse_rtranclp_into_rtranclp r_into_rtranclp)
qed

text \<open>The measurement returns whatever \<^verbatim>\<open>connect\<close> does; the warm-up only when it succeeds.\<close>

theorem net_tcp_ends_iff:
  "always_ends (tcp_step room warm amount connects) tcp_finished tcp_start \<longleftrightarrow> connects \<or> \<not> warm"
proof (cases "connects \<or> \<not> warm")
  case True
  then show ?thesis
    using tcp_measured.ends [OF tcp_inv_start] tcp_connected.ends [OF tcp_inv_start] by (cases connects) simp_all
next
  case False
  have "\<not> tcp_finished stuck_tcp" by (simp add: tcp_finished_def stuck_tcp_def)
  moreover have "\<not> tcp_step room True amount False stuck_tcp u" for u
    by (auto simp: stuck_tcp_def tcp_start_def elim: tcp_step.cases)
  ultimately show ?thesis using False tcp_gets_stuck by (auto simp: always_ends_def)
qed

subsection \<open>net-udp\<close>

definition UDP_MSGS :: nat where "UDP_MSGS = 100000"

datatype udp_receiver = UrStart | UrCheck | UrRecv | UrEnd

datatype udp_sender = UsSpin | UsSend nat | UsFlag | UsJoin | UsEnd

text \<open>\<open>us_queue\<close>: the datagrams in the buffer of the socket, which lives as long as the benchmark.\<close>

record udp_sys =
  us_receiver :: udp_receiver
  us_sender :: udp_sender
  us_queue :: nat
  us_done :: bool
  us_packets :: nat

definition udp_start :: "nat \<Rightarrow> udp_sys" where
  "udp_start q = \<lparr>us_receiver = UrStart, us_sender = UsSpin, us_queue = q, us_done = False, us_packets = 0\<rparr>"

text \<open>A datagram is queued or lost; \<^verbatim>\<open>recvfrom\<close> on an empty buffer gives up after a tenth of a second.\<close>

inductive udp_step :: "nat \<Rightarrow> udp_sys \<Rightarrow> udp_sys \<Rightarrow> bool" for n where
  u_ready: "us_receiver s = UrStart \<Longrightarrow> udp_step n s (s\<lparr>us_receiver := UrCheck\<rparr>)"
| u_check: "us_receiver s = UrCheck \<Longrightarrow> udp_step n s (s\<lparr>us_receiver := if us_done s then UrEnd else UrRecv\<rparr>)"
| u_recv: "us_receiver s = UrRecv \<Longrightarrow> 0 < us_queue s \<Longrightarrow>
    udp_step n s (s\<lparr>us_receiver := UrCheck, us_queue := us_queue s - 1, us_packets := us_packets s + 1\<rparr>)"
| u_timeout: "us_receiver s = UrRecv \<Longrightarrow> us_queue s = 0 \<Longrightarrow> udp_step n s (s\<lparr>us_receiver := UrCheck\<rparr>)"
| d_ready: "us_sender s = UsSpin \<Longrightarrow> us_receiver s \<noteq> UrStart \<Longrightarrow> udp_step n s (s\<lparr>us_sender := UsSend 0\<rparr>)"
| d_queued: "us_sender s = UsSend i \<Longrightarrow> i < n \<Longrightarrow>
    udp_step n s (s\<lparr>us_sender := UsSend (i + 1), us_queue := us_queue s + 1\<rparr>)"
| d_lost: "us_sender s = UsSend i \<Longrightarrow> i < n \<Longrightarrow> udp_step n s (s\<lparr>us_sender := UsSend (i + 1)\<rparr>)"
| d_end: "us_sender s = UsSend n \<Longrightarrow> udp_step n s (s\<lparr>us_sender := UsFlag\<rparr>)"
| d_flag: "us_sender s = UsFlag \<Longrightarrow> udp_step n s (s\<lparr>us_sender := UsJoin, us_done := True\<rparr>)"
| d_join: "us_sender s = UsJoin \<Longrightarrow> us_receiver s = UrEnd \<Longrightarrow> udp_step n s (s\<lparr>us_sender := UsEnd\<rparr>)"

definition udp_finished :: "udp_sys \<Rightarrow> bool" where
  "udp_finished s \<longleftrightarrow> us_sender s = UsEnd"

definition udp_result :: "udp_sys \<Rightarrow> real \<Rightarrow> measurement_t" where
  "udp_result s seconds = plain_result (rate (real (us_packets s)) seconds) seconds"

fun udp_sent :: "nat \<Rightarrow> udp_sender \<Rightarrow> nat" where
  "udp_sent n UsSpin = 0"
| "udp_sent n (UsSend i) = i"
| "udp_sent n _ = n"

text \<open>Nothing is counted that was not sent, in this measurement or before it.\<close>

lemma udp_packets_bound:
  assumes "(udp_step n)\<^sup>*\<^sup>* (udp_start q) t"
  shows "us_packets t + us_queue t \<le> q + udp_sent n (us_sender t)"
  using assms
proof (induction rule: rtranclp_induct)
  case base
  then show ?case by (simp add: udp_start_def)
next
  case (step s t)
  from step.hyps(2) step.IH show ?case by cases auto
qed

lemma nu_measure_bound:
  assumes "(udp_step UDP_MSGS)\<^sup>*\<^sup>* (udp_start q) t" "udp_finished t"
  shows "us_packets t \<le> q + 100000"
  using udp_packets_bound [OF assms(1)] assms(2) by (simp add: udp_finished_def UDP_MSGS_def)

text \<open>What an earlier run left in the buffer can be all that is counted: the count is then that of no datagram of this one.\<close>

lemma udp_drains:
  "us_receiver s = UrCheck \<Longrightarrow> \<not> us_done s \<Longrightarrow>
   (udp_step n)\<^sup>*\<^sup>* s (s\<lparr>us_queue := 0, us_packets := us_packets s + us_queue s\<rparr>)"
proof (induction "us_queue s" arbitrary: s)
  case 0
  then show ?case by (cases s) simp
next
  case (Suc q)
  let ?a = "s\<lparr>us_receiver := UrRecv\<rparr>" let ?b = "s\<lparr>us_queue := q, us_packets := us_packets s + 1\<rparr>"
  have a: "udp_step n s ?a" using Suc.prems udp_step.u_check [of s n] by simp
  have "udp_step n ?a (?a\<lparr>us_receiver := UrCheck, us_queue := us_queue ?a - 1, us_packets := us_packets ?a + 1\<rparr>)"
    using Suc.hyps(2) by (intro udp_step.u_recv) simp_all
  also have "?a\<lparr>us_receiver := UrCheck, us_queue := us_queue ?a - 1, us_packets := us_packets ?a + 1\<rparr> = ?b"
    using Suc.prems(1) Suc.hyps(2) [symmetric] by (cases s) simp
  finally have b: "udp_step n ?a ?b" .
  have "(udp_step n)\<^sup>*\<^sup>* ?b (s\<lparr>us_queue := 0, us_packets := us_packets s + us_queue s\<rparr>)"
    using Suc.hyps(1) [of ?b] Suc.prems Suc.hyps(2) [symmetric] by simp
  then show ?case using a b by (meson converse_rtranclp_into_rtranclp)
qed

lemma udp_loses_all:
  assumes "us_sender s = UsSend 0" "k \<le> n"
  shows "(udp_step n)\<^sup>*\<^sup>* s (s\<lparr>us_sender := UsSend k\<rparr>)"
  using assms(2)
proof (induction k)
  case 0
  then show ?case using assms(1) by (cases s) simp
next
  case (Suc k)
  have "udp_step n (s\<lparr>us_sender := UsSend k\<rparr>) (s\<lparr>us_sender := UsSend (Suc k)\<rparr>)"
    using Suc.prems udp_step.d_lost [of "s\<lparr>us_sender := UsSend k\<rparr>" k n] by simp
  then show ?case using Suc by (meson Suc_leD rtranclp.rtrancl_into_rtrancl)
qed

lemma net_udp_counts_leftovers:
  "\<exists>t. (udp_step n)\<^sup>*\<^sup>* (udp_start q) t \<and> udp_finished t \<and> us_packets t = q"
proof -
  let ?s = "\<lambda>r d k dn p. \<lparr>us_receiver = r, us_sender = d, us_queue = k, us_done = dn, us_packets = p\<rparr>"
  have a: "udp_step n (udp_start q) (?s UrCheck UsSpin q False 0)"
    using udp_step.u_ready [of "udp_start q" n] by (simp add: udp_start_def)
  have b: "udp_step n (?s UrCheck UsSpin q False 0) (?s UrCheck (UsSend 0) q False 0)"
    using udp_step.d_ready [of "?s UrCheck UsSpin q False 0" n] by simp
  have c: "(udp_step n)\<^sup>*\<^sup>* (?s UrCheck (UsSend 0) q False 0) (?s UrCheck (UsSend 0) 0 False q)"
    using udp_drains [of "?s UrCheck (UsSend 0) q False 0" n] by simp
  have d: "(udp_step n)\<^sup>*\<^sup>* (?s UrCheck (UsSend 0) 0 False q) (?s UrCheck (UsSend n) 0 False q)"
    using udp_loses_all [of "?s UrCheck (UsSend 0) 0 False q" n n] by simp
  have e: "udp_step n (?s UrCheck (UsSend n) 0 False q) (?s UrCheck UsFlag 0 False q)"
    using udp_step.d_end [of "?s UrCheck (UsSend n) 0 False q" n] by simp
  have f: "udp_step n (?s UrCheck UsFlag 0 False q) (?s UrCheck UsJoin 0 True q)"
    using udp_step.d_flag [of "?s UrCheck UsFlag 0 False q" n] by simp
  have g: "udp_step n (?s UrCheck UsJoin 0 True q) (?s UrEnd UsJoin 0 True q)"
    using udp_step.u_check [of "?s UrCheck UsJoin 0 True q" n] by simp
  have h: "udp_step n (?s UrEnd UsJoin 0 True q) (?s UrEnd UsEnd 0 True q)"
    using udp_step.d_join [of "?s UrEnd UsJoin 0 True q" n] by simp
  have "(udp_step n)\<^sup>*\<^sup>* (udp_start q) (?s UrEnd UsEnd 0 True q)"
    using a b c d e f g h by (meson converse_rtranclp_into_rtranclp rtranclp_trans r_into_rtranclp)
  then show ?thesis by (intro exI conjI) (auto simp: udp_finished_def)
qed

end
