(* ===== verification/ProcBench.thy ===== *)
theory ProcBench
  imports Finishing KernelOps FileBench SysHost
begin

text \<open>
  The kernels that time one system call, with what the kernel answers as parameters: processes, threads and mappings created
  (\<^verbatim>\<open>src/benchmarks/os/proc_fork_exec.c\<close>, \<^verbatim>\<open>script_shell.c\<close>, \<^verbatim>\<open>script_python.c\<close>, \<^verbatim>\<open>proc_pthread.c\<close>, \<^verbatim>\<open>proc_mmap.c\<close>,
  \<^verbatim>\<open>virt/ctr_lifecycle.c\<close>) and calls whose results are summed (\<^verbatim>\<open>os/syscall_getpid.c\<close>, \<^verbatim>\<open>syscall_vdso.c\<close>, \<^verbatim>\<open>syscall_uring.c\<close>).
\<close>

subsection \<open>States that only have to be there\<close>

definition one_block_init :: "world \<Rightarrow> int \<times> world" where
  "one_block_init w = (let (p, w) = c_malloc w in if \<not> p then (-1, w) else (0, w))"

definition one_block_cleanup :: "world \<Rightarrow> int \<times> world" where
  "one_block_cleanup w = (0, c_free True w)"

lemma one_block_held:
  "held (snd (one_block_init w)) = (if fst (one_block_init w) = 0 then owning 1 (held w) else held w)"
  "held (snd (one_block_cleanup w)) = owning (- 1) (held w)"
  by (simp_all add: one_block_init_def one_block_cleanup_def case_prod_beta Let_def held_own)

subsection \<open>Processes\<close>

definition FORKS_PER_ITER :: nat where "FORKS_PER_ITER = 500"

definition SCRIPT_ITERS :: nat where "SCRIPT_ITERS = 200"

definition PYTHON_ITERS :: nat where "PYTHON_ITERS = 50"

definition CLONE_ITERS :: nat where "CLONE_ITERS = 2000"

text \<open>\<open>forks i\<close>: the \<open>i\<close>-th \<^verbatim>\<open>fork\<close> (or \<^verbatim>\<open>clone\<close>) succeeds; the child is waited for, so that none is left.\<close>

definition spawned :: "nat \<Rightarrow> (nat \<Rightarrow> bool) \<Rightarrow> nat" where
  "spawned n forks = foldl (\<lambda>k i. if forks i then k + 1 else k) 0 [0..<n]"

text \<open>
  How a child ended is summed by fork-exec and ignored by the scripts: a child that could not execute its program has
  status 127 and counts as a run like any other.
\<close>

fun sum_status :: "(nat \<Rightarrow> bool) \<Rightarrow> (nat \<Rightarrow> int option) \<Rightarrow> nat \<Rightarrow> int" where
  "sum_status forks status 0 = 0"
| "sum_status forks status (Suc n) = sum_status forks status n +
     (if forks n then (case status n of None \<Rightarrow> 0 | Some st \<Rightarrow> st) else 0)"

definition proc_fork_exec_init :: "world \<Rightarrow> int \<times> world" where
  "proc_fork_exec_init = one_block_init"

definition proc_fork_exec_warmup :: "(nat \<Rightarrow> bool) \<Rightarrow> (nat \<Rightarrow> int option) \<Rightarrow> int \<times> int" where
  "proc_fork_exec_warmup forks status = (0, sum_status forks status (FORKS_PER_ITER div 10))"

definition proc_fork_exec_cleanup :: "world \<Rightarrow> int \<times> world" where
  "proc_fork_exec_cleanup = one_block_cleanup"

definition script_warmup :: "(nat \<Rightarrow> bool) \<Rightarrow> int \<times> nat" where
  "script_warmup forks = (0, spawned 1 forks)"

definition proc_fork_exec_measure :: "(nat \<Rightarrow> bool) \<Rightarrow> world \<Rightarrow> int \<times> measurement_t \<times> world" where
  "proc_fork_exec_measure forks w =
     (let (t0, w) = clock_monotonic w; actual_forks = spawned FORKS_PER_ITER forks; (t1, w) = clock_monotonic w; el = elapsed t0 t1
      in (0, plain_result (if actual_forks > 0 then el * 10 ^ 6 / real actual_forks else 0) el, w))"

definition script_shell_measure :: "(nat \<Rightarrow> bool) \<Rightarrow> world \<Rightarrow> int \<times> measurement_t \<times> world" where
  "script_shell_measure forks w =
     (let (t0, w) = clock_monotonic w; actual_runs = spawned SCRIPT_ITERS forks; (t1, w) = clock_monotonic w; el = elapsed t0 t1
      in (0, plain_result (if actual_runs > 0 then rate (real actual_runs) el else 0) el, w))"

definition script_python_measure :: "(nat \<Rightarrow> bool) \<Rightarrow> world \<Rightarrow> int \<times> measurement_t \<times> world" where
  "script_python_measure forks w =
     (let (t0, w) = clock_monotonic w; actual_runs = spawned PYTHON_ITERS forks; (t1, w) = clock_monotonic w; el = elapsed t0 t1
      in (0, plain_result (if actual_runs > 0 then rate (real actual_runs) el else 0) el, w))"

definition ctr_lifecycle_measure :: "(nat \<Rightarrow> bool) \<Rightarrow> world \<Rightarrow> int \<times> measurement_t \<times> world" where
  "ctr_lifecycle_measure forks w =
     (let (t0, w) = clock_monotonic w; created = spawned CLONE_ITERS forks; (t1, w) = clock_monotonic w; el = elapsed t0 t1
      in (0, plain_result (el * 10 ^ 6 / real (if created > 0 then created else 1)) el, w))"

definition ctr_lifecycle_init :: "world \<Rightarrow> int \<times> world" where
  "ctr_lifecycle_init w =
     (let (p, w) = c_malloc w in
      if \<not> p then (-1, w) else let (a, w) = c_malloc w in if \<not> a then (-1, c_free p w) else (0, w))"

definition ctr_lifecycle_warmup :: "(nat \<Rightarrow> bool) \<Rightarrow> (nat \<Rightarrow> int option) \<Rightarrow> int \<times> int" where
  "ctr_lifecycle_warmup forks status = (0, sum_status forks status 20)"

definition ctr_lifecycle_cleanup :: "world \<Rightarrow> int \<times> world" where
  "ctr_lifecycle_cleanup w = (0, c_free True (c_free True w))"

text \<open>\<open>init\<close> of the two script kernels: the name is copied, the file written with the program (a write error is not looked
  at), and \<^verbatim>\<open>cleanup\<close> removes it.\<close>

definition script_init :: "fs_env \<Rightarrow> string \<Rightarrow> bytes \<Rightarrow> files \<Rightarrow> world \<Rightarrow> int \<times> files \<times> world" where
  "script_init env path program fs w =
     (let (p, w) = c_malloc w in
      if \<not> p then (-1, fs, w)
      else let (a, w) = c_malloc w
        in if \<not> a then (-1, fs, c_free p w)
           else let (ok, fs) = f_creat env path fs
             in if \<not> ok then (-1, fs, c_free p (c_free a w)) else (0, fs(path \<mapsto> f_write env [] program), w))"

definition script_cleanup :: "string \<Rightarrow> files \<Rightarrow> world \<Rightarrow> int \<times> files \<times> world" where
  "script_cleanup path fs w = (0, fs(path := None), c_free True (c_free True w))"

definition shell_path :: string where "shell_path = ''/tmp/ssb_shell_test.sh''"

definition python_path :: string where "python_path = ''/tmp/ssb_python_test.py''"

definition script_shell_init :: "fs_env \<Rightarrow> bytes \<Rightarrow> files \<Rightarrow> world \<Rightarrow> int \<times> files \<times> world" where
  "script_shell_init env = script_init env shell_path"

definition script_python_init :: "fs_env \<Rightarrow> bytes \<Rightarrow> files \<Rightarrow> world \<Rightarrow> int \<times> files \<times> world" where
  "script_python_init env = script_init env python_path"

definition script_shell_cleanup :: "files \<Rightarrow> world \<Rightarrow> int \<times> files \<times> world" where
  "script_shell_cleanup = script_cleanup shell_path"

definition script_python_cleanup :: "files \<Rightarrow> world \<Rightarrow> int \<times> files \<times> world" where
  "script_python_cleanup = script_cleanup python_path"

text \<open>The sums of exit statuses stay far below the limit of \<^verbatim>\<open>int\<close>.\<close>

lemma sum_status_bound:
  assumes "\<And>i st. status i = Some st \<Longrightarrow> 0 \<le> st \<and> st < 256"
  shows "0 \<le> sum_status forks status n \<and> sum_status forks status n \<le> 255 * int n"
proof (induction n)
  case (Suc n)
  have "0 \<le> (case status n of None \<Rightarrow> 0 | Some st \<Rightarrow> st) \<and> (case status n of None \<Rightarrow> 0 | Some st \<Rightarrow> st) \<le> 255"
    using assms [of n] by (cases "status n") auto
  then show ?case using Suc by auto
qed simp

text \<open>When no container can be created, the time of all failed calls is reported as that of one.\<close>

lemma ctr_lifecycle_without_containers:
  "\<exists>w' el. ctr_lifecycle_measure (\<lambda>_. False) w = (0, plain_result (el * 10 ^ 6) el, w')"
proof -
  have none: "spawned n (\<lambda>_. False) = 0" for n by (induction n) (simp_all add: spawned_def)
  show ?thesis by (auto simp: ctr_lifecycle_measure_def none case_prod_beta Let_def)
qed

lemma script_restores:
  assumes "script_init env path program fs w = (0, fs', w')" "fs path = None"
  shows "fst (snd (script_cleanup path fs' v)) = fs"
  using assms by (auto simp: script_init_def script_cleanup_def f_creat_def Let_def case_prod_beta split: if_splits)

subsection \<open>Threads and mappings\<close>

definition NUM_THREADS_PER_ITER :: nat where "NUM_THREADS_PER_ITER = 5000"

definition MMAP_OPS :: nat where "MMAP_OPS = 20000"

text \<open>Creating stops at the first failure; as many as were created are joined.\<close>

definition created_threads :: "nat \<Rightarrow> (nat \<Rightarrow> bool) \<Rightarrow> nat" where
  "created_threads n creates = length (takeWhile creates [0..<n])"

definition proc_pthread_init :: "world \<Rightarrow> int \<times> world" where
  "proc_pthread_init = one_block_init"

text \<open>The warm-up joins every thread before it creates the next.\<close>

definition proc_pthread_warmup :: "(nat \<Rightarrow> bool) \<Rightarrow> int \<times> nat" where
  "proc_pthread_warmup creates = (0, created_threads 100 creates)"

definition proc_pthread_cleanup :: "world \<Rightarrow> int \<times> world" where
  "proc_pthread_cleanup = one_block_cleanup"

definition proc_mmap_init :: "world \<Rightarrow> int \<times> world" where
  "proc_mmap_init = one_block_init"

text \<open>The mapping of the warm-up, 64 pages of \<^verbatim>\<open>sysconf\<close>'s size or of 4096 bytes, is unmapped at once; the second component is its size.\<close>

definition proc_mmap_warmup :: "int \<Rightarrow> bool \<Rightarrow> int \<times> int" where
  "proc_mmap_warmup page maps = (0, if maps then (if page \<le> 0 then 4096 else page) * 64 else 0)"

definition proc_mmap_cleanup :: "world \<Rightarrow> int \<times> world" where
  "proc_mmap_cleanup = one_block_cleanup"

definition proc_pthread_measure :: "(nat \<Rightarrow> bool) \<Rightarrow> world \<Rightarrow> int \<times> measurement_t \<times> world" where
  "proc_pthread_measure creates w =
     (let (p, w) = c_malloc w
      in if \<not> p then (-1, plain_result 0 0, w)
         else let (t0, w) = clock_monotonic w; created = created_threads NUM_THREADS_PER_ITER creates;
                  (t1, w) = clock_monotonic w; w = c_free p w; el = elapsed t0 t1
              in (0, plain_result (if created > 0 then el * 10 ^ 6 / real created else 0) el, w))"

definition proc_mmap_measure :: "(nat \<Rightarrow> bool) \<Rightarrow> world \<Rightarrow> int \<times> measurement_t \<times> world" where
  "proc_mmap_measure maps w =
     (let (t0, w) = clock_monotonic w; total_mapped = spawned MMAP_OPS maps; (t1, w) = clock_monotonic w; el = elapsed t0 t1
      in (0, plain_result (if total_mapped > 0 then el * 10 ^ 6 / real total_mapped else 0) el, w))"

text \<open>Exactly the first threads, up to the first that cannot be created, exist and are joined.\<close>

lemma created_threads_first:
  "created_threads n creates \<le> n \<and> (\<forall>i < created_threads n creates. creates i) \<and>
   (created_threads n creates < n \<longrightarrow> \<not> creates (created_threads n creates))"
proof (intro conjI allI impI)
  show le: "created_threads n creates \<le> n"
    using length_takeWhile_le [of creates "[0..<n]"] by (simp add: created_threads_def)
  fix i assume i: "i < created_threads n creates"
  then have "takeWhile creates [0..<n] ! i \<in> set (takeWhile creates [0..<n])" by (simp add: created_threads_def)
  then have "creates (takeWhile creates [0..<n] ! i)" by (blast dest: set_takeWhileD)
  then show "creates i" using i le takeWhile_nth [of i creates "[0..<n]"] by (simp add: created_threads_def)
next
  assume "created_threads n creates < n"
  then show "\<not> creates (created_threads n creates)"
    using nth_length_takeWhile [of creates "[0..<n]"] by (simp add: created_threads_def)
qed

subsection \<open>Calls whose results are summed\<close>

definition CALLS_PER_ITER :: nat where "CALLS_PER_ITER = 5000000"

definition NUM_CALLS :: nat where "NUM_CALLS = 10000000"

definition URING_OPS :: nat where "URING_OPS = 5000000"

text \<open>\<open>for (...) sink += value\<close> on \<^verbatim>\<open>int64_t\<close>.\<close>

fun sum_calls :: "(nat \<Rightarrow> int) \<Rightarrow> nat \<Rightarrow> int outcome" where
  "sum_calls value 0 = Ret 0"
| "sum_calls value (Suc n) = out_bind (sum_calls value n) (\<lambda>sink.
     let t = sink + value n in if - (2 ^ 63) \<le> t \<and> t < 2 ^ 63 then Ret t else Undef IntOverflow)"

definition syscall_init :: "world \<Rightarrow> int \<times> world" where
  "syscall_init = one_block_init"

definition syscall_cleanup :: "world \<Rightarrow> int \<times> world" where
  "syscall_cleanup = one_block_cleanup"

definition syscall_uring_warmup :: "int \<Rightarrow> (int \<times> int) outcome" where
  "syscall_uring_warmup pid = out_bind (sum_calls (\<lambda>_. pid) 100000) (\<lambda>sink. Ret (0, sink))"

text \<open>A reading that fails counts as 0 in the warm-up; \<open>reads i\<close> is \<open>None\<close> then.\<close>

definition syscall_vdso_warmup :: "(nat \<Rightarrow> int option) \<Rightarrow> (int \<times> int) outcome" where
  "syscall_vdso_warmup reads =
     out_bind (sum_calls (\<lambda>i. case reads i of None \<Rightarrow> 0 | Some ns \<Rightarrow> ns) 100000) (\<lambda>sink. Ret (0, sink))"

definition syscall_getpid_warmup :: "int \<Rightarrow> (int \<times> int) outcome" where
  "syscall_getpid_warmup pid = out_bind (sum_calls (\<lambda>_. pid) (CALLS_PER_ITER div 10)) (\<lambda>sink. Ret (0, sink))"

definition syscall_getpid_measure :: "int \<Rightarrow> world \<Rightarrow> (int \<times> int \<times> measurement_t \<times> world) outcome" where
  "syscall_getpid_measure pid w =
     (let (t0, w) = clock_monotonic w
      in out_bind (sum_calls (\<lambda>_. pid) CALLS_PER_ITER) (\<lambda>sink.
           let (t1, w) = clock_monotonic w; el = elapsed t0 t1
           in Ret (0, sink, plain_result (el * 10 ^ 9 / real CALLS_PER_ITER) el, w)))"

definition syscall_uring_measure :: "int \<Rightarrow> world \<Rightarrow> (int \<times> int \<times> measurement_t \<times> world) outcome" where
  "syscall_uring_measure pid w =
     (let (t0, w) = clock_monotonic w
      in out_bind (sum_calls (\<lambda>_. pid) URING_OPS) (\<lambda>sink.
           let (t1, w) = clock_monotonic w; el = elapsed t0 t1
           in Ret (0, sink, plain_result (rate (real URING_OPS) el) el, w)))"

text \<open>\<open>nsec i\<close> is \<^verbatim>\<open>tv_nsec\<close> of the \<open>i\<close>-th reading.\<close>

definition syscall_vdso_measure :: "(nat \<Rightarrow> int) \<Rightarrow> world \<Rightarrow> (int \<times> int \<times> measurement_t \<times> world) outcome" where
  "syscall_vdso_measure nsec w =
     (let (t0, w) = clock_monotonic w
      in out_bind (sum_calls nsec NUM_CALLS) (\<lambda>sink.
           let (t1, w) = clock_monotonic w; el = elapsed t0 t1
           in Ret (0, sink, plain_result (el * 10 ^ 9 / real NUM_CALLS) el, w)))"

lemma sum_calls_defined:
  assumes "\<And>i. 0 \<le> value i \<and> value i < 2 ^ 31" "n \<le> 2 ^ 32"
  shows "\<exists>t. sum_calls value n = Ret t \<and> 0 \<le> t \<and> t \<le> int n * (2 ^ 31)"
  using assms(2)
proof (induction n)
  case (Suc n)
  then obtain t where t: "sum_calls value n = Ret t" "0 \<le> t" "t \<le> int n * 2 ^ 31" by auto
  have v: "0 \<le> value n" "value n < 2 ^ 31" using assms(1) by auto
  have "n \<le> 4294967295" using Suc.prems by simp
  then have "int n \<le> 2 ^ 32 - 1" by simp
  then have "int n * 2 ^ 31 \<le> (2 ^ 32 - 1) * 2 ^ 31" by (intro mult_right_mono) simp_all
  then have "t + value n < 2 ^ 63" using t v by simp
  then show ?case using t v by (simp add: algebra_simps)
qed simp

text \<open>No sum overflows: process numbers and nanoseconds are below \<open>2 ^ 31\<close>.\<close>

lemma syscall_sums_defined:
  assumes "0 \<le> pid" "pid < 2 ^ 31" "\<And>i. 0 \<le> nsec i \<and> nsec i < 10 ^ 9"
  shows "is_ret (syscall_getpid_warmup pid)" "is_ret (syscall_getpid_measure pid w)" "is_ret (syscall_uring_measure pid w)"
    "is_ret (syscall_vdso_measure nsec w)"
proof -
  have c: "CALLS_PER_ITER \<le> 2 ^ 32" "CALLS_PER_ITER div 10 \<le> 2 ^ 32" "URING_OPS \<le> 2 ^ 32" "NUM_CALLS \<le> 2 ^ 32"
    by (simp_all add: CALLS_PER_ITER_def URING_OPS_def NUM_CALLS_def)
  have p: "\<exists>t. sum_calls (\<lambda>_. pid) n = Ret t" if "n \<le> 2 ^ 32" for n
    using sum_calls_defined [of "\<lambda>_. pid" n] assms(1,2) that by auto
  have "0 \<le> nsec i \<and> nsec i < 2 ^ 31" for i using assms(3) [of i] by simp
  then obtain t where "sum_calls nsec NUM_CALLS = Ret t" using sum_calls_defined [of nsec NUM_CALLS] c by auto
  then show "is_ret (syscall_vdso_measure nsec w)" by (simp add: syscall_vdso_measure_def case_prod_beta Let_def)
  show "is_ret (syscall_getpid_warmup pid)" using p [OF c(2)] by (auto simp: syscall_getpid_warmup_def)
  show "is_ret (syscall_getpid_measure pid w)" using p [OF c(1)] by (auto simp: syscall_getpid_measure_def case_prod_beta Let_def)
  show "is_ret (syscall_uring_measure pid w)" using p [OF c(3)] by (auto simp: syscall_uring_measure_def case_prod_beta Let_def)
qed

end
