(* ===== verification/IpcBench.thy ===== *)
theory IpcBench
  imports KernelOps FileBench SysHost
begin

text \<open>
  The kernels in which one thread talks to itself: \<^verbatim>\<open>src/benchmarks/io/ipc_eventfd.c\<close> (the 64-bit counter of an eventfd),
  \<^verbatim>\<open>io/ipc_unix.c\<close> (a socket pair; how much a \<^verbatim>\<open>send\<close> takes is a parameter), \<^verbatim>\<open>io/ipc_signal.c\<close> (a signal that is
  survived only with a handler) and \<^verbatim>\<open>virt/vm_detect.c\<close> (the product name of the machine, a parameter).
\<close>

subsection \<open>ipc-eventfd\<close>

definition EVENTFD_OPS :: nat where "EVENTFD_OPS = 5000000"

text \<open>\<^verbatim>\<open>eventfd(2)\<close> with \<^verbatim>\<open>EFD_NONBLOCK\<close>: a write adds unless the counter would reach \<open>2 ^ 64 - 1\<close>, a read takes everything
  unless the counter is zero; a call that cannot be done at once fails.\<close>

definition efd_write :: "nat \<Rightarrow> nat \<Rightarrow> bool \<times> nat" where
  "efd_write v c = (if c + v < 2 ^ 64 - 1 then (True, c + v) else (False, c))"

definition efd_read :: "nat \<Rightarrow> nat option \<times> nat" where
  "efd_read c = (if c = 0 then (None, c) else (Some c, 0))"

text \<open>\<^verbatim>\<open>write\<close> and \<^verbatim>\<open>read\<close> on the variable \<open>val\<close> and the counter; the flag tells whether both succeeded.\<close>

definition efd_round :: "nat \<times> nat \<Rightarrow> bool \<times> nat \<times> nat" where
  "efd_round = (\<lambda>(val, c). let (ok1, c) = efd_write val c; (r, c) = efd_read c
      in (case r of None \<Rightarrow> (False, val, c) | Some v \<Rightarrow> (ok1, v, c)))"

definition ipc_eventfd_init :: "bool \<Rightarrow> world \<Rightarrow> int \<times> nat option \<times> world" where
  "ipc_eventfd_init opens w =
     (let (p, w) = c_malloc w
      in if \<not> p then (-1, None, w)
         else if \<not> opens then (-1, None, c_free p w) else (0, Some (snd (efd_write 1 0)), w))"

definition ipc_eventfd_warmup :: "nat \<Rightarrow> int \<times> nat" where
  "ipc_eventfd_warmup c = (0, snd (((\<lambda>st. snd (efd_round st)) ^^ 10000) (1, c)))"

fun efd_ops :: "nat \<Rightarrow> nat \<times> int \<times> nat \<Rightarrow> nat \<times> int \<times> nat" where
  "efd_ops 0 st = st"
| "efd_ops (Suc n) (c, total_ops, failed) =
     (let (ok, _, c) = efd_round (1, c) in efd_ops n (c, total_ops + 1, if ok then failed else failed + 1))"

definition ipc_eventfd_measure :: "nat \<Rightarrow> world \<Rightarrow> int \<times> nat \<times> measurement_t \<times> world" where
  "ipc_eventfd_measure c w =
     (let (t0, w) = clock_monotonic w; (c, total_ops, _) = efd_ops EVENTFD_OPS (c, 0, 0); (t1, w) = clock_monotonic w;
          el = elapsed t0 t1
      in (0, c, plain_result (rate (real_of_int total_ops) el) el, w))"

definition ipc_eventfd_cleanup :: "world \<Rightarrow> int \<times> world" where
  "ipc_eventfd_cleanup w = (0, c_free True w)"

text \<open>No call fails, and what is in the counter is taken out by the first read.\<close>

lemma efd_round_ok: "0 < val \<Longrightarrow> c + val < 2 ^ 64 - 1 \<Longrightarrow> efd_round (val, c) = (True, c + val, 0)"
  by (simp add: efd_round_def efd_write_def efd_read_def)

lemma efd_rounds: "0 < val \<Longrightarrow> c + val < 2 ^ 64 - 1 \<Longrightarrow> ((\<lambda>st. snd (efd_round st)) ^^ Suc n) (val, c) = (c + val, 0)"
  by (induction n) (simp_all add: efd_round_ok)

lemma efd_ops_empty: "efd_ops n (0, k, f) = (0, k + int n, f)"
  by (induction n arbitrary: k) (simp_all add: efd_round_ok)

lemma efd_ops_count: "c + 1 < 2 ^ 64 - 1 \<Longrightarrow> efd_ops (Suc n) (c, k, f) = (0, k + int (Suc n), f)"
  by (simp add: efd_round_ok efd_ops_empty)

lemma ipc_eventfd_all_succeed:
  assumes "ipc_eventfd_init True w = (0, Some c, w')"
  shows "ipc_eventfd_warmup c = (0, 0)" "efd_ops EVENTFD_OPS (0, 0, 0) = (0, int EVENTFD_OPS, 0)"
    "efd_ops EVENTFD_OPS (c, 0, 0) = (0, int EVENTFD_OPS, 0)"
proof -
  have c: "c = 1" using assms by (auto simp: ipc_eventfd_init_def efd_write_def case_prod_beta Let_def split: if_splits)
  have "(10000 :: nat) = Suc 9999" by simp
  then show "ipc_eventfd_warmup c = (0, 0)" using efd_rounds [of 1 c 9999] c by (simp only: ipc_eventfd_warmup_def) simp
  have n: "EVENTFD_OPS = Suc 4999999" by (simp add: EVENTFD_OPS_def)
  show "efd_ops EVENTFD_OPS (0, 0, 0) = (0, int EVENTFD_OPS, 0)" unfolding n by (subst efd_ops_count) simp_all
  show "efd_ops EVENTFD_OPS (c, 0, 0) = (0, int EVENTFD_OPS, 0)" unfolding n using c by (subst efd_ops_count) simp_all
qed

subsection \<open>ipc-unix\<close>

definition UNIX_MSG :: nat where "UNIX_MSG = 1024"

definition UNIX_MSGS :: nat where "UNIX_MSGS = 100000"

record ipc_unix_state_t =
  un_queue :: bytes
  un_buffer :: bytes

definition ipc_unix_init :: "bool \<Rightarrow> world \<Rightarrow> int \<times> ipc_unix_state_t option \<times> world" where
  "ipc_unix_init opens w =
     (let (p, w) = c_malloc w
      in if \<not> p then (-1, None, w)
         else if \<not> opens then (-1, None, c_free p w)
         else let (b, w) = c_malloc w
           in if \<not> b then (-1, None, c_free p w) else (0, Some \<lparr>un_queue = [], un_buffer = replicate UNIX_MSG 0x55\<rparr>, w))"

text \<open>\<open>ns\<close> is what \<^verbatim>\<open>send\<close> returns: the bytes taken, or a negative number.\<close>

definition un_send :: "int \<Rightarrow> ipc_unix_state_t \<Rightarrow> ipc_unix_state_t" where
  "un_send ns s = s\<lparr>un_queue := un_queue s @ take (nat ns) (un_buffer s)\<rparr>"

text \<open>\<^verbatim>\<open>recv\<close> of up to \<open>MSG_SIZE\<close> bytes into the same buffer: without a flag it blocks on an empty queue, with
  \<^verbatim>\<open>MSG_WAITALL\<close> until \<open>MSG_SIZE\<close> bytes have come. The only sender is the thread itself, so blocking is for ever, \<open>None\<close>.\<close>

definition un_recv :: "bool \<Rightarrow> ipc_unix_state_t \<Rightarrow> (int \<times> ipc_unix_state_t) option" where
  "un_recv waitall s =
     (let q = un_queue s; nr = min UNIX_MSG (length q)
      in if q = [] \<or> waitall \<and> nr < UNIX_MSG then None
         else Some (int nr, s\<lparr>un_queue := drop nr q, un_buffer := take nr q @ drop nr (un_buffer s)\<rparr>))"

fun unix_warm :: "(nat \<Rightarrow> int) \<Rightarrow> nat \<Rightarrow> ipc_unix_state_t \<Rightarrow> ipc_unix_state_t option" where
  "unix_warm sends 0 s = Some s"
| "unix_warm sends (Suc n) s = Option.bind (unix_warm sends n s) (\<lambda>s. map_option snd (un_recv False (un_send (sends n) s)))"

fun unix_loop :: "(nat \<Rightarrow> int) \<Rightarrow> nat \<Rightarrow> ipc_unix_state_t \<Rightarrow> (ipc_unix_state_t \<times> int) option" where
  "unix_loop sends 0 s = Some (s, 0)"
| "unix_loop sends (Suc n) s = Option.bind (unix_loop sends n s) (\<lambda>(s, total_bytes).
     map_option (\<lambda>(nr, s). (s, if sends n = int UNIX_MSG \<and> nr = int UNIX_MSG then total_bytes + int UNIX_MSG * 2 else total_bytes))
       (un_recv True (un_send (sends n) s)))"

definition ipc_unix_warmup :: "(nat \<Rightarrow> int) \<Rightarrow> ipc_unix_state_t \<Rightarrow> (int \<times> ipc_unix_state_t) option" where
  "ipc_unix_warmup sends s = map_option (\<lambda>s. (0, s)) (unix_warm sends 5000 s)"

definition ipc_unix_measure ::
    "(nat \<Rightarrow> int) \<Rightarrow> ipc_unix_state_t \<Rightarrow> world \<Rightarrow> (int \<times> ipc_unix_state_t \<times> measurement_t \<times> world) option" where
  "ipc_unix_measure sends s w =
     (let (t0, w) = clock_monotonic w
      in map_option (\<lambda>(s, total_bytes). let (t1, w) = clock_monotonic w; el = elapsed t0 t1
                                        in (0, s, plain_result (rate (real_of_int total_bytes) el) el, w))
           (unix_loop sends UNIX_MSGS s))"

definition ipc_unix_cleanup :: "world \<Rightarrow> int \<times> world" where
  "ipc_unix_cleanup w = (0, c_free True (c_free True w))"

text \<open>Sends that take the whole message bring the state back after every round.\<close>

lemma un_round:
  assumes "un_queue s = []" "length (un_buffer s) = UNIX_MSG"
  shows "un_recv waitall (un_send (int UNIX_MSG) s) = Some (int UNIX_MSG, s)"
  using assms by (cases s) (auto simp: un_recv_def un_send_def UNIX_MSG_def)

lemma unix_loop_all:
  assumes "un_queue s = []" "length (un_buffer s) = UNIX_MSG" "\<And>i. i < n \<Longrightarrow> sends i = int UNIX_MSG"
  shows "unix_loop sends n s = Some (s, int n * 2048) \<and> unix_warm sends n s = Some s"
  using assms(3) by (induction n) (simp_all add: un_round [OF assms(1,2)], simp_all add: UNIX_MSG_def)

text \<open>The first send that takes less makes the thread wait for itself: the test of the two lengths never fails, a loop that
  returns has moved every byte.\<close>

lemma un_recv_short: "un_queue s = [] \<Longrightarrow> ns < int UNIX_MSG \<Longrightarrow> un_recv True (un_send ns s) = None"
  by (auto simp: un_recv_def un_send_def Let_def)

lemma unix_loop_returns:
  assumes "un_queue s = []" "length (un_buffer s) = UNIX_MSG" "\<And>i. sends i \<le> int UNIX_MSG" "unix_loop sends n s = Some (t, b)"
  shows "t = s \<and> b = int n * 2048 \<and> (\<forall>i < n. sends i = int UNIX_MSG)"
  using assms(4)
proof (induction n arbitrary: t b)
  case (Suc n)
  then obtain u c where u: "unix_loop sends n s = Some (u, c)" by (auto simp: bind_eq_Some_conv)
  with Suc.IH have IH: "u = s" "c = int n * 2048" "\<forall>i < n. sends i = int UNIX_MSG" by auto
  have "\<not> sends n < int UNIX_MSG"
    using Suc.prems u IH(1) un_recv_short [OF assms(1), of "sends n"] by auto
  then have n: "sends n = int UNIX_MSG" using assms(3) [of n] by simp
  then show ?case
    using Suc.prems u IH un_round [OF assms(1,2), of True] by (auto simp: less_Suc_eq UNIX_MSG_def)
qed simp

subsection \<open>ipc-signal\<close>

definition NUM_SIGNALS :: nat where "NUM_SIGNALS = 200000"

text \<open>What the process does on \<^verbatim>\<open>SIGUSR1\<close>: run the handler, which does nothing, or die (\<open>None\<close>).\<close>

datatype disposition = SigDfl | SigUsr1Handler

fun kill_self :: "disposition \<Rightarrow> disposition option" where
  "kill_self SigUsr1Handler = Some SigUsr1Handler"
| "kill_self SigDfl = None"

fun kill_loop :: "nat \<Rightarrow> disposition \<Rightarrow> disposition option" where
  "kill_loop 0 d = Some d"
| "kill_loop (Suc n) d = Option.bind (kill_self d) (kill_loop n)"

definition ipc_signal_init :: "disposition \<Rightarrow> world \<Rightarrow> int \<times> disposition \<times> world" where
  "ipc_signal_init d w = (let (p, w) = c_malloc w in if \<not> p then (-1, d, w) else (0, SigUsr1Handler, w))"

definition ipc_signal_warmup :: "disposition \<Rightarrow> (int \<times> disposition) option" where
  "ipc_signal_warmup d = map_option (\<lambda>d. (0, d)) (kill_loop 1000 d)"

definition ipc_signal_measure :: "disposition \<Rightarrow> world \<Rightarrow> (int \<times> disposition \<times> measurement_t \<times> world) option" where
  "ipc_signal_measure d w =
     (let (t0, w) = clock_monotonic w
      in map_option (\<lambda>d. let (t1, w) = clock_monotonic w; el = elapsed t0 t1
                         in (0, d, plain_result (rate (real NUM_SIGNALS) el) el, w)) (kill_loop NUM_SIGNALS d))"

definition ipc_signal_cleanup :: "world \<Rightarrow> int \<times> disposition \<times> world" where
  "ipc_signal_cleanup w = (0, SigDfl, c_free True w)"

lemma kill_loop_handler: "kill_loop n SigUsr1Handler = Some SigUsr1Handler"
  by (induction n) simp_all

text \<open>Between \<open>init\<close> and \<open>cleanup\<close> the process survives its signals.\<close>

lemma ipc_signal_survives:
  assumes "ipc_signal_init d w = (0, e, w')"
  shows "ipc_signal_warmup e = Some (0, e)" "ipc_signal_measure e v \<noteq> None"
  using assms
  by (auto simp: ipc_signal_init_def ipc_signal_warmup_def ipc_signal_measure_def kill_loop_handler case_prod_beta Let_def
      split: if_splits)

subsection \<open>vm-detect\<close>

definition DETECT_ITERS :: nat where "DETECT_ITERS = 1000000"

text \<open>\<open>product\<close> is the text of \<^verbatim>\<open>/sys/class/dmi/id/product_name\<close>, \<open>None\<close> when it cannot be opened.\<close>

definition detect_hypervisor :: "string option \<Rightarrow> string" where
  "detect_hypervisor product =
     (case Option.bind product (fgets_first 256) of
        None \<Rightarrow> ''bare-metal''
      | Some buf \<Rightarrow>
          if contains buf ''KVM'' \<or> contains buf ''kvm'' then ''KVM''
          else if contains buf ''VMware'' then ''VMware''
          else if contains buf ''VirtualBox'' then ''VirtualBox''
          else ''bare-metal'')"

definition vm_detect_init :: "world \<Rightarrow> int \<times> world" where
  "vm_detect_init w = (let (p, w) = c_malloc w in if \<not> p then (-1, w) else (0, w))"

definition vm_detect_warmup :: "string option \<Rightarrow> int \<times> string" where
  "vm_detect_warmup product = (0, detect_hypervisor product)"

text \<open>The second component is \<^verbatim>\<open>hv_result\<close>, which the measurement throws away.\<close>

definition vm_detect_measure :: "string option \<Rightarrow> world \<Rightarrow> int \<times> string option \<times> measurement_t \<times> world" where
  "vm_detect_measure product w =
     (let (t0, w) = clock_monotonic w;
          hv_result = foldl (\<lambda>_ _. Some (detect_hypervisor product)) None [0..<DETECT_ITERS];
          (t1, w) = clock_monotonic w; el = elapsed t0 t1
      in (0, hv_result, plain_result (el * 10 ^ 9 / real DETECT_ITERS) el, w))"

definition vm_detect_cleanup :: "world \<Rightarrow> int \<times> world" where
  "vm_detect_cleanup w = (0, c_free True w)"

text \<open>An answer other than \<open>bare-metal\<close> has its reason in the first line of the file, and only there.\<close>

lemma detect_hypervisor_first_line:
  assumes "CHR 0x0A \<notin> set l" "length l < 255"
  shows "detect_hypervisor (Some (l @ CHR 0x0A # rest)) = detect_hypervisor (Some (l @ [CHR 0x0A]))"
  using assms by (simp add: detect_hypervisor_def fgets_first_line)

lemma detect_hypervisor_sound:
  "detect_hypervisor product \<noteq> ''bare-metal'' \<Longrightarrow>
   \<exists>s a key b. product = Some s \<and> fgets_first 256 s = Some (a @ key @ b) \<and> key \<in> {''KVM'', ''kvm'', ''VMware'', ''VirtualBox''}"
  by (auto simp: detect_hypervisor_def bind_eq_Some_conv split: option.splits if_splits dest!: contains_cut)

text \<open>The usual product name of a KVM guest under QEMU is not recognised.\<close>

lemma detect_hypervisor_qemu: "detect_hypervisor (Some (''Standard PC (Q35 + ICH9, 2009)'' @ [CHR 0x0A])) = ''bare-metal''"
  by code_simp

end
