(* ===== verification/AtomicBench.thy ===== *)
theory AtomicBench
  imports Finishing KernelOps
begin

text \<open>
  The kernels on atomic counters: \<^verbatim>\<open>src/benchmarks/os/cswitch_smt.c\<close> (two threads, a counter each, as a step relation over all
  interleavings), \<^verbatim>\<open>memory/numa_false_sharing.c\<close> (where the counters lie with respect to cache lines, the line size being
  what \<^verbatim>\<open>sysconf\<close> answers) and \<^verbatim>\<open>sync/sync_spinlock.c\<close> (a lock that only one thread takes).
\<close>

subsection \<open>cswitch-smt\<close>

definition ITER_COUNT :: nat where "ITER_COUNT = 25000000"

text \<open>The measuring thread before \<^verbatim>\<open>pthread_create\<close>, spinning on \<^verbatim>\<open>ready\<close>, with \<open>k\<close> rounds to go, after the join.\<close>

datatype ping_pc = PingCreate | PingSpin | Ping nat | PingEnd

datatype pong_pc = PongAbsent | PongStart | Pong nat

record smt_sys =
  sm_main :: ping_pc
  sm_thread :: pong_pc
  ping_count :: int
  pong_count :: int
  sm_ready :: bool

text \<open>\<open>measure\<close> resets the flag and both counters, whatever the warm-up left.\<close>

definition smt_start :: "smt_sys \<Rightarrow> smt_sys" where
  "smt_start s = s\<lparr>sm_main := PingCreate, sm_thread := PongAbsent, ping_count := 0, pong_count := 0, sm_ready := False\<rparr>"

inductive smt_step :: "nat \<Rightarrow> smt_sys \<Rightarrow> smt_sys \<Rightarrow> bool" for n where
  create: "sm_main s = PingCreate \<Longrightarrow> smt_step n s (s\<lparr>sm_main := PingSpin, sm_thread := PongStart\<rparr>)"
| released: "sm_main s = PingSpin \<Longrightarrow> sm_ready s \<Longrightarrow> smt_step n s (s\<lparr>sm_main := Ping n\<rparr>)"
| ping: "sm_main s = Ping (Suc k) \<Longrightarrow> smt_step n s (s\<lparr>sm_main := Ping k, ping_count := ping_count s + 1\<rparr>)"
| join: "sm_main s = Ping 0 \<Longrightarrow> sm_thread s = Pong 0 \<Longrightarrow> smt_step n s (s\<lparr>sm_main := PingEnd\<rparr>)"
| ready: "sm_thread s = PongStart \<Longrightarrow> smt_step n s (s\<lparr>sm_thread := Pong n, sm_ready := True\<rparr>)"
| pong: "sm_thread s = Pong (Suc k) \<Longrightarrow> smt_step n s (s\<lparr>sm_thread := Pong k, pong_count := pong_count s + 1\<rparr>)"

inductive_cases smt_stepE: "smt_step n s s'"

definition smt_finished :: "smt_sys \<Rightarrow> bool" where
  "smt_finished s \<longleftrightarrow> sm_main s = PingEnd"

definition smt_result :: "smt_sys \<Rightarrow> real \<Rightarrow> measurement_t" where
  "smt_result s seconds = plain_result (rate (real_of_int (ping_count s + pong_count s)) seconds) seconds"

definition cswitch_smt_init :: "world \<Rightarrow> int \<times> smt_sys option \<times> world" where
  "cswitch_smt_init w =
     (let (p, w) = c_malloc w
      in if \<not> p then (-1, None, w)
         else (0, Some \<lparr>sm_main = PingCreate, sm_thread = PongAbsent, ping_count = 0, pong_count = 0, sm_ready = False\<rparr>, w))"

definition cswitch_smt_warmup :: "smt_sys \<Rightarrow> int \<times> smt_sys" where
  "cswitch_smt_warmup s = (0, ((\<lambda>s. s\<lparr>ping_count := ping_count s + 1, pong_count := pong_count s + 1\<rparr>) ^^ 100000) s)"

text \<open>\<open>run\<close> is an execution of the two threads from the start state, \<open>None\<close> when the thread cannot be created.\<close>

definition cswitch_smt_measure :: "(smt_sys \<Rightarrow> smt_sys option) \<Rightarrow> smt_sys \<Rightarrow> world \<Rightarrow> int \<times> smt_sys \<times> measurement_t \<times> world" where
  "cswitch_smt_measure run s w =
     (case run (smt_start s) of
        None \<Rightarrow> (-1, smt_start s, plain_result 0 0, w)
      | Some s \<Rightarrow>
          let (t0, w) = clock_monotonic w; (t1, w) = clock_monotonic w
          in (0, s, smt_result s (elapsed t0 t1), w))"

definition cswitch_smt_cleanup :: "world \<Rightarrow> int \<times> world" where
  "cswitch_smt_cleanup w = (0, c_free True w)"

fun ping_rest :: "nat \<Rightarrow> ping_pc \<Rightarrow> nat" where
  "ping_rest n PingCreate = n"
| "ping_rest n PingSpin = n"
| "ping_rest n (Ping k) = k"
| "ping_rest n PingEnd = 0"

fun pong_rest :: "nat \<Rightarrow> pong_pc \<Rightarrow> nat" where
  "pong_rest n PongAbsent = n"
| "pong_rest n PongStart = n"
| "pong_rest n (Pong k) = k"

fun smt_order :: "ping_pc \<Rightarrow> pong_pc \<Rightarrow> bool \<Rightarrow> bool" where
  "smt_order PingCreate q r \<longleftrightarrow> q = PongAbsent \<and> \<not> r"
| "smt_order PingSpin q r \<longleftrightarrow> (if r then \<exists>k. q = Pong k else q = PongStart)"
| "smt_order (Ping k) q r \<longleftrightarrow> r \<and> (\<exists>k. q = Pong k)"
| "smt_order PingEnd q r \<longleftrightarrow> r \<and> q = Pong 0"

definition smt_inv :: "nat \<Rightarrow> smt_sys \<Rightarrow> bool" where
  "smt_inv n s \<longleftrightarrow> ping_count s + int (ping_rest n (sm_main s)) = int n \<and>
     pong_count s + int (pong_rest n (sm_thread s)) = int n \<and> smt_order (sm_main s) (sm_thread s) (sm_ready s)"

fun ping_mu :: "ping_pc \<Rightarrow> nat" where
  "ping_mu PingCreate = 3"
| "ping_mu PingSpin = 2"
| "ping_mu (Ping k) = 1"
| "ping_mu PingEnd = 0"

fun pong_mu :: "pong_pc \<Rightarrow> nat" where
  "pong_mu PongAbsent = 1"
| "pong_mu PongStart = 1"
| "pong_mu (Pong k) = 0"

definition smt_mu :: "nat \<Rightarrow> smt_sys \<Rightarrow> nat" where
  "smt_mu n s = ping_rest n (sm_main s) + pong_rest n (sm_thread s) + ping_mu (sm_main s) + pong_mu (sm_thread s)"

lemma smt_order_thread:
  "smt_order p PongStart r \<Longrightarrow> p = PingSpin \<and> \<not> r"
  "smt_order p (Pong (Suc k)) r \<Longrightarrow> r \<and> (p = PingSpin \<or> (\<exists>j. p = Ping j))"
  by (cases p; simp split: if_splits)+

lemma smt_inv_step:
  assumes "smt_step n s t" "smt_inv n s"
  shows "smt_inv n t"
  using assms by cases (auto simp: smt_inv_def dest: smt_order_thread)

lemma smt_mu_step:
  assumes "smt_step n s t" "smt_inv n s"
  shows "smt_mu n t < smt_mu n s"
  using assms by cases (auto simp: smt_mu_def smt_inv_def)

lemma smt_progress: "smt_inv n s \<Longrightarrow> \<not> smt_finished s \<Longrightarrow> \<exists>t. smt_step n s t"
proof (cases "sm_main s")
  case (Ping k)
  assume "smt_inv n s"
  then obtain j where q: "sm_thread s = Pong j" using Ping by (auto simp: smt_inv_def)
  show ?thesis
  proof (cases k)
    case 0
    then show ?thesis using Ping q by (cases j) (blast intro: smt_step.join smt_step.pong)+
  qed (use Ping in \<open>blast intro: smt_step.ping\<close>)
qed (auto simp: smt_inv_def smt_finished_def split: if_splits intro: smt_step.intros)

interpretation smt: finishing_system "smt_step n" "smt_inv n" "smt_mu n" smt_finished
  by unfold_locales (auto intro: smt_inv_step smt_mu_step smt_progress)

lemma smt_inv_start: "smt_inv n (smt_start s)"
  by (simp add: smt_inv_def smt_start_def)

text \<open>
  Whatever the warm-up left and however the two threads interleave, the measurement ends, both counters have then
  reached \<^verbatim>\<open>ITER_COUNT\<close>, and the result is the rate of twice that many operations.
\<close>

theorem cswitch_smt_counts:
  "always_ends (smt_step ITER_COUNT) smt_finished (smt_start s) \<and>
   (\<forall>t seconds. (smt_step ITER_COUNT)\<^sup>*\<^sup>* (smt_start s) t \<longrightarrow> smt_finished t \<longrightarrow>
      smt_result t seconds = plain_result (rate 50000000 seconds) seconds)"
proof (intro conjI allI impI)
  show "always_ends (smt_step ITER_COUNT) smt_finished (smt_start s)" by (rule smt.ends [OF smt_inv_start])
  fix t seconds assume r: "(smt_step ITER_COUNT)\<^sup>*\<^sup>* (smt_start s) t" and f: "smt_finished t"
  have "smt_inv ITER_COUNT t" by (rule smt.reach_inv [OF r smt_inv_start])
  then have "ping_count t = int ITER_COUNT" "pong_count t = int ITER_COUNT" using f by (auto simp: smt_inv_def smt_finished_def)
  then show "smt_result t seconds = plain_result (rate 50000000 seconds) seconds" by (simp add: smt_result_def ITER_COUNT_def)
qed

theorem cswitch_smt_counts_witness:
  "\<forall>init. \<exists>t. (smt_step ITER_COUNT)\<^sup>*\<^sup>* (smt_start (snd (cswitch_smt_warmup init))) t \<and> smt_finished t \<and>
     smt_result t 1 = plain_result (rate 50000000 1) 1"
  using cswitch_smt_counts smt.can_finish [OF smt_inv_start] by blast

subsection \<open>numa-false-sharing\<close>

definition FS_ITERATIONS :: nat where "FS_ITERATIONS = 50000000"

text \<open>
  The structure is 48 bytes long and starts on a cache line. The memory of the block is a map from the offset of an aligned
  8-byte word to its value; \<^verbatim>\<open>nthreads\<close> is the lower half of the word at 32.
\<close>

definition OFF_A :: nat where "OFF_A = 0"
definition OFF_B :: nat where "OFF_B = 8"
definition OFF_X :: nat where "OFF_X = 16"
definition OFF_NTHREADS :: nat where "OFF_NTHREADS = 32"
definition OFF_CLS :: nat where "OFF_CLS = 40"

lemmas false_sharing_offsets = OFF_A_def OFF_B_def OFF_X_def OFF_NTHREADS_def OFF_CLS_def

record fs_state =
  fs_words :: "nat \<Rightarrow> int"
  fs_alloc :: nat

definition put_word :: "nat \<Rightarrow> int \<Rightarrow> fs_state \<Rightarrow> fs_state outcome" where
  "put_word off v s = (if off + 8 \<le> fs_alloc s then Ret (s\<lparr>fs_words := (fs_words s)(off := v)\<rparr>) else Undef OobWrite)"

definition line_size :: "int \<Rightarrow> nat" where
  "line_size answer = nat (if answer \<le> 0 then 64 else answer)"

definition numa_false_sharing_init :: "int \<Rightarrow> int \<Rightarrow> world \<Rightarrow> (int \<times> fs_state option \<times> world) outcome" where
  "numa_false_sharing_init answer ncpu w =
     (let cls = line_size answer; alloc_sz = cls * 4; (p, w) = c_malloc w
      in if \<not> p then Ret (-1, None, w)
         else out_bind (put_word OFF_NTHREADS (if SSB_NUM_CPUS ncpu < 2 then 2 else SSB_NUM_CPUS ncpu)
                          \<lparr>fs_words = \<lambda>_. 0, fs_alloc = (alloc_sz + cls - 1) div cls * cls\<rparr>) (\<lambda>s.
              out_bind (put_word OFF_CLS (int cls) s) (\<lambda>s. Ret (0, Some s, w))))"

definition numa_false_sharing_warmup :: "fs_state \<Rightarrow> int \<times> fs_state" where
  "numa_false_sharing_warmup s = (0, s\<lparr>fs_words := (fs_words s)(OFF_X := fs_words s OFF_X + 100000)\<rparr>)"

text \<open>
  \<^verbatim>\<open>fs_worker\<close>, and a phase: both counters are set to zero, then two threads count to \<^verbatim>\<open>ITERATIONS\<close>, one on each. The
  counters are different words, so the threads do not see each other.
\<close>

definition fs_worker :: "nat \<Rightarrow> fs_state \<Rightarrow> fs_state outcome" where
  "fs_worker off s = put_word off (fs_words s off + int FS_ITERATIONS) s"

definition fs_phase :: "nat \<Rightarrow> nat \<Rightarrow> fs_state \<Rightarrow> fs_state outcome" where
  "fs_phase p q s =
     out_bind (put_word p 0 s) (\<lambda>s. out_bind (put_word q 0 s) (\<lambda>s. out_bind (fs_worker p s) (fs_worker q)))"

definition numa_false_sharing_measure :: "fs_state \<Rightarrow> world \<Rightarrow> (int \<times> fs_state \<times> measurement_t \<times> world) outcome" where
  "numa_false_sharing_measure s w =
     (let cls = nat (fs_words s OFF_CLS); (t0, w) = clock_monotonic w
      in out_bind (fs_phase OFF_A OFF_B s) (\<lambda>s.
           let (t1, w) = clock_monotonic w; fs_elapsed = elapsed t0 t1; fs_rate = rate (2 * real FS_ITERATIONS) fs_elapsed;
               (t0, w) = clock_monotonic w
           in out_bind (fs_phase cls (2 * cls) s) (\<lambda>s.
                let (t1, w) = clock_monotonic w; ns_elapsed = elapsed t0 t1; ns_rate = rate (2 * real FS_ITERATIONS) ns_elapsed;
                    penalty = (if 0 < ns_rate then fs_rate / ns_rate else 1)
                in Ret (0, s, plain_result penalty (fs_elapsed + ns_elapsed), w))))"

definition numa_false_sharing_cleanup :: "world \<Rightarrow> int \<times> world" where
  "numa_false_sharing_cleanup w = (0, c_free True w)"

text \<open>The cache line of an offset, the block being aligned.\<close>

definition line_of :: "nat \<Rightarrow> nat \<Rightarrow> nat" where
  "line_of cls off = off div cls"

text \<open>
  With lines of 16 bytes or more the two phases do what their names say: the counters of the first share a line, those of the
  second do not, all of them lie in the block, and the stored line size is not overwritten.
\<close>

lemma put_word_in: "off + 8 \<le> fs_alloc s \<Longrightarrow> put_word off v s = Ret (s\<lparr>fs_words := (fs_words s)(off := v)\<rparr>)"
  by (simp add: put_word_def)

lemma false_sharing_layout:
  assumes "16 \<le> cls"
  shows "line_of cls OFF_A = line_of cls OFF_B" "line_of cls cls \<noteq> line_of cls (2 * cls)"
    "2 * cls + 8 \<le> 4 * cls"
  using assms by (simp_all add: line_of_def false_sharing_offsets)

lemma fs_phase_counts:
  assumes "p \<noteq> q" "p + 8 \<le> fs_alloc s" "q + 8 \<le> fs_alloc s"
  shows "fs_phase p q s = Ret (s\<lparr>fs_words := (fs_words s)(p := int FS_ITERATIONS, q := int FS_ITERATIONS)\<rparr>)"
  using assms by (simp add: fs_phase_def fs_worker_def put_word_in fun_upd_twist fun_upd_def) (auto simp: fun_eq_iff)

lemma numa_false_sharing_init_defined:
  assumes "16 \<le> line_size answer"
  shows "\<exists>r st w'. numa_false_sharing_init answer ncpu w = Ret (r, st, w') \<and>
    (\<forall>s. st = Some s \<longrightarrow> fs_words s OFF_CLS = int (line_size answer) \<and> fs_alloc s = 4 * line_size answer)"
proof -
  let ?c = "line_size answer"
  have "(?c * 4 + ?c - 1) div ?c = 4" using assms by (intro div_nat_eqI) simp_all
  then show ?thesis
    using assms by (auto simp: numa_false_sharing_init_def put_word_in false_sharing_offsets case_prod_beta Let_def)
qed

text \<open>A line of 8 bytes makes \<open>init\<close> write past its block.\<close>

lemma false_sharing_small_lines:
  assumes "fst (c_malloc w)"
  shows "numa_false_sharing_init 8 ncpu w = Undef OobWrite"
  using assms by (simp add: numa_false_sharing_init_def line_size_def put_word_def false_sharing_offsets case_prod_beta Let_def)

subsection \<open>sync-spinlock\<close>

definition SPIN_OPS :: nat where "SPIN_OPS = 5000000"

record sync_spinlock_state_t =
  sl_locked :: bool
  sl_counter :: int

text \<open>Taking the lock while it is held spins for ever: \<open>None\<close>, as only one thread runs.\<close>

definition spin_lock :: "sync_spinlock_state_t \<Rightarrow> sync_spinlock_state_t option" where
  "spin_lock s = (if sl_locked s then None else Some (s\<lparr>sl_locked := True\<rparr>))"

definition spin_unlock :: "sync_spinlock_state_t \<Rightarrow> sync_spinlock_state_t" where
  "spin_unlock s = s\<lparr>sl_locked := False\<rparr>"

definition spin_round :: "sync_spinlock_state_t \<times> int \<Rightarrow> (sync_spinlock_state_t \<times> int) option" where
  "spin_round = (\<lambda>(s, sink).
     case spin_lock s of
       None \<Rightarrow> None
     | Some s \<Rightarrow> let s = s\<lparr>sl_counter := sl_counter s + 1\<rparr>; sink = sink + sl_counter s in Some (spin_unlock s, sink))"

fun spin_loop :: "nat \<Rightarrow> sync_spinlock_state_t \<times> int \<Rightarrow> (sync_spinlock_state_t \<times> int) option" where
  "spin_loop 0 st = Some st"
| "spin_loop (Suc n) st = Option.bind (spin_round st) (spin_loop n)"

definition sync_spinlock_init :: "world \<Rightarrow> int \<times> sync_spinlock_state_t option \<times> world" where
  "sync_spinlock_init w =
     (let (p, w) = c_malloc w in if \<not> p then (-1, None, w) else (0, Some \<lparr>sl_locked = False, sl_counter = 0\<rparr>, w))"

definition sync_spinlock_warmup :: "sync_spinlock_state_t \<Rightarrow> (int \<times> sync_spinlock_state_t) option" where
  "sync_spinlock_warmup s = map_option (\<lambda>(s, _). (0, s)) (spin_loop 100000 (s, 0))"

definition sync_spinlock_measure ::
    "sync_spinlock_state_t \<Rightarrow> world \<Rightarrow> (int \<times> sync_spinlock_state_t \<times> int \<times> measurement_t \<times> world) option" where
  "sync_spinlock_measure s w =
     (let s = s\<lparr>sl_counter := 0\<rparr>; (t0, w) = clock_monotonic w
      in map_option (\<lambda>(s, sink). let (t1, w) = clock_monotonic w; el = elapsed t0 t1
                                 in (0, s, sink, plain_result (rate (real SPIN_OPS) el) el, w))
           (spin_loop SPIN_OPS (s, 0)))"

definition sync_spinlock_cleanup :: "world \<Rightarrow> int \<times> world" where
  "sync_spinlock_cleanup w = (0, c_free True w)"

lemma triangle_Suc: "Suc n * (Suc n + 1) div 2 = n * (n + 1) div 2 + Suc n"
  by simp

lemma spin_loop_counts:
  "\<not> sl_locked s \<Longrightarrow>
   spin_loop n (s, sink) =
     Some (s\<lparr>sl_locked := False, sl_counter := sl_counter s + int n\<rparr>, sink + int n * sl_counter s + int (n * (n + 1) div 2))"
proof (induction n arbitrary: s sink)
  case 0
  then show ?case by (cases s) simp
next
  case (Suc n)
  let ?s = "s\<lparr>sl_counter := sl_counter s + 1, sl_locked := False\<rparr>"
  have "spin_loop (Suc n) (s, sink) = spin_loop n (?s, sink + (sl_counter s + 1))"
    using Suc.prems by (simp add: spin_round_def spin_lock_def spin_unlock_def)
  also have "\<dots> = Some (s\<lparr>sl_locked := False, sl_counter := sl_counter s + int (Suc n)\<rparr>,
      sink + int (Suc n) * sl_counter s + (int (n * (n + 1) div 2) + int (Suc n)))"
    by (subst Suc.IH [of ?s]) (cases s; simp add: algebra_simps)+
  also have "int (n * (n + 1) div 2) + int (Suc n) = int (Suc n * (Suc n + 1) div 2)"
    by (simp only: triangle_Suc of_nat_add)
  finally show ?case .
qed

text \<open>The lock is always free when it is taken, and the sums stay far below \<open>2 ^ 63\<close>.\<close>

lemma sync_spinlock_measure_returns:
  assumes "\<not> sl_locked s"
  shows "\<exists>s' sec w'. sync_spinlock_measure s w = Some (0, s', 5000000 * 5000001 div 2, plain_result (rate 5000000 sec) sec, w') \<and>
    \<not> sl_locked s' \<and> sl_counter s' = 5000000"
proof -
  have t: "int (SPIN_OPS * (SPIN_OPS + 1) div 2) = 5000000 * 5000001 div 2" by (simp add: SPIN_OPS_def)
  show ?thesis
    using assms t by (auto simp: sync_spinlock_measure_def spin_loop_counts SPIN_OPS_def case_prod_beta Let_def)
qed

end
