(* ===== verification/GcmBench.thy ===== *)
theory GcmBench
  imports KernelOps FileBench RegexBench
begin

text \<open>
  \<^verbatim>\<open>src/benchmarks/crypto/crypto_aes_gcm_decrypt.c\<close> and \<^verbatim>\<open>crypto_zstd.c\<close>. OpenSSL's AES-256-GCM and zstd's compressor are
  parameters; the buffers, their sizes and what is written to them are the code's. Bytes nobody has written are \<open>None\<close>.
\<close>

subsection \<open>crypto-aes-gcm-decrypt\<close>

definition GCM_CHUNK :: nat where "GCM_CHUNK = 64 * 1024"

definition GCM_CHUNKS :: nat where "GCM_CHUNKS = 200"

definition GCM_KEY_SZ :: nat where "GCM_KEY_SZ = 32"

definition GCM_IV_SZ :: nat where "GCM_IV_SZ = 12"

definition GCM_TAG_SZ :: nat where "GCM_TAG_SZ = 16"

lemmas gcm_sizes = GCM_CHUNK_def GCM_CHUNKS_def GCM_KEY_SZ_def GCM_IV_SZ_def GCM_TAG_SZ_def

text \<open>The library: encryption and decryption under key and nonce, which keep the length, and the tag of a ciphertext.\<close>

record evp_gcm =
  gcm_encrypt :: "bytes \<Rightarrow> bytes \<Rightarrow> bytes \<Rightarrow> bytes"
  gcm_decrypt :: "bytes \<Rightarrow> bytes \<Rightarrow> bytes \<Rightarrow> bytes"
  gcm_tag :: "bytes \<Rightarrow> bytes \<Rightarrow> bytes \<Rightarrow> bytes"

definition gcm_lengths :: "evp_gcm \<Rightarrow> bool" where
  "gcm_lengths lib \<longleftrightarrow> (\<forall>k iv p. length (gcm_encrypt lib k iv p) = length p) \<and> (\<forall>k iv c. length (gcm_decrypt lib k iv c) = length c)"

record aes_dec_state_t =
  ad_ciphertext :: "8 word option list"
  ad_plaintext :: bytes
  ad_key :: bytes
  ad_iv :: bytes
  ad_tag :: "bytes option"

text \<open>
  \<open>init\<close>: six allocations, random plaintext, key and nonce, and one encryption, whose calls are not checked: \<open>works\<close> tells whether
  they succeed. A context that cannot be allocated is handed to the library all the same.
\<close>

definition crypto_aes_gcm_decrypt_init ::
    "evp_gcm \<Rightarrow> bool \<Rightarrow> world \<Rightarrow> (int \<times> aes_dec_state_t option \<times> world) outcome" where
  "crypto_aes_gcm_decrypt_init lib works w =
     (let (p, w) = c_malloc w in
      if \<not> p then Ret (-1, None, w)
      else let (a, w) = c_malloc w; (b, w) = c_malloc w; (c, w) = c_malloc w; (d, w) = c_malloc w; (e, w) = c_malloc w
        in if \<not> a \<or> \<not> b \<or> \<not> c \<or> \<not> d \<or> \<not> e
           then Ret (-1, None, c_free p (c_free e (c_free d (c_free c (c_free b (c_free a w))))))
           else let (plain, w) = rand_bytes GCM_CHUNK w; (key, w) = rand_bytes GCM_KEY_SZ w; (iv, w) = rand_bytes GCM_IV_SZ w;
                    (ctx, w) = c_malloc w
             in if \<not> ctx then Undef NullDeref
                else let cipher = gcm_encrypt lib key iv plain
                  in Ret (0, Some \<lparr>ad_ciphertext = (if works then map Some cipher @ replicate GCM_TAG_SZ None
                                                  else replicate (GCM_CHUNK + GCM_TAG_SZ) None),
                                  ad_plaintext = plain, ad_key = key, ad_iv = iv,
                                  ad_tag = (if works then Some (gcm_tag lib key iv cipher) else None)\<rparr>, c_free ctx w))"

text \<open>\<^verbatim>\<open>EVP_DecryptUpdate\<close> on \<open>n\<close> bytes of the ciphertext writes as many bytes to the plaintext.\<close>

definition evp_decrypt_update :: "evp_gcm \<Rightarrow> nat \<Rightarrow> aes_dec_state_t \<Rightarrow> (bytes \<times> aes_dec_state_t) outcome" where
  "evp_decrypt_update lib n s =
     (if length (ad_plaintext s) < n then Undef OobWrite
      else if None \<in> set (take n (ad_ciphertext s)) then Undef UninitRead
      else let c = map the (take n (ad_ciphertext s))
        in Ret (c, s\<lparr>ad_plaintext := gcm_decrypt lib (ad_key s) (ad_iv s) c @ drop n (ad_plaintext s)\<rparr>))"

text \<open>\<open>ans i\<close>: the \<open>i\<close>-th call of the library that may fail for reasons of its own succeeds. \<^verbatim>\<open>EVP_DecryptFinal_ex\<close> compares the tag
  that was set with that of what was decrypted. In the warm-up the call that sets the tag is not checked.\<close>

definition crypto_aes_gcm_decrypt_warmup ::
    "evp_gcm \<Rightarrow> (nat \<Rightarrow> bool) \<Rightarrow> aes_dec_state_t \<Rightarrow> world \<Rightarrow> (int \<times> aes_dec_state_t \<times> world) outcome" where
  "crypto_aes_gcm_decrypt_warmup lib ans s w =
     (let (ctx, w) = c_malloc w in
      if \<not> ctx then Ret (-1, s, w)
      else if \<not> ans 0 \<or> \<not> ans 1 \<or> \<not> ans 2 then Ret (-1, s, c_free ctx w)
      else out_bind (evp_decrypt_update lib (GCM_CHUNK div 4) s) (\<lambda>(c, s).
        Ret (if ans 3 \<and> ad_tag s = Some (gcm_tag lib (ad_key s) (ad_iv s) c) then 0 else -1, s, c_free ctx w)))"

text \<open>One chunk of the measurement, with the number of the next call; the flag tells that all calls returned 1.\<close>

definition gcm_decrypt_chunk ::
    "evp_gcm \<Rightarrow> (nat \<Rightarrow> bool) \<Rightarrow> nat \<Rightarrow> aes_dec_state_t \<Rightarrow> (bool \<times> aes_dec_state_t) outcome" where
  "gcm_decrypt_chunk lib ans k s =
     (if \<not> ans k \<or> \<not> ans (k + 1) \<or> \<not> ans (k + 2) then Ret (False, s)
      else out_bind (evp_decrypt_update lib (GCM_CHUNK + GCM_TAG_SZ) s) (\<lambda>(c, s).
        Ret (ans (k + 3) \<and> ad_tag s = Some (gcm_tag lib (ad_key s) (ad_iv s) c), s)))"

fun gcm_decrypt_loop ::
    "evp_gcm \<Rightarrow> (nat \<Rightarrow> bool) \<Rightarrow> nat \<Rightarrow> nat \<Rightarrow> aes_dec_state_t \<Rightarrow> (bool \<times> aes_dec_state_t) outcome" where
  "gcm_decrypt_loop lib ans k 0 s = Ret (True, s)"
| "gcm_decrypt_loop lib ans k (Suc n) s =
     out_bind (gcm_decrypt_chunk lib ans k s) (\<lambda>(ok, s). if ok then gcm_decrypt_loop lib ans (k + 4) n s else Ret (False, s))"

definition crypto_aes_gcm_decrypt_measure ::
    "evp_gcm \<Rightarrow> (nat \<Rightarrow> bool) \<Rightarrow> aes_dec_state_t \<Rightarrow> world \<Rightarrow> (int \<times> aes_dec_state_t \<times> measurement_t \<times> world) outcome" where
  "crypto_aes_gcm_decrypt_measure lib ans s w =
     (let (ctx, w) = c_malloc w in
      if \<not> ctx then Ret (-1, s, plain_result 0 0, w)
      else let (t0, w) = clock_monotonic w
        in out_bind (gcm_decrypt_loop lib ans 0 GCM_CHUNKS s) (\<lambda>(ok, s).
             let (t1, w) = clock_monotonic w; w = c_free ctx w; el = elapsed t0 t1
             in if ok then Ret (0, s, plain_result (rate (real (GCM_CHUNKS * GCM_CHUNK)) el) el, w)
                else Ret (-1, s, plain_result 0 0, w)))"

definition crypto_aes_gcm_decrypt_cleanup :: "world \<Rightarrow> int \<times> world" where
  "crypto_aes_gcm_decrypt_cleanup w =
     (0, c_free True (c_free True (c_free True (c_free True (c_free True (c_free True w))))))"

lemma init_state:
  assumes "crypto_aes_gcm_decrypt_init lib works w = Ret (0, Some s, v)" "gcm_lengths lib"
  shows "length (ad_plaintext s) = GCM_CHUNK"
    "works \<Longrightarrow> \<exists>cipher. length cipher = GCM_CHUNK \<and> ad_ciphertext s = map Some cipher @ replicate GCM_TAG_SZ None \<and>
       ad_tag s = Some (gcm_tag lib (ad_key s) (ad_iv s) cipher)"
  using assms by (auto simp: crypto_aes_gcm_decrypt_init_def gcm_lengths_def case_prod_beta Let_def split: if_splits)

lemma update_overflows:
  assumes "length (ad_plaintext s) = GCM_CHUNK"
  shows "evp_decrypt_update lib (GCM_CHUNK + GCM_TAG_SZ) s = Undef OobWrite"
  using assms by (simp add: evp_decrypt_update_def gcm_sizes)

lemma decrypt_loop_fails:
  assumes "length (ad_plaintext s) = GCM_CHUNK"
  shows "gcm_decrypt_loop lib ans k (Suc n) s = (if ans k \<and> ans (k + 1) \<and> ans (k + 2) then Undef OobWrite else Ret (False, s))"
  using update_overflows [OF assms] by (simp add: gcm_decrypt_chunk_def)

lemma measure_fails:
  assumes "length (ad_plaintext s) = GCM_CHUNK"
  shows "crypto_aes_gcm_decrypt_measure lib ans s w =
    (if fst (c_malloc w) \<and> ans 0 \<and> ans 1 \<and> ans 2 then Undef OobWrite
     else Ret (-1, s, plain_result 0 0, if fst (c_malloc w) then c_free True (snd (clock_monotonic (snd (clock_monotonic (snd (c_malloc w))))))
               else snd (c_malloc w)))"
proof -
  have n: "GCM_CHUNKS = Suc 199" by (simp add: gcm_sizes)
  have l: "gcm_decrypt_loop lib ans 0 GCM_CHUNKS s = (if ans 0 \<and> ans 1 \<and> ans 2 then Undef OobWrite else Ret (False, s))"
    unfolding n using decrypt_loop_fails [OF assms, of lib ans 0 199] by (simp add: numeral_2_eq_2)
  show ?thesis by (simp add: crypto_aes_gcm_decrypt_measure_def l case_prod_beta Let_def)
qed

lemma warmup_quarter:
  assumes "ad_ciphertext s = map Some cipher @ rest" "length cipher = GCM_CHUNK" "length (ad_plaintext s) = GCM_CHUNK"
    "fst (c_malloc w)" "\<And>i. ans i"
  shows "\<exists>t v. crypto_aes_gcm_decrypt_warmup lib ans s w =
    Ret (if ad_tag s = Some (gcm_tag lib (ad_key s) (ad_iv s) (take (GCM_CHUNK div 4) cipher)) then 0 else -1, t, v)"
proof -
  have "GCM_CHUNK div 4 \<le> length cipher" using assms(2) by (simp add: gcm_sizes)
  then have t: "take (GCM_CHUNK div 4) (ad_ciphertext s) = map Some (take (GCM_CHUNK div 4) cipher)"
    using assms(1) by (simp add: take_map)
  have m: "map (the \<circ> Some) xs = xs" for xs :: bytes by (induction xs) simp_all
  have "None \<notin> set (take (GCM_CHUNK div 4) (ad_ciphertext s))" unfolding t by auto
  moreover have "\<not> length (ad_plaintext s) < GCM_CHUNK div 4" using assms(3) by (simp add: gcm_sizes)
  ultimately have "\<exists>t. evp_decrypt_update lib (GCM_CHUNK div 4) s = Ret (take (GCM_CHUNK div 4) cipher, t) \<and>
      ad_tag t = ad_tag s \<and> ad_key t = ad_key s \<and> ad_iv t = ad_iv s"
    by (simp add: evp_decrypt_update_def t m Let_def)
  then show ?thesis using assms(4,5) by (auto simp: crypto_aes_gcm_decrypt_warmup_def case_prod_beta Let_def)
qed

text \<open>
  C15. The benchmark crypto-aes-gcm-decrypt cannot give a result on a working library: after \<^verbatim>\<open>init\<close>, the warm-up succeeds only if the tag
  of a quarter of the ciphertext is that of all of it, and every measurement that gets a context writes past the plaintext buffer.
\<close>

theorem crypto_aes_gcm_decrypt_overflows:
  assumes "crypto_aes_gcm_decrypt_init lib True w = Ret (0, Some s, v)" "gcm_lengths lib"
  shows "(\<exists>cipher. ad_tag s = Some (gcm_tag lib (ad_key s) (ad_iv s) cipher) \<and> take GCM_CHUNK (ad_ciphertext s) = map Some cipher \<and>
      (\<forall>u. fst (c_malloc u) \<longrightarrow> (\<exists>t u'. crypto_aes_gcm_decrypt_warmup lib (\<lambda>_. True) s u =
        Ret (if gcm_tag lib (ad_key s) (ad_iv s) cipher = gcm_tag lib (ad_key s) (ad_iv s) (take (GCM_CHUNK div 4) cipher)
             then 0 else -1, t, u')))) \<and>
    (\<forall>u. fst (c_malloc u) \<longrightarrow> crypto_aes_gcm_decrypt_measure lib (\<lambda>_. True) s u = Undef OobWrite)"
proof -
  obtain cipher where c: "length cipher = GCM_CHUNK" "ad_ciphertext s = map Some cipher @ replicate GCM_TAG_SZ None"
    "ad_tag s = Some (gcm_tag lib (ad_key s) (ad_iv s) cipher)" using init_state(2) [OF assms] by blast
  have "take GCM_CHUNK (ad_ciphertext s) = map Some cipher" using c by simp
  then show ?thesis
    using c warmup_quarter [OF c(2,1) init_state(1) [OF assms]] measure_fails [OF init_state(1) [OF assms]] by auto
qed

text \<open>A library whose tag depends on the length, and memory for everything: warm-up and measurement as stated.\<close>

definition sample_gcm :: evp_gcm where
  "sample_gcm = \<lparr>gcm_encrypt = (\<lambda>k iv p. p), gcm_decrypt = (\<lambda>k iv c. c), gcm_tag = (\<lambda>k iv c. replicate 16 (word_of_nat (length c div 65536)))\<rparr>"

lemma rand_bytes_keeps: "memory_left w \<Longrightarrow> memory_left (snd (rand_bytes n w))"
  by (induction n arbitrary: w) (simp_all add: case_prod_beta)

lemma init_succeeds:
  assumes "memory_left w"
  shows "\<exists>s v. crypto_aes_gcm_decrypt_init lib True w = Ret (0, Some s, v)"
  using assms by (simp add: crypto_aes_gcm_decrypt_init_def rand_bytes_keeps case_prod_beta Let_def)

theorem crypto_aes_gcm_decrypt_overflows_witness:
  "\<exists>s v. crypto_aes_gcm_decrypt_init sample_gcm True quiet_world = Ret (0, Some s, v) \<and>
     (\<exists>t u'. crypto_aes_gcm_decrypt_warmup sample_gcm (\<lambda>_. True) s quiet_world = Ret (-1, t, u')) \<and>
     crypto_aes_gcm_decrypt_measure sample_gcm (\<lambda>_. True) s quiet_world = Undef OobWrite"
proof -
  obtain s v where i: "crypto_aes_gcm_decrypt_init sample_gcm True quiet_world = Ret (0, Some s, v)"
    using init_succeeds [of quiet_world sample_gcm] by auto
  have l: "gcm_lengths sample_gcm" by (simp add: gcm_lengths_def sample_gcm_def)
  have "gcm_tag sample_gcm k iv cipher \<noteq> gcm_tag sample_gcm k iv (take (GCM_CHUNK div 4) cipher)"
    if c: "take GCM_CHUNK (ad_ciphertext s) = map Some cipher" for k iv cipher
  proof -
    have "length (take GCM_CHUNK (ad_ciphertext s)) = 65536" using init_state(2) [OF i l] by (auto simp: gcm_sizes)
    then have "length cipher = 65536" using c by simp
    then show ?thesis by (simp add: sample_gcm_def gcm_sizes)
  qed
  then show ?thesis using crypto_aes_gcm_decrypt_overflows [OF i l] i by (auto split: if_splits)
qed

subsection \<open>crypto-zstd\<close>

definition ZSTD_DATA_SIZE :: nat where "ZSTD_DATA_SIZE = 64 * 1024 * 1024"

definition MAX_LINE_LEN :: nat where "MAX_LINE_LEN = 128"

definition zstd_words :: "string list" where
  "zstd_words = [''the'', ''quick'', ''brown'', ''fox'', ''jumps'', ''over'', ''lazy'', ''dog'', ''benchmark'', ''compress'',
     ''decompress'', ''throughput'', ''test'']"

definition zstd_word :: "nat \<Rightarrow> string" where
  "zstd_word r = zstd_words ! (r mod 13)"

text \<open>
  One line: seven draws, six of them for words. C leaves open in which order the arguments of a call are evaluated, so
  \<open>ord i\<close> is the draw that the \<open>i\<close>-th argument gets.
\<close>

fun rand_draws :: "nat \<Rightarrow> world \<Rightarrow> nat list \<times> world" where
  "rand_draws 0 w = ([], w)"
| "rand_draws (Suc n) w = (let (r, w) = c_rand w; (rs, w) = rand_draws n w in (r # rs, w))"

definition zstd_line :: "(nat \<Rightarrow> nat) \<Rightarrow> world \<Rightarrow> string \<times> world" where
  "zstd_line ord w =
     (let (rs, w) = rand_draws 7 w; r = (\<lambda>i. rs ! (ord i mod 7)); sp = '' ''
      in (zstd_word (r 0) @ sp @ zstd_word (r 1) @ sp @ zstd_word (r 2) @ sp @ dec (r 3) @ sp @ zstd_word (r 4) @ sp @
          zstd_word (r 5) @ sp @ zstd_word (r 6) @ [CHR 0x0A], w))"

text \<open>The loop: \<open>remaining\<close> bytes of the buffer are left. A line that does not fit ends it.\<close>

function zstd_text :: "(nat \<Rightarrow> nat) \<Rightarrow> nat \<Rightarrow> world \<Rightarrow> string \<times> world" where
  "zstd_text ord remaining w =
     (if MAX_LINE_LEN < remaining
      then let (line, w) = zstd_line ord w
        in if remaining \<le> length line then ([], w)
           else let (rest, w) = zstd_text ord (remaining - length line) w in (line @ rest, w)
      else ([], w))"
  by pat_completeness auto
termination
  by (relation "measure (\<lambda>(ord, remaining, w). remaining)") (auto simp: zstd_line_def case_prod_beta Let_def)

declare zstd_text.simps [simp del]

record crypto_zstd_state_t =
  zs_original :: string
  zs_comp_capacity :: nat

definition crypto_zstd_init :: "(nat \<Rightarrow> nat) \<Rightarrow> (nat \<Rightarrow> nat) \<Rightarrow> world \<Rightarrow> int \<times> crypto_zstd_state_t option \<times> world" where
  "crypto_zstd_init bound ord w =
     (let (p, w) = c_malloc w in
      if \<not> p then (-1, None, w)
      else let (a, w) = c_malloc w; (b, w) = c_malloc w
        in if \<not> a \<or> \<not> b then (-1, None, c_free p (c_free b (c_free a w)))
           else let (t, w) = zstd_text ord ZSTD_DATA_SIZE w
             in (0, Some \<lparr>zs_original = t, zs_comp_capacity = bound ZSTD_DATA_SIZE\<rparr>, w))"

text \<open>\<open>compresses n t\<close>: the size of the text compressed into \<open>n\<close> bytes, \<open>None\<close> for an error code.\<close>

definition crypto_zstd_warmup :: "crypto_zstd_state_t \<Rightarrow> world \<Rightarrow> int \<times> crypto_zstd_state_t \<times> world" where
  "crypto_zstd_warmup s w =
     (let (a, w) = c_malloc w; (b, w) = c_malloc w
      in if \<not> a \<or> \<not> b then (-1, s, c_free b (c_free a w)) else (0, s, c_free b (c_free a w)))"

definition crypto_zstd_measure ::
    "(nat \<Rightarrow> string \<Rightarrow> nat option) \<Rightarrow> crypto_zstd_state_t \<Rightarrow> world \<Rightarrow> int \<times> crypto_zstd_state_t \<times> measurement_t \<times> world" where
  "crypto_zstd_measure compresses s w =
     (let (t0, w) = clock_monotonic w; csize = compresses (zs_comp_capacity s) (zs_original s); (t1, w) = clock_monotonic w;
          el = elapsed t0 t1
      in case csize of
           None \<Rightarrow> (-1, s, plain_result 0 0, w)
         | Some _ \<Rightarrow> (0, s, plain_result (rate (real (length (zs_original s))) el) el, w))"

definition crypto_zstd_cleanup :: "world \<Rightarrow> int \<times> world" where
  "crypto_zstd_cleanup w = (0, c_free True (c_free True (c_free True w)))"

definition crypto_zstd_ops ::
    "(nat \<Rightarrow> nat) \<Rightarrow> (nat \<Rightarrow> nat) \<Rightarrow> (nat \<Rightarrow> string \<Rightarrow> nat option) \<Rightarrow> crypto_zstd_state_t option bench_ops" where
  "crypto_zstd_ops bound ord compresses =
     \<lparr>op_init = crypto_zstd_init bound ord,
      op_warmup = Some (\<lambda>st w. let (r, s, w) = crypto_zstd_warmup (the st) w in (r, Some s, w)),
      op_measure = (\<lambda>st w. let (r, s, m, w) = crypto_zstd_measure compresses (the st) w in (r, Some s, m, w)),
      op_cleanup = (\<lambda>st w. crypto_zstd_cleanup w)\<rparr>"

text \<open>Every line fits: 77 bytes at most, so the text ends within \<open>MAX_LINE_LEN\<close> bytes of the end of the buffer.\<close>

lemma zstd_word_length: "length (zstd_word r) \<le> 10"
proof -
  have "zstd_word r \<in> set zstd_words" unfolding zstd_word_def by (intro nth_mem) (simp add: zstd_words_def)
  moreover have "\<forall>x \<in> set zstd_words. length x \<le> 10" by (simp add: zstd_words_def)
  ultimately show ?thesis by blast
qed

lemma rand_draws_below: "length (fst (rand_draws n w)) = n \<and> (\<forall>r \<in> set (fst (rand_draws n w)). r < 2147483648)"
  by (induction n arbitrary: w) (auto simp: case_prod_beta c_rand_def)

lemma zstd_line_length: "length (fst (zstd_line ord w)) \<le> 77 \<and> fst (zstd_line ord w) \<noteq> []"
proof -
  let ?rs = "fst (rand_draws 7 w)"
  have "?rs ! (ord 3 mod 7) \<in> set ?rs" using rand_draws_below [of 7 w] by (intro nth_mem) simp
  then have "?rs ! (ord 3 mod 7) < 2147483648" using rand_draws_below [of 7 w] by blast
  then have "length (dec (?rs ! (ord 3 mod 7))) \<le> 10" by (intro length_dec) simp_all
  then show ?thesis
    using zstd_word_length [of "?rs ! (ord 0 mod 7)"] zstd_word_length [of "?rs ! (ord 1 mod 7)"]
      zstd_word_length [of "?rs ! (ord 2 mod 7)"] zstd_word_length [of "?rs ! (ord 4 mod 7)"]
      zstd_word_length [of "?rs ! (ord 5 mod 7)"] zstd_word_length [of "?rs ! (ord 6 mod 7)"]
    by (simp add: zstd_line_def case_prod_beta Let_def)
qed

lemma zstd_text_length:
  "length (fst (zstd_text ord remaining w)) \<le> remaining \<and> remaining \<le> length (fst (zstd_text ord remaining w)) + MAX_LINE_LEN"
proof (induction ord remaining w rule: zstd_text.induct)
  case (1 ord remaining w)
  show ?case
  proof (cases "MAX_LINE_LEN < remaining")
    case True
    let ?l = "zstd_line ord w"
    have l: "length (fst ?l) < remaining" using True zstd_line_length [of ord w] by (simp add: MAX_LINE_LEN_def)
    have "length (fst (zstd_text ord (remaining - length (fst ?l)) (snd ?l))) \<le> remaining - length (fst ?l) \<and>
        remaining - length (fst ?l) \<le> length (fst (zstd_text ord (remaining - length (fst ?l)) (snd ?l))) + MAX_LINE_LEN"
      using 1 [OF True, of ?l "fst ?l" "snd ?l"] l by simp
    then show ?thesis using True l by (subst (1 2) zstd_text.simps) (auto simp: case_prod_beta Let_def)
  qed (subst (1 2) zstd_text.simps, simp)
qed

lemma zstd_init_text:
  assumes "crypto_zstd_init bound ord w = (0, Some s, w')"
  shows "ZSTD_DATA_SIZE - MAX_LINE_LEN \<le> length (zs_original s) \<and> length (zs_original s) \<le> ZSTD_DATA_SIZE"
  using assms zstd_text_length [of ord ZSTD_DATA_SIZE]
  by (auto simp: crypto_zstd_init_def case_prod_beta Let_def split: if_splits) (metis add.commute le_diff_conv)

lemma rand_draws_held [simp]: "held (snd (rand_draws n w)) = held w"
  by (induction n arbitrary: w) (simp_all add: case_prod_beta)

lemma zstd_text_held [simp]: "held (snd (zstd_text ord remaining w)) = held w"
proof (induction ord remaining w rule: zstd_text.induct)
  case (1 ord remaining w)
  then show ?case by (subst zstd_text.simps) (simp add: zstd_line_def case_prod_beta Let_def)
qed

interpretation crypto_zstd: bench_tidy "crypto_zstd_ops bound ord compresses" "\<lambda>st. st \<noteq> None" "\<lambda>_. 3"
  by unfold_locales
    (auto simp: crypto_zstd_ops_def crypto_zstd_init_def crypto_zstd_warmup_def crypto_zstd_measure_def crypto_zstd_cleanup_def
      held_own case_prod_beta Let_def split: if_splits option.splits)

end
