(* ===== verification/CryptoBench.thy ===== *)
theory CryptoBench
  imports KernelOps FileBench
begin

text \<open>
  The benchmarks of \<^verbatim>\<open>src/benchmarks/crypto\<close> that drive OpenSSL: block ciphers (\<^verbatim>\<open>crypto_aes.c\<close>, \<^verbatim>\<open>crypto_chacha20_poly1305.c\<close>,
  \<^verbatim>\<open>crypto_sm4.c\<close>), hashes (\<^verbatim>\<open>crypto_hash.c\<close>, \<^verbatim>\<open>crypto_sm3.c\<close>, \<^verbatim>\<open>crypto_hash_l2.c\<close>), signatures (\<^verbatim>\<open>crypto_rsa.c\<close>,
  \<^verbatim>\<open>crypto_ed25519_sign.c\<close>, \<^verbatim>\<open>crypto_ecdsa_p256_sign.c\<close>, \<^verbatim>\<open>crypto_sm2_sign.c\<close>), their verification (\<^verbatim>\<open>crypto_rsa_verify.c\<close>,
  \<^verbatim>\<open>crypto_ecdsa_p256_verify.c\<close>) and key exchange (\<^verbatim>\<open>crypto_x25519_ecdh.c\<close>). What they compute is the library's affair; the code's
  is which calls are made, what is done when one fails, what is counted and what is given back. So the parameter is what the library
  answers: \<open>ans i\<close> is the result of the \<open>i\<close>-th call that the operation looks at. Contexts and keys are allocations like others.
\<close>

subsection \<open>Allocations and calls\<close>

text \<open>\<open>n\<close> allocations one after the other, all tried: the number that succeeded. Freeing a null pointer does nothing.\<close>

fun alloc_all :: "nat \<Rightarrow> world \<Rightarrow> nat \<times> world" where
  "alloc_all 0 w = (0, w)"
| "alloc_all (Suc n) w = (let (p, w) = c_malloc w; (k, w) = alloc_all n w in (k + of_bool p, w))"

fun free_all :: "nat \<Rightarrow> world \<Rightarrow> world" where
  "free_all 0 w = w"
| "free_all (Suc n) w = free_all n (c_free True w)"

fun rand_buffers :: "nat list \<Rightarrow> world \<Rightarrow> bytes list \<times> world" where
  "rand_buffers [] w = ([], w)"
| "rand_buffers (n # ns) w = (let (b, w) = rand_bytes n w; (bs, w) = rand_buffers ns w in (b # bs, w))"

text \<open>\<open>if (ret != 1) goto err\<close> after each of \<open>k\<close> calls.\<close>

fun calls_ok :: "(nat \<Rightarrow> int) \<Rightarrow> nat \<Rightarrow> nat \<Rightarrow> bool" where
  "calls_ok ans pos 0 \<longleftrightarrow> True"
| "calls_ok ans pos (Suc k) \<longleftrightarrow> ans pos = 1 \<and> calls_ok ans (pos + 1) k"

text \<open>The loop of a measurement: \<open>per\<close> calls a round, the number of rounds done, and whether it came to its end.\<close>

fun rounds_ok :: "(nat \<Rightarrow> int) \<Rightarrow> nat \<Rightarrow> nat \<Rightarrow> nat \<Rightarrow> nat \<times> bool" where
  "rounds_ok ans pos per 0 = (0, True)"
| "rounds_ok ans pos per (Suc n) =
     (if calls_ok ans pos per then (let (m, ok) = rounds_ok ans (pos + per) per n in (m + 1, ok)) else (0, False))"

lemma alloc_all_held [simp]: "held (snd (alloc_all n w)) = owning (int (fst (alloc_all n w))) (held w)"
  by (induction n arbitrary: w) (simp_all add: case_prod_beta Let_def held_own algebra_simps)

lemma alloc_all_le: "fst (alloc_all n w) \<le> n"
  by (induction n arbitrary: w) (auto simp: case_prod_beta Let_def of_bool_def intro: le_SucI)

lemma alloc_all_full: "\<not> fst (alloc_all n w) < n \<Longrightarrow> int (fst (alloc_all n w)) = int n"
  using alloc_all_le [of n w] by simp

lemma free_all_held [simp]: "held (free_all n w) = owning (- int n) (held w)"
  by (induction n arbitrary: w) (simp_all add: held_own algebra_simps)

lemma rand_buffers_held [simp]: "held (snd (rand_buffers ns w)) = held w"
  by (induction ns arbitrary: w) (simp_all add: case_prod_beta)

lemma calls_ok_iff: "calls_ok ans pos k \<longleftrightarrow> (\<forall>i < k. ans (pos + i) = 1)"
  by (induction k arbitrary: pos) (auto simp: less_Suc_eq_0_disj)

lemma all_less_add: "(\<forall>i < a + b :: nat. P i) \<longleftrightarrow> (\<forall>i < a. P i) \<and> (\<forall>i < b. P (a + i))"
proof (intro iffI conjI allI impI)
  fix i assume p: "(\<forall>i < a. P i) \<and> (\<forall>i < b. P (a + i))" "i < a + b"
  show "P i"
  proof (cases "i < a")
    case False
    then have "i - a < b" "a + (i - a) = i" using p(2) by simp_all
    then show ?thesis using p(1) by metis
  qed (use p in blast)
qed auto

text \<open>The loop ends well exactly when every call of it returned 1, and then it has done all its rounds.\<close>

lemma rounds_ok_iff: "snd (rounds_ok ans pos per n) \<longleftrightarrow> (\<forall>i < n * per. ans (pos + i) = 1)"
proof (induction n arbitrary: pos)
  case (Suc n)
  show ?case by (simp add: Suc.IH calls_ok_iff all_less_add add.assoc case_prod_beta Let_def)
qed simp

lemma rounds_ok_count: "snd (rounds_ok ans pos per n) \<Longrightarrow> fst (rounds_ok ans pos per n) = n"
  by (induction n arbitrary: pos) (auto simp: case_prod_beta Let_def split: if_splits)

subsection \<open>Ciphers and hashes\<close>

definition CHUNK_SIZE :: nat where "CHUNK_SIZE = 64 * 1024"

definition NUM_CHUNKS :: nat where "NUM_CHUNKS = 200"

definition HASH_DATA_SIZE :: nat where "HASH_DATA_SIZE = 256 * 1024 * 1024"

definition HASH_L2_SIZE :: nat where "HASH_L2_SIZE = 1024 * 1024"

definition HASH_ITERS :: nat where "HASH_ITERS = 5000"

text \<open>\<open>init\<close>: the structure, \<open>m\<close> buffers, and random contents for those of the given sizes.\<close>

definition buffers_init :: "nat \<Rightarrow> nat list \<Rightarrow> world \<Rightarrow> int \<times> bytes list option \<times> world" where
  "buffers_init m sizes w =
     (let (p, w) = c_malloc w in
      if \<not> p then (-1, None, w)
      else let (k, w) = alloc_all m w
        in if k < m then (-1, None, c_free p (free_all k w))
           else let (bs, w) = rand_buffers sizes w in (0, Some bs, w))"

text \<open>The warm-up: a context, and \<open>k\<close> calls that must return 1.\<close>

definition context_warmup :: "nat \<Rightarrow> (nat \<Rightarrow> int) \<Rightarrow> world \<Rightarrow> int \<times> world" where
  "context_warmup k ans w =
     (let (ctx, w) = c_malloc w
      in if \<not> ctx then (-1, w) else (if calls_ok ans 0 k then 0 else -1, c_free ctx w))"

text \<open>The measurement: a context, the clock, \<open>pre\<close> calls, then \<open>n\<close> rounds of \<open>per\<close> calls, each worth \<open>amount\<close>.\<close>

definition context_measure :: "nat \<Rightarrow> nat \<Rightarrow> nat \<Rightarrow> nat \<Rightarrow> (nat \<Rightarrow> int) \<Rightarrow> world \<Rightarrow> int \<times> measurement_t \<times> world" where
  "context_measure pre per n amount ans w =
     (let (ctx, w) = c_malloc w in
      if \<not> ctx then (-1, plain_result 0 0, w)
      else let (t0, w) = clock_monotonic w; (done_rounds, ok) = rounds_ok ans pre per n; (t1, w) = clock_monotonic w;
               w = c_free ctx w; el = elapsed t0 t1
        in if calls_ok ans 0 pre \<and> ok then (0, plain_result (rate (real (done_rounds * amount)) el) el, w)
           else (-1, plain_result 0 0, w))"

text \<open>The big hashes: the clock is read before the context is made.\<close>

definition hash_measure :: "(nat \<Rightarrow> int) \<Rightarrow> world \<Rightarrow> int \<times> measurement_t \<times> world" where
  "hash_measure ans w =
     (let (t0, w) = clock_monotonic w; (ctx, w) = c_malloc w in
      if \<not> ctx then (-1, plain_result 0 0, w)
      else let (t1, w) = clock_monotonic w; w = c_free ctx w; el = elapsed t0 t1
        in if calls_ok ans 0 3 then (0, plain_result (rate (real HASH_DATA_SIZE) el) el, w) else (-1, plain_result 0 0, w))"

definition buffers_cleanup :: "nat \<Rightarrow> world \<Rightarrow> int \<times> world" where
  "buffers_cleanup m w = (0, c_free True (free_all m w))"

text \<open>The small hash makes a context for every round.\<close>

fun hash_l2_loop :: "(nat \<Rightarrow> int) \<Rightarrow> nat \<Rightarrow> nat \<Rightarrow> world \<Rightarrow> nat \<times> bool \<times> world" where
  "hash_l2_loop ans pos 0 w = (0, True, w)"
| "hash_l2_loop ans pos (Suc n) w =
     (let (ctx, w) = c_malloc w in
      if \<not> ctx then (0, False, w)
      else let w = c_free ctx w
        in if \<not> calls_ok ans pos 3 then (0, False, w)
           else let (m, ok, w) = hash_l2_loop ans (pos + 3) n w in (m + 1, ok, w))"

definition crypto_hash_l2_measure :: "(nat \<Rightarrow> int) \<Rightarrow> world \<Rightarrow> int \<times> measurement_t \<times> world" where
  "crypto_hash_l2_measure ans w =
     (let (t0, w) = clock_monotonic w; (m, ok, w) = hash_l2_loop ans 0 HASH_ITERS w; (t1, w) = clock_monotonic w; el = elapsed t0 t1
      in if ok then (0, plain_result (rate (real (m * HASH_L2_SIZE)) el) el, w) else (-1, plain_result 0 0, w))"

text \<open>The kernels.\<close>

definition crypto_aes_init :: "world \<Rightarrow> int \<times> bytes list option \<times> world" where
  "crypto_aes_init = buffers_init 5 [CHUNK_SIZE, 32, 12]"

definition crypto_aes_warmup :: "(nat \<Rightarrow> int) \<Rightarrow> world \<Rightarrow> int \<times> world" where
  "crypto_aes_warmup = context_warmup 4"

definition crypto_aes_measure :: "(nat \<Rightarrow> int) \<Rightarrow> world \<Rightarrow> int \<times> measurement_t \<times> world" where
  "crypto_aes_measure = context_measure 1 4 NUM_CHUNKS CHUNK_SIZE"

definition crypto_aes_cleanup :: "world \<Rightarrow> int \<times> world" where
  "crypto_aes_cleanup = buffers_cleanup 5"

definition crypto_chacha20_poly1305_init :: "world \<Rightarrow> int \<times> bytes list option \<times> world" where
  "crypto_chacha20_poly1305_init = buffers_init 5 [CHUNK_SIZE, 32, 12]"

definition crypto_chacha20_poly1305_warmup :: "(nat \<Rightarrow> int) \<Rightarrow> world \<Rightarrow> int \<times> world" where
  "crypto_chacha20_poly1305_warmup = context_warmup 4"

definition crypto_chacha20_poly1305_measure :: "(nat \<Rightarrow> int) \<Rightarrow> world \<Rightarrow> int \<times> measurement_t \<times> world" where
  "crypto_chacha20_poly1305_measure = context_measure 1 4 NUM_CHUNKS CHUNK_SIZE"

definition crypto_chacha20_poly1305_cleanup :: "world \<Rightarrow> int \<times> world" where
  "crypto_chacha20_poly1305_cleanup = buffers_cleanup 5"

text \<open>In the warm-up of SM4 only the first call is looked at.\<close>

definition crypto_sm4_init :: "world \<Rightarrow> int \<times> bytes list option \<times> world" where
  "crypto_sm4_init = buffers_init 4 [CHUNK_SIZE, 16, 16]"

definition crypto_sm4_warmup :: "(nat \<Rightarrow> int) \<Rightarrow> world \<Rightarrow> int \<times> world" where
  "crypto_sm4_warmup = context_warmup 1"

definition crypto_sm4_measure :: "(nat \<Rightarrow> int) \<Rightarrow> world \<Rightarrow> int \<times> measurement_t \<times> world" where
  "crypto_sm4_measure = context_measure 0 2 NUM_CHUNKS CHUNK_SIZE"

definition crypto_sm4_cleanup :: "world \<Rightarrow> int \<times> world" where
  "crypto_sm4_cleanup = buffers_cleanup 4"

definition crypto_hash_init :: "world \<Rightarrow> int \<times> bytes list option \<times> world" where
  "crypto_hash_init = buffers_init 1 [HASH_DATA_SIZE]"

definition crypto_hash_warmup :: "(nat \<Rightarrow> int) \<Rightarrow> world \<Rightarrow> int \<times> world" where
  "crypto_hash_warmup = context_warmup 3"

definition crypto_hash_measure :: "(nat \<Rightarrow> int) \<Rightarrow> world \<Rightarrow> int \<times> measurement_t \<times> world" where
  "crypto_hash_measure = hash_measure"

definition crypto_hash_cleanup :: "world \<Rightarrow> int \<times> world" where
  "crypto_hash_cleanup = buffers_cleanup 1"

definition crypto_sm3_init :: "world \<Rightarrow> int \<times> bytes list option \<times> world" where
  "crypto_sm3_init = buffers_init 1 [HASH_DATA_SIZE]"

definition crypto_sm3_warmup :: "(nat \<Rightarrow> int) \<Rightarrow> world \<Rightarrow> int \<times> world" where
  "crypto_sm3_warmup = context_warmup 3"

definition crypto_sm3_measure :: "(nat \<Rightarrow> int) \<Rightarrow> world \<Rightarrow> int \<times> measurement_t \<times> world" where
  "crypto_sm3_measure = hash_measure"

definition crypto_sm3_cleanup :: "world \<Rightarrow> int \<times> world" where
  "crypto_sm3_cleanup = buffers_cleanup 1"

definition crypto_hash_l2_init :: "world \<Rightarrow> int \<times> bytes list option \<times> world" where
  "crypto_hash_l2_init = buffers_init 1 [HASH_L2_SIZE]"

definition crypto_hash_l2_warmup :: "(nat \<Rightarrow> int) \<Rightarrow> world \<Rightarrow> int \<times> world" where
  "crypto_hash_l2_warmup = context_warmup 3"

definition crypto_hash_l2_cleanup :: "world \<Rightarrow> int \<times> world" where
  "crypto_hash_l2_cleanup = buffers_cleanup 1"

lemmas cipher_kernel_defs =
  crypto_aes_init_def crypto_aes_warmup_def crypto_aes_measure_def crypto_aes_cleanup_def
  crypto_chacha20_poly1305_init_def crypto_chacha20_poly1305_warmup_def crypto_chacha20_poly1305_measure_def
  crypto_chacha20_poly1305_cleanup_def
  crypto_sm4_init_def crypto_sm4_warmup_def crypto_sm4_measure_def crypto_sm4_cleanup_def
  crypto_hash_init_def crypto_hash_warmup_def crypto_hash_measure_def crypto_hash_cleanup_def
  crypto_sm3_init_def crypto_sm3_warmup_def crypto_sm3_measure_def crypto_sm3_cleanup_def
  crypto_hash_l2_init_def crypto_hash_l2_warmup_def crypto_hash_l2_cleanup_def

subsection \<open>Keys\<close>

definition RSA_SIGNS :: nat where "RSA_SIGNS = 200"

definition EC_SIGNS :: nat where "EC_SIGNS = 5000"

definition RSA_VERIFIES :: nat where "RSA_VERIFIES = 10000"

definition EC_VERIFIES :: nat where "EC_VERIFIES = 20000"

definition NUM_DERIVES :: nat where "NUM_DERIVES = 5000"

text \<open>Calls that report failure with zero or less.\<close>

fun calls_pos :: "(nat \<Rightarrow> int) \<Rightarrow> nat \<Rightarrow> nat \<Rightarrow> bool" where
  "calls_pos ans pos 0 \<longleftrightarrow> True"
| "calls_pos ans pos (Suc k) \<longleftrightarrow> 0 < ans pos \<and> calls_pos ans (pos + 1) k"

text \<open>
  \<open>init\<close>: the structure, a context, \<open>pre\<close> calls, the key (whether the generator stores one is its allocation, whatever it
  returns), \<open>m\<close> buffers, and a random message.
\<close>

definition key_init :: "nat \<Rightarrow> nat \<Rightarrow> nat list \<Rightarrow> (nat \<Rightarrow> int) \<Rightarrow> world \<Rightarrow> int \<times> bytes list option \<times> world" where
  "key_init pre m sizes ans w =
     (let (p, w) = c_malloc w in
      if \<not> p then (-1, None, w)
      else let (pctx, w) = c_malloc w in
        if \<not> pctx then (-1, None, c_free p w)
        else if \<not> calls_pos ans 0 pre then (-1, None, c_free p (c_free pctx w))
        else let (key, w) = c_malloc w; w = c_free pctx w in
          if ans pre \<le> 0 \<or> \<not> key then (-1, None, c_free p (c_free key w))
          else let (k, w) = alloc_all m w in
            if k < m then (-1, None, c_free p (free_all k (c_free key w)))
            else let (bs, w) = rand_buffers sizes w in (0, Some bs, w))"

text \<open>The two verifying benchmarks sign their message in \<open>init\<close>, with a context that is not checked.\<close>

definition verify_init :: "nat \<Rightarrow> (nat \<Rightarrow> int) \<Rightarrow> world \<Rightarrow> (int \<times> bytes list option \<times> world) outcome" where
  "verify_init pre ans w =
     (let (r, s, w) = key_init pre 1 [32] ans w in
      if r \<noteq> 0 then Ret (r, s, w)
      else let (ctx, w) = c_malloc w in if \<not> ctx then Undef NullDeref else Ret (0, s, c_free ctx w))"

definition key_cleanup :: "nat \<Rightarrow> world \<Rightarrow> int \<times> world" where
  "key_cleanup m w = (0, c_free True (free_all m (c_free True w)))"

text \<open>The signing kernels; all but RSA look at the first call of the warm-up only.\<close>

definition crypto_rsa_init :: "(nat \<Rightarrow> int) \<Rightarrow> world \<Rightarrow> int \<times> bytes list option \<times> world" where
  "crypto_rsa_init = key_init 2 2 [32]"

definition crypto_rsa_warmup :: "(nat \<Rightarrow> int) \<Rightarrow> world \<Rightarrow> int \<times> world" where
  "crypto_rsa_warmup = context_warmup 2"

definition crypto_rsa_measure :: "(nat \<Rightarrow> int) \<Rightarrow> world \<Rightarrow> int \<times> measurement_t \<times> world" where
  "crypto_rsa_measure = context_measure 0 2 RSA_SIGNS 1"

definition crypto_rsa_cleanup :: "world \<Rightarrow> int \<times> world" where
  "crypto_rsa_cleanup = key_cleanup 2"

definition crypto_ed25519_sign_init :: "(nat \<Rightarrow> int) \<Rightarrow> world \<Rightarrow> int \<times> bytes list option \<times> world" where
  "crypto_ed25519_sign_init = key_init 1 1 [32]"

definition crypto_ed25519_sign_warmup :: "(nat \<Rightarrow> int) \<Rightarrow> world \<Rightarrow> int \<times> world" where
  "crypto_ed25519_sign_warmup = context_warmup 1"

definition crypto_ed25519_sign_measure :: "(nat \<Rightarrow> int) \<Rightarrow> world \<Rightarrow> int \<times> measurement_t \<times> world" where
  "crypto_ed25519_sign_measure = context_measure 0 2 EC_SIGNS 1"

definition crypto_ed25519_sign_cleanup :: "world \<Rightarrow> int \<times> world" where
  "crypto_ed25519_sign_cleanup = key_cleanup 1"

definition crypto_ecdsa_p256_sign_init :: "(nat \<Rightarrow> int) \<Rightarrow> world \<Rightarrow> int \<times> bytes list option \<times> world" where
  "crypto_ecdsa_p256_sign_init = key_init 2 1 [32]"

definition crypto_ecdsa_p256_sign_warmup :: "(nat \<Rightarrow> int) \<Rightarrow> world \<Rightarrow> int \<times> world" where
  "crypto_ecdsa_p256_sign_warmup = context_warmup 1"

definition crypto_ecdsa_p256_sign_measure :: "(nat \<Rightarrow> int) \<Rightarrow> world \<Rightarrow> int \<times> measurement_t \<times> world" where
  "crypto_ecdsa_p256_sign_measure = context_measure 0 2 EC_SIGNS 1"

definition crypto_ecdsa_p256_sign_cleanup :: "world \<Rightarrow> int \<times> world" where
  "crypto_ecdsa_p256_sign_cleanup = key_cleanup 1"

definition crypto_sm2_sign_init :: "(nat \<Rightarrow> int) \<Rightarrow> world \<Rightarrow> int \<times> bytes list option \<times> world" where
  "crypto_sm2_sign_init = key_init 2 1 [32]"

definition crypto_sm2_sign_warmup :: "(nat \<Rightarrow> int) \<Rightarrow> world \<Rightarrow> int \<times> world" where
  "crypto_sm2_sign_warmup = context_warmup 1"

definition crypto_sm2_sign_measure :: "(nat \<Rightarrow> int) \<Rightarrow> world \<Rightarrow> int \<times> measurement_t \<times> world" where
  "crypto_sm2_sign_measure = context_measure 0 2 EC_SIGNS 1"

definition crypto_sm2_sign_cleanup :: "world \<Rightarrow> int \<times> world" where
  "crypto_sm2_sign_cleanup = key_cleanup 1"

definition crypto_rsa_verify_init :: "(nat \<Rightarrow> int) \<Rightarrow> world \<Rightarrow> (int \<times> bytes list option \<times> world) outcome" where
  "crypto_rsa_verify_init = verify_init 2"

definition crypto_rsa_verify_warmup :: "(nat \<Rightarrow> int) \<Rightarrow> world \<Rightarrow> int \<times> world" where
  "crypto_rsa_verify_warmup = context_warmup 1"

definition crypto_rsa_verify_measure :: "(nat \<Rightarrow> int) \<Rightarrow> world \<Rightarrow> int \<times> measurement_t \<times> world" where
  "crypto_rsa_verify_measure = context_measure 0 2 RSA_VERIFIES 1"

definition crypto_rsa_verify_cleanup :: "world \<Rightarrow> int \<times> world" where
  "crypto_rsa_verify_cleanup = key_cleanup 1"

definition crypto_ecdsa_p256_verify_init :: "(nat \<Rightarrow> int) \<Rightarrow> world \<Rightarrow> (int \<times> bytes list option \<times> world) outcome" where
  "crypto_ecdsa_p256_verify_init = verify_init 2"

definition crypto_ecdsa_p256_verify_warmup :: "(nat \<Rightarrow> int) \<Rightarrow> world \<Rightarrow> int \<times> world" where
  "crypto_ecdsa_p256_verify_warmup = context_warmup 1"

definition crypto_ecdsa_p256_verify_measure :: "(nat \<Rightarrow> int) \<Rightarrow> world \<Rightarrow> int \<times> measurement_t \<times> world" where
  "crypto_ecdsa_p256_verify_measure = context_measure 0 2 EC_VERIFIES 1"

definition crypto_ecdsa_p256_verify_cleanup :: "world \<Rightarrow> int \<times> world" where
  "crypto_ecdsa_p256_verify_cleanup = key_cleanup 1"

subsection \<open>Key exchange\<close>

definition crypto_x25519_ecdh_init :: "(nat \<Rightarrow> int) \<Rightarrow> world \<Rightarrow> int \<times> bytes list option \<times> world" where
  "crypto_x25519_ecdh_init = key_init 1 0 []"

text \<open>A generator that fails stores no key; a null context makes every call fail. The warm-up looks at nothing.\<close>

definition new_peer :: "(nat \<Rightarrow> int) \<Rightarrow> nat \<Rightarrow> world \<Rightarrow> bool \<times> world" where
  "new_peer ans pos w =
     (let (pctx, w) = c_malloc w
      in if pctx \<and> 0 < ans pos \<and> 0 < ans (pos + 1) then let (peer, w) = c_malloc w in (peer, c_free pctx w)
         else (False, c_free pctx w))"

definition crypto_x25519_ecdh_warmup :: "(nat \<Rightarrow> int) \<Rightarrow> world \<Rightarrow> int \<times> world" where
  "crypto_x25519_ecdh_warmup ans w =
     (let (peer, w) = new_peer ans 0 w; (dctx, w) = c_malloc w in (0, c_free peer (c_free dctx w)))"

fun derive_loop :: "(nat \<Rightarrow> int) \<Rightarrow> nat \<Rightarrow> nat \<Rightarrow> world \<Rightarrow> bool \<times> world" where
  "derive_loop ans pos 0 w = (True, w)"
| "derive_loop ans pos (Suc n) w =
     (let (peer, w) = new_peer ans pos w in
      if \<not> peer then (False, w)
      else let (dctx, w) = c_malloc w; w = c_free peer (c_free dctx w)
        in if dctx \<and> calls_pos ans (pos + 2) 3 then derive_loop ans (pos + 5) n w else (False, w))"

definition crypto_x25519_ecdh_measure :: "(nat \<Rightarrow> int) \<Rightarrow> world \<Rightarrow> int \<times> measurement_t \<times> world" where
  "crypto_x25519_ecdh_measure ans w =
     (let (t0, w) = clock_monotonic w; (ok, w) = derive_loop ans 0 NUM_DERIVES w; (t1, w) = clock_monotonic w; el = elapsed t0 t1
      in if ok then (0, plain_result (rate (real NUM_DERIVES) el) el, w) else (-1, plain_result 0 0, w))"

definition crypto_x25519_ecdh_cleanup :: "world \<Rightarrow> int \<times> world" where
  "crypto_x25519_ecdh_cleanup = key_cleanup 0"

lemmas key_kernel_defs =
  crypto_rsa_init_def crypto_rsa_warmup_def crypto_rsa_measure_def crypto_rsa_cleanup_def
  crypto_ed25519_sign_init_def crypto_ed25519_sign_warmup_def crypto_ed25519_sign_measure_def crypto_ed25519_sign_cleanup_def
  crypto_ecdsa_p256_sign_init_def crypto_ecdsa_p256_sign_warmup_def crypto_ecdsa_p256_sign_measure_def
  crypto_ecdsa_p256_sign_cleanup_def
  crypto_sm2_sign_init_def crypto_sm2_sign_warmup_def crypto_sm2_sign_measure_def crypto_sm2_sign_cleanup_def
  crypto_x25519_ecdh_init_def crypto_x25519_ecdh_cleanup_def

subsection \<open>A measurement succeeds exactly when the library does\<close>

lemma context_measure_ok:
  "fst (context_measure pre per n amount ans w) = 0 \<longleftrightarrow> fst (c_malloc w) \<and> (\<forall>i < pre + n * per. ans i = 1)"
proof -
  have "(\<forall>i < pre + n * per. ans i = 1) \<longleftrightarrow> calls_ok ans 0 pre \<and> snd (rounds_ok ans pre per n)"
    by (simp add: calls_ok_iff rounds_ok_iff all_less_add)
  then show ?thesis by (simp add: context_measure_def case_prod_beta Let_def)
qed

lemma context_measure_result:
  "fst (context_measure pre per n amount ans w) = 0 \<Longrightarrow>
   \<exists>sec. fst (snd (context_measure pre per n amount ans w)) = plain_result (rate (real (n * amount)) sec) sec"
  using rounds_ok_count [of ans pre per n]
  by (auto simp: context_measure_def case_prod_beta Let_def split: if_splits)

lemma context_measure_failed:
  "fst (context_measure pre per n amount ans w) \<noteq> 0 \<Longrightarrow>
   fst (context_measure pre per n amount ans w) = -1 \<and> fst (snd (context_measure pre per n amount ans w)) = plain_result 0 0"
  by (auto simp: context_measure_def case_prod_beta Let_def split: if_splits)

text \<open>
  AES-GCM: a measurement succeeds exactly when a context could be made and all 801 calls of the library returned 1; it then
  reports the rate of 200 chunks of 64 KiB, and otherwise it returns \<open>-1\<close> and a zero result.
\<close>

theorem crypto_aes_measure_outcome:
  "(if fst (c_malloc w) \<and> (\<forall>i < 801. ans i = 1)
    then \<exists>sec v. crypto_aes_measure ans w = (0, plain_result (rate 13107200 sec) sec, v)
    else \<exists>v. crypto_aes_measure ans w = (-1, plain_result 0 0, v))"
proof -
  obtain r m v where c: "crypto_aes_measure ans w = (r, m, v)" by (metis prod.collapse)
  have "r = 0 \<longleftrightarrow> fst (c_malloc w) \<and> (\<forall>i < 801. ans i = 1)"
    using context_measure_ok [of 1 4 NUM_CHUNKS CHUNK_SIZE ans w] c by (simp add: cipher_kernel_defs NUM_CHUNKS_def)
  moreover have "r = 0 \<Longrightarrow> \<exists>sec. m = plain_result (rate 13107200 sec) sec"
    using context_measure_result [of 1 4 NUM_CHUNKS CHUNK_SIZE ans w] c
    by (simp add: cipher_kernel_defs NUM_CHUNKS_def CHUNK_SIZE_def)
  moreover have "r \<noteq> 0 \<Longrightarrow> r = -1 \<and> m = plain_result 0 0"
    using context_measure_failed [of 1 4 NUM_CHUNKS CHUNK_SIZE ans w] c by (simp add: cipher_kernel_defs)
  ultimately show ?thesis using c by auto
qed

subsection \<open>Nothing is kept\<close>

definition evp_ops ::
    "(world \<Rightarrow> int \<times> 's option \<times> world) \<Rightarrow> (world \<Rightarrow> int \<times> world) \<Rightarrow> (world \<Rightarrow> int \<times> measurement_t \<times> world) \<Rightarrow>
     (world \<Rightarrow> int \<times> world) \<Rightarrow> 's option bench_ops" where
  "evp_ops init warmup measure_fn cleanup =
     \<lparr>op_init = init, op_warmup = Some (\<lambda>st w. let (r, w) = warmup w in (r, st, w)),
      op_measure = (\<lambda>st w. let (r, m, w) = measure_fn w in (r, st, m, w)), op_cleanup = (\<lambda>st. cleanup)\<rparr>"

lemma evp_tidy:
  assumes "\<And>w. held (snd (snd (init w))) = (if fst (init w) = 0 then owning n (held w) else held w)"
    "\<And>w. held (snd (warmup w)) = held w" "\<And>w. held (snd (snd (measure_fn w))) = held w"
    "\<And>w. held (snd (cleanup w)) = owning (- n) (held w)"
  shows "bench_tidy (evp_ops init warmup measure_fn cleanup) (\<lambda>_. True) (\<lambda>_. n)"
proof unfold_locales
  fix w s w' assume "op_init (evp_ops init warmup measure_fn cleanup) w = (0, s, w')"
  then show "True \<and> held w' = owning n (held w)" using assms(1) [of w] by (simp add: evp_ops_def)
next
  fix f s w ret s' w'
  assume "op_warmup (evp_ops init warmup measure_fn cleanup) = Some f" "f s w = (ret, s', w')"
  then show "True \<and> n = n \<and> held w' = held w" using assms(2) [of w] by (auto simp: evp_ops_def split: prod.splits)
next
  fix s w ret s' m w' assume "op_measure (evp_ops init warmup measure_fn cleanup) s w = (ret, s', m, w')"
  then show "True \<and> n = n \<and> held w' = held w" using assms(3) [of w] by (auto simp: evp_ops_def split: prod.splits)
next
  fix s w ret w' assume "op_cleanup (evp_ops init warmup measure_fn cleanup) s w = (ret, w')"
  then show "held w' = owning (- n) (held w)" using assms(4) [of w] by (simp add: evp_ops_def)
next
  fix w ret s w' assume "op_init (evp_ops init warmup measure_fn cleanup) w = (ret, s, w')" "ret \<noteq> 0"
  then show "held w' = held w" using assms(1) [of w] by (simp add: evp_ops_def)
qed

lemma buffers_init_held:
  "held (snd (snd (buffers_init m sizes w))) = (if fst (buffers_init m sizes w) = 0 then owning (int m + 1) (held w) else held w)"
  by (auto simp: buffers_init_def case_prod_beta Let_def held_own alloc_all_full algebra_simps)

lemma buffers_cleanup_held: "held (snd (buffers_cleanup m w)) = owning (- (int m + 1)) (held w)"
  by (simp add: buffers_cleanup_def held_own algebra_simps)

lemma context_warmup_held: "held (snd (context_warmup k ans w)) = held w"
  by (simp add: context_warmup_def case_prod_beta Let_def held_own)

lemma context_measure_held: "held (snd (snd (context_measure pre per n amount ans w))) = held w"
  by (simp add: context_measure_def case_prod_beta Let_def held_own)

lemma hash_measure_held: "held (snd (snd (hash_measure ans w))) = held w"
  by (simp add: hash_measure_def case_prod_beta Let_def held_own)

lemma hash_l2_held: "held (snd (snd (hash_l2_loop ans pos n w))) = held w"
  by (induction n arbitrary: pos w) (simp_all add: case_prod_beta Let_def held_own)

lemma key_init_held:
  "held (snd (snd (key_init pre m sizes ans w))) = (if fst (key_init pre m sizes ans w) = 0 then owning (int m + 2) (held w) else held w)"
  by (auto simp: key_init_def case_prod_beta Let_def held_own alloc_all_full algebra_simps)

lemma key_cleanup_held: "held (snd (key_cleanup m w)) = owning (- (int m + 2)) (held w)"
  by (simp add: key_cleanup_def held_own owning_def)

lemma new_peer_held: "held (snd (new_peer ans pos w)) = owning (of_bool (fst (new_peer ans pos w))) (held w)"
  by (simp add: new_peer_def case_prod_beta Let_def held_own)

lemma derive_held: "held (snd (derive_loop ans pos n w)) = held w"
  by (induction n arbitrary: pos w) (simp_all add: case_prod_beta Let_def held_own new_peer_held)

lemma x25519_warmup_held: "held (snd (crypto_x25519_ecdh_warmup ans w)) = held w"
  by (simp add: crypto_x25519_ecdh_warmup_def case_prod_beta Let_def held_own new_peer_held)

lemma x25519_measure_held: "held (snd (snd (crypto_x25519_ecdh_measure ans w))) = held w"
  by (simp add: crypto_x25519_ecdh_measure_def case_prod_beta Let_def derive_held)

lemma hash_l2_measure_held: "held (snd (snd (crypto_hash_l2_measure ans w))) = held w"
  by (simp add: crypto_hash_l2_measure_def case_prod_beta Let_def hash_l2_held)

lemmas evp_held = buffers_init_held buffers_cleanup_held context_warmup_held context_measure_held hash_measure_held
  key_init_held key_cleanup_held x25519_warmup_held x25519_measure_held hash_l2_measure_held

text \<open>Whatever the library answers to the warm-up and to the measurement (\<open>wa\<close> and \<open>ma\<close>), and to \<open>init\<close>.\<close>

interpretation crypto_aes: bench_tidy "evp_ops crypto_aes_init (crypto_aes_warmup wa) (crypto_aes_measure ma) crypto_aes_cleanup" "\<lambda>_. True" "\<lambda>_. 6"
  by (rule evp_tidy) (simp_all add: cipher_kernel_defs evp_held)

interpretation crypto_chacha20_poly1305: bench_tidy "evp_ops crypto_chacha20_poly1305_init (crypto_chacha20_poly1305_warmup wa)
    (crypto_chacha20_poly1305_measure ma) crypto_chacha20_poly1305_cleanup" "\<lambda>_. True" "\<lambda>_. 6"
  by (rule evp_tidy) (simp_all add: cipher_kernel_defs evp_held)

interpretation crypto_sm4: bench_tidy "evp_ops crypto_sm4_init (crypto_sm4_warmup wa) (crypto_sm4_measure ma) crypto_sm4_cleanup" "\<lambda>_. True" "\<lambda>_. 5"
  by (rule evp_tidy) (simp_all add: cipher_kernel_defs evp_held)

interpretation crypto_hash: bench_tidy "evp_ops crypto_hash_init (crypto_hash_warmup wa) (crypto_hash_measure ma) crypto_hash_cleanup" "\<lambda>_. True" "\<lambda>_. 2"
  by (rule evp_tidy) (simp_all add: cipher_kernel_defs evp_held)

interpretation crypto_sm3: bench_tidy "evp_ops crypto_sm3_init (crypto_sm3_warmup wa) (crypto_sm3_measure ma) crypto_sm3_cleanup" "\<lambda>_. True" "\<lambda>_. 2"
  by (rule evp_tidy) (simp_all add: cipher_kernel_defs evp_held)

interpretation crypto_hash_l2: bench_tidy "evp_ops crypto_hash_l2_init (crypto_hash_l2_warmup wa) (crypto_hash_l2_measure ma) crypto_hash_l2_cleanup" "\<lambda>_. True" "\<lambda>_. 2"
  by (rule evp_tidy) (simp_all add: cipher_kernel_defs evp_held)

interpretation crypto_rsa: bench_tidy "evp_ops (crypto_rsa_init ia) (crypto_rsa_warmup wa) (crypto_rsa_measure ma) crypto_rsa_cleanup" "\<lambda>_. True" "\<lambda>_. 4"
  by (rule evp_tidy) (simp_all add: key_kernel_defs evp_held)

interpretation crypto_ed25519: bench_tidy "evp_ops (crypto_ed25519_sign_init ia) (crypto_ed25519_sign_warmup wa)
    (crypto_ed25519_sign_measure ma) crypto_ed25519_sign_cleanup" "\<lambda>_. True" "\<lambda>_. 3"
  by (rule evp_tidy) (simp_all add: key_kernel_defs evp_held)

interpretation crypto_ecdsa: bench_tidy "evp_ops (crypto_ecdsa_p256_sign_init ia) (crypto_ecdsa_p256_sign_warmup wa)
    (crypto_ecdsa_p256_sign_measure ma) crypto_ecdsa_p256_sign_cleanup" "\<lambda>_. True" "\<lambda>_. 3"
  by (rule evp_tidy) (simp_all add: key_kernel_defs evp_held)

interpretation crypto_sm2: bench_tidy "evp_ops (crypto_sm2_sign_init ia) (crypto_sm2_sign_warmup wa) (crypto_sm2_sign_measure ma)
    crypto_sm2_sign_cleanup" "\<lambda>_. True" "\<lambda>_. 3"
  by (rule evp_tidy) (simp_all add: key_kernel_defs evp_held)

interpretation crypto_x25519: bench_tidy "evp_ops (crypto_x25519_ecdh_init ia) (crypto_x25519_ecdh_warmup wa) (crypto_x25519_ecdh_measure ma)
    crypto_x25519_ecdh_cleanup" "\<lambda>_. True" "\<lambda>_. 2"
  by (rule evp_tidy) (simp_all add: key_kernel_defs evp_held)

text \<open>The benchmark whose round has the most ways to fail gives back all it took, whatever fails.\<close>

theorem crypto_x25519_never_leaks:
  assumes "lim_max_iter (instance_limits bench) \<le> int (length vs)"
  shows "\<exists>ret it us w'. run_benchmark_instance bench
      (evp_ops (crypto_x25519_ecdh_init ia) (crypto_x25519_ecdh_warmup wa) (crypto_x25519_ecdh_measure ma) crypto_x25519_ecdh_cleanup) vs w =
    Ret (ret, it, us, w') \<and> held w' = held w"
  by (rule crypto_x25519.instance_never_leaks [OF assms])

text \<open>Without memory for the last context, the verifying benchmarks hand the library a null pointer.\<close>

lemma verify_init_null_context:
  assumes "key_init 2 1 [32] ans w = (0, s, v)" "\<not> fst (c_malloc v)"
  shows "crypto_rsa_verify_init ans w = Undef NullDeref" "crypto_ecdsa_p256_verify_init ans w = Undef NullDeref"
  using assms by (simp_all add: crypto_rsa_verify_init_def crypto_ecdsa_p256_verify_init_def verify_init_def case_prod_beta Let_def)

end
