(* ===== verification/Spec2Isabelle.thy ===== *)
theory Spec2Isabelle
  imports Prelude Registry Catalog Stats CStr CpuSpec NumaTopo Placement MemPolicy Env Config
    Harness Parallel HarnessRun Scoring
    Radix IntSort HashTable IntHash Mpmc MpmcBench IntParse IntSubstr
    Exchange RankTests TDist StatTests Outliers
    SysFile SysFreq Hex SysTopo SysProbe Print SysHost
    Output Reports Getopt MainTexts MainProg MainSpec
    KernelOps RegexBench MatBench FftBench RayBench ChaseBench MemBench
    Finishing LockBench SemBench FutexBench PipeBench
    SieveBench ArrayBench FileBench NetBench SocketBench ProcBench IpcBench AtomicBench GcmBench CryptoBench
begin

text \<open>
  A verification development for ServMark, the server benchmark suite: a C program that registers benchmark kernels at
  load time, selects some of them from a configuration, runs each under a measuring harness, computes statistics and
  scores, and writes reports.

  \<^bold>\<open>The program.\<close> \<^verbatim>\<open>main\<close> (\<^verbatim>\<open>src/main.c\<close>) reads the command line and a config file into a \<^verbatim>\<open>run_config_t\<close>, probes the
  machine (\<^verbatim>\<open>src/core/system.c\<close>), locks the CPU frequency, calls \<^verbatim>\<open>harness_run\<close> (\<^verbatim>\<open>src/core/harness.c\<close>) and hands the result to
  the scoring (\<^verbatim>\<open>src/core/scoring.c\<close>) and the report writers (\<^verbatim>\<open>src/core/output.c\<close>). The harness walks the
  registry (\<^verbatim>\<open>src/core/benchmark.c\<close>), filters, and runs every benchmark in the process or, with several instances, in
  pinned children that report through pipes; its iteration loop and aggregation use \<^verbatim>\<open>src/core/stats.c\<close>. A benchmark is a
  descriptor with four function pointers, \<^verbatim>\<open>init\<close>, \<^verbatim>\<open>warmup\<close>, \<^verbatim>\<open>measure\<close> and \<^verbatim>\<open>cleanup\<close>.

  \<^bold>\<open>Conventions.\<close> (theories Prelude, Env, CStr, Print, Hex, SysFile)
  A C function is a HOL function of the same name from its arguments and the state it touches to its result and the new
  state. A struct is a record, an enum a datatype, a C string the list of its characters without the NUL, an \<^verbatim>\<open>int\<close> an
  \<open>int\<close> (cut to 32 bits where the code converts), \<^verbatim>\<open>uint64_t\<close> and \<^verbatim>\<open>uint32_t\<close> words. Undefined behaviour is a value:
  a function that can go out of bounds, read unwritten memory, overflow or follow a null pointer returns an
  \<open>outcome\<close>, \<open>Ret\<close> or \<open>Undef\<close>, so that absence of undefined behaviour is a theorem and not a convention. What the
  machine decides (\<^verbatim>\<open>rand\<close>, \<^verbatim>\<open>malloc\<close>, clocks, counters, pipes) is the record \<open>world\<close>: sequences of answers read in
  order, and the blocks, descriptors and seconds the program has taken. Files under \<^verbatim>\<open>/proc\<close> and \<^verbatim>\<open>/sys\<close> are maps from paths
  to contents. The C library's string functions, \<^verbatim>\<open>sscanf\<close>, \<^verbatim>\<open>strtok\<close>, \<^verbatim>\<open>getopt_long\<close> and \<^verbatim>\<open>printf\<close> are modelled as far as
  the program uses them; \<^verbatim>\<open>erf\<close> and \<^verbatim>\<open>lgamma\<close> are parameters.

  \<^bold>\<open>Theories and what they model.\<close>
  \<^item> Registry, Catalog: \<^verbatim>\<open>src/core/benchmark.c\<close>, \<^verbatim>\<open>inc/benchmark.h\<close> and the 66 descriptors of \<^verbatim>\<open>src/benchmarks\<close>. The registry
    implements the interface \<open>bounded_table\<close>; the catalog fits it and the harness's buffers.
  \<^item> Stats, Exchange, RankTests, TDist, StatTests, Outliers: \<^verbatim>\<open>src/core/stats.c\<close>, from sorting and the mean over bootstrap
    intervals to the Mann-Whitney, Benjamini-Hochberg, Welch, Anderson-Darling and generalized ESD procedures.
  \<^item> CpuSpec, NumaTopo, Placement, MemPolicy: the placement parts of \<^verbatim>\<open>src/core/harness.c\<close>: the parsers of
    \<^verbatim>\<open>--cpu-pin\<close> and \<^verbatim>\<open>--numa-topo\<close>, the sibling scan, the CPU and memory policy of a child, the topology override.
  \<^item> Harness, Parallel, HarnessRun: counters, the life cycle of one benchmark and its iteration loop, single and parallel runs, the
    selection and the scores of \<^verbatim>\<open>harness_run\<close>.
  \<^item> Scoring: \<^verbatim>\<open>src/core/scoring.c\<close> and the reference file.
  \<^item> SysFreq, SysTopo, SysProbe, SysHost: \<^verbatim>\<open>src/core/system.c\<close> and \<^verbatim>\<open>src/core/validate.c\<close>.
  \<^item> Output, Reports: \<^verbatim>\<open>src/core/output.c\<close>, the run identifier and the report texts.
  \<^item> Config, Getopt, MainTexts, MainProg, MainSpec: \<^verbatim>\<open>src/main.c\<close> and \<^verbatim>\<open>inc/harness.h\<close>, from \<^verbatim>\<open>argv\<close> to the exit status; MainSpec has
    the properties of the program as a whole.
  \<^item> KernelOps: the function pointers of a kernel whose state is a checked pointer.
  \<^item> Radix and IntSort, HashTable and IntHash, IntParse, IntSubstr and RegexBench, MatBench, FftBench, RayBench, ChaseBench and MemBench: the
    kernels \<^verbatim>\<open>int_sort.c\<close>, \<^verbatim>\<open>int_hash.c\<close>, \<^verbatim>\<open>int_parse.c\<close>, \<^verbatim>\<open>int_regex.c\<close>, \<^verbatim>\<open>fp_gemm.c\<close> and \<^verbatim>\<open>fp_conv.c\<close>,
    \<^verbatim>\<open>fp_fft.c\<close>, \<^verbatim>\<open>fp_ray.c\<close>, \<^verbatim>\<open>mem_latency.c\<close>, \<^verbatim>\<open>numa_latency.c\<close>, \<^verbatim>\<open>mem_random.c\<close> and \<^verbatim>\<open>mem_stream.c\<close>, against what they compute: sorting, finite maps, numbers, substrings, sums,
    Fourier sums, geometry, a ring over all slots.
  \<^item> Mpmc, MpmcBench, Finishing, LockBench, SemBench, FutexBench, PipeBench: the threaded kernels \<^verbatim>\<open>sync_mpmc.c\<close>, \<^verbatim>\<open>sync_mutex.c\<close>,
    \<^verbatim>\<open>sync_rwlock.c\<close>, \<^verbatim>\<open>sync_semaphore.c\<close>, \<^verbatim>\<open>cswitch_futex.c\<close>, \<^verbatim>\<open>cswitch_pipe.c\<close> and the two-process \<^verbatim>\<open>ipc_pipe.c\<close>, as step relations
    whose steps are the atomic actions of the threads.
  \<^item> SieveBench, ArrayBench, AtomicBench: \<^verbatim>\<open>vm_cpu_overhead.c\<close> against the prime numbers; \<^verbatim>\<open>fp_distance.c\<close>, \<^verbatim>\<open>mem_bandwidth.c\<close>,
    \<^verbatim>\<open>numa_bandwidth.c\<close>, \<^verbatim>\<open>numa_migration.c\<close> and the rest of \<^verbatim>\<open>mem_stream.c\<close>; \<^verbatim>\<open>cswitch_smt.c\<close>, \<^verbatim>\<open>numa_false_sharing.c\<close>
    and \<^verbatim>\<open>sync_spinlock.c\<close>.
  \<^item> FileBench: the kernels on files, \<^verbatim>\<open>fs_copy.c\<close>, \<^verbatim>\<open>fs_seq_rw.c\<close>, \<^verbatim>\<open>fs_rand_rw.c\<close>, \<^verbatim>\<open>fs_uring.c\<close>, \<^verbatim>\<open>fs_fsync.c\<close> and \<^verbatim>\<open>fs_meta.c\<close>,
    on maps from paths to contents; how much a call reads or writes is a parameter.
  \<^item> NetBench, SocketBench: the kernels of \<^verbatim>\<open>src/benchmarks/net\<close>, each the interleavings of its two threads and the state of the
    sockets between them.
  \<^item> ProcBench, IpcBench: the kernels of \<^verbatim>\<open>os\<close>, \<^verbatim>\<open>virt\<close> and \<^verbatim>\<open>io\<close> that time processes, threads, mappings, cheap system calls, an eventfd, a
    socket pair, signals and a file of \<^verbatim>\<open>/sys\<close>; which calls succeed is a parameter.
  \<^item> GcmBench, CryptoBench: the kernels of \<^verbatim>\<open>src/benchmarks/crypto\<close>. OpenSSL and zstd are parameters; the code's part is its buffers,
    which calls it makes and checks, what it counts and what it gives back.

  \<^bold>\<open>Interfaces.\<close>
  \<open>bounded_table\<close> (a table that refuses what does not fit; the registry), \<open>bench_lifecycle\<close> and its extension \<open>bench_tidy\<close> (what
  the four operations owe the harness: states stay good, nothing is kept; interpreted by the kernels \<^verbatim>\<open>int-sort\<close>,
  \<^verbatim>\<open>int-hash\<close>, \<^verbatim>\<open>int-parse\<close>, \<^verbatim>\<open>fp-gemm\<close>, \<^verbatim>\<open>fp-conv\<close>, \<^verbatim>\<open>fp-fft\<close>, \<^verbatim>\<open>fp-ray\<close>, \<^verbatim>\<open>vm-cpu-overhead\<close>, \<^verbatim>\<open>fp-distance\<close>,
  \<^verbatim>\<open>mem-bandwidth\<close>, \<^verbatim>\<open>crypto-zstd\<close> and eleven kernels over OpenSSL, so that \<open>instance_never_leaks\<close> holds of each under the real
  iteration loop), \<open>one_shot_bench\<close> (operations whose measurement works once: no run of the harness succeeds; \<^verbatim>\<open>net-conn-rate\<close> and
  \<^verbatim>\<open>net-zero-copy\<close>), \<open>dictionary\<close> (insert and lookup against a map; the hash table), \<open>bounded_queue\<close> (the queue run alone),
  \<open>report_writer\<close> (what the three report writers share), \<open>finishing_system\<close> (invariant, decreasing measure and progress give
  that every execution ends; the lock, semaphore, counter and connection benchmarks).

  \<^bold>\<open>What the lemmas show.\<close>
  Safety: which inputs make the statistics, the parsers, the probe, the report writers and the parallel run undefined, stated as
  equivalences where the boundary is exact (31 values, 16 nodes, negative CPUs, unrated subtests). Bookkeeping: runs, children and kernels give
  back what they take. Round trips: CPU and NUMA specifications, the command line, the reference file, JSON lines, CPU maps, number lists,
  the transform of fp-fft. Equivalence with a reference: radix sort with sorting, the transform with the Fourier sum, the intersection test with
  geometry, the rank statistics with their counting definitions. Liveness and its failure: every execution of the lock and semaphore
  benchmarks ends; the futex and pipe ping-pongs have executions that hang; net-latency ends exactly when it can connect. Benchmarks that
  do not measure what they report: one that overruns its buffer, two that work once, one that migrates nothing, one whose reads all
  fail. The program: a run with status 0 leaves exactly the lines of the
  selected benchmarks in the results file.

  \<^bold>\<open>Bounds.\<close>
  No model needs fuel. Loops are structural recursion, folds over the index ranges of the source, or functions with a
  termination proof (\<open>fft_loop\<close> doubles up to \<open>n\<close>, \<open>log_loop\<close> shrinks by a line, the scans of strings shrink). The continued fraction and
  the bisection of TDist have the round limits of the source (200 and 50; 24 bisections are enough), and \<open>t_quantile_bracket\<close> states what the interval is
  when they end.

  \<^bold>\<open>Idealisations.\<close>
  Floating point is the field of real numbers, and a result that C computes as a NaN is \<open>None\<close> or excluded. Threads interleave as sequential
  consistency allows; a spinning wait is a step that is possible once the flag is set; library locks, semaphores, futexes and pipes
  do what their manuals say; creating a thread succeeds. Sockets, files, libnuma, OpenSSL and zstd answer as parameters, within what their
  manuals promise (a read returns something before the end of the file, a listener that is shut down refuses, pages stay where they were
  touched first, a ciphertext is as long as its text). Fresh memory holds arbitrary values, the parameter \<open>junk\<close>, where the code does
  not depend on them. The order in which C evaluates the arguments of one call is left to right, except in crypto-zstd, where it is a parameter.

  \<^bold>\<open>Not modelled.\<close>
  What the libraries and the kernel compute: ciphers, hashes, signatures, compressed data, scheduling, page tables. The contents of
  buffers that are only timed, thread affinity inside a kernel, socket options. Timing, signals and the exec of shell commands are actions
  without effect on the model. Build files and scripts are not modelled.
\<close>

end
